(* ===== verification/TH_Prelude.thy ===== *)
theory TH_Prelude
  imports Main "HOL-Library.Signed_Division"
begin

text \<open>
  Shared material of the TicketHub development: the integers and strings of Go that the services
  use, and the programs (state transformers with an error result) in which the handlers are written.

  \<^item> \<open>int64\<close> values are HOL integers kept in range: every arithmetic operation of the source that can
    leave the range is written with \<open>wrap64\<close>, two's complement truncation to 64 bits. Go's \<open>/\<close> and \<open>%\<close>
    truncate towards zero: they are \<open>sdiv\<close> and \<open>smod\<close> of \<open>HOL-Library.Signed_Division\<close>.
  \<^item> \<open>time.Time\<close> is the number of nanoseconds since Go's zero time, so \<open>IsZero\<close> is \<open>t = 0\<close>;
    \<open>time.Duration\<close> is a number of nanoseconds.
  \<^item> \<open>strconv.FormatInt\<close>, \<open>strconv.ParseInt\<close>, \<open>strings.Join\<close>, \<open>strings.Trim\<close> and
    \<open>strings.TrimSpace\<close> are modelled on byte strings.
  \<^item> A Go function that may fail and changes state \<open>'s\<close> is a program of type
    \<open>('e, 's, 'a) prog\<close>, a function from a state to an error or a value together with the new state.
\<close>

named_theorems go_simps \<open>unfolding rules for the program combinators\<close>

section \<open>Integers\<close>

type_synonym int64 = int
type_synonym time = int
type_synonym duration = int

definition wrap64 :: "int \<Rightarrow> int64" where
  "wrap64 x = signed_take_bit 63 x"

definition in64 :: "int \<Rightarrow> bool" where
  "in64 x \<longleftrightarrow> - (2 ^ 63) \<le> x \<and> x < 2 ^ 63"

abbreviation MaxInt64 :: int64 where
  "MaxInt64 \<equiv> 9223372036854775807"

lemma wrap64_id: "in64 x \<Longrightarrow> wrap64 x = x"
  by (simp add: in64_def wrap64_def signed_take_bit_int_eq_self)

lemma wrap64_in64: "in64 (wrap64 x)"
  using signed_take_bit_int_greater_eq_minus_exp [of 63 x] signed_take_bit_int_less_exp [of 63 x]
  by (simp add: in64_def wrap64_def)

text \<open>Going back to a small non-negative value is the identity.\<close>

lemma wrap64_nonneg: "0 \<le> x \<Longrightarrow> x < 2 ^ 63 \<Longrightarrow> wrap64 x = x"
  by (rule wrap64_id) (simp add: in64_def)

section \<open>Strings\<close>

definition digit :: "nat \<Rightarrow> char" where
  "digit d = char_of (48 + d)"

definition digit_val :: "char \<Rightarrow> nat" where
  "digit_val c = of_char c - 48"

definition is_digit :: "char \<Rightarrow> bool" where
  "is_digit c \<longleftrightarrow> 48 \<le> (of_char c :: nat) \<and> (of_char c :: nat) \<le> 57"

fun show_nat :: "nat \<Rightarrow> string" where
  "show_nat n = (if n < 10 then [digit n] else show_nat (n div 10) @ [digit (n mod 10)])"

declare show_nat.simps [simp del]

text \<open>\<open>strconv.FormatInt(n, 10)\<close> and \<open>fmt.Sprint\<close> of an integer.\<close>

definition show_int :: "int \<Rightarrow> string" where
  "show_int n = (if n < 0 then CHR ''-'' # show_nat (nat (- n)) else show_nat (nat n))"

definition digits_val :: "string \<Rightarrow> nat" where
  "digits_val ds = foldl (\<lambda>a c. a * 10 + digit_val c) 0 ds"

text \<open>
  \<open>strconv.ParseInt(s, 10, 64)\<close>: an optional sign, at least one digit, nothing else, and a value in
  range; \<open>None\<close> is the error.
\<close>

definition parse_int :: "string \<Rightarrow> int64 option" where
  "parse_int s =
     (let neg = (s \<noteq> [] \<and> hd s = CHR ''-'');
          ds = (if s \<noteq> [] \<and> (hd s = CHR ''-'' \<or> hd s = CHR ''+'') then tl s else s);
          v = (if neg then - int (digits_val ds) else int (digits_val ds))
      in if ds = [] \<or> \<not> list_all is_digit ds \<or> \<not> in64 v then None else Some v)"

lemma digit_props:
  assumes "d < 10"
  shows "is_digit (digit d)" and "digit_val (digit d) = d"
proof -
  have "48 + d < 256" using assms by simp
  then have "of_char (digit d) = 48 + d"
    by (simp add: digit_def of_char_of)
  then show "is_digit (digit d)" and "digit_val (digit d) = d"
    using assms by (simp_all add: is_digit_def digit_val_def)
qed

lemma show_nat_digits: "list_all is_digit (show_nat n)"
proof (induction n rule: show_nat.induct)
  case (1 n)
  then show ?case
    by (subst show_nat.simps) (simp add: digit_props)
qed

lemma show_nat_ne: "show_nat n \<noteq> []"
  by (subst show_nat.simps) simp

lemma digits_val_snoc: "digits_val (ds @ [c]) = digits_val ds * 10 + digit_val c"
  by (simp add: digits_val_def)

lemma digits_val_show: "digits_val (show_nat n) = n"
proof (induction n rule: show_nat.induct)
  case (1 n)
  show ?case
  proof (cases "n < 10")
    case True
    then show ?thesis
      by (subst show_nat.simps) (simp add: digits_val_def digit_props)
  next
    case False
    with "1.IH" have "digits_val (show_nat (n div 10)) = n div 10" by simp
    with False show ?thesis
      by (subst show_nat.simps) (simp add: digits_val_snoc digit_props)
  qed
qed

lemma is_digit_not_sign:
  assumes "is_digit c"
  shows "c \<noteq> CHR ''-''" and "c \<noteq> CHR ''+''" and "c \<noteq> CHR '':''"
  using assms by (auto simp: is_digit_def)

lemma hd_show_nat: "is_digit (hd (show_nat n))"
  using show_nat_digits [of n] show_nat_ne [of n] by (cases "show_nat n") auto

lemma parse_shown: "parse_int (show_int n) = (if in64 n then Some n else None)"
proof (cases "n < 0")
  case True
  then show ?thesis
    by (simp add: parse_int_def show_int_def Let_def show_nat_ne show_nat_digits digits_val_show)
next
  case False
  then show ?thesis
    using is_digit_not_sign [OF hd_show_nat [of "nat n"]]
    by (simp add: parse_int_def show_int_def Let_def show_nat_ne show_nat_digits digits_val_show)
qed

lemma parse_show_int: "in64 n \<Longrightarrow> parse_int (show_int n) = Some n"
  by (simp add: parse_shown)

lemma show_nat_inj: "show_nat m = show_nat n \<Longrightarrow> m = n"
  by (metis digits_val_show)

lemma show_int_inj [simp]: "show_int m = show_int n \<longleftrightarrow> m = n"
proof
  assume eq: "show_int m = show_int n"
  have hd: "hd (show_int k) = CHR ''-'' \<longleftrightarrow> k < 0" for k
    using is_digit_not_sign [OF hd_show_nat [of "nat k"]] by (auto simp: show_int_def)
  from eq hd [of m] hd [of n] have "m < 0 \<longleftrightarrow> n < 0" by simp
  with eq show "m = n"
    by (auto simp: show_int_def dest: show_nat_inj split: if_splits)
qed simp

lemma show_int_ne [simp]: "show_int n \<noteq> []"
  by (simp add: show_int_def show_nat_ne)

lemma colon_not_in_show_int [simp]: "CHR '':'' \<notin> set (show_int n)"
proof -
  have "CHR '':'' \<notin> set (show_nat k)" for k
    using show_nat_digits [of k] is_digit_not_sign(3) by (auto simp: list_all_iff)
  then show ?thesis by (simp add: show_int_def)
qed

subsection \<open>Join and trim\<close>

text \<open>\<open>strings.Join(parts, sep)\<close>.\<close>

fun join :: "string \<Rightarrow> string list \<Rightarrow> string" where
  "join sep [] = []"
| "join sep [x] = x"
| "join sep (x # y # ys) = x @ sep @ join sep (y # ys)"

text \<open>Reading a number in decimal, without checks.\<close>

definition read_int :: "string \<Rightarrow> int" where
  "read_int s = (if s \<noteq> [] \<and> hd s = CHR ''-'' then - int (digits_val (tl s)) else int (digits_val s))"

lemma read_show_int: "read_int (show_int n) = n"
  using is_digit_not_sign [OF hd_show_nat [of "nat n"]] by (simp add: read_int_def show_int_def digits_val_show show_nat_ne)

text \<open>\<open>strings.Trim(s, cutset)\<close> for a predicate on bytes.\<close>

definition trim :: "(char \<Rightarrow> bool) \<Rightarrow> string \<Rightarrow> string" where
  "trim p s = rev (dropWhile p (rev (dropWhile p s)))"

definition is_space :: "char \<Rightarrow> bool" where
  "is_space c \<longleftrightarrow> c \<in> {CHR '' '', CHR 0x09, CHR 0x0A, CHR 0x0B, CHR 0x0C, CHR 0x0D}"

definition trim_space :: "string \<Rightarrow> string" where
  "trim_space = trim is_space"

text \<open>\<open>strings.Split(s, sep)\<close> for a separator of one byte.\<close>

fun split_on :: "char \<Rightarrow> string \<Rightarrow> string list" where
  "split_on sep [] = [[]]"
| "split_on sep (c # cs) = (if c = sep then [] # split_on sep cs else (c # hd (split_on sep cs)) # tl (split_on sep cs))"

lemma split_on_plain: "sep \<notin> set s \<Longrightarrow> split_on sep s = [s]"
  by (induction s) auto

lemma split_on_append: "sep \<notin> set s \<Longrightarrow> split_on sep (s @ sep # t) = s # split_on sep t"
  by (induction s) auto

text \<open>The pattern \<open>^[A-Za-z0-9_]+$\<close> of database and table names.\<close>

definition ident_char :: "char \<Rightarrow> bool" where
  "ident_char c \<longleftrightarrow> (let k = (of_char c :: nat) in
     48 \<le> k \<and> k \<le> 57 \<or> 65 \<le> k \<and> k \<le> 90 \<or> 97 \<le> k \<and> k \<le> 122 \<or> k = 95)"

definition is_ident :: "string \<Rightarrow> bool" where
  "is_ident s \<longleftrightarrow> s \<noteq> [] \<and> list_all ident_char s"

lemma dot_not_identifier: "is_ident s \<Longrightarrow> CHR ''.'' \<notin> set s"
  by (auto simp: is_ident_def ident_char_def list_all_iff)

definition upper :: "char \<Rightarrow> char" where
  "upper c = (if 97 \<le> (of_char c :: nat) \<and> (of_char c :: nat) \<le> 122
     then char_of ((of_char c :: nat) - 32) else c)"

text \<open>\<open>strings.ToUpper\<close> and \<open>strings.EqualFold\<close> on ASCII text.\<close>

definition to_upper :: "string \<Rightarrow> string" where
  "to_upper = map upper"

definition equal_fold :: "string \<Rightarrow> string \<Rightarrow> bool" where
  "equal_fold a b \<longleftrightarrow> to_upper a = to_upper b"

lemma trim_id: "\<forall>c \<in> set s. \<not> p c \<Longrightarrow> trim p s = s"
  by (simp add: trim_def dropWhile_eq_self_iff hd_rev) (metis dropWhile_eq_self_iff hd_in_set set_rev rev_rev_ident)

lemma join_head_unique:
  assumes "x @ CHR '':'' # r = y @ CHR '':'' # t" and "CHR '':'' \<notin> set x" and "CHR '':'' \<notin> set y"
  shows "x = y \<and> r = t"
  using assms by (induction x arbitrary: y) (case_tac y; auto)+

text \<open>Joining non-empty parts without a colon is injective.\<close>

definition plain_part :: "string \<Rightarrow> bool" where
  "plain_part s \<longleftrightarrow> s \<noteq> [] \<and> CHR '':'' \<notin> set s"

lemma plain_show_int [simp]: "plain_part (show_int n)"
  by (simp add: plain_part_def)

lemma join_Cons: "xs \<noteq> [] \<Longrightarrow> join sep (x # xs) = x @ sep @ join sep xs"
  by (cases xs) auto

lemma join_ne: "list_all plain_part xs \<Longrightarrow> xs \<noteq> [] \<Longrightarrow> join '':'' xs \<noteq> []"
  by (cases xs; cases "tl xs") (auto simp: plain_part_def)

lemma colon_in_join: "xs \<noteq> [] \<Longrightarrow> tl xs \<noteq> [] \<Longrightarrow> CHR '':'' \<in> set (join '':'' xs)"
  by (cases xs; cases "tl xs") auto

lemma join_inj:
  "list_all plain_part xs \<Longrightarrow> list_all plain_part ys \<Longrightarrow> join '':'' xs = join '':'' ys \<Longrightarrow> xs = ys"
proof (induction xs arbitrary: ys)
  case Nil
  then show ?case using join_ne by (metis join.simps(1))
next
  case (Cons x xs)
  from Cons.prems have "ys \<noteq> []"
    using join_ne by (metis join.simps(1) list.distinct(1))
  then obtain y ys' where ys: "ys = y # ys'" by (cases ys) auto
  have px: "CHR '':'' \<notin> set x" "CHR '':'' \<notin> set y"
    using Cons.prems ys by (auto simp: plain_part_def)
  show ?case
  proof (cases "xs = [] \<or> ys' = []")
    case True
    then show ?thesis
      using Cons.prems px ys by (cases xs; cases ys') (auto simp: join_Cons)
  next
    case False
    then have "x @ CHR '':'' # join '':'' xs = y @ CHR '':'' # join '':'' ys'"
      using Cons.prems(3) ys by (simp add: join_Cons)
    from join_head_unique [OF this px] have "x = y" and "join '':'' xs = join '':'' ys'" by auto
    with Cons.IH [of ys'] Cons.prems ys show ?thesis by simp
  qed
qed

section \<open>Lists\<close>

text \<open>Paging through a sorted list: after the last key of a page come the elements behind the page.\<close>

lemma page_rest:
  fixes f :: "'a \<Rightarrow> 'b :: linorder"
  assumes "sorted (map f F)" and "distinct (map f F)" and "take n F \<noteq> []"
  shows "filter (\<lambda>c. f (last (take n F)) < f c) F = drop n F"
proof -
  let ?T = "take n F" and ?D = "drop n F"
  have F: "F = ?T @ ?D" by simp
  have "sorted (map f (?T @ ?D))" "distinct (map f (?T @ ?D))" using assms(1,2) by simp_all
  then have s: "sorted (map f ?T)" "\<forall>x \<in> set ?T. \<forall>y \<in> set ?D. f x \<le> f y" "\<forall>x \<in> set ?T. \<forall>y \<in> set ?D. f x \<noteq> f y"
    unfolding map_append sorted_append distinct_append by auto
  have last: "last ?T \<in> set ?T" using assms(3) by (rule last_in_set)
  have "sorted (map f (butlast ?T @ [last ?T]))" using s(1) assms(3) by simp
  then have "\<forall>x \<in> set (butlast ?T). f x \<le> f (last ?T)" unfolding map_append sorted_append by auto
  then have "f x \<le> f (last ?T)" if "x \<in> set ?T" for x
    using that by (metis append_butlast_last_id assms(3) order_refl rotate1.simps(2) set_ConsD set_rotate1)
  then have "filter (\<lambda>c. f (last ?T) < f c) ?T = []" by (auto simp: filter_empty_conv not_less)
  moreover have "filter (\<lambda>c. f (last ?T) < f c) ?D = ?D"
    using s(2,3) last by (intro filter_True) (metis order_le_imp_less_or_eq)
  ultimately show ?thesis by (metis F append_Nil filter_append)
qed

section \<open>Programs\<close>

type_synonym ('e, 's, 'a) prog = "'s \<Rightarrow> ('e + 'a) \<times> 's"

definition returnG :: "'a \<Rightarrow> ('e, 's, 'a) prog" where
  [go_simps]: "returnG x s = (Inr x, s)"

definition failG :: "'e \<Rightarrow> ('e, 's, 'a) prog" where
  [go_simps]: "failG e s = (Inl e, s)"

text \<open>\<open>x, err := m(); if err != nil { return err }; f(x)\<close>\<close>

definition bindG :: "('e, 's, 'a) prog \<Rightarrow> ('a \<Rightarrow> ('e, 's, 'b) prog) \<Rightarrow> ('e, 's, 'b) prog" where
  "bindG m f s = (case m s of (Inl e, t) \<Rightarrow> (Inl e, t) | (Inr x, t) \<Rightarrow> f x t)"

text \<open>\<open>x, err := m()\<close> where the code looks at \<open>err\<close> itself.\<close>

definition attemptG :: "('e, 's, 'a) prog \<Rightarrow> ('e + 'a \<Rightarrow> ('f, 's, 'b) prog) \<Rightarrow> ('f, 's, 'b) prog" where
  "attemptG m f s = (case m s of (r, t) \<Rightarrow> f r t)"

text \<open>\<open>defer d()\<close> around \<open>m\<close>: \<open>d\<close> runs whatever \<open>m\<close> returns and its result is dropped.\<close>

definition deferG :: "('e, 's, 'a) prog \<Rightarrow> ('f, 's, 'b) prog \<Rightarrow> ('e, 's, 'a) prog" where
  "deferG m d s = (case m s of (r, t) \<Rightarrow> (r, snd (d t)))"

definition getG :: "('s \<Rightarrow> 'a) \<Rightarrow> ('e, 's, 'a) prog" where
  [go_simps]: "getG f s = (Inr (f s), s)"

definition modifyG :: "('s \<Rightarrow> 's) \<Rightarrow> ('e, 's, unit) prog" where
  [go_simps]: "modifyG f s = (Inr (), f s)"

text \<open>A program on one component of a larger state.\<close>

definition liftG :: "('w \<Rightarrow> 's) \<Rightarrow> ('s \<Rightarrow> 'w \<Rightarrow> 'w) \<Rightarrow> ('e, 's, 'a) prog \<Rightarrow> ('e, 'w, 'a) prog" where
  "liftG sel upd m w = (case m (sel w) of (r, s) \<Rightarrow> (r, upd s w))"

lemma bindG_Inr: "m s = (Inr x, t) \<Longrightarrow> bindG m f s = f x t"
  by (simp add: bindG_def)

lemma bindG_Inl: "m s = (Inl e, t) \<Longrightarrow> bindG m f s = (Inl e, t)"
  by (simp add: bindG_def)

lemma attemptG_eq: "m s = (r, t) \<Longrightarrow> attemptG m f s = f r t"
  by (simp add: attemptG_def)

lemma run_of_fst: "fst p = r \<Longrightarrow> p = (r, snd p)"
  by (cases p) simp

lemmas go_run = bindG_Inr bindG_Inl attemptG_eq

lemma bindG_simps [simp]:
  "bindG (returnG x) f = f x" "bindG (failG e) f = failG e"
  by (auto simp: fun_eq_iff bindG_def go_simps)

lemma getG_bind: "bindG (getG f) g w = g (f w) w"
  by (simp add: bindG_def getG_def)

lemma bindG_split:
  "P (bindG m f s) \<longleftrightarrow>
     (\<forall>e t. m s = (Inl e, t) \<longrightarrow> P (Inl e, t)) \<and> (\<forall>x t. m s = (Inr x, t) \<longrightarrow> P (f x t))"
  by (auto simp: bindG_def split: prod.splits sum.splits)

lemma bindG_result:
  assumes "bindG m f s = (Inr y, u)"
  obtains x t where "m s = (Inr x, t)" and "f x t = (Inr y, u)"
  using assms by (auto simp: bindG_def split: prod.splits sum.splits)

subsection \<open>What a program can do to the state\<close>

text \<open>
  \<open>keepsG R m\<close>: running \<open>m\<close> from any state leads to a state related to it by \<open>R\<close>, whether \<open>m\<close>
  succeeds or fails. For a preorder \<open>R\<close> the property passes through the combinators, so a handler
  has it as soon as each call it makes has it.
\<close>

definition keepsG :: "('s \<Rightarrow> 's \<Rightarrow> bool) \<Rightarrow> ('e, 's, 'a) prog \<Rightarrow> bool" where
  "keepsG R m \<longleftrightarrow> (\<forall>s. R s (snd (m s)))"

locale state_preorder =
  fixes R :: "'s \<Rightarrow> 's \<Rightarrow> bool"
  assumes R_refl: "R s s"
    and R_trans: "R s t \<Longrightarrow> R t u \<Longrightarrow> R s u"
begin

lemma keeps_return: "keepsG R (returnG x)"
  by (simp add: keepsG_def returnG_def R_refl)

lemma keeps_fail: "keepsG R (failG e)"
  by (simp add: keepsG_def failG_def R_refl)

lemma keeps_get: "keepsG R (getG f)"
  by (simp add: keepsG_def getG_def R_refl)

lemma keeps_bind:
  assumes "keepsG R m" and "\<And>x. keepsG R (f x)"
  shows "keepsG R (bindG m f)"
proof -
  have "R s (snd (bindG m f s))" for s
  proof (cases "m s")
    case (Pair r t)
    with assms(1) have "R s t" by (metis keepsG_def snd_conv)
    with assms(2) Pair show ?thesis
      by (auto simp: bindG_def keepsG_def split: sum.splits intro: R_trans)
  qed
  then show ?thesis by (simp add: keepsG_def)
qed

lemma keeps_attempt:
  assumes "keepsG R m" and "\<And>r. keepsG R (f r)"
  shows "keepsG R (attemptG m f)"
proof -
  have "R s (snd (attemptG m f s))" for s
  proof (cases "m s")
    case (Pair r t)
    with assms(1) have "R s t" by (metis keepsG_def snd_conv)
    moreover from assms(2) have "R t (snd (f r t))" by (simp add: keepsG_def)
    ultimately show ?thesis using Pair by (auto simp: attemptG_def intro: R_trans)
  qed
  then show ?thesis by (simp add: keepsG_def)
qed

lemma keeps_defer:
  assumes "keepsG R m" and "keepsG R d"
  shows "keepsG R (deferG m d)"
proof -
  have "R s (snd (deferG m d s))" for s
  proof (cases "m s")
    case (Pair r t)
    with assms(1) have "R s t" by (metis keepsG_def snd_conv)
    moreover from assms(2) have "R t (snd (d t))" by (simp add: keepsG_def)
    ultimately show ?thesis using Pair by (auto simp: deferG_def intro: R_trans)
  qed
  then show ?thesis by (simp add: keepsG_def)
qed

text \<open>The same from one given state, where more may be known of the first call.\<close>

lemma step_bind: "R s (snd (m s)) \<Longrightarrow> (\<And>x. keepsG R (f x)) \<Longrightarrow> R s (snd (bindG m f s))"
  by (auto simp: bindG_def keepsG_def split: prod.splits sum.splits intro: R_trans)

lemma step_attempt: "R s (snd (m s)) \<Longrightarrow> (\<And>r. keepsG R (f r)) \<Longrightarrow> R s (snd (attemptG m f s))"
  by (auto simp: attemptG_def keepsG_def split: prod.splits intro: R_trans)

lemmas keeps_intros = keeps_return keeps_fail keeps_get keeps_bind keeps_attempt keeps_defer

end

end
