(* ===== verification/App_Errors.thy ===== *)
theory App_Errors
  imports TH_Prelude
begin

text \<open>
  The error package (\<open>src/pkg/errors\<close>): error codes, \<open>AppError\<close> values, the code an error carries
  (\<open>CodeOf\<close>), the HTTP status and public message of a code, and the translation of errors to gRPC
  statuses and back (\<open>ToGRPC\<close>, \<open>codeFromGRPC\<close>) that every call between two services goes through.

  A Go \<open>error\<close> is one of: an \<open>AppError\<close>, a gRPC status error, an error made by \<open>fmt.Errorf\<close> or
  \<open>errors.New\<close> (\<open>PlainError\<close>), or two errors put together by \<open>errors.Join\<close>. A \<open>nil\<close> error is
  \<open>None\<close>. The gRPC library's \<open>status.WithDetails\<close> is a parameter of \<open>ToGRPC\<close>.
\<close>

section \<open>Codes\<close>

type_synonym Code = string

abbreviation CodeOK :: Code where "CodeOK \<equiv> ''OK''"
abbreviation CodeInvalidArgument :: Code where "CodeInvalidArgument \<equiv> ''INVALID_ARGUMENT''"
abbreviation CodeUnauthenticated :: Code where "CodeUnauthenticated \<equiv> ''UNAUTHENTICATED''"
abbreviation CodeForbidden :: Code where "CodeForbidden \<equiv> ''FORBIDDEN''"
abbreviation CodeNotFound :: Code where "CodeNotFound \<equiv> ''NOT_FOUND''"
abbreviation CodeConflict :: Code where "CodeConflict \<equiv> ''CONFLICT''"
abbreviation CodeTooManyRequests :: Code where "CodeTooManyRequests \<equiv> ''TOO_MANY_REQUESTS''"
abbreviation CodeInventoryNotEnough :: Code where "CodeInventoryNotEnough \<equiv> ''INVENTORY_NOT_ENOUGH''"
abbreviation CodeSeatUnavailable :: Code where "CodeSeatUnavailable \<equiv> ''SEAT_UNAVAILABLE''"
abbreviation CodeOrderStateConflict :: Code where "CodeOrderStateConflict \<equiv> ''ORDER_STATE_CONFLICT''"
abbreviation CodeDuplicateSubmission :: Code where "CodeDuplicateSubmission \<equiv> ''DUPLICATE_SUBMISSION''"
abbreviation CodeCaptchaRequired :: Code where "CodeCaptchaRequired \<equiv> ''CAPTCHA_REQUIRED''"
abbreviation CodeCaptchaInvalid :: Code where "CodeCaptchaInvalid \<equiv> ''CAPTCHA_INVALID''"
abbreviation CodeInfrastructure :: Code where "CodeInfrastructure \<equiv> ''INFRASTRUCTURE_ERROR''"
abbreviation CodeInternal :: Code where "CodeInternal \<equiv> ''INTERNAL''"

definition isKnownCode :: "Code \<Rightarrow> bool" where
  "isKnownCode c \<longleftrightarrow> c \<in>
     {CodeOK, CodeInvalidArgument, CodeUnauthenticated, CodeForbidden, CodeNotFound,
      CodeConflict, CodeTooManyRequests, CodeInventoryNotEnough, CodeSeatUnavailable,
      CodeOrderStateConflict, CodeDuplicateSubmission, CodeCaptchaRequired, CodeCaptchaInvalid,
      CodeInfrastructure, CodeInternal}"

definition HTTPStatus :: "Code \<Rightarrow> int" where
  "HTTPStatus c =
     (if c = CodeOK then 200
      else if c = CodeInvalidArgument then 400
      else if c = CodeUnauthenticated then 401
      else if c = CodeForbidden then 403
      else if c = CodeNotFound then 404
      else if c \<in> {CodeConflict, CodeSeatUnavailable, CodeOrderStateConflict, CodeDuplicateSubmission} then 409
      else if c = CodeInventoryNotEnough then 422
      else if c = CodeCaptchaRequired then 428
      else if c = CodeCaptchaInvalid then 400
      else if c = CodeTooManyRequests then 429
      else if c = CodeInfrastructure then 503
      else 500)"

section \<open>Errors\<close>

text \<open>The gRPC status codes the package names; the library's other codes are \<open>GOther\<close>.\<close>

datatype grpc_code =
  GInvalidArgument | GUnauthenticated | GPermissionDenied | GNotFound | GFailedPrecondition
  | GAlreadyExists | GAborted | GResourceExhausted | GUnavailable | GDeadlineExceeded | GInternal
  | GOther nat

datatype detail = ErrorInfo (Reason: string) (Domain: string) | OtherDetail

record status =
  st_code :: grpc_code
  st_message :: string
  st_details :: "detail list"

datatype error =
  AppError (Code: Code) (Message: string) (Cause: "error option")
  | StatusError status
  | PlainError string
  | JoinError error error

type_synonym ('s, 'a) go = "(error, 's, 'a) prog"

definition New :: "Code \<Rightarrow> string \<Rightarrow> error" where
  "New c m = AppError c m None"

definition Wrap :: "Code \<Rightarrow> string \<Rightarrow> error \<Rightarrow> error" where
  "Wrap c m cause = AppError c m (Some cause)"

text \<open>\<open>errors.As(err, &appErr)\<close> and \<open>status.FromError(err)\<close>: the first error of the tree of that kind.\<close>

fun find_app :: "error \<Rightarrow> Code option" where
  "find_app (AppError c m cause) = Some c"
| "find_app (StatusError st) = None"
| "find_app (PlainError m) = None"
| "find_app (JoinError a b) = (case find_app a of Some c \<Rightarrow> Some c | None \<Rightarrow> find_app b)"

fun FromError :: "error \<Rightarrow> status option" where
  "FromError (AppError c m cause) = (case cause of None \<Rightarrow> None | Some e \<Rightarrow> FromError e)"
| "FromError (StatusError st) = Some st"
| "FromError (PlainError m) = None"
| "FromError (JoinError a b) = (case FromError a of Some st \<Rightarrow> Some st | None \<Rightarrow> FromError b)"

text \<open>\<open>err.Error()\<close>: \<open>AppError\<close> by its method, a status error and a joined error as their libraries print them.\<close>

definition grpc_code_name :: "grpc_code \<Rightarrow> string" where
  "grpc_code_name c = (case c of
     GInvalidArgument \<Rightarrow> ''InvalidArgument'' | GUnauthenticated \<Rightarrow> ''Unauthenticated'' | GPermissionDenied \<Rightarrow> ''PermissionDenied''
   | GNotFound \<Rightarrow> ''NotFound'' | GFailedPrecondition \<Rightarrow> ''FailedPrecondition'' | GAlreadyExists \<Rightarrow> ''AlreadyExists''
   | GAborted \<Rightarrow> ''Aborted'' | GResourceExhausted \<Rightarrow> ''ResourceExhausted'' | GUnavailable \<Rightarrow> ''Unavailable''
   | GDeadlineExceeded \<Rightarrow> ''DeadlineExceeded'' | GInternal \<Rightarrow> ''Internal'' | GOther n \<Rightarrow> ''Code('' @ show_int (int n) @ '')'')"

fun error_text :: "error \<Rightarrow> string" where
  "error_text (AppError c m cause) = c @ '': '' @ m @ (case cause of None \<Rightarrow> [] | Some e \<Rightarrow> '': '' @ error_text e)"
| "error_text (StatusError st) = ''rpc error: code = '' @ grpc_code_name (st_code st) @ '' desc = '' @ st_message st"
| "error_text (PlainError m) = m"
| "error_text (JoinError a b) = error_text a @ [CHR 0x0A] @ error_text b"

text \<open>\<open>errors.Is(err, target)\<close>\<close>

fun errors_Is :: "error \<Rightarrow> error \<Rightarrow> bool" where
  "errors_Is (AppError c m cause) target \<longleftrightarrow> AppError c m cause = target \<or> (case cause of None \<Rightarrow> False | Some e \<Rightarrow> errors_Is e target)"
| "errors_Is (StatusError st) target \<longleftrightarrow> StatusError st = target"
| "errors_Is (PlainError m) target \<longleftrightarrow> PlainError m = target"
| "errors_Is (JoinError a b) target \<longleftrightarrow> JoinError a b = target \<or> errors_Is a target \<or> errors_Is b target"

definition codeFromGRPCStatus :: "grpc_code \<Rightarrow> Code" where
  "codeFromGRPCStatus c = (case c of
     GInvalidArgument \<Rightarrow> CodeInvalidArgument
   | GUnauthenticated \<Rightarrow> CodeUnauthenticated
   | GPermissionDenied \<Rightarrow> CodeForbidden
   | GNotFound \<Rightarrow> CodeNotFound
   | GFailedPrecondition \<Rightarrow> CodeConflict
   | GAlreadyExists \<Rightarrow> CodeConflict
   | GAborted \<Rightarrow> CodeConflict
   | GResourceExhausted \<Rightarrow> CodeTooManyRequests
   | GUnavailable \<Rightarrow> CodeInfrastructure
   | GDeadlineExceeded \<Rightarrow> CodeInfrastructure
   | _ \<Rightarrow> CodeInternal)"

fun detail_code :: "detail list \<Rightarrow> Code option" where
  "detail_code [] = None"
| "detail_code (ErrorInfo r d # ds) = (if d = ''tickethub'' \<and> isKnownCode r then Some r else detail_code ds)"
| "detail_code (OtherDetail # ds) = detail_code ds"

definition codeFromGRPC :: "error \<Rightarrow> Code option" where
  "codeFromGRPC err = (case FromError err of
     None \<Rightarrow> None
   | Some st \<Rightarrow> (case detail_code (st_details st) of
       Some c \<Rightarrow> Some c
     | None \<Rightarrow> Some (codeFromGRPCStatus (st_code st))))"

definition CodeOf :: "error option \<Rightarrow> Code" where
  "CodeOf err = (case err of
     None \<Rightarrow> CodeOK
   | Some e \<Rightarrow> (case find_app e of
       Some c \<Rightarrow> c
     | None \<Rightarrow> (case codeFromGRPC e of Some c \<Rightarrow> c | None \<Rightarrow> CodeInternal)))"

definition IsCode :: "error option \<Rightarrow> Code \<Rightarrow> bool" where
  "IsCode err c \<longleftrightarrow> CodeOf err = c"

definition grpcCode :: "Code \<Rightarrow> grpc_code" where
  "grpcCode c =
     (if c = CodeInvalidArgument then GInvalidArgument
      else if c = CodeUnauthenticated then GUnauthenticated
      else if c = CodeForbidden then GPermissionDenied
      else if c = CodeNotFound then GNotFound
      else if c \<in> {CodeConflict, CodeSeatUnavailable, CodeOrderStateConflict, CodeDuplicateSubmission, CodeCaptchaRequired}
        then GFailedPrecondition
      else if c = CodeCaptchaInvalid then GInvalidArgument
      else if c = CodeInventoryNotEnough then GResourceExhausted
      else if c = CodeTooManyRequests then GResourceExhausted
      else if c = CodeInfrastructure then GUnavailable
      else GInternal)"

text \<open>The messages shown to users; the Chinese texts are given as their UTF-8 bytes.\<close>

definition utf8 :: "nat list \<Rightarrow> string" where
  "utf8 bs = map char_of bs"

definition PublicMessage :: "Code \<Rightarrow> string" where
  "PublicMessage c =
     (if c = CodeInventoryNotEnough then utf8
        [229, 186, 147, 229, 173, 152, 228, 184, 141, 232, 182, 179]
      else if c = CodeSeatUnavailable then utf8
        [229, 186, 167, 228, 189, 141, 228, 184, 141, 229, 143, 175, 229, 148, 174]
      else if c = CodeOrderStateConflict then utf8
        [232, 174, 162, 229, 141, 149, 231, 138, 182, 230, 128, 129, 229, 134, 178, 231, 170, 129]
      else if c = CodeDuplicateSubmission then utf8
        [233, 135, 141, 229, 164, 141, 230, 143, 144, 228, 186, 164]
      else if c = CodeCaptchaRequired then utf8
        [232, 175, 183, 229, 174, 140, 230, 136, 144, 233, 170, 140, 232, 175, 129, 231, 160, 129, 233, 170, 140, 232, 175, 129]
      else if c = CodeCaptchaInvalid then utf8
        [233, 170, 140, 232, 175, 129, 231, 160, 129, 230, 151, 160, 230, 149, 136, 230, 136, 150, 229, 183, 178, 232, 191, 135, 230, 156, 159]
      else c)"

definition ToGRPC :: "(status \<Rightarrow> detail \<Rightarrow> status option) \<Rightarrow> error option \<Rightarrow> error option" where
  "ToGRPC withDetails err = (case err of
     None \<Rightarrow> None
   | Some e \<Rightarrow>
       (let code = CodeOf (Some e) in
        if code = CodeInternal \<and> FromError e \<noteq> None then Some e
        else
          (let value = \<lparr>st_code = grpcCode code, st_message = PublicMessage code, st_details = []\<rparr>;
               value = (case withDetails value (ErrorInfo code ''tickethub'') of
                          Some v \<Rightarrow> v | None \<Rightarrow> value)
           in Some (StatusError value))))"

text \<open>\<open>GRPCServerMiddleware\<close>: the handler's state change is kept, its error is translated.\<close>

definition GRPCServerMiddleware ::
  "(status \<Rightarrow> detail \<Rightarrow> status option) \<Rightarrow> ('s, 'a) go \<Rightarrow> ('s, 'a) go" where
  "GRPCServerMiddleware withDetails next =
     attemptG next (\<lambda>r. case r of
       Inl e \<Rightarrow> failG (the (ToGRPC withDetails (Some e)))
     | Inr x \<Rightarrow> returnG x)"

section \<open>Lemmas\<close>

lemma IsCode_New [simp]: "IsCode (Some (New c m)) c' \<longleftrightarrow> c = c'"
  by (simp add: IsCode_def CodeOf_def New_def)

lemma IsCode_Wrap [simp]: "IsCode (Some (Wrap c m e)) c' \<longleftrightarrow> c = c'"
  by (simp add: IsCode_def CodeOf_def Wrap_def)

lemma CodeOf_New [simp]: "CodeOf (Some (New c m)) = c"
  by (simp add: CodeOf_def New_def)

lemma CodeOf_Wrap [simp]: "CodeOf (Some (Wrap c m e)) = c"
  by (simp add: CodeOf_def Wrap_def)

text \<open>What the gRPC library documents of \<open>WithDetails\<close>: for a status whose code is not OK the detail is appended.\<close>

definition appends_details :: "(status \<Rightarrow> detail \<Rightarrow> status option) \<Rightarrow> bool" where
  "appends_details wd \<longleftrightarrow> (\<forall>st d. wd st d = Some (st\<lparr>st_details := st_details st @ [d]\<rparr>))"

lemma ToGRPC_code:
  assumes "appends_details wd" and "isKnownCode (CodeOf (Some e))"
  shows "CodeOf (ToGRPC wd (Some e)) = CodeOf (Some e)"
  using assms by (simp add: ToGRPC_def Let_def appends_details_def CodeOf_def codeFromGRPC_def)

text \<open>
  An error keeps its business code across any number of gRPC hops: after the server's
  \<open>ToGRPC\<close> the client's \<open>CodeOf\<close> reads the code the handler's error had, whatever the error's shape,
  as long as the code is one of the package's; translating again (the next hop) changes nothing.
\<close>

theorem grpc_code_round_trip:
  assumes "appends_details wd" and "isKnownCode (CodeOf (Some e))"
  shows "CodeOf (ToGRPC wd (Some e)) = CodeOf (Some e)
    \<and> CodeOf (ToGRPC wd (ToGRPC wd (Some e))) = CodeOf (Some e)
    \<and> HTTPStatus (CodeOf (ToGRPC wd (Some e))) = HTTPStatus (CodeOf (Some e))"
proof -
  from ToGRPC_code [OF assms] have one: "CodeOf (ToGRPC wd (Some e)) = CodeOf (Some e)" .
  have "ToGRPC wd (Some e) \<noteq> None"
    by (simp add: ToGRPC_def Let_def)
  then obtain e' where e': "ToGRPC wd (Some e) = Some e'" by blast
  have "CodeOf (ToGRPC wd (Some e')) = CodeOf (Some e')"
    using assms one e' by (intro ToGRPC_code) simp_all
  with one e' show ?thesis by simp
qed

theorem grpc_code_round_trip_witness:
  "CodeOf (ToGRPC (\<lambda>st d. Some (st\<lparr>st_details := st_details st @ [d]\<rparr>))
     (Some (Wrap CodeInventoryNotEnough ''lock failed'' (PlainError ''x'')))) = CodeInventoryNotEnough"
  using grpc_code_round_trip [of "\<lambda>st d. Some (st\<lparr>st_details := st_details st @ [d]\<rparr>)"
      "Wrap CodeInventoryNotEnough ''lock failed'' (PlainError ''x'')"]
  by (simp add: appends_details_def isKnownCode_def)

end
