(* ===== verification/Id_Gen.thy ===== *)
theory Id_Gen
  imports App_Errors
begin

text \<open>
  Identifier generation (\<open>src/pkg/idgen\<close>): the snowflake generator and the order numbers, which
  carry the user's shard gene in their low bits.

  The clock is the environment's: \<open>clk i\<close> is the \<open>i\<close>-th reading of \<open>clock().UnixNano()\<close>, and every
  operation takes and returns the number of readings made so far. \<open>waitNextMillis\<close> spins until the
  clock passes a value, so it may never return: it and its callers are partial (\<open>None\<close>), and
  \<open>waitNextMillis_returns\<close> says when they return. The mutex makes each call one step.
\<close>

unbundle bit_operations_syntax

section \<open>Snowflake\<close>

type_synonym clock = "nat \<Rightarrow> int64"

abbreviation (input) defaultEpochMS :: int64 where "defaultEpochMS \<equiv> 1704067200000"
abbreviation (input) nodeIDBits :: nat where "nodeIDBits \<equiv> 10"
abbreviation (input) sequenceBits :: nat where "sequenceBits \<equiv> 12"
abbreviation (input) maxNodeID :: int64 where "maxNodeID \<equiv> 1023"
abbreviation (input) sequenceMask :: int64 where "sequenceMask \<equiv> 4095"

record Snowflake =
  sf_epochMS :: int64
  sf_nodeID :: int64
  sf_lastMS :: int64
  sf_sequence :: int64

definition NewSnowflake :: "int64 \<Rightarrow> error + Snowflake" where
  "NewSnowflake nodeID =
     (if nodeID < 0 \<or> nodeID > maxNodeID
      then Inl (PlainError (''node id must be between 0 and '' @ show_int maxNodeID))
      else Inr \<lparr>sf_epochMS = defaultEpochMS, sf_nodeID = nodeID, sf_lastMS = 0, sf_sequence = 0\<rparr>)"

definition nowMS :: "clock \<Rightarrow> nat \<Rightarrow> int64" where
  "nowMS clk i = clk i sdiv 1000000"

partial_function (option) waitNextMillis :: "clock \<Rightarrow> int64 \<Rightarrow> nat \<Rightarrow> (int64 \<times> nat) option" where
  "waitNextMillis clk last_ms i =
     (if nowMS clk i \<le> last_ms then waitNextMillis clk last_ms (Suc i) else Some (nowMS clk i, Suc i))"

definition clock_backwards :: "int64 \<Rightarrow> int64 \<Rightarrow> error" where
  "clock_backwards now last_ms =
     PlainError (''clock moved backwards: now='' @ show_int now @ '' last='' @ show_int last_ms)"

definition NextID :: "clock \<Rightarrow> Snowflake \<Rightarrow> nat \<Rightarrow> ((error + int64) \<times> Snowflake \<times> nat) option" where
  "NextID clk g i =
     (let now = nowMS clk i in
      if now < sf_lastMS g then Some (Inl (clock_backwards now (sf_lastMS g)), g, Suc i)
      else
        (let seq = (if now = sf_lastMS g then wrap64 (sf_sequence g + 1) AND sequenceMask else 0) in
         Option.bind
           (if now = sf_lastMS g \<and> seq = 0 then waitNextMillis clk now (Suc i) else Some (now, Suc i))
           (\<lambda>(now, i').
              Some (Inr (wrap64 (push_bit (nodeIDBits + sequenceBits) (wrap64 (now - sf_epochMS g)))
                         OR wrap64 (push_bit sequenceBits (sf_nodeID g)) OR seq),
                    g\<lparr>sf_lastMS := now, sf_sequence := seq\<rparr>, i'))))"

section \<open>Order numbers\<close>

abbreviation (input) UserGeneBits :: nat where "UserGeneBits \<equiv> 10"
abbreviation (input) UserGeneMask :: int64 where "UserGeneMask \<equiv> 1023"
abbreviation (input) orderSequenceMask :: int64 where "orderSequenceMask \<equiv> 511"
abbreviation (input) orderNodeMask :: int64 where "orderNodeMask \<equiv> 15"
abbreviation (input) orderTimestampMask :: int64 where "orderTimestampMask \<equiv> 1099511627775"
abbreviation (input) orderSequenceShift :: nat where "orderSequenceShift \<equiv> 10"
abbreviation (input) orderNodeShift :: nat where "orderNodeShift \<equiv> 19"
abbreviation (input) orderTimestampShift :: nat where "orderTimestampShift \<equiv> 23"

record OrderNumberGenerator =
  og_ids :: "Snowflake option"
  og_lastMS :: int64
  og_sequence :: int64

definition NewOrderNumberGenerator :: "Snowflake option \<Rightarrow> OrderNumberGenerator" where
  "NewOrderNumberGenerator ids = \<lparr>og_ids = ids, og_lastMS = 0, og_sequence = 0\<rparr>"

definition UserGene :: "int64 \<Rightarrow> int64" where
  "UserGene userID = (if userID < 0 then wrap64 (- userID) else userID) AND UserGeneMask"

definition ExtractUserGene :: "int64 \<Rightarrow> int64" where
  "ExtractUserGene orderNumber = orderNumber AND UserGeneMask"

definition NextOrderNumber ::
  "clock \<Rightarrow> OrderNumberGenerator \<Rightarrow> int64 \<Rightarrow> nat \<Rightarrow> ((error + int64) \<times> OrderNumberGenerator \<times> nat) option" where
  "NextOrderNumber clk g userID i = (case og_ids g of
     None \<Rightarrow> Some (Inl (PlainError ''snowflake generator is required''), g, i)
   | Some ids \<Rightarrow>
       if sf_nodeID ids > orderNodeMask
       then Some (Inl (PlainError (''order number node id must be between 0 and '' @ show_int orderNodeMask)), g, i)
       else
         (let now = nowMS clk i in
          if now < og_lastMS g then Some (Inl (clock_backwards now (og_lastMS g)), g, Suc i)
          else
            (let seq = (if now = og_lastMS g then wrap64 (og_sequence g + 1) else 0) in
             Option.bind
               (if seq > orderSequenceMask
                then map_option (\<lambda>(now, i'). (now, 0, i')) (waitNextMillis clk now (Suc i))
                else Some (now, seq, Suc i))
               (\<lambda>(now, seq, i').
                  let g' = g\<lparr>og_lastMS := now, og_sequence := seq\<rparr>;
                      timestamp = wrap64 (now - sf_epochMS ids)
                  in if timestamp < 0 \<or> timestamp > orderTimestampMask
                     then Some (Inl (PlainError (''order number timestamp is outside the supported range: ''
                                      @ show_int timestamp)), g', i')
                     else Some (Inr (wrap64 (push_bit orderTimestampShift timestamp)
                                     OR wrap64 (push_bit orderNodeShift (sf_nodeID ids))
                                     OR wrap64 (push_bit orderSequenceShift seq)
                                     OR UserGene userID), g', i')))))"

section \<open>Bit fields\<close>

lemma push_or_add:
  fixes a b :: int
  assumes "0 \<le> b" and "b < 2 ^ n"
  shows "push_bit n a OR b = a * 2 ^ n + b"
proof -
  have b: "take_bit n b = b" using assms by (simp add: take_bit_int_eq_self)
  have "push_bit n a AND b = 0"
    by (subst b [symmetric]) (auto simp: bit_eq_iff bit_simps)
  then show ?thesis
    by (simp add: disjunctive_add_eq_or [symmetric] push_bit_eq_mult)
qed

lemma mask_mod:
  "(x::int) AND 1023 = x mod 1024" "(x::int) AND 4095 = x mod 4096"
proof -
  have "x AND mask 10 = take_bit 10 x" "x AND mask 12 = take_bit 12 x"
    by (simp_all add: take_bit_eq_mask)
  then show "x AND 1023 = x mod 1024" "x AND 4095 = x mod 4096"
    by (simp_all add: take_bit_eq_mod mask_eq_exp_minus_1)
qed

lemma UserGene_bounds: "0 \<le> UserGene u" "UserGene u < 1024"
  by (simp_all add: UserGene_def mask_mod)

lemma ExtractUserGene_mod: "ExtractUserGene n = n mod 1024"
  by (simp add: ExtractUserGene_def mask_mod)

text \<open>The four fields of an order number.\<close>

definition order_fields :: "int64 \<Rightarrow> int64 \<times> int64 \<times> int64 \<times> int64" where
  "order_fields n =
     (drop_bit orderTimestampShift n, take_bit 4 (drop_bit orderNodeShift n),
      take_bit 9 (drop_bit orderSequenceShift n), ExtractUserGene n)"

lemma order_number_value:
  assumes "0 \<le> t" "t \<le> orderTimestampMask" "0 \<le> nd" "nd \<le> orderNodeMask"
    and "0 \<le> sq" "sq \<le> orderSequenceMask" "0 \<le> ge" "ge \<le> UserGeneMask"
  shows "wrap64 (push_bit orderTimestampShift t) OR wrap64 (push_bit orderNodeShift nd)
           OR wrap64 (push_bit orderSequenceShift sq) OR ge
         = t * 2 ^ 23 + nd * 2 ^ 19 + sq * 2 ^ 10 + ge"
proof -
  have w: "wrap64 (push_bit 23 t) = push_bit 23 t" "wrap64 (push_bit 19 nd) = push_bit 19 nd"
    "wrap64 (push_bit 10 sq) = push_bit 10 sq"
    using assms by (auto simp: push_bit_eq_mult intro!: wrap64_nonneg)
  have 1: "push_bit 10 sq OR ge = sq * 2 ^ 10 + ge"
    using assms by (intro push_or_add) auto
  have 2: "push_bit 19 nd OR (sq * 2 ^ 10 + ge) = nd * 2 ^ 19 + (sq * 2 ^ 10 + ge)"
    using assms by (intro push_or_add) auto
  have 3: "push_bit 23 t OR (nd * 2 ^ 19 + (sq * 2 ^ 10 + ge)) = t * 2 ^ 23 + (nd * 2 ^ 19 + (sq * 2 ^ 10 + ge))"
    using assms by (intro push_or_add) auto
  show ?thesis
    by (simp only: w or.assoc 1 2 3 add.assoc)
qed

lemma field_div:
  fixes q r b :: int
  assumes "0 \<le> r" and "r < b"
  shows "(q * b + r) div b = q" and "(q * b + r) mod b = r"
  using assms by simp_all

lemma order_fields_value:
  assumes "0 \<le> nd" "nd \<le> orderNodeMask"
    and "0 \<le> sq" "sq \<le> orderSequenceMask" "0 \<le> ge" "ge \<le> UserGeneMask"
  shows "order_fields (t * 2 ^ 23 + nd * 2 ^ 19 + sq * 2 ^ 10 + ge) = (t, nd, sq, ge)"
proof -
  have n: "t * 2 ^ 23 + nd * 2 ^ 19 + sq * 2 ^ 10 + ge = ((t * 16 + nd) * 512 + sq) * 1024 + ge"
    by simp
  have d: "n div 524288 = n div 1024 div 512" "n div 8388608 = n div 1024 div 512 div 16" for n :: int
    using zdiv_zmult2_eq [of 512 n 1024] zdiv_zmult2_eq [of 16 n "1024 * 512"] by simp_all
  show ?thesis
    using assms field_div [of ge 1024 "(t * 16 + nd) * 512 + sq"] field_div [of sq 512 "t * 16 + nd"]
      field_div [of nd 16 t]
    unfolding n order_fields_def drop_bit_eq_div take_bit_eq_mod ExtractUserGene_mod
    by (simp add: d)
qed

section \<open>The generators\<close>

text \<open>
  The wait loop ends exactly when the clock passes the given millisecond: if some later reading
  exceeds \<open>last_ms\<close>, \<open>waitNextMillis\<close> returns the first such reading, and every earlier one was
  not past it.
\<close>

theorem waitNextMillis_returns:
  assumes "i \<le> j" and "nowMS clk j > last_ms"
  shows "\<exists>k. i \<le> k \<and> k \<le> j \<and> nowMS clk k > last_ms \<and> (\<forall>m. i \<le> m \<longrightarrow> m < k \<longrightarrow> nowMS clk m \<le> last_ms)
           \<and> waitNextMillis clk last_ms i = Some (nowMS clk k, Suc k)"
  using assms
proof (induction "j - i" arbitrary: i)
  case 0
  then show ?case
    by (intro exI [of _ i]) (simp add: waitNextMillis.simps)
next
  case (Suc d)
  show ?case
  proof (cases "nowMS clk i > last_ms")
    case True
    with Suc.prems show ?thesis
      by (intro exI [of _ i]) (simp add: waitNextMillis.simps)
  next
    case False
    then have "i \<noteq> j" using Suc.prems by auto
    then have "d = j - Suc i" "Suc i \<le> j" using Suc.hyps(2) Suc.prems by auto
    then obtain k where
      "Suc i \<le> k" "k \<le> j" "nowMS clk k > last_ms"
      "\<forall>m. Suc i \<le> m \<longrightarrow> m < k \<longrightarrow> nowMS clk m \<le> last_ms"
      "waitNextMillis clk last_ms (Suc i) = Some (nowMS clk k, Suc k)"
      using Suc.hyps(1) [of "Suc i"] Suc.prems(2) by blast
    moreover from False this(4) have "\<forall>m. i \<le> m \<longrightarrow> m < k \<longrightarrow> nowMS clk m \<le> last_ms"
      by (metis Suc_leI le_neq_implies_less not_le)
    ultimately show ?thesis
      using False by (intro exI [of _ k]) (simp add: waitNextMillis.simps [of clk last_ms i])
  qed
qed

theorem waitNextMillis_returns_witness:
  "\<exists>k. waitNextMillis (\<lambda>i. int i * 400000) 1 0 = Some (nowMS (\<lambda>i. int i * 400000) k, Suc k) \<and> k \<le> 7"
  using waitNextMillis_returns [of 0 7 1 "\<lambda>i. int i * 400000"] by (auto simp: nowMS_def)

lemma waitNextMillis_gt: "waitNextMillis clk l i = Some (now, i') \<Longrightarrow> l < now"
proof -
  have "case r of (now, i') \<Rightarrow> l < now" if "waitNextMillis clk l i = Some r" for r
    by (rule waitNextMillis.raw_induct [where P = "\<lambda>clk l i r. case r of (now, i') \<Rightarrow> l < now", OF _ that])
      (fastforce split: if_splits)
  then show "waitNextMillis clk l i = Some (now, i') \<Longrightarrow> l < now" by fastforce
qed

text \<open>What the constructors establish and every call keeps.\<close>

definition og_ok :: "OrderNumberGenerator \<Rightarrow> bool" where
  "og_ok g \<longleftrightarrow> 0 \<le> og_sequence g \<and> og_sequence g \<le> orderSequenceMask
     \<and> (\<forall>ids. og_ids g = Some ids \<longrightarrow> 0 \<le> sf_nodeID ids \<and> sf_epochMS ids = defaultEpochMS)"

definition og_later :: "OrderNumberGenerator \<Rightarrow> OrderNumberGenerator \<Rightarrow> bool" where
  "og_later g g' \<longleftrightarrow> og_lastMS g < og_lastMS g' \<or> (og_lastMS g = og_lastMS g' \<and> og_sequence g < og_sequence g')"

lemma NewOrderNumberGenerator_ok: "NewSnowflake n = Inr ids \<Longrightarrow> og_ok (NewOrderNumberGenerator (Some ids))"
  by (auto simp: og_ok_def NewOrderNumberGenerator_def NewSnowflake_def split: if_splits)

definition clock_sane :: "clock \<Rightarrow> bool" where
  "clock_sane clk \<longleftrightarrow> (\<forall>i. 0 \<le> nowMS clk i \<and> nowMS clk i < 2 ^ 62)"

lemma clock_saneD: "clock_sane clk \<Longrightarrow> wrap64 (nowMS clk i - defaultEpochMS) = nowMS clk i - defaultEpochMS"
  by (rule wrap64_id) (auto simp: in64_def clock_sane_def dest!: spec [of _ i])

lemma waitNextMillis_reading: "waitNextMillis clk l i = Some (now, i') \<Longrightarrow> \<exists>k. now = nowMS clk k"
proof -
  have "\<exists>k. fst r = nowMS clk k" if "waitNextMillis clk l i = Some r" for r
    by (rule waitNextMillis.raw_induct [where P = "\<lambda>clk l i r. \<exists>k. fst r = nowMS clk k", OF _ that])
      (fastforce split: if_splits)
  then show "waitNextMillis clk l i = Some (now, i') \<Longrightarrow> \<exists>k. now = nowMS clk k" by fastforce
qed

text \<open>One call of \<open>NextOrderNumber\<close>: where it leaves the generator, and the number it returns.\<close>

lemma NextOrderNumber_step:
  assumes ok: "og_ok g" and call: "NextOrderNumber clk g u i = Some (r, g', i')"
  shows "g' = g \<and> (\<exists>e. r = Inl e)
    \<or> og_later g g' \<and> og_ok g' \<and> og_ids g' = og_ids g \<and> (\<exists>k. og_lastMS g' = nowMS clk k)"
proof -
  have w: "wrap64 (og_sequence g + 1) = og_sequence g + 1"
    using ok by (intro wrap64_nonneg) (auto simp: og_ok_def)
  from call show ?thesis
  proof (cases "og_ids g")
    case None
    with call show ?thesis by (auto simp: NextOrderNumber_def)
  next
    case (Some ids)
    consider "nowMS clk i < og_lastMS g \<or> sf_nodeID ids > orderNodeMask"
      | "nowMS clk i = og_lastMS g" "og_sequence g + 1 > orderSequenceMask" "sf_nodeID ids \<le> orderNodeMask"
      | "nowMS clk i = og_lastMS g" "og_sequence g + 1 \<le> orderSequenceMask" "sf_nodeID ids \<le> orderNodeMask"
      | "nowMS clk i > og_lastMS g" "sf_nodeID ids \<le> orderNodeMask"
      by linarith
    then show ?thesis
    proof cases
      case 1
      with call Some show ?thesis by (auto simp: NextOrderNumber_def Let_def split: if_splits)
    next
      case 2
      with call Some obtain now j where "waitNextMillis clk (og_lastMS g) (Suc i) = Some (now, j)"
        and "g' = g\<lparr>og_lastMS := now, og_sequence := 0\<rparr>"
        by (auto simp: NextOrderNumber_def Let_def w bind_eq_Some_conv split: if_splits)
      with ok show ?thesis
        using waitNextMillis_gt waitNextMillis_reading by (fastforce simp: og_ok_def og_later_def)
    next
      case 3
      with call Some ok show ?thesis
        by (auto simp: NextOrderNumber_def Let_def w og_ok_def og_later_def split: if_splits)
          (metis+)
    next
      case 4
      with call Some ok show ?thesis
        by (auto simp: NextOrderNumber_def Let_def w og_ok_def og_later_def split: if_splits)
    qed
  qed
qed

text \<open>The position of a generator in time: later positions have larger stamps.\<close>

definition og_stamp :: "OrderNumberGenerator \<Rightarrow> int" where
  "og_stamp g = (case og_ids g of
     None \<Rightarrow> 0
   | Some ids \<Rightarrow> ((og_lastMS g - sf_epochMS ids) * 16 + sf_nodeID ids) * 512 + og_sequence g)"

lemma og_later_stamp:
  assumes "og_later g g'" "og_ok g" "og_ok g'" "og_ids g' = og_ids g" "og_ids g = Some ids"
  shows "og_stamp g < og_stamp g'"
  using assms by (auto simp: og_later_def og_ok_def og_stamp_def)

lemma NextOrderNumber_value:
  assumes ok: "og_ok g" and sane: "clock_sane clk"
    and call: "NextOrderNumber clk g u i = Some (Inr n, g', i')"
  obtains ids where "og_ids g = Some ids" and "0 \<le> n" and "n < 2 ^ 63"
    and "order_fields n = (og_lastMS g' - defaultEpochMS, sf_nodeID ids, og_sequence g', UserGene u)"
    and "n = og_stamp g' * 1024 + UserGene u"
proof -
  from call obtain ids where ids: "og_ids g = Some ids" "sf_nodeID ids \<le> orderNodeMask"
    by (auto simp: NextOrderNumber_def split: option.splits if_splits)
  from NextOrderNumber_step [OF ok call] obtain k where
    ok': "og_ok g'" "og_ids g' = og_ids g" and k: "og_lastMS g' = nowMS clk k" by auto
  let ?ts = "og_lastMS g' - defaultEpochMS"
  have ep: "sf_epochMS ids = defaultEpochMS" "0 \<le> sf_nodeID ids"
    using ok ids by (auto simp: og_ok_def)
  have ts: "wrap64 (og_lastMS g' - sf_epochMS ids) = ?ts"
    using clock_saneD [OF sane, of k] k ep by simp
  have "0 \<le> ?ts \<and> ?ts \<le> orderTimestampMask \<and>
      n = wrap64 (push_bit orderTimestampShift ?ts) OR wrap64 (push_bit orderNodeShift (sf_nodeID ids))
          OR wrap64 (push_bit orderSequenceShift (og_sequence g')) OR UserGene u"
    using call ids ts
    by (auto simp: NextOrderNumber_def Let_def bind_eq_Some_conv split: if_splits)
  moreover have "0 \<le> og_sequence g'" "og_sequence g' \<le> orderSequenceMask"
    using ok' by (auto simp: og_ok_def)
  moreover note UserGene_bounds [of u]
  ultimately have b: "0 \<le> ?ts" "?ts \<le> orderTimestampMask" "0 \<le> og_sequence g'" "og_sequence g' \<le> orderSequenceMask"
      "UserGene u \<le> UserGeneMask"
    and n: "n = ?ts * 2 ^ 23 + sf_nodeID ids * 2 ^ 19 + og_sequence g' * 2 ^ 10 + UserGene u"
    using order_number_value [of ?ts "sf_nodeID ids" "og_sequence g'" "UserGene u"] ids ep by auto
  have "og_stamp g' = (?ts * 16 + sf_nodeID ids) * 512 + og_sequence g'"
    using ok' ids ep by (simp add: og_stamp_def)
  moreover have "order_fields n = (?ts, sf_nodeID ids, og_sequence g', UserGene u)"
    unfolding n using b ids ep UserGene_bounds [of u] by (intro order_fields_value) auto
  ultimately show thesis
    using b n ids ep UserGene_bounds [of u] by (intro that [OF ids(1)]) auto
qed

text \<open>
  C20. An order number decodes to what was put in: the generator's node, the sequence number and the
  millisecond of the call since the epoch, and, in the low ten bits, the gene of the user who placed
  the order, for every user id (negative ones included). The number is never negative.
\<close>

theorem order_number_round_trip:
  assumes "og_ok g" and "clock_sane clk" and "og_ids g = Some ids"
    and "NextOrderNumber clk g u i = Some (Inr n, g', i')"
  shows "order_fields n = (og_lastMS g' - defaultEpochMS, sf_nodeID ids, og_sequence g', UserGene u)
    \<and> ExtractUserGene n = UserGene u \<and> 0 \<le> n \<and> in64 n \<and> og_ok g'"
proof -
  from NextOrderNumber_step [OF assms(1,4)] have "og_ok g'" by auto
  moreover from NextOrderNumber_value [OF assms(1,2,4)] assms(3) have
    "order_fields n = (og_lastMS g' - defaultEpochMS, sf_nodeID ids, og_sequence g', UserGene u)"
    "0 \<le> n" "n < 2 ^ 63" by auto
  ultimately show ?thesis by (auto simp: order_fields_def in64_def)
qed

definition example_clock :: clock where
  "example_clock i = (defaultEpochMS + 1) * 1000000"

definition example_generator :: OrderNumberGenerator where
  "example_generator = NewOrderNumberGenerator (Some \<lparr>sf_epochMS = defaultEpochMS, sf_nodeID = 1, sf_lastMS = 0, sf_sequence = 0\<rparr>)"

lemma example_sane: "clock_sane example_clock" "og_ok example_generator"
  by (simp_all add: clock_sane_def example_clock_def nowMS_def og_ok_def example_generator_def
      NewOrderNumberGenerator_def)

lemma example_call:
  "NextOrderNumber example_clock example_generator 2049 0 =
     Some (Inr 8912897, example_generator\<lparr>og_lastMS := defaultEpochMS + 1\<rparr>, Suc 0)"
  by code_simp

theorem order_number_round_trip_witness:
  "order_fields 8912897 = (1, 1, 0, UserGene 2049) \<and> ExtractUserGene 8912897 = UserGene 2049"
  using order_number_round_trip [OF example_sane(2,1) _ example_call]
  by (simp add: example_generator_def NewOrderNumberGenerator_def)

text \<open>The numbers a generator hands out over a sequence of calls, failed calls left out.\<close>

fun order_run :: "clock \<Rightarrow> OrderNumberGenerator \<Rightarrow> nat \<Rightarrow> int64 list \<Rightarrow> int64 list option" where
  "order_run clk g i [] = Some []"
| "order_run clk g i (u # us) = (case NextOrderNumber clk g u i of
     None \<Rightarrow> None
   | Some (r, g', i') \<Rightarrow>
       map_option (\<lambda>ns. case r of Inl e \<Rightarrow> ns | Inr n \<Rightarrow> n # ns) (order_run clk g' i' us))"

lemma order_run_increasing:
  assumes "og_ok g" and "clock_sane clk" and "order_run clk g i us = Some ns"
  shows "sorted_wrt (<) (map (\<lambda>n. n div 1024) ns) \<and> (\<forall>n \<in> set ns. og_stamp g < n div 1024)"
  using assms
proof (induction us arbitrary: g i ns)
  case Nil
  then show ?case by simp
next
  case (Cons u us)
  then obtain r g' i' ms where call: "NextOrderNumber clk g u i = Some (r, g', i')"
    and rest: "order_run clk g' i' us = Some ms" and ns: "ns = (case r of Inl e \<Rightarrow> ms | Inr n \<Rightarrow> n # ms)"
    by (auto split: option.splits prod.splits)
  from NextOrderNumber_step [OF Cons.prems(1) call] have ok': "og_ok g'" using Cons.prems(1) by auto
  from Cons.IH [OF ok' Cons.prems(2) rest] have IH:
    "sorted_wrt (<) (map (\<lambda>n. n div 1024) ms)" "\<forall>n \<in> set ms. og_stamp g' < n div 1024" by auto
  show ?case
  proof (cases r)
    case (Inr n)
    with NextOrderNumber_value [OF Cons.prems(1,2)] call obtain ids where ids: "og_ids g = Some ids"
      and n: "n = og_stamp g' * 1024 + UserGene u" by blast
    have "n div 1024 = og_stamp g'"
      unfolding n using UserGene_bounds [of u] by (intro field_div(1)) auto
    moreover have "og_stamp g < og_stamp g'"
      using NextOrderNumber_step [OF Cons.prems(1) call] Inr Cons.prems(1) ids by (auto intro: og_later_stamp)
    ultimately show ?thesis using IH Inr ns by fastforce
  next
    case (Inl e)
    have "og_stamp g \<le> og_stamp g'"
      using NextOrderNumber_step [OF Cons.prems(1) call] Cons.prems(1)
      by (cases "og_ids g") (auto simp: og_stamp_def dest: og_later_stamp)
    with IH Inl ns show ?thesis by fastforce
  qed
qed

text \<open>
  C19. A generator never hands out the same order number twice: over any sequence of calls, for any
  users, the successful results are strictly increasing (also above the gene bits, so the numbers
  stay distinct whatever the users are), even across clock errors and sequence overflow.
\<close>

theorem order_numbers_unique:
  assumes "og_ok g" and "clock_sane clk" and "order_run clk g i us = Some ns"
  shows "sorted_wrt (<) ns \<and> distinct ns \<and> distinct (map (drop_bit UserGeneBits) ns)"
proof -
  from order_run_increasing [OF assms] have inc: "sorted_wrt (<) (map (\<lambda>n. n div 1024) ns)" by simp
  have "sorted_wrt (<) ns"
    using inc by (auto simp: sorted_wrt_map elim!: sorted_wrt_mono_rel [rotated])
  moreover from inc have "distinct (map (\<lambda>n. n div 1024) ns)"
    by (simp add: strict_sorted_iff)
  moreover have "map (drop_bit UserGeneBits) ns = map (\<lambda>n. n div 1024) ns"
    by (simp add: drop_bit_eq_div)
  ultimately show ?thesis by (metis strict_sorted_iff)
qed

lemma example_run: "order_run example_clock example_generator 0 [2049, 7, 2049] = Some [8912897, 8913927, 8914945]"
  by code_simp

theorem order_numbers_unique_witness: "distinct [8912897, 8913927, 8914945 :: int64]"
  using order_numbers_unique [OF example_sane(2,1) example_run] by simp

text \<open>
  Order numbers handed out by generators of different nodes never collide, whatever the clocks
  of the two nodes show.
\<close>

theorem order_numbers_of_nodes_differ:
  assumes "og_ok g1" "clock_sane c1" "og_ids g1 = Some ids1" "NextOrderNumber c1 g1 u1 i1 = Some (Inr n1, g1', j1)"
    and "og_ok g2" "clock_sane c2" "og_ids g2 = Some ids2" "NextOrderNumber c2 g2 u2 i2 = Some (Inr n2, g2', j2)"
    and "sf_nodeID ids1 \<noteq> sf_nodeID ids2"
  shows "n1 \<noteq> n2"
proof
  assume "n1 = n2"
  from NextOrderNumber_value [OF assms(1,2,4)] assms(3)
  have "fst (snd (order_fields n1)) = sf_nodeID ids1" by (metis fst_conv option.inject snd_conv)
  moreover from NextOrderNumber_value [OF assms(5,6,8)] assms(7)
  have "fst (snd (order_fields n2)) = sf_nodeID ids2" by (metis fst_conv option.inject snd_conv)
  ultimately show False using assms(9) \<open>n1 = n2\<close> by simp
qed

definition example_generator2 :: OrderNumberGenerator where
  "example_generator2 = NewOrderNumberGenerator (Some \<lparr>sf_epochMS = defaultEpochMS, sf_nodeID = 2, sf_lastMS = 0, sf_sequence = 0\<rparr>)"

lemma example_call2:
  "NextOrderNumber example_clock example_generator2 2049 0 =
     Some (Inr 9437185, example_generator2\<lparr>og_lastMS := defaultEpochMS + 1\<rparr>, Suc 0)" "og_ok example_generator2"
  by (code_simp, simp add: og_ok_def example_generator2_def NewOrderNumberGenerator_def)

theorem order_numbers_of_nodes_differ_witness: "(8912897 :: int64) \<noteq> 9437185"
  using order_numbers_of_nodes_differ [OF example_sane(2,1) _ example_call example_call2(2) example_sane(1) _ example_call2(1)]
  by (simp add: example_generator_def example_generator2_def NewOrderNumberGenerator_def)

section \<open>Snowflake identifiers\<close>

definition sf_ok :: "Snowflake \<Rightarrow> bool" where
  "sf_ok g \<longleftrightarrow> 0 \<le> sf_sequence g \<and> sf_sequence g \<le> sequenceMask \<and> 0 \<le> sf_nodeID g \<and> sf_nodeID g \<le> maxNodeID
     \<and> sf_epochMS g = defaultEpochMS"

definition sf_stamp :: "Snowflake \<Rightarrow> int" where
  "sf_stamp g = ((sf_lastMS g - defaultEpochMS) * 1024 + sf_nodeID g) * 4096 + sf_sequence g"

text \<open>\<open>NextID\<close> does not check the range of the timestamp: readings must lie within 41 bits of the epoch.\<close>

definition clock_41 :: "clock \<Rightarrow> bool" where
  "clock_41 clk \<longleftrightarrow> (\<forall>i. defaultEpochMS \<le> nowMS clk i \<and> nowMS clk i < defaultEpochMS + 2 ^ 41)"

lemma NewSnowflake_ok: "NewSnowflake n = Inr g \<Longrightarrow> sf_ok g"
  by (auto simp: NewSnowflake_def sf_ok_def split: if_splits)

lemma NextID_step:
  assumes ok: "sf_ok g" and call: "NextID clk g i = Some (Inr n, g', i')"
  shows "sf_ok g' \<and> sf_stamp g < sf_stamp g' \<and> (\<exists>k. sf_lastMS g' = nowMS clk k)
    \<and> n = wrap64 (push_bit 22 (wrap64 (sf_lastMS g' - defaultEpochMS)))
          OR wrap64 (push_bit 12 (sf_nodeID g')) OR sf_sequence g'"
proof -
  have w: "wrap64 (sf_sequence g + 1) AND sequenceMask = (sf_sequence g + 1) mod 4096"
    using ok by (subst wrap64_nonneg) (auto simp: sf_ok_def mask_mod)
  consider "nowMS clk i = sf_lastMS g" "(sf_sequence g + 1) mod 4096 = 0"
    | "nowMS clk i = sf_lastMS g" "(sf_sequence g + 1) mod 4096 \<noteq> 0" | "nowMS clk i > sf_lastMS g"
    using call by (force simp: NextID_def Let_def split: if_splits)
  then show ?thesis
  proof cases
    case 1
    with call obtain now j where wn: "waitNextMillis clk (sf_lastMS g) (Suc i) = Some (now, j)"
      and g': "g' = g\<lparr>sf_lastMS := now, sf_sequence := 0\<rparr>"
      by (auto simp: NextID_def Let_def w bind_eq_Some_conv split: if_splits)
    from wn have "sf_lastMS g < now" "\<exists>k. now = nowMS clk k"
      by (auto dest: waitNextMillis_gt waitNextMillis_reading)
    with 1 ok g' call wn show ?thesis
      by (auto simp: NextID_def Let_def w sf_ok_def sf_stamp_def)
  next
    case 2
    then have "(sf_sequence g + 1) mod 4096 = sf_sequence g + 1"
      using ok by (cases "sf_sequence g = 4095") (auto simp: sf_ok_def)
    with 2 ok call show ?thesis
      by (auto simp: NextID_def Let_def w sf_ok_def sf_stamp_def)
        (metis pos_mod_bound zero_less_numeral le_less_trans less_imp_le zle_add1_eq_le add.commute)+
  next
    case 3
    with ok call show ?thesis
      by (auto simp: NextID_def Let_def sf_ok_def sf_stamp_def)
  qed
qed

lemma NextID_value:
  assumes "sf_ok g" "clock_41 clk" "NextID clk g i = Some (Inr n, g', i')"
  shows "n = sf_stamp g'"
proof -
  from NextID_step [OF assms(1,3)] obtain k where k: "sf_lastMS g' = nowMS clk k" and ok: "sf_ok g'"
    and n: "n = wrap64 (push_bit 22 (wrap64 (sf_lastMS g' - defaultEpochMS)))
          OR wrap64 (push_bit 12 (sf_nodeID g')) OR sf_sequence g'" by blast
  let ?t = "sf_lastMS g' - defaultEpochMS"
  from assms(2) k have t: "0 \<le> ?t" "?t < 2 ^ 41" by (auto simp: clock_41_def dest!: spec [of _ k])
  have "wrap64 ?t = ?t" "wrap64 (push_bit 22 ?t) = push_bit 22 ?t" "wrap64 (push_bit 12 (sf_nodeID g')) = push_bit 12 (sf_nodeID g')"
    using t ok by (auto simp: push_bit_eq_mult sf_ok_def intro!: wrap64_nonneg)
  moreover have "push_bit 12 (sf_nodeID g') OR sf_sequence g' = sf_nodeID g' * 2 ^ 12 + sf_sequence g'"
    using ok by (intro push_or_add) (auto simp: sf_ok_def)
  moreover have "push_bit 22 ?t OR (sf_nodeID g' * 2 ^ 12 + sf_sequence g') = ?t * 2 ^ 22 + (sf_nodeID g' * 2 ^ 12 + sf_sequence g')"
    using ok by (intro push_or_add) (auto simp: sf_ok_def)
  ultimately show ?thesis
    unfolding n by (simp only: or.assoc) (simp add: sf_stamp_def)
qed

text \<open>
  Snowflake identifiers are strictly increasing: each identifier is larger than every identifier
  the generator could have handed out before (its stamp), as long as the clock stays within the 41
  bits of the timestamp field; the generator's invariant is kept.
\<close>

theorem snowflake_increasing:
  assumes "sf_ok g" "clock_41 clk" "NextID clk g i = Some (Inr n, g', i')"
    and "NextID clk g' i' = Some (Inr m, g'', i'')"
  shows "sf_stamp g < n \<and> n < m \<and> sf_ok g''"
  using NextID_step [OF assms(1,3)] NextID_value [OF assms(1-3)] NextID_step [of g' clk i' m g'' i'']
    NextID_value [of g' clk i' m g'' i''] assms by auto

lemma example_ids:
  "NextID example_clock \<lparr>sf_epochMS = defaultEpochMS, sf_nodeID = 1, sf_lastMS = 0, sf_sequence = 0\<rparr> 0 =
     Some (Inr 4198400, \<lparr>sf_epochMS = defaultEpochMS, sf_nodeID = 1, sf_lastMS = defaultEpochMS + 1, sf_sequence = 0\<rparr>, 1)"
  "NextID example_clock \<lparr>sf_epochMS = defaultEpochMS, sf_nodeID = 1, sf_lastMS = defaultEpochMS + 1, sf_sequence = 0\<rparr> 1 =
     Some (Inr 4198401, \<lparr>sf_epochMS = defaultEpochMS, sf_nodeID = 1, sf_lastMS = defaultEpochMS + 1, sf_sequence = 1\<rparr>, 2)"
  by code_simp+

theorem snowflake_increasing_witness: "(4198400 :: int64) < 4198401"
  using snowflake_increasing [OF _ _ example_ids]
  by (simp add: sf_ok_def clock_41_def example_clock_def nowMS_def)

end
