(* ===== verification/Sharding.thy ===== *)
theory Sharding
  imports Id_Gen
begin

text \<open>
  Order sharding (\<open>src/pkg/sharding\<close>): the router by user gene, the plain modulo router, the router
  that follows the migration mappings, and the database pool.

  The interface the repositories rely on (\<open>OrderRouter\<close>, \<open>OrderWriteRouter\<close> and
  \<open>LocationCatalog\<close>) is the locale \<open>order_router\<close>; both routers interpret it. The read-write mutex
  of the mapping router makes each of its operations one step; \<open>time.Now()\<close> is an argument.
\<close>

section \<open>Locations\<close>

record Location =
  loc_Database :: string
  loc_Table :: string
  loc_DBIndex :: int
  loc_TblIndex :: int

definition indexed :: "string \<Rightarrow> int \<Rightarrow> string" where
  "indexed prefix i = prefix @ ''_'' @ show_int i"

definition atLeastOne :: "int \<Rightarrow> int" where
  "atLeastOne n = (if n \<le> 0 then 1 else n)"

subsection \<open>The interface\<close>

definition effective_gene :: "int64 \<Rightarrow> int64 \<Rightarrow> int64" where
  "effective_gene orderNumber userID =
     (if ExtractUserGene orderNumber = 0 then UserGene userID else ExtractUserGene orderNumber)"

locale order_router =
  fixes ok :: "'r \<Rightarrow> bool"
    and route :: "'r \<Rightarrow> int64 \<Rightarrow> int64 \<Rightarrow> Location"
    and writes :: "'r \<Rightarrow> int64 \<Rightarrow> int64 \<Rightarrow> Location list"
    and locations :: "'r \<Rightarrow> Location list"
  assumes reads_written: "ok r \<Longrightarrow> \<exists>rest. writes r n u = route r n u # rest"
    and reads_catalogued: "ok r \<Longrightarrow> route r n u \<in> set (locations r)"
    and by_gene: "ok r \<Longrightarrow> effective_gene n u = effective_gene m v \<Longrightarrow> route r n u = route r m v"
begin

text \<open>A lookup that does not know the user (user id 0) reads where the owner's writes go first.\<close>

lemma system_lookup:
  assumes "ok r" and "ExtractUserGene n = UserGene u"
  shows "route r n 0 = route r n u \<and> hd (writes r n u) = route r n 0"
proof -
  have "effective_gene n 0 = effective_gene n u"
    using assms(2) by (simp add: effective_gene_def UserGene_def)
  from by_gene [OF assms(1) this] have "route r n 0 = route r n u" .
  moreover from reads_written [OF assms(1), of n u] obtain rest where "writes r n u = route r n u # rest" by blast
  ultimately show ?thesis by simp
qed

text \<open>All orders of a user are on one shard: they carry the same gene.\<close>

lemma user_orders_together:
  assumes "ok r" and "ExtractUserGene n = UserGene u" and "ExtractUserGene m = UserGene u"
  shows "route r n u = route r m u"
  using assms by (intro by_gene) (simp_all add: effective_gene_def)

end

section \<open>The modulo router\<close>

record ModRouter =
  mr_DBPrefix :: string
  mr_TablePrefix :: string
  mr_DBCount :: int
  mr_TableCount :: int

definition Mod_Route :: "ModRouter \<Rightarrow> int64 \<Rightarrow> Location" where
  "Mod_Route r i =
     (let dbs = atLeastOne (mr_DBCount r);
          tables = atLeastOne (mr_TableCount r);
          i = (if i < 0 then wrap64 (- i) else i);
          dbIndex = i smod dbs;
          tableIndex = (i sdiv dbs) smod tables
      in \<lparr>loc_Database = indexed (mr_DBPrefix r) dbIndex, loc_Table = indexed (mr_TablePrefix r) tableIndex,
          loc_DBIndex = dbIndex, loc_TblIndex = tableIndex\<rparr>)"

section \<open>The gene router\<close>

record GeneOrderRouter =
  gr_DBPrefix :: string
  gr_TablePrefix :: string
  gr_DBCount :: int
  gr_TableCount :: int

definition NewGeneOrderRouter :: "string \<Rightarrow> string \<Rightarrow> int \<Rightarrow> int \<Rightarrow> GeneOrderRouter" where
  "NewGeneOrderRouter dbPrefix tablePrefix dbCount tableCount =
     \<lparr>gr_DBPrefix = dbPrefix, gr_TablePrefix = tablePrefix, gr_DBCount = dbCount, gr_TableCount = tableCount\<rparr>"

definition gene_location :: "GeneOrderRouter \<Rightarrow> int \<Rightarrow> int \<Rightarrow> Location" where
  "gene_location r dbIndex tableIndex =
     \<lparr>loc_Database = indexed (gr_DBPrefix r) dbIndex, loc_Table = indexed (gr_TablePrefix r) tableIndex,
      loc_DBIndex = dbIndex, loc_TblIndex = tableIndex\<rparr>"

definition Gene_RouteOrder :: "GeneOrderRouter \<Rightarrow> int64 \<Rightarrow> int64 \<Rightarrow> Location" where
  "Gene_RouteOrder r orderNumber userID =
     (let dbs = atLeastOne (gr_DBCount r);
          tables = atLeastOne (gr_TableCount r);
          gene = ExtractUserGene orderNumber;
          gene = (if gene = 0 then UserGene userID else gene);
          tableIndex = gene smod tables;
          dbIndex = (gene sdiv tables) smod dbs
      in gene_location r dbIndex tableIndex)"

definition Gene_RouteOrderWrites :: "GeneOrderRouter \<Rightarrow> int64 \<Rightarrow> int64 \<Rightarrow> Location list" where
  "Gene_RouteOrderWrites r orderNumber userID = [Gene_RouteOrder r orderNumber userID]"

definition Gene_PrimaryLocations :: "GeneOrderRouter \<Rightarrow> Location list" where
  "Gene_PrimaryLocations r =
     concat (map (\<lambda>databaseIndex. map (\<lambda>tableIndex. gene_location r databaseIndex tableIndex)
                                     [0..atLeastOne (gr_TableCount r) - 1])
                 [0..atLeastOne (gr_DBCount r) - 1])"

section \<open>The mapping router\<close>

type_synonym WriteMode = string

abbreviation WritePrimaryOnly :: WriteMode where "WritePrimaryOnly \<equiv> ''PRIMARY_ONLY''"
abbreviation WriteDual :: WriteMode where "WriteDual \<equiv> ''DUAL_WRITE''"

record ShardMapping =
  sm_VirtualShard :: int
  sm_Primary :: Location
  sm_Shadow :: "Location option"
  sm_WriteMode :: WriteMode
  sm_Version :: int64

record MappingOrderRouter =
  mo_fallback :: GeneOrderRouter
  mo_mappings :: "int \<rightharpoonup> ShardMapping"
  mo_refreshedAt :: time

definition NewMappingOrderRouter :: "GeneOrderRouter \<Rightarrow> MappingOrderRouter" where
  "NewMappingOrderRouter fallback = \<lparr>mo_fallback = fallback, mo_mappings = Map.empty, mo_refreshedAt = 0\<rparr>"

definition tableCount :: "MappingOrderRouter \<Rightarrow> int" where
  "tableCount r = atLeastOne (gr_TableCount (mo_fallback r))"

definition virtualShardCount :: "MappingOrderRouter \<Rightarrow> int" where
  "virtualShardCount r = wrap64 (atLeastOne (gr_DBCount (mo_fallback r)) * tableCount r)"

definition routeVirtualShard :: "MappingOrderRouter \<Rightarrow> int64 \<Rightarrow> int64 \<Rightarrow> int \<times> Location" where
  "routeVirtualShard r orderNumber userID =
     (let fallback = Gene_RouteOrder (mo_fallback r) orderNumber userID
      in (wrap64 (loc_DBIndex fallback * tableCount r + loc_TblIndex fallback), fallback))"

definition check_mapping :: "int \<Rightarrow> ShardMapping \<Rightarrow> error + ShardMapping" where
  "check_mapping maximum m =
     (let shard = ''virtual shard '' @ show_int (sm_VirtualShard m) in
      if sm_VirtualShard m < 0 \<or> sm_VirtualShard m \<ge> maximum
      then Inl (PlainError (shard @ '' is outside [0,'' @ show_int maximum @ '')''))
      else if loc_Database (sm_Primary m) = '''' \<or> loc_Table (sm_Primary m) = ''''
      then Inl (PlainError (shard @ '' primary location is required''))
      else
        (let m = (if sm_WriteMode m = '''' then m\<lparr>sm_WriteMode := WritePrimaryOnly\<rparr> else m) in
         if sm_WriteMode m \<noteq> WritePrimaryOnly \<and> sm_WriteMode m \<noteq> WriteDual
         then Inl (PlainError (shard @ '' has unsupported write mode '' @ sm_WriteMode m))
         else if sm_WriteMode m = WriteDual \<and> sm_Shadow m = None
         then Inl (PlainError (shard @ '' shadow location is required for dual write''))
         else Inr m))"

fun collect_mappings ::
  "int \<Rightarrow> ShardMapping list \<Rightarrow> (int \<rightharpoonup> ShardMapping) \<Rightarrow> error + (int \<rightharpoonup> ShardMapping)" where
  "collect_mappings maximum [] acc = Inr acc"
| "collect_mappings maximum (m # ms) acc = (case check_mapping maximum m of
     Inl e \<Rightarrow> Inl e
   | Inr m' \<Rightarrow> collect_mappings maximum ms (acc(sm_VirtualShard m' \<mapsto> m')))"

definition ReplaceMappings :: "time \<Rightarrow> ShardMapping list \<Rightarrow> (MappingOrderRouter, unit) go" where
  "ReplaceMappings now mappings r =
     (case collect_mappings (virtualShardCount r) mappings Map.empty of
        Inl e \<Rightarrow> (Inl e, r)
      | Inr next \<Rightarrow> (Inr (), r\<lparr>mo_mappings := next, mo_refreshedAt := now\<rparr>))"

definition MappingFresh :: "time \<Rightarrow> duration \<Rightarrow> MappingOrderRouter \<Rightarrow> bool" where
  "MappingFresh now maxAge r \<longleftrightarrow>
     \<not> maxAge \<le> 0 \<and> mo_refreshedAt r \<noteq> 0 \<and> now - mo_refreshedAt r \<le> maxAge"

definition Mapping_RouteOrder :: "MappingOrderRouter \<Rightarrow> int64 \<Rightarrow> int64 \<Rightarrow> Location" where
  "Mapping_RouteOrder r orderNumber userID =
     (let (virtualShard, fallback) = routeVirtualShard r orderNumber userID
      in case mo_mappings r virtualShard of Some m \<Rightarrow> sm_Primary m | None \<Rightarrow> fallback)"

definition Mapping_RouteOrderWrites :: "MappingOrderRouter \<Rightarrow> int64 \<Rightarrow> int64 \<Rightarrow> Location list" where
  "Mapping_RouteOrderWrites r orderNumber userID =
     (let (virtualShard, fallback) = routeVirtualShard r orderNumber userID
      in case mo_mappings r virtualShard of
           None \<Rightarrow> [fallback]
         | Some m \<Rightarrow> (case (sm_WriteMode m = WriteDual, sm_Shadow m) of
               (True, Some shadow) \<Rightarrow> [sm_Primary m, shadow]
             | _ \<Rightarrow> [sm_Primary m]))"

definition Mapping_PrimaryLocations :: "MappingOrderRouter \<Rightarrow> Location list" where
  "Mapping_PrimaryLocations r =
     map (\<lambda>(virtualShard, fallback).
            case mo_mappings r (int virtualShard) of Some m \<Rightarrow> sm_Primary m | None \<Rightarrow> fallback)
         (enumerate 0 (Gene_PrimaryLocations (mo_fallback r)))"

definition Snapshot :: "MappingOrderRouter \<Rightarrow> ShardMapping list" where
  "Snapshot r = List.map_filter (mo_mappings r) [0..virtualShardCount r - 1]"

section \<open>The database pool\<close>

text \<open>Connections are abstract; \<open>None\<close> in the map is a nil connection.\<close>

definition Resolve :: "(string \<rightharpoonup> 'db option) option \<Rightarrow> string \<Rightarrow> error + 'db" where
  "Resolve pool database = (case pool of
     None \<Rightarrow> Inl (PlainError ''shard database pool is not configured'')
   | Some dbs \<Rightarrow> (case dbs database of
       Some (Some client) \<Rightarrow> Inr client
     | _ \<Rightarrow> Inl (PlainError (''shard database '' @ database @ '' is not configured''))))"

section \<open>The gene router's laws\<close>

lemma atLeastOne_pos [simp]: "0 < atLeastOne n"
  by (simp add: atLeastOne_def)

lemma atLeastOne_nonneg [simp]: "0 \<le> atLeastOne n"
  by (simp add: atLeastOne_def)

lemma smod_sdiv_nonneg:
  fixes a b :: int
  assumes "0 \<le> a" and "0 < b"
  shows "a smod b = a mod b" and "a sdiv b = a div b"
proof -
  show "a sdiv b = a div b"
    using assms by (cases "a = 0") (simp_all add: signed_divide_int_def sgn_if)
  show "a smod b = a mod b"
    using assms by (cases "a = 0") (simp_all add: signed_modulo_int_def sgn_if)
qed

lemma effective_gene_bounds: "0 \<le> effective_gene n u" "effective_gene n u < 1024"
  using UserGene_bounds [of u] by (auto simp: effective_gene_def ExtractUserGene_mod)

lemma Gene_RouteOrder_eq:
  "Gene_RouteOrder r n u =
     gene_location r ((effective_gene n u div atLeastOne (gr_TableCount r)) mod atLeastOne (gr_DBCount r))
                     (effective_gene n u mod atLeastOne (gr_TableCount r))"
proof -
  have "0 \<le> effective_gene n u div atLeastOne (gr_TableCount r)"
    using effective_gene_bounds(1) [of n u] by (simp add: pos_imp_zdiv_nonneg_iff)
  then show ?thesis
    using effective_gene_bounds(1) [of n u]
    by (simp add: Gene_RouteOrder_def Let_def effective_gene_def [symmetric] smod_sdiv_nonneg)
qed

lemma Gene_location_index:
  assumes "0 \<le> d" "d < atLeastOne (gr_DBCount r)" "0 \<le> t" "t < atLeastOne (gr_TableCount r)"
  shows "nat (d * atLeastOne (gr_TableCount r) + t) < length (Gene_PrimaryLocations r)
    \<and> Gene_PrimaryLocations r ! nat (d * atLeastOne (gr_TableCount r) + t) = gene_location r d t"
proof -
  let ?T = "atLeastOne (gr_TableCount r)" and ?D = "atLeastOne (gr_DBCount r)"
  let ?f = "\<lambda>d. map (gene_location r d) [0..?T - 1]"
  have gen: "nat (d * ?T + t) < length (concat (map ?f [a..b])) + nat (a * ?T)
      \<and> concat (map ?f [a..b]) ! (nat (d * ?T + t) - nat (a * ?T)) = gene_location r d t"
    if "0 \<le> a" "a \<le> d" "d \<le> b" for a b
    using that
  proof (induction "nat (b - a)" arbitrary: a)
    case 0
    then have ab: "a = d" "b = d" by auto
    have "[d..d] = [d]" by (simp add: upto.simps)
    with ab assms show ?case by (simp add: nat_add_distrib nth_append nat_diff_distrib)
  next
    case (Suc m)
    have up: "[a..b] = a # [a + 1..b]" using Suc.hyps(2) by (subst upto.simps) auto
    have len: "length (?f a) = nat ?T" by simp
    have aT: "nat ((a + 1) * ?T) = nat (a * ?T) + nat ?T"
      using Suc.prems(1) by (simp add: distrib_right nat_add_distrib)
    show ?case
    proof (cases "a = d")
      case True
      have idx: "nat (d * ?T + t) = nat (d * ?T) + nat t"
        using assms by (simp add: nat_add_distrib)
      from True assms show ?thesis
        unfolding up by (simp add: idx nth_append)
    next
      case False
      with Suc.hyps(2) Suc.prems have IH:
        "nat (d * ?T + t) < length (concat (map ?f [a + 1..b])) + nat ((a + 1) * ?T)
        \<and> concat (map ?f [a + 1..b]) ! (nat (d * ?T + t) - nat ((a + 1) * ?T)) = gene_location r d t"
        by (intro Suc.hyps(1)) auto
      have "(a + 1) * ?T \<le> d * ?T"
        using False Suc.prems by (intro mult_right_mono) auto
      then have "nat (a * ?T) + nat ?T \<le> nat (d * ?T + t)"
        unfolding aT [symmetric] using assms(3) by (intro nat_mono) linarith
      with IH show ?thesis
        unfolding up aT by (simp add: nth_append)
    qed
  qed
  from gen [of 0 "?D - 1"] assms show ?thesis
    by (simp add: Gene_PrimaryLocations_def)
qed

interpretation gene_router: order_router "\<lambda>_. True" Gene_RouteOrder Gene_RouteOrderWrites Gene_PrimaryLocations
proof unfold_locales
  fix r n u
  show "\<exists>rest. Gene_RouteOrderWrites r n u = Gene_RouteOrder r n u # rest"
    by (simp add: Gene_RouteOrderWrites_def)
  show "Gene_RouteOrder r n u \<in> set (Gene_PrimaryLocations r)"
    unfolding Gene_RouteOrder_eq by (metis Gene_location_index atLeastOne_pos nth_mem pos_mod_bound pos_mod_sign)
next
  fix r n u m v
  assume "effective_gene n u = effective_gene m v"
  then show "Gene_RouteOrder r n u = Gene_RouteOrder r m v"
    by (simp add: Gene_RouteOrder_eq)
qed

section \<open>The mapping router's laws\<close>

text \<open>Every mapping is filed under its own shard, which exists, and has been validated.\<close>

definition mapping_ok :: "int \<Rightarrow> int \<Rightarrow> ShardMapping \<Rightarrow> bool" where
  "mapping_ok maximum k m \<longleftrightarrow> sm_VirtualShard m = k \<and> 0 \<le> k \<and> k < maximum
     \<and> loc_Database (sm_Primary m) \<noteq> [] \<and> loc_Table (sm_Primary m) \<noteq> []
     \<and> sm_WriteMode m \<in> {WritePrimaryOnly, WriteDual}
     \<and> (sm_WriteMode m = WriteDual \<longrightarrow> sm_Shadow m \<noteq> None)"

definition router_ok :: "MappingOrderRouter \<Rightarrow> bool" where
  "router_ok r \<longleftrightarrow> atLeastOne (gr_DBCount (mo_fallback r)) * tableCount r < 2 ^ 63
     \<and> (\<forall>k m. mo_mappings r k = Some m \<longrightarrow> mapping_ok (virtualShardCount r) k m)"

lemma check_mapping_ok:
  "check_mapping mx m = Inr m' \<Longrightarrow> mapping_ok mx (sm_VirtualShard m') m' \<and> sm_VirtualShard m' = sm_VirtualShard m"
  by (auto simp: check_mapping_def mapping_ok_def Let_def split: if_splits)

lemma collect_mappings_Cons:
  assumes "collect_mappings mx (m # ms) acc = Inr res"
  obtains m' where "check_mapping mx m = Inr m'" and "collect_mappings mx ms (acc(sm_VirtualShard m := Some m')) = Inr res"
    and "mapping_ok mx (sm_VirtualShard m) m'"
proof (cases "check_mapping mx m")
  case (Inl e)
  with assms show thesis by simp
next
  case (Inr m')
  from check_mapping_ok [OF Inr] have "sm_VirtualShard m' = sm_VirtualShard m" "mapping_ok mx (sm_VirtualShard m) m'"
    by auto
  with assms Inr that show thesis by (simp del: fun_upd_apply)
qed

lemma collect_mappings_ok:
  assumes "collect_mappings mx ms acc = Inr res" and "\<forall>k m. acc k = Some m \<longrightarrow> mapping_ok mx k m"
  shows "\<forall>k m. res k = Some m \<longrightarrow> mapping_ok mx k m"
  using assms
proof (induction ms arbitrary: acc)
  case Nil
  then show ?case by simp
next
  case (Cons m ms)
  from collect_mappings_Cons [OF Cons.prems(1)] obtain m' where
    rest: "collect_mappings mx ms (acc(sm_VirtualShard m := Some m')) = Inr res"
    and ok: "mapping_ok mx (sm_VirtualShard m) m'" by metis
  show ?case
    by (rule Cons.IH [OF rest]) (simp add: ok Cons.prems(2))
qed

lemma collect_mappings_dom:
  assumes "collect_mappings mx ms acc = Inr res"
  shows "dom res = dom acc \<union> sm_VirtualShard ` set ms"
  using assms
proof (induction ms arbitrary: acc)
  case Nil
  then show ?case by simp
next
  case (Cons m ms)
  from collect_mappings_Cons [OF Cons.prems] obtain m' where
    "collect_mappings mx ms (acc(sm_VirtualShard m := Some m')) = Inr res" by metis
  from Cons.IH [OF this] show ?case by (simp del: fun_upd_apply)
qed

lemma virtualShard_in_range:
  assumes "router_ok r"
  shows "fst (routeVirtualShard r n u) =
      loc_DBIndex (Gene_RouteOrder (mo_fallback r) n u) * tableCount r + loc_TblIndex (Gene_RouteOrder (mo_fallback r) n u)
    \<and> nat (fst (routeVirtualShard r n u)) < length (Gene_PrimaryLocations (mo_fallback r))
    \<and> Gene_PrimaryLocations (mo_fallback r) ! nat (fst (routeVirtualShard r n u)) = snd (routeVirtualShard r n u)
    \<and> 0 \<le> fst (routeVirtualShard r n u)"
proof -
  let ?T = "tableCount r" and ?D = "atLeastOne (gr_DBCount (mo_fallback r))"
  let ?d = "(effective_gene n u div ?T) mod ?D" and ?t = "effective_gene n u mod ?T"
  have T: "0 < ?T" by (simp add: tableCount_def)
  have r: "Gene_RouteOrder (mo_fallback r) n u = gene_location (mo_fallback r) ?d ?t"
    by (simp add: Gene_RouteOrder_eq tableCount_def)
  have b: "0 \<le> ?d" "?d < ?D" "0 \<le> ?t" "?t < ?T" using T by auto
  have "?d * ?T + ?t < (?d + 1) * ?T" using b by (simp add: distrib_right)
  also have "?d + 1 \<le> ?D" using b(2) by linarith
  then have "(?d + 1) * ?T \<le> ?D * ?T" using T by (intro mult_right_mono) auto
  finally have lt: "?d * ?T + ?t < 2 ^ 63" using assms by (simp add: router_ok_def)
  then have "wrap64 (?d * ?T + ?t) = ?d * ?T + ?t" using b by (intro wrap64_nonneg) auto
  with r b Gene_location_index [of ?d "mo_fallback r" ?t] show ?thesis
    by (simp add: routeVirtualShard_def Let_def gene_location_def tableCount_def)
qed

interpretation mapping_router: order_router router_ok Mapping_RouteOrder Mapping_RouteOrderWrites Mapping_PrimaryLocations
proof unfold_locales
  fix r n u
  assume ok: "router_ok r"
  show "\<exists>rest. Mapping_RouteOrderWrites r n u = Mapping_RouteOrder r n u # rest"
    by (auto simp: Mapping_RouteOrderWrites_def Mapping_RouteOrder_def split: prod.splits option.splits bool.splits)
  let ?v = "nat (fst (routeVirtualShard r n u))"
  from virtualShard_in_range [OF ok, of n u] have v: "?v < length (Gene_PrimaryLocations (mo_fallback r))"
    "Gene_PrimaryLocations (mo_fallback r) ! ?v = snd (routeVirtualShard r n u)"
    "int ?v = fst (routeVirtualShard r n u)" by auto
  have "Mapping_PrimaryLocations r ! ?v = Mapping_RouteOrder r n u" "?v < length (Mapping_PrimaryLocations r)"
    using v by (simp_all add: Mapping_PrimaryLocations_def Mapping_RouteOrder_def nth_enumerate_eq case_prod_beta)
  then show "Mapping_RouteOrder r n u \<in> set (Mapping_PrimaryLocations r)"
    by (metis nth_mem)
next
  fix r n u m v
  assume "effective_gene n u = effective_gene m v"
  then show "Mapping_RouteOrder r n u = Mapping_RouteOrder r m v"
    by (simp add: Mapping_RouteOrder_def routeVirtualShard_def Gene_RouteOrder_eq Let_def)
qed

section \<open>Properties\<close>

text \<open>
  An order is always found where it was written: for an order number handed out for user \<open>u\<close>, the
  router sends the owner's lookup, the system lookup that knows no user (payment callbacks, closing),
  and the first of the writes to the same location, and that location is in the router's catalogue of
  locations, for the mapping router with any validated mappings.
\<close>

theorem order_found_where_written:
  assumes "og_ok g" and "clock_sane clk" and "og_ids g = Some ids"
    and "NextOrderNumber clk g u i = Some (Inr n, g', i')" and "router_ok r"
  shows "Mapping_RouteOrder r n 0 = Mapping_RouteOrder r n u
    \<and> hd (Mapping_RouteOrderWrites r n u) = Mapping_RouteOrder r n 0
    \<and> Mapping_RouteOrder r n 0 \<in> set (Mapping_PrimaryLocations r)"
proof -
  from NextOrderNumber_value [OF assms(1,2,4)] have "ExtractUserGene n = UserGene u"
    by (metis order_fields_def snd_conv)
  from mapping_router.system_lookup [OF assms(5) this] mapping_router.reads_catalogued [OF assms(5)]
  show ?thesis by blast
qed

definition example_router :: MappingOrderRouter where
  "example_router = NewMappingOrderRouter (NewGeneOrderRouter ''db'' ''orders'' 2 4)"

lemma example_router_ok: "router_ok example_router"
  by (simp add: router_ok_def example_router_def NewMappingOrderRouter_def NewGeneOrderRouter_def
      atLeastOne_def tableCount_def)

theorem order_found_where_written_witness:
  "Mapping_RouteOrder example_router 8912897 0 = Mapping_RouteOrder example_router 8912897 2049"
  using order_found_where_written [OF example_sane(2,1) _ example_call example_router_ok]
  by (simp add: example_generator_def NewOrderNumberGenerator_def)

text \<open>
  Replacing the shard mappings is all or nothing: a rejected list leaves the router exactly as it
  was, an accepted one leaves a router whose mappings are all validated, filed under their own shard
  and within range, and fresh at that moment. So \<open>router_ok\<close> is an invariant of the router.
\<close>

theorem replace_mappings_all_or_nothing:
  assumes "router_ok r" and "ReplaceMappings now ms r = (res, r')"
  shows "router_ok r' \<and> (case res of
      Inl e \<Rightarrow> r' = r
    | Inr _ \<Rightarrow> mo_fallback r' = mo_fallback r \<and> mo_refreshedAt r' = now
        \<and> (now \<noteq> 0 \<longrightarrow> MappingFresh now 1 r')
        \<and> dom (mo_mappings r') = sm_VirtualShard ` set ms)"
proof (cases "collect_mappings (virtualShardCount r) ms Map.empty")
  case (Inl e)
  with assms show ?thesis by (auto simp: ReplaceMappings_def)
next
  case (Inr nm)
  have "virtualShardCount r' = virtualShardCount r" "tableCount r' = tableCount r"
    and r': "r' = r\<lparr>mo_mappings := nm, mo_refreshedAt := now\<rparr>" "res = Inr ()"
    using assms(2) Inr by (auto simp: ReplaceMappings_def virtualShardCount_def tableCount_def)
  with assms(1) collect_mappings_ok [OF Inr] collect_mappings_dom [OF Inr] show ?thesis
    by (auto simp: router_ok_def MappingFresh_def)
qed

definition example_mapping :: ShardMapping where
  "example_mapping = \<lparr>sm_VirtualShard = 3, sm_Primary = gene_location (mo_fallback example_router) 0 3,
     sm_Shadow = Some (gene_location (mo_fallback example_router) 5 0), sm_WriteMode = WriteDual, sm_Version = 2\<rparr>"

lemma example_replace:
  "ReplaceMappings 7 [example_mapping] example_router
     = (Inr (), example_router\<lparr>mo_mappings := [3 \<mapsto> example_mapping], mo_refreshedAt := 7\<rparr>)"
proof -
  have "virtualShardCount example_router = 8" by code_simp
  moreover have "check_mapping 8 example_mapping = Inr example_mapping" by code_simp
  ultimately show ?thesis by (simp add: ReplaceMappings_def) (simp add: example_mapping_def)
qed

theorem replace_mappings_all_or_nothing_witness:
  "router_ok (example_router\<lparr>mo_mappings := [3 \<mapsto> example_mapping], mo_refreshedAt := 7\<rparr>)"
  using replace_mappings_all_or_nothing [OF example_router_ok example_replace] by simp

text \<open>
  During a migration every write goes to both places: when the virtual shard of an order is in
  dual-write mode, the writes go to the primary and to the shadow location, in this order, and reads
  stay on the primary.
\<close>

theorem dual_write_covers_shadow:
  assumes "router_ok r" and "mo_mappings r (fst (routeVirtualShard r n u)) = Some m" and "sm_WriteMode m = WriteDual"
  shows "\<exists>shadow. sm_Shadow m = Some shadow \<and> Mapping_RouteOrderWrites r n u = [sm_Primary m, shadow]
    \<and> Mapping_RouteOrder r n u = sm_Primary m"
proof -
  from assms obtain shadow where "sm_Shadow m = Some shadow"
    by (fastforce simp: router_ok_def mapping_ok_def)
  with assms show ?thesis
    by (auto simp: Mapping_RouteOrderWrites_def Mapping_RouteOrder_def split: prod.splits)
qed

theorem dual_write_covers_shadow_witness:
  "length (Mapping_RouteOrderWrites (example_router\<lparr>mo_mappings := [3 \<mapsto> example_mapping], mo_refreshedAt := 7\<rparr>) 3 3) = 2"
proof -
  let ?r = "example_router\<lparr>mo_mappings := [3 \<mapsto> example_mapping], mo_refreshedAt := 7\<rparr>"
  have ok: "router_ok ?r"
    by (simp add: router_ok_def example_router_def NewMappingOrderRouter_def NewGeneOrderRouter_def
        atLeastOne_def tableCount_def virtualShardCount_def mapping_ok_def example_mapping_def
        gene_location_def indexed_def wrap64_nonneg)
  have "fst (routeVirtualShard ?r 3 3) = 3" by code_simp
  then have "mo_mappings ?r (fst (routeVirtualShard ?r 3 3)) = Some example_mapping" by simp
  from dual_write_covers_shadow [OF ok this] show ?thesis by (auto simp: example_mapping_def)
qed

text \<open>
  C21. The modulo router's indices: for every id but the smallest \<open>int64\<close> the database and table index are
  within the configured counts. For the smallest one, whose negation wraps around to itself, the
  remainder is negative and so can the index be: with three databases the location is \<open>db_-2\<close>.
\<close>

theorem mod_router_range:
  "(in64 i \<and> i \<noteq> - (2 ^ 63) \<longrightarrow>
     0 \<le> loc_DBIndex (Mod_Route r i) \<and> loc_DBIndex (Mod_Route r i) < atLeastOne (mr_DBCount r)
     \<and> 0 \<le> loc_TblIndex (Mod_Route r i) \<and> loc_TblIndex (Mod_Route r i) < atLeastOne (mr_TableCount r))
   \<and> loc_DBIndex (Mod_Route \<lparr>mr_DBPrefix = ''db'', mr_TablePrefix = ''t'', mr_DBCount = 3, mr_TableCount = 1\<rparr> (- (2 ^ 63))) = -2"
proof -
  let ?a = "if i < 0 then wrap64 (- i) else i"
  have "0 \<le> ?a" if "in64 i" "i \<noteq> - (2 ^ 63)"
    using that wrap64_nonneg [of "- i"] by (auto simp: in64_def)
  moreover from this have "0 \<le> ?a div atLeastOne (mr_DBCount r)" if "in64 i" "i \<noteq> - (2 ^ 63)"
    using that by (simp add: pos_imp_zdiv_nonneg_iff)
  ultimately have "0 \<le> loc_DBIndex (Mod_Route r i) \<and> loc_DBIndex (Mod_Route r i) < atLeastOne (mr_DBCount r)
     \<and> 0 \<le> loc_TblIndex (Mod_Route r i) \<and> loc_TblIndex (Mod_Route r i) < atLeastOne (mr_TableCount r)"
    if "in64 i" "i \<noteq> - (2 ^ 63)"
    using that by (simp add: Mod_Route_def Let_def smod_sdiv_nonneg)
  moreover have "loc_DBIndex (Mod_Route \<lparr>mr_DBPrefix = ''db'', mr_TablePrefix = ''t'', mr_DBCount = 3, mr_TableCount = 1\<rparr> (- (2 ^ 63))) = -2"
    by code_simp
  ultimately show ?thesis by blast
qed

theorem mod_router_range_witness:
  "loc_DBIndex (Mod_Route \<lparr>mr_DBPrefix = ''db'', mr_TablePrefix = ''t'', mr_DBCount = 3, mr_TableCount = 1\<rparr> (-7)) < 3"
  using mod_router_range [of "-7" "\<lparr>mr_DBPrefix = ''db'', mr_TablePrefix = ''t'', mr_DBCount = 3, mr_TableCount = 1\<rparr>"]
  by (simp add: in64_def atLeastOne_def)

end
