(* ===== verification/Redis_Server.thy ===== *)
theory Redis_Server
  imports App_Errors
begin

text \<open>
  The Redis server as the Lua scripts of the services use it. Redis is not part of the repository: its
  commands are a parameter, the record \<open>redis\<close> of operations over an abstract server state \<open>'r\<close>, and
  the locale \<open>redis_server\<close> states the documented behaviour the scripts rely on, over two
  observations: the value of each key, and which keys carry a time to live. A script is a function of
  \<open>KEYS\<close>, \<open>ARGV\<close> and the server state; Redis runs it as one step. \<open>None\<close> as a script's result is a
  script error (a failed \<open>redis.call\<close> or \<open>tonumber\<close>).

  The key builder (\<open>src/pkg/cache/key_builder.go\<close>) is modelled here, with the fact that keys of
  different kinds or arguments never coincide.
\<close>

datatype rvalue = RString string | RHash "string \<rightharpoonup> string"

record 'r redis =
  rGET :: "string \<Rightarrow> 'r \<Rightarrow> string option"
  rEXISTS :: "string \<Rightarrow> 'r \<Rightarrow> bool"
  rHGET :: "string \<Rightarrow> string \<Rightarrow> 'r \<Rightarrow> string option"
  rSET :: "string \<Rightarrow> string \<Rightarrow> 'r \<Rightarrow> 'r"
  rSETEX :: "string \<Rightarrow> string \<Rightarrow> int \<Rightarrow> 'r \<Rightarrow> 'r"
  rSETNXEX :: "string \<Rightarrow> string \<Rightarrow> int \<Rightarrow> 'r \<Rightarrow> bool \<times> 'r"
  rDEL :: "string \<Rightarrow> 'r \<Rightarrow> 'r"
  rINCRBY :: "string \<Rightarrow> int \<Rightarrow> 'r \<Rightarrow> 'r option"
  rHSET :: "string \<Rightarrow> (string \<times> string) list \<Rightarrow> 'r \<Rightarrow> 'r"
  rEXPIRE :: "string \<Rightarrow> int \<Rightarrow> 'r \<Rightarrow> 'r"
  rPEXPIRE :: "string \<Rightarrow> int \<Rightarrow> 'r \<Rightarrow> 'r"

definition str_val :: "rvalue option \<Rightarrow> string option" where
  "str_val v = (case v of Some (RString x) \<Rightarrow> Some x | _ \<Rightarrow> None)"

definition hash_val :: "rvalue option \<Rightarrow> string \<rightharpoonup> string" where
  "hash_val v = (case v of Some (RHash h) \<Rightarrow> h | _ \<Rightarrow> Map.empty)"

text \<open>The integer a counter key holds: an absent key counts as 0, a non-integer has no value.\<close>

definition int_val :: "rvalue option \<Rightarrow> int option" where
  "int_val v = (case v of None \<Rightarrow> Some 0 | Some (RString x) \<Rightarrow> parse_int x | Some (RHash h) \<Rightarrow> None)"

definition is_hash :: "rvalue option \<Rightarrow> bool" where
  "is_hash v = (case v of Some (RHash h) \<Rightarrow> True | _ \<Rightarrow> False)"

definition is_str :: "rvalue option \<Rightarrow> bool" where
  "is_str v = (case v of Some (RString x) \<Rightarrow> True | _ \<Rightarrow> False)"

lemma rvalue_simps [simp]:
  "str_val None = None" "str_val (Some (RString x)) = Some x" "str_val (Some (RHash h)) = None"
  "hash_val None = Map.empty" "hash_val (Some (RHash h)) = h"
  "int_val None = Some 0" "int_val (Some (RString x)) = parse_int x"
  "\<not> is_hash None" "\<not> is_hash (Some (RString x))" "is_hash (Some (RHash h))"
  "\<not> is_str None" "is_str (Some (RString x))" "\<not> is_str (Some (RHash h))"
  by (simp_all add: str_val_def hash_val_def int_val_def is_hash_def is_str_def)

lemma str_val_None: "\<not> is_hash v \<Longrightarrow> str_val v = None \<longleftrightarrow> v = None"
  by (auto simp: is_hash_def str_val_def split: option.splits rvalue.splits)

text \<open>
  \<open>vw s k\<close> is the value of key \<open>k\<close> and \<open>vol s\<close> the set of keys with a time to live. A command of one
  type on a key of the other is an error in Redis, so the laws say nothing there.
\<close>

locale redis_server =
  fixes R :: "'r redis"
    and vw :: "'r \<Rightarrow> string \<rightharpoonup> rvalue"
    and vol :: "'r \<Rightarrow> string set"
  assumes GET: "\<not> is_hash (vw s k) \<Longrightarrow> rGET R k s = str_val (vw s k)"
    and EXISTS: "rEXISTS R k s \<longleftrightarrow> vw s k \<noteq> None"
    and HGET: "\<not> is_str (vw s k) \<Longrightarrow> rHGET R k f s = hash_val (vw s k) f"
    and SET: "vw (rSET R k v s) = (vw s)(k := Some (RString v))"
      "vol (rSET R k v s) = vol s - {k}"
    and SETEX: "0 < ttl \<Longrightarrow> vw (rSETEX R k v ttl s) = (vw s)(k := Some (RString v))"
      "0 < ttl \<Longrightarrow> vol (rSETEX R k v ttl s) = insert k (vol s)"
    and SETNXEX: "0 < ttl \<Longrightarrow> fst (rSETNXEX R k v ttl s) \<longleftrightarrow> vw s k = None"
      "0 < ttl \<Longrightarrow> vw (snd (rSETNXEX R k v ttl s)) = (if vw s k = None then (vw s)(k := Some (RString v)) else vw s)"
      "0 < ttl \<Longrightarrow> vol (snd (rSETNXEX R k v ttl s)) = (if vw s k = None then insert k (vol s) else vol s)"
    and DEL: "vw (rDEL R k s) = (vw s)(k := None)" "vol (rDEL R k s) = vol s - {k}"
    and INCRBY_ok: "int_val (vw s k) = Some n \<Longrightarrow> in64 (n + d) \<Longrightarrow>
      \<exists>t. rINCRBY R k d s = Some t \<and> vw t = (vw s)(k := Some (RString (show_int (n + d)))) \<and> vol t = vol s"
    and INCRBY_err: "int_val (vw s k) = None \<or> (\<exists>n. int_val (vw s k) = Some n \<and> \<not> in64 (n + d)) \<Longrightarrow> rINCRBY R k d s = None"
    and HSET: "\<not> is_str (vw s k) \<Longrightarrow> vw (rHSET R k fs s) = (vw s)(k := Some (RHash (hash_val (vw s k) ++ map_of (rev fs))))"
      "\<not> is_str (vw s k) \<Longrightarrow> vol (rHSET R k fs s) = vol s"
    and EXPIRE: "0 < ttl \<Longrightarrow> vw (rEXPIRE R k ttl s) = vw s"
      "0 < ttl \<Longrightarrow> vol (rEXPIRE R k ttl s) = (if vw s k = None then vol s else insert k (vol s))"
    and PEXPIRE: "0 < ttl \<Longrightarrow> vw (rPEXPIRE R k ttl s) = vw s"
      "0 < ttl \<Longrightarrow> vol (rPEXPIRE R k ttl s) = (if vw s k = None then vol s else insert k (vol s))"
begin

text \<open>Loops of a script over a list of keys.\<close>

lemma fold_SET:
  "vw (fold (\<lambda>k. rSET R k v) ks s) = (\<lambda>k. if k \<in> set ks then Some (RString v) else vw s k)"
  "vol (fold (\<lambda>k. rSET R k v) ks s) = vol s - set ks"
  by (induction ks arbitrary: s) (auto simp: SET fun_eq_iff)

lemma fold_SETEX:
  assumes "0 < ttl"
  shows "vw (fold (\<lambda>k. rSETEX R k v ttl) ks s) = (\<lambda>k. if k \<in> set ks then Some (RString v) else vw s k)"
    and "vol (fold (\<lambda>k. rSETEX R k v ttl) ks s) = vol s \<union> set ks"
  using assms by (induction ks arbitrary: s) (auto simp: SETEX fun_eq_iff)

lemma fold_DEL_matching:
  assumes "\<And>k. k \<in> set ks \<Longrightarrow> \<not> is_hash (vw s k)"
  shows "vw (fold (\<lambda>k s. if rGET R k s = Some v then rDEL R k s else s) ks s) =
      (\<lambda>k. if k \<in> set ks \<and> vw s k = Some (RString v) then None else vw s k)"
    and "vol (fold (\<lambda>k s. if rGET R k s = Some v then rDEL R k s else s) ks s) =
      vol s - {k \<in> set ks. vw s k = Some (RString v)}"
proof -
  have str: "str_val x = Some v \<longleftrightarrow> x = Some (RString v)" for x
    by (auto simp: str_val_def split: option.splits rvalue.splits)
  have "vw (fold (\<lambda>k s. if rGET R k s = Some v then rDEL R k s else s) ks s) =
      (\<lambda>k. if k \<in> set ks \<and> vw s k = Some (RString v) then None else vw s k)
    \<and> vol (fold (\<lambda>k s. if rGET R k s = Some v then rDEL R k s else s) ks s) =
      vol s - {k \<in> set ks. vw s k = Some (RString v)}"
    using assms
  proof (induction ks arbitrary: s)
    case Nil
    then show ?case by simp
  next
    case (Cons k ks)
    have get: "rGET R k s = Some v \<longleftrightarrow> vw s k = Some (RString v)"
      using Cons.prems [of k] by (simp add: GET str)
    show ?case
    proof (cases "vw s k = Some (RString v)")
      case True
      have "\<And>k'. k' \<in> set ks \<Longrightarrow> \<not> is_hash (vw (rDEL R k s) k')"
        using Cons.prems by (auto simp: DEL)
      from Cons.IH [OF this] show ?thesis
        using True by (auto simp: get DEL fun_eq_iff)
    next
      case False
      with Cons.IH [of s] Cons.prems show ?thesis
        by (auto simp: get fun_eq_iff)
    qed
  qed
  then show "vw (fold (\<lambda>k s. if rGET R k s = Some v then rDEL R k s else s) ks s) =
      (\<lambda>k. if k \<in> set ks \<and> vw s k = Some (RString v) then None else vw s k)"
    and "vol (fold (\<lambda>k s. if rGET R k s = Some v then rDEL R k s else s) ks s) =
      vol s - {k \<in> set ks. vw s k = Some (RString v)}" by auto
qed

end

section \<open>A keyspace that satisfies the laws\<close>

record keyspace =
  ks_val :: "string \<rightharpoonup> rvalue"
  ks_ttl :: "string set"

definition keyspace_redis :: "keyspace redis" where
  "keyspace_redis = \<lparr>
     rGET = (\<lambda>k s. str_val (ks_val s k)),
     rEXISTS = (\<lambda>k s. ks_val s k \<noteq> None),
     rHGET = (\<lambda>k f s. hash_val (ks_val s k) f),
     rSET = (\<lambda>k v s. \<lparr>ks_val = (ks_val s)(k := Some (RString v)), ks_ttl = ks_ttl s - {k}\<rparr>),
     rSETEX = (\<lambda>k v ttl s. \<lparr>ks_val = (ks_val s)(k := Some (RString v)), ks_ttl = insert k (ks_ttl s)\<rparr>),
     rSETNXEX = (\<lambda>k v ttl s. if ks_val s k = None
        then (True, \<lparr>ks_val = (ks_val s)(k := Some (RString v)), ks_ttl = insert k (ks_ttl s)\<rparr>)
        else (False, s)),
     rDEL = (\<lambda>k s. \<lparr>ks_val = (ks_val s)(k := None), ks_ttl = ks_ttl s - {k}\<rparr>),
     rINCRBY = (\<lambda>k d s. case int_val (ks_val s k) of
        None \<Rightarrow> None
      | Some n \<Rightarrow> if in64 (n + d) then Some (s\<lparr>ks_val := (ks_val s)(k := Some (RString (show_int (n + d))))\<rparr>) else None),
     rHSET = (\<lambda>k fs s. s\<lparr>ks_val := (ks_val s)(k := Some (RHash (hash_val (ks_val s k) ++ map_of (rev fs))))\<rparr>),
     rEXPIRE = (\<lambda>k ttl s. if ks_val s k = None then s else s\<lparr>ks_ttl := insert k (ks_ttl s)\<rparr>),
     rPEXPIRE = (\<lambda>k ttl s. if ks_val s k = None then s else s\<lparr>ks_ttl := insert k (ks_ttl s)\<rparr>)\<rparr>"

interpretation keyspace: redis_server keyspace_redis ks_val ks_ttl
  by unfold_locales (auto simp: keyspace_redis_def fun_eq_iff split: if_splits)

section \<open>Keys\<close>

definition NewKeyBuilder :: "string \<Rightarrow> string" where
  "NewKeyBuilder prefix = trim (\<lambda>c. c = CHR '':'') prefix"

definition Build :: "string \<Rightarrow> string list \<Rightarrow> string" where
  "Build prefix parts =
     join '':'' ((if prefix = '''' then [] else [prefix])
       @ filter (\<lambda>t. t \<noteq> '''') (map (trim (\<lambda>c. c = CHR '':'')) parts))"

lemma trim_plain: "plain_part s \<Longrightarrow> trim (\<lambda>c. c = CHR '':'') s = s"
  by (rule trim_id) (auto simp: plain_part_def)

lemma Build_plain:
  assumes "list_all plain_part parts"
  shows "Build prefix parts = join '':'' ((if prefix = [] then [] else [prefix]) @ parts)"
proof -
  have "map (trim (\<lambda>c. c = CHR '':'')) parts = parts"
    using assms by (induction parts) (auto simp: trim_plain)
  moreover have "filter (\<lambda>t. t \<noteq> []) parts = parts"
    using assms by (induction parts) (auto simp: plain_part_def)
  ultimately show ?thesis by (simp add: Build_def)
qed

lemma Build_inj:
  assumes "list_all plain_part xs" "list_all plain_part ys" "xs \<noteq> []" "ys \<noteq> []"
  shows "Build prefix xs = Build prefix ys \<longleftrightarrow> xs = ys"
  using assms by (auto simp: Build_plain join_Cons dest: join_inj)

section \<open>Running scripts\<close>

type_synonym script_reply = "int option"

text \<open>
  \<open>cache.LuaExecutor\<close>: sends a script to the server. It is a parameter (\<open>exec\<close>), since the client
  library is not part of the repository; it gets the script, the keys and the arguments.
\<close>

type_synonym 'r lua_script = "string list \<Rightarrow> string list \<Rightarrow> 'r \<Rightarrow> script_reply \<times> 'r"
type_synonym 'r executor = "'r lua_script \<Rightarrow> string list \<Rightarrow> string list \<Rightarrow> ('r, int) go"

text \<open>
  What the services rely on of the Lua executor: a reply is the script's reply and comes with its
  effect; an error leaves the server either untouched or as the script left it.
\<close>

definition runs_scripts :: "'r executor \<Rightarrow> bool" where
  "runs_scripts exec \<longleftrightarrow> (\<forall>sc K A s. case exec sc K A s of
     (Inr r, t) \<Rightarrow> sc K A s = (Some r, t)
   | (Inl e, t) \<Rightarrow> t = s \<or> t = snd (sc K A s))"

definition direct_exec :: "'r executor" where
  "direct_exec sc K A s = (case sc K A s of
     (Some r, t) \<Rightarrow> (Inr r, t) | (None, t) \<Rightarrow> (Inl (PlainError ''script error''), t))"

lemma direct_exec_runs: "runs_scripts direct_exec"
  by (auto simp: runs_scripts_def direct_exec_def split: prod.splits option.splits)

end
