(* ===== verification/Program_Domain.thy ===== *)
theory Program_Domain
  imports App_Errors
begin

text \<open>
  The domain of the program service (\<open>src/app/program-service/internal/domain/program\<close>): programs,
  ticket categories, seats and their life cycle, the inventory rules, and the purchase command.
  A slice is a list; a nil slice and an empty one are not distinguished.
\<close>

record Program =
  prg_ID :: int64
  prg_Title :: string
  prg_City :: string
  prg_Place :: string
  prg_ShowTime :: time
  prg_Status :: string

record TicketCategory =
  tc_ID :: int64
  tc_ProgramID :: int64
  tc_Name :: string
  tc_PriceCent :: int64
  tc_Total :: int64
  tc_Remain :: int64
  tc_SellStarted :: bool

type_synonym SeatStatus = string

abbreviation SeatNoSold :: SeatStatus where "SeatNoSold \<equiv> ''no_sold''"
abbreviation SeatLocked :: SeatStatus where "SeatLocked \<equiv> ''locked''"
abbreviation SeatSold :: SeatStatus where "SeatSold \<equiv> ''sold''"

record Seat =
  seat_ID :: int64
  seat_ProgramID :: int64
  seat_TicketCategoryID :: int64
  seat_RowCode :: string
  seat_ColCode :: string
  seat_PriceCent :: int64
  seat_Status :: SeatStatus

text \<open>The seat's methods return whether they applied, together with the seat they leave.\<close>

definition Seat_Lock :: "Seat \<Rightarrow> bool \<times> Seat" where
  "Seat_Lock s = (if seat_Status s \<noteq> SeatNoSold then (False, s) else (True, s\<lparr>seat_Status := SeatLocked\<rparr>))"

definition Seat_ConfirmSold :: "Seat \<Rightarrow> bool \<times> Seat" where
  "Seat_ConfirmSold s = (if seat_Status s \<noteq> SeatLocked then (False, s) else (True, s\<lparr>seat_Status := SeatSold\<rparr>))"

definition Seat_Release :: "Seat \<Rightarrow> bool \<times> Seat" where
  "Seat_Release s = (if seat_Status s \<noteq> SeatLocked then (False, s) else (True, s\<lparr>seat_Status := SeatNoSold\<rparr>))"

section \<open>Inventory rules\<close>

definition EnsureEnough :: "TicketCategory \<Rightarrow> int64 \<Rightarrow> error option" where
  "EnsureEnough category count =
     (if count \<le> 0 then Some (New CodeInvalidArgument ''ticket count must be positive'')
      else if tc_Remain category < count then Some (New CodeInventoryNotEnough ''ticket remain number is not enough'')
      else None)"

text \<open>The loop of \<open>LockSeats\<close>: it stops as soon as \<open>expectedCount\<close> seats are locked.\<close>

fun lock_loop :: "int \<Rightarrow> Seat list \<Rightarrow> Seat list \<Rightarrow> Seat list" where
  "lock_loop expectedCount [] locked = locked"
| "lock_loop expectedCount (seat # seats) locked =
     (if int (length locked) = expectedCount then locked
      else case Seat_Lock seat of
        (True, seat') \<Rightarrow> lock_loop expectedCount seats (locked @ [seat'])
      | (False, _) \<Rightarrow> lock_loop expectedCount seats locked)"

text \<open>A negative \<open>expectedCount\<close> makes the allocation of the result slice panic.\<close>

definition InventoryService_LockSeats :: "Seat list \<Rightarrow> int \<Rightarrow> error + Seat list" where
  "InventoryService_LockSeats seats expectedCount =
     (if int (length seats) < expectedCount
      then Inl (New CodeInventoryNotEnough ''not enough candidate seats'')
      else if expectedCount < 0 then Inl (PlainError ''panic: makeslice: cap out of range'')
      else
        (let locked = lock_loop expectedCount seats [] in
         if int (length locked) \<noteq> expectedCount then Inl (New CodeSeatUnavailable ''seat is unavailable'')
         else Inr locked))"

section \<open>Purchase command, inventory differences\<close>

record CreateOrderCommand =
  cmd_RequestID :: string
  cmd_UserID :: int64
  cmd_ProgramID :: int64
  cmd_TicketCategoryID :: int64
  cmd_SeatIDs :: "int64 list"
  cmd_TicketUserIDs :: "int64 list"

text \<open>The number of tickets: the seats when seats are chosen, the ticket users otherwise.\<close>

definition ticket_count :: "int64 list \<Rightarrow> int64 list \<Rightarrow> int64" where
  "ticket_count seatIDs ticketUserIDs =
     (if length seatIDs > 0 then int (length seatIDs) else int (length ticketUserIDs))"

definition Command_TicketCount :: "CreateOrderCommand \<Rightarrow> int64" where
  "Command_TicketCount c = ticket_count (cmd_SeatIDs c) (cmd_TicketUserIDs c)"

record InventoryUsage =
  iu_TicketCategoryID :: int64
  iu_OccupiedCount :: int64

record InventoryDifference =
  idf_TicketCategoryID :: int64
  idf_Total :: int64
  idf_OccupiedCount :: int64
  idf_ExpectedRemain :: int64
  idf_MySQLRemain :: int64
  idf_RedisRemain :: int64
  idf_RedisExists :: bool
  idf_Repaired :: bool
  idf_Reason :: string

record ReconciliationRecord =
  rr_ID :: int64
  rr_ProgramID :: int64
  rr_TicketCategoryID :: int64
  rr_Difference :: InventoryDifference
  rr_HandleStatus :: string
  rr_CreatedAt :: time

section \<open>Locking candidate seats\<close>

definition lockable :: "Seat \<Rightarrow> bool" where
  "lockable s \<longleftrightarrow> seat_Status s = SeatNoSold"

lemma lock_loop_eq:
  "int (length locked) \<le> n \<Longrightarrow>
   lock_loop n seats locked =
     locked @ map (\<lambda>s. s\<lparr>seat_Status := SeatLocked\<rparr>) (take (nat n - length locked) (filter lockable seats))"
proof (induction n seats locked rule: lock_loop.induct)
  case (1 n locked)
  then show ?case by simp
next
  case (2 n seat seats locked)
  show ?case
  proof (cases "int (length locked) = n")
    case True
    then show ?thesis by auto
  next
    case False
    show ?thesis
    proof (cases "lockable seat")
      case True
      then have l: "Seat_Lock seat = (True, seat\<lparr>seat_Status := SeatLocked\<rparr>)"
        by (simp add: Seat_Lock_def lockable_def)
      have "nat n - length locked = Suc (nat n - Suc (length locked))"
        using False "2.prems" by linarith
      with False l True "2.prems" "2.IH"(1) [OF False l [symmetric] refl] show ?thesis
        by (simp add: lockable_def)
    next
      case nl: False
      then have l: "Seat_Lock seat = (False, seat)"
        by (simp add: Seat_Lock_def lockable_def)
      with False nl "2.prems" "2.IH"(2) [OF False l [symmetric] refl] show ?thesis by simp
    qed
  qed
qed

text \<open>
  Seat allocation takes the first free seats: \<open>LockSeats\<close> succeeds exactly when there are enough
  unsold candidates, and then returns the first \<open>expectedCount\<close> of them in the given order, locked;
  otherwise the error says whether there were too few candidates or too few free ones.
\<close>

theorem seat_allocation:
  "InventoryService_LockSeats seats n =
     (if int (length seats) < n then Inl (New CodeInventoryNotEnough ''not enough candidate seats'')
      else if n < 0 then Inl (PlainError ''panic: makeslice: cap out of range'')
      else if int (length (filter lockable seats)) < n then Inl (New CodeSeatUnavailable ''seat is unavailable'')
      else Inr (map (\<lambda>s. s\<lparr>seat_Status := SeatLocked\<rparr>) (take (nat n) (filter lockable seats))))"
  by (auto simp: InventoryService_LockSeats_def Let_def lock_loop_eq min_def)

end
