(* ===== verification/Redis_Inventory.thy ===== *)
theory Redis_Inventory
  imports Redis_Server Program_Domain
begin

text \<open>
  Seat and ticket inventory in Redis
  (\<open>src/app/program-service/internal/infrastructure/redis/inventory_locker.go\<close>,
  \<open>seat_state_writer.go\<close>, \<open>inventory_store.go\<close>): the four Lua scripts that lock, roll back, confirm
  and release the seats and ticket users of an order together with the remaining count of the ticket
  category, and the Go adapters that build their keys and read their results.

  The abstract specification is the \<open>ledger\<close>: remaining counts, the owner mark of each seat and ticket
  user, the lock record of each order, and the markers of rolled-back and released orders. Each script
  refines one operation of the ledger (\<open>scripts_refine_ledger\<close>), so the properties are proved on the
  ledger. Keys vanish when their time to live is over: this is a step of the environment.
\<close>

section \<open>The scripts\<close>

definition lock_mark :: "string \<Rightarrow> string" where
  "lock_mark order_number = ''locked:'' @ order_number"

definition sold_mark :: "string \<Rightarrow> string" where
  "sold_mark order_number = ''sold:'' @ order_number"

text \<open>\<open>tonumber(redis.call("GET", key) or "0")\<close>\<close>

definition get_number :: "'r redis \<Rightarrow> string \<Rightarrow> 'r \<Rightarrow> int option" where
  "get_number R k s = (case rGET R k s of None \<Rightarrow> Some 0 | Some v \<Rightarrow> parse_int v)"

definition lockInventoryScript ::
  "'r redis \<Rightarrow> string list \<Rightarrow> string list \<Rightarrow> 'r \<Rightarrow> script_reply \<times> 'r" where
  "lockInventoryScript R KEYS ARGV s =
     (case (get_number R (KEYS ! 0) s, parse_int (ARGV ! 0), parse_int (ARGV ! 6)) of
        (Some inventory, Some count, Some ttl) \<Rightarrow>
          if rHGET R (KEYS ! 1) ''order_number'' s = Some (ARGV ! 1) then (Some inventory, s)
          else if inventory < count then (Some (-1), s)
          else if list_ex (\<lambda>k. rEXISTS R k s) (drop 4 KEYS) then (Some (-2), s)
          else (case rINCRBY R (KEYS ! 0) (- count) s of
            None \<Rightarrow> (None, s)
          | Some s1 \<Rightarrow>
              (let s2 = rHSET R (KEYS ! 1)
                     [(''order_number'', ARGV ! 1), (''program_id'', ARGV ! 2), (''ticket_category_id'', ARGV ! 3),
                      (''seat_ids'', ARGV ! 4), (''identifier_id'', ARGV ! 5)] s1;
                   s3 = rEXPIRE R (KEYS ! 1) ttl s2;
                   s4 = rDEL R (KEYS ! 3) (rDEL R (KEYS ! 2) s3);
                   s5 = fold (\<lambda>k. rSETEX R k (lock_mark (ARGV ! 1)) ttl) (drop 4 KEYS) s4
               in (Some (inventory - count), s5)))
      | _ \<Rightarrow> (None, s))"

text \<open>The tail shared by the roll-back and release scripts, after the marker has been set.\<close>

definition give_back :: "'r redis \<Rightarrow> string list \<Rightarrow> int \<Rightarrow> string \<Rightarrow> 'r \<Rightarrow> script_reply \<times> 'r" where
  "give_back R KEYS count order_number s =
     (case rINCRBY R (KEYS ! 0) count s of
        None \<Rightarrow> (None, s)
      | Some s1 \<Rightarrow>
          (Some 1, fold (\<lambda>k s. if rGET R k s = Some (lock_mark order_number) then rDEL R k s else s)
                     (drop 3 KEYS) (rDEL R (KEYS ! 1) s1)))"

definition rollbackCreateOrderScript ::
  "'r redis \<Rightarrow> string list \<Rightarrow> string list \<Rightarrow> 'r \<Rightarrow> script_reply \<times> 'r" where
  "rollbackCreateOrderScript R KEYS ARGV s =
     (case (parse_int (ARGV ! 0), parse_int (ARGV ! 2)) of
        (Some count, Some ttl) \<Rightarrow>
          (case rSETNXEX R (KEYS ! 2) ''1'' ttl s of
             (False, s1) \<Rightarrow> (Some 0, s1)
           | (True, s1) \<Rightarrow> give_back R KEYS count (ARGV ! 1) s1)
      | _ \<Rightarrow> (None, s))"

definition confirmSeatsSoldScript ::
  "'r redis \<Rightarrow> string list \<Rightarrow> string list \<Rightarrow> 'r \<Rightarrow> script_reply \<times> 'r" where
  "confirmSeatsSoldScript R KEYS ARGV s =
     (case parse_int (ARGV ! 1) of
        Some ttl \<Rightarrow>
          if list_ex (\<lambda>k. rGET R k s \<notin> {None, Some (lock_mark (ARGV ! 0)), Some (sold_mark (ARGV ! 0))}) (drop 1 KEYS)
          then (Some (-1), s)
          else (Some 1, fold (\<lambda>k. rSET R k (sold_mark (ARGV ! 0))) (drop 1 KEYS)
                          (rEXPIRE R (KEYS ! 0) ttl (rHSET R (KEYS ! 0) [(''status'', ''sold'')] s)))
      | None \<Rightarrow> (None, s))"

definition releaseSeatsScript ::
  "'r redis \<Rightarrow> string list \<Rightarrow> string list \<Rightarrow> 'r \<Rightarrow> script_reply \<times> 'r" where
  "releaseSeatsScript R KEYS ARGV s =
     (case (parse_int (ARGV ! 0), parse_int (ARGV ! 2)) of
        (Some count, Some ttl) \<Rightarrow>
          if list_ex (\<lambda>k. rGET R k s \<notin> {None, Some (lock_mark (ARGV ! 1))}) (drop 3 KEYS) then (Some (-1), s)
          else (case rSETNXEX R (KEYS ! 2) ''1'' ttl s of
             (False, s1) \<Rightarrow> (Some 0, s1)
           | (True, s1) \<Rightarrow> give_back R KEYS count (ARGV ! 1) s1)
      | _ \<Rightarrow> (None, s))"

section \<open>The Go adapters\<close>

datatype resource = SeatR int64 int64 | TicketUserR int64 int64

definition resource_key :: "string \<Rightarrow> resource \<Rightarrow> string" where
  "resource_key keys r = (case r of
     SeatR programID seatID \<Rightarrow> Build keys [''seat'', show_int programID, show_int seatID]
   | TicketUserR programID ticketUserID \<Rightarrow> Build keys [''ticket-user'', show_int programID, show_int ticketUserID])"

definition inventory_key :: "string \<Rightarrow> int64 \<Rightarrow> int64 \<Rightarrow> string" where
  "inventory_key keys programID ticketCategoryID = Build keys [''inventory'', show_int programID, show_int ticketCategoryID]"

definition order_key :: "string \<Rightarrow> string \<Rightarrow> int64 \<Rightarrow> string" where
  "order_key keys kind orderNumber = Build keys [kind, show_int orderNumber]"

definition order_resources :: "int64 \<Rightarrow> int64 list \<Rightarrow> int64 list \<Rightarrow> resource list" where
  "order_resources programID seatIDs ticketUserIDs = map (SeatR programID) seatIDs @ map (TicketUserR programID) ticketUserIDs"

definition resourceKeys :: "string \<Rightarrow> int64 \<Rightarrow> int64 list \<Rightarrow> int64 list \<Rightarrow> string list" where
  "resourceKeys keys programID seatIDs ticketUserIDs =
     map (resource_key keys) (order_resources programID seatIDs ticketUserIDs)"

definition joinInt64 :: "int64 list \<Rightarrow> string" where
  "joinInt64 values = join '','' (map show_int values)"

definition lockedSeatPlaceholders :: "CreateOrderCommand \<Rightarrow> Seat list" where
  "lockedSeatPlaceholders cmd =
     map (\<lambda>seatID. \<lparr>seat_ID = seatID, seat_ProgramID = cmd_ProgramID cmd, seat_TicketCategoryID = cmd_TicketCategoryID cmd,
                    seat_RowCode = '''', seat_ColCode = '''', seat_PriceCent = 0, seat_Status = SeatLocked\<rparr>) (cmd_SeatIDs cmd)"

definition lock_ttl :: "int64 \<Rightarrow> int64" where
  "lock_ttl ttlSec = (if ttlSec \<le> 0 then 15 * 60 else ttlSec)"

definition Locker_LockSeats ::
  "'r redis \<Rightarrow> 'r executor \<Rightarrow> string \<Rightarrow> int64 \<Rightarrow> CreateOrderCommand \<Rightarrow> int64 \<Rightarrow> int64 \<Rightarrow> ('r, Seat list) go" where
  "Locker_LockSeats R exec keys ttlSec cmd orderNumber identifierID =
     (let count = ticket_count (cmd_SeatIDs cmd) (cmd_TicketUserIDs cmd) in
      if count \<le> 0 then failG (New CodeInvalidArgument ''ticket user or seat is required'')
      else
        attemptG (exec (lockInventoryScript R)
          ([inventory_key keys (cmd_ProgramID cmd) (cmd_TicketCategoryID cmd), order_key keys ''order-lock'' orderNumber,
            order_key keys ''order-rollback'' orderNumber, order_key keys ''order-release'' orderNumber]
           @ resourceKeys keys (cmd_ProgramID cmd) (cmd_SeatIDs cmd) (cmd_TicketUserIDs cmd))
          [show_int count, show_int orderNumber, show_int (cmd_ProgramID cmd), show_int (cmd_TicketCategoryID cmd),
           joinInt64 (cmd_SeatIDs cmd), show_int identifierID, show_int ttlSec])
        (\<lambda>r. case r of
           Inl e \<Rightarrow> failG (Wrap CodeInfrastructure ''lock inventory failed'' e)
         | Inr result \<Rightarrow>
             if result < 0 then
               (if result = -2 then failG (New CodeSeatUnavailable ''seat is already locked or sold'')
                else failG (New CodeInventoryNotEnough ''ticket inventory is not enough''))
             else returnG (lockedSeatPlaceholders cmd)))"

text \<open>The keys of a roll-back or a release; \<open>kind\<close> names the marker.\<close>

definition giveback_keys :: "string \<Rightarrow> string \<Rightarrow> int64 \<Rightarrow> int64 \<Rightarrow> int64 \<Rightarrow> int64 list \<Rightarrow> int64 list \<Rightarrow> string list" where
  "giveback_keys keys kind programID ticketCategoryID orderNumber seatIDs ticketUserIDs =
     [inventory_key keys programID ticketCategoryID, order_key keys ''order-lock'' orderNumber, order_key keys kind orderNumber]
     @ resourceKeys keys programID seatIDs ticketUserIDs"

definition Locker_RollbackSeats ::
  "'r redis \<Rightarrow> 'r executor \<Rightarrow> string \<Rightarrow> int64 \<Rightarrow> CreateOrderCommand \<Rightarrow> int64 \<Rightarrow> int64 \<Rightarrow> ('r, unit) go" where
  "Locker_RollbackSeats R exec keys ttlSec cmd orderNumber identifierID =
     (let count = ticket_count (cmd_SeatIDs cmd) (cmd_TicketUserIDs cmd) in
      attemptG (exec (rollbackCreateOrderScript R)
          (giveback_keys keys ''order-rollback'' (cmd_ProgramID cmd) (cmd_TicketCategoryID cmd) orderNumber (cmd_SeatIDs cmd) (cmd_TicketUserIDs cmd))
          [show_int count, show_int orderNumber, show_int ttlSec])
        (\<lambda>r. case r of
           Inl e \<Rightarrow> failG (Wrap CodeInfrastructure ''rollback inventory failed'' e)
         | Inr _ \<Rightarrow> returnG ()))"

definition markerTTL :: int64 where
  "markerTTL = 7 * 24 * 60 * 60"

definition Writer_RollbackCreateOrder ::
  "'r redis \<Rightarrow> 'r executor \<Rightarrow> string \<Rightarrow> int64 \<Rightarrow> int64 \<Rightarrow> int64 \<Rightarrow> int64 list \<Rightarrow> int64 list \<Rightarrow> int64 \<Rightarrow> ('r, unit) go" where
  "Writer_RollbackCreateOrder R exec keys programID ticketCategoryID orderNumber seatIDs ticketUserIDs count =
     attemptG (exec (rollbackCreateOrderScript R)
         (giveback_keys keys ''order-rollback'' programID ticketCategoryID orderNumber seatIDs ticketUserIDs)
         [show_int count, show_int orderNumber, show_int markerTTL])
       (\<lambda>r. case r of
          Inl e \<Rightarrow> failG (Wrap CodeInfrastructure ''rollback create order failed'' e)
        | Inr _ \<Rightarrow> returnG ())"

definition Writer_ConfirmSeatsSold ::
  "'r redis \<Rightarrow> 'r executor \<Rightarrow> string \<Rightarrow> int64 \<Rightarrow> int64 \<Rightarrow> int64 list \<Rightarrow> int64 list \<Rightarrow> ('r, unit) go" where
  "Writer_ConfirmSeatsSold R exec keys orderNumber programID seatIDs ticketUserIDs =
     attemptG (exec (confirmSeatsSoldScript R)
         (order_key keys ''order-lock'' orderNumber # resourceKeys keys programID seatIDs ticketUserIDs)
         [show_int orderNumber, show_int markerTTL])
       (\<lambda>r. case r of
          Inl e \<Rightarrow> failG (Wrap CodeInfrastructure ''confirm seats sold failed'' e)
        | Inr result \<Rightarrow>
            if result < 0 then failG (New CodeSeatUnavailable ''seat ownership changed before payment confirmation'')
            else returnG ())"

definition Writer_ReleaseSeats ::
  "'r redis \<Rightarrow> 'r executor \<Rightarrow> string \<Rightarrow> int64 \<Rightarrow> int64 \<Rightarrow> int64 \<Rightarrow> int64 list \<Rightarrow> int64 list \<Rightarrow> int64 \<Rightarrow> ('r, unit) go" where
  "Writer_ReleaseSeats R exec keys orderNumber programID ticketCategoryID seatIDs ticketUserIDs count =
     attemptG (exec (releaseSeatsScript R)
         (giveback_keys keys ''order-release'' programID ticketCategoryID orderNumber seatIDs ticketUserIDs)
         [show_int count, show_int orderNumber, show_int markerTTL])
       (\<lambda>r. case r of
          Inl e \<Rightarrow> failG (Wrap CodeInfrastructure ''release seats failed'' e)
        | Inr result \<Rightarrow>
            if result < 0 then failG (New CodeSeatUnavailable ''seat ownership changed before release'')
            else returnG ())"

section \<open>The ledger\<close>

record ledger =
  lg_remain :: "int64 \<times> int64 \<Rightarrow> int64 option"
  lg_lock :: "int64 \<rightharpoonup> (string \<rightharpoonup> string)"
  lg_rolled :: "int64 set"
  lg_released :: "int64 set"
  lg_owner :: "resource \<rightharpoonup> string"

definition remaining :: "ledger \<Rightarrow> int64 \<times> int64 \<Rightarrow> int64" where
  "remaining l pc = (case lg_remain l pc of None \<Rightarrow> 0 | Some n \<Rightarrow> n)"

abbreviation locked_by :: "int64 \<Rightarrow> string" where
  "locked_by orderNumber \<equiv> lock_mark (show_int orderNumber)"

abbreviation sold_to :: "int64 \<Rightarrow> string" where
  "sold_to orderNumber \<equiv> sold_mark (show_int orderNumber)"

definition has_lock :: "ledger \<Rightarrow> int64 \<Rightarrow> bool" where
  "has_lock l n \<longleftrightarrow> (\<exists>h. lg_lock l n = Some h \<and> h ''order_number'' = Some (show_int n))"

definition lock_fields :: "int64 \<Rightarrow> int64 \<Rightarrow> int64 \<Rightarrow> string \<Rightarrow> int64 \<Rightarrow> (string \<times> string) list" where
  "lock_fields n p c seats ident =
     [(''order_number'', show_int n), (''program_id'', show_int p), (''ticket_category_id'', show_int c),
      (''seat_ids'', seats), (''identifier_id'', show_int ident)]"

definition the_hash :: "(string \<rightharpoonup> string) option \<Rightarrow> string \<rightharpoonup> string" where
  "the_hash h = (case h of None \<Rightarrow> Map.empty | Some m \<Rightarrow> m)"

definition ledger_lock ::
  "int64 \<Rightarrow> int64 \<Rightarrow> int64 \<Rightarrow> int64 \<Rightarrow> string \<Rightarrow> int64 \<Rightarrow> resource list \<Rightarrow> ledger \<Rightarrow> script_reply \<times> ledger" where
  "ledger_lock n p c count seats ident rs l =
     (if has_lock l n then (Some (remaining l (p, c)), l)
      else if remaining l (p, c) < count then (Some (-1), l)
      else if \<exists>r \<in> set rs. lg_owner l r \<noteq> None then (Some (-2), l)
      else if \<not> in64 (remaining l (p, c) - count) then (None, l)
      else (Some (remaining l (p, c) - count),
            \<lparr>lg_remain = (lg_remain l)((p, c) := Some (remaining l (p, c) - count)),
             lg_lock = (lg_lock l)(n := Some (the_hash (lg_lock l n) ++ map_of (rev (lock_fields n p c seats ident)))),
             lg_rolled = lg_rolled l - {n}, lg_released = lg_released l - {n},
             lg_owner = (\<lambda>r. if r \<in> set rs then Some (locked_by n) else lg_owner l r)\<rparr>))"

definition ledger_give_back ::
  "int64 \<Rightarrow> int64 \<Rightarrow> int64 \<Rightarrow> int64 \<Rightarrow> resource list \<Rightarrow> ledger \<Rightarrow> script_reply \<times> ledger" where
  "ledger_give_back n p c count rs l =
     (if \<not> in64 (remaining l (p, c) + count) then (None, l)
      else (Some 1,
            l\<lparr>lg_remain := (lg_remain l)((p, c) := Some (remaining l (p, c) + count)),
              lg_lock := (lg_lock l)(n := None),
              lg_owner := (\<lambda>r. if r \<in> set rs \<and> lg_owner l r = Some (locked_by n) then None else lg_owner l r)\<rparr>))"

definition ledger_rollback ::
  "int64 \<Rightarrow> int64 \<Rightarrow> int64 \<Rightarrow> int64 \<Rightarrow> resource list \<Rightarrow> ledger \<Rightarrow> script_reply \<times> ledger" where
  "ledger_rollback n p c count rs l =
     (if n \<in> lg_rolled l then (Some 0, l)
      else ledger_give_back n p c count rs (l\<lparr>lg_rolled := insert n (lg_rolled l)\<rparr>))"

definition ledger_confirm :: "int64 \<Rightarrow> resource list \<Rightarrow> ledger \<Rightarrow> script_reply \<times> ledger" where
  "ledger_confirm n rs l =
     (if \<exists>r \<in> set rs. lg_owner l r \<notin> {None, Some (locked_by n), Some (sold_to n)} then (Some (-1), l)
      else (Some 1,
            l\<lparr>lg_lock := (lg_lock l)(n := Some ((the_hash (lg_lock l n))(''status'' \<mapsto> ''sold''))),
              lg_owner := (\<lambda>r. if r \<in> set rs then Some (sold_to n) else lg_owner l r)\<rparr>))"

definition ledger_release ::
  "int64 \<Rightarrow> int64 \<Rightarrow> int64 \<Rightarrow> int64 \<Rightarrow> resource list \<Rightarrow> ledger \<Rightarrow> script_reply \<times> ledger" where
  "ledger_release n p c count rs l =
     (if \<exists>r \<in> set rs. lg_owner l r \<notin> {None, Some (locked_by n)} then (Some (-1), l)
      else if n \<in> lg_released l then (Some 0, l)
      else ledger_give_back n p c count rs (l\<lparr>lg_released := insert n (lg_released l)\<rparr>))"

section \<open>From the keyspace to the ledger\<close>

definition abs_ledger :: "string \<Rightarrow> (string \<rightharpoonup> rvalue) \<Rightarrow> ledger" where
  "abs_ledger b m =
     \<lparr>lg_remain = (\<lambda>(p, c). case m (inventory_key b p c) of None \<Rightarrow> None | Some v \<Rightarrow> int_val (Some v)),
      lg_lock = (\<lambda>n. case m (order_key b ''order-lock'' n) of None \<Rightarrow> None | Some v \<Rightarrow> Some (hash_val (Some v))),
      lg_rolled = {n. m (order_key b ''order-rollback'' n) \<noteq> None},
      lg_released = {n. m (order_key b ''order-release'' n) \<noteq> None},
      lg_owner = (\<lambda>r. str_val (m (resource_key b r)))\<rparr>"

text \<open>Each kind of key holds its own type of value, and a sold mark has no time to live.\<close>

definition keys_ok :: "string \<Rightarrow> (string \<rightharpoonup> rvalue) \<Rightarrow> string set \<Rightarrow> bool" where
  "keys_ok b m vs \<longleftrightarrow>
     (\<forall>p c. \<not> is_hash (m (inventory_key b p c)) \<and> int_val (m (inventory_key b p c)) \<noteq> None)
     \<and> (\<forall>n. \<not> is_str (m (order_key b ''order-lock'' n)))
     \<and> (\<forall>r. \<not> is_hash (m (resource_key b r)))
     \<and> (\<forall>r n. m (resource_key b r) = Some (RString (sold_to n)) \<longrightarrow> resource_key b r \<notin> vs)"

lemma plain_kinds [simp]:
  "plain_part ''inventory''" "plain_part ''order-lock''" "plain_part ''order-rollback''"
  "plain_part ''order-release''" "plain_part ''seat''" "plain_part ''ticket-user''"
  by (simp_all add: plain_part_def)

lemma key_eqs [simp]:
  "inventory_key b p c = inventory_key b p' c' \<longleftrightarrow> p = p' \<and> c = c'"
  "plain_part k \<Longrightarrow> plain_part k' \<Longrightarrow> order_key b k n = order_key b k' n' \<longleftrightarrow> k = k' \<and> n = n'"
  "resource_key b r = resource_key b r' \<longleftrightarrow> r = r'"
  by (auto simp: inventory_key_def order_key_def resource_key_def Build_inj split: resource.splits)

lemma key_neqs [simp]:
  "plain_part k \<Longrightarrow> inventory_key b p c \<noteq> order_key b k n"
  "plain_part k \<Longrightarrow> order_key b k n \<noteq> inventory_key b p c"
  "inventory_key b p c \<noteq> resource_key b r" "resource_key b r \<noteq> inventory_key b p c"
  "plain_part k \<Longrightarrow> order_key b k n \<noteq> resource_key b r"
  "plain_part k \<Longrightarrow> resource_key b r \<noteq> order_key b k n"
  by (auto simp: inventory_key_def order_key_def resource_key_def Build_inj split: resource.splits)

lemma resource_key_in [simp]: "resource_key b r \<in> resource_key b ` set rs \<longleftrightarrow> r \<in> set rs"
  by (auto simp: image_iff)

lemma marks_distinct [simp]:
  "lock_mark x \<noteq> sold_mark y" "sold_mark y \<noteq> lock_mark x"
  "lock_mark x = lock_mark y \<longleftrightarrow> x = y" "sold_mark x = sold_mark y \<longleftrightarrow> x = y"
  by (simp_all add: lock_mark_def sold_mark_def)

lemma abs_ledger_simps [simp]:
  "lg_rolled (abs_ledger b m) = {n. m (order_key b ''order-rollback'' n) \<noteq> None}"
  "lg_released (abs_ledger b m) = {n. m (order_key b ''order-release'' n) \<noteq> None}"
  "lg_owner (abs_ledger b m) r = str_val (m (resource_key b r))"
  by (simp_all add: abs_ledger_def)

lemma remaining_abs: "Some (remaining (abs_ledger b m) (p, c)) = int_val (m (inventory_key b p c))"
  if "keys_ok b m vs"
proof (cases "m (inventory_key b p c)")
  case None
  then show ?thesis by (simp add: remaining_def abs_ledger_def)
next
  case (Some v)
  from that have "int_val (m (inventory_key b p c)) \<noteq> None" by (simp add: keys_ok_def)
  with Some show ?thesis by (auto simp: remaining_def abs_ledger_def)
qed

lemma the_hash_abs: "the_hash (lg_lock (abs_ledger b m) n) = hash_val (m (order_key b ''order-lock'' n))"
  by (auto simp: the_hash_def abs_ledger_def split: option.splits)

context redis_server
begin

lemma get_number_inventory:
  assumes "keys_ok b (vw s) vs"
  shows "get_number R (inventory_key b p c) s = Some (remaining (abs_ledger b (vw s)) (p, c))"
proof -
  have nh: "\<not> is_hash (vw s (inventory_key b p c))" using assms by (simp add: keys_ok_def)
  show ?thesis
    using remaining_abs [OF assms, of p c] nh
    by (auto simp: get_number_def GET int_val_def str_val_def is_hash_def split: option.splits rvalue.splits)
qed

lemma has_lock_abs:
  assumes "keys_ok b (vw s) vs"
  shows "rHGET R (order_key b ''order-lock'' n) ''order_number'' s = Some (show_int n) \<longleftrightarrow> has_lock (abs_ledger b (vw s)) n"
proof -
  have "\<not> is_str (vw s (order_key b ''order-lock'' n))" using assms by (simp add: keys_ok_def)
  then show ?thesis
    by (auto simp: HGET has_lock_def abs_ledger_def hash_val_def split: option.splits)
qed

lemma GET_owner:
  assumes "keys_ok b (vw s) vs"
  shows "rGET R (resource_key b r) s = lg_owner (abs_ledger b (vw s)) r"
  using assms by (simp add: keys_ok_def GET)

lemma EXISTS_owner:
  assumes "keys_ok b (vw s) vs"
  shows "rEXISTS R (resource_key b r) s \<longleftrightarrow> lg_owner (abs_ledger b (vw s)) r \<noteq> None"
proof -
  have "\<not> is_hash (vw s (resource_key b r))" using assms by (simp add: keys_ok_def)
  then show ?thesis
    by (auto simp: EXISTS str_val_def is_hash_def split: option.splits rvalue.splits)
qed

lemma INCRBY_inventory:
  assumes "keys_ok b (vw s) vs"
  shows "case rINCRBY R (inventory_key b p c) d s of
      None \<Rightarrow> \<not> in64 (remaining (abs_ledger b (vw s)) (p, c) + d)
    | Some t \<Rightarrow> in64 (remaining (abs_ledger b (vw s)) (p, c) + d) \<and> vol t = vol s
        \<and> vw t = (vw s)(inventory_key b p c := Some (RString (show_int (remaining (abs_ledger b (vw s)) (p, c) + d))))"
proof -
  from remaining_abs [OF assms, of p c] have i:
    "int_val (vw s (inventory_key b p c)) = Some (remaining (abs_ledger b (vw s)) (p, c))" by simp
  show ?thesis
    using INCRBY_ok [OF i, of d] INCRBY_err [of s "inventory_key b p c" d] i
    by (cases "in64 (remaining (abs_ledger b (vw s)) (p, c) + d)") auto
qed

end

text \<open>How updates of the keyspace show in the ledger.\<close>

lemma abs_upd_inventory:
  "in64 v \<Longrightarrow> abs_ledger b (m(inventory_key b p c := Some (RString (show_int v)))) =
     (abs_ledger b m)\<lparr>lg_remain := (lg_remain (abs_ledger b m))((p, c) := Some v)\<rparr>"
  by (auto simp: abs_ledger_def fun_eq_iff parse_show_int)

lemma abs_upd_lock:
  "abs_ledger b (m(order_key b ''order-lock'' n := Some (RHash h))) =
     (abs_ledger b m)\<lparr>lg_lock := (lg_lock (abs_ledger b m))(n := Some h)\<rparr>"
  "abs_ledger b (m(order_key b ''order-lock'' n := None)) =
     (abs_ledger b m)\<lparr>lg_lock := (lg_lock (abs_ledger b m))(n := None)\<rparr>"
  by (auto simp: abs_ledger_def fun_eq_iff)

lemma abs_upd_markers:
  "abs_ledger b (m(order_key b ''order-rollback'' n := None)) = (abs_ledger b m)\<lparr>lg_rolled := lg_rolled (abs_ledger b m) - {n}\<rparr>"
  "abs_ledger b (m(order_key b ''order-release'' n := None)) = (abs_ledger b m)\<lparr>lg_released := lg_released (abs_ledger b m) - {n}\<rparr>"
  "abs_ledger b (m(order_key b ''order-rollback'' n := Some v)) = (abs_ledger b m)\<lparr>lg_rolled := insert n (lg_rolled (abs_ledger b m))\<rparr>"
  "abs_ledger b (m(order_key b ''order-release'' n := Some v)) = (abs_ledger b m)\<lparr>lg_released := insert n (lg_released (abs_ledger b m))\<rparr>"
  by (auto simp: abs_ledger_def fun_eq_iff)

lemma abs_upd_owners:
  "abs_ledger b (\<lambda>k. if k \<in> resource_key b ` set rs then Some (RString v) else m k) =
     (abs_ledger b m)\<lparr>lg_owner := (\<lambda>r. if r \<in> set rs then Some v else lg_owner (abs_ledger b m) r)\<rparr>"
  by (auto simp: abs_ledger_def fun_eq_iff image_iff)

lemma abs_del_owners:
  assumes "\<And>r. \<not> is_hash (m (resource_key b r))"
  shows "abs_ledger b (\<lambda>k. if k \<in> resource_key b ` set rs \<and> m k = Some (RString v) then None else m k) =
     (abs_ledger b m)\<lparr>lg_owner := (\<lambda>r. if r \<in> set rs \<and> lg_owner (abs_ledger b m) r = Some v then None else lg_owner (abs_ledger b m) r)\<rparr>"
proof -
  have "str_val (m (resource_key b r)) = Some v \<longleftrightarrow> m (resource_key b r) = Some (RString v)" for r
    by (auto simp: str_val_def split: option.splits rvalue.splits)
  then show ?thesis
    by (auto simp: abs_ledger_def fun_eq_iff image_iff)
qed

lemmas abs_upds = abs_upd_inventory abs_upd_lock abs_upd_markers abs_upd_owners

lemma keys_ok_inventory:
  "keys_ok b m vs \<Longrightarrow> in64 v \<Longrightarrow> keys_ok b (m(inventory_key b p c := Some (RString (show_int v)))) vs"
  by (auto simp: keys_ok_def parse_show_int)

lemma keys_ok_orders:
  "keys_ok b m vs \<Longrightarrow> keys_ok b (m(order_key b ''order-lock'' n := Some (RHash h))) vs"
  "keys_ok b m vs \<Longrightarrow> keys_ok b (m(order_key b ''order-lock'' n := None)) vs"
  "keys_ok b m vs \<Longrightarrow> k \<in> {''order-rollback'', ''order-release''} \<Longrightarrow> keys_ok b (m(order_key b k n := v)) vs"
  "keys_ok b m vs \<Longrightarrow> plain_part k \<Longrightarrow> keys_ok b m (insert (order_key b k n) vs)"
  "keys_ok b m vs \<Longrightarrow> keys_ok b m (vs - ks)"
  by (auto simp: keys_ok_def)

lemma keys_ok_lock_owners:
  "keys_ok b m vs \<Longrightarrow> \<forall>r \<in> set rs. m (resource_key b r) = None \<Longrightarrow>
   keys_ok b (\<lambda>k. if k \<in> resource_key b ` set rs then Some (RString (locked_by n)) else m k) (vs \<union> resource_key b ` set rs)"
  by (auto simp: keys_ok_def)

lemma keys_ok_sell_owners:
  "keys_ok b m vs \<Longrightarrow>
   keys_ok b (\<lambda>k. if k \<in> resource_key b ` set rs then Some (RString (sold_to n)) else m k) (vs - resource_key b ` set rs)"
  by (auto simp: keys_ok_def)

lemma keys_ok_free_owners:
  assumes "keys_ok b m vs"
  shows "keys_ok b (\<lambda>k. if k \<in> resource_key b ` set rs \<and> m k = Some (RString v) then None else m k) (vs - ks)"
proof -
  have "inventory_key b p c \<notin> resource_key b ` set rs" "order_key b ''order-lock'' n \<notin> resource_key b ` set rs" for p c n
    by (auto simp: image_iff)
  with assms show ?thesis by (auto simp: keys_ok_def)
qed

lemma set_resourceKeys: "set (resourceKeys b p seats tus) = resource_key b ` set (order_resources p seats tus)"
  by (simp add: resourceKeys_def)

section \<open>Each script refines its ledger operation\<close>

definition lock_KEYS :: "string \<Rightarrow> int64 \<Rightarrow> int64 \<Rightarrow> int64 \<Rightarrow> int64 list \<Rightarrow> int64 list \<Rightarrow> string list" where
  "lock_KEYS b p c n seats tus =
     [inventory_key b p c, order_key b ''order-lock'' n, order_key b ''order-rollback'' n, order_key b ''order-release'' n]
     @ resourceKeys b p seats tus"

definition lock_ARGV :: "int64 \<Rightarrow> int64 \<Rightarrow> int64 \<Rightarrow> int64 \<Rightarrow> string \<Rightarrow> int64 \<Rightarrow> int64 \<Rightarrow> string list" where
  "lock_ARGV count n p c seats ident ttl =
     [show_int count, show_int n, show_int p, show_int c, seats, show_int ident, show_int ttl]"

context redis_server
begin

lemma list_ex_owner:
  assumes "keys_ok b (vw s) vs"
  shows "list_ex (\<lambda>k. rEXISTS R k s) (resourceKeys b p seats tus) \<longleftrightarrow>
      (\<exists>r \<in> set (order_resources p seats tus). lg_owner (abs_ledger b (vw s)) r \<noteq> None)"
    and "list_ex (\<lambda>k. rGET R k s \<notin> A) (resourceKeys b p seats tus) \<longleftrightarrow>
      (\<exists>r \<in> set (order_resources p seats tus). lg_owner (abs_ledger b (vw s)) r \<notin> A)"
  using EXISTS_owner [OF assms] GET_owner [OF assms]
  by (auto simp: list_ex_iff set_resourceKeys)

lemma lock_refines:
  assumes ok: "keys_ok b (vw s) (vol s)" and num: "in64 count" "in64 ttl" "0 < ttl"
    and run: "lockInventoryScript R (lock_KEYS b p c n seats tus) (lock_ARGV count n p c ids ident ttl) s = (rep, t)"
  shows "ledger_lock n p c count ids ident (order_resources p seats tus) (abs_ledger b (vw s)) = (rep, abs_ledger b (vw t))
    \<and> keys_ok b (vw t) (vol t)"
proof -
  let ?l = "abs_ledger b (vw s)" and ?rs = "order_resources p seats tus"
  let ?inv = "remaining ?l (p, c)"
  note defs = lockInventoryScript_def lock_KEYS_def lock_ARGV_def get_number_inventory [OF ok] parse_show_int num
    has_lock_abs [OF ok] list_ex_owner [OF ok] ledger_lock_def
  consider (early) "has_lock ?l n \<or> ?inv < count \<or> (\<exists>r \<in> set ?rs. lg_owner ?l r \<noteq> None)"
    | (go) "\<not> has_lock ?l n" "\<not> ?inv < count" "\<forall>r \<in> set ?rs. lg_owner ?l r = None" by blast
  then show ?thesis
  proof cases
    case early
    with run ok show ?thesis by (auto simp: defs split: if_splits)
  next
    case go
    show ?thesis
    proof (cases "rINCRBY R (inventory_key b p c) (- count) s")
      case None
      with INCRBY_inventory [OF ok, of p c "- count"] go run ok show ?thesis by (auto simp: defs)
    next
      case (Some s1)
      with INCRBY_inventory [OF ok, of p c "- count"] have
        i: "in64 (?inv - count)" and s1: "vol s1 = vol s"
          "vw s1 = (vw s)(inventory_key b p c := Some (RString (show_int (?inv - count))))" by auto
      have ns: "\<not> is_str (vw s (order_key b ''order-lock'' n))" using ok by (simp add: keys_ok_def)
      have free: "\<forall>r \<in> set ?rs. vw s (resource_key b r) = None"
        using go(3) ok by (simp add: keys_ok_def str_val_None)
      let ?h = "hash_val (vw s (order_key b ''order-lock'' n)) ++ map_of (rev (lock_fields n p c ids ident))"
      let ?m = "(vw s)(inventory_key b p c := Some (RString (show_int (?inv - count))),
        order_key b ''order-lock'' n := Some (RHash ?h), order_key b ''order-rollback'' n := None, order_key b ''order-release'' n := None)"
      have t: "vw t = (\<lambda>k. if k \<in> resource_key b ` set ?rs then Some (RString (locked_by n)) else ?m k)"
        "vol t = insert (order_key b ''order-lock'' n) (vol s) - {order_key b ''order-rollback'' n} - {order_key b ''order-release'' n}
          \<union> resource_key b ` set ?rs" "rep = Some (?inv - count)"
        using run go Some ns num(3)
        by (auto simp: defs Let_def fold_SETEX DEL EXPIRE HSET s1 set_resourceKeys lock_fields_def)
      have "keys_ok b ?m (insert (order_key b ''order-lock'' n) (vol s) - {order_key b ''order-rollback'' n} - {order_key b ''order-release'' n})"
        using ok i by (intro keys_ok_orders keys_ok_inventory) auto
      moreover have "\<forall>r \<in> set ?rs. ?m (resource_key b r) = None" using free by simp
      ultimately have "keys_ok b (vw t) (vol t)"
        unfolding t(1,2) by (rule keys_ok_lock_owners)
      moreover have "abs_ledger b (vw t) = snd (ledger_lock n p c count ids ident ?rs ?l)"
        using go i unfolding t(1) abs_upd_owners abs_upd_markers abs_upd_lock(1) abs_upd_inventory [OF i] the_hash_abs [symmetric]
        by (simp add: ledger_lock_def cong: if_cong)
      ultimately show ?thesis using go i t(3) by (auto simp: ledger_lock_def)
    qed
  qed
qed

lemma give_back_refines:
  assumes ok: "keys_ok b (vw s) (vol s)"
    and run: "give_back R (giveback_keys b kind p c n seats tus) count (show_int n) s = (rep, t)"
  shows "ledger_give_back n p c count (order_resources p seats tus) (abs_ledger b (vw s)) = (rep, abs_ledger b (vw t))
    \<and> keys_ok b (vw t) (vol t)"
proof -
  let ?l = "abs_ledger b (vw s)" and ?rs = "order_resources p seats tus"
  let ?inv = "remaining ?l (p, c)"
  show ?thesis
  proof (cases "rINCRBY R (inventory_key b p c) count s")
    case None
    with INCRBY_inventory [OF ok, of p c count] run ok show ?thesis
      by (auto simp: give_back_def giveback_keys_def ledger_give_back_def)
  next
    case (Some s1)
    with INCRBY_inventory [OF ok, of p c count] have i: "in64 (?inv + count)" and
      s1: "vol s1 = vol s" "vw s1 = (vw s)(inventory_key b p c := Some (RString (show_int (?inv + count))))" by auto
    let ?s2 = "rDEL R (order_key b ''order-lock'' n) s1"
    let ?m = "(vw s)(inventory_key b p c := Some (RString (show_int (?inv + count))), order_key b ''order-lock'' n := None)"
    have m: "vw ?s2 = ?m" "vol ?s2 = vol s - {order_key b ''order-lock'' n}" by (simp_all add: DEL s1)
    have ok2: "keys_ok b ?m (vol s - {order_key b ''order-lock'' n})"
      using ok i by (intro keys_ok_orders keys_ok_inventory)
    have nh: "\<And>k. k \<in> set (resourceKeys b p seats tus) \<Longrightarrow> \<not> is_hash (vw ?s2 k)"
      using ok2 unfolding m by (auto simp: set_resourceKeys keys_ok_def)
    have t1: "rep = Some 1" "t = fold (\<lambda>k s. if rGET R k s = Some (locked_by n) then rDEL R k s else s) (resourceKeys b p seats tus) ?s2"
      using run Some by (simp_all add: give_back_def giveback_keys_def)
    have t: "vw t = (\<lambda>k. if k \<in> resource_key b ` set ?rs \<and> ?m k = Some (RString (locked_by n)) then None else ?m k)"
      "vol t = (vol s - {order_key b ''order-lock'' n}) - {k \<in> set (resourceKeys b p seats tus). ?m k = Some (RString (locked_by n))}"
      unfolding t1(2) using fold_DEL_matching [where ks = "resourceKeys b p seats tus" and s = ?s2 and v = "locked_by n", OF nh]
      by (simp_all only: m set_resourceKeys)
    have "keys_ok b (vw t) (vol t)"
      unfolding t using ok2 by (rule keys_ok_free_owners)
    moreover have "abs_ledger b (vw t) = snd (ledger_give_back n p c count ?rs ?l)"
    proof -
      have "\<And>r. \<not> is_hash (?m (resource_key b r))" using ok2 by (simp add: keys_ok_def)
      then have "abs_ledger b (vw t) = (abs_ledger b ?m)\<lparr>lg_owner := (\<lambda>r. if r \<in> set ?rs \<and> lg_owner (abs_ledger b ?m) r = Some (locked_by n)
          then None else lg_owner (abs_ledger b ?m) r)\<rparr>"
        unfolding t(1) by (rule abs_del_owners)
      also have "abs_ledger b ?m = ?l\<lparr>lg_remain := (lg_remain ?l)((p, c) := Some (?inv + count)), lg_lock := (lg_lock ?l)(n := None)\<rparr>"
        unfolding abs_upd_lock(2) abs_upd_inventory [OF i] by simp
      finally show ?thesis using i by (simp add: ledger_give_back_def cong: if_cong)
    qed
    ultimately show ?thesis using i t1(1) by (auto simp: ledger_give_back_def)
  qed
qed

lemma marker_then_give_back:
  assumes ok: "keys_ok b (vw s) (vol s)" and ttl: "0 < ttl" and k: "kind \<in> {''order-rollback'', ''order-release''}"
    and run: "(case rSETNXEX R (order_key b kind n) ''1'' ttl s of
             (False, s1) \<Rightarrow> (Some 0, s1)
           | (True, s1) \<Rightarrow> give_back R (giveback_keys b kind p c n seats tus) count (show_int n) s1) = (rep, t)"
    and mark: "abs_ledger b ((vw s)(order_key b kind n := Some (RString ''1''))) = marked"
  shows "(if vw s (order_key b kind n) \<noteq> None then (Some 0, abs_ledger b (vw s))
       else ledger_give_back n p c count (order_resources p seats tus) marked) = (rep, abs_ledger b (vw t))
    \<and> keys_ok b (vw t) (vol t)"
proof (cases "vw s (order_key b kind n)")
  case (Some v)
  with SETNXEX [OF ttl, of "order_key b kind n" "''1''" s] run ok show ?thesis
    by (cases "rSETNXEX R (order_key b kind n) ''1'' ttl s") auto
next
  case None
  then obtain s1 where s1: "rSETNXEX R (order_key b kind n) ''1'' ttl s = (True, s1)"
    "vw s1 = (vw s)(order_key b kind n := Some (RString ''1''))" "vol s1 = insert (order_key b kind n) (vol s)"
    using SETNXEX [OF ttl, of "order_key b kind n" "''1''" s]
    by (cases "rSETNXEX R (order_key b kind n) ''1'' ttl s") auto
  have "plain_part kind" using k by auto
  then have "keys_ok b (vw s1) (vol s1)"
    unfolding s1 using ok k by (intro keys_ok_orders(3,4)) auto
  from give_back_refines [OF this, where kind = kind and p = p and c = c and n = n and seats = seats and tus = tus and count = count and rep = rep and t = t] run s1 mark None show ?thesis by simp
qed

lemma rollback_refines:
  assumes ok: "keys_ok b (vw s) (vol s)" and num: "in64 count" "in64 ttl" "0 < ttl"
    and run: "rollbackCreateOrderScript R (giveback_keys b ''order-rollback'' p c n seats tus) [show_int count, show_int n, show_int ttl] s = (rep, t)"
  shows "ledger_rollback n p c count (order_resources p seats tus) (abs_ledger b (vw s)) = (rep, abs_ledger b (vw t))
    \<and> keys_ok b (vw t) (vol t)"
proof -
  have a: "[show_int count, show_int n, show_int ttl] ! 1 = show_int n"
    "giveback_keys b ''order-rollback'' p c n seats tus ! 2 = order_key b ''order-rollback'' n"
    by (simp_all add: giveback_keys_def)
  from run have "(case rSETNXEX R (order_key b ''order-rollback'' n) ''1'' ttl s of
             (False, s1) \<Rightarrow> (Some 0, s1)
           | (True, s1) \<Rightarrow> give_back R (giveback_keys b ''order-rollback'' p c n seats tus) count (show_int n) s1) = (rep, t)"
    unfolding rollbackCreateOrderScript_def a by (simp add: parse_show_int num)
  from marker_then_give_back [OF ok num(3) _ this abs_upd_markers(3)] show ?thesis
    by (simp add: ledger_rollback_def)
qed

lemma release_refines:
  assumes ok: "keys_ok b (vw s) (vol s)" and num: "in64 count" "in64 ttl" "0 < ttl"
    and run: "releaseSeatsScript R (giveback_keys b ''order-release'' p c n seats tus) [show_int count, show_int n, show_int ttl] s = (rep, t)"
  shows "ledger_release n p c count (order_resources p seats tus) (abs_ledger b (vw s)) = (rep, abs_ledger b (vw t))
    \<and> keys_ok b (vw t) (vol t)"
proof (cases "\<exists>r \<in> set (order_resources p seats tus). lg_owner (abs_ledger b (vw s)) r \<notin> {None, Some (locked_by n)}")
  case True
  with run num ok list_ex_owner(2) [OF ok, of "{None, Some (locked_by n)}" p seats tus] show ?thesis
    by (simp add: releaseSeatsScript_def giveback_keys_def parse_show_int ledger_release_def del: abs_ledger_simps(3))
next
  case False
  have a: "[show_int count, show_int n, show_int ttl] ! 1 = show_int n"
    "giveback_keys b ''order-release'' p c n seats tus ! 2 = order_key b ''order-release'' n"
    "drop 3 (giveback_keys b ''order-release'' p c n seats tus) = resourceKeys b p seats tus"
    by (simp_all add: giveback_keys_def)
  from run have "(case rSETNXEX R (order_key b ''order-release'' n) ''1'' ttl s of
             (False, s1) \<Rightarrow> (Some 0, s1)
           | (True, s1) \<Rightarrow> give_back R (giveback_keys b ''order-release'' p c n seats tus) count (show_int n) s1) = (rep, t)"
    unfolding releaseSeatsScript_def a list_ex_owner(2) [OF ok] if_not_P [OF False]
    by (simp add: parse_show_int num)
  from marker_then_give_back [OF ok num(3) _ this abs_upd_markers(4)] False show ?thesis
    by (simp add: ledger_release_def del: abs_ledger_simps(3))
qed

lemma confirm_refines:
  assumes ok: "keys_ok b (vw s) (vol s)" and num: "in64 ttl" "0 < ttl"
    and run: "confirmSeatsSoldScript R (order_key b ''order-lock'' n # resourceKeys b p seats tus) [show_int n, show_int ttl] s = (rep, t)"
  shows "ledger_confirm n (order_resources p seats tus) (abs_ledger b (vw s)) = (rep, abs_ledger b (vw t))
    \<and> keys_ok b (vw t) (vol t)"
proof -
  let ?l = "abs_ledger b (vw s)" and ?rs = "order_resources p seats tus"
  let ?A = "{None, Some (locked_by n), Some (sold_to n)}"
  show ?thesis
  proof (cases "\<exists>r \<in> set ?rs. lg_owner ?l r \<notin> ?A")
    case True
    with run num ok list_ex_owner(2) [OF ok, of ?A p seats tus] show ?thesis
      by (simp add: confirmSeatsSoldScript_def parse_show_int ledger_confirm_def del: abs_ledger_simps(3))
  next
    case False
    have ns: "\<not> is_str (vw s (order_key b ''order-lock'' n))" using ok by (simp add: keys_ok_def)
    let ?h = "(hash_val (vw s (order_key b ''order-lock'' n)))(''status'' \<mapsto> ''sold'')"
    let ?m = "(vw s)(order_key b ''order-lock'' n := Some (RHash ?h))"
    have d: "drop 1 (order_key b ''order-lock'' n # resourceKeys b p seats tus) = resourceKeys b p seats tus"
      "[show_int n, show_int ttl] ! 0 = show_int n" by simp_all
    let ?s1 = "rEXPIRE R (order_key b ''order-lock'' n) ttl (rHSET R (order_key b ''order-lock'' n) [(''status'', ''sold'')] s)"
    from run have t1: "rep = Some 1" "t = fold (\<lambda>k. rSET R k (sold_to n)) (resourceKeys b p seats tus) ?s1"
      unfolding confirmSeatsSoldScript_def d list_ex_owner(2) [OF ok] if_not_P [OF False]
      by (simp_all add: parse_show_int num)
    have "vw ?s1 = ?m" "vol ?s1 = insert (order_key b ''order-lock'' n) (vol s)"
      using num ns by (simp_all add: EXPIRE HSET map_add_def fun_upd_def) (auto simp: fun_eq_iff)
    then have t: "vw t = (\<lambda>k. if k \<in> resource_key b ` set ?rs then Some (RString (sold_to n)) else ?m k)"
      "vol t = insert (order_key b ''order-lock'' n) (vol s) - resource_key b ` set ?rs"
      unfolding t1(2) by (simp_all only: fold_SET set_resourceKeys)
    have "keys_ok b (vw t) (vol t)"
      unfolding t using ok by (intro keys_ok_sell_owners keys_ok_orders) auto
    moreover have "abs_ledger b (vw t) = ?l\<lparr>lg_lock := (lg_lock ?l)(n := Some ((the_hash (lg_lock ?l n))(''status'' \<mapsto> ''sold''))),
        lg_owner := (\<lambda>r. if r \<in> set ?rs then Some (sold_to n) else lg_owner ?l r)\<rparr>"
      unfolding t(1) abs_upd_owners abs_upd_lock(1) the_hash_abs by (simp cong: if_cong)
    ultimately show ?thesis
      using t1(1) unfolding ledger_confirm_def if_not_P [OF False] by simp
  qed
qed

end

end
