(* ===== verification/Seat_Ledger.thy ===== *)
theory Seat_Ledger
  imports Redis_Inventory
begin

text \<open>
  What the seat scripts guarantee over whole executions. The steps (\<open>seat_step\<close>) are the calls of the
  Go adapters, in any order, for any orders, interleaved with keys that expire; a call that fails may
  have reached the server or not. Every step is a step of the ledger, where the properties are proved:
  a sold seat stays with its order, a locked seat passes to nobody else, and the remaining count of a
  ticket category never becomes negative.
\<close>

section \<open>Steps of the ledger\<close>

inductive ledger_step :: "ledger \<Rightarrow> ledger \<Rightarrow> bool" where
  stutter: "ledger_step l l"
| lock: "0 < count \<Longrightarrow> ledger_step l (snd (ledger_lock n p c count ids ident rs l))"
| rollback: "0 \<le> count \<Longrightarrow> ledger_step l (snd (ledger_rollback n p c count rs l))"
| confirm: "ledger_step l (snd (ledger_confirm n rs l))"
| release: "0 \<le> count \<Longrightarrow> ledger_step l (snd (ledger_release n p c count rs l))"
| expire_owner: "lg_owner l r = Some v \<Longrightarrow> \<forall>n. v \<noteq> sold_to n \<Longrightarrow> ledger_step l (l\<lparr>lg_owner := (lg_owner l)(r := None)\<rparr>)"
| expire_lock: "ledger_step l (l\<lparr>lg_lock := (lg_lock l)(n := None)\<rparr>)"
| expire_rolled: "ledger_step l (l\<lparr>lg_rolled := lg_rolled l - {n}\<rparr>)"
| expire_released: "ledger_step l (l\<lparr>lg_released := lg_released l - {n}\<rparr>)"
| expire_remain: "ledger_step l (l\<lparr>lg_remain := (lg_remain l)(pc := None)\<rparr>)"

definition remain_nonneg :: "ledger \<Rightarrow> bool" where
  "remain_nonneg l \<longleftrightarrow> (\<forall>pc. 0 \<le> remaining l pc)"

text \<open>What one step may do to the owner of a seat or ticket user.\<close>

definition owner_step :: "string option \<Rightarrow> string option \<Rightarrow> bool" where
  "owner_step v w \<longleftrightarrow> v = w \<or> w = None \<and> (\<forall>n. v \<noteq> Some (sold_to n))
     \<or> (\<exists>n. v = None \<and> w = Some (locked_by n)) \<or> (\<exists>n. v \<in> {None, Some (locked_by n)} \<and> w = Some (sold_to n))"

lemma give_back_remaining:
  "remaining (snd (ledger_give_back n p c count rs l)) pc =
     (if pc = (p, c) \<and> in64 (remaining l (p, c) + count) then remaining l (p, c) + count else remaining l pc)"
  by (simp add: ledger_give_back_def remaining_def)

lemma give_back_owner:
  "lg_owner (snd (ledger_give_back n p c count rs l)) r =
     (if in64 (remaining l (p, c) + count) \<and> r \<in> set rs \<and> lg_owner l r = Some (locked_by n) then None else lg_owner l r)"
  by (simp add: ledger_give_back_def)

lemma remaining_marks [simp]:
  "remaining (l\<lparr>lg_rolled := A\<rparr>) = remaining l" "remaining (l\<lparr>lg_released := A\<rparr>) = remaining l"
  by (simp_all add: fun_eq_iff remaining_def)

lemma ledger_step_remain: "ledger_step l l' \<Longrightarrow> remain_nonneg l \<Longrightarrow> remain_nonneg l'"
proof (induction rule: ledger_step.induct)
  case (lock count l n p c ids ident rs)
  then show ?case
    by (auto simp: remain_nonneg_def ledger_lock_def) (auto simp: remaining_def)
next
  case (rollback count l n p c rs)
  then show ?case
    by (auto simp: remain_nonneg_def ledger_rollback_def give_back_remaining)
next
  case (release count l n p c rs)
  then show ?case
    by (auto simp: remain_nonneg_def ledger_release_def give_back_remaining)
next
  case (expire_remain l pc)
  then show ?case by (auto simp: remain_nonneg_def remaining_def)
qed (auto simp: remain_nonneg_def remaining_def ledger_confirm_def)

lemma ledger_step_owner: "ledger_step l l' \<Longrightarrow> owner_step (lg_owner l r) (lg_owner l' r)"
proof (induction rule: ledger_step.induct)
  case (lock count l n p c ids ident rs)
  then show ?case by (auto simp: owner_step_def ledger_lock_def)
next
  case (rollback count l n p c rs)
  then show ?case by (auto simp: owner_step_def ledger_rollback_def give_back_owner)
next
  case (confirm l n rs)
  then show ?case by (auto simp: owner_step_def ledger_confirm_def)
next
  case (release count l n p c rs)
  then show ?case by (auto simp: owner_step_def ledger_release_def give_back_owner)
qed (auto simp: owner_step_def)

section \<open>Steps of the server\<close>

definition command_in64 :: "CreateOrderCommand \<Rightarrow> bool" where
  "command_in64 cmd \<longleftrightarrow> in64 (ticket_count (cmd_SeatIDs cmd) (cmd_TicketUserIDs cmd))"

inductive seat_step ::
  "'r redis \<Rightarrow> 'r executor \<Rightarrow> string \<Rightarrow> ('r \<Rightarrow> string \<rightharpoonup> rvalue) \<Rightarrow> ('r \<Rightarrow> string set) \<Rightarrow> 'r \<Rightarrow> 'r \<Rightarrow> bool"
  for R exec b vw vol where
  lock_seats: "0 < ttl \<Longrightarrow> in64 ttl \<Longrightarrow> command_in64 cmd \<Longrightarrow>
    seat_step R exec b vw vol s (snd (Locker_LockSeats R exec b ttl cmd n ident s))"
| rollback_seats: "0 < ttl \<Longrightarrow> in64 ttl \<Longrightarrow> command_in64 cmd \<Longrightarrow>
    seat_step R exec b vw vol s (snd (Locker_RollbackSeats R exec b ttl cmd n ident s))"
| rollback_create: "0 \<le> count \<Longrightarrow> in64 count \<Longrightarrow>
    seat_step R exec b vw vol s (snd (Writer_RollbackCreateOrder R exec b p c n seats tus count s))"
| confirm_sold: "seat_step R exec b vw vol s (snd (Writer_ConfirmSeatsSold R exec b n p seats tus s))"
| release_seats: "0 \<le> count \<Longrightarrow> in64 count \<Longrightarrow>
    seat_step R exec b vw vol s (snd (Writer_ReleaseSeats R exec b n p c seats tus count s))"
| expire: "k \<in> vol s \<Longrightarrow> vw t = (vw s)(k := None) \<Longrightarrow> vol t = vol s - {k} \<Longrightarrow> seat_step R exec b vw vol s t"

text \<open>The state an adapter leaves is the state its script call leaves.\<close>

lemma adapter_states:
  "snd (Locker_RollbackSeats R exec b ttl cmd n ident s) =
     snd (exec (rollbackCreateOrderScript R) (giveback_keys b ''order-rollback'' (cmd_ProgramID cmd) (cmd_TicketCategoryID cmd) n (cmd_SeatIDs cmd) (cmd_TicketUserIDs cmd))
       [show_int (ticket_count (cmd_SeatIDs cmd) (cmd_TicketUserIDs cmd)), show_int n, show_int ttl] s)"
  "snd (Writer_RollbackCreateOrder R exec b p c n seats tus count s) =
     snd (exec (rollbackCreateOrderScript R) (giveback_keys b ''order-rollback'' p c n seats tus) [show_int count, show_int n, show_int markerTTL] s)"
  "snd (Writer_ConfirmSeatsSold R exec b n p seats tus s) =
     snd (exec (confirmSeatsSoldScript R) (order_key b ''order-lock'' n # resourceKeys b p seats tus) [show_int n, show_int markerTTL] s)"
  "snd (Writer_ReleaseSeats R exec b n p c seats tus count s) =
     snd (exec (releaseSeatsScript R) (giveback_keys b ''order-release'' p c n seats tus) [show_int count, show_int n, show_int markerTTL] s)"
  by (simp_all add: Locker_RollbackSeats_def Writer_RollbackCreateOrder_def Writer_ConfirmSeatsSold_def
      Writer_ReleaseSeats_def attemptG_def go_simps Let_def split: prod.splits sum.splits if_splits)

lemma lock_state:
  assumes "0 < ticket_count (cmd_SeatIDs cmd) (cmd_TicketUserIDs cmd)"
  shows "snd (Locker_LockSeats R exec b ttl cmd n ident s) =
     snd (exec (lockInventoryScript R) (lock_KEYS b (cmd_ProgramID cmd) (cmd_TicketCategoryID cmd) n (cmd_SeatIDs cmd) (cmd_TicketUserIDs cmd))
       (lock_ARGV (ticket_count (cmd_SeatIDs cmd) (cmd_TicketUserIDs cmd)) n (cmd_ProgramID cmd) (cmd_TicketCategoryID cmd)
         (joinInt64 (cmd_SeatIDs cmd)) ident ttl) s)"
  using assms
  by (simp add: Locker_LockSeats_def attemptG_def go_simps Let_def lock_KEYS_def lock_ARGV_def split: prod.splits sum.splits)

lemma markerTTL_ok [simp]: "0 < markerTTL" "in64 markerTTL"
  by (simp_all add: markerTTL_def in64_def)

locale seat_store = redis_server R vw vol
  for R :: "'r redis" and vw :: "'r \<Rightarrow> string \<rightharpoonup> rvalue" and vol :: "'r \<Rightarrow> string set" +
  fixes exec :: "'r executor" and b :: string
  assumes runs: "runs_scripts exec"
begin

lemma exec_case: "case exec sc K A s of (Inr r, t) \<Rightarrow> sc K A s = (Some r, t) | (Inl e, t) \<Rightarrow> t = s \<or> t = snd (sc K A s)"
  using runs unfolding runs_scripts_def
  by - (drule spec [where x = sc], drule spec [where x = K], drule spec [where x = A], drule spec [where x = s])

lemma exec_state: "snd (exec sc K A s) = s \<or> snd (exec sc K A s) = snd (sc K A s)"
  using exec_case [where sc = sc and K = K and A = A and s = s] by (auto split: prod.splits sum.splits)

lemma exec_reply: "exec sc K A s = (Inr r, t) \<Longrightarrow> sc K A s = (Some r, t)"
  using exec_case [where sc = sc and K = K and A = A and s = s] by simp

definition simulated :: "'r \<Rightarrow> 'r \<Rightarrow> bool" where
  "simulated s t \<longleftrightarrow> keys_ok b (vw t) (vol t) \<and> ledger_step (abs_ledger b (vw s)) (abs_ledger b (vw t))"

lemma exec_simulated:
  assumes "keys_ok b (vw s) (vol s)"
    and "\<And>rep t. sc K A s = (rep, t) \<Longrightarrow> op (abs_ledger b (vw s)) = (rep, abs_ledger b (vw t)) \<and> keys_ok b (vw t) (vol t)"
    and "ledger_step (abs_ledger b (vw s)) (snd (op (abs_ledger b (vw s))))"
  shows "simulated s (snd (exec sc K A s))"
proof -
  obtain rep t where sc: "sc K A s = (rep, t)" by (cases "sc K A s")
  from exec_state [of sc K A s] sc have "snd (exec sc K A s) = s \<or> snd (exec sc K A s) = t" by simp
  then show ?thesis
    using assms(1) assms(2) [OF sc] assms(3) ledger_step.stutter [of "abs_ledger b (vw s)"]
    by (elim disjE) (simp_all add: simulated_def)
qed

lemma expire_simulated:
  assumes ok: "keys_ok b (vw s) (vol s)" and k: "k \<in> vol s" and t: "vw t = (vw s)(k := None)" "vol t = vol s - {k}"
  shows "simulated s t"
proof -
  have ok': "keys_ok b (vw t) (vol t)"
    using ok unfolding t keys_ok_def by (auto simp: is_hash_def is_str_def)
  let ?l = "abs_ledger b (vw s)"
  consider (inventory) p c where "k = inventory_key b p c" | (lock) n where "k = order_key b ''order-lock'' n"
    | (rolled) n where "k = order_key b ''order-rollback'' n" | (released) n where "k = order_key b ''order-release'' n"
    | (owner) r where "k = resource_key b r"
    | (other) "\<forall>p c. k \<noteq> inventory_key b p c" "\<forall>n. k \<noteq> order_key b ''order-lock'' n" "\<forall>n. k \<noteq> order_key b ''order-rollback'' n"
        "\<forall>n. k \<noteq> order_key b ''order-release'' n" "\<forall>r. k \<noteq> resource_key b r" by blast
  then have "ledger_step ?l (abs_ledger b (vw t))"
  proof cases
    case inventory
    then have "abs_ledger b (vw t) = ?l\<lparr>lg_remain := (lg_remain ?l)((p, c) := None)\<rparr>"
      unfolding t by (auto simp: abs_ledger_def fun_eq_iff)
    then show ?thesis by (simp add: ledger_step.expire_remain)
  next
    case lock
    then show ?thesis unfolding t lock abs_upd_lock(2) by (intro ledger_step.expire_lock)
  next
    case rolled
    then show ?thesis unfolding t rolled abs_upd_markers(1) by (intro ledger_step.expire_rolled)
  next
    case released
    then show ?thesis unfolding t released abs_upd_markers(2) by (intro ledger_step.expire_released)
  next
    case owner
    then have eq: "abs_ledger b (vw t) = ?l\<lparr>lg_owner := (lg_owner ?l)(r := None)\<rparr>"
      unfolding t by (auto simp: abs_ledger_def fun_eq_iff)
    show ?thesis
    proof (cases "lg_owner ?l r")
      case None
      then have "abs_ledger b (vw t) = ?l" unfolding eq by (metis fun_upd_triv ledger.surjective ledger.update_convs(5))
      then show ?thesis by (simp add: ledger_step.stutter)
    next
      case (Some v)
      then have "vw s (resource_key b r) = Some (RString v)"
        by (auto simp: str_val_def split: option.splits rvalue.splits)
      with ok k owner have "\<forall>n. v \<noteq> sold_to n" by (auto simp: keys_ok_def)
      with Some show ?thesis unfolding eq by (intro ledger_step.expire_owner)
    qed
  next
    case other
    then have "abs_ledger b (vw t) = ?l"
      unfolding t abs_ledger_def by (auto simp: fun_eq_iff)
    then show ?thesis by (simp add: ledger_step.stutter)
  qed
  with ok' show ?thesis by (simp add: simulated_def)
qed

lemma seat_step_simulated:
  assumes "seat_step R exec b vw vol s t" and "keys_ok b (vw s) (vol s)"
  shows "simulated s t"
  using assms
proof (induction rule: seat_step.induct)
  case (lock_seats ttl cmd s n ident)
  let ?count = "ticket_count (cmd_SeatIDs cmd) (cmd_TicketUserIDs cmd)"
  show ?case
  proof (cases "0 < ?count")
    case True
    show ?thesis
      unfolding lock_state [OF True]
      by (rule exec_simulated [where op = "ledger_lock n (cmd_ProgramID cmd) (cmd_TicketCategoryID cmd) ?count (joinInt64 (cmd_SeatIDs cmd)) ident
          (order_resources (cmd_ProgramID cmd) (cmd_SeatIDs cmd) (cmd_TicketUserIDs cmd))"], rule lock_seats(4), rule lock_refines)
        (use lock_seats True in \<open>auto simp: command_in64_def intro: ledger_step.lock\<close>)
  next
    case False
    then have "snd (Locker_LockSeats R exec b ttl cmd n ident s) = s"
      by (simp add: Locker_LockSeats_def Let_def go_simps)
    with lock_seats show ?thesis by (simp add: simulated_def ledger_step.stutter)
  qed
next
  case (rollback_seats ttl cmd s n ident)
  let ?count = "ticket_count (cmd_SeatIDs cmd) (cmd_TicketUserIDs cmd)"
  have "0 \<le> ?count" by (simp add: ticket_count_def)
  then show ?case
    unfolding adapter_states
    by (intro exec_simulated [where op = "ledger_rollback n (cmd_ProgramID cmd) (cmd_TicketCategoryID cmd) ?count
          (order_resources (cmd_ProgramID cmd) (cmd_SeatIDs cmd) (cmd_TicketUserIDs cmd))"] rollback_refines)
      (use rollback_seats in \<open>auto simp: command_in64_def intro: ledger_step.rollback\<close>)
next
  case (rollback_create count s p c n seats tus)
  then show ?case
    unfolding adapter_states
    by (intro exec_simulated [where op = "ledger_rollback n p c count (order_resources p seats tus)"] rollback_refines)
      (auto intro: ledger_step.rollback)
next
  case (confirm_sold s n p seats tus)
  then show ?case
    unfolding adapter_states
    by (intro exec_simulated [where op = "ledger_confirm n (order_resources p seats tus)"] confirm_refines)
      (auto intro: ledger_step.confirm)
next
  case (release_seats count s n p c seats tus)
  then show ?case
    unfolding adapter_states
    by (intro exec_simulated [where op = "ledger_release n p c count (order_resources p seats tus)"] release_refines)
      (auto intro: ledger_step.release)
next
  case (expire k s t)
  then show ?case by (intro expire_simulated)
qed

end

section \<open>Whole executions\<close>

context seat_store
begin

lemma run_keys_ok:
  assumes "(seat_step R exec b vw vol)\<^sup>*\<^sup>* s t" and "keys_ok b (vw s) (vol s)"
  shows "keys_ok b (vw t) (vol t)"
  using assms by (induction rule: rtranclp_induct) (auto dest: seat_step_simulated simp: simulated_def)

lemma run_remain_nonneg:
  assumes "(seat_step R exec b vw vol)\<^sup>*\<^sup>* s t" and "keys_ok b (vw s) (vol s)" and "remain_nonneg (abs_ledger b (vw s))"
  shows "remain_nonneg (abs_ledger b (vw t))"
  using assms
proof (induction rule: rtranclp_induct)
  case (step t u)
  from seat_step_simulated [OF step.hyps(2) run_keys_ok [OF step.hyps(1) step.prems(1)]] step.IH step.prems
  show ?case by (auto simp: simulated_def intro: ledger_step_remain)
qed

lemma step_owner:
  assumes "(seat_step R exec b vw vol)\<^sup>*\<^sup>* s t" and "keys_ok b (vw s) (vol s)" and "seat_step R exec b vw vol t u"
  shows "owner_step (lg_owner (abs_ledger b (vw t)) r) (lg_owner (abs_ledger b (vw u)) r)"
  using seat_step_simulated [OF assms(3) run_keys_ok [OF assms(1,2)]] ledger_step_owner
  unfolding simulated_def by blast

lemma run_sold:
  assumes "(seat_step R exec b vw vol)\<^sup>*\<^sup>* s t" and "keys_ok b (vw s) (vol s)"
    and "lg_owner (abs_ledger b (vw s)) r = Some (sold_to n)"
  shows "lg_owner (abs_ledger b (vw t)) r = Some (sold_to n)"
  using assms
proof (induction rule: rtranclp_induct)
  case (step t u)
  note os = step_owner [OF step.hyps(1) step.prems(1) step.hyps(2), of r]
  from os step show ?case by (auto simp: owner_step_def simp del: abs_ledger_simps)
qed

lemma run_owner:
  assumes "(seat_step R exec b vw vol)\<^sup>*\<^sup>* s t" and "keys_ok b (vw s) (vol s)"
    and "lg_owner (abs_ledger b (vw s)) r \<in> {Some (locked_by n), Some (sold_to n)}"
  shows "lg_owner (abs_ledger b (vw t)) r \<in> {Some (locked_by n), Some (sold_to n)}
    \<or> lg_owner (abs_ledger b (vw s)) r = Some (locked_by n)
      \<and> (\<exists>u. (seat_step R exec b vw vol)\<^sup>*\<^sup>* s u \<and> (seat_step R exec b vw vol)\<^sup>*\<^sup>* u t \<and> lg_owner (abs_ledger b (vw u)) r = None)"
  using assms
proof (induction rule: rtranclp_induct)
  case (step t u)
  note os = step_owner [OF step.hyps(1) step.prems(1) step.hyps(2), of r]
  note path = rtranclp.rtrancl_into_rtrancl [OF step.hyps]
  from step.IH [OF step.prems] show ?case
  proof (elim disjE conjE exE)
    assume t: "lg_owner (abs_ledger b (vw t)) r \<in> {Some (locked_by n), Some (sold_to n)}"
    show ?thesis
    proof (cases "lg_owner (abs_ledger b (vw u)) r = None")
      case True
      with os t have "lg_owner (abs_ledger b (vw t)) r = Some (locked_by n)"
        by (auto simp: owner_step_def simp del: abs_ledger_simps)
      with run_sold [OF step.hyps(1) step.prems(1), of r n] step.prems(2)
      have "lg_owner (abs_ledger b (vw s)) r = Some (locked_by n)" by (auto simp del: abs_ledger_simps)
      with True path show ?thesis by blast
    next
      case False
      with os t show ?thesis by (auto simp: owner_step_def simp del: abs_ledger_simps)
    qed
  next
    fix v
    assume "lg_owner (abs_ledger b (vw s)) r = Some (locked_by n)" "(seat_step R exec b vw vol)\<^sup>*\<^sup>* s v"
      "(seat_step R exec b vw vol)\<^sup>*\<^sup>* v t" "lg_owner (abs_ledger b (vw v)) r = None"
    with step.hyps(2) show ?thesis by (meson rtranclp.rtrancl_into_rtrancl)
  qed
qed blast

text \<open>A script call of the adapter that returned, as its ledger operation.\<close>

lemma lock_call:
  assumes ok: "keys_ok b (vw s) (vol s)" and num: "command_in64 cmd" "0 < ttl" "in64 ttl"
    and run: "Locker_LockSeats R exec b ttl cmd n ident s = (Inr seats, t)"
  shows "\<exists>rep \<ge> 0. ledger_lock n (cmd_ProgramID cmd) (cmd_TicketCategoryID cmd) (ticket_count (cmd_SeatIDs cmd) (cmd_TicketUserIDs cmd))
       (joinInt64 (cmd_SeatIDs cmd)) ident (order_resources (cmd_ProgramID cmd) (cmd_SeatIDs cmd) (cmd_TicketUserIDs cmd)) (abs_ledger b (vw s))
     = (Some rep, abs_ledger b (vw t)) \<and> keys_ok b (vw t) (vol t) \<and> 0 < ticket_count (cmd_SeatIDs cmd) (cmd_TicketUserIDs cmd)
     \<and> seats = lockedSeatPlaceholders cmd"
proof -
  let ?count = "ticket_count (cmd_SeatIDs cmd) (cmd_TicketUserIDs cmd)"
  have pos: "0 < ?count" using run by (auto simp: Locker_LockSeats_def Let_def go_simps split: if_splits)
  from run pos obtain rep where "0 \<le> rep" "seats = lockedSeatPlaceholders cmd"
    "exec (lockInventoryScript R) (lock_KEYS b (cmd_ProgramID cmd) (cmd_TicketCategoryID cmd) n (cmd_SeatIDs cmd) (cmd_TicketUserIDs cmd))
       (lock_ARGV ?count n (cmd_ProgramID cmd) (cmd_TicketCategoryID cmd) (joinInt64 (cmd_SeatIDs cmd)) ident ttl) s = (Inr rep, t)"
    by (auto simp: Locker_LockSeats_def attemptG_def go_simps Let_def lock_KEYS_def lock_ARGV_def split: prod.splits sum.splits if_splits)
  with lock_refines [OF ok _ num(3) num(2) exec_reply [OF this(3)]] num(1) pos show ?thesis
    unfolding command_in64_def by blast
qed

lemma rollback_call:
  assumes ok: "keys_ok b (vw s) (vol s)" and num: "in64 count"
    and run: "Writer_RollbackCreateOrder R exec b p c n seats tus count s = (Inr (), t)"
  shows "\<exists>rep. ledger_rollback n p c count (order_resources p seats tus) (abs_ledger b (vw s)) = (Some rep, abs_ledger b (vw t))
    \<and> keys_ok b (vw t) (vol t)"
proof -
  from run obtain rep where "exec (rollbackCreateOrderScript R) (giveback_keys b ''order-rollback'' p c n seats tus)
     [show_int count, show_int n, show_int markerTTL] s = (Inr rep, t)"
    by (auto simp: Writer_RollbackCreateOrder_def attemptG_def go_simps split: prod.splits sum.splits)
  from rollback_refines [OF ok num markerTTL_ok(2,1) exec_reply [OF this]] show ?thesis by blast
qed

lemma release_call:
  assumes ok: "keys_ok b (vw s) (vol s)" and num: "in64 count"
    and run: "Writer_ReleaseSeats R exec b n p c seats tus count s = (Inr (), t)"
  shows "\<exists>rep \<ge> 0. ledger_release n p c count (order_resources p seats tus) (abs_ledger b (vw s)) = (Some rep, abs_ledger b (vw t))
    \<and> keys_ok b (vw t) (vol t)"
proof -
  from run obtain rep where "0 \<le> rep" "exec (releaseSeatsScript R) (giveback_keys b ''order-release'' p c n seats tus)
     [show_int count, show_int n, show_int markerTTL] s = (Inr rep, t)"
    by (auto simp: Writer_ReleaseSeats_def attemptG_def go_simps split: prod.splits sum.splits if_splits)
  with release_refines [OF ok num markerTTL_ok(2,1) exec_reply [OF this(2)]] show ?thesis by blast
qed

lemma confirm_call:
  assumes ok: "keys_ok b (vw s) (vol s)"
    and run: "Writer_ConfirmSeatsSold R exec b n p seats tus s = (Inr (), t)"
  shows "\<exists>rep \<ge> 0. ledger_confirm n (order_resources p seats tus) (abs_ledger b (vw s)) = (Some rep, abs_ledger b (vw t))
    \<and> keys_ok b (vw t) (vol t)"
proof -
  from run obtain rep where "0 \<le> rep" "exec (confirmSeatsSoldScript R) (order_key b ''order-lock'' n # resourceKeys b p seats tus)
     [show_int n, show_int markerTTL] s = (Inr rep, t)"
    by (auto simp: Writer_ConfirmSeatsSold_def attemptG_def go_simps split: prod.splits sum.splits if_splits)
  with confirm_refines [OF ok markerTTL_ok(2,1) exec_reply [OF this(2)]] show ?thesis by blast
qed

lemma locker_rollback_call:
  assumes ok: "keys_ok b (vw s) (vol s)" and num: "command_in64 cmd" "0 < ttl" "in64 ttl"
    and run: "Locker_RollbackSeats R exec b ttl cmd n ident s = (Inr (), t)"
  shows "\<exists>rep. ledger_rollback n (cmd_ProgramID cmd) (cmd_TicketCategoryID cmd) (ticket_count (cmd_SeatIDs cmd) (cmd_TicketUserIDs cmd))
      (order_resources (cmd_ProgramID cmd) (cmd_SeatIDs cmd) (cmd_TicketUserIDs cmd)) (abs_ledger b (vw s)) = (Some rep, abs_ledger b (vw t))
    \<and> keys_ok b (vw t) (vol t)"
proof -
  let ?count = "ticket_count (cmd_SeatIDs cmd) (cmd_TicketUserIDs cmd)"
  from run obtain rep where "exec (rollbackCreateOrderScript R) (giveback_keys b ''order-rollback'' (cmd_ProgramID cmd)
      (cmd_TicketCategoryID cmd) n (cmd_SeatIDs cmd) (cmd_TicketUserIDs cmd)) [show_int ?count, show_int n, show_int ttl] s = (Inr rep, t)"
    by (auto simp: Locker_RollbackSeats_def attemptG_def go_simps Let_def split: prod.splits sum.splits)
  from rollback_refines [OF ok num(1) [unfolded command_in64_def] num(3,2) exec_reply [OF this]] show ?thesis by blast
qed

lemma lock_refused:
  assumes ok: "keys_ok b (vw s) (vol s)" and num: "command_in64 cmd" "0 < ttl" "in64 ttl"
    and run: "Locker_LockSeats R exec b ttl cmd n ident s = (Inl e, t)"
    and e: "e \<in> {New CodeInventoryNotEnough ''ticket inventory is not enough'', New CodeSeatUnavailable ''seat is already locked or sold''}"
  shows "\<exists>rep < 0. ledger_lock n (cmd_ProgramID cmd) (cmd_TicketCategoryID cmd) (ticket_count (cmd_SeatIDs cmd) (cmd_TicketUserIDs cmd))
       (joinInt64 (cmd_SeatIDs cmd)) ident (order_resources (cmd_ProgramID cmd) (cmd_SeatIDs cmd) (cmd_TicketUserIDs cmd)) (abs_ledger b (vw s))
     = (Some rep, abs_ledger b (vw t)) \<and> (rep = -2 \<longleftrightarrow> e = New CodeSeatUnavailable ''seat is already locked or sold'')"
proof -
  let ?count = "ticket_count (cmd_SeatIDs cmd) (cmd_TicketUserIDs cmd)"
  have pos: "0 < ?count" using run e by (auto simp: Locker_LockSeats_def Let_def go_simps New_def split: if_splits)
  from run pos e obtain rep where "rep < 0" "rep = -2 \<longleftrightarrow> e = New CodeSeatUnavailable ''seat is already locked or sold''"
    "exec (lockInventoryScript R) (lock_KEYS b (cmd_ProgramID cmd) (cmd_TicketCategoryID cmd) n (cmd_SeatIDs cmd) (cmd_TicketUserIDs cmd))
       (lock_ARGV ?count n (cmd_ProgramID cmd) (cmd_TicketCategoryID cmd) (joinInt64 (cmd_SeatIDs cmd)) ident ttl) s = (Inr rep, t)"
    by (auto simp: Locker_LockSeats_def attemptG_def go_simps Let_def lock_KEYS_def lock_ARGV_def New_def Wrap_def
        split: prod.splits sum.splits if_splits)
  with lock_refines [OF ok _ num(3) num(2) exec_reply [OF this(3)]] num(1) show ?thesis
    unfolding command_in64_def by blast
qed

end

interpretation keyspace_seats: seat_store keyspace_redis ks_val ks_ttl direct_exec b for b
  by unfold_locales (rule direct_exec_runs)

lemma parse_int_in64: "parse_int x = Some n \<Longrightarrow> in64 n"
  by (auto simp: parse_int_def Let_def split: if_splits)

lemma remaining_in64: "keys_ok b m vs \<Longrightarrow> in64 (remaining (abs_ledger b m) (p, c))"
  by (auto simp: keys_ok_def remaining_def abs_ledger_def in64_def [of 0] int_val_def
      split: option.splits rvalue.splits intro: parse_int_in64)

text \<open>What locking, rolling back and releasing the same tickets does to the ledger.\<close>

lemma ledger_lock_rollback:
  assumes "\<not> has_lock l n" and "in64 (remaining l (p, c))" and "0 < count"
    and lock: "ledger_lock n p c count ids ident rs l = (Some rep, l1)" "0 \<le> rep"
    and undo: "ledger_rollback n p c count rs l1 = (rep1, l2)"
  shows "lg_owner l2 = lg_owner l" and "remaining l2 = remaining l" and "\<not> has_lock l2 n"
    and "n \<in> lg_rolled l2" and "n \<notin> lg_released l2" and "\<forall>r \<in> set rs. lg_owner l r = None"
proof -
  from lock have l1: "l1 = \<lparr>lg_remain = (lg_remain l)((p, c) := Some (remaining l (p, c) - count)),
             lg_lock = (lg_lock l)(n := Some (the_hash (lg_lock l n) ++ map_of (rev (lock_fields n p c ids ident)))),
             lg_rolled = lg_rolled l - {n}, lg_released = lg_released l - {n},
             lg_owner = (\<lambda>r. if r \<in> set rs then Some (locked_by n) else lg_owner l r)\<rparr>"
    and free: "\<forall>r \<in> set rs. lg_owner l r = None"
    using assms(1) by (auto simp: ledger_lock_def split: if_splits)
  have rem: "remaining l1 (p, c) = remaining l (p, c) - count" by (simp add: l1 remaining_def)
  have fresh: "n \<notin> lg_rolled l1" by (simp add: l1)
  have l2: "l2 = l1\<lparr>lg_rolled := insert n (lg_rolled l1), lg_remain := (lg_remain l1)((p, c) := Some (remaining l (p, c))),
      lg_lock := (lg_lock l1)(n := None), lg_owner := (\<lambda>r. if r \<in> set rs \<and> lg_owner l1 r = Some (locked_by n) then None else lg_owner l1 r)\<rparr>"
    using undo assms(2) fresh by (auto simp: ledger_rollback_def ledger_give_back_def rem cong: if_cong)
  show "lg_owner l2 = lg_owner l" using free by (auto simp: l2 l1)
  show "remaining l2 = remaining l" by (auto simp: l2 l1 remaining_def fun_eq_iff)
  show "\<not> has_lock l2 n" "n \<in> lg_rolled l2" "n \<notin> lg_released l2" by (auto simp: l2 l1 has_lock_def)
  show "\<forall>r \<in> set rs. lg_owner l r = None" by (fact free)
qed

lemma ledger_release_after_rollback:
  assumes "\<forall>r \<in> set rs. lg_owner l r = None" and "n \<notin> lg_released l"
    and "ledger_release n p c count rs l = (Some rep, l')"
  shows "remaining l' (p, c) = remaining l (p, c) + count"
  using assms by (auto simp: ledger_release_def ledger_give_back_def remaining_def split: if_splits)

lemma ledger_lock_new:
  assumes "\<not> has_lock l n" and "ledger_lock n (fst pc) (snd pc) count ids ident rs l = (Some rep, l')" and "0 \<le> rep"
  shows "(\<forall>r \<in> set rs. lg_owner l r = None) \<and> count \<le> remaining l pc
    \<and> lg_owner l' = (\<lambda>r. if r \<in> set rs then Some (locked_by n) else lg_owner l r)
    \<and> remaining l' = (remaining l)(pc := remaining l pc - count) \<and> has_lock l' n
    \<and> n \<notin> lg_rolled l' \<and> n \<notin> lg_released l'"
proof -
  have upd: "remaining \<lparr>lg_remain = (lg_remain l)(pc \<mapsto> v), lg_lock = L, lg_rolled = A, lg_released = B, lg_owner = O'\<rparr> = (remaining l)(pc := v)"
    for v L A B O' by (auto simp: remaining_def fun_eq_iff)
  show ?thesis
    using assms by (auto simp: ledger_lock_def upd split: if_splits) (simp add: has_lock_def lock_fields_def)
qed

lemma ledger_lock_refused:
  assumes "\<not> has_lock l n" and "ledger_lock n p c count ids ident rs l = (Some rep, l')" and "rep < 0"
  shows "l' = l \<and> (if rep = -2 then \<exists>r \<in> set rs. lg_owner l r \<noteq> None else remaining l (p, c) < count)"
  using assms by (auto simp: ledger_lock_def split: if_splits)

section \<open>Properties\<close>

definition demo_store :: keyspace where
  "demo_store = \<lparr>ks_val = [inventory_key ''th'' 7 1 \<mapsto> RString ''5''], ks_ttl = {}\<rparr>"

definition demo_cmd :: CreateOrderCommand where
  "demo_cmd = \<lparr>cmd_RequestID = ''r'', cmd_UserID = 3, cmd_ProgramID = 7, cmd_TicketCategoryID = 1,
     cmd_SeatIDs = [11, 12], cmd_TicketUserIDs = []\<rparr>"

lemma demo_keys: "keys_ok ''th'' (ks_val demo_store) (ks_ttl demo_store)"
proof -
  have "parse_int ''5'' = Some 5" by code_simp
  then show ?thesis by (auto simp: keys_ok_def demo_store_def)
qed

lemma demo_remaining: "remaining (abs_ledger ''th'' (ks_val demo_store)) pc = (if pc = (7, 1) then 5 else 0)"
proof -
  have "parse_int ''5'' = Some 5" by code_simp
  then show ?thesis by (auto simp: remaining_def abs_ledger_def demo_store_def split: prod.splits)
qed

lemma demo_owner: "lg_owner (abs_ledger ''th'' (ks_val demo_store)) r = None"
  by (simp add: demo_store_def)

text \<open>On the model of the keyspace an adapter returns as soon as the ledger operation replies.\<close>

lemma direct_lock:
  assumes ok: "keys_ok b (ks_val s) (ks_ttl s)" and num: "command_in64 cmd" "0 < ttl" "in64 ttl"
    and pos: "0 < ticket_count (cmd_SeatIDs cmd) (cmd_TicketUserIDs cmd)"
    and rep: "fst (ledger_lock n (cmd_ProgramID cmd) (cmd_TicketCategoryID cmd) (ticket_count (cmd_SeatIDs cmd) (cmd_TicketUserIDs cmd))
       (joinInt64 (cmd_SeatIDs cmd)) ident (order_resources (cmd_ProgramID cmd) (cmd_SeatIDs cmd) (cmd_TicketUserIDs cmd))
       (abs_ledger b (ks_val s))) = Some rep" "0 \<le> rep"
  obtains t where "Locker_LockSeats keyspace_redis direct_exec b ttl cmd n ident s = (Inr (lockedSeatPlaceholders cmd), t)"
proof -
  let ?count = "ticket_count (cmd_SeatIDs cmd) (cmd_TicketUserIDs cmd)"
  let ?K = "lock_KEYS b (cmd_ProgramID cmd) (cmd_TicketCategoryID cmd) n (cmd_SeatIDs cmd) (cmd_TicketUserIDs cmd)"
    and ?A = "lock_ARGV ?count n (cmd_ProgramID cmd) (cmd_TicketCategoryID cmd) (joinInt64 (cmd_SeatIDs cmd)) ident ttl"
  obtain r t where run: "lockInventoryScript keyspace_redis ?K ?A s = (r, t)" by (cases "lockInventoryScript keyspace_redis ?K ?A s")
  from keyspace.lock_refines [OF ok num(1) [unfolded command_in64_def] num(3,2) run] rep(1) have "r = Some rep" by simp
  with run rep(2) pos have "Locker_LockSeats keyspace_redis direct_exec b ttl cmd n ident s = (Inr (lockedSeatPlaceholders cmd), t)"
    by (simp add: Locker_LockSeats_def attemptG_def go_simps Let_def lock_KEYS_def lock_ARGV_def direct_exec_def)
  then show thesis by (rule that)
qed

lemma direct_giveback:
  assumes ok: "keys_ok b (ks_val s) (ks_ttl s)" and num: "in64 count"
  shows "fst (ledger_rollback n p c count (order_resources p seats tus) (abs_ledger b (ks_val s))) = Some rep \<Longrightarrow>
      \<exists>t. Writer_RollbackCreateOrder keyspace_redis direct_exec b p c n seats tus count s = (Inr (), t)"
    and "fst (ledger_release n p c count (order_resources p seats tus) (abs_ledger b (ks_val s))) = Some rep \<Longrightarrow> 0 \<le> rep \<Longrightarrow>
      \<exists>t. Writer_ReleaseSeats keyspace_redis direct_exec b n p c seats tus count s = (Inr (), t)"
    and "fst (ledger_confirm n (order_resources p seats tus) (abs_ledger b (ks_val s))) = Some rep \<Longrightarrow> 0 \<le> rep \<Longrightarrow>
      \<exists>t. Writer_ConfirmSeatsSold keyspace_redis direct_exec b n p seats tus s = (Inr (), t)"
  using keyspace.rollback_refines [OF ok num markerTTL_ok(2,1), of p c n seats tus]
    keyspace.release_refines [OF ok num markerTTL_ok(2,1), of p c n seats tus]
    keyspace.confirm_refines [OF ok markerTTL_ok(2,1), of n p seats tus]
  by (auto simp: Writer_RollbackCreateOrder_def Writer_ReleaseSeats_def Writer_ConfirmSeatsSold_def attemptG_def go_simps
      direct_exec_def split: prod.splits option.splits)

lemma demo_lock:
  obtains t where "Locker_LockSeats keyspace_redis direct_exec ''th'' 900 demo_cmd 42 5 demo_store = (Inr (lockedSeatPlaceholders demo_cmd), t)"
proof -
  have "\<not> has_lock (abs_ledger ''th'' (ks_val demo_store)) 42"
    by (simp add: has_lock_def abs_ledger_def demo_store_def)
  then have "fst (ledger_lock 42 (cmd_ProgramID demo_cmd) (cmd_TicketCategoryID demo_cmd) (ticket_count (cmd_SeatIDs demo_cmd) (cmd_TicketUserIDs demo_cmd))
       (joinInt64 (cmd_SeatIDs demo_cmd)) 5 (order_resources (cmd_ProgramID demo_cmd) (cmd_SeatIDs demo_cmd) (cmd_TicketUserIDs demo_cmd))
       (abs_ledger ''th'' (ks_val demo_store))) = Some 3"
    unfolding ledger_lock_def demo_remaining demo_owner by (simp add: demo_cmd_def ticket_count_def in64_def)
  then show thesis
    by (intro direct_lock [where ttl = 900 and cmd = demo_cmd and n = 42 and ident = 5 and rep = 3, OF demo_keys _ _ _ _ _ _ that])
      (simp_all add: demo_cmd_def ticket_count_def command_in64_def in64_def)
qed



text \<open>
  C13. A seat (or ticket user) marked sold to an order keeps that mark whatever the services do next: no
  sequence of locks, roll-backs, confirmations and releases of any orders, and no expiry of keys, frees it
  or gives it to another order.
\<close>

theorem sold_seat_stays_sold:
  assumes "seat_store R vw vol exec" and "keys_ok b (vw s) (vol s)"
    and "(seat_step R exec b vw vol)\<^sup>*\<^sup>* s t"
    and "vw s (resource_key b r) = Some (RString (sold_to n))"
  shows "vw t (resource_key b r) = Some (RString (sold_to n))"
  using seat_store.run_sold [OF assms(1,3,2), of r n] assms(4)
  by (auto simp: str_val_def split: option.splits rvalue.splits)

theorem sold_seat_stays_sold_witness:
  "ks_val (snd (Writer_ReleaseSeats keyspace_redis direct_exec ''th'' 43 7 1 [11, 12] [] 2
       (demo_store\<lparr>ks_val := (ks_val demo_store)(resource_key ''th'' (SeatR 7 11) \<mapsto> RString (sold_to 42))\<rparr>)))
     (resource_key ''th'' (SeatR 7 11)) = Some (RString (sold_to 42))"
proof (rule sold_seat_stays_sold [OF keyspace_seats.seat_store_axioms])
  let ?s = "demo_store\<lparr>ks_val := (ks_val demo_store)(resource_key ''th'' (SeatR 7 11) \<mapsto> RString (sold_to 42))\<rparr>"
  show "keys_ok ''th'' (ks_val ?s) (ks_ttl ?s)"
    using demo_keys by (auto simp: keys_ok_def demo_store_def)
  show "(seat_step keyspace_redis direct_exec ''th'' ks_val ks_ttl)\<^sup>*\<^sup>* ?s
      (snd (Writer_ReleaseSeats keyspace_redis direct_exec ''th'' 43 7 1 [11, 12] [] 2 ?s))"
    by (intro r_into_rtranclp seat_step.release_seats) (simp_all add: in64_def)
qed simp



text \<open>
  C17. The remaining count of a ticket category never becomes negative, along any sequence of adapter calls
  and expiries: the lock script refuses an order that asks for more tickets than are left.
\<close>

theorem remaining_never_negative:
  assumes "seat_store R vw vol exec" and "keys_ok b (vw s) (vol s)"
    and "(seat_step R exec b vw vol)\<^sup>*\<^sup>* s t"
    and "\<forall>p c. 0 \<le> remaining (abs_ledger b (vw s)) (p, c)"
  shows "0 \<le> remaining (abs_ledger b (vw t)) (p, c)"
  using seat_store.run_remain_nonneg [OF assms(1,3,2)] assms(4) by (auto simp: remain_nonneg_def)

theorem remaining_never_negative_witness:
  "0 \<le> remaining (abs_ledger ''th'' (ks_val (snd (Locker_LockSeats keyspace_redis direct_exec ''th'' 900 demo_cmd 42 5 demo_store)))) (7, 1)"
proof (rule remaining_never_negative [OF keyspace_seats.seat_store_axioms demo_keys])
  show "(seat_step keyspace_redis direct_exec ''th'' ks_val ks_ttl)\<^sup>*\<^sup>* demo_store
      (snd (Locker_LockSeats keyspace_redis direct_exec ''th'' 900 demo_cmd 42 5 demo_store))"
    by (intro r_into_rtranclp seat_step.lock_seats) (simp_all add: in64_def command_in64_def demo_cmd_def ticket_count_def)
qed (simp add: demo_remaining)

text \<open>
  \<open>LockSeats\<close> takes everything the order asks for or nothing. When it returns seats and the order had no
  lock before, every seat and ticket user of the command was free and at least the wanted number of
  tickets was left; afterwards they all carry the order's mark, the remaining count went down by exactly
  the number of tickets and no other owner or count changed. When it reports a seat as unavailable or the
  inventory as not enough, nothing changed, and that is indeed so.
\<close>

theorem lock_seats_all_or_nothing:
  assumes "seat_store R vw vol exec" and "keys_ok b (vw s) (vol s)"
    and "command_in64 cmd" and "0 < ttl" and "in64 ttl"
    and "\<not> has_lock (abs_ledger b (vw s)) n"
    and "pc = (cmd_ProgramID cmd, cmd_TicketCategoryID cmd)"
    and "count = ticket_count (cmd_SeatIDs cmd) (cmd_TicketUserIDs cmd)"
    and "rs = set (order_resources (cmd_ProgramID cmd) (cmd_SeatIDs cmd) (cmd_TicketUserIDs cmd))"
  shows "case Locker_LockSeats R exec b ttl cmd n ident s of
      (Inr seats, t) \<Rightarrow>
        map seat_ID seats = cmd_SeatIDs cmd
        \<and> (\<forall>r \<in> rs. lg_owner (abs_ledger b (vw s)) r = None) \<and> 0 < count \<and> count \<le> remaining (abs_ledger b (vw s)) pc
        \<and> lg_owner (abs_ledger b (vw t)) = (\<lambda>r. if r \<in> rs then Some (locked_by n) else lg_owner (abs_ledger b (vw s)) r)
        \<and> remaining (abs_ledger b (vw t)) = (remaining (abs_ledger b (vw s))) (pc := remaining (abs_ledger b (vw s)) pc - count)
        \<and> has_lock (abs_ledger b (vw t)) n
    | (Inl e, t) \<Rightarrow>
        (e = New CodeInventoryNotEnough ''ticket inventory is not enough'' \<longrightarrow>
          remaining (abs_ledger b (vw s)) pc < count \<and> abs_ledger b (vw t) = abs_ledger b (vw s))
        \<and> (e = New CodeSeatUnavailable ''seat is already locked or sold'' \<longrightarrow>
          (\<exists>r \<in> rs. lg_owner (abs_ledger b (vw s)) r \<noteq> None) \<and> abs_ledger b (vw t) = abs_ledger b (vw s))"
proof (cases "Locker_LockSeats R exec b ttl cmd n ident s")
  case (Pair res t)
  show ?thesis
  proof (cases res)
    case (Inr seats)
    from seat_store.lock_call [OF assms(1-5) Pair [unfolded Inr]] obtain rep where rep: "0 \<le> rep" and
      l: "ledger_lock n (fst pc) (snd pc) count (joinInt64 (cmd_SeatIDs cmd)) ident
        (order_resources (cmd_ProgramID cmd) (cmd_SeatIDs cmd) (cmd_TicketUserIDs cmd)) (abs_ledger b (vw s)) = (Some rep, abs_ledger b (vw t))"
      and more: "0 < count" "seats = lockedSeatPlaceholders cmd"
      unfolding assms(7,8) fst_conv snd_conv by blast
    from ledger_lock_new [OF assms(6) l rep] more show ?thesis
      unfolding assms(9) by (simp add: Pair Inr lockedSeatPlaceholders_def comp_def del: abs_ledger_simps)
  next
    case (Inl e)
    have "l' = abs_ledger b (vw s) \<and> (if rep = -2 then \<exists>r \<in> rs. lg_owner (abs_ledger b (vw s)) r \<noteq> None
        else remaining (abs_ledger b (vw s)) pc < count)"
      if "ledger_lock n (cmd_ProgramID cmd) (cmd_TicketCategoryID cmd) (ticket_count (cmd_SeatIDs cmd) (cmd_TicketUserIDs cmd))
       (joinInt64 (cmd_SeatIDs cmd)) ident (order_resources (cmd_ProgramID cmd) (cmd_SeatIDs cmd) (cmd_TicketUserIDs cmd)) (abs_ledger b (vw s))
       = (Some rep, l')" "rep < 0" for rep l'
      using ledger_lock_refused [OF assms(6) that] unfolding assms(7-9) .
    with seat_store.lock_refused [OF assms(1-5) Pair [unfolded Inl]] show ?thesis
      by (fastforce simp: Pair Inl New_def simp del: abs_ledger_simps)
  qed
qed

theorem lock_seats_all_or_nothing_witness:
  "case Locker_LockSeats keyspace_redis direct_exec ''th'' 900 demo_cmd 42 5 demo_store of
     (Inr seats, t) \<Rightarrow> map seat_ID seats = [11, 12] \<and> remaining (abs_ledger ''th'' (ks_val t)) (7, 1) = 3
       \<and> lg_owner (abs_ledger ''th'' (ks_val t)) (SeatR 7 12) = Some (locked_by 42)
   | (Inl e, t) \<Rightarrow> False"
proof -
  obtain t where t: "Locker_LockSeats keyspace_redis direct_exec ''th'' 900 demo_cmd 42 5 demo_store = (Inr (lockedSeatPlaceholders demo_cmd), t)"
    by (rule demo_lock)
  have "command_in64 demo_cmd" "(0::int) < 900" "in64 900" "\<not> has_lock (abs_ledger ''th'' (ks_val demo_store)) 42"
    by (simp_all add: command_in64_def demo_cmd_def ticket_count_def in64_def has_lock_def abs_ledger_def demo_store_def)
  from lock_seats_all_or_nothing [OF keyspace_seats.seat_store_axioms demo_keys this refl refl refl, of 5]
  show ?thesis unfolding t by (simp add: demo_remaining demo_cmd_def ticket_count_def order_resources_def del: abs_ledger_simps)
qed

lemma direct_locker_rollback:
  assumes ok: "keys_ok b (ks_val s) (ks_ttl s)" and num: "command_in64 cmd" "0 < ttl" "in64 ttl"
    and rep: "fst (ledger_rollback n (cmd_ProgramID cmd) (cmd_TicketCategoryID cmd) (ticket_count (cmd_SeatIDs cmd) (cmd_TicketUserIDs cmd))
      (order_resources (cmd_ProgramID cmd) (cmd_SeatIDs cmd) (cmd_TicketUserIDs cmd)) (abs_ledger b (ks_val s))) = Some rep"
  shows "\<exists>t. Locker_RollbackSeats keyspace_redis direct_exec b ttl cmd n ident s = (Inr (), t)"
  using keyspace.rollback_refines [OF ok num(1) [unfolded command_in64_def] num(3,2), of "cmd_ProgramID cmd" "cmd_TicketCategoryID cmd" n
      "cmd_SeatIDs cmd" "cmd_TicketUserIDs cmd"] rep
  by (auto simp: Locker_RollbackSeats_def attemptG_def go_simps Let_def direct_exec_def split: prod.splits option.splits)

text \<open>The example order locks its seats, is rolled back twice, and is released.\<close>

lemma demo_rollback:
  obtains t u v where "command_in64 demo_cmd" "(0::int) < 900" "in64 900" "\<not> has_lock (abs_ledger ''th'' (ks_val demo_store)) 42"
    and "Locker_LockSeats keyspace_redis direct_exec ''th'' 900 demo_cmd 42 5 demo_store = (Inr (lockedSeatPlaceholders demo_cmd), t)"
    and "Locker_RollbackSeats keyspace_redis direct_exec ''th'' 900 demo_cmd 42 5 t = (Inr (), u)"
    and "Locker_RollbackSeats keyspace_redis direct_exec ''th'' 900 demo_cmd 42 5 u = (Inr (), v)"
    and "keys_ok ''th'' (ks_val u) (ks_ttl u)" "42 \<notin> lg_released (abs_ledger ''th'' (ks_val u))"
    and "lg_owner (abs_ledger ''th'' (ks_val u)) = lg_owner (abs_ledger ''th'' (ks_val demo_store))"
    and "remaining (abs_ledger ''th'' (ks_val u)) = remaining (abs_ledger ''th'' (ks_val demo_store))"
proof -
  let ?rs = "order_resources 7 [11, 12] []"
  have num: "command_in64 demo_cmd" "(0::int) < 900" "in64 900"
    by (simp_all add: command_in64_def demo_cmd_def ticket_count_def in64_def)
  have cmd: "cmd_ProgramID demo_cmd = 7" "cmd_TicketCategoryID demo_cmd = 1" "cmd_SeatIDs demo_cmd = [11, 12]"
    "cmd_TicketUserIDs demo_cmd = []" "ticket_count [11, 12] [] = 2" by (simp_all add: demo_cmd_def ticket_count_def)
  have nl: "\<not> has_lock (abs_ledger ''th'' (ks_val demo_store)) 42"
    by (simp add: has_lock_def abs_ledger_def demo_store_def)
  obtain t where t: "Locker_LockSeats keyspace_redis direct_exec ''th'' 900 demo_cmd 42 5 demo_store = (Inr (lockedSeatPlaceholders demo_cmd), t)"
    by (rule demo_lock)
  from keyspace_seats.lock_call [OF demo_keys num t] obtain rep where
    lock: "ledger_lock 42 7 1 2 (joinInt64 [11, 12]) 5 ?rs (abs_ledger ''th'' (ks_val demo_store)) = (Some rep, abs_ledger ''th'' (ks_val t))" "0 \<le> rep"
    and ok1: "keys_ok ''th'' (ks_val t) (ks_ttl t)" unfolding cmd by blast
  have fresh: "42 \<notin> lg_rolled (abs_ledger ''th'' (ks_val t))" and three: "remaining (abs_ledger ''th'' (ks_val t)) (7, 1) = 3"
    using ledger_lock_new [where pc = "(7, 1)", unfolded fst_conv snd_conv, OF nl lock] by (simp_all add: demo_remaining del: abs_ledger_simps)
  then have "fst (ledger_rollback 42 7 1 2 ?rs (abs_ledger ''th'' (ks_val t))) = Some 1"
    unfolding ledger_rollback_def ledger_give_back_def by (simp add: in64_def del: abs_ledger_simps)
  then obtain u where u: "Locker_RollbackSeats keyspace_redis direct_exec ''th'' 900 demo_cmd 42 5 t = (Inr (), u)"
    using direct_locker_rollback [OF ok1 num] unfolding cmd by blast
  from keyspace_seats.locker_rollback_call [OF ok1 num u] obtain rep1 where
    r1: "ledger_rollback 42 7 1 2 ?rs (abs_ledger ''th'' (ks_val t)) = (Some rep1, abs_ledger ''th'' (ks_val u))"
    and ok2: "keys_ok ''th'' (ks_val u) (ks_ttl u)" unfolding cmd by blast
  note undo = ledger_lock_rollback [OF nl remaining_in64 [OF demo_keys] _ lock r1, simplified]
  have "fst (ledger_rollback 42 7 1 2 ?rs (abs_ledger ''th'' (ks_val u))) = Some 0"
    unfolding ledger_rollback_def using undo(4) by simp
  then obtain v where v: "Locker_RollbackSeats keyspace_redis direct_exec ''th'' 900 demo_cmd 42 5 u = (Inr (), v)"
    using direct_locker_rollback [OF ok2 num] unfolding cmd by blast
  show thesis
    by (rule that [OF num nl t u v ok2])
      (use ledger_lock_rollback [OF nl remaining_in64 [OF demo_keys] _ lock r1] in simp_all)
qed

text \<open>
  C18. Locking and then rolling back restores the inventory: when an order without a lock locks its seats and
  \<open>RollbackSeats\<close> follows, all owners and all remaining counts are what they were, and the order has no lock
  again; a second roll-back changes nothing.
\<close>

theorem rollback_restores_inventory:
  assumes "seat_store R vw vol exec" and "keys_ok b (vw s) (vol s)"
    and "command_in64 cmd" and "0 < ttl" and "in64 ttl"
    and "\<not> has_lock (abs_ledger b (vw s)) n"
    and "Locker_LockSeats R exec b ttl cmd n ident s = (Inr seats, t)"
    and "Locker_RollbackSeats R exec b ttl cmd n ident t = (Inr (), u)"
    and "Locker_RollbackSeats R exec b ttl cmd n ident u = (Inr (), v)"
  shows "lg_owner (abs_ledger b (vw u)) = lg_owner (abs_ledger b (vw s))
    \<and> remaining (abs_ledger b (vw u)) = remaining (abs_ledger b (vw s))
    \<and> \<not> has_lock (abs_ledger b (vw u)) n \<and> abs_ledger b (vw v) = abs_ledger b (vw u)"
proof -
  let ?count = "ticket_count (cmd_SeatIDs cmd) (cmd_TicketUserIDs cmd)"
  from seat_store.lock_call [OF assms(1-5,7)] obtain rep where lock: "ledger_lock n (cmd_ProgramID cmd) (cmd_TicketCategoryID cmd) ?count
       (joinInt64 (cmd_SeatIDs cmd)) ident (order_resources (cmd_ProgramID cmd) (cmd_SeatIDs cmd) (cmd_TicketUserIDs cmd)) (abs_ledger b (vw s))
     = (Some rep, abs_ledger b (vw t))" "0 \<le> rep" and ok1: "keys_ok b (vw t) (vol t)" and pos: "0 < ?count" by blast
  from seat_store.locker_rollback_call [OF assms(1) ok1 assms(3-5,8)] obtain rep1 where
    r1: "ledger_rollback n (cmd_ProgramID cmd) (cmd_TicketCategoryID cmd) ?count
      (order_resources (cmd_ProgramID cmd) (cmd_SeatIDs cmd) (cmd_TicketUserIDs cmd)) (abs_ledger b (vw t)) = (Some rep1, abs_ledger b (vw u))"
    and ok2: "keys_ok b (vw u) (vol u)" by blast
  note undo = ledger_lock_rollback [OF assms(6) remaining_in64 [OF assms(2)] pos lock r1]
  from seat_store.locker_rollback_call [OF assms(1) ok2 assms(3-5,9)] undo(4)
  have "abs_ledger b (vw v) = abs_ledger b (vw u)" unfolding ledger_rollback_def by (auto simp del: abs_ledger_simps)
  with undo(1-3) show ?thesis by blast
qed

theorem rollback_restores_inventory_witness:
  "\<exists>t u v :: keyspace. Locker_LockSeats keyspace_redis direct_exec ''th'' 900 demo_cmd 42 5 demo_store = (Inr (lockedSeatPlaceholders demo_cmd), t)
     \<and> Locker_RollbackSeats keyspace_redis direct_exec ''th'' 900 demo_cmd 42 5 t = (Inr (), u)
     \<and> remaining (abs_ledger ''th'' (ks_val u)) (7, 1) = 5 \<and> abs_ledger ''th'' (ks_val v) = abs_ledger ''th'' (ks_val u)"
proof -
  obtain t u v where num: "command_in64 demo_cmd" "(0::int) < 900" "in64 900" "\<not> has_lock (abs_ledger ''th'' (ks_val demo_store)) 42"
    and run: "Locker_LockSeats keyspace_redis direct_exec ''th'' 900 demo_cmd 42 5 demo_store = (Inr (lockedSeatPlaceholders demo_cmd), t)"
      "Locker_RollbackSeats keyspace_redis direct_exec ''th'' 900 demo_cmd 42 5 t = (Inr (), u)"
      "Locker_RollbackSeats keyspace_redis direct_exec ''th'' 900 demo_cmd 42 5 u = (Inr (), v)"
    by (rule demo_rollback)
  from rollback_restores_inventory [OF keyspace_seats.seat_store_axioms demo_keys num run]
  have "remaining (abs_ledger ''th'' (ks_val u)) (7, 1) = 5 \<and> abs_ledger ''th'' (ks_val v) = abs_ledger ''th'' (ks_val u)"
    by (simp add: demo_remaining del: abs_ledger_simps)
  with run show ?thesis by blast
qed

text \<open>
  Rolling back and releasing the same order credits its tickets twice: the two scripts keep separate
  markers (\<open>order-rollback\<close> and \<open>order-release\<close>), so the release that follows a roll-back adds the tickets to
  the remaining count once more, and the category ends with more tickets than before the order.
\<close>

theorem rollback_then_release_credits_twice:
  assumes "seat_store R vw vol exec" and "keys_ok b (vw s) (vol s)"
    and "command_in64 cmd" and "0 < ttl" and "in64 ttl"
    and "\<not> has_lock (abs_ledger b (vw s)) n"
    and "count = ticket_count (cmd_SeatIDs cmd) (cmd_TicketUserIDs cmd)"
    and "Locker_LockSeats R exec b ttl cmd n ident s = (Inr seats, t)"
    and "Locker_RollbackSeats R exec b ttl cmd n ident t = (Inr (), u)"
    and "Writer_ReleaseSeats R exec b n (cmd_ProgramID cmd) (cmd_TicketCategoryID cmd) (cmd_SeatIDs cmd) (cmd_TicketUserIDs cmd) count u = (Inr (), v)"
  shows "remaining (abs_ledger b (vw v)) (cmd_ProgramID cmd, cmd_TicketCategoryID cmd)
      = remaining (abs_ledger b (vw s)) (cmd_ProgramID cmd, cmd_TicketCategoryID cmd) + count \<and> 0 < count"
proof -
  from seat_store.lock_call [OF assms(1-5,8)] obtain rep where lock: "ledger_lock n (cmd_ProgramID cmd) (cmd_TicketCategoryID cmd) count
       (joinInt64 (cmd_SeatIDs cmd)) ident (order_resources (cmd_ProgramID cmd) (cmd_SeatIDs cmd) (cmd_TicketUserIDs cmd)) (abs_ledger b (vw s))
     = (Some rep, abs_ledger b (vw t))" "0 \<le> rep" and ok1: "keys_ok b (vw t) (vol t)" and pos: "0 < count" unfolding assms(7) by blast
  from seat_store.locker_rollback_call [OF assms(1) ok1 assms(3-5,9)] obtain rep1 where
    r1: "ledger_rollback n (cmd_ProgramID cmd) (cmd_TicketCategoryID cmd) count
      (order_resources (cmd_ProgramID cmd) (cmd_SeatIDs cmd) (cmd_TicketUserIDs cmd)) (abs_ledger b (vw t)) = (Some rep1, abs_ledger b (vw u))"
    and ok2: "keys_ok b (vw u) (vol u)" unfolding assms(7) by blast
  note undo = ledger_lock_rollback [OF assms(6) remaining_in64 [OF assms(2)] pos lock r1]
  have "in64 count" using assms(3,7) by (simp add: command_in64_def)
  from seat_store.release_call [OF assms(1) ok2 this assms(10)] obtain rep2 where
    "ledger_release n (cmd_ProgramID cmd) (cmd_TicketCategoryID cmd) count
      (order_resources (cmd_ProgramID cmd) (cmd_SeatIDs cmd) (cmd_TicketUserIDs cmd)) (abs_ledger b (vw u)) = (Some rep2, abs_ledger b (vw v))" by blast
  from ledger_release_after_rollback [OF _ undo(5) this] undo(1,2,6) pos show ?thesis by (simp del: abs_ledger_simps)
qed

theorem rollback_then_release_credits_twice_witness:
  "\<exists>t u v :: keyspace. Locker_LockSeats keyspace_redis direct_exec ''th'' 900 demo_cmd 42 5 demo_store = (Inr (lockedSeatPlaceholders demo_cmd), t)
     \<and> Locker_RollbackSeats keyspace_redis direct_exec ''th'' 900 demo_cmd 42 5 t = (Inr (), u)
     \<and> Writer_ReleaseSeats keyspace_redis direct_exec ''th'' 42 7 1 [11, 12] [] 2 u = (Inr (), v)
     \<and> remaining (abs_ledger ''th'' (ks_val demo_store)) (7, 1) = 5 \<and> remaining (abs_ledger ''th'' (ks_val v)) (7, 1) = 7"
proof -
  obtain t u v where num: "command_in64 demo_cmd" "(0::int) < 900" "in64 900" "\<not> has_lock (abs_ledger ''th'' (ks_val demo_store)) 42"
    and run: "Locker_LockSeats keyspace_redis direct_exec ''th'' 900 demo_cmd 42 5 demo_store = (Inr (lockedSeatPlaceholders demo_cmd), t)"
      "Locker_RollbackSeats keyspace_redis direct_exec ''th'' 900 demo_cmd 42 5 t = (Inr (), u)"
      "Locker_RollbackSeats keyspace_redis direct_exec ''th'' 900 demo_cmd 42 5 u = (Inr (), v)"
    and ok: "keys_ok ''th'' (ks_val u) (ks_ttl u)" and nr: "42 \<notin> lg_released (abs_ledger ''th'' (ks_val u))"
    and own: "lg_owner (abs_ledger ''th'' (ks_val u)) = lg_owner (abs_ledger ''th'' (ks_val demo_store))"
    and rem: "remaining (abs_ledger ''th'' (ks_val u)) = remaining (abs_ledger ''th'' (ks_val demo_store))"
    by (rule demo_rollback)
  have "fst (ledger_release 42 7 1 2 (order_resources 7 [11, 12] []) (abs_ledger ''th'' (ks_val u))) = Some 1"
    unfolding ledger_release_def ledger_give_back_def remaining_marks own rem demo_owner demo_remaining using nr
    by (simp add: in64_def del: abs_ledger_simps)
  with direct_giveback(2) [OF ok, of 2 42 7 1 "[11, 12]" "[]" 1] obtain w where
    w: "Writer_ReleaseSeats keyspace_redis direct_exec ''th'' 42 7 1 [11, 12] [] 2 u = (Inr (), w)" by (auto simp: in64_def)
  have cmd: "cmd_ProgramID demo_cmd = 7" "cmd_TicketCategoryID demo_cmd = 1" "cmd_SeatIDs demo_cmd = [11, 12]"
    "cmd_TicketUserIDs demo_cmd = []" "(2::int) = ticket_count [11, 12] []" by (simp_all add: demo_cmd_def ticket_count_def)
  from rollback_then_release_credits_twice [OF keyspace_seats.seat_store_axioms demo_keys num _ run(1,2), of 2 w]
  have "remaining (abs_ledger ''th'' (ks_val w)) (7, 1) = 7" using w unfolding cmd(1-4) demo_remaining by (simp add: cmd(5) [symmetric])
  with run w show ?thesis by (auto simp: demo_remaining simp del: abs_ledger_simps)
qed

end
