(* ===== verification/Orders.thy ===== *)
theory Orders
  imports App_Errors "HOL-Library.AList" "HOL-Library.Product_Lexorder"
begin

text \<open>
  Orders (\<open>src/app/order-service/internal/domain/order\<close>) and the in-memory order repository
  (\<open>internal/infrastructure/memory/order_repository.go\<close>).

  A repository is an association list from order numbers to orders with distinct keys; the order of the
  list stands for the iteration order of the Go map, which no result depends on. \<open>*time.Time\<close> is
  \<open>time option\<close>. The list operations are the pages of a user's orders, newest first; paging through them
  with cursors yields every order exactly once.
\<close>

section \<open>The order and its state machine\<close>

type_synonym Status = string

abbreviation StatusNoPay :: Status where "StatusNoPay \<equiv> ''NO_PAY''"
abbreviation StatusPaid :: Status where "StatusPaid \<equiv> ''PAY''"
abbreviation StatusCancel :: Status where "StatusCancel \<equiv> ''CANCEL''"
abbreviation StatusRefund :: Status where "StatusRefund \<equiv> ''REFUND''"

record Order =
  ord_OrderNumber :: int64
  ord_ProgramID :: int64
  ord_UserID :: int64
  ord_TicketCategoryID :: int64
  ord_SeatIDs :: "int64 list"
  ord_TicketUserIDs :: "int64 list"
  ord_AmountCent :: int64
  ord_Status :: Status
  ord_CreatedAt :: time
  ord_PaidAt :: "time option"
  ord_CanceledAt :: "time option"
  ord_RefundedAt :: "time option"

definition Order_New :: "int64 \<Rightarrow> int64 \<Rightarrow> int64 \<Rightarrow> int64 \<Rightarrow> time \<Rightarrow> Order" where
  "Order_New orderNumber programID userID amountCent now =
     \<lparr>ord_OrderNumber = orderNumber, ord_ProgramID = programID, ord_UserID = userID, ord_TicketCategoryID = 0,
      ord_SeatIDs = [], ord_TicketUserIDs = [], ord_AmountCent = amountCent, ord_Status = StatusNoPay,
      ord_CreatedAt = now, ord_PaidAt = None, ord_CanceledAt = None, ord_RefundedAt = None\<rparr>"

definition Order_MarkPaid :: "time \<Rightarrow> Order \<Rightarrow> error + Order" where
  "Order_MarkPaid now o' =
     (if ord_Status o' = StatusPaid then Inr o'
      else if ord_Status o' = StatusCancel then Inl (New CodeOrderStateConflict ''canceled order must be refunded instead of paid'')
      else if ord_Status o' \<noteq> StatusNoPay then Inl (New CodeOrderStateConflict ''order cannot be paid in current state'')
      else Inr (o'\<lparr>ord_Status := StatusPaid, ord_PaidAt := Some now\<rparr>))"

definition Order_Cancel :: "time \<Rightarrow> Order \<Rightarrow> error + Order" where
  "Order_Cancel now o' =
     (if ord_Status o' = StatusCancel then Inr o'
      else if ord_Status o' \<noteq> StatusNoPay then Inl (New CodeOrderStateConflict ''order cannot be canceled in current state'')
      else Inr (o'\<lparr>ord_Status := StatusCancel, ord_CanceledAt := Some now\<rparr>))"

definition Order_MarkRefund :: "time \<Rightarrow> Order \<Rightarrow> error + Order" where
  "Order_MarkRefund now o' =
     (if ord_Status o' = StatusRefund then Inr o'
      else if ord_Status o' \<noteq> StatusCancel then Inl (New CodeOrderStateConflict ''only canceled order can be refunded'')
      else Inr (o'\<lparr>ord_Status := StatusRefund, ord_RefundedAt := Some now\<rparr>))"

definition Order_TicketCount :: "Order \<Rightarrow> int64" where
  "Order_TicketCount o' = (if ord_SeatIDs o' \<noteq> [] then int (length (ord_SeatIDs o')) else int (length (ord_TicketUserIDs o')))"

record DiscardOrder =
  dis_ID :: int64
  dis_ProgramID :: int64
  dis_OrderNumber :: int64
  dis_UserID :: int64
  dis_TicketCategoryID :: int64
  dis_SeatIDs :: "int64 list"
  dis_TicketUserIDs :: "int64 list"
  dis_AmountCent :: int64
  dis_Reason :: string
  dis_Detail :: string
  dis_Status :: string
  dis_CreatedAt :: time
  dis_RetriedAt :: "time option"

text \<open>How an order may develop: what was ordered stays, and the status follows the state machine.\<close>

definition status_reach :: "Status \<Rightarrow> Status \<Rightarrow> bool" where
  "status_reach a b \<longleftrightarrow> a = b \<or> a = StatusNoPay \<and> b \<in> {StatusPaid, StatusCancel, StatusRefund} \<or> a = StatusCancel \<and> b = StatusRefund"

definition order_evolves :: "Order \<Rightarrow> Order \<Rightarrow> bool" where
  "order_evolves a b \<longleftrightarrow> status_reach (ord_Status a) (ord_Status b)
     \<and> b = a\<lparr>ord_Status := ord_Status b, ord_PaidAt := ord_PaidAt b, ord_CanceledAt := ord_CanceledAt b, ord_RefundedAt := ord_RefundedAt b\<rparr>"

lemma order_evolves_refl [simp]: "order_evolves a a"
  by (simp add: order_evolves_def status_reach_def)

lemma order_evolves_trans: "order_evolves a b \<Longrightarrow> order_evolves b c \<Longrightarrow> order_evolves a c"
  by (cases a; cases b; cases c) (auto simp: order_evolves_def status_reach_def)

lemma transitions_evolve:
  "Order_MarkPaid now a = Inr b \<Longrightarrow> order_evolves a b \<and> ord_Status b = StatusPaid"
  "Order_Cancel now a = Inr b \<Longrightarrow> order_evolves a b \<and> ord_Status b = StatusCancel"
  "Order_MarkRefund now a = Inr b \<Longrightarrow> order_evolves a b \<and> ord_Status b = StatusRefund"
  by (cases a; auto simp: Order_MarkPaid_def Order_Cancel_def Order_MarkRefund_def order_evolves_def status_reach_def split: if_splits)+

lemma order_evolves_keeps:
  assumes "order_evolves a b"
  shows "ord_OrderNumber b = ord_OrderNumber a" "ord_UserID b = ord_UserID a" "ord_AmountCent b = ord_AmountCent a"
    "ord_ProgramID b = ord_ProgramID a" "ord_TicketCategoryID b = ord_TicketCategoryID a"
    "ord_SeatIDs b = ord_SeatIDs a" "ord_TicketUserIDs b = ord_TicketUserIDs a"
proof -
  have "b = a\<lparr>ord_Status := ord_Status b, ord_PaidAt := ord_PaidAt b, ord_CanceledAt := ord_CanceledAt b, ord_RefundedAt := ord_RefundedAt b\<rparr>"
    using assms by (simp add: order_evolves_def)
  note eq = this
  show "ord_OrderNumber b = ord_OrderNumber a" "ord_UserID b = ord_UserID a" "ord_AmountCent b = ord_AmountCent a"
    "ord_ProgramID b = ord_ProgramID a" "ord_TicketCategoryID b = ord_TicketCategoryID a"
    "ord_SeatIDs b = ord_SeatIDs a" "ord_TicketUserIDs b = ord_TicketUserIDs a" by (subst eq, simp)+
qed

section \<open>The in-memory repository\<close>

type_synonym OrderRepository = "(int64 \<times> Order) list"

definition NewOrderRepository :: OrderRepository where
  "NewOrderRepository = []"

definition Repo_Save :: "Order \<Rightarrow> (OrderRepository, unit) go" where
  "Repo_Save item r = (Inr (), AList.update (ord_OrderNumber item) item r)"

definition Repo_FindByOrderNumber :: "int64 \<Rightarrow> int64 \<Rightarrow> (OrderRepository, Order) go" where
  "Repo_FindByOrderNumber orderNumber userID r =
     (case map_of r orderNumber of
        Some item \<Rightarrow> if ord_UserID item \<noteq> userID then (Inl (New CodeNotFound ''order not found''), r) else (Inr item, r)
      | None \<Rightarrow> (Inl (New CodeNotFound ''order not found''), r))"

definition Repo_FindByOrderNumberSystem :: "int64 \<Rightarrow> (OrderRepository, Order) go" where
  "Repo_FindByOrderNumberSystem orderNumber r =
     (case map_of r orderNumber of
        Some item \<Rightarrow> (Inr item, r)
      | None \<Rightarrow> (Inl (New CodeNotFound ''order not found''), r))"

definition Repo_Update :: "Order \<Rightarrow> (OrderRepository, unit) go" where
  "Repo_Update item r =
     (if map_of r (ord_OrderNumber item) = None then (Inl (New CodeNotFound ''order not found''), r)
      else (Inr (), AList.update (ord_OrderNumber item) item r))"

record OrderListCursor =
  cur_CreatedAt :: time
  cur_OrderNumber :: int64

abbreviation no_cursor :: OrderListCursor where
  "no_cursor \<equiv> \<lparr>cur_CreatedAt = 0, cur_OrderNumber = 0\<rparr>"

text \<open>The condition of the loop and the comparison of \<open>sort.Slice\<close>: newest first, larger numbers first.\<close>

definition page_filter :: "int64 \<Rightarrow> Status \<Rightarrow> OrderListCursor \<Rightarrow> Order \<Rightarrow> bool" where
  "page_filter userID status before item \<longleftrightarrow>
     ord_UserID item = userID \<and> (status = [] \<or> ord_Status item = status)
     \<and> (cur_CreatedAt before = 0 \<or> ord_CreatedAt item < cur_CreatedAt before
        \<or> ord_CreatedAt item = cur_CreatedAt before \<and> ord_OrderNumber item < cur_OrderNumber before)"

definition page_key :: "Order \<Rightarrow> int \<times> int" where
  "page_key item = (- ord_CreatedAt item, - ord_OrderNumber item)"

definition Repo_ListByUserIDPage :: "int64 \<Rightarrow> Status \<Rightarrow> OrderListCursor \<Rightarrow> nat \<Rightarrow> (OrderRepository, Order list) go" where
  "Repo_ListByUserIDPage userID status before limit r =
     (Inr (take limit (sort_key page_key (filter (page_filter userID status before) (map snd r)))), r)"

definition Repo_ListByUserID :: "int64 \<Rightarrow> nat \<Rightarrow> (OrderRepository, Order list) go" where
  "Repo_ListByUserID userID limit = Repo_ListByUserIDPage userID [] no_cursor limit"

text \<open>\<open>ListInventoryUsage\<close>: the tickets that unpaid and paid orders of a program occupy, by category.\<close>

definition occupies :: "int64 \<Rightarrow> Order \<Rightarrow> bool" where
  "occupies programID item \<longleftrightarrow> ord_ProgramID item = programID \<and> \<not> ord_TicketCategoryID item \<le> 0
     \<and> (ord_Status item = StatusNoPay \<or> ord_Status item = StatusPaid)"

fun count_usage :: "int64 \<Rightarrow> Order list \<Rightarrow> (int64 \<times> int64) list \<Rightarrow> (int64 \<times> int64) list" where
  "count_usage programID [] counts = counts"
| "count_usage programID (item # items) counts =
     (if occupies programID item then
        count_usage programID items
          (AList.update (ord_TicketCategoryID item)
             (wrap64 ((case map_of counts (ord_TicketCategoryID item) of None \<Rightarrow> 0 | Some n \<Rightarrow> n) + Order_TicketCount item)) counts)
      else count_usage programID items counts)"

definition Repo_ListInventoryUsage :: "int64 \<Rightarrow> (OrderRepository, (int64 \<times> int64) list) go" where
  "Repo_ListInventoryUsage programID r = (Inr (count_usage programID (map snd r) []), r)"

definition repo_ok :: "OrderRepository \<Rightarrow> bool" where
  "repo_ok r \<longleftrightarrow> distinct (map fst r) \<and> (\<forall>(n, item) \<in> set r. ord_OrderNumber item = n)"

lemma repo_ok_lookup: "repo_ok r \<Longrightarrow> map_of r n = Some item \<Longrightarrow> ord_OrderNumber item = n"
  by (auto simp: repo_ok_def dest: map_of_SomeD)

lemma set_update_subset: "set (AList.update k v xs) \<subseteq> insert (k, v) (set xs)"
  by (induction xs) auto

lemma repo_ok_update: "repo_ok r \<Longrightarrow> repo_ok (AList.update (ord_OrderNumber item) item r)"
  using set_update_subset [of "ord_OrderNumber item" item r] by (auto simp: repo_ok_def distinct_update)

end
