(* ===== verification/Locks.thy ===== *)
theory Locks
  imports Redis_Server
begin

text \<open>
  Named locks with a time to live (\<open>src/pkg/lock\<close>): the in-process locker and the Redis locker. A lock is
  a key with a random token; only the holder of the token may release it. The token of an acquisition and
  the clock readings are arguments, since they come from \<open>crypto/rand\<close> and \<open>time.Now\<close>.

  The locale \<open>named_lock\<close> is the contract the clients rely on; both lockers are interpretations of it.
  The timed theorem at the end covers expiry for the in-process locker.
\<close>

section \<open>Contract\<close>

text \<open>
  \<open>holder s k\<close> is the token that currently holds \<open>k\<close>. Acquiring succeeds exactly on a free key; releasing
  frees a key only for the token that holds it.
\<close>

locale named_lock =
  fixes acquire :: "string \<Rightarrow> duration \<Rightarrow> string \<Rightarrow> 's \<Rightarrow> bool \<times> 's"
    and release :: "string \<Rightarrow> string \<Rightarrow> 's \<Rightarrow> 's"
    and holder :: "'s \<Rightarrow> string \<rightharpoonup> string"
    and linv :: "'s \<Rightarrow> bool"
  assumes acquire_taken: "linv s \<Longrightarrow> holder s k \<noteq> None \<Longrightarrow> 0 < ttl \<Longrightarrow>
      fst (acquire k ttl t s) = False \<and> holder (snd (acquire k ttl t s)) = holder s"
    and acquire_free: "linv s \<Longrightarrow> holder s k = None \<Longrightarrow> 0 < ttl \<Longrightarrow>
      fst (acquire k ttl t s) = True \<and> holder (snd (acquire k ttl t s)) = (holder s)(k \<mapsto> t)"
    and release_own: "linv s \<Longrightarrow> holder (release k t s) = (if holder s k = Some t then (holder s)(k := None) else holder s)"
    and acquire_inv: "linv s \<Longrightarrow> 0 < ttl \<Longrightarrow> linv (snd (acquire k ttl t s))"
    and release_inv: "linv s \<Longrightarrow> linv (release k t s)"
begin

text \<open>What other clients do: any acquisitions and releases.\<close>

definition client_step :: "(string \<times> duration \<times> string) + (string \<times> string) \<Rightarrow> 's \<Rightarrow> 's" where
  "client_step op s = (case op of Inl (k, ttl, t) \<Rightarrow> snd (acquire k ttl t s) | Inr (k, t) \<Rightarrow> release k t s)"

definition others_only :: "string \<Rightarrow> string \<Rightarrow> (string \<times> duration \<times> string) + (string \<times> string) \<Rightarrow> bool" where
  "others_only k t op = (case op of Inl (k', ttl, t') \<Rightarrow> 0 < ttl | Inr (k', t') \<Rightarrow> (k', t') \<noteq> (k, t))"

lemma held_until_released:
  assumes "linv s" and "holder s k = Some t" and "list_all (others_only k t) ops"
  shows "linv (fold client_step ops s) \<and> holder (fold client_step ops s) k = Some t"
  using assms
proof (induction ops arbitrary: s)
  case (Cons op ops)
  have "linv (client_step op s) \<and> holder (client_step op s) k = Some t"
  proof (cases op)
    case (Inl a)
    obtain k' ttl t' where a: "a = (k', ttl, t')" by (cases a)
    with Inl Cons.prems have "0 < ttl" by (simp add: others_only_def)
    with Cons.prems acquire_taken [of s k' ttl t'] acquire_free [of s k' ttl t'] acquire_inv [of s ttl k' t'] show ?thesis
      by (cases "holder s k'") (auto simp: client_step_def Inl a)
  next
    case (Inr p)
    with Cons.prems show ?thesis
      by (auto simp: client_step_def others_only_def release_own release_inv split: prod.splits)
  qed
  with Cons show ?case by simp
qed simp

text \<open>While a token holds the key nobody else gets it.\<close>

lemma excluded:
  assumes "linv s" and "holder s k = Some t" and "list_all (others_only k t) ops" and "0 < ttl"
  shows "fst (acquire k ttl t' (fold client_step ops s)) = False"
  using held_until_released [OF assms(1-3)] acquire_taken assms(4) by auto

lemma acquire_release: "linv s \<Longrightarrow> holder s k = None \<Longrightarrow> 0 < ttl \<Longrightarrow> holder (release k t (snd (acquire k ttl t s))) = holder s"
  using acquire_free [of s k ttl t] acquire_inv [of s ttl k t] by (simp add: release_own fun_upd_idem)

end

section \<open>The in-process locker\<close>

record memoryLockState =
  mls_token :: string
  mls_expiresAt :: time

type_synonym MemoryLocker = "string \<rightharpoonup> memoryLockState"

definition NewMemoryLocker :: MemoryLocker where
  "NewMemoryLocker = Map.empty"

record lock_handle =
  lk_key :: string
  lk_token :: string

definition MemoryLocker_Acquire :: "time \<Rightarrow> string \<Rightarrow> string \<Rightarrow> duration \<Rightarrow> (MemoryLocker, lock_handle) go" where
  "MemoryLocker_Acquire now token key ttl l =
     (case l key of
        Some state \<Rightarrow>
          if mls_expiresAt state > now then (Inl (PlainError (''lock '' @ key @ '' is already held'')), l)
          else (Inr \<lparr>lk_key = key, lk_token = token\<rparr>, l(key \<mapsto> \<lparr>mls_token = token, mls_expiresAt = now + ttl\<rparr>))
      | None \<Rightarrow> (Inr \<lparr>lk_key = key, lk_token = token\<rparr>, l(key \<mapsto> \<lparr>mls_token = token, mls_expiresAt = now + ttl\<rparr>)))"

definition memoryLock_Release :: "lock_handle \<Rightarrow> (MemoryLocker, unit) go" where
  "memoryLock_Release h l =
     (case l (lk_key h) of
        None \<Rightarrow> (Inr (), l)
      | Some state \<Rightarrow>
          if mls_token state \<noteq> lk_token h then (Inl (PlainError (''lock token mismatch for '' @ lk_key h)), l)
          else (Inr (), l(lk_key h := None)))"

definition memory_holder :: "time \<Rightarrow> MemoryLocker \<Rightarrow> string \<rightharpoonup> string" where
  "memory_holder now l k = (case l k of Some st \<Rightarrow> if mls_expiresAt st > now then Some (mls_token st) else None | None \<Rightarrow> None)"

definition took :: "error + lock_handle \<Rightarrow> bool" where
  "took r = (case r of Inl e \<Rightarrow> False | Inr h \<Rightarrow> True)"

interpretation memory_lock: named_lock
  "\<lambda>k ttl t l. (took (fst (MemoryLocker_Acquire now t k ttl l)), snd (MemoryLocker_Acquire now t k ttl l))"
  "\<lambda>k t l. snd (memoryLock_Release \<lparr>lk_key = k, lk_token = t\<rparr> l)"
  "memory_holder now" "\<lambda>_. True" for now
  by unfold_locales
    (auto simp: memory_holder_def MemoryLocker_Acquire_def memoryLock_Release_def took_def fun_eq_iff split: option.splits if_splits)

section \<open>The Redis locker\<close>

text \<open>
  \<open>SetNX\<close> of the client library is a parameter: the token is stored under the key with a time to live
  unless the key exists; the flag says whether it was stored.
\<close>

type_synonym 'r set_nx = "string \<Rightarrow> string \<Rightarrow> duration \<Rightarrow> ('r, bool) go"

definition RedisLocker_Acquire :: "'r set_nx \<Rightarrow> string \<Rightarrow> string \<Rightarrow> duration \<Rightarrow> ('r, lock_handle) go" where
  "RedisLocker_Acquire SetNX token key ttl =
     bindG (SetNX key token ttl)
       (\<lambda>ok. if \<not> ok then failG (PlainError ''lock not acquired'') else returnG \<lparr>lk_key = key, lk_token = token\<rparr>)"

definition ReleaseScript :: "'r redis \<Rightarrow> string list \<Rightarrow> string list \<Rightarrow> 'r \<Rightarrow> script_reply \<times> 'r" where
  "ReleaseScript R KEYS ARGV s =
     (if rGET R (KEYS ! 0) s = Some (ARGV ! 0) then (Some 1, rDEL R (KEYS ! 0) s) else (Some 0, s))"

definition redisLock_Release :: "'r redis \<Rightarrow> 'r executor \<Rightarrow> lock_handle \<Rightarrow> ('r, unit) go" where
  "redisLock_Release R exec h = bindG (exec (ReleaseScript R) [lk_key h] [lk_token h]) (\<lambda>_. returnG ())"

definition keyspace_set_nx :: "keyspace set_nx" where
  "keyspace_set_nx k v ttl s = (case rSETNXEX keyspace_redis k v ttl s of (ok, t) \<Rightarrow> (Inr ok, t))"

definition redis_holder :: "keyspace \<Rightarrow> string \<rightharpoonup> string" where
  "redis_holder s k = str_val (ks_val s k)"

definition lock_keys_plain :: "keyspace \<Rightarrow> bool" where
  "lock_keys_plain s \<longleftrightarrow> (\<forall>k. \<not> is_hash (ks_val s k))"

lemma redis_acquire_run:
  "RedisLocker_Acquire keyspace_set_nx t k ttl s =
     (if ks_val s k = None then (Inr \<lparr>lk_key = k, lk_token = t\<rparr>, \<lparr>ks_val = (ks_val s)(k \<mapsto> RString t), ks_ttl = insert k (ks_ttl s)\<rparr>)
      else (Inl (PlainError ''lock not acquired''), s))"
  by (simp add: RedisLocker_Acquire_def keyspace_set_nx_def keyspace_redis_def bindG_def returnG_def failG_def)

lemma redis_release_run:
  "snd (redisLock_Release keyspace_redis direct_exec \<lparr>lk_key = k, lk_token = t\<rparr> s) =
     (if str_val (ks_val s k) = Some t then \<lparr>ks_val = (ks_val s)(k := None), ks_ttl = ks_ttl s - {k}\<rparr> else s)"
  by (simp add: redisLock_Release_def ReleaseScript_def direct_exec_def keyspace_redis_def bindG_def returnG_def)

interpretation redis_lock: named_lock
  "\<lambda>k ttl t l. (took (fst (RedisLocker_Acquire keyspace_set_nx t k ttl l)), snd (RedisLocker_Acquire keyspace_set_nx t k ttl l))"
  "\<lambda>k t l. snd (redisLock_Release keyspace_redis direct_exec \<lparr>lk_key = k, lk_token = t\<rparr> l)"
  redis_holder lock_keys_plain
  by unfold_locales
    (auto simp: redis_acquire_run redis_release_run redis_holder_def took_def lock_keys_plain_def str_val_None fun_eq_iff)

section \<open>Time\<close>

datatype lock_op = AcquireOp string duration string | ReleaseOp string string

fun timed_run :: "(time \<times> lock_op) list \<Rightarrow> MemoryLocker \<Rightarrow> MemoryLocker" where
  "timed_run [] l = l"
| "timed_run ((now, AcquireOp k ttl t) # ops) l = timed_run ops (snd (MemoryLocker_Acquire now t k ttl l))"
| "timed_run ((now, ReleaseOp k t) # ops) l = timed_run ops (snd (memoryLock_Release \<lparr>lk_key = k, lk_token = t\<rparr> l))"

lemma timed_step_keeps:
  assumes "l k = Some \<lparr>mls_token = t, mls_expiresAt = e\<rparr>"
  shows "now < e \<Longrightarrow> snd (MemoryLocker_Acquire now t' k' ttl l) k = Some \<lparr>mls_token = t, mls_expiresAt = e\<rparr>"
    and "(k', t') \<noteq> (k, t) \<Longrightarrow> snd (memoryLock_Release \<lparr>lk_key = k', lk_token = t'\<rparr> l) k = Some \<lparr>mls_token = t, mls_expiresAt = e\<rparr>"
  using assms by (auto simp: MemoryLocker_Acquire_def memoryLock_Release_def split: option.splits if_splits)

lemma timed_run_keeps:
  assumes "l k = Some \<lparr>mls_token = t, mls_expiresAt = e\<rparr>"
    and "\<forall>(now, op) \<in> set ops. now < e \<and> op \<noteq> ReleaseOp k t"
  shows "timed_run ops l k = Some \<lparr>mls_token = t, mls_expiresAt = e\<rparr>"
  using assms
proof (induction ops l rule: timed_run.induct)
  case (2 now k' ttl t' ops l)
  then show ?case by (auto intro: timed_step_keeps)
next
  case (3 now k' t' ops l)
  then show ?case by (auto intro: timed_step_keeps)
qed simp

text \<open>
  An acquired lock excludes everybody else until it expires: after an acquisition at time \<open>t0\<close>, whatever
  other acquisitions and releases happen before \<open>t0 + ttl\<close>, as long as the holder's own token does not
  release it, every further attempt before \<open>t0 + ttl\<close> is refused and changes nothing.
\<close>

theorem lock_excludes_others:
  assumes "MemoryLocker_Acquire t0 token key ttl l = (Inr h, l1)"
    and "\<forall>(now, op) \<in> set ops. now < t0 + ttl \<and> op \<noteq> ReleaseOp key token"
    and "now < t0 + ttl"
  shows "\<exists>e. MemoryLocker_Acquire now token' key ttl' (timed_run ops l1) = (Inl e, timed_run ops l1)"
proof -
  have "l1 key = Some \<lparr>mls_token = token, mls_expiresAt = t0 + ttl\<rparr>"
    using assms(1) by (auto simp: MemoryLocker_Acquire_def split: option.splits if_splits)
  from timed_run_keeps [where l = l1 and k = key, OF this assms(2)] assms(3) show ?thesis by (simp add: MemoryLocker_Acquire_def)
qed

theorem lock_excludes_others_witness:
  "\<exists>e. MemoryLocker_Acquire 104 ''b'' ''order:1'' 5
     (timed_run [(101, ReleaseOp ''order:1'' ''c''), (103, AcquireOp ''order:2'' 5 ''d'')]
        (snd (MemoryLocker_Acquire 100 ''a'' ''order:1'' 5 NewMemoryLocker)))
   = (Inl e, timed_run [(101, ReleaseOp ''order:1'' ''c''), (103, AcquireOp ''order:2'' 5 ''d'')]
        (snd (MemoryLocker_Acquire 100 ''a'' ''order:1'' 5 NewMemoryLocker)))"
proof (rule lock_excludes_others)
  show "MemoryLocker_Acquire 100 ''a'' ''order:1'' 5 NewMemoryLocker =
      (Inr \<lparr>lk_key = ''order:1'', lk_token = ''a''\<rparr>, snd (MemoryLocker_Acquire 100 ''a'' ''order:1'' 5 NewMemoryLocker))"
    by (simp add: MemoryLocker_Acquire_def NewMemoryLocker_def)
qed auto

text \<open>
  The Redis lock excludes everybody else and only its own token frees it: after an acquisition, whatever
  acquisitions and releases other clients make, the key still holds the token and any further attempt on
  it fails and changes nothing; the release by the holder then removes exactly that key.
\<close>

theorem redis_lock_excludes_others:
  assumes "lock_keys_plain s"
    and "RedisLocker_Acquire keyspace_set_nx token key ttl s = (Inr h, s1)"
    and "list_all (redis_lock.others_only key token) ops" and "0 < ttl'"
    and "s2 = fold redis_lock.client_step ops s1"
  shows "ks_val s2 key = Some (RString token)
    \<and> RedisLocker_Acquire keyspace_set_nx token' key ttl' s2 = (Inl (PlainError ''lock not acquired''), s2)
    \<and> ks_val (snd (redisLock_Release keyspace_redis direct_exec h s2)) = (ks_val s2)(key := None)"
proof -
  have s1: "ks_val s key = None" "h = \<lparr>lk_key = key, lk_token = token\<rparr>" "lock_keys_plain s1" "redis_holder s1 key = Some token"
    using assms(1,2) by (auto simp: redis_acquire_run redis_holder_def lock_keys_plain_def split: if_splits)
  from redis_lock.held_until_released [OF s1(3,4) assms(3)] have h: "redis_holder s2 key = Some token" unfolding assms(5) by blast
  then have v: "ks_val s2 key = Some (RString token)"
    by (auto simp: redis_holder_def str_val_def split: option.splits rvalue.splits)
  then show ?thesis by (simp add: s1(2) redis_acquire_run redis_release_run)
qed

theorem redis_lock_excludes_others_witness:
  "ks_val (snd (RedisLocker_Acquire keyspace_set_nx ''a'' ''k'' 5 \<lparr>ks_val = Map.empty, ks_ttl = {}\<rparr>)) ''k'' = Some (RString ''a'')"
  using redis_lock_excludes_others [of "\<lparr>ks_val = Map.empty, ks_ttl = {}\<rparr>" "''a''" "''k''" 5 "\<lparr>lk_key = ''k'', lk_token = ''a''\<rparr>"
      "snd (RedisLocker_Acquire keyspace_set_nx ''a'' ''k'' 5 \<lparr>ks_val = Map.empty, ks_ttl = {}\<rparr>)" "[]" 5]
  by (simp add: lock_keys_plain_def redis_acquire_run)

end
