(* ===== verification/Order_Commands.thy ===== *)
theory Order_Commands
  imports Orders Locks
begin

text \<open>
  The order command service (\<open>src/app/order-service/internal/application/order_command.go\<close>): cancel,
  close when expired, mark paid, payment callback, mark refunded, each under the order's lock.

  The service calls interfaces: the order repository, the program-service seat client, the clock and the
  locker. They are the fields of \<open>order_ports\<close> over a world state \<open>'w\<close>; the locale \<open>order_store\<close> states
  what the service relies on of the repository (over the view \<open>ov\<close> of the stored orders) and that seat
  calls and locks leave the stored orders alone. An error of \<open>Update\<close> may come before or after the write.
  The locale is interpreted on the in-memory repository and locker.

  A Go function that returns a result beside an error is a program whose error carries the result.
\<close>

record 'w order_ports =
  op_FindByOrderNumber :: "int64 \<Rightarrow> int64 \<Rightarrow> ('w, Order) go"
  op_FindByOrderNumberSystem :: "(int64 \<Rightarrow> ('w, Order) go) option"
  op_Update :: "Order \<Rightarrow> ('w, unit) go"
  op_ConfirmSeatsSold :: "int64 \<Rightarrow> int64 \<Rightarrow> int64 \<Rightarrow> int64 list \<Rightarrow> int64 list \<Rightarrow> ('w, unit) go"
  op_ReleaseSeats :: "int64 \<Rightarrow> int64 \<Rightarrow> int64 \<Rightarrow> int64 list \<Rightarrow> int64 list \<Rightarrow> int64 \<Rightarrow> ('w, unit) go"
  op_nowFunc :: "'w \<Rightarrow> time"
  op_locker :: "((string \<Rightarrow> duration \<Rightarrow> ('w, lock_handle) go) \<times> (lock_handle \<Rightarrow> ('w, unit) go)) option"
  op_lockTTL :: duration

record PaymentCallbackResult =
  pcr_Status :: Status
  pcr_RefundRequired :: bool
  pcr_AmountCent :: int64

abbreviation zero_callback :: PaymentCallbackResult where
  "zero_callback \<equiv> \<lparr>pcr_Status = [], pcr_RefundRequired = False, pcr_AmountCent = 0\<rparr>"

definition zero_order :: Order where
  "zero_order = (Order_New 0 0 0 0 0)\<lparr>ord_Status := []\<rparr>"

text \<open>\<open>wrap\<close> turns the error of the locker into the error value of the caller.\<close>

definition withOrderLock :: "'w order_ports \<Rightarrow> int64 \<Rightarrow> (error \<Rightarrow> 'e) \<Rightarrow> ('e, 'w, 'a) prog \<Rightarrow> ('e, 'w, 'a) prog" where
  "withOrderLock P orderNumber wrap fn =
     (case op_locker P of
        None \<Rightarrow> fn
      | Some (Acquire, Release) \<Rightarrow>
          attemptG (Acquire (''tickethub:order-lock:'' @ show_int orderNumber) (op_lockTTL P))
            (\<lambda>r. case r of Inl e \<Rightarrow> failG (wrap e) | Inr locked \<Rightarrow> deferG fn (Release locked)))"

definition cancel :: "'w order_ports \<Rightarrow> int64 \<Rightarrow> int64 \<Rightarrow> ('w, unit) go" where
  "cancel P orderNumber userID =
     bindG (op_FindByOrderNumber P orderNumber userID) (\<lambda>current.
     bindG (getG (op_nowFunc P)) (\<lambda>now.
       case Order_Cancel now current of
         Inl e \<Rightarrow> failG e
       | Inr canceled \<Rightarrow>
           bindG (if ord_Status current = StatusCancel then returnG () else op_Update P canceled) (\<lambda>_.
             op_ReleaseSeats P (ord_OrderNumber canceled) (ord_ProgramID canceled) (ord_TicketCategoryID canceled)
               (ord_SeatIDs canceled) (ord_TicketUserIDs canceled) (Order_TicketCount canceled))))"

definition Cancel :: "'w order_ports \<Rightarrow> int64 \<Rightarrow> int64 \<Rightarrow> ('w, unit) go" where
  "Cancel P orderNumber userID = withOrderLock P orderNumber id (cancel P orderNumber userID)"

definition CloseExpired :: "'w order_ports \<Rightarrow> int64 \<Rightarrow> int64 \<Rightarrow> ('w, unit) go" where
  "CloseExpired P orderNumber userID = withOrderLock P orderNumber id
     (attemptG (op_FindByOrderNumber P orderNumber userID) (\<lambda>r. case r of
        Inl e \<Rightarrow> if IsCode (Some e) CodeNotFound then returnG () else failG e
      | Inr current \<Rightarrow>
          if ord_Status current \<in> {StatusPaid, StatusRefund} then returnG ()
          else if ord_Status current \<in> {StatusNoPay, StatusCancel} then cancel P orderNumber userID
          else failG (New CodeOrderStateConflict ''order cannot be closed in current state'')))"

text \<open>\<open>persistPaid\<close> returns the order it was given a pointer to, as it left it.\<close>

definition persistPaid :: "'w order_ports \<Rightarrow> Order \<Rightarrow> ('w, Order) go" where
  "persistPaid P current =
     bindG (getG (op_nowFunc P)) (\<lambda>now.
       case Order_MarkPaid now current of
         Inl e \<Rightarrow> failG e
       | Inr paid \<Rightarrow>
           bindG (if ord_Status current = StatusPaid then returnG () else op_Update P paid) (\<lambda>_.
           bindG (op_ConfirmSeatsSold P (ord_OrderNumber paid) (ord_ProgramID paid) (ord_TicketCategoryID paid)
                    (ord_SeatIDs paid) (ord_TicketUserIDs paid)) (\<lambda>_.
             returnG paid)))"

definition MarkPaid :: "'w order_ports \<Rightarrow> int64 \<Rightarrow> int64 \<Rightarrow> ('w, unit) go" where
  "MarkPaid P orderNumber userID = withOrderLock P orderNumber id
     (bindG (op_FindByOrderNumber P orderNumber userID) (\<lambda>current.
      bindG (persistPaid P current) (\<lambda>_. returnG ())))"

definition findSystemOrder :: "'w order_ports \<Rightarrow> int64 \<Rightarrow> ('w, Order) go" where
  "findSystemOrder P orderNumber = (case op_FindByOrderNumberSystem P of
     None \<Rightarrow> failG (New CodeInfrastructure ''system order lookup is not supported'')
   | Some repo \<Rightarrow> repo orderNumber)"

definition HandlePaymentCallback ::
  "'w order_ports \<Rightarrow> int64 \<Rightarrow> int64 \<Rightarrow> bool \<Rightarrow> (error \<times> PaymentCallbackResult, 'w, PaymentCallbackResult) prog" where
  "HandlePaymentCallback P orderNumber amountCent paid = withOrderLock P orderNumber (\<lambda>e. (e, zero_callback))
     (attemptG (findSystemOrder P orderNumber) (\<lambda>r. case r of
        Inl e \<Rightarrow> failG (e, zero_callback)
      | Inr current \<Rightarrow>
          (let result = \<lparr>pcr_Status = ord_Status current, pcr_RefundRequired = False, pcr_AmountCent = ord_AmountCent current\<rparr> in
           if amountCent \<noteq> ord_AmountCent current then
             failG (New CodeInvalidArgument ''payment amount does not match order amount'', result)
           else if \<not> paid then returnG result
           else if ord_Status current = StatusCancel then returnG (result\<lparr>pcr_RefundRequired := True\<rparr>)
           else if ord_Status current = StatusRefund then returnG result
           else if ord_Status current \<in> {StatusNoPay, StatusPaid} then
             attemptG (persistPaid P current) (\<lambda>r. case r of
                Inl e \<Rightarrow> failG (e, result)
              | Inr saved \<Rightarrow> returnG (result\<lparr>pcr_Status := ord_Status saved\<rparr>))
           else failG (New CodeOrderStateConflict ''order cannot accept payment callback in current state'', result))))"

definition MarkRefunded :: "'w order_ports \<Rightarrow> int64 \<Rightarrow> (error \<times> Order, 'w, Order) prog" where
  "MarkRefunded P orderNumber = withOrderLock P orderNumber (\<lambda>e. (e, zero_order))
     (attemptG (findSystemOrder P orderNumber) (\<lambda>r. case r of
        Inl e \<Rightarrow> failG (e, zero_order)
      | Inr found \<Rightarrow>
          bindG (getG (op_nowFunc P)) (\<lambda>now.
            case Order_MarkRefund now found of
              Inl e \<Rightarrow> failG (e, found)
            | Inr refunded \<Rightarrow>
                if ord_Status found = StatusRefund then returnG refunded
                else attemptG (op_Update P refunded) (\<lambda>r. case r of
                   Inl e \<Rightarrow> failG (e, refunded)
                 | Inr _ \<Rightarrow> returnG refunded))))"

section \<open>A frame rule\<close>

text \<open>What every call of the ports keeps, the commands keep.\<close>

definition ports_keep :: "('w \<Rightarrow> 'w \<Rightarrow> bool) \<Rightarrow> 'w order_ports \<Rightarrow> bool" where
  "ports_keep R P \<longleftrightarrow> (\<forall>n u. keepsG R (op_FindByOrderNumber P n u))
     \<and> (\<forall>f n. op_FindByOrderNumberSystem P = Some f \<longrightarrow> keepsG R (f n)) \<and> (\<forall>item. keepsG R (op_Update P item))
     \<and> (\<forall>n p c seats tus. keepsG R (op_ConfirmSeatsSold P n p c seats tus))
     \<and> (\<forall>n p c seats tus count. keepsG R (op_ReleaseSeats P n p c seats tus count))
     \<and> (\<forall>a r. op_locker P = Some (a, r) \<longrightarrow> (\<forall>k ttl. keepsG R (a k ttl)) \<and> (\<forall>h. keepsG R (r h)))"

context state_preorder
begin

lemma keeps_option: "(x = None \<Longrightarrow> keepsG R m) \<Longrightarrow> (\<And>y. x = Some y \<Longrightarrow> keepsG R (f y)) \<Longrightarrow> keepsG R (case x of None \<Rightarrow> m | Some y \<Rightarrow> f y)"
  by (cases x) auto

lemma keeps_sum: "(\<And>e. x = Inl e \<Longrightarrow> keepsG R (g e)) \<Longrightarrow> (\<And>y. x = Inr y \<Longrightarrow> keepsG R (f y)) \<Longrightarrow> keepsG R (case x of Inl e \<Rightarrow> g e | Inr y \<Rightarrow> f y)"
  by (cases x) auto

lemma keeps_if: "(b \<Longrightarrow> keepsG R m) \<Longrightarrow> (\<not> b \<Longrightarrow> keepsG R m') \<Longrightarrow> keepsG R (if b then m else m')"
  by simp

lemmas keeps_rules = keeps_bind keeps_attempt keeps_defer keeps_return keeps_fail keeps_get keeps_option keeps_sum keeps_if

lemma order_commands_keep:
  assumes P: "ports_keep R P"
  shows "keepsG R (cancel P n u)" and "keepsG R (persistPaid P item)" and "keepsG R (findSystemOrder P n)"
    and "keepsG R fn \<Longrightarrow> keepsG R (withOrderLock P n wr fn)"
    and "keepsG R (HandlePaymentCallback P n amount paid)" and "keepsG R (MarkRefunded P n)"
    and "keepsG R (Cancel P n u)" and "keepsG R (CloseExpired P n u)"
proof -
  note ports = P [unfolded ports_keep_def]
  show c: "keepsG R (cancel P n u)" for n u unfolding cancel_def by (intro keeps_rules) (use ports in auto)
  show p: "keepsG R (persistPaid P item)" for item unfolding persistPaid_def by (intro keeps_rules) (use ports in auto)
  show f: "keepsG R (findSystemOrder P n)" for n unfolding findSystemOrder_def by (intro keeps_rules) (use ports in auto)
  show "keepsG R fn \<Longrightarrow> keepsG R (withOrderLock P n wr fn)"
    unfolding withOrderLock_def using ports by (auto split: option.splits prod.splits intro!: keeps_rules)
  show "keepsG R (HandlePaymentCallback P n amount paid)"
    unfolding HandlePaymentCallback_def withOrderLock_def Let_def using ports
    by (auto split: option.splits prod.splits intro!: keeps_rules p f)
  show "keepsG R (MarkRefunded P n)"
    unfolding MarkRefunded_def withOrderLock_def using ports by (auto split: option.splits prod.splits intro!: keeps_rules f)
  show "keepsG R (Cancel P n u)"
    unfolding Cancel_def withOrderLock_def using ports by (auto split: option.splits prod.splits intro!: keeps_rules c)
  show "keepsG R (CloseExpired P n u)"
    unfolding CloseExpired_def withOrderLock_def using ports by (auto split: option.splits prod.splits intro!: keeps_rules c)
qed

end

section \<open>What the service relies on\<close>

definition keeps_orders :: "('w \<Rightarrow> bool) \<Rightarrow> ('w \<Rightarrow> int64 \<rightharpoonup> Order) \<Rightarrow> ('e, 'w, 'a) prog \<Rightarrow> bool" where
  "keeps_orders oinv ov m \<longleftrightarrow> (\<forall>w. oinv w \<longrightarrow> oinv (snd (m w)) \<and> ov (snd (m w)) = ov w)"

locale order_store =
  fixes P :: "'w order_ports" and ov :: "'w \<Rightarrow> int64 \<rightharpoonup> Order" and oinv :: "'w \<Rightarrow> bool"
  assumes find_keeps: "keeps_orders oinv ov (op_FindByOrderNumber P n u)"
    and find_result: "oinv w \<Longrightarrow> fst (op_FindByOrderNumber P n u w) = Inr item \<Longrightarrow>
      ov w n = Some item \<and> ord_OrderNumber item = n \<and> ord_UserID item = u"
    and system_keeps: "op_FindByOrderNumberSystem P = Some f \<Longrightarrow> keeps_orders oinv ov (f n)"
    and system_result: "op_FindByOrderNumberSystem P = Some f \<Longrightarrow> oinv w \<Longrightarrow> fst (f n w) = Inr item \<Longrightarrow>
      ov w n = Some item \<and> ord_OrderNumber item = n"
    and update_inv: "oinv w \<Longrightarrow> oinv (snd (op_Update P item w))"
    and update_ok: "oinv w \<Longrightarrow> fst (op_Update P item w) = Inr () \<Longrightarrow>
      ov (snd (op_Update P item w)) = (ov w)(ord_OrderNumber item \<mapsto> item)"
    and update_err: "oinv w \<Longrightarrow> fst (op_Update P item w) = Inl e \<Longrightarrow>
      ov (snd (op_Update P item w)) \<in> {ov w, (ov w)(ord_OrderNumber item \<mapsto> item)}"
    and seats_keep: "keeps_orders oinv ov (op_ConfirmSeatsSold P n p c seats tus)"
      "keeps_orders oinv ov (op_ReleaseSeats P n p c seats tus count)"
    and locks_keep: "op_locker P = Some (Acquire, Release) \<Longrightarrow> keeps_orders oinv ov (Acquire k ttl)"
      "op_locker P = Some (Acquire, Release) \<Longrightarrow> keeps_orders oinv ov (Release h)"
begin

text \<open>Orders develop along the state machine and none appears or disappears.\<close>

definition evolves :: "'w \<Rightarrow> 'w \<Rightarrow> bool" where
  "evolves w w' \<longleftrightarrow> (oinv w \<longrightarrow> oinv w' \<and> (\<forall>n. rel_option order_evolves (ov w n) (ov w' n)))"

lemma rel_option_evolves_trans:
  "rel_option order_evolves a b \<Longrightarrow> rel_option order_evolves b c \<Longrightarrow> rel_option order_evolves a c"
  by (cases a; cases b; cases c) (auto intro: order_evolves_trans)

sublocale ev: state_preorder evolves
proof
  show "evolves s s" for s by (auto simp: evolves_def option.rel_refl)
  show "evolves s t \<Longrightarrow> evolves t u \<Longrightarrow> evolves s u" for s t u
    unfolding evolves_def by (meson rel_option_evolves_trans)
qed

lemma keeps_evolves: "keeps_orders oinv ov m \<Longrightarrow> keepsG evolves m"
  by (auto simp: keeps_orders_def keepsG_def evolves_def option.rel_refl)

lemma keeps_state: "keeps_orders oinv ov m \<Longrightarrow> m w = (r, w') \<Longrightarrow> oinv w \<Longrightarrow> oinv w' \<and> ov w' = ov w"
  by (metis keeps_orders_def snd_conv)

lemma update_evolves:
  assumes "ov w n = Some item" and "ord_OrderNumber item = n" and "order_evolves item item'"
  shows "evolves w (snd (op_Update P item' w))"
proof -
  have n: "ord_OrderNumber item' = n" using assms order_evolves_keeps(1) by metis
  have "rel_option order_evolves (ov w m) (((ov w)(n \<mapsto> item')) m)" for m
    using assms by (auto simp: option.rel_refl)
  moreover have "rel_option order_evolves (ov w m) (ov w m)" for m by (auto simp: option.rel_refl)
  ultimately show ?thesis
    using update_inv [of w item'] update_ok [of w item'] update_err [of w item'] n
    by (cases "fst (op_Update P item' w)") (auto simp: evolves_def)
qed

lemma found_then:
  assumes "\<And>w item. ov w n = Some item \<Longrightarrow> ord_OrderNumber item = n \<Longrightarrow> evolves w (snd (f item w))"
  shows "keepsG evolves (bindG (op_FindByOrderNumber P n u) f)"
proof -
  have "evolves w (snd (bindG (op_FindByOrderNumber P n u) f w))" for w
  proof (cases "op_FindByOrderNumber P n u w")
    case (Pair r w')
    with keeps_state [OF find_keeps Pair] keeps_evolves [OF find_keeps, of n u] find_result [of w n u] assms [of w'] show ?thesis
      by (cases r) (auto simp: bindG_def keepsG_def evolves_def)
  qed
  then show ?thesis by (simp add: keepsG_def)
qed

lemma system_found_then:
  assumes "\<And>w item. ov w n = Some item \<Longrightarrow> ord_OrderNumber item = n \<Longrightarrow> evolves w (snd (f (Inr item) w))"
    and "\<And>e. keepsG evolves (f (Inl e))"
  shows "keepsG evolves (attemptG (findSystemOrder P n) f)"
proof (cases "op_FindByOrderNumberSystem P")
  case None
  then show ?thesis
    using assms(2) by (auto simp: findSystemOrder_def attemptG_def failG_def keepsG_def)
next
  case (Some g)
  have "evolves w (snd (attemptG (g n) f w))" for w
  proof (cases "g n w")
    case (Pair r w')
    have step: "evolves w w'" using keeps_evolves [OF system_keeps [OF Some, of n]] Pair by (metis keepsG_def snd_conv)
    show ?thesis
    proof (cases r)
      case (Inl e)
      with assms(2) [of e] step Pair show ?thesis by (auto simp: attemptG_def keepsG_def intro: ev.R_trans)
    next
      case (Inr item)
      with keeps_state [OF system_keeps [OF Some] Pair] system_result [OF Some, of w n item] assms(1) [of w' item] Pair show ?thesis
        by (auto simp: attemptG_def evolves_def)
    qed
  qed
  with Some show ?thesis by (simp add: findSystemOrder_def keepsG_def)
qed

lemma lock_evolves: "keepsG evolves fn \<Longrightarrow> keepsG evolves (withOrderLock P n wr fn)"
proof (cases "op_locker P")
  case (Some ar)
  then obtain Acquire Release where l: "op_locker P = Some (Acquire, Release)" by (cases ar) auto
  assume "keepsG evolves fn"
  then show ?thesis
    unfolding withOrderLock_def l option.case prod.case
    by (intro ev.keeps_attempt keeps_evolves [OF locks_keep(1) [OF l]])
      (auto split: sum.splits intro: ev.keeps_fail ev.keeps_defer keeps_evolves [OF locks_keep(2) [OF l]])
qed (simp add: withOrderLock_def)

lemma maybe_update_evolves:
  assumes "ov w n = Some item" and "ord_OrderNumber item = n" and "order_evolves item item'"
  shows "evolves w (snd ((if b then returnG () else op_Update P item') w))"
  using update_evolves [OF assms] by (simp add: returnG_def ev.R_refl)

lemma cancel_evolves: "keepsG evolves (cancel P n u)"
  unfolding cancel_def
proof (rule found_then)
  fix w item assume found: "ov w n = Some item" "ord_OrderNumber item = n"
  show "evolves w (snd (bindG (getG (op_nowFunc P)) (\<lambda>now. case Order_Cancel now item of Inl e \<Rightarrow> failG e
      | Inr canceled \<Rightarrow> bindG (if ord_Status item = StatusCancel then returnG () else op_Update P canceled) (\<lambda>_.
             op_ReleaseSeats P (ord_OrderNumber canceled) (ord_ProgramID canceled) (ord_TicketCategoryID canceled)
               (ord_SeatIDs canceled) (ord_TicketUserIDs canceled) (Order_TicketCount canceled))) w))"
  proof (cases "Order_Cancel (op_nowFunc P w) item")
    case (Inr canceled)
    show ?thesis
      unfolding getG_bind Inr sum.case
      by (intro ev.step_bind maybe_update_evolves [OF found] keeps_evolves seats_keep transitions_evolve(2) [OF Inr, THEN conjunct1])
  qed (simp add: getG_bind failG_def ev.R_refl)
qed

lemma persist_evolves:
  assumes "ov w n = Some item" and "ord_OrderNumber item = n"
  shows "evolves w (snd (persistPaid P item w))"
proof (cases "Order_MarkPaid (op_nowFunc P w) item")
  case (Inr paid)
  show ?thesis
    unfolding persistPaid_def getG_bind Inr sum.case
    by (intro ev.step_bind maybe_update_evolves [OF assms] ev.keeps_bind ev.keeps_return keeps_evolves seats_keep
        transitions_evolve(1) [OF Inr, THEN conjunct1])
qed (simp add: persistPaid_def getG_bind failG_def ev.R_refl)

lemma refund_evolves:
  assumes "ov w n = Some item" and "ord_OrderNumber item = n"
  shows "evolves w (snd ((case Order_MarkRefund (op_nowFunc P w) item of
              Inl e \<Rightarrow> failG (e, item)
            | Inr refunded \<Rightarrow>
                if ord_Status item = StatusRefund then returnG refunded
                else attemptG (op_Update P refunded) (\<lambda>r. case r of Inl e \<Rightarrow> failG (e, refunded) | Inr _ \<Rightarrow> returnG refunded)) w))"
proof (cases "Order_MarkRefund (op_nowFunc P w) item")
  case (Inr refunded)
  have "evolves w (snd (attemptG (op_Update P refunded) (\<lambda>r. case r of Inl e \<Rightarrow> failG (e, refunded) | Inr _ \<Rightarrow> returnG refunded) w))"
    using transitions_evolve(3) [OF Inr]
    by (intro ev.step_attempt update_evolves [OF assms]) (auto split: sum.splits intro: ev.keeps_intros)
  with Inr show ?thesis by (simp add: returnG_def ev.R_refl)
qed (simp add: failG_def ev.R_refl)

lemma callback_evolves:
  assumes "ov w n = Some item" and "ord_OrderNumber item = n"
  shows "evolves w (snd ((attemptG (persistPaid P item) (\<lambda>r. case r of Inl e \<Rightarrow> failG (e, res) | Inr saved \<Rightarrow> returnG (g saved))) w))"
  by (intro ev.step_attempt persist_evolves [OF assms]) (auto split: sum.splits intro: ev.keeps_intros)

lemma commands_evolve:
  "keepsG evolves (Cancel P n u)" "keepsG evolves (CloseExpired P n u)" "keepsG evolves (MarkPaid P n u)"
  "keepsG evolves (HandlePaymentCallback P n amount paid)" "keepsG evolves (MarkRefunded P n)"
proof -
  show "keepsG evolves (Cancel P n u)"
    unfolding Cancel_def by (intro lock_evolves cancel_evolves)
  show "keepsG evolves (CloseExpired P n u)"
    unfolding CloseExpired_def
    by (intro lock_evolves ev.keeps_attempt keeps_evolves [OF find_keeps])
      (auto simp: cancel_evolves ev.keeps_return ev.keeps_fail split: sum.splits)
  show "keepsG evolves (MarkPaid P n u)"
    unfolding MarkPaid_def by (intro lock_evolves found_then ev.step_bind persist_evolves ev.keeps_intros)
  show "keepsG evolves (HandlePaymentCallback P n amount paid)"
    unfolding HandlePaymentCallback_def
    by (rule lock_evolves, rule system_found_then)
      (auto simp: Let_def failG_def returnG_def ev.R_refl ev.keeps_fail intro: callback_evolves)
  show "keepsG evolves (MarkRefunded P n)"
    unfolding MarkRefunded_def
    by (rule lock_evolves, rule system_found_then)
      (auto simp: getG_bind refund_evolves ev.keeps_fail)
qed

subsection \<open>What a successful command has done\<close>

lemma lock_result:
  assumes "withOrderLock P n wr fn w = (r, w')" and "oinv w"
  obtains (refused) e where "r = Inl (wr e)" "ov w' = ov w" "oinv w'"
  | (ran) w1 w2 where "oinv w1" "ov w1 = ov w" "fn w1 = (r, w2)" "oinv w2 \<longrightarrow> ov w' = ov w2 \<and> oinv w'"
proof (cases "op_locker P")
  case None
  with assms ran [of w w'] show thesis by (simp add: withOrderLock_def)
next
  case (Some ar)
  then obtain Acquire Release where l: "op_locker P = Some (Acquire, Release)" by (cases ar) auto
  obtain ra w1 where a: "Acquire (''tickethub:order-lock:'' @ show_int n) (op_lockTTL P) w = (ra, w1)" by (metis surj_pair)
  note w1 = keeps_state [OF locks_keep(1) [OF l] a assms(2)]
  show thesis
  proof (cases ra)
    case (Inl e)
    with assms(1) w1 a show thesis by (intro refused [of e]) (auto simp: withOrderLock_def l attemptG_def failG_def)
  next
    case (Inr h)
    obtain r2 w2 where f: "fn w1 = (r2, w2)" by (metis surj_pair)
    with Inr assms(1) a have w': "r = r2" "w' = snd (Release h w2)" by (auto simp: withOrderLock_def l attemptG_def deferG_def)
    show thesis
      using locks_keep(2) [OF l, of h] w1 f w' by (intro ran [of w1 w2]) (auto simp: keeps_orders_def)
  qed
qed

lemma maybe_update_result:
  assumes "(if b then returnG () else op_Update P item') w = (Inr (), w')" and "oinv w"
    and "ov w n = Some item" "ord_OrderNumber item' = n" and "b \<Longrightarrow> item' = item"
  shows "oinv w' \<and> ov w' = (ov w)(n \<mapsto> item')"
  using assms update_inv [of w item'] update_ok [of w item'] by (auto simp: returnG_def fun_upd_idem split: if_splits)

lemma persist_result:
  assumes "persistPaid P item w = (Inr item', w')" and "oinv w" and "ov w n = Some item" and "ord_OrderNumber item = n"
  shows "oinv w' \<and> ov w' = (ov w)(n \<mapsto> item') \<and> order_evolves item item' \<and> ord_Status item' = StatusPaid
    \<and> ord_Status item \<in> {StatusNoPay, StatusPaid}
    \<and> (\<exists>wa wb. op_ConfirmSeatsSold P n (ord_ProgramID item) (ord_TicketCategoryID item) (ord_SeatIDs item) (ord_TicketUserIDs item) wa = (Inr (), wb))"
proof -
  from assms(1) obtain paid w1 w2 where p: "Order_MarkPaid (op_nowFunc P w) item = Inr paid" "paid = item'"
    and u: "(if ord_Status item = StatusPaid then returnG () else op_Update P paid) w = (Inr (), w1)"
    and c: "op_ConfirmSeatsSold P (ord_OrderNumber paid) (ord_ProgramID paid) (ord_TicketCategoryID paid)
                    (ord_SeatIDs paid) (ord_TicketUserIDs paid) w1 = (Inr (), w')"
    unfolding persistPaid_def getG_bind
    by (auto simp: failG_def returnG_def split: sum.splits elim!: bindG_result)
  note ev = transitions_evolve(1) [OF p(1), THEN conjunct1]
  note k = order_evolves_keeps [OF ev]
  have st: "ord_Status item = StatusPaid \<Longrightarrow> paid = item" "ord_Status item \<in> {StatusNoPay, StatusPaid}"
    using p(1) by (auto simp: Order_MarkPaid_def split: if_splits)
  from maybe_update_result [OF u assms(2,3) _ st(1)] k assms(4) have "oinv w1" "ov w1 = (ov w)(n \<mapsto> paid)" by auto
  with keeps_state [OF seats_keep(1) c] c k st(2) p(2) assms(4) ev transitions_evolve(1) [OF p(1)] show ?thesis by auto
qed

lemma find_run:
  assumes "op_FindByOrderNumber P n u w = (Inr item, w')" and "oinv w"
  shows "oinv w' \<and> ov w' = ov w \<and> ov w n = Some item \<and> ord_OrderNumber item = n \<and> ord_UserID item = u"
  using keeps_state [OF find_keeps assms] find_result [OF assms(2), of n u item] assms(1) by simp

lemma cancel_result:
  assumes "cancel P n u w = (Inr (), w')" and "oinv w"
  shows "oinv w' \<and> (\<exists>item item'. ov w n = Some item \<and> ord_UserID item = u \<and> ord_Status item \<in> {StatusNoPay, StatusCancel}
    \<and> ov w' = (ov w)(n \<mapsto> item') \<and> order_evolves item item' \<and> ord_Status item' = StatusCancel
    \<and> (\<exists>wa wb. op_ReleaseSeats P n (ord_ProgramID item) (ord_TicketCategoryID item) (ord_SeatIDs item) (ord_TicketUserIDs item)
          (Order_TicketCount item) wa = (Inr (), wb)))"
proof -
  from assms(1) obtain item w1 canceled w2 where f: "op_FindByOrderNumber P n u w = (Inr item, w1)"
    and p: "Order_Cancel (op_nowFunc P w1) item = Inr canceled"
    and upd: "(if ord_Status item = StatusCancel then returnG () else op_Update P canceled) w1 = (Inr (), w2)"
    and rel: "op_ReleaseSeats P (ord_OrderNumber canceled) (ord_ProgramID canceled) (ord_TicketCategoryID canceled)
               (ord_SeatIDs canceled) (ord_TicketUserIDs canceled) (Order_TicketCount canceled) w2 = (Inr (), w')"
    unfolding cancel_def
    by (auto simp: getG_def failG_def split: sum.splits elim!: bindG_result)
  note found = find_run [OF f assms(2)]
  note ev = transitions_evolve(2) [OF p]
  note k = order_evolves_keeps [OF ev [THEN conjunct1]]
  have st: "ord_Status item = StatusCancel \<Longrightarrow> canceled = item" "ord_Status item \<in> {StatusNoPay, StatusCancel}"
    using p by (auto simp: Order_Cancel_def split: if_splits)
  have cnt: "Order_TicketCount canceled = Order_TicketCount item" using k by (simp add: Order_TicketCount_def)
  from maybe_update_result [OF upd _ _ _ st(1)] found k have w2: "oinv w2" "ov w2 = (ov w)(n \<mapsto> canceled)" by auto
  with keeps_state [OF seats_keep(2) rel] rel k cnt found st(2) ev show ?thesis by auto
qed

lemma callback_result:
  assumes "HandlePaymentCallback P n amount paid w = (Inr res, w')" and "oinv w"
  shows "\<exists>item item'. ov w n = Some item \<and> ov w' = (ov w)(n \<mapsto> item') \<and> order_evolves item item'
    \<and> amount = ord_AmountCent item \<and> res = \<lparr>pcr_Status = ord_Status item', pcr_RefundRequired = (paid \<and> ord_Status item = StatusCancel), pcr_AmountCent = amount\<rparr>
    \<and> (if paid \<and> ord_Status item \<in> {StatusNoPay, StatusPaid} then ord_Status item' = StatusPaid
         \<and> (\<exists>wa wb. op_ConfirmSeatsSold P n (ord_ProgramID item) (ord_TicketCategoryID item) (ord_SeatIDs item) (ord_TicketUserIDs item) wa = (Inr (), wb))
       else item' = item)"
  using assms(1)[unfolded HandlePaymentCallback_def] assms(2)
proof (cases rule: lock_result)
  case (ran w1 w2)
  then obtain g where g: "op_FindByOrderNumberSystem P = Some g"
    by (auto simp: attemptG_def findSystemOrder_def failG_def split: option.splits)
  with ran(3) obtain item w3 where f: "g n w1 = (Inr item, w3)"
    by (auto simp: attemptG_def findSystemOrder_def failG_def split: prod.splits sum.splits)
  from keeps_state [OF system_keeps [OF g] f ran(1)] system_result [OF g ran(1), of n item] f
  have w3: "oinv w3" "ov w3 = ov w" "ov w n = Some item" "ord_OrderNumber item = n" using ran(2) by auto
  have idem: "(ov w)(n \<mapsto> item) = ov w" using w3(3) by (simp add: fun_upd_idem)
  show ?thesis
  proof (cases "amount = ord_AmountCent item \<and> paid \<and> ord_Status item \<in> {StatusNoPay, StatusPaid}")
    case True
    with ran(3) f g obtain item' where p: "persistPaid P item w3 = (Inr item', w2)"
      "res = \<lparr>pcr_Status = ord_Status item', pcr_RefundRequired = False, pcr_AmountCent = ord_AmountCent item\<rparr>"
      by (auto simp: attemptG_def findSystemOrder_def failG_def returnG_def Let_def split: prod.splits sum.splits if_splits)
    from persist_result [OF p(1) w3(1) _ w3(4)] w3 True p(2) ran(4) show ?thesis
      by (intro exI [of _ item] exI [of _ item']) auto
  next
    case False
    with ran(3) f g have "w2 = w3" "amount = ord_AmountCent item"
      "res = \<lparr>pcr_Status = ord_Status item, pcr_RefundRequired = (paid \<and> ord_Status item = StatusCancel), pcr_AmountCent = amount\<rparr>"
      by (auto simp: attemptG_def findSystemOrder_def failG_def returnG_def Let_def split: prod.splits sum.splits if_splits)
    with False w3 ran(4) show ?thesis by (intro exI [of _ item]) (auto simp: idem)
  qed
qed simp

lemma Cancel_result:
  assumes "Cancel P n u w = (Inr (), w')" and "oinv w"
  shows "\<exists>item item'. ov w n = Some item \<and> ord_UserID item = u \<and> ord_Status item \<in> {StatusNoPay, StatusCancel}
    \<and> ov w' = (ov w)(n \<mapsto> item') \<and> order_evolves item item' \<and> ord_Status item' = StatusCancel
    \<and> (\<exists>wa wb. op_ReleaseSeats P n (ord_ProgramID item) (ord_TicketCategoryID item) (ord_SeatIDs item) (ord_TicketUserIDs item)
          (Order_TicketCount item) wa = (Inr (), wb))"
  using assms [unfolded Cancel_def]
proof (cases rule: lock_result)
  case (ran w1 w2)
  with cancel_result [OF ran(3,1)] show ?thesis by fastforce
qed simp

lemma CloseExpired_result:
  assumes "CloseExpired P n u w = (Inr (), w')" and "oinv w" and "ov w n = Some item"
  shows "\<exists>item'. ov w' = (ov w)(n \<mapsto> item') \<and> order_evolves item item'
    \<and> (ord_Status item \<in> {StatusPaid, StatusRefund} \<longrightarrow> item' = item)"
  using assms(1) [unfolded CloseExpired_def] assms(2)
proof (cases rule: lock_result)
  case (ran w1 w2)
  have idem: "(ov w)(n \<mapsto> item) = ov w" using assms(3) by (simp add: fun_upd_idem)
  obtain r w3 where f: "op_FindByOrderNumber P n u w1 = (r, w3)" by (metis surj_pair)
  note k = keeps_state [OF find_keeps f ran(1)]
  show ?thesis
  proof (cases r)
    case (Inl e)
    with ran(3) f have "w2 = w3" by (auto simp: attemptG_def failG_def returnG_def split: if_splits)
    with k ran(2,4) show ?thesis by (intro exI [of _ item]) (simp add: idem)
  next
    case (Inr found)
    with find_run [OF f [unfolded Inr] ran(1)] ran(2) assms(3) have [simp]: "found = item" by simp
    show ?thesis
    proof (cases "ord_Status item \<in> {StatusNoPay, StatusCancel}")
      case True
      with ran(3) f Inr have "cancel P n u w3 = (Inr (), w2)" by (auto simp: attemptG_def split: if_splits)
      from cancel_result [OF this] k ran(2,4) assms(3) True show ?thesis by auto
    next
      case False
      with ran(3) f Inr have "w2 = w3" by (auto simp: attemptG_def failG_def returnG_def split: if_splits)
      with k ran(2,4) show ?thesis by (intro exI [of _ item]) (simp add: idem)
    qed
  qed
qed simp

lemma MarkRefunded_result:
  assumes "MarkRefunded P n w = (Inr item', w')" and "oinv w"
  shows "\<exists>item. ov w n = Some item \<and> ord_Status item \<in> {StatusCancel, StatusRefund} \<and> ov w' = (ov w)(n \<mapsto> item')
    \<and> order_evolves item item' \<and> ord_Status item' = StatusRefund"
  using assms(1) [unfolded MarkRefunded_def] assms(2)
proof (cases rule: lock_result)
  case (ran w1 w2)
  then obtain g where g: "op_FindByOrderNumberSystem P = Some g"
    by (auto simp: attemptG_def findSystemOrder_def failG_def split: option.splits)
  with ran(3) obtain item w3 where f: "g n w1 = (Inr item, w3)"
    by (auto simp: attemptG_def findSystemOrder_def failG_def split: prod.splits sum.splits)
  from keeps_state [OF system_keeps [OF g] f ran(1)] system_result [OF g ran(1), of n item] f
  have w3: "oinv w3" "ov w3 = ov w" "ov w n = Some item" "ord_OrderNumber item = n" using ran(2) by auto
  from ran(3) f g have p: "Order_MarkRefund (op_nowFunc P w3) item = Inr item'"
    and u: "(if ord_Status item = StatusRefund then returnG () else op_Update P item') w3 = (Inr (), w2)"
    by (auto simp: attemptG_def findSystemOrder_def getG_bind failG_def returnG_def split: prod.splits sum.splits if_splits)
  note ev = transitions_evolve(3) [OF p]
  have st: "ord_Status item = StatusRefund \<Longrightarrow> item' = item" "ord_Status item \<in> {StatusCancel, StatusRefund}"
    using p by (auto simp: Order_MarkRefund_def split: if_splits)
  have "ord_OrderNumber item' = n" using order_evolves_keeps(1) [OF ev [THEN conjunct1]] w3(4) by simp
  with maybe_update_result [OF u w3(1) _ _ st(1)] w3 ev st(2) ran(4) show ?thesis by auto
qed simp

end

section \<open>The in-memory instance\<close>

text \<open>
  The world of the in-memory adapters: the order repository, the in-process locker, the clock and the
  supply of lock tokens. The seat client is \<open>NewProgramClient()\<close>, whose calls return at once.
\<close>

record order_world =
  ow_orders :: OrderRepository
  ow_locks :: MemoryLocker
  ow_now :: time
  ow_tokens :: "string list"

definition ProgramClient_nil :: "('w, unit) go" where
  "ProgramClient_nil = returnG ()"

definition world_Acquire :: "string \<Rightarrow> duration \<Rightarrow> ('z order_world_scheme, lock_handle) go" where
  "world_Acquire k ttl w =
     liftG ow_locks (\<lambda>l w. w\<lparr>ow_locks := l, ow_tokens := tl (ow_tokens w)\<rparr>)
       (MemoryLocker_Acquire (ow_now w) (hd (ow_tokens w)) k ttl) w"

definition memory_ports :: "'z order_world_scheme order_ports" where
  "memory_ports = \<lparr>
     op_FindByOrderNumber = (\<lambda>n u. liftG ow_orders (\<lambda>r w. w\<lparr>ow_orders := r\<rparr>) (Repo_FindByOrderNumber n u)),
     op_FindByOrderNumberSystem = Some (\<lambda>n. liftG ow_orders (\<lambda>r w. w\<lparr>ow_orders := r\<rparr>) (Repo_FindByOrderNumberSystem n)),
     op_Update = (\<lambda>item. liftG ow_orders (\<lambda>r w. w\<lparr>ow_orders := r\<rparr>) (Repo_Update item)),
     op_ConfirmSeatsSold = (\<lambda>n p c seats tus. ProgramClient_nil),
     op_ReleaseSeats = (\<lambda>n p c seats tus count. ProgramClient_nil),
     op_nowFunc = ow_now,
     op_locker = Some (world_Acquire, \<lambda>h. liftG ow_locks (\<lambda>l w. w\<lparr>ow_locks := l\<rparr>) (memoryLock_Release h)),
     op_lockTTL = 5 * 1000000000\<rparr>"

interpretation memory_orders: order_store memory_ports "\<lambda>w. map_of (ow_orders w)" "\<lambda>w. repo_ok (ow_orders w)"
  by unfold_locales
    (auto simp: memory_ports_def keeps_orders_def liftG_def Repo_FindByOrderNumber_def Repo_FindByOrderNumberSystem_def
      Repo_Update_def ProgramClient_nil_def returnG_def world_Acquire_def repo_ok_lookup repo_ok_update update_conv
      split: option.splits if_splits prod.splits)

section \<open>Properties\<close>

inductive order_step :: "'w order_ports \<Rightarrow> 'w \<Rightarrow> 'w \<Rightarrow> bool" for P where
  cancel: "order_step P w (snd (Cancel P n u w))"
| close: "order_step P w (snd (CloseExpired P n u w))"
| paid: "order_step P w (snd (MarkPaid P n u w))"
| callback: "order_step P w (snd (HandlePaymentCallback P n amount paid w))"
| refunded: "order_step P w (snd (MarkRefunded P n w))"

context order_store
begin

lemma steps_evolve: "(order_step P)\<^sup>*\<^sup>* w w' \<Longrightarrow> evolves w w'"
proof (induction rule: rtranclp_induct)
  case (step w' w'')
  have "evolves w' w''" using step.hyps(2) commands_evolve by (cases rule: order_step.cases) (auto simp: keepsG_def)
  with step.IH show ?case by (rule ev.R_trans)
qed (rule ev.R_refl)

end

definition sample_order :: Order where
  "sample_order = (Order_New 42 7 3 500 10)\<lparr>ord_TicketCategoryID := 1, ord_SeatIDs := [11, 12]\<rparr>"

definition sample_world :: order_world where
  "sample_world = \<lparr>ow_orders = [(42, sample_order)], ow_locks = NewMemoryLocker, ow_now = 20, ow_tokens = [''a'', ''b'', ''c'']\<rparr>"

lemma sample_ok: "repo_ok (ow_orders sample_world)"
  by (simp add: repo_ok_def sample_world_def sample_order_def Order_New_def)

lemmas run_defs = HandlePaymentCallback_def Cancel_def cancel_def withOrderLock_def memory_ports_def attemptG_def deferG_def bindG_def
  liftG_def world_Acquire_def MemoryLocker_Acquire_def memoryLock_Release_def NewMemoryLocker_def findSystemOrder_def
  Repo_FindByOrderNumberSystem_def Repo_FindByOrderNumber_def Repo_Update_def persistPaid_def getG_def returnG_def failG_def
  Order_MarkPaid_def Order_Cancel_def ProgramClient_nil_def sample_world_def sample_order_def Order_New_def

lemma sample_runs:
  "fst (Cancel memory_ports 42 3 sample_world) = Inr ()"
  "fst (HandlePaymentCallback memory_ports 42 500 True sample_world) =
     Inr \<lparr>pcr_Status = StatusPaid, pcr_RefundRequired = False, pcr_AmountCent = 500\<rparr>"
  "fst (HandlePaymentCallback memory_ports 42 500 True (snd (Cancel memory_ports 42 3 sample_world))) =
     Inr \<lparr>pcr_Status = StatusCancel, pcr_RefundRequired = True, pcr_AmountCent = 500\<rparr>"
  by (simp_all add: run_defs)

text \<open>
  C22. Orders follow the state machine: whatever sequence of cancel, close-expired, mark-paid, payment-callback
  and refund commands runs, for any orders and users, with any of them failing at any call, an order stays
  in the repository with everything that was ordered unchanged, and its status only moves from NO_PAY to
  PAY or CANCEL and from CANCEL to REFUND; PAY and REFUND are final.
\<close>

theorem order_status_machine:
  assumes "order_store P ov oinv" and "oinv w" and "(order_step P)\<^sup>*\<^sup>* w w'" and "ov w n = Some item"
  shows "\<exists>item'. ov w' n = Some item' \<and> order_evolves item item'
    \<and> (ord_Status item \<in> {StatusPaid, StatusRefund} \<longrightarrow> ord_Status item' = ord_Status item)"
proof -
  from order_store.steps_evolve [OF assms(1,3)] assms(2) have "rel_option order_evolves (ov w n) (ov w' n)"
    by (simp add: order_store.evolves_def [OF assms(1)])
  with assms(4) show ?thesis by (auto simp: option_rel_Some1 order_evolves_def status_reach_def)
qed

theorem order_status_machine_witness:
  "\<exists>item'. map_of (ow_orders (snd (MarkPaid memory_ports 42 3 (snd (Cancel memory_ports 42 3 sample_world))))) 42 = Some item'
     \<and> order_evolves sample_order item'"
proof -
  have "(order_step memory_ports)\<^sup>*\<^sup>* sample_world (snd (MarkPaid memory_ports 42 3 (snd (Cancel memory_ports 42 3 sample_world))))"
    by (rule converse_rtranclp_into_rtranclp, rule order_step.cancel, rule r_into_rtranclp, rule order_step.paid)
  from order_status_machine [OF memory_orders.order_store_axioms sample_ok this, of 42 sample_order]
  show ?thesis by (auto simp: sample_world_def)
qed



text \<open>
  A canceled order is never paid: once \<open>Cancel\<close> has succeeded, whatever commands run next, a callback that
  reports its payment either asks for a refund or finds the order refunded already, and leaves it so.
\<close>

theorem canceled_order_never_paid:
  assumes "order_store P ov oinv" and "oinv w" and "Cancel P n u w = (Inr (), w1)"
    and "(order_step P)\<^sup>*\<^sup>* w1 w2" and "HandlePaymentCallback P n amount True w2 = (Inr res, w3)"
  shows "ov w3 = ov w2 \<and> (pcr_RefundRequired res \<and> pcr_Status res = StatusCancel \<or> \<not> pcr_RefundRequired res \<and> pcr_Status res = StatusRefund)"
proof -
  from order_store.Cancel_result [OF assms(1,3,2)] obtain item where
    i: "ov w1 n = Some item" "ord_Status item = StatusCancel" by fastforce
  from order_store.commands_evolve(1) [OF assms(1), of n u] assms(2,3) have "oinv w1"
    by (metis (no_types, lifting) keepsG_def order_store.evolves_def [OF assms(1)] snd_conv)
  with order_store.steps_evolve [OF assms(1,4)] have inv: "oinv w2" and "rel_option order_evolves (ov w1 n) (ov w2 n)"
    by (simp_all add: order_store.evolves_def [OF assms(1)])
  with i obtain item2 where j: "ov w2 n = Some item2" "ord_Status item2 \<in> {StatusCancel, StatusRefund}"
    by (auto simp: option_rel_Some1 order_evolves_def status_reach_def)
  from order_store.callback_result [OF assms(1,5) inv] j show ?thesis by (auto simp: fun_upd_idem)
qed

theorem canceled_order_never_paid_witness:
  "map_of (ow_orders (snd (HandlePaymentCallback memory_ports 42 500 True (snd (Cancel memory_ports 42 3 sample_world)))))
     = map_of (ow_orders (snd (Cancel memory_ports 42 3 sample_world)))"
  using canceled_order_never_paid [OF memory_orders.order_store_axioms sample_ok run_of_fst [OF sample_runs(1)] rtranclp.rtrancl_refl
      run_of_fst [OF sample_runs(3)]]
  by (rule conjunct1)

text \<open>
  Closing an order: a successful \<open>Cancel\<close> found an unpaid or already canceled order of that user, stored it
  as canceled and had its seats and tickets released; \<open>CloseExpired\<close> (the delayed check) never touches a paid
  or refunded order; \<open>MarkRefunded\<close> succeeds only on canceled or refunded orders and stores the refund.
\<close>

theorem closing_commands:
  assumes "order_store P ov oinv" and "oinv w"
  shows "(Cancel P n u w = (Inr (), w') \<longrightarrow> (\<exists>item item'. ov w n = Some item \<and> ord_UserID item = u
      \<and> ord_Status item \<in> {StatusNoPay, StatusCancel} \<and> ov w' = (ov w)(n \<mapsto> item') \<and> order_evolves item item' \<and> ord_Status item' = StatusCancel
      \<and> (\<exists>wa wb. op_ReleaseSeats P n (ord_ProgramID item) (ord_TicketCategoryID item) (ord_SeatIDs item) (ord_TicketUserIDs item)
          (Order_TicketCount item) wa = (Inr (), wb))))
    \<and> (CloseExpired P n u w = (Inr (), w') \<longrightarrow> (\<forall>item. ov w n = Some item \<longrightarrow> (\<exists>item'. ov w' = (ov w)(n \<mapsto> item') \<and> order_evolves item item'
      \<and> (ord_Status item \<in> {StatusPaid, StatusRefund} \<longrightarrow> item' = item))))
    \<and> (\<forall>item'. MarkRefunded P n w = (Inr item', w') \<longrightarrow> (\<exists>item. ov w n = Some item \<and> ord_Status item \<in> {StatusCancel, StatusRefund}
      \<and> ov w' = (ov w)(n \<mapsto> item') \<and> order_evolves item item' \<and> ord_Status item' = StatusRefund))"
  using order_store.Cancel_result [OF assms(1) _ assms(2)] order_store.CloseExpired_result [OF assms(1) _ assms(2)]
    order_store.MarkRefunded_result [OF assms(1) _ assms(2)] by blast

theorem closing_commands_witness:
  "ord_Status (the (map_of (ow_orders (snd (Cancel memory_ports 42 3 sample_world))) 42)) = StatusCancel"
  using closing_commands [OF memory_orders.order_store_axioms sample_ok, THEN conjunct1, THEN mp, OF run_of_fst [OF sample_runs(1)]] by auto

end
