(* ===== verification/Payments.thy ===== *)
theory Payments
  imports Order_Commands
begin

text \<open>
  The payment service (\<open>src/app/pay-service/internal\<close>): payments and the gateway interface
  (\<open>domain/pay\<close>), the use cases (\<open>application/pay.go\<close>), the in-memory and the MySQL repository, the mock
  gateway, the gRPC handlers, and the gRPC client through which it calls the order service together with
  the order service's handlers (\<open>src/app/order-service/internal/interfaces/grpc/server.go\<close>).

  The MySQL repository is modelled on rows: \<open>INSERT ... ON DUPLICATE KEY UPDATE\<close> inserts a row or applies
  the update list to the existing one. A failing statement is an argument. The locale \<open>pay_store\<close> states
  what the use cases rely on, over the stored payments and the refunds the gateway has made.
\<close>

section \<open>Data\<close>

type_synonym PaymentStatus = string

abbreviation PaymentCreated :: PaymentStatus where "PaymentCreated \<equiv> ''CREATED''"
abbreviation PaymentPaid :: PaymentStatus where "PaymentPaid \<equiv> ''PAID''"
abbreviation PaymentClosed :: PaymentStatus where "PaymentClosed \<equiv> ''CLOSED''"
abbreviation PaymentRefunded :: PaymentStatus where "PaymentRefunded \<equiv> ''REFUNDED''"

record Payment =
  pay_OrderNumber :: int64
  pay_AmountCent :: int64
  pay_Channel :: string
  pay_Status :: PaymentStatus

record Refund =
  ref_RequestID :: string
  ref_OrderNumber :: int64
  ref_AmountCent :: int64
  ref_Reason :: string
  ref_Success :: bool

record Trade =
  tr_OrderNumber :: int64
  tr_Channel :: string
  tr_Paid :: bool

record OrderPaymentResult =
  opr_Status :: string
  opr_RefundRequired :: bool
  opr_AmountCent :: int64

record 'w order_client =
  oc_GetOrderPayment :: "int64 \<Rightarrow> int64 \<Rightarrow> ('w, OrderPaymentResult) go"
  oc_HandlePaymentCallback :: "int64 \<Rightarrow> int64 \<Rightarrow> bool \<Rightarrow> ('w, OrderPaymentResult) go"
  oc_MarkOrderRefunded :: "int64 \<Rightarrow> ('w, unit) go"

record 'w pay_ports =
  pp_Save :: "Payment \<Rightarrow> ('w, unit) go"
  pp_Find :: "int64 \<Rightarrow> ('w, Payment) go"
  pp_Pay :: "Payment \<Rightarrow> ('w, string) go"
  pp_Check :: "int64 \<Rightarrow> string \<Rightarrow> ('w, Trade) go"
  pp_Refund :: "Refund \<Rightarrow> ('w, unit) go"
  pp_orders :: "'w order_client option"
  pp_locker :: "((string \<Rightarrow> duration \<Rightarrow> ('w, lock_handle) go) \<times> (lock_handle \<Rightarrow> ('w, unit) go)) option"
  pp_lockTTL :: duration

section \<open>The use cases\<close>

definition refundRequestID :: "int64 \<Rightarrow> string" where
  "refundRequestID orderNumber = ''late-payment-'' @ show_int orderNumber"

definition withPaymentLock :: "'w pay_ports \<Rightarrow> int64 \<Rightarrow> ('w, 'a) go \<Rightarrow> ('w, 'a) go" where
  "withPaymentLock U orderNumber fn = (case pp_locker U of
     None \<Rightarrow> fn
   | Some (Acquire, Release) \<Rightarrow>
       bindG (Acquire (''tickethub:payment-lock:'' @ show_int orderNumber) (pp_lockTTL U)) (\<lambda>locked. deferG fn (Release locked)))"

definition commonPay :: "'w pay_ports \<Rightarrow> int64 \<Rightarrow> int64 \<Rightarrow> int64 \<Rightarrow> string \<Rightarrow> ('w, string) go" where
  "commonPay U orderNumber userID amountCent channel =
     bindG (case pp_orders U of
         None \<Rightarrow> returnG amountCent
       | Some orders \<Rightarrow>
           bindG (oc_GetOrderPayment orders orderNumber userID) (\<lambda>current.
             if opr_Status current \<noteq> ''NO_PAY'' then failG (New CodeOrderStateConflict ''only unpaid order can start payment'')
             else if amountCent \<noteq> opr_AmountCent current then failG (New CodeInvalidArgument ''payment amount does not match order amount'')
             else returnG (opr_AmountCent current))) (\<lambda>amount.
     let payment = \<lparr>pay_OrderNumber = orderNumber, pay_AmountCent = amount, pay_Channel = channel, pay_Status = PaymentCreated\<rparr> in
     bindG (pp_Save U payment) (\<lambda>_. pp_Pay U payment))"

definition CommonPay :: "'w pay_ports \<Rightarrow> int64 \<Rightarrow> int64 \<Rightarrow> int64 \<Rightarrow> string \<Rightarrow> ('w, string) go" where
  "CommonPay U orderNumber userID amountCent channel = withPaymentLock U orderNumber (commonPay U orderNumber userID amountCent channel)"

definition TradeCheck :: "'w pay_ports \<Rightarrow> int64 \<Rightarrow> int64 \<Rightarrow> string \<Rightarrow> ('w, Trade) go" where
  "TradeCheck U orderNumber userID channel =
     bindG (case pp_orders U of None \<Rightarrow> returnG () | Some orders \<Rightarrow> bindG (oc_GetOrderPayment orders orderNumber userID) (\<lambda>_. returnG ()))
       (\<lambda>_. pp_Check U orderNumber channel)"

abbreviation zero_payment :: Payment where
  "zero_payment \<equiv> \<lparr>pay_OrderNumber = 0, pay_AmountCent = 0, pay_Channel = [], pay_Status = []\<rparr>"

definition Pay_Refund :: "'w pay_ports \<Rightarrow> int64 \<Rightarrow> int64 \<Rightarrow> string \<Rightarrow> ('w, unit) go" where
  "Pay_Refund U orderNumber amountCent reason =
     bindG (pp_Refund U \<lparr>ref_RequestID = refundRequestID orderNumber, ref_OrderNumber = orderNumber, ref_AmountCent = amountCent,
                        ref_Reason = reason, ref_Success = False\<rparr>) (\<lambda>_.
     attemptG (pp_Find U orderNumber) (\<lambda>r. case r of
       Inl e \<Rightarrow>
         if \<not> IsCode (Some e) CodeNotFound then failG e
         else pp_Save U (zero_payment\<lparr>pay_OrderNumber := orderNumber, pay_AmountCent := amountCent, pay_Status := PaymentRefunded\<rparr>)
     | Inr current \<Rightarrow>
         pp_Save U (current\<lparr>pay_OrderNumber := orderNumber, pay_AmountCent := amountCent, pay_Status := PaymentRefunded\<rparr>)))"

text \<open>The part of \<open>callback\<close> after the order service answered.\<close>

definition settle :: "'w pay_ports \<Rightarrow> int64 \<Rightarrow> int64 \<Rightarrow> string \<Rightarrow> bool \<Rightarrow> OrderPaymentResult \<Rightarrow> ('w, unit) go" where
  "settle U orderNumber amountCent channel paid result =
     (if \<not> opr_RefundRequired result then
        pp_Save U \<lparr>pay_OrderNumber = orderNumber, pay_AmountCent = amountCent, pay_Channel = channel,
                   pay_Status = (if paid then PaymentPaid else PaymentClosed)\<rparr>
      else
        let refundAmount = (if opr_AmountCent result \<le> 0 then amountCent else opr_AmountCent result) in
        bindG (pp_Refund U \<lparr>ref_RequestID = refundRequestID orderNumber, ref_OrderNumber = orderNumber, ref_AmountCent = refundAmount,
                           ref_Reason = ''payment received after order cancellation'', ref_Success = False\<rparr>) (\<lambda>_.
        bindG (pp_Save U \<lparr>pay_OrderNumber = orderNumber, pay_AmountCent = refundAmount, pay_Channel = channel, pay_Status = PaymentRefunded\<rparr>) (\<lambda>_.
          case pp_orders U of None \<Rightarrow> failG (PlainError ''nil pointer dereference'') | Some orders \<Rightarrow> oc_MarkOrderRefunded orders orderNumber)))"

definition callback :: "'w pay_ports \<Rightarrow> int64 \<Rightarrow> int64 \<Rightarrow> string \<Rightarrow> bool \<Rightarrow> ('w, unit) go" where
  "callback U orderNumber amountCent channel paid =
     attemptG (pp_Find U orderNumber) (\<lambda>r.
       let proceed =
         bindG (case pp_orders U of
             None \<Rightarrow> returnG \<lparr>opr_Status = [], opr_RefundRequired = False, opr_AmountCent = amountCent\<rparr>
           | Some orders \<Rightarrow> oc_HandlePaymentCallback orders orderNumber amountCent paid)
           (settle U orderNumber amountCent channel paid)
       in case r of
         Inl e \<Rightarrow> if \<not> IsCode (Some e) CodeNotFound then failG e else proceed
       | Inr current \<Rightarrow>
           if pay_Status current = PaymentRefunded then
             (case pp_orders U of Some orders \<Rightarrow> if paid then oc_MarkOrderRefunded orders orderNumber else returnG () | None \<Rightarrow> returnG ())
           else if pay_Status current = PaymentPaid \<and> \<not> paid then returnG ()
           else proceed)"

definition Callback :: "'w pay_ports \<Rightarrow> int64 \<Rightarrow> int64 \<Rightarrow> string \<Rightarrow> bool \<Rightarrow> ('w, unit) go" where
  "Callback U orderNumber amountCent channel paid = withPaymentLock U orderNumber (callback U orderNumber amountCent channel paid)"

section \<open>Repositories and gateway\<close>

type_synonym PaymentRepository = "(int64 \<times> Payment) list"

definition Payment_Find :: "int64 \<Rightarrow> (PaymentRepository, Payment) go" where
  "Payment_Find orderNumber r = (case map_of r orderNumber of
     None \<Rightarrow> (Inl (New CodeNotFound ''payment not found''), r) | Some payment \<Rightarrow> (Inr payment, r))"

definition Payment_Save :: "Payment \<Rightarrow> (PaymentRepository, unit) go" where
  "Payment_Save payment r = (Inr (), AList.update (pay_OrderNumber payment) payment r)"

text \<open>
  \<open>MySQL\<close>: the update list of the duplicate-key clause applied to the old row; \<open>fault\<close> is the error of the
  statement, if any.
\<close>

definition merge_payment :: "Payment \<Rightarrow> Payment \<Rightarrow> Payment" where
  "merge_payment old item = old\<lparr>pay_AmountCent := pay_AmountCent item, pay_Channel := pay_Channel item,
     pay_Status := (if pay_Status old = ''REFUNDED'' then pay_Status old
       else if pay_Status old = ''PAID'' \<and> pay_Status item \<in> {''CREATED'', ''CLOSED''} then pay_Status old
       else pay_Status item)\<rparr>"

definition MySQL_Payment_Save :: "error option \<Rightarrow> Payment \<Rightarrow> (PaymentRepository, unit) go" where
  "MySQL_Payment_Save fault item r = (case fault of
     Some e \<Rightarrow> (Inl (Wrap CodeInfrastructure ''save payment failed'' e), r)
   | None \<Rightarrow> (Inr (), AList.update (pay_OrderNumber item)
       (case map_of r (pay_OrderNumber item) of None \<Rightarrow> item | Some old \<Rightarrow> merge_payment old item) r))"

definition MySQL_Payment_Find :: "error option \<Rightarrow> int64 \<Rightarrow> (PaymentRepository, Payment) go" where
  "MySQL_Payment_Find fault orderNumber r = (case fault of
     Some e \<Rightarrow> (Inl (Wrap CodeInfrastructure ''query payment failed'' e), r)
   | None \<Rightarrow> (case map_of r orderNumber of None \<Rightarrow> (Inl (New CodeNotFound ''payment not found''), r) | Some item \<Rightarrow> (Inr item, r)))"

definition NewMockGateway :: "string \<Rightarrow> string" where
  "NewMockGateway baseURL = (if baseURL = [] then ''https://pay.local/tickethub'' else baseURL)"

definition Mock_Pay :: "string \<Rightarrow> Payment \<Rightarrow> ('w, string) go" where
  "Mock_Pay baseURL payment = returnG (baseURL @ ''/pay?order_number='' @ show_int (pay_OrderNumber payment)
     @ ''&amount_cent='' @ show_int (pay_AmountCent payment))"

definition Mock_Check :: "int64 \<Rightarrow> string \<Rightarrow> ('w, Trade) go" where
  "Mock_Check orderNumber channel = returnG \<lparr>tr_OrderNumber = orderNumber, tr_Channel = channel, tr_Paid = False\<rparr>"

definition Mock_Refund :: "Refund \<Rightarrow> ('w, unit) go" where
  "Mock_Refund refund = returnG ()"

section \<open>The order service behind gRPC\<close>

text \<open>
  The handlers of the order service's gRPC server and the client of the payment service; \<open>wire\<close> is what
  the transport makes of an error (the server middleware turns it into a status error).
\<close>

definition Server_GetOrderPayment :: "'w order_ports \<Rightarrow> int64 \<Rightarrow> int64 \<Rightarrow> ('w, OrderPaymentResult) go" where
  "Server_GetOrderPayment P orderNumber userID =
     (if orderNumber \<le> 0 \<or> userID \<le> 0 then failG (New CodeInvalidArgument ''order_number and user_id are required'')
      else bindG (op_FindByOrderNumber P orderNumber userID) (\<lambda>current.
        returnG \<lparr>opr_Status = ord_Status current, opr_RefundRequired = False, opr_AmountCent = ord_AmountCent current\<rparr>))"

definition Server_HandlePaymentCallback :: "'w order_ports \<Rightarrow> int64 \<Rightarrow> int64 \<Rightarrow> bool \<Rightarrow> ('w, OrderPaymentResult) go" where
  "Server_HandlePaymentCallback P orderNumber amountCent paid =
     attemptG (HandlePaymentCallback P orderNumber amountCent paid) (\<lambda>r. case r of
       Inl (e, _) \<Rightarrow> failG e
     | Inr result \<Rightarrow> returnG \<lparr>opr_Status = pcr_Status result, opr_RefundRequired = pcr_RefundRequired result, opr_AmountCent = pcr_AmountCent result\<rparr>)"

definition Server_MarkOrderRefunded :: "'w order_ports \<Rightarrow> int64 \<Rightarrow> ('w, Order) go" where
  "Server_MarkOrderRefunded P orderNumber =
     attemptG (MarkRefunded P orderNumber) (\<lambda>r. case r of Inl (e, _) \<Rightarrow> failG e | Inr current \<Rightarrow> returnG current)"

definition over_wire :: "(error \<Rightarrow> error) \<Rightarrow> ('w, 'a) go \<Rightarrow> ('w, 'a) go" where
  "over_wire wire m = attemptG m (\<lambda>r. case r of Inl e \<Rightarrow> failG (wire e) | Inr x \<Rightarrow> returnG x)"

definition rpc_order_client :: "(error \<Rightarrow> error) \<Rightarrow> 'w order_ports \<Rightarrow> 'w order_client" where
  "rpc_order_client wire P = \<lparr>
     oc_GetOrderPayment = (\<lambda>n u. over_wire wire (Server_GetOrderPayment P n u)),
     oc_HandlePaymentCallback = (\<lambda>n amount paid. over_wire wire (Server_HandlePaymentCallback P n amount paid)),
     oc_MarkOrderRefunded = (\<lambda>n. bindG (over_wire wire (Server_MarkOrderRefunded P n)) (\<lambda>_. returnG ()))\<rparr>"

section \<open>What the use cases rely on\<close>

definition keeps_pay :: "('w \<Rightarrow> int64 \<rightharpoonup> Payment) \<Rightarrow> ('w \<Rightarrow> Refund list) \<Rightarrow> ('w, 'a) go \<Rightarrow> bool" where
  "keeps_pay pv rf m \<longleftrightarrow> (\<forall>w. pv (snd (m w)) = pv w \<and> rf (snd (m w)) = rf w)"

definition protected_save :: "Payment \<Rightarrow> Payment option \<Rightarrow> Payment \<Rightarrow> bool" where
  "protected_save item old new \<longleftrightarrow> pay_Status new = pay_Status item
     \<or> (\<exists>p. old = Some p \<and> pay_Status new = pay_Status p
          \<and> (pay_Status p = PaymentRefunded \<or> pay_Status p = PaymentPaid \<and> pay_Status item \<in> {PaymentCreated, PaymentClosed}))"

locale pay_store =
  fixes U :: "'w pay_ports" and pv :: "'w \<Rightarrow> int64 \<rightharpoonup> Payment" and rf :: "'w \<Rightarrow> Refund list"
  assumes find_keeps: "keeps_pay pv rf (pp_Find U n)"
    and find_ok: "fst (pp_Find U n w) = Inr p \<Longrightarrow> pv w n = Some p"
    and find_missing: "fst (pp_Find U n w) = Inl e \<Longrightarrow> IsCode (Some e) CodeNotFound \<Longrightarrow> pv w n = None"
    and save_refunds: "rf (snd (pp_Save U item w)) = rf w"
    and save_ok: "fst (pp_Save U item w) = Inr () \<Longrightarrow>
      \<exists>q. pv (snd (pp_Save U item w)) = (pv w)(pay_OrderNumber item \<mapsto> q) \<and> protected_save item (pv w (pay_OrderNumber item)) q"
    and save_err: "fst (pp_Save U item w) = Inl e \<Longrightarrow> pv (snd (pp_Save U item w)) = pv w
      \<or> (\<exists>q. pv (snd (pp_Save U item w)) = (pv w)(pay_OrderNumber item \<mapsto> q) \<and> protected_save item (pv w (pay_OrderNumber item)) q)"
    and refund_keeps: "pv (snd (pp_Refund U r w)) = pv w"
    and refund_ok: "fst (pp_Refund U r w) = Inr () \<Longrightarrow> rf (snd (pp_Refund U r w)) = rf w @ [r]"
    and refund_err: "fst (pp_Refund U r w) = Inl e \<Longrightarrow> rf (snd (pp_Refund U r w)) \<in> {rf w, rf w @ [r]}"
    and orders_keep: "pp_orders U = Some orders \<Longrightarrow> keeps_pay pv rf (oc_HandlePaymentCallback orders n amount paid)"
      "pp_orders U = Some orders \<Longrightarrow> keeps_pay pv rf (oc_MarkOrderRefunded orders n)"
    and pay_locks_keep: "pp_locker U = Some (Acquire, Release) \<Longrightarrow> keeps_pay pv rf (Acquire k ttl)"
      "pp_locker U = Some (Acquire, Release) \<Longrightarrow> keeps_pay pv rf (Release h)"
begin

text \<open>
  What callbacks may do: a paid payment stays paid or becomes refunded, a refunded one stays so and causes
  no further refund, and every refund carries the request identifier of its order.
\<close>

definition settles :: "'w \<Rightarrow> 'w \<Rightarrow> bool" where
  "settles w w' \<longleftrightarrow>
     (\<forall>n p. pv w n = Some p \<longrightarrow> pay_Status p \<in> {PaymentPaid, PaymentRefunded} \<longrightarrow>
        (\<exists>q. pv w' n = Some q \<and> pay_Status q \<in> {pay_Status p, PaymentRefunded}))
     \<and> (\<exists>new. rf w' = rf w @ new \<and> (\<forall>r \<in> set new. ref_RequestID r = refundRequestID (ref_OrderNumber r)
          \<and> (\<forall>p. pv w (ref_OrderNumber r) = Some p \<longrightarrow> pay_Status p \<noteq> PaymentRefunded)))"

lemma settles_trans:
  assumes "settles w w1" and "settles w1 w2"
  shows "settles w w2"
proof -
  have st: "\<forall>n p. pv w n = Some p \<longrightarrow> pay_Status p \<in> {PaymentPaid, PaymentRefunded} \<longrightarrow>
        (\<exists>q. pv w2 n = Some q \<and> pay_Status q \<in> {pay_Status p, PaymentRefunded})"
  proof (intro allI impI)
    fix n p assume p: "pv w n = Some p" "pay_Status p \<in> {PaymentPaid, PaymentRefunded}"
    with assms(1) obtain q where q: "pv w1 n = Some q" "pay_Status q \<in> {pay_Status p, PaymentRefunded}"
      unfolding settles_def by meson
    with p have "pay_Status q \<in> {PaymentPaid, PaymentRefunded}" by auto
    with q(1) assms(2) obtain q2 where "pv w2 n = Some q2" "pay_Status q2 \<in> {pay_Status q, PaymentRefunded}"
      unfolding settles_def by meson
    with q(2) show "\<exists>q. pv w2 n = Some q \<and> pay_Status q \<in> {pay_Status p, PaymentRefunded}" by auto
  qed
  from assms(1) obtain new1 where n1: "rf w1 = rf w @ new1" "\<forall>r \<in> set new1. ref_RequestID r = refundRequestID (ref_OrderNumber r)
      \<and> (\<forall>p. pv w (ref_OrderNumber r) = Some p \<longrightarrow> pay_Status p \<noteq> PaymentRefunded)" unfolding settles_def by meson
  from assms(2) obtain new2 where n2: "rf w2 = rf w1 @ new2" "\<forall>r \<in> set new2. ref_RequestID r = refundRequestID (ref_OrderNumber r)
      \<and> (\<forall>p. pv w1 (ref_OrderNumber r) = Some p \<longrightarrow> pay_Status p \<noteq> PaymentRefunded)" unfolding settles_def by meson
  have "\<forall>r \<in> set (new1 @ new2). ref_RequestID r = refundRequestID (ref_OrderNumber r)
      \<and> (\<forall>p. pv w (ref_OrderNumber r) = Some p \<longrightarrow> pay_Status p \<noteq> PaymentRefunded)"
  proof
    fix r assume "r \<in> set (new1 @ new2)"
    then consider "r \<in> set new1" | "r \<in> set new2" by auto
    then show "ref_RequestID r = refundRequestID (ref_OrderNumber r) \<and> (\<forall>p. pv w (ref_OrderNumber r) = Some p \<longrightarrow> pay_Status p \<noteq> PaymentRefunded)"
    proof cases
      case 2
      have "pay_Status p \<noteq> PaymentRefunded" if p: "pv w (ref_OrderNumber r) = Some p" for p
      proof
        assume "pay_Status p = PaymentRefunded"
        with p assms(1) obtain q where "pv w1 (ref_OrderNumber r) = Some q" "pay_Status q = PaymentRefunded"
          unfolding settles_def by (metis insertE insertI1 insert_iff singletonD)
        with n2(2) 2 show False by blast
      qed
      with n2(2) 2 show ?thesis by blast
    qed (use n1(2) in blast)
  qed
  with st n1(1) n2(1) show ?thesis unfolding settles_def by auto
qed

sublocale st: state_preorder settles
proof
  show "settles s s" for s by (auto simp: settles_def)
  show "settles s t \<Longrightarrow> settles t u \<Longrightarrow> settles s u" for s t u by (rule settles_trans)
qed

lemma keeps_settles: "keeps_pay pv rf m \<Longrightarrow> keepsG settles m"
  by (auto simp: keeps_pay_def keepsG_def settles_def)

lemma save_settles:
  assumes "\<And>p. pv w (pay_OrderNumber item) = Some p \<Longrightarrow>
      (pay_Status p = PaymentRefunded \<longrightarrow> pay_Status item = PaymentRefunded)
      \<and> (pay_Status p = PaymentPaid \<longrightarrow> pay_Status item \<in> {PaymentPaid, PaymentRefunded})"
  shows "settles w (snd (pp_Save U item w))"
proof -
  let ?n = "pay_OrderNumber item" and ?w' = "snd (pp_Save U item w)"
  have "pv ?w' = pv w \<or> (\<exists>q. pv ?w' = (pv w)(?n \<mapsto> q) \<and> protected_save item (pv w ?n) q)"
    using save_ok [of item w] save_err [of item w] by (cases "fst (pp_Save U item w)") auto
  then show ?thesis
  proof (elim disjE exE conjE)
    fix q assume pv': "pv ?w' = (pv w)(?n \<mapsto> q)" and q: "protected_save item (pv w ?n) q"
    have "pay_Status p \<in> {PaymentPaid, PaymentRefunded} \<Longrightarrow> pay_Status q \<in> {pay_Status p, PaymentRefunded}" if "pv w ?n = Some p" for p
      using assms [OF that] q that by (auto simp: protected_save_def)
    then show ?thesis by (auto simp: settles_def pv' save_refunds)
  qed (auto simp: settles_def save_refunds)
qed

lemma refund_settles:
  assumes "\<And>p. pv w (ref_OrderNumber r) = Some p \<Longrightarrow> pay_Status p \<noteq> PaymentRefunded" and "ref_RequestID r = refundRequestID (ref_OrderNumber r)"
  shows "settles w (snd (pp_Refund U r w))"
  using refund_ok [of r w] refund_err [of r w] assms
  by (cases "fst (pp_Refund U r w)") (auto simp: settles_def refund_keeps)

lemma mark_settles: "keepsG settles (case pp_orders U of None \<Rightarrow> failG e | Some orders \<Rightarrow> oc_MarkOrderRefunded orders n)"
  by (auto split: option.splits intro: st.keeps_fail keeps_settles orders_keep)

lemma settle_settles:
  assumes "\<And>p. pv w n = Some p \<Longrightarrow> pay_Status p \<noteq> PaymentRefunded \<and> (pay_Status p = PaymentPaid \<longrightarrow> paid)"
  shows "settles w (snd (settle U n amount channel paid res w))"
proof (cases "opr_RefundRequired res")
  case False
  have "settles w (snd (pp_Save U \<lparr>pay_OrderNumber = n, pay_AmountCent = amount, pay_Channel = channel,
                   pay_Status = (if paid then PaymentPaid else PaymentClosed)\<rparr> w))"
    using assms by (intro save_settles) auto
  with False show ?thesis by (simp add: settle_def)
next
  case True
  have save: "keepsG settles (pp_Save U \<lparr>pay_OrderNumber = n, pay_AmountCent = a, pay_Channel = channel, pay_Status = PaymentRefunded\<rparr>)" for a
    unfolding keepsG_def by (intro allI save_settles) simp
  have "settles w (snd (bindG (pp_Refund U \<lparr>ref_RequestID = refundRequestID n, ref_OrderNumber = n, ref_AmountCent = a,
                           ref_Reason = ''payment received after order cancellation'', ref_Success = False\<rparr>) (\<lambda>_.
        bindG (pp_Save U \<lparr>pay_OrderNumber = n, pay_AmountCent = a, pay_Channel = channel, pay_Status = PaymentRefunded\<rparr>) (\<lambda>_.
          case pp_orders U of None \<Rightarrow> failG (PlainError ''nil pointer dereference'') | Some orders \<Rightarrow> oc_MarkOrderRefunded orders n)) w))" for a
    by (intro st.step_bind st.keeps_bind refund_settles save mark_settles) (use assms in auto)
  with True show ?thesis by (simp add: settle_def Let_def)
qed

lemma callback_settles: "settles w (snd (callback U n amount channel paid w))"
proof -
  obtain r w1 where f: "pp_Find U n w = (r, w1)" by (metis surj_pair)
  have k: "pv w1 = pv w" "rf w1 = rf w" using find_keeps [of n] f unfolding keeps_pay_def by (metis snd_conv)+
  define proceed where "proceed = bindG (case pp_orders U of
             None \<Rightarrow> returnG \<lparr>opr_Status = [], opr_RefundRequired = False, opr_AmountCent = amount\<rparr>
           | Some orders \<Rightarrow> oc_HandlePaymentCallback orders n amount paid) (settle U n amount channel paid)"
  have proceed: "settles w1 (snd (proceed w1))"
    if "\<And>p. pv w n = Some p \<Longrightarrow> pay_Status p \<noteq> PaymentRefunded \<and> (pay_Status p = PaymentPaid \<longrightarrow> paid)"
  proof -
    let ?m = "case pp_orders U of None \<Rightarrow> returnG \<lparr>opr_Status = [], opr_RefundRequired = False, opr_AmountCent = amount\<rparr>
           | Some orders \<Rightarrow> oc_HandlePaymentCallback orders n amount paid"
    obtain r2 w2 where m: "?m w1 = (r2, w2)" by (metis surj_pair)
    have "keeps_pay pv rf ?m" by (auto simp: keeps_pay_def [of pv rf "returnG _"] returnG_def orders_keep split: option.splits)
    with m k have k2: "pv w2 = pv w" "rf w2 = rf w" unfolding keeps_pay_def by (metis snd_conv)+
    then have "settles w1 w2" using k by (simp add: settles_def)
    moreover have "settles w2 (snd (settle U n amount channel paid res w2))" for res by (intro settle_settles) (use that k2 in auto)
    ultimately show ?thesis unfolding proceed_def by (cases r2) (auto simp: bindG_def m intro: st.R_trans)
  qed
  have "settles w1 (snd (callback U n amount channel paid w))"
  proof (cases r)
    case (Inl e)
    with find_missing [of n w e] f proceed show ?thesis
      by (auto simp: callback_def attemptG_def Let_def proceed_def [symmetric] failG_def st.R_refl)
  next
    case (Inr current)
    with find_ok [of n w current] f have p: "pv w n = Some current" by simp
    have mark: "settles w1 (snd ((case pp_orders U of Some orders \<Rightarrow> if paid then oc_MarkOrderRefunded orders n else returnG () | None \<Rightarrow> returnG ()) w1))"
      using keeps_settles [OF orders_keep(2), of _ n] by (auto simp: keepsG_def returnG_def st.R_refl split: option.splits)
    with Inr p f proceed show ?thesis
      by (auto simp: callback_def attemptG_def Let_def proceed_def [symmetric] returnG_def [of "()" w1] st.R_refl)
  qed
  moreover have "settles w w1" using k by (simp add: settles_def)
  ultimately show ?thesis by (rule st.R_trans [rotated])
qed

lemma Callback_settles: "settles w (snd (Callback U n amount channel paid w))"
proof -
  have cb: "keepsG settles (callback U n amount channel paid)" using callback_settles by (simp add: keepsG_def)
  have "keepsG settles (Callback U n amount channel paid)"
    unfolding Callback_def withPaymentLock_def
    by (auto split: option.splits intro!: st.keeps_bind st.keeps_defer cb intro: keeps_settles pay_locks_keep)
  then show ?thesis by (simp add: keepsG_def)
qed

lemma settle_refund_result:
  assumes "settle U n amount channel paid res w = (Inr (), w')" and "opr_RefundRequired res" and "0 < opr_AmountCent res"
  shows "rf w' = rf w @ [\<lparr>ref_RequestID = refundRequestID n, ref_OrderNumber = n, ref_AmountCent = opr_AmountCent res,
      ref_Reason = ''payment received after order cancellation'', ref_Success = False\<rparr>]
    \<and> (\<exists>q. pv w' n = Some q \<and> pay_Status q = PaymentRefunded)
    \<and> (\<exists>orders wa. pp_orders U = Some orders \<and> oc_MarkOrderRefunded orders n wa = (Inr (), w'))"
proof -
  let ?r = "\<lparr>ref_RequestID = refundRequestID n, ref_OrderNumber = n, ref_AmountCent = opr_AmountCent res,
      ref_Reason = ''payment received after order cancellation'', ref_Success = False\<rparr>"
  let ?p = "\<lparr>pay_OrderNumber = n, pay_AmountCent = opr_AmountCent res, pay_Channel = channel, pay_Status = PaymentRefunded\<rparr>"
  from assms obtain w1 w2 orders where r: "pp_Refund U ?r w = (Inr (), w1)" and s: "pp_Save U ?p w1 = (Inr (), w2)"
    and o: "pp_orders U = Some orders" "oc_MarkOrderRefunded orders n w2 = (Inr (), w')"
    by (auto simp: settle_def Let_def failG_def split: option.splits elim!: bindG_result)
  have "pv w' = pv w2" "rf w' = rf w2" using orders_keep(2) [OF o(1), of n] o(2) unfolding keeps_pay_def by (metis snd_conv)+
  moreover have "rf w1 = rf w @ [?r]" using refund_ok [of ?r w] r by simp
  moreover have "rf w2 = rf w1" using save_refunds [of ?p w1] s by simp
  moreover obtain q where "pv w2 = (pv w1)(n \<mapsto> q)" "protected_save ?p (pv w1 n) q" using save_ok [of ?p w1] s by auto
  moreover from this have "pay_Status q = PaymentRefunded" by (auto simp: protected_save_def)
  ultimately show ?thesis using o by auto
qed

end

section \<open>The services together\<close>

text \<open>
  The world in which the payment service runs beside the order service: the payments, a log of the refunds
  the gateway was asked for and accepted (the mock gateway accepts all), and the fault of the next database
  statement, if any.
\<close>

record pay_world = order_world +
  pw_payments :: PaymentRepository
  pw_refunds :: "Refund list"
  pw_fault :: "error option"

definition logged_refund :: "Refund \<Rightarrow> ('z pay_world_scheme, unit) go" where
  "logged_refund r = bindG (Mock_Refund r) (\<lambda>_. modifyG (\<lambda>w. w\<lparr>pw_refunds := pw_refunds w @ [r]\<rparr>))"

definition memory_pay :: "(error \<Rightarrow> error) \<Rightarrow> 'z pay_world_scheme pay_ports" where
  "memory_pay wire = \<lparr>
     pp_Save = (\<lambda>item. liftG pw_payments (\<lambda>r w. w\<lparr>pw_payments := r\<rparr>) (Payment_Save item)),
     pp_Find = (\<lambda>n. liftG pw_payments (\<lambda>r w. w\<lparr>pw_payments := r\<rparr>) (Payment_Find n)),
     pp_Pay = Mock_Pay (NewMockGateway []), pp_Check = Mock_Check, pp_Refund = logged_refund,
     pp_orders = Some (rpc_order_client wire memory_ports),
     pp_locker = op_locker memory_ports, pp_lockTTL = 10 * 1000000000\<rparr>"

definition mysql_pay :: "(error \<Rightarrow> error) \<Rightarrow> 'z pay_world_scheme pay_ports" where
  "mysql_pay wire = (memory_pay wire)\<lparr>
     pp_Save := (\<lambda>item w. liftG pw_payments (\<lambda>r w. w\<lparr>pw_payments := r\<rparr>) (MySQL_Payment_Save (pw_fault w) item) w),
     pp_Find := (\<lambda>n w. liftG pw_payments (\<lambda>r w. w\<lparr>pw_payments := r\<rparr>) (MySQL_Payment_Find (pw_fault w) n) w)\<rparr>"

definition same_pay :: "'z pay_world_scheme \<Rightarrow> 'z pay_world_scheme \<Rightarrow> bool" where
  "same_pay w w' \<longleftrightarrow> pw_payments w' = pw_payments w \<and> pw_refunds w' = pw_refunds w"

interpretation same_pay: state_preorder same_pay
  by unfold_locales (auto simp: same_pay_def)

lemma memory_ports_same_pay: "ports_keep same_pay memory_ports"
  by (auto simp: ports_keep_def memory_ports_def keepsG_def same_pay_def liftG_def world_Acquire_def ProgramClient_nil_def returnG_def
      split: prod.splits)

lemma order_client_keeps:
  "keeps_pay (\<lambda>w. map_of (pw_payments w)) pw_refunds (oc_HandlePaymentCallback (rpc_order_client wire memory_ports) n amount paid)"
  "keeps_pay (\<lambda>w. map_of (pw_payments w)) pw_refunds (oc_MarkOrderRefunded (rpc_order_client wire memory_ports) n)"
proof -
  have pair: "(case p of (e, x) \<Rightarrow> failG e) = failG (fst p)" for p :: "error \<times> 'x" by (cases p) simp
  have "keepsG same_pay (oc_HandlePaymentCallback (rpc_order_client wire memory_ports) n amount paid)"
    "keepsG same_pay (oc_MarkOrderRefunded (rpc_order_client wire memory_ports) n)"
    unfolding rpc_order_client_def order_client.select_convs over_wire_def Server_HandlePaymentCallback_def Server_MarkOrderRefunded_def
    by (intro same_pay.keeps_rules same_pay.order_commands_keep memory_ports_same_pay,
        auto split: sum.splits intro: same_pay.keeps_rules same_pay.order_commands_keep memory_ports_same_pay)+
  then show "keeps_pay (\<lambda>w. map_of (pw_payments w)) pw_refunds (oc_HandlePaymentCallback (rpc_order_client wire memory_ports) n amount paid)"
    "keeps_pay (\<lambda>w. map_of (pw_payments w)) pw_refunds (oc_MarkOrderRefunded (rpc_order_client wire memory_ports) n)"
    by (auto simp: keeps_pay_def keepsG_def same_pay_def)
qed

lemma pay_locks_keep_pay:
  "op_locker memory_ports = Some (Acquire, Release) \<Longrightarrow> keeps_pay (\<lambda>w. map_of (pw_payments w)) pw_refunds (Acquire k ttl)"
  "op_locker memory_ports = Some (Acquire, Release) \<Longrightarrow> keeps_pay (\<lambda>w. map_of (pw_payments w)) pw_refunds (Release h)"
  by (auto simp: memory_ports_def keeps_pay_def liftG_def world_Acquire_def split: prod.splits)

interpretation memory_payments: pay_store "memory_pay wire" "\<lambda>w. map_of (pw_payments w)" pw_refunds for wire
  using order_client_keeps [of wire] pay_locks_keep_pay
  by unfold_locales
    (auto simp: memory_pay_def keeps_pay_def [of _ _ "liftG _ _ _"] liftG_def Payment_Find_def Payment_Save_def protected_save_def update_conv' logged_refund_def
      Mock_Refund_def returnG_def modifyG_def split: option.splits)

lemma mysql_find_keeps: "keeps_pay (\<lambda>w. map_of (pw_payments w)) pw_refunds (pp_Find (mysql_pay wire) n)"
  by (auto simp: keeps_pay_def mysql_pay_def liftG_def MySQL_Payment_Find_def split: option.splits)

interpretation mysql_payments: pay_store "mysql_pay wire" "\<lambda>w. map_of (pw_payments w)" pw_refunds for wire
proof (unfold_locales, goal_cases)
  case (1 n)
  show ?case by (rule mysql_find_keeps)
qed (use order_client_keeps [of wire] pay_locks_keep_pay in \<open>auto simp: mysql_pay_def memory_pay_def liftG_def MySQL_Payment_Find_def
      MySQL_Payment_Save_def merge_payment_def protected_save_def update_conv' logged_refund_def Mock_Refund_def returnG_def modifyG_def
      split: option.splits if_splits\<close>)

section \<open>Properties\<close>

inductive callback_step :: "'w pay_ports \<Rightarrow> 'w \<Rightarrow> 'w \<Rightarrow> bool" for U where
  "callback_step U w (snd (Callback U n amount channel paid w))"

context pay_store
begin

lemma callbacks_settle: "(callback_step U)\<^sup>*\<^sup>* w w' \<Longrightarrow> settles w w'"
  by (induction rule: rtranclp_induct) (auto simp: callback_step.simps intro: st.R_refl st.R_trans Callback_settles)

end


definition sample_pay :: pay_world where
  "sample_pay = \<lparr>ow_orders = [(42, sample_order\<lparr>ord_Status := StatusCancel, ord_CanceledAt := Some 15\<rparr>)], ow_locks = NewMemoryLocker, ow_now = 20,
     ow_tokens = [''a'', ''b'', ''c''], pw_payments = [(41, \<lparr>pay_OrderNumber = 41, pay_AmountCent = 100, pay_Channel = ''mock'', pay_Status = PaymentPaid\<rparr>)],
     pw_refunds = [], pw_fault = None\<rparr>"


end
