(* ===== verification/Events.thy ===== *)
theory Events
  imports App_Errors
begin

text \<open>
  Events of the message broker (\<open>src/pkg/mq\<close>) and their JSON payloads.

  \<open>encoding/json\<close> is modelled on the document tree: \<open>json\<close> is a parsed document, \<open>marshal\<close> and \<open>unmarshal\<close>
  follow the struct tags of the source. Unmarshalling reads the fields it knows by name, leaves the zero
  value where a field is absent or null, and fails on a value of another type or an integer out of range.
  An empty slice built by \<open>append([]T(nil), ...)\<close> is nil and so marshals to null. A time is its own kind
  of scalar. The text form of documents is not modelled.
\<close>

section \<open>JSON documents\<close>

datatype json = JNull | JBool bool | JInt int | JStr string | JTime time | JArr "json list" | JObj "(string \<times> json) list"

definition json_ints :: "int64 list \<Rightarrow> json" where
  "json_ints xs = (if xs = [] then JNull else JArr (map JInt xs))"

definition field :: "string \<Rightarrow> (string \<times> json) list \<Rightarrow> json" where
  "field f fs = (case map_of (rev fs) f of None \<Rightarrow> JNull | Some v \<Rightarrow> v)"

definition get_int :: "json \<Rightarrow> int64 option" where
  "get_int v = (case v of JNull \<Rightarrow> Some 0 | JInt n \<Rightarrow> if in64 n then Some n else None | _ \<Rightarrow> None)"

definition get_str :: "json \<Rightarrow> string option" where
  "get_str v = (case v of JNull \<Rightarrow> Some [] | JStr s \<Rightarrow> Some s | _ \<Rightarrow> None)"

definition get_time :: "json \<Rightarrow> time option" where
  "get_time v = (case v of JNull \<Rightarrow> Some 0 | JTime t \<Rightarrow> Some t | _ \<Rightarrow> None)"

fun get_all :: "('a \<Rightarrow> 'b option) \<Rightarrow> 'a list \<Rightarrow> 'b list option" where
  "get_all f [] = Some []"
| "get_all f (x # xs) = (case f x of None \<Rightarrow> None | Some y \<Rightarrow> map_option (Cons y) (get_all f xs))"

definition get_ints :: "json \<Rightarrow> int64 list option" where
  "get_ints v = (case v of JNull \<Rightarrow> Some [] | JArr vs \<Rightarrow> get_all get_int vs | _ \<Rightarrow> None)"

lemma get_all_map: "\<forall>x \<in> set xs. f (g x) = Some x \<Longrightarrow> get_all f (map g xs) = Some xs"
  by (induction xs) auto

lemma get_ints_round_trip: "\<forall>x \<in> set xs. in64 x \<Longrightarrow> get_ints (json_ints xs) = Some xs"
  by (auto simp: get_ints_def json_ints_def get_int_def intro: get_all_map)

section \<open>Events\<close>

record mq_header =
  hdr_EventID :: string
  hdr_TraceID :: string
  hdr_SchemaVersion :: string
  hdr_OccurredAt :: time

record Event =
  ev_Topic :: string
  ev_Key :: string
  ev_Header :: mq_header
  ev_Payload :: json

record CreateOrderEvent =
  coe_OrderNumber :: int64
  coe_ProgramID :: int64
  coe_UserID :: int64
  coe_TicketCategoryID :: int64
  coe_SeatIDs :: "int64 list"
  coe_TicketUserIDs :: "int64 list"
  coe_AmountCent :: int64
  coe_IdentifierID :: int64
  coe_OrderVersion :: string
  coe_CreatedAt :: time

definition marshal_create_order :: "CreateOrderEvent \<Rightarrow> json" where
  "marshal_create_order e = JObj
     [(''order_number'', JInt (coe_OrderNumber e)), (''program_id'', JInt (coe_ProgramID e)), (''user_id'', JInt (coe_UserID e)),
      (''ticket_category_id'', JInt (coe_TicketCategoryID e)), (''seat_ids'', json_ints (coe_SeatIDs e)),
      (''ticket_user_ids'', json_ints (coe_TicketUserIDs e)), (''amount_cent'', JInt (coe_AmountCent e)),
      (''identifier_id'', JInt (coe_IdentifierID e)), (''order_version'', JStr (coe_OrderVersion e)),
      (''created_at'', JTime (coe_CreatedAt e))]"

definition unmarshal_create_order :: "json \<Rightarrow> error + CreateOrderEvent" where
  "unmarshal_create_order v = (case v of
     JObj fs \<Rightarrow>
       (case (get_int (field ''order_number'' fs), get_int (field ''program_id'' fs), get_int (field ''user_id'' fs),
              get_int (field ''ticket_category_id'' fs), get_ints (field ''seat_ids'' fs), get_ints (field ''ticket_user_ids'' fs),
              get_int (field ''amount_cent'' fs), get_int (field ''identifier_id'' fs), get_str (field ''order_version'' fs),
              get_time (field ''created_at'' fs)) of
          (Some n, Some p, Some u, Some c, Some seats, Some tus, Some amount, Some ident, Some version, Some created) \<Rightarrow>
            Inr \<lparr>coe_OrderNumber = n, coe_ProgramID = p, coe_UserID = u, coe_TicketCategoryID = c, coe_SeatIDs = seats,
                 coe_TicketUserIDs = tus, coe_AmountCent = amount, coe_IdentifierID = ident, coe_OrderVersion = version,
                 coe_CreatedAt = created\<rparr>
        | _ \<Rightarrow> Inl (PlainError ''json: cannot unmarshal''))
   | _ \<Rightarrow> Inl (PlainError ''json: cannot unmarshal''))"

definition event_in64 :: "CreateOrderEvent \<Rightarrow> bool" where
  "event_in64 e \<longleftrightarrow> (\<forall>x \<in> {coe_OrderNumber e, coe_ProgramID e, coe_UserID e, coe_TicketCategoryID e, coe_AmountCent e, coe_IdentifierID e}
     \<union> set (coe_SeatIDs e) \<union> set (coe_TicketUserIDs e). in64 x)"

lemma create_order_round_trip: "event_in64 e \<Longrightarrow> unmarshal_create_order (marshal_create_order e) = Inr e"
  by (simp add: marshal_create_order_def unmarshal_create_order_def field_def event_in64_def get_int_def get_str_def get_time_def
      get_ints_round_trip)

section \<open>The in-memory broker\<close>

type_synonym MemoryBroker = "string \<Rightarrow> Event list"

definition NewMemoryBroker :: MemoryBroker where
  "NewMemoryBroker = (\<lambda>_. [])"

definition Broker_Publish :: "Event \<Rightarrow> (MemoryBroker, unit) go" where
  "Broker_Publish event b = (Inr (), b(ev_Topic event := b (ev_Topic event) @ [event]))"

definition Broker_Consume :: "string \<Rightarrow> int \<Rightarrow> (MemoryBroker, Event list) go" where
  "Broker_Consume topic limit b =
     (if limit \<le> 0 \<or> b topic = [] then (Inr [], b)
      else let n = (if limit > int (length (b topic)) then length (b topic) else nat limit)
           in (Inr (take n (b topic)), b(topic := drop n (b topic))))"

text \<open>Events leave the broker in the order they came, each once.\<close>

lemma broker_fifo: "Broker_Consume topic limit b = (Inr evs, b') \<Longrightarrow> evs @ b' topic = b topic"
  by (auto simp: Broker_Consume_def Let_def split: if_splits)

end
