(* ===== verification/Delay_Queue.thy ===== *)
theory Delay_Queue
  imports Events "HOL-Library.AList" "HOL-Library.Product_Lexorder" "HOL-Library.List_Lexorder" "HOL-Library.Char_ord"
begin

text \<open>
  The delay queue (\<open>src/pkg/delayqueue\<close>): messages become due at a time, are claimed in batches, are
  invisible to other claimants for a visibility timeout and come back unless they are acknowledged.
  Modelled is the in-process queue; the maps of Go are association lists with distinct keys, the nil map
  of an unknown topic is the empty list.

  The theorems are the three guarantees the cancel worker needs: a message is not lost before it is
  acknowledged, a claimed message is not handed out again within the timeout, and a due message is handed
  out by a large enough claim.
\<close>

record Message =
  msg_ID :: string
  msg_Topic :: string
  msg_Payload :: json
  msg_AvailableAt :: time
  msg_Attempts :: int

record memoryClaim =
  mc_message :: Message
  mc_visibleAt :: time

record MemoryQueue =
  dq_messages :: "string \<Rightarrow> (string \<times> Message) list"
  dq_processing :: "string \<Rightarrow> (string \<times> memoryClaim) list"
  dq_visibilityTimeout :: duration

definition defaultVisibilityTimeout :: duration where
  "defaultVisibilityTimeout = 2 * 60 * 1000000000"

definition NewMemoryQueue :: MemoryQueue where
  "NewMemoryQueue = \<lparr>dq_messages = (\<lambda>_. []), dq_processing = (\<lambda>_. []), dq_visibilityTimeout = defaultVisibilityTimeout\<rparr>"

definition WithVisibilityTimeout :: "duration \<Rightarrow> MemoryQueue \<Rightarrow> MemoryQueue" where
  "WithVisibilityTimeout timeout q = (if timeout > 0 then q\<lparr>dq_visibilityTimeout := timeout\<rparr> else q)"

definition Queue_Enqueue :: "Message \<Rightarrow> (MemoryQueue, unit) go" where
  "Queue_Enqueue msg q =
     (Inr (), q\<lparr>dq_messages := (dq_messages q)(msg_Topic msg := AList.update (msg_ID msg) msg (dq_messages q (msg_Topic msg))),
               dq_processing := (dq_processing q)(msg_Topic msg := AList.delete (msg_ID msg) (dq_processing q (msg_Topic msg)))\<rparr>)"

text \<open>The first loop of \<open>ClaimDue\<close>: claims whose timeout is over become messages again.\<close>

definition requeue_expired :: "time \<Rightarrow> (string \<times> memoryClaim) list \<Rightarrow> (string \<times> Message) list \<Rightarrow> (string \<times> Message) list" where
  "requeue_expired now claims messages =
     fold (\<lambda>(i, claim) ms. if \<not> mc_visibleAt claim > now then AList.update i (mc_message claim) ms else ms) claims messages"

definition still_claimed :: "time \<Rightarrow> (string \<times> memoryClaim) list \<Rightarrow> (string \<times> memoryClaim) list" where
  "still_claimed now claims = filter (\<lambda>(i, claim). mc_visibleAt claim > now) claims"

definition due_messages :: "time \<Rightarrow> nat \<Rightarrow> (string \<times> Message) list \<Rightarrow> Message list" where
  "due_messages now limit messages =
     take limit (sort_key (\<lambda>m. (msg_AvailableAt m, msg_ID m)) (filter (\<lambda>m. \<not> msg_AvailableAt m > now) (map snd messages)))"

definition Queue_ClaimDue :: "string \<Rightarrow> time \<Rightarrow> int \<Rightarrow> (MemoryQueue, Message list) go" where
  "Queue_ClaimDue topic now limit q =
     (if limit \<le> 0 then (Inr [], q)
      else
        let messages = requeue_expired now (dq_processing q topic) (dq_messages q topic);
            processing = still_claimed now (dq_processing q topic);
            due = map (\<lambda>m. m\<lparr>msg_Attempts := msg_Attempts m + 1\<rparr>) (due_messages now (nat limit) messages)
        in (Inr due,
            q\<lparr>dq_messages := (dq_messages q)(topic := fold (\<lambda>m. AList.delete (msg_ID m)) due messages),
              dq_processing := (dq_processing q)(topic :=
                fold (\<lambda>m. AList.update (msg_ID m) \<lparr>mc_message = m, mc_visibleAt = now + dq_visibilityTimeout q\<rparr>) due processing)\<rparr>))"

definition Queue_Ack :: "string \<Rightarrow> string \<Rightarrow> (MemoryQueue, unit) go" where
  "Queue_Ack topic i q =
     (Inr (), q\<lparr>dq_messages := (dq_messages q)(topic := AList.delete i (dq_messages q topic)),
               dq_processing := (dq_processing q)(topic := AList.delete i (dq_processing q topic))\<rparr>)"

section \<open>Lookup in the maps\<close>

lemma map_of_requeue:
  assumes "distinct (map fst claims)"
  shows "map_of (requeue_expired now claims messages) i =
    (case map_of claims i of
       Some c \<Rightarrow> if mc_visibleAt c > now then map_of messages i else Some (mc_message c)
     | None \<Rightarrow> map_of messages i)"
  using assms unfolding requeue_expired_def
proof (induction claims arbitrary: messages)
  case (Cons kc claims)
  obtain k c where kc: "kc = (k, c)" by (cases kc)
  have "map_of claims k = None" using Cons.prems by (simp add: kc map_of_eq_None_iff)
  with Cons kc show ?case by (auto simp: update_conv split: option.splits)
qed simp

lemma map_of_still:
  assumes "distinct (map fst claims)"
  shows "map_of (still_claimed now claims) i =
    (case map_of claims i of Some c \<Rightarrow> if mc_visibleAt c > now then Some c else None | None \<Rightarrow> None)"
  using assms unfolding still_claimed_def
proof (induction claims)
  case (Cons kc claims)
  obtain k c where kc: "kc = (k, c)" by (cases kc)
  have "map_of claims k = None" using Cons.prems by (simp add: kc map_of_eq_None_iff)
  with Cons kc show ?case by (auto split: option.splits)
qed simp

lemma map_of_fold_delete: "map_of (fold (\<lambda>m. AList.delete (f m)) ms xs) i = (if i \<in> f ` set ms then None else map_of xs i)"
  by (induction ms arbitrary: xs) (auto simp: delete_conv)

lemma map_of_fold_update:
  "map_of (fold (\<lambda>m. AList.update (f m) (g m)) ms xs) = map_of xs ++ map_of (rev (map (\<lambda>m. (f m, g m)) ms))"
  by (induction ms arbitrary: xs) (auto simp: update_conv' map_add_def fun_eq_iff split: option.splits)

lemma map_of_tagged:
  assumes "distinct (map f ms)"
  shows "map_of (rev (map (\<lambda>m. (f m, g m)) ms)) i = Some v \<longleftrightarrow> (\<exists>m \<in> set ms. f m = i \<and> g m = v)"
proof -
  have "map fst (rev (map (\<lambda>m. (f m, g m)) ms)) = rev (map f ms)" by (simp add: rev_map [symmetric] comp_def)
  with assms have "distinct (map fst (rev (map (\<lambda>m. (f m, g m)) ms)))" by simp
  then show ?thesis by (subst map_of_eq_Some_iff) auto
qed

lemma keys_fold_update: "distinct (map fst xs) \<Longrightarrow> distinct (map fst (fold (\<lambda>m. AList.update (f m) (g m)) ms xs))"
  by (induction ms arbitrary: xs) (auto simp: distinct_update)

lemma keys_fold_delete: "distinct (map fst xs) \<Longrightarrow> distinct (map fst (fold (\<lambda>m. AList.delete (f m)) ms xs))"
  by (induction ms arbitrary: xs) (auto simp: distinct_delete)

lemma keys_requeue: "distinct (map fst ms) \<Longrightarrow> distinct (map fst (requeue_expired now cs ms))"
  unfolding requeue_expired_def by (induction cs arbitrary: ms) (auto simp: distinct_update)

lemma keys_still: "distinct (map fst cs) \<Longrightarrow> distinct (map fst (still_claimed now cs))"
  unfolding still_claimed_def by (simp add: distinct_map_filter)

lemma length_update_le: "length (AList.update k v xs) \<le> Suc (length xs)"
  by (induction xs) auto

lemma length_requeue: "length (requeue_expired now cs ms) \<le> length cs + length ms"
  unfolding requeue_expired_def
proof (induction cs arbitrary: ms)
  case (Cons c cs)
  have "length ((\<lambda>(i, claim) ms. if \<not> mc_visibleAt claim > now then AList.update i (mc_message claim) ms else ms) c ms) \<le> Suc (length ms)"
    using length_update_le by (auto split: prod.splits intro: le_SucI)
  with Cons.IH [of "(\<lambda>(i, claim) ms. if \<not> mc_visibleAt claim > now then AList.update i (mc_message claim) ms else ms) c ms"]
  show ?case by simp
qed simp

section \<open>Invariant\<close>

definition topic_ok :: "(string \<times> Message) list \<Rightarrow> (string \<times> memoryClaim) list \<Rightarrow> bool" where
  "topic_ok ms cs \<longleftrightarrow> distinct (map fst ms) \<and> distinct (map fst cs)
     \<and> (\<forall>i m. map_of ms i = Some m \<longrightarrow> msg_ID m = i \<and> map_of cs i = None)
     \<and> (\<forall>i c. map_of cs i = Some c \<longrightarrow> msg_ID (mc_message c) = i)"

definition queue_ok :: "MemoryQueue \<Rightarrow> bool" where
  "queue_ok q \<longleftrightarrow> (\<forall>topic. topic_ok (dq_messages q topic) (dq_processing q topic))"

lemma topic_ok_disjoint: "topic_ok ms cs \<Longrightarrow> map_of cs i = Some c \<Longrightarrow> map_of ms i = None"
  unfolding topic_ok_def by (metis not_None_eq option.distinct(1))

lemma topic_ok_claim:
  assumes "topic_ok ms cs"
  shows "topic_ok (requeue_expired now cs ms) (still_claimed now cs)"
  using assms topic_ok_disjoint [OF assms]
  by (auto simp: topic_ok_def keys_requeue keys_still map_of_requeue map_of_still simp del: map_of_eq_Some_iff split: option.splits if_splits)

text \<open>What a claim returns and what it leaves, by message identifier.\<close>

definition claimable :: "time \<Rightarrow> (string \<times> memoryClaim) list \<Rightarrow> (string \<times> Message) list \<Rightarrow> string \<Rightarrow> Message option" where
  "claimable now cs ms i = (case map_of cs i of
     Some c \<Rightarrow> if mc_visibleAt c > now then None else Some (mc_message c)
   | None \<Rightarrow> map_of ms i)"

lemma due_subset: "m \<in> set (due_messages now limit ms) \<Longrightarrow> m \<in> snd ` set ms \<and> msg_AvailableAt m \<le> now"
  by (auto simp: due_messages_def dest!: in_set_takeD)

lemma due_distinct:
  assumes "distinct (map fst ms)" and "\<forall>i m. map_of ms i = Some m \<longrightarrow> msg_ID m = i"
  shows "distinct (map msg_ID (due_messages now limit ms))"
proof -
  have eq: "map (msg_ID \<circ> snd) ms = map fst ms"
    using assms by (auto simp: map_of_eq_Some_iff)
  have "distinct (map msg_ID (map snd ms))" using assms(1) by (simp only: map_map eq)
  then have d: "distinct (map msg_ID (filter (\<lambda>m. \<not> msg_AvailableAt m > now) (map snd ms)))" by (rule distinct_map_filter)
  let ?s = "sort_key (\<lambda>m. (msg_AvailableAt m, msg_ID m)) (filter (\<lambda>m. \<not> msg_AvailableAt m > now) (map snd ms))"
  from d have "distinct (map msg_ID ?s)" by (simp add: distinct_map)
  then show ?thesis unfolding due_messages_def take_map [symmetric] by (rule distinct_take)
qed

lemma claim_run:
  assumes ok: "queue_ok q" and run: "Queue_ClaimDue topic now limit q = (Inr due, q')" and pos: "0 < limit"
  shows "\<And>m. m \<in> set due \<Longrightarrow> \<exists>m0. claimable now (dq_processing q topic) (dq_messages q topic) (msg_ID m) = Some m0
      \<and> m = m0\<lparr>msg_Attempts := msg_Attempts m0 + 1\<rparr> \<and> msg_AvailableAt m \<le> now"
    and "distinct (map msg_ID due)"
    and "map_of (dq_messages q' topic) i =
      (if i \<in> msg_ID ` set due then None else claimable now (dq_processing q topic) (dq_messages q topic) i)"
    and "\<And>m. m \<in> set due \<Longrightarrow> map_of (dq_processing q' topic) (msg_ID m) = Some \<lparr>mc_message = m, mc_visibleAt = now + dq_visibilityTimeout q\<rparr>"
    and "i \<notin> msg_ID ` set due \<Longrightarrow> map_of (dq_processing q' topic) i = map_of (still_claimed now (dq_processing q topic)) i"
    and "t \<noteq> topic \<Longrightarrow> dq_messages q' t = dq_messages q t \<and> dq_processing q' t = dq_processing q t"
    and "topic_ok (dq_messages q' topic) (dq_processing q' topic)" and "dq_visibilityTimeout q' = dq_visibilityTimeout q"
proof -
  let ?cs = "dq_processing q topic"
  define M where "M = requeue_expired now ?cs (dq_messages q topic)"
  define D where "D = due_messages now (nat limit) M"
  have due: "due = map (\<lambda>m. m\<lparr>msg_Attempts := msg_Attempts m + 1\<rparr>) D"
    and ms: "dq_messages q' topic = fold (\<lambda>m. AList.delete (msg_ID m)) due M"
    and ps: "dq_processing q' topic = fold (\<lambda>m. AList.update (msg_ID m) \<lparr>mc_message = m, mc_visibleAt = now + dq_visibilityTimeout q\<rparr>) due (still_claimed now ?cs)"
    using run pos by (auto simp: Queue_ClaimDue_def Let_def M_def D_def)
  show "t \<noteq> topic \<Longrightarrow> dq_messages q' t = dq_messages q t \<and> dq_processing q' t = dq_processing q t"
    "dq_visibilityTimeout q' = dq_visibilityTimeout q"
    using run pos by (auto simp: Queue_ClaimDue_def Let_def)
  have tok: "topic_ok (dq_messages q topic) ?cs" using ok by (simp add: queue_ok_def)
  note tok' = topic_ok_claim [OF tok, of now, folded M_def]
  have M: "map_of M j = claimable now ?cs (dq_messages q topic) j" for j
    using tok topic_ok_disjoint [OF tok, of j] unfolding M_def claimable_def topic_ok_def
    by (auto simp: map_of_requeue simp del: map_of_eq_Some_iff split: option.splits)
  have ids: "map msg_ID due = map msg_ID D" by (simp add: due comp_def)
  show dist: "distinct (map msg_ID due)"
    unfolding ids D_def using tok' by (intro due_distinct) (auto simp: topic_ok_def)
  show "\<exists>m0. claimable now ?cs (dq_messages q topic) (msg_ID m) = Some m0 \<and> m = m0\<lparr>msg_Attempts := msg_Attempts m0 + 1\<rparr> \<and> msg_AvailableAt m \<le> now"
    if m: "m \<in> set due" for m
  proof -
    from m obtain m0 where m0: "m0 \<in> set D" "m = m0\<lparr>msg_Attempts := msg_Attempts m0 + 1\<rparr>" by (auto simp: due)
    from due_subset [OF m0(1) [unfolded D_def]] obtain j where "(j, m0) \<in> set M" and le: "msg_AvailableAt m0 \<le> now" by auto
    then have "map_of M j = Some m0" using tok' by (simp add: topic_ok_def)
    moreover from this tok' have "msg_ID m0 = j" by (simp add: topic_ok_def)
    ultimately show ?thesis using m0 le M [of j] by auto
  qed
  show "map_of (dq_messages q' topic) i = (if i \<in> msg_ID ` set due then None else claimable now ?cs (dq_messages q topic) i)" for i
    unfolding ms map_of_fold_delete M ..
  show p1: "map_of (dq_processing q' topic) (msg_ID m) = Some \<lparr>mc_message = m, mc_visibleAt = now + dq_visibilityTimeout q\<rparr>"
    if "m \<in> set due" for m
    using that unfolding ps map_of_fold_update map_add_Some_iff map_of_tagged [OF dist] by blast
  show p2: "map_of (dq_processing q' topic) i = map_of (still_claimed now ?cs) i" if "i \<notin> msg_ID ` set due" for i
  proof -
    have "map_of (rev (map (\<lambda>m. (msg_ID m, \<lparr>mc_message = m, mc_visibleAt = now + dq_visibilityTimeout q\<rparr>)) due)) i = None"
      using that map_of_tagged [OF dist, of "\<lambda>m. \<lparr>mc_message = m, mc_visibleAt = now + dq_visibilityTimeout q\<rparr>" i]
      by (cases "map_of (rev (map (\<lambda>m. (msg_ID m, \<lparr>mc_message = m, mc_visibleAt = now + dq_visibilityTimeout q\<rparr>)) due)) i") auto
    then show ?thesis unfolding ps map_of_fold_update by (simp add: map_add_def)
  qed
  have "map_of (dq_processing q' topic) j = None" if "map_of (dq_messages q' topic) j = Some m" for j m
    using that p2 [of j] tok' unfolding ms map_of_fold_delete topic_ok_def by (auto simp del: map_of_eq_Some_iff split: if_splits)
  moreover have "msg_ID (mc_message c) = j" if "map_of (dq_processing q' topic) j = Some c" for j c
    using that p2 [of j] p1 tok' unfolding topic_ok_def by (cases "j \<in> msg_ID ` set due") (auto simp del: map_of_eq_Some_iff)
  moreover have "msg_ID m = j" if "map_of (dq_messages q' topic) j = Some m" for j m
    using that tok' unfolding ms map_of_fold_delete topic_ok_def by (auto simp del: map_of_eq_Some_iff split: if_splits)
  moreover have "distinct (map fst (dq_messages q' topic))" "distinct (map fst (dq_processing q' topic))"
    using tok' unfolding ms ps topic_ok_def by (auto intro: keys_fold_delete keys_fold_update)
  ultimately show "topic_ok (dq_messages q' topic) (dq_processing q' topic)" unfolding topic_ok_def by blast
qed

section \<open>Runs\<close>

datatype queue_op = EnqueueOp Message | ClaimOp string time int | AckOp string string

fun queue_step :: "queue_op \<Rightarrow> MemoryQueue \<Rightarrow> MemoryQueue" where
  "queue_step (EnqueueOp m) q = snd (Queue_Enqueue m q)"
| "queue_step (ClaimOp topic now limit) q = snd (Queue_ClaimDue topic now limit q)"
| "queue_step (AckOp topic i) q = snd (Queue_Ack topic i q)"

definition known :: "MemoryQueue \<Rightarrow> string \<Rightarrow> string \<Rightarrow> Message option" where
  "known q topic i = (case map_of (dq_processing q topic) i of Some c \<Rightarrow> Some (mc_message c) | None \<Rightarrow> map_of (dq_messages q topic) i)"

definition same_message :: "Message \<Rightarrow> Message \<Rightarrow> bool" where
  "same_message a b \<longleftrightarrow> b = a\<lparr>msg_Attempts := msg_Attempts b\<rparr> \<and> msg_Attempts a \<le> msg_Attempts b"

lemma same_message_trans: "same_message a b \<Longrightarrow> same_message b c \<Longrightarrow> same_message a c"
  by (cases a; cases b; cases c) (auto simp: same_message_def)

lemma claim_inr: "\<exists>due. Queue_ClaimDue topic now limit q = (Inr due, snd (Queue_ClaimDue topic now limit q))"
  by (auto simp: Queue_ClaimDue_def Let_def)

lemma claim_other:
  "topic \<noteq> t \<or> limit \<le> 0 \<Longrightarrow> dq_messages (snd (Queue_ClaimDue t now limit q)) topic = dq_messages q topic
     \<and> dq_processing (snd (Queue_ClaimDue t now limit q)) topic = dq_processing q topic"
  by (auto simp: Queue_ClaimDue_def Let_def)

lemma queue_ok_step: "queue_ok q \<Longrightarrow> queue_ok (queue_step op q)"
proof (cases op)
  case (EnqueueOp m)
  assume "queue_ok q"
  then show ?thesis
    unfolding EnqueueOp queue_ok_def topic_ok_def
    by (auto simp: Queue_Enqueue_def distinct_update distinct_delete update_conv' delete_conv' simp del: map_of_eq_Some_iff)
next
  case (ClaimOp topic now limit)
  assume ok: "queue_ok q"
  obtain due where run: "Queue_ClaimDue topic now limit q = (Inr due, snd (Queue_ClaimDue topic now limit q))" using claim_inr by blast
  show ?thesis
  proof (cases "0 < limit")
    case True
    have "topic_ok (dq_messages (queue_step op q) t) (dq_processing (queue_step op q) t)" for t
      using claim_run(6,7) [OF ok run True] ok by (cases "t = topic") (auto simp: ClaimOp queue_ok_def)
    then show ?thesis by (simp add: queue_ok_def)
  next
    case False
    with ok show ?thesis by (simp add: ClaimOp Queue_ClaimDue_def)
  qed
next
  case (AckOp topic i)
  assume "queue_ok q"
  then show ?thesis
    unfolding AckOp queue_ok_def topic_ok_def
    by (auto simp: Queue_Ack_def distinct_delete delete_conv' simp del: map_of_eq_Some_iff)
qed

definition leaves :: "string \<Rightarrow> string \<Rightarrow> queue_op \<Rightarrow> bool" where
  "leaves topic i op = (case op of
     EnqueueOp m \<Rightarrow> (msg_Topic m, msg_ID m) \<noteq> (topic, i) | ClaimOp t now limit \<Rightarrow> True | AckOp t j \<Rightarrow> (t, j) \<noteq> (topic, i))"

lemma known_claim:
  assumes ok: "queue_ok q" and m: "known q topic i = Some m"
  shows "\<exists>m'. known (snd (Queue_ClaimDue t now limit q)) topic i = Some m' \<and> same_message m m'"
proof (cases "0 < limit \<and> t = topic")
  case True
  obtain due where run: "Queue_ClaimDue topic now limit q = (Inr due, snd (Queue_ClaimDue topic now limit q))" using claim_inr by blast
  note R = claim_run [OF ok run True [THEN conjunct1]]
  have tok: "topic_ok (dq_messages q topic) (dq_processing q topic)" using ok by (simp add: queue_ok_def)
  show ?thesis
  proof (cases "i \<in> msg_ID ` set due")
    case in_due: True
    then obtain d where d: "d \<in> set due" "msg_ID d = i" by blast
    from R(1) [OF d(1)] d(2) m have "d = m\<lparr>msg_Attempts := msg_Attempts m + 1\<rparr>"
      by (auto simp: claimable_def known_def simp del: map_of_eq_Some_iff split: option.splits if_splits)
    with R(4) [OF d(1)] d(2) True show ?thesis by (auto simp: known_def same_message_def simp del: map_of_eq_Some_iff)
  next
    case False
    with R(3) [of i] R(5) [OF False] m True map_of_still [of "dq_processing q topic" now i] tok show ?thesis
      by (intro exI [of _ m]) (auto simp: known_def claimable_def same_message_def topic_ok_def simp del: map_of_eq_Some_iff split: option.splits if_splits)
  qed
next
  case False
  then have "known (snd (Queue_ClaimDue t now limit q)) topic i = known q topic i"
    using claim_other [of topic t limit now q] by (auto simp: known_def split: option.split)
  with m show ?thesis by (auto simp: same_message_def)
qed

lemma known_others:
  "leaves topic i (EnqueueOp m) \<Longrightarrow> known (snd (Queue_Enqueue m q)) topic i = known q topic i"
  "leaves topic i (AckOp t j) \<Longrightarrow> known (snd (Queue_Ack t j q)) topic i = known q topic i"
  by (auto simp: leaves_def Queue_Enqueue_def Queue_Ack_def known_def update_conv' delete_conv' simp del: map_of_eq_Some_iff
      split: option.split)

lemma known_step:
  assumes ok: "queue_ok q" and m: "known q topic i = Some m" and "leaves topic i op"
  shows "\<exists>m'. known (queue_step op q) topic i = Some m' \<and> same_message m m'"
proof (cases op)
  case (ClaimOp t now limit)
  with known_claim [OF ok m] show ?thesis by simp
qed (use m assms(3) in \<open>auto simp: known_others same_message_def\<close>)

section \<open>The promise of a delay queue\<close>

text \<open>
  What a user of a delay queue relies on: \<open>known\<close> is the message of an identifier that the queue still has to deliver, \<open>step\<close> what an
  operation does to the queue, and \<open>served\<close> says which operations are considered.
\<close>

locale delay_queue =
  fixes ok :: "'s \<Rightarrow> bool" and known_in :: "'s \<Rightarrow> string \<Rightarrow> string \<Rightarrow> Message option"
    and step :: "queue_op \<Rightarrow> 's \<Rightarrow> 's" and served :: "queue_op \<Rightarrow> bool"
  assumes ok_step: "ok q \<Longrightarrow> served op \<Longrightarrow> ok (step op q)"
    and keeps_message: "ok q \<Longrightarrow> served op \<Longrightarrow> known_in q topic i = Some m \<Longrightarrow> leaves topic i op
      \<Longrightarrow> \<exists>m'. known_in (step op q) topic i = Some m' \<and> same_message m m'"
begin

lemma ok_run: "ok q \<Longrightarrow> list_all served ops \<Longrightarrow> ok (fold step ops q)"
  by (induction ops arbitrary: q) (auto intro: ok_step)

lemma never_lost:
  assumes "ok q" and "list_all served ops" and "known_in q topic i = Some m" and "list_all (leaves topic i) ops"
  shows "\<exists>m'. known_in (fold step ops q) topic i = Some m' \<and> same_message m m'"
  using assms
proof (induction ops arbitrary: q m)
  case (Cons op ops)
  from keeps_message [of q op topic i m] Cons.prems obtain m1 where
    m1: "known_in (step op q) topic i = Some m1" "same_message m m1" by auto
  from Cons.IH [OF ok_step [of q op] _ m1(1)] Cons.prems m1(2) show ?case
    by (auto intro: same_message_trans)
qed (simp add: same_message_def)

end

interpretation memory_queue: delay_queue queue_ok known queue_step "\<lambda>_. True"
  by unfold_locales (auto intro: queue_ok_step known_step)

lemma queue_ok_run: "queue_ok q \<Longrightarrow> queue_ok (fold queue_step ops q)"
  by (rule memory_queue.ok_run) (simp_all add: list_all_iff)

lemma timeout_run [simp]: "dq_visibilityTimeout (queue_step op q) = dq_visibilityTimeout q"
  by (cases op) (auto simp: Queue_Enqueue_def Queue_ClaimDue_def Queue_Ack_def Let_def)

text \<open>
  A message is not lost: once it is in the queue, whatever messages are enqueued, claimed and acknowledged
  next, in any order and at any times, it stays in the queue (waiting or claimed) with the same payload and
  due time until it is acknowledged or enqueued anew itself; only its number of attempts grows.
\<close>

theorem message_not_lost:
  assumes "queue_ok q" and "known q topic i = Some m" and "list_all (leaves topic i) ops"
  shows "\<exists>m'. known (fold queue_step ops q) topic i = Some m' \<and> same_message m m'"
  using assms by (intro memory_queue.never_lost) (simp_all add: list_all_iff)

definition sample_message :: Message where
  "sample_message = \<lparr>msg_ID = ''42'', msg_Topic = ''t'', msg_Payload = JNull, msg_AvailableAt = 100, msg_Attempts = 0\<rparr>"

definition sample_queue :: MemoryQueue where
  "sample_queue = snd (Queue_Enqueue sample_message NewMemoryQueue)"

lemma sample_queue_ok: "queue_ok sample_queue"
  using queue_ok_step [of NewMemoryQueue "EnqueueOp sample_message"]
  by (simp add: sample_queue_def NewMemoryQueue_def queue_ok_def topic_ok_def)

lemma sample_known: "known sample_queue ''t'' ''42'' = Some sample_message"
  by (simp add: known_def sample_queue_def Queue_Enqueue_def sample_message_def NewMemoryQueue_def)

theorem message_not_lost_witness:
  "\<exists>m'. known (fold queue_step [ClaimOp ''t'' 200 10, AckOp ''t'' ''43''] sample_queue) ''t'' ''42'' = Some m' \<and> same_message sample_message m'"
  by (rule message_not_lost [OF sample_queue_ok sample_known]) (simp add: leaves_def)

text \<open>
  A claim is exclusive for the visibility timeout: a message handed out by a claim at time \<open>now\<close> is not
  handed out by any later claim before \<open>now + visibilityTimeout\<close>, whatever happens to the queue in between,
  unless the same message is enqueued again.
\<close>

theorem claim_exclusive:
  assumes "queue_ok q" and "Queue_ClaimDue topic now limit q = (Inr due, q1)" and "m \<in> set due"
    and "\<forall>op \<in> set ops. (case op of EnqueueOp m' \<Rightarrow> (msg_Topic m', msg_ID m') \<noteq> (topic, msg_ID m)
        | ClaimOp t now' limit' \<Rightarrow> now' < now + dq_visibilityTimeout q | AckOp t j \<Rightarrow> True)"
    and "now2 < now + dq_visibilityTimeout q"
    and "Queue_ClaimDue topic now2 limit2 (fold queue_step ops q1) = (Inr due2, q2)"
  shows "msg_ID m \<notin> msg_ID ` set due2"
proof -
  let ?i = "msg_ID m" and ?e = "now + dq_visibilityTimeout q"
  define hidden where "hidden x \<longleftrightarrow> queue_ok x \<and> map_of (dq_messages x topic) ?i = None
     \<and> (\<forall>c. map_of (dq_processing x topic) ?i = Some c \<longrightarrow> ?e \<le> mc_visibleAt c)" for x
  have pos: "0 < limit" using assms(2,3) by (auto simp: Queue_ClaimDue_def split: if_splits)
  note R = claim_run [OF assms(1,2) pos]
  have ok1: "queue_ok q1" using queue_ok_step [OF assms(1), of "ClaimOp topic now limit"] assms(2) by simp
  have "hidden q1" using ok1 R(3) [of ?i] R(4) [OF assms(3)] assms(3) by (simp add: hidden_def)
  have claim: "?i \<notin> msg_ID ` set d \<and> hidden x'"
    if h: "hidden x" and c: "Queue_ClaimDue topic n l x = (Inr d, x')" and n: "n < ?e" for x x' n l d
  proof (cases "0 < l")
    case True
    note S = claim_run [OF h [unfolded hidden_def, THEN conjunct1] c True]
    have none: "claimable n (dq_processing x topic) (dq_messages x topic) ?i = None"
      using h n by (fastforce simp: hidden_def claimable_def simp del: map_of_eq_Some_iff split: option.splits)
    then have nd: "?i \<notin> msg_ID ` set d" using S(1) by (metis imageE option.distinct(1))
    have dx: "distinct (map fst (dq_processing x topic))" using h by (simp add: hidden_def queue_ok_def topic_ok_def)
    have "queue_ok x'" using h queue_ok_step [of x "ClaimOp topic n l"] c by (simp add: hidden_def)
    with S(3) [of ?i] S(5) [OF nd] none nd h map_of_still [OF dx, of n ?i] show ?thesis
      by (auto simp: hidden_def simp del: map_of_eq_Some_iff split: option.splits if_splits)
  qed (use c h in \<open>auto simp: Queue_ClaimDue_def\<close>)
  have "hidden (fold queue_step ops q1)"
    using \<open>hidden q1\<close> assms(4)
  proof (induction ops arbitrary: q1)
    case (Cons op ops)
    have "hidden (queue_step op q1)"
    proof (cases op)
      case (ClaimOp t n l)
      obtain d where c: "Queue_ClaimDue t n l q1 = (Inr d, snd (Queue_ClaimDue t n l q1))" using claim_inr by blast
      show ?thesis
      proof (cases "t = topic")
        case True
        with claim [OF Cons.prems(1) c [unfolded True]] Cons.prems(2) ClaimOp show ?thesis by simp
      next
        case False
        then have "dq_messages (queue_step op q1) topic = dq_messages q1 topic" "dq_processing (queue_step op q1) topic = dq_processing q1 topic"
          by (auto simp: ClaimOp Queue_ClaimDue_def Let_def)
        with Cons.prems(1) queue_ok_step [of q1 op] show ?thesis by (simp add: hidden_def)
      qed
    qed (use Cons.prems queue_ok_step [of q1 op] in \<open>auto simp: hidden_def Queue_Enqueue_def Queue_Ack_def update_conv' delete_conv'
        simp del: map_of_eq_Some_iff split: if_splits\<close>)
    with Cons show ?case by simp
  qed simp
  from claim [OF this assms(6,5)] show ?thesis ..
qed

lemma due_in_claim:
  assumes "queue_ok q" and "known q topic i = Some m" and "msg_AvailableAt m \<le> now"
    and "\<forall>c. map_of (dq_processing q topic) i = Some c \<longrightarrow> mc_visibleAt c \<le> now"
    and "int (length (dq_messages q topic) + length (dq_processing q topic)) \<le> limit"
  shows "\<exists>due q'. Queue_ClaimDue topic now limit q = (Inr due, q') \<and> m\<lparr>msg_Attempts := msg_Attempts m + 1\<rparr> \<in> set due"
proof -
  let ?M = "requeue_expired now (dq_processing q topic) (dq_messages q topic)"
  note len = length_requeue [of now]
  have "map_of ?M i = Some m"
    using assms(1,2,4) by (auto simp: queue_ok_def topic_ok_def map_of_requeue known_def simp del: map_of_eq_Some_iff split: option.splits)
  then have "m \<in> set (sort_key (\<lambda>m. (msg_AvailableAt m, msg_ID m)) (filter (\<lambda>m. \<not> msg_AvailableAt m > now) (map snd ?M)))"
    using assms(3) by (force dest: map_of_SomeD)
  moreover have "length (sort_key (\<lambda>m. (msg_AvailableAt m, msg_ID m)) (filter (\<lambda>m. \<not> msg_AvailableAt m > now) (map snd ?M))) \<le> nat limit"
  proof -
    have "length (filter (\<lambda>m. \<not> msg_AvailableAt m > now) (map snd ?M)) \<le> length ?M" by (metis length_filter_le length_map)
    also have "\<dots> \<le> nat limit" using len [of "dq_processing q topic" "dq_messages q topic"] assms(5) by linarith
    finally show ?thesis by simp
  qed
  ultimately have "m \<in> set (due_messages now (nat limit) ?M)" by (simp add: due_messages_def)
  moreover have "0 < limit"
    using assms(2,5) by (cases "dq_messages q topic"; cases "dq_processing q topic") (auto simp: known_def)
  ultimately show ?thesis by (auto simp: Queue_ClaimDue_def Let_def)
qed

text \<open>
  A due message is delivered: a claim at a time at which the message is due and not hidden by another claim
  returns it, with its number of attempts increased, when the limit is as large as the topic.
\<close>

theorem due_message_delivered:
  assumes "queue_ok q" and "known q topic i = Some m" and "msg_AvailableAt m \<le> now"
    and "\<forall>c. map_of (dq_processing q topic) i = Some c \<longrightarrow> mc_visibleAt c \<le> now"
    and "int (length (dq_messages q topic) + length (dq_processing q topic)) \<le> limit"
  shows "\<exists>due q'. Queue_ClaimDue topic now limit q = (Inr due, q') \<and> m\<lparr>msg_Attempts := msg_Attempts m + 1\<rparr> \<in> set due"
  by (rule due_in_claim [OF assms])

lemma sample_claim:
  "Queue_ClaimDue ''t'' 200 10 sample_queue =
     (Inr [sample_message\<lparr>msg_Attempts := 1\<rparr>], snd (Queue_ClaimDue ''t'' 200 10 sample_queue))"
  by (rule run_of_fst)
    (simp add: Queue_ClaimDue_def Let_def sample_queue_def Queue_Enqueue_def sample_message_def NewMemoryQueue_def
      requeue_expired_def due_messages_def)

theorem claim_exclusive_witness:
  "''42'' \<notin> msg_ID ` set (projr (fst (Queue_ClaimDue ''t'' 300 10 (snd (Queue_ClaimDue ''t'' 200 10 sample_queue)))))"
proof -
  obtain due where d: "Queue_ClaimDue ''t'' 300 10 (snd (Queue_ClaimDue ''t'' 200 10 sample_queue)) =
      (Inr due, snd (Queue_ClaimDue ''t'' 300 10 (snd (Queue_ClaimDue ''t'' 200 10 sample_queue))))" using claim_inr by blast
  have "dq_visibilityTimeout sample_queue = 120000000000"
    by (simp add: sample_queue_def Queue_Enqueue_def NewMemoryQueue_def defaultVisibilityTimeout_def)
  with claim_exclusive [OF sample_queue_ok sample_claim, of "sample_message\<lparr>msg_Attempts := 1\<rparr>" "[]" 300 10 due] d
  have "''42'' \<notin> msg_ID ` set due" by (simp add: sample_message_def)
  with d show ?thesis by (metis fst_conv sum.sel(2))
qed

theorem due_message_delivered_witness:
  "\<exists>due q'. Queue_ClaimDue ''t'' 200 10 sample_queue = (Inr due, q') \<and> sample_message\<lparr>msg_Attempts := msg_Attempts sample_message + 1\<rparr> \<in> set due"
  by (rule due_message_delivered [OF sample_queue_ok sample_known])
    (simp_all add: sample_message_def sample_queue_def Queue_Enqueue_def NewMemoryQueue_def)

end
