(* ===== verification/Order_Consumer.thy ===== *)
theory Order_Consumer
  imports Order_Commands Delay_Queue
begin

text \<open>
  The asynchronous half of the order service: the consumer of create-order events
  (\<open>application/create_order_consumer.go\<close>), the worker that closes unpaid orders when their delayed check
  is due (\<open>cancel_order_worker.go\<close>), the retry loop around the consumer
  (\<open>interfaces/worker/runner.go\<close>), and the compensation of discarded orders (\<open>compensation.go\<close> with
  \<open>infrastructure/memory/discard_repository.go\<close>).

  Events are delivered at least once, so the point of the consumer is that handling an event again leaves
  the stored order alone. The locale \<open>consumer_store\<close> states what it relies on of the repository: in
  particular that a not-found error means that the user has no such order.
\<close>

section \<open>The consumer\<close>

record 'w consumer_ports =
  cp_FindByOrderNumber :: "int64 \<Rightarrow> int64 \<Rightarrow> ('w, Order) go"
  cp_Save :: "Order \<Rightarrow> ('w, unit) go"
  cp_SaveDiscard :: "DiscardOrder \<Rightarrow> ('w, unit) go"
  cp_maxDelay :: duration
  cp_nowFunc :: "'w \<Rightarrow> time"
  cp_cancelQ :: "(Message \<Rightarrow> ('w, unit) go) option"
  cp_cancelIn :: duration
  cp_inventory :: "(int64 \<Rightarrow> int64 \<Rightarrow> int64 \<Rightarrow> int64 list \<Rightarrow> int64 list \<Rightarrow> int64 \<Rightarrow> ('w, unit) go) option"

abbreviation CancelOrderDelayTopic :: string where
  "CancelOrderDelayTopic \<equiv> ''ticket_hub.cancel_order''"

definition marshal_cancel_check :: "Order \<Rightarrow> json" where
  "marshal_cancel_check created = JObj
     [(''order_number'', JInt (ord_OrderNumber created)), (''user_id'', JInt (ord_UserID created)),
      (''program_id'', JInt (ord_ProgramID created)), (''ticket_category_id'', JInt (ord_TicketCategoryID created)),
      (''seat_ids'', json_ints (ord_SeatIDs created)), (''ticket_user_ids'', json_ints (ord_TicketUserIDs created))]"

definition cancel_check_message :: "duration \<Rightarrow> Order \<Rightarrow> Message" where
  "cancel_check_message cancelIn created =
     \<lparr>msg_ID = show_int (ord_OrderNumber created), msg_Topic = CancelOrderDelayTopic, msg_Payload = marshal_cancel_check created,
      msg_AvailableAt = ord_CreatedAt created + cancelIn, msg_Attempts = 0\<rparr>"

definition enqueueCancelCheck :: "'w consumer_ports \<Rightarrow> Order \<Rightarrow> ('w, unit) go" where
  "enqueueCancelCheck C created = (case cp_cancelQ C of
     None \<Rightarrow> returnG ()
   | Some Enqueue \<Rightarrow> if cp_cancelIn C \<le> 0 then returnG () else Enqueue (cancel_check_message (cp_cancelIn C) created))"

definition created_order :: "CreateOrderEvent \<Rightarrow> time \<Rightarrow> Order" where
  "created_order payload now =
     (Order_New (coe_OrderNumber payload) (coe_ProgramID payload) (coe_UserID payload) (coe_AmountCent payload) now)
       \<lparr>ord_TicketCategoryID := coe_TicketCategoryID payload, ord_SeatIDs := coe_SeatIDs payload, ord_TicketUserIDs := coe_TicketUserIDs payload\<rparr>"

definition discard_of :: "CreateOrderEvent \<Rightarrow> DiscardOrder" where
  "discard_of payload =
     \<lparr>dis_ID = 0, dis_ProgramID = coe_ProgramID payload, dis_OrderNumber = coe_OrderNumber payload, dis_UserID = coe_UserID payload,
      dis_TicketCategoryID = coe_TicketCategoryID payload, dis_SeatIDs = coe_SeatIDs payload, dis_TicketUserIDs = coe_TicketUserIDs payload,
      dis_AmountCent = coe_AmountCent payload, dis_Reason = ''CONSUMER_DELAY'',
      dis_Detail = ''create order event exceeded business delay threshold'', dis_Status = [], dis_CreatedAt = 0, dis_RetriedAt = None\<rparr>"

definition event_count :: "int64 list \<Rightarrow> int64 list \<Rightarrow> int64" where
  "event_count seats tus = (if seats \<noteq> [] then int (length seats) else int (length tus))"

definition Handle :: "'w consumer_ports \<Rightarrow> Event \<Rightarrow> ('w, unit) go" where
  "Handle C event = (case unmarshal_create_order (ev_Payload event) of
     Inl e \<Rightarrow> failG e
   | Inr payload \<Rightarrow>
       bindG (getG (cp_nowFunc C)) (\<lambda>now0.
       let delay = (if now0 - coe_CreatedAt payload < 0 then 0 else now0 - coe_CreatedAt payload) in
       attemptG (cp_FindByOrderNumber C (coe_OrderNumber payload) (coe_UserID payload)) (\<lambda>r. case r of
         Inr existing \<Rightarrow> if ord_Status existing = StatusNoPay then enqueueCancelCheck C existing else returnG ()
       | Inl e \<Rightarrow>
           if \<not> IsCode (Some e) CodeNotFound then failG e
           else if cp_maxDelay C > 0 \<and> delay > cp_maxDelay C then
             bindG (case cp_inventory C of
                 None \<Rightarrow> returnG ()
               | Some RollbackCreateOrder \<Rightarrow>
                   RollbackCreateOrder (coe_OrderNumber payload) (coe_ProgramID payload) (coe_TicketCategoryID payload)
                     (coe_SeatIDs payload) (coe_TicketUserIDs payload) (event_count (coe_SeatIDs payload) (coe_TicketUserIDs payload)))
               (\<lambda>_. cp_SaveDiscard C (discard_of payload))
           else
             bindG (getG (cp_nowFunc C)) (\<lambda>now.
             bindG (cp_Save C (created_order payload now)) (\<lambda>_.
               enqueueCancelCheck C (created_order payload now))))))"

text \<open>
  The retry loop of \<open>Runner.handleCreateOrder\<close>: \<open>fuel\<close> bounds the attempts that fit before the context is
  done, \<open>Ack\<close> is the broker's acknowledgement; \<open>True\<close> means that the event was acknowledged.
\<close>

fun handleCreateOrder :: "nat \<Rightarrow> 'w consumer_ports \<Rightarrow> ('w, unit) go \<Rightarrow> Event \<Rightarrow> 'w \<Rightarrow> bool \<times> 'w" where
  "handleCreateOrder 0 C Ack event w = (False, w)"
| "handleCreateOrder (Suc fuel) C Ack event w =
     (case Handle C event w of
        (Inl e, w1) \<Rightarrow> handleCreateOrder fuel C Ack event w1
      | (Inr _, w1) \<Rightarrow>
          (case Ack w1 of
             (Inl e, w2) \<Rightarrow> handleCreateOrder fuel C Ack event w2
           | (Inr _, w2) \<Rightarrow> (True, w2)))"

locale consumer_store =
  fixes C :: "'w consumer_ports" and ov :: "'w \<Rightarrow> int64 \<rightharpoonup> Order" and oinv :: "'w \<Rightarrow> bool"
  assumes find_keeps: "keeps_orders oinv ov (cp_FindByOrderNumber C n u)"
    and find_ok: "oinv w \<Longrightarrow> fst (cp_FindByOrderNumber C n u w) = Inr item \<Longrightarrow>
      ov w n = Some item \<and> ord_OrderNumber item = n \<and> ord_UserID item = u"
    and find_missing: "oinv w \<Longrightarrow> fst (cp_FindByOrderNumber C n u w) = Inl e \<Longrightarrow> IsCode (Some e) CodeNotFound \<Longrightarrow>
      ov w n = Some item \<Longrightarrow> ord_UserID item \<noteq> u"
    and save_inv: "oinv w \<Longrightarrow> oinv (snd (cp_Save C item w))"
    and save_ok: "oinv w \<Longrightarrow> fst (cp_Save C item w) = Inr () \<Longrightarrow>
      ov (snd (cp_Save C item w)) = (ov w)(ord_OrderNumber item \<mapsto> item)"
    and save_err: "oinv w \<Longrightarrow> fst (cp_Save C item w) = Inl e \<Longrightarrow>
      ov (snd (cp_Save C item w)) \<in> {ov w, (ov w)(ord_OrderNumber item \<mapsto> item)}"
    and discard_keeps: "keeps_orders oinv ov (cp_SaveDiscard C d)"
    and queue_keeps: "cp_cancelQ C = Some Enqueue \<Longrightarrow> keeps_orders oinv ov (Enqueue m)"
    and inventory_keeps: "cp_inventory C = Some Rollback \<Longrightarrow> keeps_orders oinv ov (Rollback n p c seats tus count)"
begin

lemma keeps_run: "keeps_orders oinv ov m \<Longrightarrow> m w = (r, w') \<Longrightarrow> oinv w \<Longrightarrow> oinv w' \<and> ov w' = ov w"
  by (metis keeps_orders_def snd_conv)

lemma enqueue_keeps: "keeps_orders oinv ov (enqueueCancelCheck C item)"
  unfolding enqueueCancelCheck_def
  by (auto simp: keeps_orders_def [of oinv ov "returnG ()"] returnG_def queue_keeps split: option.splits)

lemma keeps_bind_orders:
  assumes "keeps_orders oinv ov m" and "\<And>x. keeps_orders oinv ov (f x)"
  shows "keeps_orders oinv ov (bindG m f)"
  using assms unfolding keeps_orders_def bindG_def by (auto split: prod.splits sum.splits)

text \<open>
  One handling of an event, by what the repository held: a known order of the user stays as it is; a late
  event stores nothing; otherwise the order of the event may appear, and does if the handling succeeds.
\<close>

lemma handle_cases:
  assumes run: "Handle C event w = (r, w')" and inv: "oinv w" and p: "unmarshal_create_order (ev_Payload event) = Inr payload"
  shows "oinv w'"
    and "ov w (coe_OrderNumber payload) = Some item \<Longrightarrow> ord_UserID item = coe_UserID payload \<Longrightarrow> ov w' = ov w"
    and "ov w' = ov w \<or> (\<exists>now. ov w' = (ov w)(coe_OrderNumber payload \<mapsto> created_order payload now))"
    and "r = Inr () \<Longrightarrow> ov w (coe_OrderNumber payload) = None \<Longrightarrow>
      \<not> (cp_maxDelay C > 0 \<and> cp_nowFunc C w - coe_CreatedAt payload > cp_maxDelay C) \<Longrightarrow>
      (\<exists>now. ov w' = (ov w)(coe_OrderNumber payload \<mapsto> created_order payload now))"
proof -
  let ?n = "coe_OrderNumber payload" and ?u = "coe_UserID payload"
  obtain rf w1 where f: "cp_FindByOrderNumber C ?n ?u w = (rf, w1)" by (metis surj_pair)
  note k = keeps_run [OF find_keeps f inv]
  let ?late = "cp_maxDelay C > 0 \<and> (if cp_nowFunc C w - coe_CreatedAt payload < 0 then 0 else cp_nowFunc C w - coe_CreatedAt payload) > cp_maxDelay C"
  consider (exists) item where "rf = Inr item" "ov w' = ov w" "oinv w'" "ov w ?n = Some item"
    | (failed) e where "rf = Inl e" "\<not> IsCode (Some e) CodeNotFound" "w' = w1" "r = Inl e"
    | (late) e where "rf = Inl e" "IsCode (Some e) CodeNotFound" ?late "ov w' = ov w" "oinv w'"
    | (new) e where "rf = Inl e" "IsCode (Some e) CodeNotFound" "\<not> ?late"
        "bindG (cp_Save C (created_order payload (cp_nowFunc C w1))) (\<lambda>_. enqueueCancelCheck C (created_order payload (cp_nowFunc C w1))) w1 = (r, w')"
  proof (cases rf)
    case (Inr item)
    with run f p have "(if ord_Status item = StatusNoPay then enqueueCancelCheck C item else returnG ()) w1 = (r, w')"
      by (auto simp: Handle_def getG_bind attemptG_def Let_def split: if_splits)
    with k keeps_run [OF enqueue_keeps, of item w1 r w'] find_ok [OF inv, of ?n ?u item] f Inr
    show ?thesis by (intro exists) (auto simp: returnG_def split: if_splits)
  next
    case (Inl e)
    show ?thesis
    proof (cases "IsCode (Some e) CodeNotFound")
      case False
      with run f p Inl show ?thesis
        by (intro failed) (auto simp: Handle_def getG_bind attemptG_def Let_def failG_def split: if_splits)
    next
      case True
      show ?thesis
      proof (cases ?late)
        case True': True
        have kk: "keeps_orders oinv ov (bindG (case cp_inventory C of None \<Rightarrow> returnG () | Some RollbackCreateOrder \<Rightarrow>
            RollbackCreateOrder ?n (coe_ProgramID payload) (coe_TicketCategoryID payload) (coe_SeatIDs payload) (coe_TicketUserIDs payload)
              (event_count (coe_SeatIDs payload) (coe_TicketUserIDs payload))) (\<lambda>_. cp_SaveDiscard C (discard_of payload)))"
          by (intro keeps_bind_orders discard_keeps)
            (auto simp: keeps_orders_def [of oinv ov "returnG ()"] returnG_def inventory_keeps split: option.splits)
        have rr: "bindG (case cp_inventory C of None \<Rightarrow> returnG () | Some RollbackCreateOrder \<Rightarrow>
            RollbackCreateOrder ?n (coe_ProgramID payload) (coe_TicketCategoryID payload) (coe_SeatIDs payload) (coe_TicketUserIDs payload)
              (event_count (coe_SeatIDs payload) (coe_TicketUserIDs payload))) (\<lambda>_. cp_SaveDiscard C (discard_of payload)) w1 = (r, w')"
          using run f p Inl True True' by (simp add: Handle_def getG_bind attemptG_def Let_def)
        from keeps_run [OF kk rr] k have "oinv w'" "ov w' = ov w" by auto
        with Inl True True' show ?thesis by (intro late) auto
      next
        case False
        with run f p Inl True show ?thesis by (intro new) (auto simp: Handle_def getG_bind attemptG_def Let_def)
      qed
    qed
  qed
  note cases = this
  have missing: "rf = Inl e \<Longrightarrow> IsCode (Some e) CodeNotFound \<Longrightarrow> ov w ?n = Some item \<Longrightarrow> ord_UserID item \<noteq> ?u" for e item
    using find_missing [OF inv, of ?n ?u e item] f by simp
  have num: "ord_OrderNumber (created_order payload now) = ?n" for now by (simp add: created_order_def Order_New_def)
  have new_run: "oinv w' \<and> (ov w' = ov w \<or> (\<exists>now. ov w' = (ov w)(?n \<mapsto> created_order payload now)))
      \<and> (r = Inr () \<longrightarrow> (\<exists>now. ov w' = (ov w)(?n \<mapsto> created_order payload now)))"
    if b: "bindG (cp_Save C (created_order payload (cp_nowFunc C w1))) (\<lambda>_. enqueueCancelCheck C (created_order payload (cp_nowFunc C w1))) w1 = (r, w')"
  proof -
    let ?o = "created_order payload (cp_nowFunc C w1)"
    obtain rs w2 where s: "cp_Save C ?o w1 = (rs, w2)" by (metis surj_pair)
    have inv2: "oinv w2" using save_inv [of w1 ?o] s k by simp
    show ?thesis
    proof (cases rs)
      case (Inl e)
      with b s have "w' = w2" "r = Inl e" by (auto simp: bindG_def)
      with save_err [of w1 ?o e] s Inl k inv2 num show ?thesis by auto
    next
      case (Inr x)
      with b s have "enqueueCancelCheck C ?o w2 = (r, w')" by (auto simp: bindG_def)
      from keeps_run [OF enqueue_keeps this inv2] save_ok [of w1 ?o] s Inr k num show ?thesis by auto
    qed
  qed
  show "oinv w'" using k new_run by (cases rule: cases) auto
  show "ov w' = ov w \<or> (\<exists>now. ov w' = (ov w)(?n \<mapsto> created_order payload now))" using k new_run by (cases rule: cases) auto
  show "ov w' = ov w" if "ov w ?n = Some item" "ord_UserID item = ?u" using k missing that by (cases rule: cases) auto
  show "\<exists>now. ov w' = (ov w)(?n \<mapsto> created_order payload now)" if "r = Inr ()" "ov w ?n = None"
    "\<not> (cp_maxDelay C > 0 \<and> cp_nowFunc C w - coe_CreatedAt payload > cp_maxDelay C)"
    using new_run that by (cases rule: cases) (auto split: if_splits)
qed

text \<open>Any number of handlings of the event: the first stored order stays.\<close>

lemma handle_again:
  assumes p: "unmarshal_create_order (ev_Payload event) = Inr payload" and ack: "keeps_orders oinv ov Ack" and "oinv w"
    and "ov w (coe_OrderNumber payload) = Some item" and "ord_UserID item = coe_UserID payload"
  shows "ov (snd (handleCreateOrder fuel C Ack event w)) = ov w"
  using assms(3-)
proof (induction fuel arbitrary: w)
  case (Suc fuel)
  obtain r w1 where h: "Handle C event w = (r, w1)" by (metis surj_pair)
  note H = handle_cases(1,2) [OF h Suc.prems(1) p]
  obtain ra w2 where a: "Ack w1 = (ra, w2)" by (metis surj_pair)
  note A = keeps_run [OF ack a H(1)]
  show ?case
    using Suc.IH [of w1] Suc.IH [of w2] Suc.prems H A h a by (auto split: sum.splits)
qed simp

lemma handle_until_ack:
  assumes p: "unmarshal_create_order (ev_Payload event) = Inr payload" and ack: "keeps_orders oinv ov Ack" and inv: "oinv w"
    and none: "ov w (coe_OrderNumber payload) = None"
  shows "ov (snd (handleCreateOrder fuel C Ack event w)) = ov w
    \<or> (\<exists>now. ov (snd (handleCreateOrder fuel C Ack event w)) = (ov w)(coe_OrderNumber payload \<mapsto> created_order payload now))"
  using inv none
proof (induction fuel arbitrary: w)
  case (Suc fuel)
  obtain r w1 where h: "Handle C event w = (r, w1)" by (metis surj_pair)
  note H = handle_cases(1,3) [OF h Suc.prems(1) p]
  obtain ra w2 where a: "Ack w1 = (ra, w2)" by (metis surj_pair)
  note A = keeps_run [OF ack a H(1)]
  have u: "ord_UserID (created_order payload now) = coe_UserID payload" for now by (simp add: created_order_def Order_New_def)
  from H(2) show ?case
  proof (elim disjE exE)
    assume "ov w1 = ov w"
    with Suc.IH [of w1] Suc.IH [of w2] Suc.prems H(1) A h a show ?case by (auto split: sum.splits)
  next
    fix now assume o: "ov w1 = (ov w)(coe_OrderNumber payload \<mapsto> created_order payload now)"
    then have "ov w1 (coe_OrderNumber payload) = Some (created_order payload now)" by simp
    with handle_again [OF p ack H(1) _ u, of now fuel] handle_again [OF p ack A [THEN conjunct1] _ u, of now fuel] A h a
    have "ov (snd (handleCreateOrder (Suc fuel) C Ack event w)) = ov w1" by (auto split: sum.splits)
    with o show ?case by (intro disjI2 exI [of _ now]) (simp only:)
  qed
qed simp

end

section \<open>The discard repository\<close>

record DiscardRepository =
  dr_nextID :: int64
  dr_records :: "(int64 \<times> DiscardOrder) list"

definition NewDiscardRepository :: DiscardRepository where
  "NewDiscardRepository = \<lparr>dr_nextID = 1, dr_records = []\<rparr>"

text \<open>\<open>now\<close> is the reading of \<open>time.Now\<close> for a record without a creation time.\<close>

definition Discard_Save :: "time \<Rightarrow> DiscardOrder \<Rightarrow> (DiscardRepository, unit) go" where
  "Discard_Save now item r =
     (let r1 = (if dis_ID item = 0 then r\<lparr>dr_nextID := wrap64 (dr_nextID r + 1)\<rparr> else r);
          item1 = (if dis_ID item = 0 then item\<lparr>dis_ID := dr_nextID r\<rparr> else item);
          item2 = (if dis_Status item1 = [] then item1\<lparr>dis_Status := ''PENDING''\<rparr> else item1);
          item3 = (if dis_CreatedAt item2 = 0 then item2\<lparr>dis_CreatedAt := now\<rparr> else item2)
      in (Inr (), r1\<lparr>dr_records := AList.update (dis_ID item3) item3 (dr_records r1)\<rparr>))"

definition Discard_ListPending :: "int64 \<Rightarrow> int \<Rightarrow> (DiscardRepository, DiscardOrder list) go" where
  "Discard_ListPending programID limit r =
     (let l = (if limit \<le> 0 \<or> limit > 200 then 50 else limit)
      in (Inr (take (nat l) (filter (\<lambda>item. dis_Status item = ''PENDING'' \<and> \<not> (programID > 0 \<and> dis_ProgramID item \<noteq> programID))
                (map snd (dr_records r)))), r))"

definition Discard_FindPendingByID :: "int64 \<Rightarrow> (DiscardRepository, DiscardOrder) go" where
  "Discard_FindPendingByID i r = (case map_of (dr_records r) i of
     None \<Rightarrow> (Inl (New CodeNotFound ''pending discard order not found''), r)
   | Some item \<Rightarrow> if dis_Status item \<noteq> ''PENDING'' then (Inl (New CodeNotFound ''pending discard order not found''), r) else (Inr item, r))"

definition Discard_MarkRetried :: "int64 \<Rightarrow> time \<Rightarrow> (DiscardRepository, unit) go" where
  "Discard_MarkRetried i retriedAt r = (case map_of (dr_records r) i of
     None \<Rightarrow> (Inl (New CodeNotFound ''pending discard order not found''), r)
   | Some item \<Rightarrow>
       if dis_Status item \<noteq> ''PENDING'' then (Inl (New CodeNotFound ''pending discard order not found''), r)
       else (Inr (), r\<lparr>dr_records := AList.update i (item\<lparr>dis_Status := ''RETRIED'', dis_RetriedAt := Some retriedAt\<rparr>) (dr_records r)\<rparr>))"

section \<open>The cancel worker\<close>

record 'w worker_ports =
  wp_ClaimDue :: "string \<Rightarrow> time \<Rightarrow> int \<Rightarrow> ('w, Message list) go"
  wp_Ack :: "string \<Rightarrow> string \<Rightarrow> ('w, unit) go"
  wp_CloseExpired :: "int64 \<Rightarrow> int64 \<Rightarrow> ('w, unit) go"
  wp_nowFunc :: "'w \<Rightarrow> time"

definition unmarshal_cancel_check :: "json \<Rightarrow> error + (int64 \<times> int64)" where
  "unmarshal_cancel_check v = (case v of
     JObj fs \<Rightarrow> (case (get_int (field ''order_number'' fs), get_int (field ''user_id'' fs)) of
         (Some n, Some u) \<Rightarrow> Inr (n, u) | _ \<Rightarrow> Inl (PlainError ''json: cannot unmarshal''))
   | _ \<Rightarrow> Inl (PlainError ''json: cannot unmarshal''))"

definition handleMessage :: "'w worker_ports \<Rightarrow> Message \<Rightarrow> ('w, unit) go" where
  "handleMessage W message = (case unmarshal_cancel_check (msg_Payload message) of
     Inl e \<Rightarrow> failG e
   | Inr (n, u) \<Rightarrow> wp_CloseExpired W n u)"

fun poll_loop :: "'w worker_ports \<Rightarrow> Message list \<Rightarrow> ('w, unit) go" where
  "poll_loop W [] = returnG ()"
| "poll_loop W (message # messages) =
     bindG (handleMessage W message) (\<lambda>_. bindG (wp_Ack W (msg_Topic message) (msg_ID message)) (\<lambda>_. poll_loop W messages))"

definition Poll :: "'w worker_ports \<Rightarrow> int \<Rightarrow> ('w, unit) go" where
  "Poll W limit = bindG (getG (wp_nowFunc W)) (\<lambda>now.
     bindG (wp_ClaimDue W CancelOrderDelayTopic now limit) (\<lambda>messages. poll_loop W messages))"

lemma cancel_check_round_trip:
  "in64 (ord_OrderNumber item) \<Longrightarrow> in64 (ord_UserID item) \<Longrightarrow>
     unmarshal_cancel_check (marshal_cancel_check item) = Inr (ord_OrderNumber item, ord_UserID item)"
  by (simp add: unmarshal_cancel_check_def marshal_cancel_check_def field_def get_int_def)

section \<open>The in-memory instance\<close>

record service_world = order_world +
  sw_queue :: MemoryQueue
  sw_discards :: DiscardRepository

abbreviation on_orders :: "('e, OrderRepository, 'a) prog \<Rightarrow> ('e, 'z service_world_scheme, 'a) prog" where
  "on_orders \<equiv> liftG ow_orders (\<lambda>r w. w\<lparr>ow_orders := r\<rparr>)"

abbreviation on_queue :: "('e, MemoryQueue, 'a) prog \<Rightarrow> ('e, 'z service_world_scheme, 'a) prog" where
  "on_queue \<equiv> liftG sw_queue (\<lambda>r w. w\<lparr>sw_queue := r\<rparr>)"

abbreviation on_discards :: "('e, DiscardRepository, 'a) prog \<Rightarrow> ('e, 'z service_world_scheme, 'a) prog" where
  "on_discards \<equiv> liftG sw_discards (\<lambda>r w. w\<lparr>sw_discards := r\<rparr>)"

definition memory_consumer :: "duration \<Rightarrow> duration \<Rightarrow> 'z service_world_scheme consumer_ports" where
  "memory_consumer maxDelay cancelIn = \<lparr>
     cp_FindByOrderNumber = (\<lambda>n u. on_orders (Repo_FindByOrderNumber n u)),
     cp_Save = (\<lambda>item. on_orders (Repo_Save item)),
     cp_SaveDiscard = (\<lambda>d w. on_discards (Discard_Save (ow_now w) d) w),
     cp_maxDelay = maxDelay, cp_nowFunc = ow_now,
     cp_cancelQ = Some (\<lambda>m. on_queue (Queue_Enqueue m)), cp_cancelIn = cancelIn,
     cp_inventory = Some (\<lambda>n p c seats tus count. ProgramClient_nil)\<rparr>"

definition memory_worker :: "'z service_world_scheme worker_ports" where
  "memory_worker = \<lparr>
     wp_ClaimDue = (\<lambda>topic now limit. on_queue (Queue_ClaimDue topic now limit)),
     wp_Ack = (\<lambda>topic i. on_queue (Queue_Ack topic i)),
     wp_CloseExpired = CloseExpired memory_ports, wp_nowFunc = ow_now\<rparr>"

interpretation memory_consumed: consumer_store "memory_consumer maxDelay cancelIn" "\<lambda>w. map_of (ow_orders w)" "\<lambda>w. repo_ok (ow_orders w)"
  for maxDelay cancelIn
  by unfold_locales
    (auto simp: memory_consumer_def keeps_orders_def liftG_def Repo_FindByOrderNumber_def Repo_Save_def Discard_Save_def Queue_Enqueue_def
      ProgramClient_nil_def returnG_def repo_ok_lookup repo_ok_update update_conv Let_def
      split: option.splits if_splits prod.splits)

section \<open>Properties\<close>

text \<open>
  Handling a create-order event is idempotent under redelivery: the retry loop may handle the event any
  number of times, with any call failing after or before its effect; the repository ends up either as it
  was or with exactly the order of the event added once, unpaid, and an order that was already there for the
  user is never overwritten, whatever its status.
\<close>

theorem create_order_event_idempotent:
  assumes "consumer_store C ov oinv" and "oinv w" and "keeps_orders oinv ov Ack"
    and "unmarshal_create_order (ev_Payload event) = Inr payload"
    and "\<forall>item. ov w (coe_OrderNumber payload) = Some item \<longrightarrow> ord_UserID item = coe_UserID payload"
  shows "let w' = snd (handleCreateOrder fuel C Ack event w) in
     (ov w (coe_OrderNumber payload) \<noteq> None \<longrightarrow> ov w' = ov w)
     \<and> (ov w' = ov w \<or> (\<exists>now. ov w' = (ov w)(coe_OrderNumber payload \<mapsto> created_order payload now)
          \<and> ord_Status (created_order payload now) = StatusNoPay))"
proof (cases "ov w (coe_OrderNumber payload)")
  case None
  have st: "ord_Status (created_order payload now) = StatusNoPay" for now by (simp add: created_order_def Order_New_def)
  from None consumer_store.handle_until_ack [OF assms(1,4,3,2)] show ?thesis by (simp add: Let_def st)
next
  case (Some item)
  with consumer_store.handle_again [OF assms(1,4,3,2)] assms(5) show ?thesis by (simp add: Let_def)
qed

definition sample_payload :: CreateOrderEvent where
  "sample_payload = \<lparr>coe_OrderNumber = 42, coe_ProgramID = 7, coe_UserID = 3, coe_TicketCategoryID = 1, coe_SeatIDs = [11, 12],
     coe_TicketUserIDs = [], coe_AmountCent = 500, coe_IdentifierID = 5, coe_OrderVersion = ''async-kafka'', coe_CreatedAt = 90\<rparr>"

definition sample_event :: Event where
  "sample_event = \<lparr>ev_Topic = ''t'', ev_Key = ''42'', ev_Header = \<lparr>hdr_EventID = ''5'', hdr_TraceID = [], hdr_SchemaVersion = ''v1'', hdr_OccurredAt = 90\<rparr>,
     ev_Payload = marshal_create_order sample_payload\<rparr>"

definition empty_service :: service_world where
  "empty_service = \<lparr>ow_orders = [], ow_locks = NewMemoryLocker, ow_now = 100, ow_tokens = [''a'', ''b''], sw_queue = NewMemoryQueue,
     sw_discards = NewDiscardRepository\<rparr>"

lemma sample_unmarshal: "unmarshal_create_order (ev_Payload sample_event) = Inr sample_payload"
  by (simp add: sample_event_def create_order_round_trip event_in64_def sample_payload_def in64_def)

lemma sample_handle: "fst (Handle (memory_consumer 0 60) sample_event empty_service) = Inr ()"
proof -
  let ?C = "memory_consumer 0 60 :: service_world consumer_ports"
  have "cp_FindByOrderNumber ?C 42 3 empty_service = (Inl (New CodeNotFound ''order not found''), empty_service)"
    by (simp add: memory_consumer_def liftG_def Repo_FindByOrderNumber_def empty_service_def)
  moreover have "cp_Save ?C item w = (Inr (), w\<lparr>ow_orders := AList.update (ord_OrderNumber item) item (ow_orders w)\<rparr>)"
    for item and w :: service_world by (simp add: memory_consumer_def liftG_def Repo_Save_def)
  moreover have "fst (enqueueCancelCheck ?C item w) = Inr ()" for item and w :: service_world
    by (simp add: memory_consumer_def enqueueCancelCheck_def liftG_def Queue_Enqueue_def)
  moreover have "coe_OrderNumber sample_payload = 42" "coe_UserID sample_payload = 3" "cp_maxDelay ?C = 0"
    by (simp_all add: sample_payload_def memory_consumer_def)
  ultimately show ?thesis
    unfolding Handle_def sample_unmarshal sum.case getG_bind Let_def attemptG_def by (simp add: getG_bind bindG_Inr IsCode_New)
qed

theorem create_order_event_idempotent_witness:
  "\<exists>now. map_of (ow_orders (snd (handleCreateOrder 1 (memory_consumer 0 60) (returnG ()) sample_event empty_service)))
     = [42 \<mapsto> created_order sample_payload now]"
proof -
  let ?C = "memory_consumer 0 60 :: service_world consumer_ports"
  have inv: "repo_ok (ow_orders empty_service)" by (simp add: empty_service_def repo_ok_def)
  have ack: "keeps_orders (\<lambda>w. repo_ok (ow_orders w)) (\<lambda>w. map_of (ow_orders w)) (returnG ())" by (simp add: keeps_orders_def returnG_def)
  have none: "map_of (ow_orders empty_service) = Map.empty" by (simp add: empty_service_def)
  have num: "coe_OrderNumber sample_payload = 42" by (simp add: sample_payload_def)
  note run = run_of_fst [OF sample_handle]
  have "snd (handleCreateOrder 1 ?C (returnG ()) sample_event empty_service) = snd (Handle ?C sample_event empty_service)"
    using run by (simp add: returnG_def split: prod.splits sum.splits)
  moreover have "\<exists>now. map_of (ow_orders (snd (Handle ?C sample_event empty_service))) = (map_of (ow_orders empty_service))(42 \<mapsto> created_order sample_payload now)"
    using memory_consumed.handle_cases(4) [OF run inv sample_unmarshal] none num by (simp add: memory_consumer_def)
  ultimately show ?thesis
    using create_order_event_idempotent [OF memory_consumed.consumer_store_axioms inv ack sample_unmarshal, of 1 0 60] none num by simp
qed

section \<open>Expired orders are closed\<close>

definition order_lock_key :: "int64 \<Rightarrow> string" where
  "order_lock_key n = ''tickethub:order-lock:'' @ show_int n"

definition closed_orders :: "time \<Rightarrow> int64 \<Rightarrow> int64 \<Rightarrow> OrderRepository \<Rightarrow> OrderRepository" where
  "closed_orders now n u r = (case map_of r n of
     Some item \<Rightarrow> if ord_UserID item = u \<and> ord_Status item = StatusNoPay
       then AList.update n (item\<lparr>ord_Status := StatusCancel, ord_CanceledAt := Some now\<rparr>) r else r
   | None \<Rightarrow> r)"

definition statuses_ok :: "OrderRepository \<Rightarrow> bool" where
  "statuses_ok r \<longleftrightarrow> (\<forall>n item. map_of r n = Some item \<longrightarrow> ord_Status item \<in> {StatusNoPay, StatusPaid, StatusCancel, StatusRefund})"

definition idle :: "'z service_world_scheme \<Rightarrow> bool" where
  "idle w \<longleftrightarrow> repo_ok (ow_orders w) \<and> statuses_ok (ow_orders w) \<and> (\<forall>k. memory_holder (ow_now w) (ow_locks w) k = None)"

lemma close_memory:
  assumes "idle w"
  shows "CloseExpired memory_ports n u w =
    (Inr (), w\<lparr>ow_locks := (ow_locks w)(order_lock_key n := None), ow_tokens := tl (ow_tokens w),
               ow_orders := closed_orders (ow_now w) n u (ow_orders w)\<rparr>)"
proof -
  let ?k = "order_lock_key n" and ?t = "hd (ow_tokens w)"
  let ?w1 = "w\<lparr>ow_locks := (ow_locks w)(?k \<mapsto> \<lparr>mls_token = ?t, mls_expiresAt = ow_now w + 5000000000\<rparr>), ow_tokens := tl (ow_tokens w)\<rparr>"
  have free: "\<forall>st. ow_locks w ?k = Some st \<longrightarrow> \<not> mls_expiresAt st > ow_now w"
    using assms by (auto simp: idle_def memory_holder_def split: option.splits if_splits)
  have acq: "world_Acquire ?k 5000000000 w = (Inr \<lparr>lk_key = ?k, lk_token = ?t\<rparr>, ?w1)"
    using free by (cases "ow_locks w ?k") (auto simp: world_Acquire_def liftG_def MemoryLocker_Acquire_def)
  have ok: "map_of (ow_orders w) n = Some item \<Longrightarrow> ord_OrderNumber item = n \<and> ord_Status item \<in> {StatusNoPay, StatusPaid, StatusCancel, StatusRefund}" for item
    using assms repo_ok_lookup unfolding idle_def statuses_ok_def by blast
  let ?body = "attemptG (op_FindByOrderNumber memory_ports n u) (\<lambda>r. case r of
        Inl e \<Rightarrow> if IsCode (Some e) CodeNotFound then returnG () else failG e
      | Inr current \<Rightarrow>
          if ord_Status current \<in> {StatusPaid, StatusRefund} then returnG ()
          else if ord_Status current \<in> {StatusNoPay, StatusCancel} then cancel memory_ports n u
          else failG (New CodeOrderStateConflict ''order cannot be closed in current state''))"
  have body: "?body ?w1 = (Inr (), ?w1\<lparr>ow_orders := closed_orders (ow_now w) n u (ow_orders w)\<rparr>)"
    using ok
    by (cases "map_of (ow_orders w) n")
      (auto simp: attemptG_def memory_ports_def liftG_def Repo_FindByOrderNumber_def returnG_def closed_orders_def cancel_def bindG_def getG_def
        Order_Cancel_def Repo_Update_def ProgramClient_nil_def)
  have l: "op_locker memory_ports = Some (world_Acquire, \<lambda>h. liftG ow_locks (\<lambda>l w. w\<lparr>ow_locks := l\<rparr>) (memoryLock_Release h))"
    and ttl: "op_lockTTL memory_ports = 5000000000" by (simp_all add: memory_ports_def)
  show ?thesis
    unfolding CloseExpired_def withOrderLock_def l ttl option.case prod.case order_lock_key_def [symmetric]
      attemptG_eq [where m = "world_Acquire ?k 5000000000" and s = w, OF acq] sum.case deferG_def body prod.case
    by (simp add: liftG_def memoryLock_Release_def)
qed

text \<open>The worker: its batch of checks leaves the locks free and closes one order after the other.\<close>

definition check_of :: "Message \<Rightarrow> int64 \<times> int64" where
  "check_of m = (case unmarshal_cancel_check (msg_Payload m) of Inr nu \<Rightarrow> nu | Inl e \<Rightarrow> (0, 0))"

lemma closed_orders_lookup:
  "map_of (closed_orders now n u r) k = (case map_of r k of
     None \<Rightarrow> None
   | Some item \<Rightarrow> if k = n \<and> ord_UserID item = u \<and> ord_Status item = StatusNoPay
       then Some (item\<lparr>ord_Status := StatusCancel, ord_CanceledAt := Some now\<rparr>) else Some item)"
  by (auto simp: closed_orders_def update_conv' split: option.splits)

lemma closed_orders_ok:
  assumes "repo_ok r" and "statuses_ok r"
  shows "repo_ok (closed_orders now n u r)" and "statuses_ok (closed_orders now n u r)"
proof -
  show "statuses_ok (closed_orders now n u r)"
    using assms(2) by (auto simp: statuses_ok_def closed_orders_lookup split: option.splits if_splits)
  have "ord_OrderNumber item = n" if "map_of r n = Some item" for item using assms(1) that by (rule repo_ok_lookup)
  then show "repo_ok (closed_orders now n u r)"
    using assms(1) repo_ok_update by (auto simp: closed_orders_def split: option.splits) (metis (no_types, lifting) Order.select_convs(1) Order.surjective Order.update_convs(8,11))
qed

lemma idle_close:
  assumes "idle w"
  shows "idle (w\<lparr>ow_locks := (ow_locks w)(k := None), ow_tokens := ts, ow_orders := closed_orders (ow_now w) n u (ow_orders w)\<rparr>)"
  using assms closed_orders_ok [of "ow_orders w"] by (auto simp: idle_def memory_holder_def)

definition ack_all :: "Message list \<Rightarrow> MemoryQueue \<Rightarrow> MemoryQueue" where
  "ack_all ms q = fold (\<lambda>m q. snd (Queue_Ack (msg_Topic m) (msg_ID m) q)) ms q"

lemma poll_loop_memory:
  assumes "idle w" and "\<forall>m \<in> set ms. \<exists>nu. unmarshal_cancel_check (msg_Payload m) = Inr nu"
  shows "\<exists>w'. poll_loop memory_worker ms w = (Inr (), w') \<and> sw_queue w' = ack_all ms (sw_queue w)
    \<and> (\<forall>k. map_of (ow_orders w') k = (case map_of (ow_orders w) k of
         None \<Rightarrow> None
       | Some item \<Rightarrow> if (k, ord_UserID item) \<in> check_of ` set ms \<and> ord_Status item = StatusNoPay
           then Some (item\<lparr>ord_Status := StatusCancel, ord_CanceledAt := Some (ow_now w)\<rparr>) else Some item))"
  using assms
proof (induction ms arbitrary: w)
  case Nil
  then show ?case by (auto simp: ack_all_def returnG_def split: option.splits)
next
  case (Cons m ms)
  obtain n u where nu: "unmarshal_cancel_check (msg_Payload m) = Inr (n, u)" using Cons.prems(2) by auto
  define w1 where "w1 = w\<lparr>ow_locks := (ow_locks w)(order_lock_key n := None), ow_tokens := tl (ow_tokens w),
      ow_orders := closed_orders (ow_now w) n u (ow_orders w), sw_queue := snd (Queue_Ack (msg_Topic m) (msg_ID m) (sw_queue w))\<rparr>"
  have run: "poll_loop memory_worker (m # ms) w = poll_loop memory_worker ms w1"
    using close_memory [OF Cons.prems(1), of n u]
    by (simp add: handleMessage_def nu memory_worker_def bindG_def liftG_def w1_def Queue_Ack_def)
  have "idle w1"
    using idle_close [OF Cons.prems(1), where k = "order_lock_key n" and ts = "tl (ow_tokens w)" and n = n and u = u] by (simp add: w1_def idle_def)
  from Cons.IH [OF this] Cons.prems(2) obtain w' where w': "poll_loop memory_worker ms w1 = (Inr (), w')"
    and q: "sw_queue w' = ack_all ms (sw_queue w1)"
    and o: "\<And>k. map_of (ow_orders w') k = (case map_of (ow_orders w1) k of
         None \<Rightarrow> None
       | Some item \<Rightarrow> if (k, ord_UserID item) \<in> check_of ` set ms \<and> ord_Status item = StatusNoPay
           then Some (item\<lparr>ord_Status := StatusCancel, ord_CanceledAt := Some (ow_now w1)\<rparr>) else Some item)" by auto
  have now: "ow_now w1 = ow_now w" and ow1: "ow_orders w1 = closed_orders (ow_now w) n u (ow_orders w)"
    and q1: "sw_queue w1 = snd (Queue_Ack (msg_Topic m) (msg_ID m) (sw_queue w))" by (simp_all add: w1_def)
  have chk: "check_of m = (n, u)" by (simp add: check_of_def nu)
  show ?case
    unfolding run
    by (rule exI [of _ w']) (auto simp: w' q q1 ack_all_def o now ow1 closed_orders_lookup chk split: option.splits)
qed

lemma known_ack: "known (snd (Queue_Ack t j q)) topic i = (if (t, j) = (topic, i) then None else known q topic i)"
  by (auto simp: known_def Queue_Ack_def delete_conv' simp del: map_of_eq_Some_iff split: option.split)

lemma ack_all_none: "known q topic i = None \<Longrightarrow> known (ack_all ms q) topic i = None"
  unfolding ack_all_def by (induction ms arbitrary: q) (auto simp: known_ack)

lemma ack_all_known: "m \<in> set ms \<Longrightarrow> known (ack_all ms q) (msg_Topic m) (msg_ID m) = None"
proof (induction ms arbitrary: q)
  case (Cons m' ms)
  have ack: "ack_all (m' # ms) q = ack_all ms (snd (Queue_Ack (msg_Topic m') (msg_ID m') q))" by (simp add: ack_all_def)
  from Cons show ?case unfolding ack by (auto simp: known_ack intro: ack_all_none)
qed simp

text \<open>
  C24. Unpaid orders are closed when their check is due: when no order lock is held and the queue holds only
  well-formed checks, one \<open>Poll\<close> of the worker with a limit as large as the queue succeeds, and afterwards
  every order whose check was due and visible is canceled if it was unpaid and unchanged if it was not, and
  the check has left the queue.
\<close>

theorem expired_orders_closed:
  assumes "idle w" and "queue_ok (sw_queue w)"
    and "\<forall>i m. known (sw_queue w) CancelOrderDelayTopic i = Some m \<longrightarrow> msg_Topic m = CancelOrderDelayTopic
      \<and> (\<exists>nu. unmarshal_cancel_check (msg_Payload m) = Inr nu)"
    and "int (length (dq_messages (sw_queue w) CancelOrderDelayTopic) + length (dq_processing (sw_queue w) CancelOrderDelayTopic)) \<le> limit"
    and "known (sw_queue w) CancelOrderDelayTopic i = Some m" and "unmarshal_cancel_check (msg_Payload m) = Inr (n, u)"
    and "msg_AvailableAt m \<le> ow_now w"
    and "\<forall>c. map_of (dq_processing (sw_queue w) CancelOrderDelayTopic) i = Some c \<longrightarrow> mc_visibleAt c \<le> ow_now w"
    and "map_of (ow_orders w) n = Some item" and "ord_UserID item = u"
  shows "\<exists>w'. Poll memory_worker limit w = (Inr (), w') \<and> known (sw_queue w') CancelOrderDelayTopic i = None
    \<and> (if ord_Status item = StatusNoPay then \<exists>item'. map_of (ow_orders w') n = Some item' \<and> ord_Status item' = StatusCancel
       else map_of (ow_orders w') n = Some item)"
proof -
  let ?T = CancelOrderDelayTopic and ?q = "sw_queue w" and ?m = "m\<lparr>msg_Attempts := msg_Attempts m + 1\<rparr>"
  from due_in_claim [OF assms(2,5,7,8,4)] obtain due q' where
    c: "Queue_ClaimDue ?T (ow_now w) limit ?q = (Inr due, q')" and d: "?m \<in> set due" by blast
  have pos: "0 < limit" using c d by (auto simp: Queue_ClaimDue_def split: if_splits)
  have due: "msg_Topic x = ?T \<and> (\<exists>nu. unmarshal_cancel_check (msg_Payload x) = Inr nu)" if x: "x \<in> set due" for x
  proof -
    from claim_run(1) [OF assms(2) c pos x] obtain m0 where m0: "claimable (ow_now w) (dq_processing ?q ?T) (dq_messages ?q ?T) (msg_ID x) = Some m0"
      and x0: "x = m0\<lparr>msg_Attempts := msg_Attempts m0 + 1\<rparr>" by blast
    from m0 have "known ?q ?T (msg_ID x) = Some m0" by (auto simp: claimable_def known_def split: option.splits if_splits)
    with assms(3) have "msg_Topic m0 = ?T \<and> (\<exists>nu. unmarshal_cancel_check (msg_Payload m0) = Inr nu)" by blast
    then show ?thesis by (simp add: x0)
  qed
  have sel: "ow_orders (w\<lparr>sw_queue := q'\<rparr>) = ow_orders w" "ow_now (w\<lparr>sw_queue := q'\<rparr>) = ow_now w" "sw_queue (w\<lparr>sw_queue := q'\<rparr>) = q'" by simp_all
  have "idle (w\<lparr>sw_queue := q'\<rparr>)" using assms(1) by (simp add: idle_def)
  from poll_loop_memory [OF this, of due, unfolded sel] due obtain w' where w': "poll_loop memory_worker due (w\<lparr>sw_queue := q'\<rparr>) = (Inr (), w')"
    and q: "sw_queue w' = ack_all due q'"
    and o: "\<And>k. map_of (ow_orders w') k = (case map_of (ow_orders w) k of None \<Rightarrow> None
       | Some item \<Rightarrow> if (k, ord_UserID item) \<in> check_of ` set due \<and> ord_Status item = StatusNoPay
           then Some (item\<lparr>ord_Status := StatusCancel, ord_CanceledAt := Some (ow_now w)\<rparr>) else Some item)" by blast
  have "Poll memory_worker limit w = (Inr (), w')"
    using c w' by (simp add: Poll_def getG_bind memory_worker_def bindG_Inr liftG_def)
  moreover have "msg_ID m = i"
    using assms(2,5) by (auto simp: queue_ok_def topic_ok_def known_def split: option.splits)
  then have "known (sw_queue w') ?T i = None" using ack_all_known [OF d, of q'] due [OF d] unfolding q by simp
  moreover have "(n, u) \<in> check_of ` set due" using d assms(6) by (force simp: check_of_def image_iff)
  ultimately show ?thesis using o [of n] assms(9,10) by auto
qed

definition due_service :: service_world where
  "due_service = empty_service\<lparr>ow_orders := [(42, sample_order)], ow_now := 200,
     sw_queue := snd (Queue_Enqueue (cancel_check_message 60 sample_order) NewMemoryQueue)\<rparr>"

theorem expired_orders_closed_witness:
  "\<exists>w'. Poll memory_worker 32 due_service = (Inr (), w')
     \<and> (\<exists>item'. map_of (ow_orders w') 42 = Some item' \<and> ord_Status item' = StatusCancel)"
proof -
  let ?m = "cancel_check_message 60 sample_order"
  have so: "ord_OrderNumber sample_order = 42" "ord_UserID sample_order = 3" "ord_Status sample_order = StatusNoPay" "ord_CreatedAt sample_order = 10"
    by (simp_all add: sample_order_def Order_New_def)
  have m: "msg_Topic ?m = CancelOrderDelayTopic" "msg_ID ?m = show_int 42" "msg_AvailableAt ?m = 70"
    "unmarshal_cancel_check (msg_Payload ?m) = Inr (42, 3)"
    using cancel_check_round_trip [of sample_order] by (simp_all add: cancel_check_message_def so in64_def)
  have q: "dq_messages (sw_queue due_service) CancelOrderDelayTopic = [(show_int 42, ?m)]"
    "dq_processing (sw_queue due_service) CancelOrderDelayTopic = []"
    by (simp_all add: due_service_def Queue_Enqueue_def NewMemoryQueue_def m)
  have known: "known (sw_queue due_service) CancelOrderDelayTopic j = (if j = show_int 42 then Some ?m else None)" for j
    by (simp add: known_def q)
  have ok: "queue_ok (sw_queue due_service)"
    using queue_ok_step [of NewMemoryQueue "EnqueueOp ?m"] by (simp add: due_service_def NewMemoryQueue_def queue_ok_def topic_ok_def)
  have idle: "idle due_service"
    by (simp add: idle_def due_service_def repo_ok_def statuses_ok_def so memory_holder_def empty_service_def NewMemoryLocker_def)
  have w: "ow_now due_service = 200" "map_of (ow_orders due_service) 42 = Some sample_order" by (simp_all add: due_service_def)
  have wf: "\<forall>i m. known (sw_queue due_service) CancelOrderDelayTopic i = Some m \<longrightarrow> msg_Topic m = CancelOrderDelayTopic
      \<and> (\<exists>nu. unmarshal_cancel_check (msg_Payload m) = Inr nu)"
    using m by (auto simp: known split: if_splits)
  from expired_orders_closed [OF idle ok wf _ _ m(4), where i = "show_int 42" and limit = 32 and item = sample_order] m so w known q
  show ?thesis by auto
qed

end
