(* ===== verification/Compensation.thy ===== *)
theory Compensation
  imports Order_Consumer
begin

text \<open>
  Compensation of discarded orders (\<open>src/app/order-service/internal/application/compensation.go\<close>): an
  administrator retries orders whose create event came too late. Each retry reserves the inventory again,
  publishes a new create-order event and marks the record as retried; when publishing fails the
  reservation is rolled back.
\<close>

record CompensationResult =
  cr_Requested :: int
  cr_Retried :: int
  cr_Skipped :: int

type_synonym 'w seat_op = "int64 \<Rightarrow> int64 \<Rightarrow> int64 \<Rightarrow> int64 list \<Rightarrow> int64 list \<Rightarrow> int64 \<Rightarrow> ('w, unit) go"

record 'w comp_ports =
  kp_ListPending :: "int64 \<Rightarrow> int \<Rightarrow> ('w, DiscardOrder list) go"
  kp_FindPendingByID :: "int64 \<Rightarrow> ('w, DiscardOrder) go"
  kp_MarkRetried :: "int64 \<Rightarrow> time \<Rightarrow> ('w, unit) go"
  kp_Publish :: "Event \<Rightarrow> ('w, unit) go"
  kp_topic :: string
  kp_nowFunc :: "'w \<Rightarrow> time"
  kp_inventory :: "('w seat_op \<times> 'w seat_op) option"

abbreviation DefaultCreateOrderTopic :: string where
  "DefaultCreateOrderTopic \<equiv> ''ticket_hub.create_order''"

definition compensation_topic :: "string \<Rightarrow> string" where
  "compensation_topic topic = (if topic = [] then DefaultCreateOrderTopic else topic)"

definition Comp_ListPending :: "'w comp_ports \<Rightarrow> int64 \<Rightarrow> int \<Rightarrow> ('w, DiscardOrder list) go" where
  "Comp_ListPending K programID limit = kp_ListPending K programID (if limit \<le> 0 \<or> limit > 200 then 50 else limit)"

definition retry_event :: "string \<Rightarrow> DiscardOrder \<Rightarrow> time \<Rightarrow> Event" where
  "retry_event topic item now =
     \<lparr>ev_Topic = topic, ev_Key = show_int (dis_OrderNumber item),
      ev_Header = \<lparr>hdr_EventID = show_int (dis_ID item), hdr_TraceID = [], hdr_SchemaVersion = ''v1'', hdr_OccurredAt = now\<rparr>,
      ev_Payload = marshal_create_order
        \<lparr>coe_OrderNumber = dis_OrderNumber item, coe_ProgramID = dis_ProgramID item, coe_UserID = dis_UserID item,
         coe_TicketCategoryID = dis_TicketCategoryID item, coe_SeatIDs = dis_SeatIDs item, coe_TicketUserIDs = dis_TicketUserIDs item,
         coe_AmountCent = dis_AmountCent item, coe_IdentifierID = 0, coe_OrderVersion = ''retry-discard'', coe_CreatedAt = now\<rparr>\<rparr>"

definition retry_one :: "'w comp_ports \<Rightarrow> DiscardOrder \<Rightarrow> ('w, unit) go" where
  "retry_one K item =
     bindG (getG (kp_nowFunc K)) (\<lambda>now.
     case kp_inventory K of
       None \<Rightarrow> failG (New CodeInfrastructure ''discard order inventory reservation is not configured'')
     | Some (ReserveCreateOrder, RollbackCreateOrder) \<Rightarrow>
         let count = event_count (dis_SeatIDs item) (dis_TicketUserIDs item) in
         bindG (ReserveCreateOrder (dis_OrderNumber item) (dis_ProgramID item) (dis_TicketCategoryID item) (dis_SeatIDs item) (dis_TicketUserIDs item) count) (\<lambda>_.
         attemptG (kp_Publish K (retry_event (kp_topic K) item now)) (\<lambda>r. case r of
           Inl e \<Rightarrow>
             attemptG (RollbackCreateOrder (dis_OrderNumber item) (dis_ProgramID item) (dis_TicketCategoryID item) (dis_SeatIDs item) (dis_TicketUserIDs item) count)
               (\<lambda>_. failG e)
         | Inr _ \<Rightarrow> kp_MarkRetried K (dis_ID item) now)))"

fun retry :: "'w comp_ports \<Rightarrow> CompensationResult \<Rightarrow> DiscardOrder list \<Rightarrow> (error \<times> CompensationResult, 'w, CompensationResult) prog" where
  "retry K result [] = returnG result"
| "retry K result (item # items) =
     (if dis_UserID item \<le> 0 then retry K (result\<lparr>cr_Skipped := cr_Skipped result + 1\<rparr>) items
      else attemptG (retry_one K item) (\<lambda>r. case r of
        Inl e \<Rightarrow> failG (e, result)
      | Inr _ \<Rightarrow> retry K (result\<lparr>cr_Retried := cr_Retried result + 1\<rparr>) items))"

definition retry_all :: "'w comp_ports \<Rightarrow> DiscardOrder list \<Rightarrow> ('w, CompensationResult) go" where
  "retry_all K items = attemptG (retry K \<lparr>cr_Requested = int (length items), cr_Retried = 0, cr_Skipped = 0\<rparr> items)
     (\<lambda>r. case r of Inl (e, _) \<Rightarrow> failG e | Inr result \<Rightarrow> returnG (result\<lparr>cr_Requested := int (length items)\<rparr>))"

definition RetryByID :: "'w comp_ports \<Rightarrow> int64 \<Rightarrow> ('w, CompensationResult) go" where
  "RetryByID K i =
     (if i \<le> 0 then failG (New CodeInvalidArgument ''discard order id is required'')
      else bindG (kp_FindPendingByID K i) (\<lambda>item. retry_all K [item]))"

definition RetryProgram :: "'w comp_ports \<Rightarrow> int64 \<Rightarrow> int \<Rightarrow> ('w, CompensationResult) go" where
  "RetryProgram K programID limit = bindG (Comp_ListPending K programID limit) (\<lambda>items. retry_all K items)"

section \<open>The in-memory instance\<close>

record comp_world =
  cw_discards :: DiscardRepository
  cw_broker :: MemoryBroker
  cw_now :: time

definition memory_comp :: "string \<Rightarrow> ('z comp_world_scheme seat_op \<times> 'z comp_world_scheme seat_op) option \<Rightarrow> 'z comp_world_scheme comp_ports" where
  "memory_comp topic inventory = \<lparr>
     kp_ListPending = (\<lambda>p l. liftG cw_discards (\<lambda>r w. w\<lparr>cw_discards := r\<rparr>) (Discard_ListPending p l)),
     kp_FindPendingByID = (\<lambda>i. liftG cw_discards (\<lambda>r w. w\<lparr>cw_discards := r\<rparr>) (Discard_FindPendingByID i)),
     kp_MarkRetried = (\<lambda>i t. liftG cw_discards (\<lambda>r w. w\<lparr>cw_discards := r\<rparr>) (Discard_MarkRetried i t)),
     kp_Publish = (\<lambda>e. liftG cw_broker (\<lambda>b w. w\<lparr>cw_broker := b\<rparr>) (Broker_Publish e)),
     kp_topic = compensation_topic topic, kp_nowFunc = cw_now, kp_inventory = inventory\<rparr>"

definition leaves_records :: "'z comp_world_scheme seat_op \<Rightarrow> bool" where
  "leaves_records op \<longleftrightarrow> (\<forall>n p c seats tus count w. cw_discards (snd (op n p c seats tus count w)) = cw_discards w
     \<and> cw_broker (snd (op n p c seats tus count w)) = cw_broker w)"

definition pending :: "'z comp_world_scheme \<Rightarrow> int64 \<Rightarrow> DiscardOrder option" where
  "pending w i = (case map_of (dr_records (cw_discards w)) i of
     Some item \<Rightarrow> if dis_Status item = ''PENDING'' then Some item else None | None \<Rightarrow> None)"

lemma find_pending: "kp_FindPendingByID (memory_comp topic inventory) i w =
    (case pending w i of Some item \<Rightarrow> (Inr item, w) | None \<Rightarrow> (Inl (New CodeNotFound ''pending discard order not found''), w))"
  by (auto simp: memory_comp_def liftG_def Discard_FindPendingByID_def pending_def split: option.splits)

lemma mark_retried:
  "kp_MarkRetried (memory_comp topic inventory) i t w =
     (case pending w i of
        None \<Rightarrow> (Inl (New CodeNotFound ''pending discard order not found''), w)
      | Some item \<Rightarrow> (Inr (), w\<lparr>cw_discards := (cw_discards w)\<lparr>dr_records :=
          AList.update i (item\<lparr>dis_Status := ''RETRIED'', dis_RetriedAt := Some t\<rparr>) (dr_records (cw_discards w))\<rparr>\<rparr>))"
  by (auto simp: memory_comp_def liftG_def Discard_MarkRetried_def pending_def split: option.splits)

lemma pending_retried [simp]:
  "pending (x\<lparr>cw_discards := (cw_discards w)\<lparr>dr_records := AList.update i (item\<lparr>dis_Status := ''RETRIED'', dis_RetriedAt := t\<rparr>) (dr_records (cw_discards w))\<rparr>\<rparr>) j
     = (if j = i then None else pending w j)"
  by (simp add: pending_def update_conv')

lemma retry_one_memory:
  assumes inventory: "inventory = Some (Reserve, Rollback)" and keep: "leaves_records Reserve" "leaves_records Rollback"
    and pend: "pending w (dis_ID item) = Some item"
  shows "case retry_one (memory_comp topic inventory) item w of
      (Inr _, w') \<Rightarrow> cw_broker w' = (cw_broker w)(compensation_topic topic := cw_broker w (compensation_topic topic) @ [retry_event (compensation_topic topic) item (cw_now w)])
        \<and> (\<forall>j. pending w' j = (if j = dis_ID item then None else pending w j))
    | (Inl e, w') \<Rightarrow> cw_broker w' = cw_broker w \<and> cw_discards w' = cw_discards w"
proof -
  let ?K = "memory_comp topic inventory"
  have K: "kp_inventory ?K = Some (Reserve, Rollback)" "kp_topic ?K = compensation_topic topic" "kp_nowFunc ?K = cw_now"
    "kp_Publish ?K e w = (Inr (), w\<lparr>cw_broker := (cw_broker w)(ev_Topic e := cw_broker w (ev_Topic e) @ [e])\<rparr>)" for e w
    by (simp_all add: memory_comp_def inventory liftG_def Broker_Publish_def)
  obtain r w1 where res: "Reserve (dis_OrderNumber item) (dis_ProgramID item) (dis_TicketCategoryID item) (dis_SeatIDs item) (dis_TicketUserIDs item)
      (event_count (dis_SeatIDs item) (dis_TicketUserIDs item)) w = (r, w1)" by (metis surj_pair)
  then have w1: "cw_discards w1 = cw_discards w" "cw_broker w1 = cw_broker w"
    using keep(1) unfolding leaves_records_def by (metis snd_conv)+
  have p1: "pending (w1\<lparr>cw_broker := b\<rparr>) j = pending w j" for b j by (simp add: pending_def w1)
  have topic: "ev_Topic (retry_event t item now) = t" for t now by (simp add: retry_event_def)
  show ?thesis
  proof (cases r)
    case (Inl e)
    with res w1 show ?thesis by (simp add: retry_one_def getG_bind K Let_def bindG_Inl)
  next
    case (Inr x)
    have "retry_one ?K item w = kp_MarkRetried ?K (dis_ID item) (cw_now w)
        (w1\<lparr>cw_broker := (cw_broker w1)(compensation_topic topic := cw_broker w1 (compensation_topic topic) @ [retry_event (compensation_topic topic) item (cw_now w)])\<rparr>)"
      using res Inr by (simp add: retry_one_def getG_bind K Let_def bindG_Inr attemptG_def topic)
    with pend show ?thesis by (simp add: mark_retried p1 w1)
  qed
qed

text \<open>
  Retrying a discarded order publishes it exactly once: when \<open>RetryByID\<close> succeeds for a pending record with
  a user, exactly one event, with the order's data, was appended to the topic, the record is not pending any
  more and every other record is as pending as before; retrying the same record again fails with a
  not-found error and publishes nothing. When it fails, nothing was published and no record changed.
\<close>

theorem retry_publishes_once:
  assumes "inventory = Some (Reserve, Rollback)" and "leaves_records Reserve" and "leaves_records Rollback"
    and "0 < i" and "pending w i = Some item" and "dis_ID item = i" and "0 < dis_UserID item"
    and "T = compensation_topic topic"
  shows "case RetryByID (memory_comp topic inventory) i w of
      (Inr res, w') \<Rightarrow> res = \<lparr>cr_Requested = 1, cr_Retried = 1, cr_Skipped = 0\<rparr>
        \<and> cw_broker w' = (cw_broker w)(T := cw_broker w T @ [retry_event T item (cw_now w)])
        \<and> (\<forall>j. pending w' j = (if j = i then None else pending w j))
        \<and> RetryByID (memory_comp topic inventory) i w' = (Inl (New CodeNotFound ''pending discard order not found''), w')
    | (Inl e, w') \<Rightarrow> cw_broker w' = cw_broker w \<and> cw_discards w' = cw_discards w"
proof -
  let ?K = "memory_comp topic inventory"
  have run: "RetryByID ?K i w = (case retry_one ?K item w of
      (Inl e, w') \<Rightarrow> (Inl e, w') | (Inr _, w') \<Rightarrow> (Inr \<lparr>cr_Requested = 1, cr_Retried = 1, cr_Skipped = 0\<rparr>, w'))"
    using assms(4,5,7)
    by (auto simp: RetryByID_def find_pending bindG_def retry_all_def attemptG_def failG_def returnG_def split: prod.splits sum.splits)
  have again: "RetryByID ?K i w' = (Inl (New CodeNotFound ''pending discard order not found''), w')" if "pending w' i = None" for w'
    using that assms(4) by (simp add: RetryByID_def find_pending bindG_def)
  from retry_one_memory [OF assms(1-3), of w item topic] assms(5,6,8) again show ?thesis
    unfolding run by (auto split: prod.splits sum.splits)
qed

definition nil_seat_op :: "'w seat_op" where
  "nil_seat_op n p c seats tus count = ProgramClient_nil"

definition sample_comp :: comp_world where
  "sample_comp = \<lparr>cw_discards = \<lparr>dr_nextID = 2, dr_records = [(1, (discard_of sample_payload)\<lparr>dis_ID := 1, dis_Status := ''PENDING'', dis_CreatedAt := 99\<rparr>)]\<rparr>,
     cw_broker = NewMemoryBroker, cw_now = 200\<rparr>"

theorem retry_publishes_once_witness:
  "length (cw_broker (snd (RetryByID (memory_comp [] (Some (nil_seat_op, nil_seat_op))) 1 sample_comp)) ''ticket_hub.create_order'') = 1"
proof -
  let ?item = "(discard_of sample_payload)\<lparr>dis_ID := 1, dis_Status := ''PENDING'', dis_CreatedAt := 99\<rparr>"
  let ?K = "memory_comp [] (Some (nil_seat_op, nil_seat_op)) :: comp_world comp_ports"
  have keep: "leaves_records (nil_seat_op :: comp_world seat_op)" by (simp add: leaves_records_def nil_seat_op_def ProgramClient_nil_def returnG_def)
  have p: "pending sample_comp 1 = Some ?item" by (simp add: pending_def sample_comp_def)
  have u: "0 < dis_UserID ?item" "dis_ID ?item = 1" by (simp_all add: discard_of_def sample_payload_def)
  have "\<exists>res w'. RetryByID ?K 1 sample_comp = (Inr res, w')"
    using p u(1)
    by (simp add: RetryByID_def find_pending bindG_Inr retry_all_def attemptG_def retry_one_def getG_bind memory_comp_def nil_seat_op_def
        ProgramClient_nil_def returnG_def Let_def liftG_def Broker_Publish_def Discard_FindPendingByID_def Discard_MarkRetried_def sample_comp_def)
  then obtain res w' where r: "RetryByID ?K 1 sample_comp = (Inr res, w')" by blast
  from retry_publishes_once [OF refl keep keep _ p u(2,1) refl, of "[]"] r show ?thesis
    by (simp add: compensation_topic_def sample_comp_def NewMemoryBroker_def)
qed

end
