(* ===== verification/Program_Repository.thy ===== *)
theory Program_Repository
  imports Program_Domain Events "HOL-Library.AList"
begin

text \<open>
  The program catalog: the in-process repository
  (\<open>src/app/program-service/internal/infrastructure/memory/program_repository.go\<close>), the query service over a
  catalog (\<open>application/program_query.go\<close>) and the query handlers of the gRPC server
  (\<open>interfaces/grpc/server.go\<close>).

  A Go map that is iterated is an association list: the list order stands for the iteration order, so the
  results hold for every order. \<open>strings.ToLower\<close> and \<open>strings.EqualFold\<close> are modelled on ASCII text.
  Show times are rendered by \<open>fmt_time\<close>, a parameter that stands for \<open>Time.Format(time.RFC3339)\<close>.
\<close>

section \<open>Text search\<close>

definition lower :: "char \<Rightarrow> char" where
  "lower c = (if 65 \<le> (of_char c :: nat) \<and> (of_char c :: nat) \<le> 90
     then char_of ((of_char c :: nat) + 32) else c)"

definition to_lower :: "string \<Rightarrow> string" where
  "to_lower = map lower"

text \<open>\<open>strings.Contains(s, sub)\<close>\<close>

definition contains :: "string \<Rightarrow> string \<Rightarrow> bool" where
  "contains s sub \<longleftrightarrow> list_ex (\<lambda>i. take (length sub) (drop i s) = sub) [0..<Suc (length s)]"

section \<open>The in-process repository\<close>

record ProgramRepository =
  pr_programs :: "(int64 \<times> Program) list"
  pr_categories :: "(int64 \<times> TicketCategory list) list"
  pr_seats :: "(int64 \<times> Seat list) list"

text \<open>Indexing a map of slices: a missing entry is the empty slice.\<close>

definition slice_at :: "('k \<times> 'v list) list \<Rightarrow> 'k \<Rightarrow> 'v list" where
  "slice_at m k = (case map_of m k of None \<Rightarrow> [] | Some vs \<Rightarrow> vs)"

definition PR_SaveProgramWithEvent :: "Program \<Rightarrow> TicketCategory list \<Rightarrow> Event \<Rightarrow> (ProgramRepository, unit) go" where
  "PR_SaveProgramWithEvent item categories event r =
     (Inr (), r\<lparr>pr_programs := AList.update (prg_ID item) item (pr_programs r),
                pr_categories := AList.update (prg_ID item) categories (pr_categories r)\<rparr>)"

definition PR_ListTicketCategoriesAfterID :: "int64 \<Rightarrow> int \<Rightarrow> (ProgramRepository, TicketCategory list) go" where
  "PR_ListTicketCategoriesAfterID afterID limit r =
     (let items = sort_key tc_ID (filter (\<lambda>c. tc_ID c > afterID) (concat (map snd (pr_categories r)))) in
      (Inr (if limit > 0 \<and> int (length items) > limit then take (nat limit) items else items), r))"

definition default_program :: "time \<Rightarrow> Program" where
  "default_program now =
     \<lparr>prg_ID = 10001, prg_Title = ''TicketHub Live 2026'', prg_City = ''Shanghai'', prg_Place = ''Mercedes-Benz Arena'',
      prg_ShowTime = now + 30 * 24 * 3600000000000, prg_Status = ''ON_SALE''\<rparr>"

text \<open>\<open>SeedDefaults\<close>; the category names are in their UTF-8 encoding.\<close>

definition SeedDefaults :: "time \<Rightarrow> ProgramRepository \<Rightarrow> ProgramRepository" where
  "SeedDefaults now r = r\<lparr>
     pr_programs := AList.update 10001 (default_program now) (pr_programs r),
     pr_categories := AList.update 10001
       [\<lparr>tc_ID = 1, tc_ProgramID = 10001, tc_Name = ''A'' @ [CHR 0xE5, CHR 0x8C, CHR 0xBA], tc_PriceCent = 128000, tc_Total = 1000, tc_Remain = 1000, tc_SellStarted = True\<rparr>,
        \<lparr>tc_ID = 2, tc_ProgramID = 10001, tc_Name = ''B'' @ [CHR 0xE5, CHR 0x8C, CHR 0xBA], tc_PriceCent = 88000, tc_Total = 2000, tc_Remain = 2000, tc_SellStarted = True\<rparr>]
       (pr_categories r),
     pr_seats := AList.update 1
       [\<lparr>seat_ID = 100, seat_ProgramID = 10001, seat_TicketCategoryID = 1, seat_RowCode = ''A'', seat_ColCode = ''01'',
         seat_PriceCent = 128000, seat_Status = SeatNoSold\<rparr>,
        \<lparr>seat_ID = 101, seat_ProgramID = 10001, seat_TicketCategoryID = 1, seat_RowCode = ''A'', seat_ColCode = ''02'',
         seat_PriceCent = 128000, seat_Status = SeatNoSold\<rparr>]
       (pr_seats r)\<rparr>"

definition NewProgramRepository :: "time \<Rightarrow> ProgramRepository" where
  "NewProgramRepository now = SeedDefaults now \<lparr>pr_programs = [], pr_categories = [], pr_seats = []\<rparr>"

definition matches :: "string \<Rightarrow> string \<Rightarrow> Program \<Rightarrow> bool" where
  "matches keyword city item \<longleftrightarrow>
     \<not> (keyword \<noteq> [] \<and> \<not> contains (to_lower (prg_Title item)) (to_lower keyword))
     \<and> \<not> (city \<noteq> [] \<and> \<not> equal_fold (prg_City item) city)"

definition matching :: "string \<Rightarrow> string \<Rightarrow> ProgramRepository \<Rightarrow> Program list" where
  "matching keyword city r = filter (matches keyword city) (map snd (pr_programs r))"

definition PR_SearchPrograms :: "string \<Rightarrow> string \<Rightarrow> int \<Rightarrow> int \<Rightarrow> (ProgramRepository, Program list) go" where
  "PR_SearchPrograms keyword city page pageSize r =
     (let matched = matching keyword city r;
          start = wrap64 (wrap64 (page - 1) * pageSize)
      in if start \<ge> int (length matched) then (Inr [], r)
         else
           (let end = wrap64 (start + pageSize);
                end = (if end > int (length matched) then int (length matched) else end)
            in if start < 0 \<or> end < start then (Inl (PlainError ''panic: slice bounds out of range''), r)
               else (Inr (take (nat (end - start)) (drop (nat start) matched)), r)))"

definition PR_FindProgram :: "int64 \<Rightarrow> (ProgramRepository, Program) go" where
  "PR_FindProgram programID r = (case map_of (pr_programs r) programID of
     None \<Rightarrow> (Inl (New CodeNotFound ''program not found''), r)
   | Some item \<Rightarrow> (Inr item, r))"

definition PR_FindProgramsByIDs :: "int64 list \<Rightarrow> (ProgramRepository, Program list) go" where
  "PR_FindProgramsByIDs programIDs r = (Inr (List.map_filter (map_of (pr_programs r)) programIDs), r)"

text \<open>The lowest price of the categories on sale; 0 stands for \<open>none yet\<close>.\<close>

definition lower_price :: "int64 \<Rightarrow> TicketCategory \<Rightarrow> int64" where
  "lower_price best category = (if tc_SellStarted category \<and> (best = 0 \<or> tc_PriceCent category < best) then tc_PriceCent category else best)"

definition PR_MinPricesByProgramIDs :: "int64 list \<Rightarrow> (ProgramRepository, int64 \<Rightarrow> int64) go" where
  "PR_MinPricesByProgramIDs programIDs r =
     (Inr (fold (\<lambda>i result. result(i := foldl lower_price (result i) (slice_at (pr_categories r) i))) programIDs (\<lambda>_. 0)), r)"

definition PR_ListTicketCategories :: "int64 \<Rightarrow> (ProgramRepository, TicketCategory list) go" where
  "PR_ListTicketCategories programID r = (Inr (slice_at (pr_categories r) programID), r)"

text \<open>The first category with the id, in iteration order, gets the new count.\<close>

fun set_remain :: "int64 \<Rightarrow> int64 \<Rightarrow> TicketCategory list \<Rightarrow> TicketCategory list option" where
  "set_remain categoryID remain [] = None"
| "set_remain categoryID remain (c # cs) =
     (if tc_ID c = categoryID then Some (c\<lparr>tc_Remain := remain\<rparr> # cs) else map_option (Cons c) (set_remain categoryID remain cs))"

fun set_remain_in :: "int64 \<Rightarrow> int64 \<Rightarrow> (int64 \<times> TicketCategory list) list \<Rightarrow> (int64 \<times> TicketCategory list) list option" where
  "set_remain_in categoryID remain [] = None"
| "set_remain_in categoryID remain ((p, cs) # rest) = (case set_remain categoryID remain cs of
     Some cs' \<Rightarrow> Some ((p, cs') # rest)
   | None \<Rightarrow> map_option (Cons (p, cs)) (set_remain_in categoryID remain rest))"

definition PR_UpdateTicketCategoryRemain :: "int64 \<Rightarrow> int64 \<Rightarrow> (ProgramRepository, unit) go" where
  "PR_UpdateTicketCategoryRemain ticketCategoryID remain r =
     (case set_remain_in ticketCategoryID remain (pr_categories r) of
        None \<Rightarrow> (Inl (New CodeNotFound ''ticket category not found''), r)
      | Some cats \<Rightarrow> (Inr (), r\<lparr>pr_categories := cats\<rparr>))"

definition PR_ListSeats :: "int64 \<Rightarrow> int64 \<Rightarrow> (ProgramRepository, Seat list) go" where
  "PR_ListSeats programID ticketCategoryID r = (Inr (slice_at (pr_seats r) ticketCategoryID), r)"

section \<open>The query service\<close>

text \<open>
  What the query service asks of its repository. The three optional interfaces are options: the source finds
  out by a type assertion whether the repository has them.
\<close>

record 'w query_repo =
  qr_SearchPrograms :: "string \<Rightarrow> string \<Rightarrow> int \<Rightarrow> int \<Rightarrow> ('w, Program list) go"
  qr_FindProgram :: "int64 \<Rightarrow> ('w, Program) go"
  qr_ListTicketCategories :: "int64 \<Rightarrow> ('w, TicketCategory list) go"
  qr_ListSeats :: "int64 \<Rightarrow> int64 \<Rightarrow> ('w, Seat list) go"
  qr_MinPrices :: "(int64 list \<Rightarrow> ('w, int64 \<Rightarrow> int64) go) option"
  qr_SearchAfter :: "(string \<Rightarrow> string \<Rightarrow> string \<Rightarrow> int \<Rightarrow> ('w, Program list \<times> string) go) option"
  qr_Suggest :: "(string \<Rightarrow> int \<Rightarrow> ('w, string list) go) option"

record ProgramDetail =
  pd_Program :: Program
  pd_TicketCategories :: "TicketCategory list"
  pd_Seats :: "Seat list"

record ProgramListItem =
  pli_Program :: Program
  pli_MinPriceCent :: int64

record ProgramPage =
  pp_Items :: "ProgramListItem list"
  pp_NextCursor :: string

definition clamp_page_size :: "int \<Rightarrow> int" where
  "clamp_page_size pageSize = (if pageSize \<le> 0 \<or> pageSize > 100 then 20 else pageSize)"

definition Search :: "'w query_repo \<Rightarrow> string \<Rightarrow> string \<Rightarrow> int \<Rightarrow> int \<Rightarrow> ('w, Program list) go" where
  "Search Q keyword city page pageSize =
     qr_SearchPrograms Q (trim_space keyword) (trim_space city) (if page \<le> 0 then 1 else page) (clamp_page_size pageSize)"

text \<open>The loop for repositories without minimum prices: any category counts, on sale or not.\<close>

definition cheaper :: "int64 \<Rightarrow> TicketCategory \<Rightarrow> int64" where
  "cheaper best category = (if best = 0 \<or> tc_PriceCent category < best then tc_PriceCent category else best)"

fun category_prices :: "'w query_repo \<Rightarrow> Program list \<Rightarrow> (int64 \<Rightarrow> int64) \<Rightarrow> ('w, int64 \<Rightarrow> int64) go" where
  "category_prices Q [] prices = returnG prices"
| "category_prices Q (item # items) prices =
     bindG (qr_ListTicketCategories Q (prg_ID item)) (\<lambda>categories.
       category_prices Q items (prices(prg_ID item := foldl cheaper (prices (prg_ID item)) categories)))"

definition withPrices :: "'w query_repo \<Rightarrow> Program list \<Rightarrow> ('w, ProgramListItem list) go" where
  "withPrices Q programs =
     bindG (case qr_MinPrices Q of
         Some minPrices \<Rightarrow> if programs \<noteq> [] then minPrices (map prg_ID programs) else category_prices Q programs (\<lambda>_. 0)
       | None \<Rightarrow> category_prices Q programs (\<lambda>_. 0))
       (\<lambda>prices. returnG (map (\<lambda>item. \<lparr>pli_Program = item, pli_MinPriceCent = prices (prg_ID item)\<rparr>) programs))"

definition SearchWithPrices :: "'w query_repo \<Rightarrow> string \<Rightarrow> string \<Rightarrow> int \<Rightarrow> int \<Rightarrow> ('w, ProgramListItem list) go" where
  "SearchWithPrices Q keyword city page pageSize = bindG (Search Q keyword city page pageSize) (withPrices Q)"

definition SearchPage :: "'w query_repo \<Rightarrow> string \<Rightarrow> string \<Rightarrow> string \<Rightarrow> int \<Rightarrow> int \<Rightarrow> ('w, ProgramPage) go" where
  "SearchPage Q keyword city cursor page pageSize =
     (let pageSize = clamp_page_size pageSize;
          by_page = bindG (SearchWithPrices Q keyword city page pageSize)
            (\<lambda>items. returnG \<lparr>pp_Items = items, pp_NextCursor = []\<rparr>)
      in case qr_SearchAfter Q of
           Some searchAfter \<Rightarrow>
             if cursor \<noteq> [] \<or> page \<le> 1 then
               bindG (searchAfter (trim_space keyword) (trim_space city) (trim_space cursor) pageSize) (\<lambda>(programs, nxt).
               bindG (withPrices Q programs) (\<lambda>items. returnG \<lparr>pp_Items = items, pp_NextCursor = nxt\<rparr>))
             else by_page
         | None \<Rightarrow> by_page)"

definition Suggest :: "'w query_repo \<Rightarrow> string \<Rightarrow> int \<Rightarrow> ('w, string list) go" where
  "Suggest Q prefix limit =
     (let prefix = trim_space prefix; limit = (if limit \<le> 0 \<or> limit > 20 then 10 else limit) in
      if prefix = [] then returnG []
      else case qr_Suggest Q of
             Some suggest \<Rightarrow> suggest prefix limit
           | None \<Rightarrow> bindG (qr_SearchPrograms Q prefix [] 1 limit) (\<lambda>items. returnG (map prg_Title items)))"

definition Detail :: "'w query_repo \<Rightarrow> int64 \<Rightarrow> int64 \<Rightarrow> ('w, ProgramDetail) go" where
  "Detail Q programID ticketCategoryID =
     (if programID \<le> 0 then failG (New CodeInvalidArgument ''program_id is required'')
      else bindG (qr_FindProgram Q programID) (\<lambda>current.
        bindG (qr_ListTicketCategories Q programID) (\<lambda>categories.
        bindG (if ticketCategoryID > 0 then qr_ListSeats Q programID ticketCategoryID else returnG []) (\<lambda>seats.
        returnG \<lparr>pd_Program = current, pd_TicketCategories = categories, pd_Seats = seats\<rparr>))))"

definition memory_queries :: "ProgramRepository query_repo" where
  "memory_queries =
     \<lparr>qr_SearchPrograms = PR_SearchPrograms, qr_FindProgram = PR_FindProgram, qr_ListTicketCategories = PR_ListTicketCategories,
      qr_ListSeats = PR_ListSeats, qr_MinPrices = Some PR_MinPricesByProgramIDs, qr_SearchAfter = None, qr_Suggest = None\<rparr>"

section \<open>The query handlers of the gRPC server\<close>

record ProgramSummary =
  sum_Id :: int64
  sum_Title :: string
  sum_City :: string
  sum_Place :: string
  sum_ShowTime :: string
  sum_Status :: string
  sum_MinPriceCent :: int64

definition Server_SearchProgram ::
  "(time \<Rightarrow> string) \<Rightarrow> 'w query_repo \<Rightarrow> string \<Rightarrow> string \<Rightarrow> string \<Rightarrow> int \<Rightarrow> int \<Rightarrow> ('w, ProgramSummary list \<times> string) go" where
  "Server_SearchProgram fmt_time Q keyword city cursor page pageSize =
     bindG (SearchPage Q keyword city cursor page pageSize) (\<lambda>pg.
       returnG (map (\<lambda>item. let p = pli_Program item in
           \<lparr>sum_Id = prg_ID p, sum_Title = prg_Title p, sum_City = prg_City p, sum_Place = prg_Place p,
            sum_ShowTime = fmt_time (prg_ShowTime p), sum_Status = prg_Status p, sum_MinPriceCent = pli_MinPriceCent item\<rparr>)
         (pp_Items pg), pp_NextCursor pg))"

record CategoryReply =
  cr_Id :: int64
  cr_Name :: string
  cr_PriceCent :: int64
  cr_Remain :: int64

record SeatReply =
  sr_Id :: int64
  sr_TicketCategoryId :: int64
  sr_RowCode :: string
  sr_ColCode :: string
  sr_PriceCent :: int64
  sr_Status :: string

record DetailReply =
  dr_Id :: int64
  dr_Title :: string
  dr_City :: string
  dr_Place :: string
  dr_ShowTime :: string
  dr_Status :: string
  dr_TicketCategories :: "CategoryReply list"
  dr_Seats :: "SeatReply list"

definition Server_GetProgramDetail :: "(time \<Rightarrow> string) \<Rightarrow> 'w query_repo \<Rightarrow> int64 \<Rightarrow> int64 \<Rightarrow> ('w, DetailReply) go" where
  "Server_GetProgramDetail fmt_time Q programID ticketCategoryID =
     bindG (Detail Q programID ticketCategoryID) (\<lambda>detail. let p = pd_Program detail in
       returnG \<lparr>dr_Id = prg_ID p, dr_Title = prg_Title p, dr_City = prg_City p, dr_Place = prg_Place p,
         dr_ShowTime = fmt_time (prg_ShowTime p), dr_Status = prg_Status p,
         dr_TicketCategories = map (\<lambda>c. \<lparr>cr_Id = tc_ID c, cr_Name = tc_Name c, cr_PriceCent = tc_PriceCent c, cr_Remain = tc_Remain c\<rparr>)
           (pd_TicketCategories detail),
         dr_Seats = map (\<lambda>s. \<lparr>sr_Id = seat_ID s, sr_TicketCategoryId = seat_TicketCategoryID s, sr_RowCode = seat_RowCode s,
           sr_ColCode = seat_ColCode s, sr_PriceCent = seat_PriceCent s, sr_Status = seat_Status s\<rparr>) (pd_Seats detail)\<rparr>)"

section \<open>Pages\<close>

text \<open>A page inside the 64-bit range is a slice of the matching programs.\<close>

lemma search_slice:
  assumes "1 \<le> page" and "0 < pageSize" and "page * pageSize < 2 ^ 63"
  shows "PR_SearchPrograms keyword city page pageSize r =
    (Inr (take (nat pageSize) (drop (nat ((page - 1) * pageSize)) (matching keyword city r))), r)"
proof -
  let ?m = "matching keyword city r" and ?start = "(page - 1) * pageSize"
  have "page \<le> page * pageSize" using assms by (simp add: mult_le_cancel_left1)
  then have w: "wrap64 (page - 1) = page - 1" using assms by (intro wrap64_nonneg; linarith)
  have s: "0 \<le> ?start" "?start + pageSize = page * pageSize" using assms by (auto simp: algebra_simps)
  then have w': "wrap64 ?start = ?start" "wrap64 (?start + pageSize) = ?start + pageSize"
    using assms by (auto intro!: wrap64_nonneg)
  show ?thesis
  proof (cases "?start \<ge> int (length ?m)")
    case True
    then have "length ?m \<le> nat ?start" by linarith
    then show ?thesis using True by (simp add: PR_SearchPrograms_def Let_def w w')
  next
    case False
    show ?thesis
    proof (cases "?start + pageSize > int (length ?m)")
      case True
      have "take (nat (int (length ?m) - ?start)) (drop (nat ?start) ?m) = take (nat pageSize) (drop (nat ?start) ?m)"
        using True s(1) assms(2) by (intro trans [OF take_all take_all [symmetric]]) auto
      then show ?thesis using False True s(1) by (simp add: PR_SearchPrograms_def Let_def w w')
    next
      case nt: False
      then show ?thesis using False s(1) assms(2) by (simp add: PR_SearchPrograms_def Let_def w w')
    qed
  qed
qed

text \<open>The categories of one program keep their lowest price on sale.\<close>

lemma foldl_lower_price:
  assumes "0 \<le> best" and "\<forall>c \<in> set cs. 0 < tc_PriceCent c"
  shows "foldl lower_price best cs =
    (let ps = tc_PriceCent ` {c \<in> set cs. tc_SellStarted c} in
     if best = 0 then (if ps = {} then 0 else Min ps) else Min (insert best ps))"
  using assms
proof (induction cs arbitrary: best)
  case (Cons c cs)
  show ?case
  proof (cases "tc_SellStarted c")
    case True
    then have eq: "{d \<in> set (c # cs). tc_SellStarted d} = insert c {d \<in> set cs. tc_SellStarted d}" by auto
    have pos: "0 < tc_PriceCent c" using Cons.prems by simp
    define b where "b = (if best = 0 \<or> tc_PriceCent c < best then tc_PriceCent c else best)"
    have "foldl lower_price best (c # cs) = foldl lower_price b cs"
      using True by (simp add: lower_price_def b_def)
    also have "\<dots> = Min (insert b (tc_PriceCent ` {d \<in> set cs. tc_SellStarted d}))"
      using Cons.IH [of b] Cons.prems pos by (auto simp: b_def Let_def)
    finally have step: "foldl lower_price best (c # cs) = Min (insert b (tc_PriceCent ` {d \<in> set cs. tc_SellStarted d}))" .
    define S where "S = tc_PriceCent ` {d \<in> set cs. tc_SellStarted d}"
    have "finite S" by (simp add: S_def)
    then have "Min (insert b S) = (if best = 0 then Min (insert (tc_PriceCent c) S) else Min (insert best (insert (tc_PriceCent c) S)))"
      by (cases "S = {}") (auto simp: b_def)
    then show ?thesis unfolding eq step image_insert S_def [symmetric] by (simp add: Let_def)
  next
    case False
    then have eq: "{d \<in> set (c # cs). tc_SellStarted d} = {d \<in> set cs. tc_SellStarted d}" by auto
    show ?thesis using Cons.IH [of best] Cons.prems False unfolding eq by (simp add: lower_price_def)
  qed
qed simp

definition lowest_on_sale :: "TicketCategory list \<Rightarrow> int64" where
  "lowest_on_sale cs = (let ps = map tc_PriceCent (filter tc_SellStarted cs) in if ps = [] then 0 else Min (set ps))"

lemma foldl_lowest: "\<forall>c \<in> set cs. 0 < tc_PriceCent c \<Longrightarrow> foldl lower_price 0 cs = lowest_on_sale cs"
  by (subst foldl_lower_price) (auto simp: lowest_on_sale_def Let_def filter_empty_conv)

lemma min_prices_distinct:
  assumes "distinct ids" and "i \<in> set ids"
  shows "fold (\<lambda>i result. result(i := foldl lower_price (result i) (cats i))) ids f i = foldl lower_price (f i) (cats i)"
proof -
  have other: "i \<notin> set ids \<Longrightarrow> fold (\<lambda>i result. result(i := foldl lower_price (result i) (cats i))) ids f i = f i" for ids i f
    by (induction ids arbitrary: f) auto
  show ?thesis using assms by (induction ids arbitrary: f) (auto simp: other)
qed

text \<open>
  The program list shows, for each program found, the lowest price among its ticket categories on sale,
  and 0 when nothing of it is on sale.
\<close>

theorem program_list_prices:
  assumes "distinct (map prg_ID programs)"
    and "\<forall>p \<in> set programs. \<forall>c \<in> set (slice_at (pr_categories r) (prg_ID p)). 0 < tc_PriceCent c"
  shows "withPrices memory_queries programs r =
    (Inr (map (\<lambda>p. \<lparr>pli_Program = p, pli_MinPriceCent = lowest_on_sale (slice_at (pr_categories r) (prg_ID p))\<rparr>) programs), r)"
proof -
  define prices where "prices = fold (\<lambda>i result. result(i := foldl lower_price (result i) (slice_at (pr_categories r) i))) (map prg_ID programs) (\<lambda>_. 0)"
  have price: "prices (prg_ID p) = lowest_on_sale (slice_at (pr_categories r) (prg_ID p))" if "p \<in> set programs" for p
    using min_prices_distinct [OF assms(1), of "prg_ID p"] that assms(2) by (simp add: prices_def foldl_lowest)
  have "withPrices memory_queries programs r = (Inr (map (\<lambda>p. \<lparr>pli_Program = p, pli_MinPriceCent = prices (prg_ID p)\<rparr>) programs), r)"
    unfolding prices_def by (cases programs) (simp_all add: withPrices_def memory_queries_def bindG_def go_simps PR_MinPricesByProgramIDs_def)
  then show ?thesis using price by simp
qed

theorem program_list_prices_witness:
  "withPrices memory_queries [default_program 0] (NewProgramRepository 0) =
     (Inr [\<lparr>pli_Program = default_program 0, pli_MinPriceCent = 88000\<rparr>], NewProgramRepository 0)"
proof -
  let ?r = "NewProgramRepository 0"
  have "distinct (map prg_ID [default_program 0])"
    "\<forall>p \<in> set [default_program 0]. \<forall>c \<in> set (slice_at (pr_categories ?r) (prg_ID p)). 0 < tc_PriceCent c"
    "lowest_on_sale (slice_at (pr_categories ?r) (prg_ID (default_program 0))) = 88000"
    by (simp_all add: slice_at_def NewProgramRepository_def SeedDefaults_def default_program_def lowest_on_sale_def Let_def)
  with program_list_prices [of "[default_program 0]" ?r] show ?thesis by simp
qed

end
