(* ===== verification/Idempotency.thy ===== *)
theory Idempotency
  imports Redis_Server Program_Domain Events Id_Gen
begin

text \<open>
  Idempotency of purchase requests (\<open>src/app/program-service/internal/application/idempotency.go\<close>, the
  stores in \<open>infrastructure/memory/idempotency_store.go\<close> and \<open>infrastructure/redis/idempotency_store.go\<close>).
  A request id is claimed by the fingerprint of its request, first as processing, then as completed with
  the order number.

  The locale \<open>idempotency_store\<close> is the contract of both stores; the in-process store and the Redis store
  are interpretations of it. The digest (\<open>sha256\<close> in hexadecimal) is a parameter. The Redis store reads the
  order number back through a Lua number, a double: \<open>shown\<close> is what a replay reports.
\<close>

datatype IdempotencyState = IdempotencyAcquired | IdempotencyProcessing | IdempotencyCompleted

record IdempotencyResult =
  ir_State :: IdempotencyState
  ir_OrderNumber :: int64

abbreviation acquired :: IdempotencyResult where
  "acquired \<equiv> \<lparr>ir_State = IdempotencyAcquired, ir_OrderNumber = 0\<rparr>"

abbreviation processing :: IdempotencyResult where
  "processing \<equiv> \<lparr>ir_State = IdempotencyProcessing, ir_OrderNumber = 0\<rparr>"

abbreviation completed :: "int64 \<Rightarrow> IdempotencyResult" where
  "completed n \<equiv> \<lparr>ir_State = IdempotencyCompleted, ir_OrderNumber = n\<rparr>"

definition fingerprint_payload :: "CreateOrderCommand \<Rightarrow> json" where
  "fingerprint_payload cmd = JObj
     [(''user_id'', JInt (cmd_UserID cmd)), (''program_id'', JInt (cmd_ProgramID cmd)),
      (''ticket_category_id'', JInt (cmd_TicketCategoryID cmd)),
      (''seat_ids'', json_ints (cmd_SeatIDs cmd)), (''ticket_user_ids'', json_ints (cmd_TicketUserIDs cmd))]"

definition purchaseFingerprint :: "(json \<Rightarrow> string) \<Rightarrow> CreateOrderCommand \<Rightarrow> string" where
  "purchaseFingerprint digest cmd = digest (fingerprint_payload cmd)"

definition validateIdempotencyKey :: "string \<Rightarrow> error option" where
  "validateIdempotencyKey key =
     (let key = trim_space key in
      if length key < 8 \<or> length key > 128
      then Some (New CodeInvalidArgument ''idempotency key must contain 8 to 128 characters'') else None)"

abbreviation reused_key :: error where
  "reused_key \<equiv> New CodeDuplicateSubmission ''idempotency key was reused with a different request''"

abbreviation ownership_lost :: error where
  "ownership_lost \<equiv> New CodeConflict ''order idempotency ownership was lost''"

section \<open>Contract\<close>

text \<open>
  \<open>claim s k\<close> is the live claim of request id \<open>k\<close>: its fingerprint, and the order number once completed.
  \<open>same_slot\<close> says which request ids share a record.
\<close>

locale idempotency_store =
  fixes Begin :: "string \<Rightarrow> string \<Rightarrow> duration \<Rightarrow> ('s, IdempotencyResult) go"
    and Complete :: "string \<Rightarrow> string \<Rightarrow> int64 \<Rightarrow> duration \<Rightarrow> ('s, unit) go"
    and Abort :: "string \<Rightarrow> string \<Rightarrow> ('s, unit) go"
    and claim :: "'s \<Rightarrow> string \<rightharpoonup> string \<times> int64 option"
    and same_slot :: "string \<Rightarrow> string \<Rightarrow> bool"
    and shown :: "int64 \<Rightarrow> int64"
    and ttl_ok :: "duration \<Rightarrow> bool"
    and iinv :: "'s \<Rightarrow> bool"
  assumes slot_refl: "same_slot k k"
    and slot_claim: "same_slot k k' \<Longrightarrow> claim s k = claim s k'"
    and Begin_free: "iinv s \<Longrightarrow> claim s k = None \<Longrightarrow> ttl_ok ttl \<Longrightarrow>
      \<exists>t. Begin k fp ttl s = (Inr acquired, t) \<and> iinv t
        \<and> claim t = (\<lambda>k'. if same_slot k k' then Some (fp, None) else claim s k')"
    and Begin_taken: "iinv s \<Longrightarrow> claim s k = Some (f, c) \<Longrightarrow>
      Begin k fp ttl s = (if f \<noteq> fp then Inl reused_key
        else Inr (case c of None \<Rightarrow> processing | Some n \<Rightarrow> completed (shown n)), s)"
    and Complete_own: "iinv s \<Longrightarrow> claim s k = Some (fp, c) \<Longrightarrow> ttl_ok ttl \<Longrightarrow> in64 n \<Longrightarrow>
      \<exists>t. Complete k fp n ttl s = (Inr (), t) \<and> iinv t
        \<and> claim t = (\<lambda>k'. if same_slot k k' then Some (fp, Some n) else claim s k')"
    and Complete_other: "iinv s \<Longrightarrow> claim s k = Some (f, c) \<Longrightarrow> f \<noteq> fp \<Longrightarrow> Complete k fp n ttl s = (Inl ownership_lost, s)"
    and Complete_gone: "iinv s \<Longrightarrow> claim s k = None \<Longrightarrow> ttl_ok ttl \<Longrightarrow> in64 n \<Longrightarrow>
      \<exists>r t. Complete k fp n ttl s = (r, t) \<and> iinv t
        \<and> (r = Inl ownership_lost \<and> claim t = claim s
           \<or> r = Inr () \<and> claim t = (\<lambda>k'. if same_slot k k' then Some (fp, Some n) else claim s k'))"
    and Abort_own: "iinv s \<Longrightarrow> claim s k = Some (fp, None) \<Longrightarrow>
      \<exists>t. Abort k fp s = (Inr (), t) \<and> iinv t \<and> claim t = (\<lambda>k'. if same_slot k k' then None else claim s k')"
    and Abort_other: "iinv s \<Longrightarrow> claim s k \<noteq> Some (fp, None) \<Longrightarrow>
      \<exists>t. Abort k fp s = (Inr (), t) \<and> iinv t \<and> claim t = claim s"
begin

text \<open>A claim that was completed is reported to every later request with the same fingerprint.\<close>

lemma replay_after_complete:
  assumes "iinv s" and "claim s k = Some (fp, c)" and "ttl_ok ttl" and "in64 n" and "Complete k fp n ttl s = (Inr (), t)"
  shows "Begin k fp ttl' t = (Inr (completed (shown n)), t)"
proof -
  from Complete_own [OF assms(1-4)] assms(5) slot_refl have "iinv t" "claim t k = Some (fp, Some n)" by auto
  from Begin_taken [OF this] show ?thesis by simp
qed

text \<open>Of two requests with the same id only the first one goes ahead, until it completes or gives up.\<close>

lemma second_request_waits:
  assumes "iinv s" and "claim s k = None" and "ttl_ok ttl" and "Begin k fp ttl s = (Inr acquired, t)"
  shows "Begin k fp' ttl' t = ((if fp' = fp then Inr processing else Inl reused_key), t)"
proof -
  from Begin_free [OF assms(1-3), of fp] assms(4) slot_refl have "iinv t" "claim t k = Some (fp, None)" by auto
  from Begin_taken [OF this] show ?thesis by auto
qed

lemma abort_frees:
  assumes "iinv s" and "claim s k = None" and "ttl_ok ttl" and "Begin k fp ttl s = (Inr acquired, t)"
  shows "\<exists>u. Abort k fp t = (Inr (), u) \<and> iinv u \<and> claim u k = None"
proof -
  from Begin_free [OF assms(1-3), of fp] assms(4) slot_refl have "iinv t" "claim t k = Some (fp, None)" by auto
  from Abort_own [OF this] slot_refl show ?thesis by auto
qed

end

section \<open>The in-process store\<close>

record idempotencyEntry =
  ie_fingerprint :: string
  ie_state :: IdempotencyState
  ie_orderNumber :: int64
  ie_expiresAt :: time

type_synonym IdempotencyStore = "string \<rightharpoonup> idempotencyEntry"

definition NewIdempotencyStore :: IdempotencyStore where
  "NewIdempotencyStore = Map.empty"

text \<open>The clock reading \<open>now\<close> of a call is an argument; each call runs under the store's mutex.\<close>

definition Idem_Begin :: "time \<Rightarrow> string \<Rightarrow> string \<Rightarrow> duration \<Rightarrow> (IdempotencyStore, IdempotencyResult) go" where
  "Idem_Begin now key fingerprint ttl s =
     (let acquire = (Inr acquired, s(key \<mapsto> \<lparr>ie_fingerprint = fingerprint, ie_state = IdempotencyProcessing,
                                            ie_orderNumber = 0, ie_expiresAt = now + ttl\<rparr>)) in
      case s key of
        Some entry \<Rightarrow>
          if ie_expiresAt entry > now then
            (if ie_fingerprint entry \<noteq> fingerprint then (Inl reused_key, s)
             else (Inr \<lparr>ir_State = ie_state entry, ir_OrderNumber = ie_orderNumber entry\<rparr>, s))
          else acquire
      | None \<Rightarrow> acquire)"

definition Idem_Complete :: "time \<Rightarrow> string \<Rightarrow> string \<Rightarrow> int64 \<Rightarrow> duration \<Rightarrow> (IdempotencyStore, unit) go" where
  "Idem_Complete now key fingerprint orderNumber ttl s =
     (case s key of
        None \<Rightarrow> (Inl ownership_lost, s)
      | Some entry \<Rightarrow>
          if ie_fingerprint entry \<noteq> fingerprint then (Inl ownership_lost, s)
          else (Inr (), s(key \<mapsto> entry\<lparr>ie_state := IdempotencyCompleted, ie_orderNumber := orderNumber,
                                       ie_expiresAt := now + ttl\<rparr>)))"

definition Idem_Abort :: "string \<Rightarrow> string \<Rightarrow> (IdempotencyStore, unit) go" where
  "Idem_Abort key fingerprint s =
     (Inr (), case s key of
        Some entry \<Rightarrow>
          if ie_fingerprint entry = fingerprint \<and> ie_state entry \<noteq> IdempotencyCompleted then s(key := None) else s
      | None \<Rightarrow> s)"

definition entry_claim :: "idempotencyEntry \<Rightarrow> string \<times> int64 option" where
  "entry_claim e = (ie_fingerprint e, if ie_state e = IdempotencyCompleted then Some (ie_orderNumber e) else None)"

definition memory_claim :: "time \<Rightarrow> IdempotencyStore \<Rightarrow> string \<rightharpoonup> string \<times> int64 option" where
  "memory_claim now s k = (case s k of
     Some e \<Rightarrow> if ie_expiresAt e > now then Some (entry_claim e) else None
   | None \<Rightarrow> None)"

text \<open>A stored entry is processing, with no order number, or completed.\<close>

definition entries_ok :: "IdempotencyStore \<Rightarrow> bool" where
  "entries_ok s \<longleftrightarrow> (\<forall>k e. s k = Some e \<longrightarrow>
     ie_state e = IdempotencyProcessing \<and> ie_orderNumber e = 0 \<or> ie_state e = IdempotencyCompleted)"

lemma memory_claim_upd: "memory_claim now (s(k \<mapsto> e)) = (\<lambda>k'. if k = k' then (if ie_expiresAt e > now then Some (entry_claim e) else None) else memory_claim now s k')"
  by (auto simp: memory_claim_def fun_eq_iff)

lemma memory_claim_del: "memory_claim now (s(k := None)) = (\<lambda>k'. if k = k' then None else memory_claim now s k')"
  by (auto simp: memory_claim_def fun_eq_iff)

interpretation memory_idem: idempotency_store "Idem_Begin now" "Idem_Complete now" Idem_Abort "memory_claim now"
  "(=)" "\<lambda>n. n" "\<lambda>ttl. 0 < ttl" entries_ok for now
proof unfold_locales
  show "\<exists>t. Idem_Begin now k fp ttl s = (Inr acquired, t) \<and> entries_ok t \<and>
      memory_claim now t = (\<lambda>k'. if k = k' then Some (fp, None) else memory_claim now s k')"
    if "entries_ok s" "memory_claim now s k = None" "0 < ttl" for s k ttl fp
    using that by (auto simp: Idem_Begin_def Let_def memory_claim_upd entry_claim_def entries_ok_def
        memory_claim_def [of now s k] split: option.splits if_splits)
  show "Idem_Begin now k fp ttl s = (if f \<noteq> fp then Inl reused_key
        else Inr (case c of None \<Rightarrow> processing | Some n \<Rightarrow> completed n), s)"
    if "entries_ok s" "memory_claim now s k = Some (f, c)" for s k f c fp ttl
  proof -
    from that(2) obtain e where e: "s k = Some e" "ie_expiresAt e > now" "entry_claim e = (f, c)"
      by (auto simp: memory_claim_def split: option.splits if_splits)
    with that(1) have "ie_state e = IdempotencyProcessing \<and> ie_orderNumber e = 0 \<or> ie_state e = IdempotencyCompleted"
      by (simp add: entries_ok_def)
    with e show ?thesis by (auto simp: Idem_Begin_def Let_def entry_claim_def)
  qed
  show "\<exists>t. Idem_Complete now k fp n ttl s = (Inr (), t) \<and> entries_ok t \<and>
      memory_claim now t = (\<lambda>k'. if k = k' then Some (fp, Some n) else memory_claim now s k')"
    if "entries_ok s" "memory_claim now s k = Some (fp, c)" "0 < ttl" for s k fp c ttl n
    using that by (auto simp: Idem_Complete_def memory_claim_upd entry_claim_def entries_ok_def
        memory_claim_def [of now s k] split: option.splits if_splits)
  show "Idem_Complete now k fp n ttl s = (Inl ownership_lost, s)"
    if "memory_claim now s k = Some (f, c)" "f \<noteq> fp" for s k f c fp n ttl
    using that by (auto simp: Idem_Complete_def memory_claim_def entry_claim_def split: option.splits if_splits)
  show "\<exists>r t. Idem_Complete now k fp n ttl s = (r, t) \<and> entries_ok t \<and>
      (r = Inl ownership_lost \<and> memory_claim now t = memory_claim now s
       \<or> r = Inr () \<and> memory_claim now t = (\<lambda>k'. if k = k' then Some (fp, Some n) else memory_claim now s k'))"
    if "entries_ok s" "0 < ttl" for s k ttl fp n
    using that by (auto simp: Idem_Complete_def memory_claim_upd entry_claim_def entries_ok_def split: option.splits)
  show "\<exists>t. Idem_Abort k fp s = (Inr (), t) \<and> entries_ok t \<and> memory_claim now t = (\<lambda>k'. if k = k' then None else memory_claim now s k')"
    if "entries_ok s" "memory_claim now s k = Some (fp, None)" for s k fp
    using that by (auto simp: Idem_Abort_def memory_claim_del entry_claim_def entries_ok_def
        memory_claim_def [of now s k] split: option.splits if_splits)
  show "\<exists>t. Idem_Abort k fp s = (Inr (), t) \<and> entries_ok t \<and> memory_claim now t = memory_claim now s"
    if "entries_ok s" "memory_claim now s k \<noteq> Some (fp, None)" for s k fp
  proof -
    have "memory_claim now (s(k := None)) = memory_claim now s" if "memory_claim now s k = None"
      using that by (auto simp: memory_claim_del fun_eq_iff)
    moreover have "entries_ok (s(k := None))" using that(1) by (simp add: entries_ok_def)
    moreover have "memory_claim now s k = None" if "s k = Some e" "ie_fingerprint e = fp" "ie_state e \<noteq> IdempotencyCompleted" for e
      using that \<open>memory_claim now s k \<noteq> Some (fp, None)\<close> by (auto simp: memory_claim_def entry_claim_def)
    ultimately show ?thesis
      using that(1) by (auto simp: Idem_Abort_def split: option.splits)
  qed
qed auto

section \<open>Lua numbers\<close>

text \<open>
  \<open>tonumber\<close> of a Redis script gives an IEEE double: 53 significant bits, ties to the even neighbour. A
  script's number is sent back as an integer. \<open>lua_number n\<close> is the integer that comes back for \<open>n\<close>.
\<close>

fun bit_len :: "nat \<Rightarrow> nat" where
  "bit_len n = (if n = 0 then 0 else Suc (bit_len (n div 2)))"

declare bit_len.simps [simp del]

definition lua_number :: "int \<Rightarrow> int" where
  "lua_number n =
     (let m = nat \<bar>n\<bar>; d = bit_len m - 53; q = m div 2 ^ d; r = m mod 2 ^ d;
          q' = (if 2 * r < 2 ^ d \<or> 2 * r = 2 ^ d \<and> even q then q else Suc q)
      in sgn n * int (q' * 2 ^ d))"

lemma bit_len_le: "m < 2 ^ k \<Longrightarrow> bit_len m \<le> k"
proof (induction k arbitrary: m)
  case 0
  then show ?case by (simp add: bit_len.simps)
next
  case (Suc k)
  then have "m div 2 < 2 ^ k" by auto
  with Suc.IH show ?case by (subst bit_len.simps) simp
qed

lemma lua_number_exact:
  assumes "\<bar>n\<bar> < 2 ^ 53"
  shows "lua_number n = n"
proof -
  have "nat \<bar>n\<bar> < 2 ^ 53" using assms by (simp add: nat_less_iff)
  then have "bit_len (nat \<bar>n\<bar>) - 53 = 0" using bit_len_le by fastforce
  then show ?thesis by (simp add: lua_number_def Let_def sgn_mult_abs)
qed

section \<open>The Redis store\<close>

text \<open>Scripts that reply with an array of numbers, and what sends them.\<close>

type_synonym 'r array_script = "string list \<Rightarrow> string list \<Rightarrow> 'r \<Rightarrow> int list option \<times> 'r"
type_synonym 'r array_executor = "'r array_script \<Rightarrow> string list \<Rightarrow> string list \<Rightarrow> ('r, int list) go"

definition direct_array_exec :: "'r array_executor" where
  "direct_array_exec sc K A s = (case sc K A s of
     (Some r, t) \<Rightarrow> (Inr r, t) | (None, t) \<Rightarrow> (Inl (PlainError ''script error''), t))"

definition beginIdempotencyScript :: "'r redis \<Rightarrow> 'r array_script" where
  "beginIdempotencyScript R KEYS ARGV s =
     (case rHGET R (KEYS ! 0) ''fingerprint'' s of
        Some fingerprint \<Rightarrow>
          if fingerprint \<noteq> ARGV ! 0 then (Some [-2, 0], s)
          else if rHGET R (KEYS ! 0) ''status'' s = Some ''completed'' then
            (case parse_int (case rHGET R (KEYS ! 0) ''order_number'' s of None \<Rightarrow> ''0'' | Some x \<Rightarrow> x) of
               Some n \<Rightarrow> (Some [2, lua_number n], s)
             | None \<Rightarrow> (Some [2], s))
          else (Some [0, 0], s)
      | None \<Rightarrow>
          (let s1 = rHSET R (KEYS ! 0) [(''fingerprint'', ARGV ! 0), (''status'', ''processing'')] s in
           case parse_int (ARGV ! 1) of
             None \<Rightarrow> (None, s1)
           | Some ttl \<Rightarrow> (Some [1, 0], rPEXPIRE R (KEYS ! 0) ttl s1)))"

definition completeIdempotencyScript :: "'r redis \<Rightarrow> 'r lua_script" where
  "completeIdempotencyScript R KEYS ARGV s =
     (if rHGET R (KEYS ! 0) ''fingerprint'' s \<noteq> Some (ARGV ! 0) then (Some 0, s)
      else
        (let s1 = rHSET R (KEYS ! 0) [(''status'', ''completed''), (''order_number'', ARGV ! 1)] s in
         case parse_int (ARGV ! 2) of
           None \<Rightarrow> (None, s1)
         | Some ttl \<Rightarrow> (Some 1, rPEXPIRE R (KEYS ! 0) ttl s1)))"

definition abortIdempotencyScript :: "'r redis \<Rightarrow> 'r lua_script" where
  "abortIdempotencyScript R KEYS ARGV s =
     (if rHGET R (KEYS ! 0) ''fingerprint'' s = Some (ARGV ! 0) \<and> rHGET R (KEYS ! 0) ''status'' s = Some ''processing''
      then (Some 1, rDEL R (KEYS ! 0) s) else (Some 0, s))"

definition idempotency_key :: "string \<Rightarrow> string \<Rightarrow> string" where
  "idempotency_key keys key = Build keys [''idempotency'', ''create-order'', key]"

definition milliseconds :: "duration \<Rightarrow> int64" where
  "milliseconds d = d sdiv 1000000"

definition RedisIdem_Begin ::
  "'r redis \<Rightarrow> 'r array_executor \<Rightarrow> string \<Rightarrow> string \<Rightarrow> string \<Rightarrow> duration \<Rightarrow> ('r, IdempotencyResult) go" where
  "RedisIdem_Begin R exec keys key fingerprint ttl =
     attemptG (exec (beginIdempotencyScript R) [idempotency_key keys key] [fingerprint, show_int (milliseconds ttl)])
       (\<lambda>r. case r of
          Inl e \<Rightarrow> failG (Wrap CodeInfrastructure ''begin order idempotency failed'' e)
        | Inr parts \<Rightarrow>
            if length parts \<noteq> 2 then failG (New CodeInfrastructure ''invalid idempotency response'')
            else if parts ! 0 = 1 then returnG acquired
            else if parts ! 0 = 2 then returnG (completed (parts ! 1))
            else if parts ! 0 = 0 then returnG processing
            else failG reused_key)"

definition RedisIdem_Complete ::
  "'r redis \<Rightarrow> 'r executor \<Rightarrow> string \<Rightarrow> string \<Rightarrow> string \<Rightarrow> int64 \<Rightarrow> duration \<Rightarrow> ('r, unit) go" where
  "RedisIdem_Complete R exec keys key fingerprint orderNumber ttl =
     attemptG (exec (completeIdempotencyScript R) [idempotency_key keys key]
         [fingerprint, show_int orderNumber, show_int (milliseconds ttl)])
       (\<lambda>r. case r of
          Inl e \<Rightarrow> failG (Wrap CodeInfrastructure ''complete order idempotency failed'' e)
        | Inr result \<Rightarrow> if result \<noteq> 1 then failG ownership_lost else returnG ())"

definition RedisIdem_Abort :: "'r redis \<Rightarrow> 'r executor \<Rightarrow> string \<Rightarrow> string \<Rightarrow> string \<Rightarrow> ('r, unit) go" where
  "RedisIdem_Abort R exec keys key fingerprint =
     attemptG (exec (abortIdempotencyScript R) [idempotency_key keys key] [fingerprint])
       (\<lambda>r. case r of
          Inl e \<Rightarrow> failG (Wrap CodeInfrastructure ''abort order idempotency failed'' e)
        | Inr _ \<Rightarrow> returnG ())"

section \<open>The Redis store meets the contract\<close>

definition hash_claim :: "(string \<rightharpoonup> string) \<Rightarrow> (string \<times> int64 option) option" where
  "hash_claim h = (case h ''fingerprint'' of
     None \<Rightarrow> None
   | Some fp \<Rightarrow> Some (fp, if h ''status'' = Some ''completed'' then Option.bind (h ''order_number'') parse_int else None))"

definition keyspace_claim :: "string \<Rightarrow> keyspace \<Rightarrow> string \<rightharpoonup> string \<times> int64 option" where
  "keyspace_claim keys s k = hash_claim (hash_val (ks_val s (idempotency_key keys k)))"

definition hash_ok :: "(string \<rightharpoonup> string) \<Rightarrow> bool" where
  "hash_ok h \<longleftrightarrow> h ''fingerprint'' \<noteq> None \<longrightarrow>
     h ''status'' = Some ''processing''
     \<or> h ''status'' = Some ''completed'' \<and> (\<exists>x n. h ''order_number'' = Some x \<and> parse_int x = Some n)"

definition claims_ok :: "string \<Rightarrow> keyspace \<Rightarrow> bool" where
  "claims_ok keys s \<longleftrightarrow> (\<forall>k. hash_ok (hash_val (ks_val s (idempotency_key keys k))))"

definition redis_ttl_ok :: "duration \<Rightarrow> bool" where
  "redis_ttl_ok ttl \<longleftrightarrow> 0 < milliseconds ttl \<and> in64 (milliseconds ttl)"

definition redis_slot :: "string \<Rightarrow> string \<Rightarrow> string \<Rightarrow> bool" where
  "redis_slot keys k k' \<longleftrightarrow> idempotency_key keys k = idempotency_key keys k'"

lemma claim_put:
  assumes "ks_val t = (ks_val s)(idempotency_key keys k := Some (RHash h))"
  shows "keyspace_claim keys t = (\<lambda>k'. if redis_slot keys k k' then hash_claim h else keyspace_claim keys s k')"
    and "claims_ok keys s \<Longrightarrow> hash_ok h \<Longrightarrow> claims_ok keys t"
  using assms by (auto simp: keyspace_claim_def claims_ok_def redis_slot_def fun_eq_iff)

lemma claim_del:
  assumes "ks_val t = (ks_val s)(idempotency_key keys k := None)"
  shows "keyspace_claim keys t = (\<lambda>k'. if redis_slot keys k k' then None else keyspace_claim keys s k')"
    and "claims_ok keys s \<Longrightarrow> claims_ok keys t"
  using assms by (auto simp: keyspace_claim_def claims_ok_def redis_slot_def hash_claim_def hash_ok_def fun_eq_iff)

lemma keyspace_commands [simp]:
  "rHGET keyspace_redis k f s = hash_val (ks_val s k) f"
  "ks_val (rDEL keyspace_redis k s) = (ks_val s)(k := None)"
  "ks_val (rPEXPIRE keyspace_redis k ttl s) = ks_val s"
  "ks_val (rHSET keyspace_redis k fs s) = (ks_val s)(k := Some (RHash (hash_val (ks_val s k) ++ map_of (rev fs))))"
  by (simp_all add: keyspace_redis_def)

lemmas redis_idem_defs = RedisIdem_Begin_def RedisIdem_Complete_def RedisIdem_Abort_def beginIdempotencyScript_def
  completeIdempotencyScript_def abortIdempotencyScript_def direct_array_exec_def direct_exec_def attemptG_def go_simps

interpretation redis_idem: idempotency_store "RedisIdem_Begin keyspace_redis direct_array_exec keys"
  "RedisIdem_Complete keyspace_redis direct_exec keys" "RedisIdem_Abort keyspace_redis direct_exec keys"
  "keyspace_claim keys" "redis_slot keys" lua_number redis_ttl_ok "claims_ok keys" for keys
proof unfold_locales
  fix s :: keyspace and k f c fp ttl n
  show "redis_slot keys k k" by (simp add: redis_slot_def)
  show "keyspace_claim keys s k = keyspace_claim keys s fp" if "redis_slot keys k fp"
    using that by (simp add: redis_slot_def keyspace_claim_def)
  let ?h = "hash_val (ks_val s (idempotency_key keys k))"
  let ?fin = "?h ++ map_of (rev [(''status'', ''completed''), (''order_number'', show_int n)])"
  note defs = redis_idem_defs keyspace_claim_def [of keys s k] redis_ttl_ok_def
  show "\<exists>t. RedisIdem_Begin keyspace_redis direct_array_exec keys k fp ttl s = (Inr acquired, t) \<and> claims_ok keys t \<and>
      keyspace_claim keys t = (\<lambda>k'. if redis_slot keys k k' then Some (fp, None) else keyspace_claim keys s k')"
    if "claims_ok keys s" "keyspace_claim keys s k = None" "redis_ttl_ok ttl"
  proof -
    let ?new = "?h ++ map_of (rev [(''fingerprint'', fp), (''status'', ''processing'')])"
    let ?t = "rPEXPIRE keyspace_redis (idempotency_key keys k) (milliseconds ttl)
      (rHSET keyspace_redis (idempotency_key keys k) [(''fingerprint'', fp), (''status'', ''processing'')] s)"
    have "?h ''fingerprint'' = None" using that(2) by (simp add: keyspace_claim_def hash_claim_def split: option.splits)
    with that(3) have "RedisIdem_Begin keyspace_redis direct_array_exec keys k fp ttl s = (Inr acquired, ?t)"
      by (simp add: defs parse_show_int Let_def)
    moreover have t: "ks_val ?t = (ks_val s)(idempotency_key keys k := Some (RHash ?new))" by simp
    moreover have "hash_claim ?new = Some (fp, None)" "hash_ok ?new" by (simp_all add: hash_claim_def hash_ok_def)
    ultimately show ?thesis using claim_put [OF t] that(1) by auto
  qed
  show "RedisIdem_Begin keyspace_redis direct_array_exec keys k fp ttl s = (if f \<noteq> fp then Inl reused_key
        else Inr (case c of None \<Rightarrow> processing | Some n \<Rightarrow> completed (lua_number n)), s)"
    if "claims_ok keys s" "keyspace_claim keys s k = Some (f, c)"
  proof -
    from that(1) have "hash_ok ?h" by (simp add: claims_ok_def)
    with that(2) show ?thesis by (auto simp: defs hash_claim_def hash_ok_def split: option.splits)
  qed
  have fin: "hash_claim ?fin = Some (fp, Some n)" "hash_ok ?fin" if "?h ''fingerprint'' = Some fp" "in64 n"
    using that by (simp_all add: hash_claim_def hash_ok_def parse_show_int)
  show "\<exists>t. RedisIdem_Complete keyspace_redis direct_exec keys k fp n ttl s = (Inr (), t) \<and> claims_ok keys t \<and>
      keyspace_claim keys t = (\<lambda>k'. if redis_slot keys k k' then Some (fp, Some n) else keyspace_claim keys s k')"
    if "claims_ok keys s" "keyspace_claim keys s k = Some (fp, c)" "redis_ttl_ok ttl" "in64 n"
  proof -
    have fp: "?h ''fingerprint'' = Some fp"
      using that(2) by (auto simp: keyspace_claim_def hash_claim_def split: option.splits)
    let ?t = "rPEXPIRE keyspace_redis (idempotency_key keys k) (milliseconds ttl)
      (rHSET keyspace_redis (idempotency_key keys k) [(''status'', ''completed''), (''order_number'', show_int n)] s)"
    from fp that(3) have "RedisIdem_Complete keyspace_redis direct_exec keys k fp n ttl s = (Inr (), ?t)"
      by (simp add: defs parse_show_int Let_def)
    moreover have t: "ks_val ?t = (ks_val s)(idempotency_key keys k := Some (RHash ?fin))" by simp
    moreover note fin [OF fp that(4)]
    ultimately show ?thesis using claim_put [OF t] that(1) by auto
  qed
  show "RedisIdem_Complete keyspace_redis direct_exec keys k fp n ttl s = (Inl ownership_lost, s)"
    if "keyspace_claim keys s k = Some (f, c)" "f \<noteq> fp"
    using that by (auto simp: defs hash_claim_def split: option.splits)
  show "\<exists>r t. RedisIdem_Complete keyspace_redis direct_exec keys k fp n ttl s = (r, t) \<and> claims_ok keys t \<and>
      (r = Inl ownership_lost \<and> keyspace_claim keys t = keyspace_claim keys s
       \<or> r = Inr () \<and> keyspace_claim keys t = (\<lambda>k'. if redis_slot keys k k' then Some (fp, Some n) else keyspace_claim keys s k'))"
    if "claims_ok keys s" "keyspace_claim keys s k = None"
    using that by (auto simp: defs hash_claim_def split: option.splits)
  show "\<exists>t. RedisIdem_Abort keyspace_redis direct_exec keys k fp s = (Inr (), t) \<and> claims_ok keys t \<and>
      keyspace_claim keys t = (\<lambda>k'. if redis_slot keys k k' then None else keyspace_claim keys s k')"
    if "claims_ok keys s" "keyspace_claim keys s k = Some (fp, None)"
  proof -
    from that(1) have "hash_ok ?h" by (simp add: claims_ok_def)
    with that(2) have "?h ''fingerprint'' = Some fp" "?h ''status'' = Some ''processing''"
      by (auto simp: keyspace_claim_def hash_claim_def hash_ok_def split: option.splits if_splits)
    then have "RedisIdem_Abort keyspace_redis direct_exec keys k fp s = (Inr (), rDEL keyspace_redis (idempotency_key keys k) s)"
      by (simp add: defs)
    moreover have t: "ks_val (rDEL keyspace_redis (idempotency_key keys k) s) = (ks_val s)(idempotency_key keys k := None)" by simp
    ultimately show ?thesis using claim_del [OF t] that(1) by auto
  qed
  show "\<exists>t. RedisIdem_Abort keyspace_redis direct_exec keys k fp s = (Inr (), t) \<and> claims_ok keys t \<and> keyspace_claim keys t = keyspace_claim keys s"
    if "claims_ok keys s" "keyspace_claim keys s k \<noteq> Some (fp, None)"
    using that by (auto simp: defs hash_claim_def split: option.splits)
qed

section \<open>Properties\<close>


definition empty_keyspace :: keyspace where
  "empty_keyspace = \<lparr>ks_val = Map.empty, ks_ttl = {}\<rparr>"

lemma empty_keyspace_claims: "claims_ok keys empty_keyspace" "keyspace_claim keys empty_keyspace k = None"
  by (simp_all add: empty_keyspace_def claims_ok_def keyspace_claim_def hash_ok_def hash_claim_def)

lemma five_minutes: "redis_ttl_ok 300000000000"
  by (simp add: redis_ttl_ok_def milliseconds_def in64_def)


definition clock_2026 :: clock where
  "clock_2026 i = 1767225600000000000"

definition generator_node3 :: OrderNumberGenerator where
  "generator_node3 = NewOrderNumberGenerator (Some \<lparr>sf_epochMS = 1704067200000, sf_nodeID = 3, sf_lastMS = 0, sf_sequence = 0\<rparr>)"

lemma number_2026:
  "NextOrderNumber clock_2026 generator_node3 1001 0 =
     Some (Inr 529811059508773865, generator_node3\<lparr>og_lastMS := 1767225600000\<rparr>, Suc 0)"
  by code_simp

lemma number_2026_rounded: "lua_number 529811059508773865 = 529811059508773888"
proof -
  have "bit_len 529811059508773865 = 59"
    by (simp add: bit_len.simps)
  then show ?thesis by (simp add: lua_number_def Let_def)
qed

text \<open>
  C31. An order number does not survive the Redis store. The first order number that a generator with node 3
  gives user 1001 at the start of 2026 has 59 bits; recorded as completed and asked for again, the Redis store reports
  a different number, which does not even carry the user's shard gene, so the order cannot be found under it.
\<close>

theorem redis_replay_rounds_order_number:
  "\<exists>n r' r'' g'. NextOrderNumber clock_2026 generator_node3 1001 0 = Some (Inr n, g')
     \<and> RedisIdem_Begin keyspace_redis direct_array_exec keys k fp 300000000000 empty_keyspace = (Inr acquired, r')
     \<and> RedisIdem_Complete keyspace_redis direct_exec keys k fp n 86400000000000 r' = (Inr (), r'')
     \<and> RedisIdem_Begin keyspace_redis direct_array_exec keys k fp ttl r'' = (Inr (completed (n + 23)), r'')
     \<and> ExtractUserGene n = UserGene 1001 \<and> ExtractUserGene (n + 23) \<noteq> UserGene 1001"
proof -
  let ?n = "529811059508773865 :: int"
  have n: "in64 ?n" and day: "redis_ttl_ok 86400000000000"
    by (simp_all add: in64_def redis_ttl_ok_def milliseconds_def)
  from redis_idem.Begin_free [OF empty_keyspace_claims five_minutes, of keys k fp] redis_idem.slot_refl obtain r' where
    r': "RedisIdem_Begin keyspace_redis direct_array_exec keys k fp 300000000000 empty_keyspace = (Inr acquired, r')"
      "claims_ok keys r'" "keyspace_claim keys r' k = Some (fp, None)" by auto
  from redis_idem.Complete_own [OF r'(2,3) day n] obtain r'' where
    r'': "RedisIdem_Complete keyspace_redis direct_exec keys k fp ?n 86400000000000 r' = (Inr (), r'')" by auto
  from redis_idem.replay_after_complete [OF r'(2,3) day n r'']
  have "RedisIdem_Begin keyspace_redis direct_array_exec keys k fp ttl r'' = (Inr (completed (?n + 23)), r'')"
    by (simp add: number_2026_rounded)
  moreover have "ExtractUserGene ?n = UserGene 1001 \<and> ExtractUserGene (?n + 23) \<noteq> UserGene 1001"
    by (simp add: ExtractUserGene_mod UserGene_def)
  ultimately show ?thesis using number_2026 r'(1) r'' by blast
qed

end
