(* ===== verification/Purchase.thy ===== *)
theory Purchase
  imports Program_Repository Idempotency Seat_Ledger
begin

text \<open>
  Purchasing tickets (\<open>src/app/program-service/internal/application\<close>): the validation rules
  (\<open>purchase_validation.go\<close>), the price of an order (\<open>program_pricing.go\<close>), and \<open>CreateAsync\<close>
  (\<open>create_order.go\<close>), which checks a request, claims its id, locks its tickets and publishes the event from
  which the order service creates the order.

  \<open>CreateAsync\<close> is written over the record \<open>create_ports\<close> of everything it calls. The locale
  \<open>purchase_service\<close> states what it relies on of them and proves what a call can lead to; it extends the
  contract of the idempotency store. The locale \<open>redis_purchase\<close> provides it for the Redis inventory.
\<close>

section \<open>Validation rules\<close>

abbreviation DefaultMaxTicketsPerOrder :: int where "DefaultMaxTicketsPerOrder \<equiv> 6"

fun duplicate_scan :: "int64 list \<Rightarrow> int64 list \<Rightarrow> bool" where
  "duplicate_scan seen [] = False"
| "duplicate_scan seen (value # vals) =
     (if value \<le> 0 then True else if value \<in> set seen then True else duplicate_scan (value # seen) vals)"

definition duplicateInt64 :: "int64 list \<Rightarrow> bool" where
  "duplicateInt64 vals = duplicate_scan [] vals"

lemma duplicate_scan_iff: "duplicate_scan seen vals \<longleftrightarrow> (\<exists>v \<in> set vals. v \<le> 0 \<or> v \<in> set seen) \<or> \<not> distinct vals"
  by (induction seen vals rule: duplicate_scan.induct) auto

lemma duplicateInt64_iff: "\<not> duplicateInt64 vals \<longleftrightarrow> distinct vals \<and> (\<forall>v \<in> set vals. 0 < v)"
  by (auto simp: duplicateInt64_def duplicate_scan_iff not_le)

text \<open>A rule is a program that may fail; a \<open>nil\<close> rule of the pipeline is skipped.\<close>

type_synonym 'w rule = "CreateOrderCommand \<Rightarrow> ('w, unit) go"

fun Pipeline_Validate :: "'w rule option list \<Rightarrow> 'w rule" where
  "Pipeline_Validate [] cmd = returnG ()"
| "Pipeline_Validate (r # rules) cmd = (case r of
     None \<Rightarrow> Pipeline_Validate rules cmd
   | Some rule \<Rightarrow> bindG (rule cmd) (\<lambda>_. Pipeline_Validate rules cmd))"

definition NewPurchaseStructureRule :: "int \<Rightarrow> int" where
  "NewPurchaseStructureRule maxTickets = (if maxTickets \<le> 0 then DefaultMaxTicketsPerOrder else maxTickets)"

definition Structure_Validate :: "int \<Rightarrow> 'w rule" where
  "Structure_Validate maxTickets cmd =
     (let count = Command_TicketCount cmd in
      if cmd_UserID cmd \<le> 0 \<or> cmd_ProgramID cmd \<le> 0 \<or> cmd_TicketCategoryID cmd \<le> 0 then
        failG (New CodeInvalidArgument ''user_id, program_id and ticket_category_id are required'')
      else if count \<le> 0 then failG (New CodeInvalidArgument ''ticket user is required'')
      else if count > maxTickets then failG (New CodeInvalidArgument ''ticket count exceeds per-order limit'')
      else if int (length (cmd_TicketUserIDs cmd)) \<noteq> count then
        failG (New CodeInvalidArgument ''ticket user count must equal ticket count'')
      else if duplicateInt64 (cmd_TicketUserIDs cmd) then failG (New CodeDuplicateSubmission ''ticket user is duplicated'')
      else if duplicateInt64 (cmd_SeatIDs cmd) then failG (New CodeDuplicateSubmission ''seat is duplicated'')
      else returnG ())"

record 'w catalog =
  cat_FindProgram :: "int64 \<Rightarrow> ('w, Program) go"
  cat_ListTicketCategories :: "int64 \<Rightarrow> ('w, TicketCategory list) go"
  cat_ListSeats :: "int64 \<Rightarrow> int64 \<Rightarrow> ('w, Seat list) go"

definition seat_offered :: "CreateOrderCommand \<Rightarrow> Seat list \<Rightarrow> int64 \<Rightarrow> bool" where
  "seat_offered cmd seats seatID \<longleftrightarrow> list_ex (\<lambda>seat. seat_ProgramID seat = cmd_ProgramID cmd
     \<and> seat_TicketCategoryID seat = cmd_TicketCategoryID cmd \<and> seat_Status seat = SeatNoSold \<and> seat_ID seat = seatID) seats"

definition Catalog_Validate :: "'w catalog \<Rightarrow> 'w rule" where
  "Catalog_Validate K cmd =
     bindG (cat_FindProgram K (cmd_ProgramID cmd)) (\<lambda>current.
       if \<not> equal_fold (prg_Status current) ''ON_SALE'' then failG (New CodeConflict ''program is not on sale'')
       else bindG (cat_ListTicketCategories K (cmd_ProgramID cmd)) (\<lambda>categories.
         case List.find (\<lambda>c. tc_ID c = cmd_TicketCategoryID cmd \<and> tc_ProgramID c = cmd_ProgramID cmd) categories of
           None \<Rightarrow> failG (New CodeNotFound ''ticket category not found'')
         | Some category \<Rightarrow>
             if \<not> tc_SellStarted category then failG (New CodeConflict ''ticket category is not on sale'')
             else if cmd_SeatIDs cmd = [] then returnG ()
             else bindG (cat_ListSeats K (cmd_ProgramID cmd) (cmd_TicketCategoryID cmd)) (\<lambda>seats.
               if list_all (seat_offered cmd seats) (cmd_SeatIDs cmd) then returnG ()
               else failG (New CodeSeatUnavailable ''seat does not belong to the selected program and category or is unavailable''))))"

definition Ownership_Validate :: "(int64 \<Rightarrow> ('w, int64 list) go) option \<Rightarrow> 'w rule" where
  "Ownership_Validate source cmd = (case source of
     None \<Rightarrow> failG (New CodeInfrastructure ''ticket user ownership source is not configured'')
   | Some list_ids \<Rightarrow> bindG (list_ids (cmd_UserID cmd)) (\<lambda>owned.
       if list_all (\<lambda>i. i \<in> set owned) (cmd_TicketUserIDs cmd) then returnG ()
       else failG (New CodeForbidden ''ticket user does not belong to authenticated user'')))"

section \<open>Price\<close>

fun price_of :: "int64 \<Rightarrow> int64 \<Rightarrow> TicketCategory list \<Rightarrow> error + int64" where
  "price_of categoryID count [] = Inl (New CodeNotFound ''ticket category not found'')"
| "price_of categoryID count (item # items) =
     (if tc_ID item \<noteq> categoryID then price_of categoryID count items
      else if \<not> tc_SellStarted item then Inl (New CodeConflict ''ticket category is not on sale'')
      else if tc_PriceCent item \<le> 0 \<or> tc_PriceCent item > MaxInt64 sdiv count then
        Inl (New CodeInvalidArgument ''ticket price is invalid'')
      else Inr (wrap64 (tc_PriceCent item * count)))"

definition CalculateAmount :: "(int64 \<Rightarrow> ('w, TicketCategory list) go) \<Rightarrow> CreateOrderCommand \<Rightarrow> ('w, int64) go" where
  "CalculateAmount listTicketCategories cmd =
     (let count = Command_TicketCount cmd in
      if count \<le> 0 then failG (New CodeInvalidArgument ''ticket user or seat is required'')
      else bindG (listTicketCategories (cmd_ProgramID cmd)) (\<lambda>items.
        case price_of (cmd_TicketCategoryID cmd) count items of
          Inl e \<Rightarrow> failG e
        | Inr amount \<Rightarrow> returnG amount))"

text \<open>The guard keeps the product within 64 bits.\<close>

lemma price_of_exact:
  assumes "price_of categoryID count items = Inr amount" and "0 < count"
  shows "\<exists>item \<in> set items. tc_ID item = categoryID \<and> tc_SellStarted item \<and> 0 < tc_PriceCent item
    \<and> amount = tc_PriceCent item * count \<and> 0 < amount \<and> in64 amount"
  using assms(1)
proof (induction items)
  case (Cons item items)
  show ?case
  proof (cases "tc_ID item = categoryID")
    case True
    with Cons.prems have item: "tc_SellStarted item" "0 < tc_PriceCent item" "tc_PriceCent item \<le> MaxInt64 sdiv count"
      and amount: "amount = wrap64 (tc_PriceCent item * count)"
      by (auto split: if_splits)
    have "MaxInt64 sdiv count = MaxInt64 div count" using assms(2) by (simp add: signed_divide_int_def)
    with item(3) have "tc_PriceCent item * count \<le> (MaxInt64 div count) * count"
      using assms(2) by (simp add: mult_right_mono)
    also have "\<dots> \<le> MaxInt64" using assms(2) by (metis div_mult_mod_eq le_add_same_cancel1 pos_mod_sign)
    finally have le: "tc_PriceCent item * count \<le> MaxInt64" .
    have "0 < tc_PriceCent item * count" using item(2) assms(2) by simp
    with le item amount True show ?thesis by (auto simp: wrap64_nonneg in64_def)
  next
    case False
    with Cons show ?thesis by auto
  qed
qed simp

section \<open>Creating an order\<close>

abbreviation CreateOrderTopic :: string where "CreateOrderTopic \<equiv> ''ticket_hub.create_order''"

record 'w create_ports =
  co_validator :: "'w rule option"
  co_rateLimiter :: "(CreateOrderCommand \<Rightarrow> ('w, bool) go) option"
  co_Begin :: "string \<Rightarrow> string \<Rightarrow> duration \<Rightarrow> ('w, IdempotencyResult) go"
  co_Complete :: "string \<Rightarrow> string \<Rightarrow> int64 \<Rightarrow> duration \<Rightarrow> ('w, unit) go"
  co_Abort :: "string \<Rightarrow> string \<Rightarrow> ('w, unit) go"
  co_CalculateAmount :: "CreateOrderCommand \<Rightarrow> ('w, int64) go"
  co_NextOrderNumber :: "int64 \<Rightarrow> ('w, int64) go"
  co_NextID :: "('w, int64) go"
  co_LockSeats :: "CreateOrderCommand \<Rightarrow> int64 \<Rightarrow> int64 \<Rightarrow> ('w, Seat list) go"
  co_RollbackSeats :: "CreateOrderCommand \<Rightarrow> int64 \<Rightarrow> int64 \<Rightarrow> ('w, unit) go"
  co_Publish :: "Event \<Rightarrow> ('w, unit) go"
  co_now :: "'w \<Rightarrow> time"
  co_processingTTL :: duration
  co_resultTTL :: duration

definition order_payload :: "CreateOrderCommand \<Rightarrow> int64 \<Rightarrow> int64 \<Rightarrow> int64 \<Rightarrow> time \<Rightarrow> CreateOrderEvent" where
  "order_payload cmd orderNumber identifierID amountCent now =
     \<lparr>coe_OrderNumber = orderNumber, coe_ProgramID = cmd_ProgramID cmd, coe_UserID = cmd_UserID cmd,
      coe_TicketCategoryID = cmd_TicketCategoryID cmd, coe_SeatIDs = cmd_SeatIDs cmd, coe_TicketUserIDs = cmd_TicketUserIDs cmd,
      coe_AmountCent = amountCent, coe_IdentifierID = identifierID, coe_OrderVersion = ''async-kafka'', coe_CreatedAt = now\<rparr>"

definition order_event :: "CreateOrderEvent \<Rightarrow> time \<Rightarrow> Event" where
  "order_event payload now =
     \<lparr>ev_Topic = CreateOrderTopic, ev_Key = show_int (coe_OrderNumber payload),
      ev_Header = \<lparr>hdr_EventID = show_int (coe_IdentifierID payload), hdr_TraceID = [], hdr_SchemaVersion = ''v1'', hdr_OccurredAt = now\<rparr>,
      ev_Payload = marshal_create_order payload\<rparr>"

lemma order_event_topic: "ev_Topic (order_event p t) = CreateOrderTopic"
  by (simp add: order_event_def)

text \<open>From the price to the published event; an error of this part makes \<open>CreateAsync\<close> abort the claim.\<close>

definition place_order :: "'w create_ports \<Rightarrow> CreateOrderCommand \<Rightarrow> ('w, int64) go" where
  "place_order C cmd =
     bindG (co_CalculateAmount C cmd) (\<lambda>amountCent.
     bindG (co_NextOrderNumber C (cmd_UserID cmd)) (\<lambda>orderNumber.
     bindG (co_NextID C) (\<lambda>identifierID.
     bindG (getG (co_now C)) (\<lambda>created.
     bindG (co_LockSeats C cmd orderNumber identifierID) (\<lambda>_.
     bindG (getG (co_now C)) (\<lambda>occurred.
     attemptG (co_Publish C (order_event (order_payload cmd orderNumber identifierID amountCent created) occurred)) (\<lambda>r. case r of
       Inr _ \<Rightarrow> returnG orderNumber
     | Inl e \<Rightarrow> attemptG (co_RollbackSeats C cmd orderNumber identifierID) (\<lambda>r'. case r' of
         Inl rollbackErr \<Rightarrow> failG (JoinError e rollbackErr)
       | Inr _ \<Rightarrow> failG e))))))))"

definition CreateAsync :: "'w create_ports \<Rightarrow> (json \<Rightarrow> string) \<Rightarrow> CreateOrderCommand \<Rightarrow> ('w, int64) go" where
  "CreateAsync C digest cmd =
     bindG (case co_validator C of None \<Rightarrow> returnG () | Some v \<Rightarrow> v cmd) (\<lambda>_.
     bindG (case co_rateLimiter C of None \<Rightarrow> returnG True | Some allow \<Rightarrow> allow cmd) (\<lambda>allowed.
     if \<not> allowed then failG (New CodeTooManyRequests ''purchase request rate exceeded'')
     else case validateIdempotencyKey (cmd_RequestID cmd) of
       Some e \<Rightarrow> failG e
     | None \<Rightarrow>
         (let fingerprint = purchaseFingerprint digest cmd in
          bindG (co_Begin C (cmd_RequestID cmd) fingerprint (co_processingTTL C)) (\<lambda>idempotency.
            case ir_State idempotency of
              IdempotencyCompleted \<Rightarrow> returnG (ir_OrderNumber idempotency)
            | IdempotencyProcessing \<Rightarrow> failG (New CodeDuplicateSubmission ''order request is already processing'')
            | IdempotencyAcquired \<Rightarrow>
                attemptG (place_order C cmd) (\<lambda>r. case r of
                  Inl e \<Rightarrow> attemptG (co_Abort C (cmd_RequestID cmd) fingerprint) (\<lambda>_. failG e)
                | Inr orderNumber \<Rightarrow>
                    bindG (co_Complete C (cmd_RequestID cmd) fingerprint orderNumber (co_resultTTL C)) (\<lambda>_. returnG orderNumber))))))"

section \<open>What a call can lead to\<close>

text \<open>
  What others see of a purchase: the tickets taken and left (\<open>held\<close>), the events published, and the claims.
  \<open>quiet\<close> calls change none of them.
\<close>

definition seen_same :: "('w \<Rightarrow> bool) \<Rightarrow> ('w \<Rightarrow> 'i) \<Rightarrow> ('w \<Rightarrow> Event list) \<Rightarrow> ('w \<Rightarrow> 'c) \<Rightarrow> 'w \<Rightarrow> 'w \<Rightarrow> bool" where
  "seen_same pinv held published claim w w' \<longleftrightarrow>
     pinv w' \<and> held w' = held w \<and> published w' = published w \<and> claim w' = claim w"

text \<open>
  \<open>taken cmd n i i'\<close>: \<open>i'\<close> is \<open>i\<close> with the tickets of \<open>cmd\<close> taken for order \<open>n\<close>. \<open>fresh w n\<close>: \<open>n\<close> has not
  been used. \<open>undoable w cmd n i\<close>: rolling back order \<open>n\<close> leads back to \<open>i\<close>.
\<close>

locale purchase_service =
  idempotency_store "co_Begin C" "co_Complete C" "co_Abort C" claim same_slot shown ttl_ok pinv
  for C :: "'w create_ports" and claim and same_slot and shown and ttl_ok and pinv +
  fixes held :: "'w \<Rightarrow> 'i"
    and published :: "'w \<Rightarrow> Event list"
    and cmd_ok :: "CreateOrderCommand \<Rightarrow> bool"
    and fresh :: "'w \<Rightarrow> int64 \<Rightarrow> bool"
    and taken :: "CreateOrderCommand \<Rightarrow> int64 \<Rightarrow> 'i \<Rightarrow> 'i \<Rightarrow> bool"
    and undoable :: "'w \<Rightarrow> CreateOrderCommand \<Rightarrow> int64 \<Rightarrow> 'i \<Rightarrow> bool"
    and priced :: "CreateOrderCommand \<Rightarrow> int64 \<Rightarrow> bool"
  assumes validator_quiet: "pinv w \<Longrightarrow> co_validator C = Some v \<Longrightarrow> seen_same pinv held published claim w (snd (v cmd w))"
    and limiter_quiet: "pinv w \<Longrightarrow> co_rateLimiter C = Some lim \<Longrightarrow> seen_same pinv held published claim w (snd (lim cmd w))"
    and amount_quiet: "pinv w \<Longrightarrow> seen_same pinv held published claim w (snd (co_CalculateAmount C cmd w))"
    and amount_priced: "pinv w \<Longrightarrow> co_CalculateAmount C cmd w = (Inr amt, w') \<Longrightarrow> priced cmd amt"
    and number_quiet: "pinv w \<Longrightarrow> seen_same pinv held published claim w (snd (co_NextOrderNumber C u w))"
    and number_fresh: "pinv w \<Longrightarrow> co_NextOrderNumber C u w = (Inr n, w') \<Longrightarrow> fresh w' n \<and> in64 n"
    and ident_quiet: "pinv w \<Longrightarrow> seen_same pinv held published claim w (snd (co_NextID C w))"
    and ident_fresh: "pinv w \<Longrightarrow> fresh w n \<Longrightarrow> fresh (snd (co_NextID C w)) n"
    and lock_keeps: "pinv w \<Longrightarrow> cmd_ok cmd \<Longrightarrow> fresh w n \<Longrightarrow> co_LockSeats C cmd n ident w = (rl, w') \<Longrightarrow>
      pinv w' \<and> published w' = published w \<and> claim w' = claim w"
    and lock_takes: "pinv w \<Longrightarrow> cmd_ok cmd \<Longrightarrow> fresh w n \<Longrightarrow> co_LockSeats C cmd n ident w = (Inr seats, w') \<Longrightarrow>
      taken cmd n (held w) (held w') \<and> undoable w' cmd n (held w)"
    and lock_fails: "pinv w \<Longrightarrow> cmd_ok cmd \<Longrightarrow> fresh w n \<Longrightarrow> co_LockSeats C cmd n ident w = (Inl e, w') \<Longrightarrow>
      held w' = held w \<or> taken cmd n (held w) (held w') \<and> CodeOf (Some e) = CodeInfrastructure"
    and rollback_keeps: "pinv w \<Longrightarrow> cmd_ok cmd \<Longrightarrow> undoable w cmd n i \<Longrightarrow> co_RollbackSeats C cmd n ident w = (ru, w') \<Longrightarrow>
      pinv w' \<and> published w' = published w \<and> claim w' = claim w"
    and rollback_restores: "pinv w \<Longrightarrow> cmd_ok cmd \<Longrightarrow> undoable w cmd n i \<Longrightarrow> co_RollbackSeats C cmd n ident w = (ru, w') \<Longrightarrow>
      held w' = i \<or> held w' = held w \<and> ru \<noteq> Inr ()"
    and publish_keeps: "pinv w \<Longrightarrow> co_Publish C ev w = (ru, w') \<Longrightarrow> pinv w' \<and> held w' = held w \<and> claim w' = claim w"
    and publish_appends: "pinv w \<Longrightarrow> ev_Topic ev = CreateOrderTopic \<Longrightarrow> co_Publish C ev w = (ru, w') \<Longrightarrow>
      published w' = published w @ [ev] \<or> published w' = published w \<and> ru \<noteq> Inr ()"
    and publish_undoable: "pinv w \<Longrightarrow> undoable w cmd n i \<Longrightarrow> undoable (snd (co_Publish C ev w)) cmd n i"
    and store_keeps: "pinv w \<Longrightarrow> co_Begin C k fp ttl w = (rb, w') \<Longrightarrow> held w' = held w \<and> published w' = published w"
      "pinv w \<Longrightarrow> co_Complete C k fp n ttl w = (ru, w') \<Longrightarrow> held w' = held w \<and> published w' = published w"
      "pinv w \<Longrightarrow> co_Abort C k fp w = (ru, w') \<Longrightarrow> held w' = held w \<and> published w' = published w"
    and ttls: "ttl_ok (co_processingTTL C)" "ttl_ok (co_resultTTL C)"
begin

abbreviation same :: "'w \<Rightarrow> 'w \<Rightarrow> bool" where
  "same \<equiv> seen_same pinv held published claim"

lemma same_refl: "pinv w \<Longrightarrow> same w w"
  by (simp add: seen_same_def)

lemma same_trans: "same w w' \<Longrightarrow> same w' w'' \<Longrightarrow> same w w''"
  by (simp add: seen_same_def)

lemma same_inv: "same w w' \<Longrightarrow> pinv w'"
  by (simp add: seen_same_def)

definition order_placed :: "CreateOrderCommand \<Rightarrow> int64 \<Rightarrow> 'w \<Rightarrow> 'w \<Rightarrow> bool" where
  "order_placed cmd n w w' \<longleftrightarrow> taken cmd n (held w) (held w') \<and> in64 n
     \<and> (\<exists>amount ident created occurred. priced cmd amount
          \<and> published w' = published w @ [order_event (order_payload cmd n ident amount created) occurred])"

definition order_failed :: "CreateOrderCommand \<Rightarrow> error \<Rightarrow> 'w \<Rightarrow> 'w \<Rightarrow> bool" where
  "order_failed cmd e w w' \<longleftrightarrow>
     (held w' = held w \<or> (\<exists>n. taken cmd n (held w) (held w')) \<and> (CodeOf (Some e) = CodeInfrastructure \<or> (\<exists>a b. e = JoinError a b)))
     \<and> (published w' = published w \<or> (\<exists>ev. published w' = published w @ [ev]))"

text \<open>Locking and publishing, with the number already drawn.\<close>

lemma lock_and_publish:
  assumes inv: "pinv w" and ok: "cmd_ok cmd" and fresh: "fresh w n"
    and run: "bindG (co_LockSeats C cmd n ident) (\<lambda>_. bindG (getG (co_now C)) (\<lambda>occurred.
       attemptG (co_Publish C (order_event p occurred)) (\<lambda>r. case r of
         Inr _ \<Rightarrow> returnG n
       | Inl e \<Rightarrow> attemptG (co_RollbackSeats C cmd n ident) (\<lambda>r'. case r' of
           Inl rollbackErr \<Rightarrow> failG (JoinError e rollbackErr)
         | Inr _ \<Rightarrow> failG e)))) w = (r, w')"
  shows "pinv w' \<and> claim w' = claim w \<and> (case r of
      Inr m \<Rightarrow> m = n \<and> taken cmd n (held w) (held w') \<and> (\<exists>t. published w' = published w @ [order_event p t])
    | Inl e \<Rightarrow> order_failed cmd e w w')"
proof -
  obtain r1 w1 where lock: "co_LockSeats C cmd n ident w = (r1, w1)" by (cases "co_LockSeats C cmd n ident w")
  note keep1 = lock_keeps [OF inv ok fresh lock]
  show ?thesis
  proof (cases r1)
    case (Inl e)
    with run lock have "r = Inl e" "w' = w1" by (simp_all add: bindG_def)
    with keep1 lock_fails [OF inv ok fresh lock [unfolded Inl]] show ?thesis by (auto simp: order_failed_def)
  next
    case (Inr seats)
    note t = lock_takes [OF inv ok fresh lock [unfolded Inr]]
    obtain r2 w2 where pub: "co_Publish C (order_event p (co_now C w1)) w1 = (r2, w2)"
      by (cases "co_Publish C (order_event p (co_now C w1)) w1")
    note keep2 = publish_keeps [OF _ pub] publish_appends [OF _ order_event_topic pub]
    have und: "undoable w2 cmd n (held w)"
      using publish_undoable [of w1 cmd n "held w" "order_event p (co_now C w1)"] keep1 t pub by simp
    show ?thesis
    proof (cases r2)
      case r2: (Inr u)
      then have "r = Inr n" "w' = w2" using run lock Inr pub by (simp_all add: bindG_def getG_bind attemptG_def go_simps)
      with keep1 keep2 t r2 show ?thesis by auto
    next
      case r2: (Inl e)
      obtain r3 w3 where rb: "co_RollbackSeats C cmd n ident w2 = (r3, w3)" by (cases "co_RollbackSeats C cmd n ident w2")
      have inv2: "pinv w2" using keep1 keep2 by simp
      note keep3 = rollback_keeps [OF inv2 ok und rb] rollback_restores [OF inv2 ok und rb]
      have res: "w' = w3" "r = (case r3 of Inl e' \<Rightarrow> Inl (JoinError e e') | Inr _ \<Rightarrow> Inl e)"
        using run lock Inr pub r2 rb by (auto simp: bindG_def getG_bind attemptG_def go_simps split: sum.splits)
      have "held w2 = held w1" "published w2 = published w \<or> published w2 = published w @ [order_event p (co_now C w1)]"
        "claim w2 = claim w" using keep1 keep2 by auto
      with keep3 t res show ?thesis by (cases r3) (auto simp: order_failed_def)
    qed
  qed
qed

lemma place_order_outcome:
  assumes inv: "pinv w" and ok: "cmd_ok cmd" and run: "place_order C cmd w = (r, w')"
  shows "pinv w' \<and> claim w' = claim w \<and> (case r of Inr n \<Rightarrow> order_placed cmd n w w' | Inl e \<Rightarrow> order_failed cmd e w w')"
proof -
  obtain r1 w1 where am: "co_CalculateAmount C cmd w = (r1, w1)" by (cases "co_CalculateAmount C cmd w")
  with amount_quiet [OF inv, of cmd] have s1: "same w w1" by simp
  note i1 = same_inv [OF s1]
  obtain r2 w2 where nu: "co_NextOrderNumber C (cmd_UserID cmd) w1 = (r2, w2)" by (cases "co_NextOrderNumber C (cmd_UserID cmd) w1")
  with number_quiet [OF i1, of "cmd_UserID cmd"] have s2: "same w w2" using same_trans [OF s1] by simp
  note i2 = same_inv [OF s2]
  obtain r3 w3 where idr: "co_NextID C w2 = (r3, w3)" by (cases "co_NextID C w2")
  with ident_quiet [OF i2] have s3: "same w w3" using same_trans [OF s2] by simp
  have failed: "order_failed cmd e w v" if "same w v" for e v
    using that by (simp add: seen_same_def order_failed_def)
  show ?thesis
  proof (cases "(\<exists>e. r1 = Inl e) \<or> (\<exists>e. r2 = Inl e) \<or> (\<exists>e. r3 = Inl e)")
    case True
    then have "\<exists>e v. r = Inl e \<and> w' = v \<and> same w v"
      using run am nu idr s1 s2 s3 by (cases r1; cases r2; cases r3) (auto simp: place_order_def bindG_def)
    then show ?thesis using failed by (auto simp: seen_same_def)
  next
    case False
    then obtain a n ident where v: "r1 = Inr a" "r2 = Inr n" "r3 = Inr ident" by (cases r1; cases r2; cases r3) auto
    have fr: "fresh w3 n" "in64 n"
      using number_fresh [OF i1 nu [unfolded v]] ident_fresh [OF i2, of n] idr by auto
    have p: "priced cmd a" by (rule amount_priced [OF inv am [unfolded v]])
    from run am nu idr v have "bindG (co_LockSeats C cmd n ident) (\<lambda>_. bindG (getG (co_now C)) (\<lambda>occurred.
       attemptG (co_Publish C (order_event (order_payload cmd n ident a (co_now C w3)) occurred)) (\<lambda>r. case r of
         Inr _ \<Rightarrow> returnG n
       | Inl e \<Rightarrow> attemptG (co_RollbackSeats C cmd n ident) (\<lambda>r'. case r' of
           Inl rollbackErr \<Rightarrow> failG (JoinError e rollbackErr)
         | Inr _ \<Rightarrow> failG e)))) w3 = (r, w')"
      unfolding place_order_def
      by (simp only: bindG_Inr [where m = "co_CalculateAmount C cmd"] bindG_Inr [where m = "co_NextOrderNumber C (cmd_UserID cmd)"]
          bindG_Inr [where m = "co_NextID C"] getG_bind)
    from lock_and_publish [OF same_inv [OF s3] ok fr(1) this] s3 p fr(2) show ?thesis
      unfolding seen_same_def [of pinv held published claim w w3]
      by (cases r) (auto simp: order_placed_def order_failed_def)
  qed
qed

text \<open>The checks before the claim.\<close>

lemma checks_quiet:
  assumes "pinv w" and "(case co_validator C of None \<Rightarrow> returnG () | Some v \<Rightarrow> v cmd) w = (r1, w1)"
    and "(case co_rateLimiter C of None \<Rightarrow> returnG True | Some allow \<Rightarrow> allow cmd) w1 = (r2, w2)"
  shows "same w w1" and "same w w2"
proof -
  show s1: "same w w1"
    using assms(1,2) validator_quiet [OF assms(1), where cmd = cmd] same_refl by (cases "co_validator C") (auto simp: go_simps)
  show "same w w2"
    using assms(3) limiter_quiet [OF same_inv [OF s1], where cmd = cmd] same_refl [OF same_inv [OF s1]] same_trans [OF s1]
    by (cases "co_rateLimiter C") (auto simp: go_simps)
qed

text \<open>From the claim on.\<close>

lemma claimed_outcome:
  assumes inv: "pinv w" and ok: "cmd_ok cmd" and free: "claim w k = None"
    and run: "bindG (co_Begin C k fp (co_processingTTL C)) (\<lambda>idempotency.
            case ir_State idempotency of
              IdempotencyCompleted \<Rightarrow> returnG (ir_OrderNumber idempotency)
            | IdempotencyProcessing \<Rightarrow> failG dup
            | IdempotencyAcquired \<Rightarrow>
                attemptG (place_order C cmd) (\<lambda>r. case r of
                  Inl e \<Rightarrow> attemptG (co_Abort C k fp) (\<lambda>_. failG e)
                | Inr orderNumber \<Rightarrow> bindG (co_Complete C k fp orderNumber (co_resultTTL C)) (\<lambda>_. returnG orderNumber))) w = (r, w')"
  shows "pinv w' \<and> (case r of
      Inr n \<Rightarrow> order_placed cmd n w w' \<and> claim w' = (\<lambda>k'. if same_slot k k' then Some (fp, Some n) else claim w k')
    | Inl e \<Rightarrow> order_failed cmd e w w' \<and> claim w' = claim w)"
proof -
  from Begin_free [OF inv free ttls(1), of fp] obtain w1 where
    bg: "co_Begin C k fp (co_processingTTL C) w = (Inr acquired, w1)" and i1: "pinv w1"
    and c1: "claim w1 = (\<lambda>k'. if same_slot k k' then Some (fp, None) else claim w k')" by blast
  note h1 = store_keeps(1) [OF inv bg]
  obtain r2 w2 where po: "place_order C cmd w1 = (r2, w2)" by (cases "place_order C cmd w1")
  note out = place_order_outcome [OF i1 ok po]
  have c2: "claim w2 k = Some (fp, None)" using out c1 slot_refl by simp
  have undo: "(\<lambda>k'. if same_slot k k' then None else claim w2 k') = claim w"
    using out c1 free slot_claim [of k _ w] by (auto simp: fun_eq_iff)
  show ?thesis
  proof (cases r2)
    case (Inl e)
    from Abort_own [OF _ c2] out obtain w3 where ab: "co_Abort C k fp w2 = (Inr (), w3)" "pinv w3" "claim w3 = claim w"
      unfolding undo by blast
    have "r = Inl e" "w' = w3" using run bg po ab Inl by (simp_all add: bindG_def attemptG_def go_simps)
    with ab store_keeps(3) [OF _ ab(1)] out h1 Inl show ?thesis by (auto simp: order_failed_def)
  next
    case (Inr n)
    then have n: "in64 n" using out by (simp add: order_placed_def)
    from Complete_own [OF _ c2 ttls(2) n] out obtain w3 where
      cp: "co_Complete C k fp n (co_resultTTL C) w2 = (Inr (), w3)" "pinv w3"
      "claim w3 = (\<lambda>k'. if same_slot k k' then Some (fp, Some n) else claim w2 k')" by blast
    have "r = Inr n" "w' = w3" using run bg po cp Inr by (simp_all add: bindG_def attemptG_def go_simps)
    with cp store_keeps(2) [OF _ cp(1)] out h1 c1 Inr show ?thesis by (auto simp: order_placed_def fun_eq_iff)
  qed
qed

text \<open>
  The outcome of a call, for the request id \<open>k\<close> and the fingerprint \<open>fp\<close> of its command. A success is either a
  repetition of a completed request, which changes nothing, or an order that was placed under a fresh claim.
  A failure leaves the claims as they were.
\<close>

lemma CreateAsync_outcome:
  assumes inv: "pinv w" and ok: "cmd_ok cmd" and run: "CreateAsync C digest cmd w = (r, w')"
    and k: "k = cmd_RequestID cmd" and fp: "fp = purchaseFingerprint digest cmd"
  shows "pinv w' \<and> (case r of
      Inr n \<Rightarrow> (\<exists>m. claim w k = Some (fp, Some m) \<and> n = shown m \<and> same w w')
         \<or> claim w k = None \<and> order_placed cmd n w w' \<and> claim w' = (\<lambda>k'. if same_slot k k' then Some (fp, Some n) else claim w k')
    | Inl e \<Rightarrow> order_failed cmd e w w' \<and> claim w' = claim w \<and> (claim w k \<noteq> None \<longrightarrow> same w w'))"
proof -
  obtain r1 w1 where c1: "(case co_validator C of None \<Rightarrow> returnG () | Some v \<Rightarrow> v cmd) w = (r1, w1)" by fastforce
  obtain r2 w2 where c2: "(case co_rateLimiter C of None \<Rightarrow> returnG True | Some allow \<Rightarrow> allow cmd) w1 = (r2, w2)" by fastforce
  note s = checks_quiet [OF inv c1 c2]
  have quiet: ?thesis if "same w w'" "r = Inl e" for e
    using that by (simp add: seen_same_def order_failed_def)
  show ?thesis
  proof (cases "r1 = Inr () \<and> r2 = Inr True \<and> validateIdempotencyKey k = None")
    case False
    then have "\<exists>e. r = Inl e \<and> (w' = w1 \<or> w' = w2)"
      using run c1 c2 unfolding k by (cases r1; cases r2; cases "validateIdempotencyKey (cmd_RequestID cmd)")
        (auto simp: CreateAsync_def bindG_def go_simps split: if_splits)
    then show ?thesis using quiet s by blast
  next
    case True
    let ?rest = "bindG (co_Begin C k fp (co_processingTTL C)) (\<lambda>idempotency.
            case ir_State idempotency of
              IdempotencyCompleted \<Rightarrow> returnG (ir_OrderNumber idempotency)
            | IdempotencyProcessing \<Rightarrow> failG (New CodeDuplicateSubmission ''order request is already processing'')
            | IdempotencyAcquired \<Rightarrow>
                attemptG (place_order C cmd) (\<lambda>r. case r of
                  Inl e \<Rightarrow> attemptG (co_Abort C k fp) (\<lambda>_. failG e)
                | Inr orderNumber \<Rightarrow> bindG (co_Complete C k fp orderNumber (co_resultTTL C)) (\<lambda>_. returnG orderNumber)))"
    have rest: "?rest w2 = (r, w')"
      using run True c1 c2 unfolding k fp by (simp add: CreateAsync_def bindG_def [of "case_option _ _ _"] Let_def)
    have eq: "held w2 = held w" "published w2 = published w" "claim w2 = claim w" "pinv w2"
      using s(2) by (simp_all add: seen_same_def)
    show ?thesis
    proof (cases "claim w k")
      case None
      with claimed_outcome [OF eq(4) ok _ rest] eq show ?thesis
        by (cases r) (auto simp: order_placed_def order_failed_def)
    next
      case (Some c)
      obtain f st where c: "c = (f, st)" by (cases c)
      have "claim w2 k = Some (f, st)" using Some c eq by simp
      from Begin_taken [OF eq(4) this, of fp "co_processingTTL C"] rest
      have "w' = w2" and "r = (if f \<noteq> fp then Inl reused_key
          else case st of None \<Rightarrow> Inl (New CodeDuplicateSubmission ''order request is already processing'') | Some m \<Rightarrow> Inr (shown m))"
        by (auto simp: bindG_def go_simps split: if_splits option.splits)
      with Some c s(2) quiet show ?thesis
        by (auto simp: seen_same_def order_failed_def split: if_splits option.splits)
    qed
  qed
qed

end

end
