(* ===== verification/Purchase_World.thy ===== *)
theory Purchase_World
  imports Purchase
begin

text \<open>
  \<open>CreateAsync\<close> wired to its adapters, as \<open>src/app/program-service/cmd/server/main.go\<close> does it: the validation
  pipeline and the pricing over the program catalog, the idempotency store, the inventory and the broker.

  Two inventories are wired: the Redis one (\<open>redis_purchase\<close>, over any Redis server and Lua executor with the
  documented behaviour) and the in-process one (\<open>infrastructure/memory/inventory.go\<close>). The numbers and
  identifiers that the generators are going to hand out are lists of the world (that they are distinct is the
  theorem \<open>order_numbers_unique\<close>); a broker call fails when the next entry of \<open>pw_faults\<close> says so.
\<close>

record 'r purchase_world =
  pw_inventory :: 'r
  pw_claims :: IdempotencyStore
  pw_broker :: MemoryBroker
  pw_faults :: "bool list"
  pw_programs :: ProgramRepository
  pw_owned :: "int64 \<Rightarrow> int64 list"
  pw_numbers :: "int64 list"
  pw_idents :: "int64 list"
  pw_now :: time

abbreviation on_inventory :: "('e, 'r, 'a) prog \<Rightarrow> ('e, 'r purchase_world, 'a) prog" where
  "on_inventory \<equiv> liftG pw_inventory (\<lambda>s. pw_inventory_update (\<lambda>_. s))"

abbreviation on_programs :: "('e, ProgramRepository, 'a) prog \<Rightarrow> ('e, 'r purchase_world, 'a) prog" where
  "on_programs \<equiv> liftG pw_programs (\<lambda>s. pw_programs_update (\<lambda>_. s))"

abbreviation on_claims :: "('e, IdempotencyStore, 'a) prog \<Rightarrow> ('e, 'r purchase_world, 'a) prog" where
  "on_claims \<equiv> liftG pw_claims (\<lambda>s. pw_claims_update (\<lambda>_. s))"

definition world_catalog :: "'r purchase_world catalog" where
  "world_catalog =
     \<lparr>cat_FindProgram = (\<lambda>p. on_programs (PR_FindProgram p)),
      cat_ListTicketCategories = (\<lambda>p. on_programs (PR_ListTicketCategories p)),
      cat_ListSeats = (\<lambda>p c. on_programs (PR_ListSeats p c))\<rparr>"

definition world_ListTicketUserIDs :: "int64 \<Rightarrow> ('r purchase_world, int64 list) go" where
  "world_ListTicketUserIDs userID = getG (\<lambda>w. pw_owned w userID)"

definition world_validator :: "'r purchase_world rule" where
  "world_validator = Pipeline_Validate
     [Some (Structure_Validate (NewPurchaseStructureRule DefaultMaxTicketsPerOrder)), Some (Catalog_Validate world_catalog),
      Some (Ownership_Validate (Some world_ListTicketUserIDs))]"

definition draw :: "('w \<Rightarrow> int64 list) \<Rightarrow> (int64 list \<Rightarrow> 'w \<Rightarrow> 'w) \<Rightarrow> ('w, int64) go" where
  "draw sel upd w = (case sel w of
     [] \<Rightarrow> (Inl (PlainError ''clock moved backwards''), w)
   | n # ns \<Rightarrow> (Inr n, upd ns w))"

definition world_Publish :: "Event \<Rightarrow> ('r purchase_world, unit) go" where
  "world_Publish event w =
     (case pw_faults w of
        True # fs \<Rightarrow> (Inl (PlainError ''publish failed''), w\<lparr>pw_faults := fs\<rparr>)
      | fs \<Rightarrow> liftG pw_broker (\<lambda>s. pw_broker_update (\<lambda>_. s)) (Broker_Publish event) (w\<lparr>pw_faults := tl fs\<rparr>))"

definition world_ports ::
  "(CreateOrderCommand \<Rightarrow> int64 \<Rightarrow> int64 \<Rightarrow> ('r, Seat list) go) \<Rightarrow> (CreateOrderCommand \<Rightarrow> int64 \<Rightarrow> int64 \<Rightarrow> ('r, unit) go)
     \<Rightarrow> 'r purchase_world create_ports" where
  "world_ports lockSeats rollbackSeats =
     \<lparr>co_validator = Some world_validator, co_rateLimiter = None,
      co_Begin = (\<lambda>k f ttl w. on_claims (Idem_Begin (pw_now w) k f ttl) w),
      co_Complete = (\<lambda>k f n ttl w. on_claims (Idem_Complete (pw_now w) k f n ttl) w),
      co_Abort = (\<lambda>k f. on_claims (Idem_Abort k f)),
      co_CalculateAmount = CalculateAmount (cat_ListTicketCategories world_catalog),
      co_NextOrderNumber = (\<lambda>_. draw pw_numbers (\<lambda>ns. pw_numbers_update (\<lambda>_. ns))),
      co_NextID = draw pw_idents (\<lambda>ns. pw_idents_update (\<lambda>_. ns)),
      co_LockSeats = (\<lambda>cmd n i. on_inventory (lockSeats cmd n i)),
      co_RollbackSeats = (\<lambda>cmd n i. on_inventory (rollbackSeats cmd n i)),
      co_Publish = world_Publish, co_now = pw_now, co_processingTTL = 5 * 60000000000, co_resultTTL = 24 * 3600000000000\<rparr>"

section \<open>The in-process inventory\<close>

record MemoryInventory =
  mi_remain :: "int64 \<Rightarrow> int64 option"
  mi_seatMap :: "int64 \<Rightarrow> SeatStatus option"

definition NewMemoryInventory :: MemoryInventory where
  "NewMemoryInventory = \<lparr>mi_remain = Map.empty, mi_seatMap = Map.empty\<rparr>"

definition Inv_Seed :: "int64 \<Rightarrow> int64 \<Rightarrow> MemoryInventory \<Rightarrow> MemoryInventory" where
  "Inv_Seed ticketCategoryID remain l = l\<lparr>mi_remain := (mi_remain l)(ticketCategoryID \<mapsto> remain)\<rparr>"

definition remain_at :: "MemoryInventory \<Rightarrow> int64 \<Rightarrow> int64" where
  "remain_at l c = (case mi_remain l c of None \<Rightarrow> 0 | Some n \<Rightarrow> n)"

definition Inv_GetRemain :: "int64 \<Rightarrow> int64 \<Rightarrow> (MemoryInventory, int64 \<times> bool) go" where
  "Inv_GetRemain programID ticketCategoryID l = (Inr (remain_at l ticketCategoryID, mi_remain l ticketCategoryID \<noteq> None), l)"

definition Inv_SetRemain :: "int64 \<Rightarrow> int64 \<Rightarrow> int64 \<Rightarrow> (MemoryInventory, unit) go" where
  "Inv_SetRemain programID ticketCategoryID remain l = (Inr (), l\<lparr>mi_remain := (mi_remain l)(ticketCategoryID \<mapsto> remain)\<rparr>)"

definition Inv_InitializeRemain :: "int64 \<Rightarrow> int64 \<Rightarrow> int64 \<Rightarrow> (MemoryInventory, bool) go" where
  "Inv_InitializeRemain programID ticketCategoryID remain l =
     (if mi_remain l ticketCategoryID \<noteq> None then (Inr False, l)
      else (Inr True, l\<lparr>mi_remain := (mi_remain l)(ticketCategoryID \<mapsto> remain)\<rparr>))"

definition unavailable :: "SeatStatus option \<Rightarrow> bool" where
  "unavailable st \<longleftrightarrow> st = Some SeatLocked \<or> st = Some SeatSold"

definition Inv_LockSeats :: "CreateOrderCommand \<Rightarrow> int64 \<Rightarrow> int64 \<Rightarrow> (MemoryInventory, Seat list) go" where
  "Inv_LockSeats cmd orderNumber identifierID l =
     (let count = ticket_count (cmd_SeatIDs cmd) (cmd_TicketUserIDs cmd) in
      if count \<le> 0 then (Inl (New CodeInvalidArgument ''ticket user or seat is required''), l)
      else if remain_at l (cmd_TicketCategoryID cmd) < count then
        (Inl (New CodeInventoryNotEnough ''ticket inventory is not enough''), l)
      else if list_ex (\<lambda>s. unavailable (mi_seatMap l s)) (cmd_SeatIDs cmd) then
        (Inl (New CodeSeatUnavailable ''seat is unavailable''), l)
      else (Inr (lockedSeatPlaceholders cmd),
        l\<lparr>mi_remain := (mi_remain l)(cmd_TicketCategoryID cmd \<mapsto> wrap64 (remain_at l (cmd_TicketCategoryID cmd) - count)),
          mi_seatMap := (\<lambda>s. if s \<in> set (cmd_SeatIDs cmd) then Some SeatLocked else mi_seatMap l s)\<rparr>))"

definition Inv_RollbackSeats :: "CreateOrderCommand \<Rightarrow> int64 \<Rightarrow> int64 \<Rightarrow> (MemoryInventory, unit) go" where
  "Inv_RollbackSeats cmd orderNumber identifierID l =
     (let count = ticket_count (cmd_SeatIDs cmd) (cmd_TicketUserIDs cmd) in
      (Inr (), l\<lparr>mi_remain := (mi_remain l)(cmd_TicketCategoryID cmd \<mapsto> wrap64 (remain_at l (cmd_TicketCategoryID cmd) + count)),
        mi_seatMap := (\<lambda>s. if s \<in> set (cmd_SeatIDs cmd) \<and> mi_seatMap l s = Some SeatLocked then None else mi_seatMap l s)\<rparr>))"

section \<open>What the adapters of the world keep\<close>

lemma lift_reader: "snd (m (sel w)) = sel w \<Longrightarrow> upd (sel w) w = w \<Longrightarrow> snd (liftG sel upd m w) = w"
  by (simp add: liftG_def split_beta)

lemma repo_readers [simp]:
  "snd (PR_FindProgram p r) = r" "snd (PR_ListTicketCategories p r) = r" "snd (PR_ListSeats p c r) = r"
  by (simp_all add: PR_FindProgram_def PR_ListTicketCategories_def PR_ListSeats_def split: option.splits)

interpretation unchanged: state_preorder "\<lambda>w w' :: 'w. w' = w"
  by unfold_locales auto

lemma catalog_readers:
  "keepsG (\<lambda>w w'. w' = w) (cat_FindProgram world_catalog p)"
  "keepsG (\<lambda>w w'. w' = w) (cat_ListTicketCategories world_catalog p)"
  "keepsG (\<lambda>w w'. w' = w) (cat_ListSeats world_catalog p c)"
  by (simp_all add: keepsG_def world_catalog_def lift_reader)

lemma validator_reader: "keepsG (\<lambda>w w'. w' = w) (world_validator cmd)"
  by (simp add: world_validator_def Structure_Validate_def Catalog_Validate_def Ownership_Validate_def world_ListTicketUserIDs_def Let_def
      unchanged.keeps_intros catalog_readers split: option.split)

lemma amount_reader: "keepsG (\<lambda>w w'. w' = w) (CalculateAmount (cat_ListTicketCategories world_catalog) cmd)"
  by (simp add: CalculateAmount_def Let_def unchanged.keeps_intros catalog_readers split: sum.split)

lemma keeps_eqD: "keepsG (\<lambda>w w'. w' = w) m \<Longrightarrow> snd (m w) = w"
  by (simp add: keepsG_def)

definition world_priced :: "(int64 \<times> TicketCategory list) list \<Rightarrow> CreateOrderCommand \<Rightarrow> int64 \<Rightarrow> bool" where
  "world_priced cats cmd amount \<longleftrightarrow> (\<exists>item \<in> set (slice_at cats (cmd_ProgramID cmd)).
     tc_ID item = cmd_TicketCategoryID cmd \<and> tc_SellStarted item
     \<and> amount = tc_PriceCent item * Command_TicketCount cmd \<and> 0 < amount \<and> in64 amount)"

lemma world_amount:
  assumes "CalculateAmount (cat_ListTicketCategories world_catalog) cmd w = (Inr a, w')"
  shows "world_priced (pr_categories (pw_programs w)) cmd a"
proof -
  from assms have "0 < Command_TicketCount cmd"
    "price_of (cmd_TicketCategoryID cmd) (Command_TicketCount cmd) (slice_at (pr_categories (pw_programs w)) (cmd_ProgramID cmd)) = Inr a"
    by (auto simp: CalculateAmount_def Let_def bindG_def go_simps world_catalog_def liftG_def PR_ListTicketCategories_def
        split: if_splits sum.splits)
  from price_of_exact [OF this(2,1)] show ?thesis by (auto simp: world_priced_def)
qed

abbreviation world_claim :: "'r purchase_world \<Rightarrow> string \<rightharpoonup> string \<times> int64 option" where
  "world_claim w \<equiv> memory_claim (pw_now w) (pw_claims w)"

abbreviation world_published :: "'r purchase_world \<Rightarrow> Event list" where
  "world_published w \<equiv> pw_broker w CreateOrderTopic"

section \<open>Any inventory that locks and rolls back\<close>

text \<open>
  \<open>kept s\<close> is what the inventory holds and has left; \<open>unused s n\<close> says that \<open>n\<close> has no lock; \<open>undo s cmd n i\<close>
  that the lock of \<open>n\<close> was taken in an inventory that kept \<open>i\<close>.
\<close>

locale seat_inventory =
  fixes lockSeats :: "CreateOrderCommand \<Rightarrow> int64 \<Rightarrow> int64 \<Rightarrow> ('r, Seat list) go"
    and rollbackSeats :: "CreateOrderCommand \<Rightarrow> int64 \<Rightarrow> int64 \<Rightarrow> ('r, unit) go"
    and kept :: "'r \<Rightarrow> 'i"
    and inv_ok :: "'r \<Rightarrow> bool"
    and unused :: "'r \<Rightarrow> int64 \<Rightarrow> bool"
    and cmd_ok :: "CreateOrderCommand \<Rightarrow> bool"
    and taken :: "CreateOrderCommand \<Rightarrow> int64 \<Rightarrow> 'i \<Rightarrow> 'i \<Rightarrow> bool"
    and undo :: "'r \<Rightarrow> CreateOrderCommand \<Rightarrow> int64 \<Rightarrow> 'i \<Rightarrow> bool"
  assumes lock_ok: "inv_ok s \<Longrightarrow> cmd_ok cmd \<Longrightarrow> unused s n \<Longrightarrow> lockSeats cmd n ident s = (rl, t) \<Longrightarrow>
      inv_ok t \<and> (\<forall>m. m \<noteq> n \<longrightarrow> unused s m \<longrightarrow> unused t m)"
    and lock_success: "inv_ok s \<Longrightarrow> cmd_ok cmd \<Longrightarrow> unused s n \<Longrightarrow> lockSeats cmd n ident s = (Inr seats, t) \<Longrightarrow>
      taken cmd n (kept s) (kept t) \<and> undo t cmd n (kept s)"
    and lock_failure: "inv_ok s \<Longrightarrow> cmd_ok cmd \<Longrightarrow> unused s n \<Longrightarrow> lockSeats cmd n ident s = (Inl e, t) \<Longrightarrow>
      kept t = kept s \<or> taken cmd n (kept s) (kept t) \<and> CodeOf (Some e) = CodeInfrastructure"
    and rollback_ok: "inv_ok s \<Longrightarrow> cmd_ok cmd \<Longrightarrow> undo s cmd n i \<Longrightarrow> rollbackSeats cmd n ident s = (ru, t) \<Longrightarrow>
      inv_ok t \<and> (\<forall>m. m \<noteq> n \<longrightarrow> unused s m \<longrightarrow> unused t m) \<and> (kept t = i \<or> kept t = kept s \<and> ru \<noteq> Inr ())"

definition world_ok :: "('r \<Rightarrow> bool) \<Rightarrow> ('r \<Rightarrow> int64 \<Rightarrow> bool) \<Rightarrow> (int64 \<times> TicketCategory list) list \<Rightarrow> 'r purchase_world \<Rightarrow> bool" where
  "world_ok inv_ok unused cats w \<longleftrightarrow> inv_ok (pw_inventory w) \<and> entries_ok (pw_claims w) \<and> distinct (pw_numbers w)
     \<and> (\<forall>n \<in> set (pw_numbers w). in64 n \<and> unused (pw_inventory w) n) \<and> pr_categories (pw_programs w) = cats"

lemma world_ports_simps [simp]:
  "co_validator (world_ports L B) = Some world_validator" "co_rateLimiter (world_ports L B) = None"
  "co_Begin (world_ports L B) k f ttl w = on_claims (Idem_Begin (pw_now w) k f ttl) w"
  "co_Complete (world_ports L B) k f n ttl w = on_claims (Idem_Complete (pw_now w) k f n ttl) w"
  "co_Abort (world_ports L B) k f = on_claims (Idem_Abort k f)"
  "co_CalculateAmount (world_ports L B) = CalculateAmount (cat_ListTicketCategories world_catalog)"
  "co_NextOrderNumber (world_ports L B) u = draw pw_numbers (\<lambda>ns. pw_numbers_update (\<lambda>_. ns))"
  "co_NextID (world_ports L B) = draw pw_idents (\<lambda>ns. pw_idents_update (\<lambda>_. ns))"
  "co_LockSeats (world_ports L B) cmd m i = on_inventory (L cmd m i)"
  "co_RollbackSeats (world_ports L B) cmd m i = on_inventory (B cmd m i)"
  "co_Publish (world_ports L B) = world_Publish" "co_now (world_ports L B) = pw_now"
  "co_processingTTL (world_ports L B) = 5 * 60000000000" "co_resultTTL (world_ports L B) = 24 * 3600000000000"
  by (simp_all add: world_ports_def)

lemma lift_run: "liftG sel upd m w = (r, w') \<longleftrightarrow> (\<exists>s. m (sel w) = (r, s) \<and> w' = upd s w)"
  by (auto simp: liftG_def split: prod.splits)

lemma world_publish_cases:
  assumes "world_Publish ev w = (r, w')"
  shows "\<exists>fs. w' = w\<lparr>pw_faults := fs\<rparr> \<and> r \<noteq> Inr ()
    \<or> w' = w\<lparr>pw_faults := fs, pw_broker := (pw_broker w)(ev_Topic ev := pw_broker w (ev_Topic ev) @ [ev])\<rparr>"
  using assms by (auto simp: world_Publish_def liftG_def Broker_Publish_def split: list.splits bool.splits)

locale world_inventory = seat_inventory lockSeats rollbackSeats kept inv_ok unused cmd_ok taken undo
  for lockSeats rollbackSeats and kept :: "'r \<Rightarrow> 'i" and inv_ok unused cmd_ok taken undo +
  fixes cats :: "(int64 \<times> TicketCategory list) list"

sublocale world_inventory \<subseteq> service: purchase_service "world_ports lockSeats rollbackSeats" world_claim "(=)" "\<lambda>n. n" "\<lambda>ttl. 0 < ttl"
  "world_ok inv_ok unused cats" "\<lambda>w. kept (pw_inventory w)" world_published cmd_ok
  "\<lambda>w n. n \<notin> set (pw_numbers w) \<and> unused (pw_inventory w) n" taken
  "\<lambda>w cmd n i. n \<notin> set (pw_numbers w) \<and> undo (pw_inventory w) cmd n i" "world_priced cats"
proof unfold_locales
  fix w w' :: "'r purchase_world" and k k' fp f :: string and c :: "int64 option" and ttl :: duration and n ident u amt :: int64
    and cmd :: CreateOrderCommand and seats :: "Seat list" and rl :: "error + Seat list" and ru :: "error + unit"
    and rb :: "error + IdempotencyResult" and e :: error and i :: 'i and ev :: Event
    and v :: "'r purchase_world rule" and lim :: "CreateOrderCommand \<Rightarrow> ('r purchase_world, bool) go"
  let ?P = "world_ok inv_ok unused cats" and ?C = "world_ports lockSeats rollbackSeats"
  let ?same = "seen_same ?P (\<lambda>w. kept (pw_inventory w)) world_published world_claim"
  note Pdef = world_ok_def [of inv_ok unused cats]
  note locks = lift_run Pdef
  show "k = k" by simp
  show "world_claim w k = world_claim w k'" if "k = k'" using that by simp
  show "\<exists>t. co_Begin ?C k fp ttl w = (Inr acquired, t) \<and> ?P t \<and> world_claim t = (\<lambda>k'. if k = k' then Some (fp, None) else world_claim w k')"
    if "?P w" "world_claim w k = None" "0 < ttl"
    using memory_idem.Begin_free [of "pw_claims w" "pw_now w" k ttl fp] that by (auto simp: locks)
  show "co_Begin ?C k fp ttl w = (if f \<noteq> fp then Inl reused_key else Inr (case c of None \<Rightarrow> processing | Some n \<Rightarrow> completed n), w)"
    if "?P w" "world_claim w k = Some (f, c)"
    using memory_idem.Begin_taken [of "pw_claims w" "pw_now w" k f c fp ttl] that by (auto simp: locks split: option.splits)
  show "\<exists>t. co_Complete ?C k fp n ttl w = (Inr (), t) \<and> ?P t \<and> world_claim t = (\<lambda>k'. if k = k' then Some (fp, Some n) else world_claim w k')"
    if "?P w" "world_claim w k = Some (fp, c)" "0 < ttl" "in64 n"
    using memory_idem.Complete_own [of "pw_claims w" "pw_now w" k fp c ttl n] that by (auto simp: locks)
  show "co_Complete ?C k fp n ttl w = (Inl ownership_lost, w)" if "?P w" "world_claim w k = Some (f, c)" "f \<noteq> fp"
    using memory_idem.Complete_other [of "pw_claims w" "pw_now w" k f c fp n ttl] that by (auto simp: locks)
  show "\<exists>r t. co_Complete ?C k fp n ttl w = (r, t) \<and> ?P t \<and> (r = Inl ownership_lost \<and> world_claim t = world_claim w
      \<or> r = Inr () \<and> world_claim t = (\<lambda>k'. if k = k' then Some (fp, Some n) else world_claim w k'))"
    if "?P w" "world_claim w k = None" "0 < ttl" "in64 n"
    using memory_idem.Complete_gone [of "pw_claims w" "pw_now w" k ttl n fp] that by (fastforce simp: locks)
  show "\<exists>t. co_Abort ?C k fp w = (Inr (), t) \<and> ?P t \<and> world_claim t = (\<lambda>k'. if k = k' then None else world_claim w k')"
    if "?P w" "world_claim w k = Some (fp, None)"
    using memory_idem.Abort_own [of "pw_claims w" "pw_now w" k fp] that by (auto simp: locks)
  show "\<exists>t. co_Abort ?C k fp w = (Inr (), t) \<and> ?P t \<and> world_claim t = world_claim w"
    if "?P w" "world_claim w k \<noteq> Some (fp, None)"
    using memory_idem.Abort_other [of "pw_claims w" "pw_now w" k fp] that by (auto simp: locks)
  show "?same w (snd (v cmd w))" if "?P w" "co_validator ?C = Some v"
    using that keeps_eqD [OF validator_reader, of cmd w] by (simp add: seen_same_def)
  show "?same w (snd (lim cmd w))" if "?P w" "co_rateLimiter ?C = Some lim" using that by simp
  show "?same w (snd (co_CalculateAmount ?C cmd w))" if "?P w"
    using that keeps_eqD [OF amount_reader, of cmd w] by (simp add: seen_same_def)
  show "world_priced cats cmd amt" if "?P w" "co_CalculateAmount ?C cmd w = (Inr amt, w')"
    using that world_amount [of cmd w amt w'] by (simp add: Pdef)
  show "?same w (snd (co_NextOrderNumber ?C u w))" if "?P w"
    using that by (auto simp: seen_same_def draw_def Pdef split: list.splits)
  show "(n \<notin> set (pw_numbers w') \<and> unused (pw_inventory w') n) \<and> in64 n" if "?P w" "co_NextOrderNumber ?C u w = (Inr n, w')"
    using that by (auto simp: draw_def Pdef split: list.splits)
  show "?same w (snd (co_NextID ?C w))" if "?P w"
    using that by (auto simp: seen_same_def draw_def Pdef split: list.splits)
  show "n \<notin> set (pw_numbers (snd (co_NextID ?C w))) \<and> unused (pw_inventory (snd (co_NextID ?C w))) n"
    if "n \<notin> set (pw_numbers w) \<and> unused (pw_inventory w) n"
    using that by (auto simp: draw_def split: list.splits)
  show "?P w' \<and> world_published w' = world_published w \<and> world_claim w' = world_claim w"
    if "?P w" "cmd_ok cmd" "n \<notin> set (pw_numbers w) \<and> unused (pw_inventory w) n" "co_LockSeats ?C cmd n ident w = (rl, w')"
    using that lock_ok [of "pw_inventory w" cmd n ident rl] by (auto simp: locks) metis
  show "taken cmd n (kept (pw_inventory w)) (kept (pw_inventory w')) \<and> n \<notin> set (pw_numbers w') \<and> undo (pw_inventory w') cmd n (kept (pw_inventory w))"
    if "?P w" "cmd_ok cmd" "n \<notin> set (pw_numbers w) \<and> unused (pw_inventory w) n" "co_LockSeats ?C cmd n ident w = (Inr seats, w')"
    using that lock_success [of "pw_inventory w" cmd n ident seats] by (auto simp: locks)
  show "kept (pw_inventory w') = kept (pw_inventory w) \<or> taken cmd n (kept (pw_inventory w)) (kept (pw_inventory w')) \<and> CodeOf (Some e) = CodeInfrastructure"
    if "?P w" "cmd_ok cmd" "n \<notin> set (pw_numbers w) \<and> unused (pw_inventory w) n" "co_LockSeats ?C cmd n ident w = (Inl e, w')"
    using that lock_failure [of "pw_inventory w" cmd n ident e] by (auto simp: locks)
  show "?P w' \<and> world_published w' = world_published w \<and> world_claim w' = world_claim w"
    if "?P w" "cmd_ok cmd" "n \<notin> set (pw_numbers w) \<and> undo (pw_inventory w) cmd n i" "co_RollbackSeats ?C cmd n ident w = (ru, w')"
    using that rollback_ok [of "pw_inventory w" cmd n i ident ru] by (auto simp: locks) metis+
  show "kept (pw_inventory w') = i \<or> kept (pw_inventory w') = kept (pw_inventory w) \<and> ru \<noteq> Inr ()"
    if "?P w" "cmd_ok cmd" "n \<notin> set (pw_numbers w) \<and> undo (pw_inventory w) cmd n i" "co_RollbackSeats ?C cmd n ident w = (ru, w')"
    using that rollback_ok [of "pw_inventory w" cmd n i ident ru] by (auto simp: locks)
  show "?P w' \<and> kept (pw_inventory w') = kept (pw_inventory w) \<and> world_claim w' = world_claim w" if "?P w" "co_Publish ?C ev w = (ru, w')"
    using that world_publish_cases [of ev w ru w'] by (auto simp: Pdef)
  show "world_published w' = world_published w @ [ev] \<or> world_published w' = world_published w \<and> ru \<noteq> Inr ()"
    if "ev_Topic ev = CreateOrderTopic" "co_Publish ?C ev w = (ru, w')"
    using that world_publish_cases [of ev w ru w'] by auto
  show "n \<notin> set (pw_numbers (snd (co_Publish ?C ev w))) \<and> undo (pw_inventory (snd (co_Publish ?C ev w))) cmd n i"
    if "n \<notin> set (pw_numbers w) \<and> undo (pw_inventory w) cmd n i"
    using that world_publish_cases [of ev w "fst (world_Publish ev w)" "snd (world_Publish ev w)"] by auto
  show "kept (pw_inventory w') = kept (pw_inventory w) \<and> world_published w' = world_published w" if "co_Begin ?C k fp ttl w = (rb, w')"
    using that by (auto simp: locks)
  show "kept (pw_inventory w') = kept (pw_inventory w) \<and> world_published w' = world_published w" if "co_Complete ?C k fp n ttl w = (ru, w')"
    using that by (auto simp: locks)
  show "kept (pw_inventory w') = kept (pw_inventory w) \<and> world_published w' = world_published w" if "co_Abort ?C k fp w = (ru, w')"
    using that by (auto simp: locks)
  show "0 < co_processingTTL ?C" "0 < co_resultTTL ?C" by simp_all
qed

section \<open>The in-process inventory meets the contract\<close>

text \<open>The seats that are locked or sold, and the counts.\<close>

definition memory_kept :: "MemoryInventory \<Rightarrow> (int64 \<Rightarrow> bool) \<times> (int64 \<Rightarrow> int64)" where
  "memory_kept l = ((\<lambda>s. unavailable (mi_seatMap l s)), remain_at l)"

definition memory_taken :: "CreateOrderCommand \<Rightarrow> int64 \<Rightarrow> (int64 \<Rightarrow> bool) \<times> (int64 \<Rightarrow> int64) \<Rightarrow> (int64 \<Rightarrow> bool) \<times> (int64 \<Rightarrow> int64) \<Rightarrow> bool" where
  "memory_taken cmd n i i' \<longleftrightarrow> (let count = ticket_count (cmd_SeatIDs cmd) (cmd_TicketUserIDs cmd); c = cmd_TicketCategoryID cmd in
     0 < count \<and> count \<le> snd i c \<and> (\<forall>s \<in> set (cmd_SeatIDs cmd). \<not> fst i s)
     \<and> i' = ((\<lambda>s. s \<in> set (cmd_SeatIDs cmd) \<or> fst i s), (snd i)(c := snd i c - count)))"

definition memory_undo :: "MemoryInventory \<Rightarrow> CreateOrderCommand \<Rightarrow> int64 \<Rightarrow> (int64 \<Rightarrow> bool) \<times> (int64 \<Rightarrow> int64) \<Rightarrow> bool" where
  "memory_undo l cmd n i \<longleftrightarrow> memory_taken cmd n i (memory_kept l) \<and> (\<forall>c. in64 (snd i c))
     \<and> (\<forall>s \<in> set (cmd_SeatIDs cmd). mi_seatMap l s = Some SeatLocked)"

definition memory_ok :: "MemoryInventory \<Rightarrow> bool" where
  "memory_ok l \<longleftrightarrow> (\<forall>c. in64 (remain_at l c))"

lemma remain_at_upd: "remain_at (l\<lparr>mi_remain := (mi_remain l)(c \<mapsto> v), mi_seatMap := m\<rparr>) = (remain_at l)(c := v)"
  by (auto simp: remain_at_def fun_eq_iff)

lemma memory_lock_success:
  assumes "memory_ok l" and "Inv_LockSeats cmd n ident l = (Inr seats, t)"
  shows "memory_taken cmd n (memory_kept l) (memory_kept t) \<and> memory_undo t cmd n (memory_kept l) \<and> memory_ok t"
proof -
  let ?count = "ticket_count (cmd_SeatIDs cmd) (cmd_TicketUserIDs cmd)" and ?c = "cmd_TicketCategoryID cmd"
  from assms(2) have b: "0 < ?count" "?count \<le> remain_at l ?c" "\<forall>s \<in> set (cmd_SeatIDs cmd). \<not> unavailable (mi_seatMap l s)"
    and t: "t = l\<lparr>mi_remain := (mi_remain l)(?c \<mapsto> wrap64 (remain_at l ?c - ?count)),
        mi_seatMap := (\<lambda>s. if s \<in> set (cmd_SeatIDs cmd) then Some SeatLocked else mi_seatMap l s)\<rparr>"
    by (auto simp: Inv_LockSeats_def Let_def list_ex_iff split: if_splits)
  have "in64 (remain_at l ?c - ?count)" using assms(1) b by (auto simp: memory_ok_def in64_def dest: spec [of _ ?c])
  then have r: "remain_at t = (remain_at l)(?c := remain_at l ?c - ?count)" "memory_ok t"
    using assms(1) by (auto simp: t remain_at_upd wrap64_id memory_ok_def)
  with b assms(1) show ?thesis
    by (auto simp: memory_taken_def memory_undo_def memory_kept_def memory_ok_def Let_def t unavailable_def fun_eq_iff)
qed

lemma memory_rollback:
  assumes "memory_undo l cmd n i" and "Inv_RollbackSeats cmd n ident l = (ru, t)"
  shows "memory_kept t = i \<and> memory_ok t"
proof -
  let ?count = "ticket_count (cmd_SeatIDs cmd) (cmd_TicketUserIDs cmd)" and ?c = "cmd_TicketCategoryID cmd"
  from assms(1) have k: "remain_at l = (snd i)(?c := snd i ?c - ?count)"
    "\<And>s. unavailable (mi_seatMap l s) \<longleftrightarrow> s \<in> set (cmd_SeatIDs cmd) \<or> fst i s"
    "\<forall>s \<in> set (cmd_SeatIDs cmd). \<not> fst i s \<and> mi_seatMap l s = Some SeatLocked" "\<forall>c. in64 (snd i c)"
    by (auto simp: memory_undo_def memory_taken_def memory_kept_def Let_def fun_eq_iff)
  from assms(2) have t: "t = l\<lparr>mi_remain := (mi_remain l)(?c \<mapsto> wrap64 (remain_at l ?c + ?count)),
      mi_seatMap := (\<lambda>s. if s \<in> set (cmd_SeatIDs cmd) \<and> mi_seatMap l s = Some SeatLocked then None else mi_seatMap l s)\<rparr>"
    by (simp add: Inv_RollbackSeats_def Let_def)
  have "remain_at t = snd i" using k by (auto simp: t remain_at_upd wrap64_id)
  moreover have "unavailable (mi_seatMap t s) \<longleftrightarrow> fst i s" for s
    using k(2) [of s] k(3) by (auto simp: t unavailable_def)
  ultimately show ?thesis using k(4) by (simp add: memory_kept_def memory_ok_def)
qed

interpretation memory_purchase: world_inventory Inv_LockSeats Inv_RollbackSeats memory_kept memory_ok "\<lambda>_ _. True" "\<lambda>_. True"
  memory_taken memory_undo cats for cats
proof unfold_locales
  fix s t :: MemoryInventory and cmd n ident rl e seats i ru
  show "memory_ok t \<and> (\<forall>m. m \<noteq> n \<longrightarrow> True \<longrightarrow> True)" if "memory_ok s" "Inv_LockSeats cmd n ident s = (rl, t)"
    using that memory_lock_success [of s cmd n ident] by (cases rl) (auto simp: Inv_LockSeats_def Let_def split: if_splits)
  show "memory_taken cmd n (memory_kept s) (memory_kept t) \<and> memory_undo t cmd n (memory_kept s)"
    if "memory_ok s" "Inv_LockSeats cmd n ident s = (Inr seats, t)"
    using memory_lock_success [OF that] by simp
  show "memory_kept t = memory_kept s \<or> memory_taken cmd n (memory_kept s) (memory_kept t) \<and> CodeOf (Some e) = CodeInfrastructure"
    if "Inv_LockSeats cmd n ident s = (Inl e, t)"
    using that by (auto simp: Inv_LockSeats_def Let_def split: if_splits)
  show "memory_ok t \<and> (\<forall>m. m \<noteq> n \<longrightarrow> True \<longrightarrow> True) \<and> (memory_kept t = i \<or> memory_kept t = memory_kept s \<and> ru \<noteq> Inr ())"
    if "memory_undo s cmd n i" "Inv_RollbackSeats cmd n ident s = (ru, t)"
    using memory_rollback [OF that] by simp
qed

section \<open>The Redis inventory meets the contract\<close>

abbreviation cmd_count :: "CreateOrderCommand \<Rightarrow> int64" where
  "cmd_count cmd \<equiv> ticket_count (cmd_SeatIDs cmd) (cmd_TicketUserIDs cmd)"

abbreviation cmd_resources :: "CreateOrderCommand \<Rightarrow> resource list" where
  "cmd_resources cmd \<equiv> order_resources (cmd_ProgramID cmd) (cmd_SeatIDs cmd) (cmd_TicketUserIDs cmd)"

abbreviation cmd_category :: "CreateOrderCommand \<Rightarrow> int64 \<times> int64" where
  "cmd_category cmd \<equiv> (cmd_ProgramID cmd, cmd_TicketCategoryID cmd)"

abbreviation lock_op :: "CreateOrderCommand \<Rightarrow> int64 \<Rightarrow> int64 \<Rightarrow> ledger \<Rightarrow> script_reply \<times> ledger" where
  "lock_op cmd n ident \<equiv> ledger_lock n (cmd_ProgramID cmd) (cmd_TicketCategoryID cmd) (cmd_count cmd) (joinInt64 (cmd_SeatIDs cmd)) ident (cmd_resources cmd)"

type_synonym ledger_view = "(resource \<rightharpoonup> string) \<times> (int64 \<times> int64 \<Rightarrow> int64)"

definition ledger_view :: "ledger \<Rightarrow> ledger_view" where
  "ledger_view l = (lg_owner l, remaining l)"

text \<open>The seats and ticket users of the command were free and are locked by the order, its tickets are deducted.\<close>

definition ledger_taken :: "CreateOrderCommand \<Rightarrow> int64 \<Rightarrow> ledger_view \<Rightarrow> ledger_view \<Rightarrow> bool" where
  "ledger_taken cmd n i i' \<longleftrightarrow>
     (\<forall>r \<in> set (cmd_resources cmd). fst i r = None) \<and> 0 < cmd_count cmd \<and> cmd_count cmd \<le> snd i (cmd_category cmd)
     \<and> fst i' = (\<lambda>r. if r \<in> set (cmd_resources cmd) then Some (locked_by n) else fst i r)
     \<and> snd i' = (snd i)(cmd_category cmd := snd i (cmd_category cmd) - cmd_count cmd)"

definition ledger_undo :: "ledger \<Rightarrow> CreateOrderCommand \<Rightarrow> int64 \<Rightarrow> ledger_view \<Rightarrow> bool" where
  "ledger_undo l cmd n i \<longleftrightarrow> (\<exists>l0 rep ident. \<not> has_lock l0 n \<and> in64 (remaining l0 (cmd_category cmd)) \<and> 0 < cmd_count cmd
     \<and> lock_op cmd n ident l0 = (Some rep, l) \<and> 0 \<le> rep \<and> i = ledger_view l0)"

lemma ledger_lock_others: "ledger_lock n p c count ids ident rs l = (rep, l') \<Longrightarrow> m \<noteq> n \<Longrightarrow> has_lock l' m \<longleftrightarrow> has_lock l m"
  by (auto simp: ledger_lock_def has_lock_def split: if_splits)

lemma ledger_rollback_others: "ledger_rollback n p c count rs l = (rep, l') \<Longrightarrow> m \<noteq> n \<Longrightarrow> has_lock l' m \<longleftrightarrow> has_lock l m"
  by (auto simp: ledger_rollback_def ledger_give_back_def has_lock_def split: if_splits)

lemma ledger_lock_unchanged: "ledger_lock n p c count ids ident rs l = (rep, l') \<Longrightarrow> \<not> has_lock l n \<Longrightarrow> (\<And>v. rep = Some v \<Longrightarrow> v < 0) \<Longrightarrow> 0 < count \<Longrightarrow> l' = l"
  by (auto simp: ledger_lock_def split: if_splits)

lemma lock_op_taken:
  assumes "\<not> has_lock l n" and "lock_op cmd n ident l = (Some rep, l')" and "0 \<le> rep" and "0 < cmd_count cmd"
  shows "ledger_taken cmd n (ledger_view l) (ledger_view l')"
  using ledger_lock_new [of l n "cmd_category cmd" "cmd_count cmd" "joinInt64 (cmd_SeatIDs cmd)" ident "cmd_resources cmd" rep l'] assms
  by (auto simp: ledger_taken_def ledger_view_def)

context seat_store
begin

lemma lock_any:
  assumes ok: "keys_ok b (vw s) (vol s)" and num: "command_in64 cmd" "0 < ttl" "in64 ttl"
    and run: "Locker_LockSeats R exec b ttl cmd n ident s = (r, t)" and fresh: "\<not> has_lock (abs_ledger b (vw s)) n"
  shows "keys_ok b (vw t) (vol t) \<and> (abs_ledger b (vw t) = abs_ledger b (vw s) \<and> (\<exists>e. r = Inl e)
    \<or> (\<exists>rep \<ge> 0. lock_op cmd n ident (abs_ledger b (vw s)) = (Some rep, abs_ledger b (vw t)) \<and> 0 < cmd_count cmd
        \<and> (\<forall>e. r = Inl e \<longrightarrow> CodeOf (Some e) = CodeInfrastructure)))"
proof (cases "0 < cmd_count cmd")
  case False
  with run ok show ?thesis by (auto simp: Locker_LockSeats_def Let_def go_simps)
next
  case True
  let ?K = "lock_KEYS b (cmd_ProgramID cmd) (cmd_TicketCategoryID cmd) n (cmd_SeatIDs cmd) (cmd_TicketUserIDs cmd)"
  let ?A = "lock_ARGV (cmd_count cmd) n (cmd_ProgramID cmd) (cmd_TicketCategoryID cmd) (joinInt64 (cmd_SeatIDs cmd)) ident ttl"
  obtain re te where ex: "exec (lockInventoryScript R) ?K ?A s = (re, te)" by fastforce
  obtain rep u where sc: "lockInventoryScript R ?K ?A s = (rep, u)" by fastforce
  from lock_refines [OF ok num(1) [unfolded command_in64_def] num(3,2) sc]
  have ref: "lock_op cmd n ident (abs_ledger b (vw s)) = (rep, abs_ledger b (vw u))" "keys_ok b (vw u) (vol u)" by auto
  have t: "t = te" and r: "r = (case re of Inl e \<Rightarrow> Inl (Wrap CodeInfrastructure ''lock inventory failed'' e)
      | Inr result \<Rightarrow> if result < 0 then (if result = -2 then Inl (New CodeSeatUnavailable ''seat is already locked or sold'')
          else Inl (New CodeInventoryNotEnough ''ticket inventory is not enough'')) else Inr (lockedSeatPlaceholders cmd))"
    using run True ex by (auto simp: Locker_LockSeats_def Let_def attemptG_def go_simps lock_KEYS_def lock_ARGV_def split: sum.splits if_splits)
  have wrapped: "CodeOf (Some (Wrap CodeInfrastructure m e)) = CodeInfrastructure" for m e by (simp add: CodeOf_def Wrap_def)
  show ?thesis
  proof (cases re)
    case (Inr v)
    with exec_reply [OF ex [unfolded Inr]] sc have "rep = Some v" "te = u" by auto
    then show ?thesis
      using ref True r t Inr ledger_lock_unchanged [OF ref(1) fresh] by (cases "v < 0") auto
  next
    case (Inl e)
    with exec_state [of "lockInventoryScript R" ?K ?A s] ex sc have "te = s \<or> te = u" by auto
    then show ?thesis
    proof
      assume "te = s"
      then show ?thesis using ok t r Inl by simp
    next
      assume "te = u"
      then show ?thesis
        using ref True r t Inl wrapped ledger_lock_unchanged [OF ref(1) fresh]
        by (cases "\<exists>v \<ge> 0. rep = Some v") (auto simp: not_le)
    qed
  qed
qed

lemma rollback_any:
  assumes ok: "keys_ok b (vw s) (vol s)" and num: "command_in64 cmd" "0 < ttl" "in64 ttl"
    and run: "Locker_RollbackSeats R exec b ttl cmd n ident s = (r, t)"
  shows "keys_ok b (vw t) (vol t) \<and> (t = s \<and> r \<noteq> Inr ()
    \<or> (\<exists>rep. ledger_rollback n (cmd_ProgramID cmd) (cmd_TicketCategoryID cmd) (cmd_count cmd) (cmd_resources cmd) (abs_ledger b (vw s)) = (rep, abs_ledger b (vw t))))"
proof -
  let ?K = "giveback_keys b ''order-rollback'' (cmd_ProgramID cmd) (cmd_TicketCategoryID cmd) n (cmd_SeatIDs cmd) (cmd_TicketUserIDs cmd)"
  let ?A = "[show_int (cmd_count cmd), show_int n, show_int ttl]"
  obtain re te where ex: "exec (rollbackCreateOrderScript R) ?K ?A s = (re, te)" by fastforce
  obtain rep u where sc: "rollbackCreateOrderScript R ?K ?A s = (rep, u)" by fastforce
  note ref = rollback_refines [OF ok num(1) [unfolded command_in64_def] num(3,2) sc]
  have t: "t = te" and r: "(\<exists>e. re = Inl e) \<longleftrightarrow> r \<noteq> Inr ()"
    using run ex by (auto simp: Locker_RollbackSeats_def Let_def attemptG_def go_simps split: sum.splits)
  have "te = u \<or> te = s \<and> (\<exists>e. re = Inl e)"
    using exec_case [where sc = "rollbackCreateOrderScript R" and K = ?K and A = ?A and s = s] ex sc by (cases re) auto
  with ref ok t r show ?thesis by auto
qed

end

locale redis_purchase = seat_store R vw vol exec b
  for R :: "'r redis" and vw vol exec b +
  fixes ttl :: int64 and cats :: "(int64 \<times> TicketCategory list) list"
  assumes ttl: "0 < ttl" "in64 ttl"

sublocale redis_purchase \<subseteq> world_inventory "Locker_LockSeats R exec b ttl" "Locker_RollbackSeats R exec b ttl"
  "\<lambda>s. ledger_view (abs_ledger b (vw s))" "\<lambda>s. keys_ok b (vw s) (vol s)" "\<lambda>s n. \<not> has_lock (abs_ledger b (vw s)) n"
  command_in64 ledger_taken "\<lambda>s. ledger_undo (abs_ledger b (vw s))" cats
proof unfold_locales
  fix s t cmd n ident rl e seats i ru
  let ?l = "abs_ledger b (vw s)" and ?l' = "abs_ledger b (vw t)"
  show "keys_ok b (vw t) (vol t) \<and> (\<forall>m. m \<noteq> n \<longrightarrow> \<not> has_lock ?l m \<longrightarrow> \<not> has_lock ?l' m)"
    if "keys_ok b (vw s) (vol s)" "command_in64 cmd" "\<not> has_lock ?l n" "Locker_LockSeats R exec b ttl cmd n ident s = (rl, t)"
    using lock_any [OF that(1,2) ttl that(4,3)] ledger_lock_others by fastforce
  show "ledger_taken cmd n (ledger_view ?l) (ledger_view ?l') \<and> ledger_undo ?l' cmd n (ledger_view ?l)"
    if "keys_ok b (vw s) (vol s)" "command_in64 cmd" "\<not> has_lock ?l n" "Locker_LockSeats R exec b ttl cmd n ident s = (Inr seats, t)"
  proof -
    from lock_any [OF that(1,2) ttl that(4,3)] obtain rep where rep: "0 \<le> rep" "lock_op cmd n ident ?l = (Some rep, ?l')" "0 < cmd_count cmd" by auto
    with lock_op_taken [OF that(3) rep(2,1,3)] that(3) remaining_in64 [OF that(1)] show ?thesis
      unfolding ledger_undo_def by blast
  qed
  show "ledger_view ?l' = ledger_view ?l \<or> ledger_taken cmd n (ledger_view ?l) (ledger_view ?l') \<and> CodeOf (Some e) = CodeInfrastructure"
    if "keys_ok b (vw s) (vol s)" "command_in64 cmd" "\<not> has_lock ?l n" "Locker_LockSeats R exec b ttl cmd n ident s = (Inl e, t)"
    using lock_any [OF that(1,2) ttl that(4,3)] lock_op_taken [OF that(3)] by auto
  show "keys_ok b (vw t) (vol t) \<and> (\<forall>m. m \<noteq> n \<longrightarrow> \<not> has_lock ?l m \<longrightarrow> \<not> has_lock ?l' m)
      \<and> (ledger_view ?l' = i \<or> ledger_view ?l' = ledger_view ?l \<and> ru \<noteq> Inr ())"
    if "keys_ok b (vw s) (vol s)" "command_in64 cmd" "ledger_undo ?l cmd n i" "Locker_RollbackSeats R exec b ttl cmd n ident s = (ru, t)"
  proof -
    from that(3) obtain l0 rep ident0 where u: "\<not> has_lock l0 n" "in64 (remaining l0 (cmd_category cmd))" "0 < cmd_count cmd"
      "lock_op cmd n ident0 l0 = (Some rep, ?l)" "0 \<le> rep" "i = ledger_view l0" unfolding ledger_undo_def by blast
    note res = ledger_lock_rollback [OF u(1-5)]
    show ?thesis
      using rollback_any [OF that(1,2) ttl that(4)] res(1,2) ledger_rollback_others u(6)
      by (elim conjE disjE exE) (auto simp: ledger_view_def)
  qed
qed

interpretation keyspace_purchase: redis_purchase keyspace_redis ks_val ks_ttl direct_exec b 900 cats for b cats
  by unfold_locales (simp_all add: in64_def)

section \<open>Properties\<close>

definition redis_create :: "'r redis \<Rightarrow> 'r executor \<Rightarrow> string \<Rightarrow> int64 \<Rightarrow> 'r purchase_world create_ports" where
  "redis_create R exec b ttl = world_ports (Locker_LockSeats R exec b ttl) (Locker_RollbackSeats R exec b ttl)"

definition redis_world_ok :: "('r \<Rightarrow> string \<rightharpoonup> rvalue) \<Rightarrow> ('r \<Rightarrow> string set) \<Rightarrow> string \<Rightarrow> 'r purchase_world \<Rightarrow> bool" where
  "redis_world_ok vw vol b w \<longleftrightarrow> world_ok (\<lambda>s. keys_ok b (vw s) (vol s)) (\<lambda>s n. \<not> has_lock (abs_ledger b (vw s)) n)
     (pr_categories (pw_programs w)) w"

definition world_view :: "('r \<Rightarrow> string \<rightharpoonup> rvalue) \<Rightarrow> string \<Rightarrow> 'r purchase_world \<Rightarrow> ledger_view" where
  "world_view vw b w = ledger_view (abs_ledger b (vw (pw_inventory w)))"

context redis_purchase
begin

lemma outcome:
  assumes "redis_world_ok vw vol b w" and "pr_categories (pw_programs w) = cats" and "command_in64 cmd"
    and "CreateAsync (redis_create R exec b ttl) digest cmd w = (r, w')"
  shows "redis_world_ok vw vol b w' \<and> (case r of
      Inr n \<Rightarrow>
        world_claim w (cmd_RequestID cmd) = Some (purchaseFingerprint digest cmd, Some n)
          \<and> world_view vw b w' = world_view vw b w \<and> world_published w' = world_published w \<and> world_claim w' = world_claim w
        \<or> world_claim w (cmd_RequestID cmd) = None \<and> ledger_taken cmd n (world_view vw b w) (world_view vw b w') \<and> in64 n
          \<and> (\<exists>amount ident created occurred. world_priced (pr_categories (pw_programs w)) cmd amount
               \<and> world_published w' = world_published w @ [order_event (order_payload cmd n ident amount created) occurred])
          \<and> world_claim w' = (world_claim w)(cmd_RequestID cmd \<mapsto> (purchaseFingerprint digest cmd, Some n))
    | Inl e \<Rightarrow> world_claim w' = world_claim w
        \<and> (world_view vw b w' = world_view vw b w
           \<or> (\<exists>n. ledger_taken cmd n (world_view vw b w) (world_view vw b w')) \<and> (CodeOf (Some e) = CodeInfrastructure \<or> (\<exists>x y. e = JoinError x y)))
        \<and> (world_published w' = world_published w \<or> (\<exists>ev. world_published w' = world_published w @ [ev]))
        \<and> (world_claim w (cmd_RequestID cmd) \<noteq> None \<longrightarrow> world_view vw b w' = world_view vw b w \<and> world_published w' = world_published w))"
proof -
  have w: "world_ok (\<lambda>s. keys_ok b (vw s) (vol s)) (\<lambda>s n. \<not> has_lock (abs_ledger b (vw s)) n) cats w"
    using assms(1,2) by (simp add: redis_world_ok_def)
  have upd: "(\<lambda>k'. if k = k' then Some x else f k') = f(k \<mapsto> x)" for k x and f :: "string \<rightharpoonup> string \<times> int64 option"
    by (auto simp: fun_eq_iff)
  have ok': "redis_world_ok vw vol b v" if "world_ok (\<lambda>s. keys_ok b (vw s) (vol s)) (\<lambda>s n. \<not> has_lock (abs_ledger b (vw s)) n) cats v" for v
    using that by (auto simp: redis_world_ok_def world_ok_def)
  from service.CreateAsync_outcome [OF w assms(3) assms(4) [unfolded redis_create_def] refl refl] show ?thesis
    unfolding service.order_placed_def service.order_failed_def seen_same_def upd world_view_def assms(2)
    using ok' by (cases r) auto
qed

end

definition sample_programs :: ProgramRepository where
  "sample_programs =
     \<lparr>pr_programs = [(7, \<lparr>prg_ID = 7, prg_Title = ''Live'', prg_City = ''Shanghai'', prg_Place = ''Arena'', prg_ShowTime = 1000, prg_Status = ''ON_SALE''\<rparr>)],
      pr_categories = [(7, [\<lparr>tc_ID = 1, tc_ProgramID = 7, tc_Name = ''A'', tc_PriceCent = 128000, tc_Total = 5, tc_Remain = 5, tc_SellStarted = True\<rparr>])],
      pr_seats = [(1, map (\<lambda>i. \<lparr>seat_ID = i, seat_ProgramID = 7, seat_TicketCategoryID = 1, seat_RowCode = ''A'', seat_ColCode = ''01'',
        seat_PriceCent = 128000, seat_Status = SeatNoSold\<rparr>) [11, 12, 13, 14, 15])]\<rparr>"

definition sample_purchase :: "bool list \<Rightarrow> keyspace purchase_world" where
  "sample_purchase faults =
     \<lparr>pw_inventory = demo_store, pw_claims = NewIdempotencyStore, pw_broker = NewMemoryBroker, pw_faults = faults,
      pw_programs = sample_programs, pw_owned = (\<lambda>_. [501, 502]), pw_numbers = [42, 43], pw_idents = [5, 6], pw_now = 0\<rparr>"

definition sample_cmd :: CreateOrderCommand where
  "sample_cmd = \<lparr>cmd_RequestID = ''request-1'', cmd_UserID = 3, cmd_ProgramID = 7, cmd_TicketCategoryID = 1,
     cmd_SeatIDs = [11, 12], cmd_TicketUserIDs = [501, 502]\<rparr>"

abbreviation sample_ports :: "keyspace purchase_world create_ports" where
  "sample_ports \<equiv> redis_create keyspace_redis direct_exec ''th'' 900"

abbreviation sample_digest :: "json \<Rightarrow> string" where
  "sample_digest \<equiv> \<lambda>_. ''f''"

lemma sample_checks:
  "world_validator sample_cmd (sample_purchase faults) = (Inr (), sample_purchase faults)"
  "validateIdempotencyKey (cmd_RequestID sample_cmd) = None"
proof -
  have "equal_fold ''ON_SALE'' ''ON_SALE''" by (simp add: equal_fold_def)
  then show "world_validator sample_cmd (sample_purchase faults) = (Inr (), sample_purchase faults)"
    by (simp add: world_validator_def Structure_Validate_def NewPurchaseStructureRule_def Catalog_Validate_def Ownership_Validate_def
        world_catalog_def world_ListTicketUserIDs_def bindG_def liftG_def go_simps Let_def sample_cmd_def sample_purchase_def sample_programs_def
        Command_TicketCount_def ticket_count_def duplicateInt64_def PR_FindProgram_def PR_ListTicketCategories_def PR_ListSeats_def slice_at_def seat_offered_def)
  show "validateIdempotencyKey (cmd_RequestID sample_cmd) = None"
    by (simp add: validateIdempotencyKey_def sample_cmd_def trim_space_def trim_def is_space_def Let_def)
qed

lemma sample_purchase_ok: "redis_world_ok ks_val ks_ttl ''th'' (sample_purchase faults)" "command_in64 sample_cmd"
  "redis_purchase keyspace_redis ks_val ks_ttl direct_exec 900"
  using demo_keys keyspace_purchase.redis_purchase_axioms
  by (auto simp: redis_world_ok_def world_ok_def sample_purchase_def entries_ok_def NewIdempotencyStore_def in64_def has_lock_def abs_ledger_def
      demo_store_def command_in64_def sample_cmd_def ticket_count_def)

lemma sample_place:
  obtains t where "Locker_LockSeats keyspace_redis direct_exec ''th'' 900 sample_cmd 42 5 demo_store = (Inr (lockedSeatPlaceholders sample_cmd), t)"
proof -
  have "\<not> has_lock (abs_ledger ''th'' (ks_val demo_store)) 42"
    by (simp add: has_lock_def abs_ledger_def demo_store_def)
  then have "fst (lock_op sample_cmd 42 5 (abs_ledger ''th'' (ks_val demo_store))) = Some 3"
    unfolding ledger_lock_def demo_remaining demo_owner by (simp add: sample_cmd_def ticket_count_def in64_def)
  then show thesis
    by (intro direct_lock [where ttl = 900 and cmd = sample_cmd and n = 42 and ident = 5 and rep = 3, OF demo_keys _ _ _ _ _ _ that])
      (simp_all add: sample_cmd_def ticket_count_def command_in64_def in64_def)
qed

lemma sample_run: "\<exists>w'. CreateAsync sample_ports sample_digest sample_cmd (sample_purchase []) = (Inr 42, w')"
proof -
  obtain t where t: "Locker_LockSeats keyspace_redis direct_exec ''th'' 900 sample_cmd 42 5 demo_store = (Inr (lockedSeatPlaceholders sample_cmd), t)"
    by (rule sample_place)
  let ?e = "\<lparr>ie_fingerprint = ''f'', ie_state = IdempotencyProcessing, ie_orderNumber = 0, ie_expiresAt = 300000000000\<rparr>"
  let ?w1 = "(sample_purchase [])\<lparr>pw_claims := NewIdempotencyStore(cmd_RequestID sample_cmd \<mapsto> ?e)\<rparr>"
  have amount: "CalculateAmount (cat_ListTicketCategories world_catalog) sample_cmd ?w1 = (Inr 256000, ?w1)"
    by (simp add: CalculateAmount_def world_catalog_def liftG_def bindG_def go_simps Let_def PR_ListTicketCategories_def slice_at_def
        sample_purchase_def sample_programs_def sample_cmd_def Command_TicketCount_def ticket_count_def wrap64_nonneg)
  have "\<exists>w2. place_order sample_ports sample_cmd ?w1 = (Inr 42, w2) \<and> pw_claims w2 = pw_claims ?w1 \<and> pw_now w2 = 0"
    unfolding place_order_def redis_create_def world_ports_simps
    by (simp add: bindG_def [of "CalculateAmount _ _"] amount)
       (simp add: bindG_def attemptG_def getG_def draw_def liftG_def t go_simps world_Publish_def Broker_Publish_def sample_purchase_def)
  then obtain w2 where w2: "place_order sample_ports sample_cmd ?w1 = (Inr 42, w2)" "pw_claims w2 = pw_claims ?w1" "pw_now w2 = 0" by blast
  have bg: "co_Begin sample_ports (cmd_RequestID sample_cmd) ''f'' (co_processingTTL sample_ports) (sample_purchase []) = (Inr acquired, ?w1)"
    by (simp add: redis_create_def liftG_def Idem_Begin_def Let_def sample_purchase_def NewIdempotencyStore_def)
  obtain w3 where "co_Complete sample_ports (cmd_RequestID sample_cmd) ''f'' 42 (co_resultTTL sample_ports) w2 = (Inr (), w3)"
    using w2 by (simp add: redis_create_def liftG_def Idem_Complete_def)
  moreover have "co_validator sample_ports = Some world_validator" "co_rateLimiter sample_ports = None"
    by (simp_all add: redis_create_def)
  ultimately show ?thesis using w2(1) bg
    by (simp add: CreateAsync_def sample_checks bindG_def attemptG_def go_simps purchaseFingerprint_def Let_def)
qed





end
