(* ===== verification/Reconciliation.thy ===== *)
theory Reconciliation
  imports Purchase_World
begin

text \<open>
  Reconciling the inventory. In the program service \<open>application/inventory_reconciliation.go\<close> compares, for each
  ticket category of a program, the count that follows from the orders with the counts in MySQL and in Redis, and
  repairs both on request; \<open>infrastructure/redis/inventory_store.go\<close> reads and writes the Redis counts;
  \<open>application/inventory_bootstrap.go\<close> fills them at start-up.

  Iterating over the map of usages is iterating over an association list, in any order. The Redis \<open>SCAN\<close> of the
  lock keys is the parameter \<open>scan\<close>.
\<close>

section \<open>The Redis counts\<close>

definition Store_GetRemain :: "'r redis \<Rightarrow> string \<Rightarrow> int64 \<Rightarrow> int64 \<Rightarrow> ('r, int64 \<times> bool) go" where
  "Store_GetRemain R keys programID ticketCategoryID s =
     (case rGET R (inventory_key keys programID ticketCategoryID) s of
        None \<Rightarrow> (Inr (0, False), s)
      | Some x \<Rightarrow> (case parse_int x of
          None \<Rightarrow> (Inl (Wrap CodeInfrastructure ''read redis inventory failed'' (PlainError ''strconv.ParseInt'')), s)
        | Some n \<Rightarrow> (Inr (n, True), s)))"

definition Store_SetRemain :: "'r redis \<Rightarrow> string \<Rightarrow> int64 \<Rightarrow> int64 \<Rightarrow> int64 \<Rightarrow> ('r, unit) go" where
  "Store_SetRemain R keys programID ticketCategoryID remain s =
     (Inr (), rSET R (inventory_key keys programID ticketCategoryID) (show_int remain) s)"

text \<open>\<open>SET key value NX\<close> without a time to live.\<close>

definition Store_InitializeRemain :: "'r redis \<Rightarrow> string \<Rightarrow> int64 \<Rightarrow> int64 \<Rightarrow> int64 \<Rightarrow> ('r, bool) go" where
  "Store_InitializeRemain R keys programID ticketCategoryID remain s =
     (if rEXISTS R (inventory_key keys programID ticketCategoryID) s then (Inr False, s)
      else (Inr True, rSET R (inventory_key keys programID ticketCategoryID) (show_int remain) s))"

fun active_among :: "'r redis \<Rightarrow> int64 \<Rightarrow> string list \<Rightarrow> ('r, bool) go" where
  "active_among R programID [] s = (Inr False, s)"
| "active_among R programID (k # ks) s = (case rHGET R k ''program_id'' s of
     None \<Rightarrow> active_among R programID ks s
   | Some x \<Rightarrow> (case parse_int x of
       None \<Rightarrow> (Inl (Wrap CodeInfrastructure ''inspect active inventory reservation failed'' (PlainError ''strconv.ParseInt'')), s)
     | Some p \<Rightarrow>
         if p = programID \<and> rHGET R k ''status'' s \<noteq> Some ''sold'' then (Inr True, s)
         else active_among R programID ks s))"

text \<open>\<open>scan pattern s\<close>: the keys that the scan iterator yields, and the error it ends with, if any.\<close>

type_synonym 'r scan = "string \<Rightarrow> 'r \<Rightarrow> (string list \<times> error option) \<times> 'r"

definition HasActiveReservations :: "'r redis \<Rightarrow> 'r scan \<Rightarrow> string \<Rightarrow> int64 \<Rightarrow> ('r, bool) go" where
  "HasActiveReservations R scan keys programID s =
     (case scan (Build keys [''order-lock'', ''*'']) s of ((ks, err), s1) \<Rightarrow>
        (case active_among R programID ks s1 of
           (Inr False, s2) \<Rightarrow> (case err of
             None \<Rightarrow> (Inr False, s2)
           | Some e \<Rightarrow> (Inl (Wrap CodeInfrastructure ''scan active inventory reservations failed'' e), s2))
         | res \<Rightarrow> res))"

section \<open>Reconciliation\<close>

record 'w recon_ports =
  rp_ListTicketCategories :: "int64 \<Rightarrow> ('w, TicketCategory list) go"
  rp_UpdateTicketCategoryRemain :: "int64 \<Rightarrow> int64 \<Rightarrow> ('w, unit) go"
  rp_GetRemain :: "int64 \<Rightarrow> int64 \<Rightarrow> ('w, int64 \<times> bool) go"
  rp_SetRemain :: "int64 \<Rightarrow> int64 \<Rightarrow> int64 \<Rightarrow> ('w, unit) go"
  rp_HasActiveReservations :: "(int64 \<Rightarrow> ('w, bool) go) option"
  rp_SaveRecord :: "(ReconciliationRecord \<Rightarrow> ('w, unit) go) option"
  rp_NextID :: "('w, int64) go option"
  rp_now :: "'w \<Rightarrow> time"

record InventoryReconciliationResult =
  irr_MismatchCount :: int64
  irr_RepairedCount :: int64
  irr_Differences :: "InventoryDifference list"

abbreviation no_result :: InventoryReconciliationResult where
  "no_result \<equiv> \<lparr>irr_MismatchCount = 0, irr_RepairedCount = 0, irr_Differences = []\<rparr>"

definition inventoryMismatchReason :: "int64 \<Rightarrow> int64 \<Rightarrow> bool \<Rightarrow> int64 \<Rightarrow> string" where
  "inventoryMismatchReason mysqlRemain redisRemain redisExists expected =
     (if \<not> redisExists then ''REDIS_INVENTORY_MISSING''
      else if mysqlRemain \<noteq> expected \<and> redisRemain \<noteq> expected then ''MYSQL_AND_REDIS_MISMATCH''
      else if mysqlRemain \<noteq> expected then ''MYSQL_REMAIN_MISMATCH''
      else if redisRemain \<noteq> expected then ''REDIS_REMAIN_MISMATCH''
      else ''UNKNOWN_MISMATCH_'' @ show_int expected)"

definition zero_difference :: InventoryDifference where
  "zero_difference = \<lparr>idf_TicketCategoryID = 0, idf_Total = 0, idf_OccupiedCount = 0, idf_ExpectedRemain = 0, idf_MySQLRemain = 0,
     idf_RedisRemain = 0, idf_RedisExists = False, idf_Repaired = False, idf_Reason = []\<rparr>"

text \<open>The three results of the source: the difference, whether it is a mismatch, and the error.\<close>

definition compareCategory ::
  "'w recon_ports \<Rightarrow> int64 \<Rightarrow> TicketCategory \<Rightarrow> int64 \<Rightarrow> bool \<Rightarrow> 'w \<Rightarrow> (InventoryDifference \<times> bool \<times> error option) \<times> 'w" where
  "compareCategory P programID category occupied repair w =
     (let expected = wrap64 (tc_Total category - occupied) in
      case rp_GetRemain P programID (tc_ID category) w of
        (Inl e, w1) \<Rightarrow> ((zero_difference, False, Some e), w1)
      | (Inr (redisRemain, redisExists), w1) \<Rightarrow>
          (let difference = \<lparr>idf_TicketCategoryID = tc_ID category, idf_Total = tc_Total category, idf_OccupiedCount = occupied,
                 idf_ExpectedRemain = expected, idf_MySQLRemain = tc_Remain category, idf_RedisRemain = redisRemain,
                 idf_RedisExists = redisExists, idf_Repaired = False, idf_Reason = []\<rparr>
           in if expected < 0 then ((difference\<lparr>idf_Reason := ''OCCUPIED_EXCEEDS_TOTAL''\<rparr>, True, None), w1)
              else if redisExists \<and> redisRemain = expected \<and> tc_Remain category = expected then ((difference, False, None), w1)
              else
                (let difference = difference\<lparr>idf_Reason := inventoryMismatchReason (tc_Remain category) redisRemain redisExists expected\<rparr> in
                 if \<not> repair then ((difference, True, None), w1)
                 else case rp_UpdateTicketCategoryRemain P (tc_ID category) expected w1 of
                   (Inl e, w2) \<Rightarrow> ((difference, True, Some e), w2)
                 | (Inr _, w2) \<Rightarrow> (case rp_SetRemain P programID (tc_ID category) expected w2 of
                     (Inl e, w3) \<Rightarrow> ((difference, True, Some e), w3)
                   | (Inr _, w3) \<Rightarrow> ((difference\<lparr>idf_Repaired := True\<rparr>, True, None), w3)))))"

definition saveRecord :: "'w recon_ports \<Rightarrow> int64 \<Rightarrow> InventoryDifference \<Rightarrow> ('w, unit) go" where
  "saveRecord P programID difference = (case (rp_SaveRecord P, rp_NextID P) of
     (Some save, Some nextID) \<Rightarrow>
       bindG nextID (\<lambda>i. bindG (getG (rp_now P)) (\<lambda>now.
         save \<lparr>rr_ID = i, rr_ProgramID = programID, rr_TicketCategoryID = idf_TicketCategoryID difference, rr_Difference = difference,
           rr_HandleStatus = (if idf_Repaired difference then ''REPAIRED'' else ''PENDING''), rr_CreatedAt = now\<rparr>))
   | _ \<Rightarrow> returnG ())"

text \<open>\<open>usageByCategory[id] += count\<close> for every usage, or the error of an invalid one.\<close>

definition usage_at :: "(int64 \<times> int64) list \<Rightarrow> int64 \<Rightarrow> int64" where
  "usage_at m c = (case map_of m c of None \<Rightarrow> 0 | Some n \<Rightarrow> n)"

fun usage_by_category :: "InventoryUsage list \<Rightarrow> (int64 \<times> int64) list \<Rightarrow> error + (int64 \<times> int64) list" where
  "usage_by_category [] m = Inr m"
| "usage_by_category (usage # usages) m =
     (if iu_TicketCategoryID usage \<le> 0 \<or> iu_OccupiedCount usage < 0 then Inl (New CodeInvalidArgument ''inventory usage is invalid'')
      else usage_by_category usages
        (AList.update (iu_TicketCategoryID usage) (wrap64 (usage_at m (iu_TicketCategoryID usage) + iu_OccupiedCount usage)) m))"

definition add_difference :: "InventoryDifference \<Rightarrow> InventoryReconciliationResult \<Rightarrow> InventoryReconciliationResult" where
  "add_difference d res = res\<lparr>irr_MismatchCount := irr_MismatchCount res + 1,
     irr_RepairedCount := irr_RepairedCount res + (if idf_Repaired d then 1 else 0), irr_Differences := irr_Differences res @ [d]\<rparr>"

fun compare_all :: "'w recon_ports \<Rightarrow> int64 \<Rightarrow> (int64 \<Rightarrow> int64) \<Rightarrow> bool \<Rightarrow> TicketCategory list \<Rightarrow> InventoryReconciliationResult
    \<Rightarrow> (error \<times> InventoryReconciliationResult, 'w, InventoryReconciliationResult) prog" where
  "compare_all P programID usage repair [] res w = (Inr res, w)"
| "compare_all P programID usage repair (category # categories) res w =
     (case compareCategory P programID category (usage (tc_ID category)) repair w of
        ((difference, mismatch, err), w1) \<Rightarrow>
          if \<not> mismatch then
            (case err of Some e \<Rightarrow> (Inl (e, res), w1) | None \<Rightarrow> compare_all P programID usage repair categories res w1)
          else
            (let res = add_difference difference res in
             case saveRecord P programID difference w1 of
               (Inl e, w2) \<Rightarrow> (Inl (e, res), w2)
             | (Inr _, w2) \<Rightarrow> (case err of
                 Some e \<Rightarrow> (Inl (e, res), w2)
               | None \<Rightarrow> compare_all P programID usage repair categories res w2)))"

definition missing_category :: "int64 \<Rightarrow> int64 \<Rightarrow> InventoryDifference" where
  "missing_category categoryID occupied = zero_difference\<lparr>idf_TicketCategoryID := categoryID, idf_OccupiedCount := occupied,
     idf_ExpectedRemain := -1, idf_RedisRemain := -1, idf_Reason := ''ORDER_CATEGORY_MISSING''\<rparr>"

fun report_missing :: "'w recon_ports \<Rightarrow> int64 \<Rightarrow> int64 list \<Rightarrow> (int64 \<times> int64) list \<Rightarrow> InventoryReconciliationResult
    \<Rightarrow> (error \<times> InventoryReconciliationResult, 'w, InventoryReconciliationResult) prog" where
  "report_missing P programID known [] res w = (Inr res, w)"
| "report_missing P programID known ((categoryID, occupied) # usages) res w =
     (if categoryID \<in> set known then report_missing P programID known usages res w
      else
        (let res = add_difference (missing_category categoryID occupied) res in
         case saveRecord P programID (missing_category categoryID occupied) w of
           (Inl e, w1) \<Rightarrow> (Inl (e, res), w1)
         | (Inr _, w1) \<Rightarrow> report_missing P programID known usages res w1))"

definition repair_blocked :: "'w recon_ports \<Rightarrow> int64 \<Rightarrow> bool \<Rightarrow> ('w, unit) go" where
  "repair_blocked P programID repair = (case (repair, rp_HasActiveReservations P) of
     (True, Some check) \<Rightarrow> bindG (check programID) (\<lambda>active.
       if active then failG (New CodeConflict ''inventory repair is blocked while active reservations exist'') else returnG ())
   | _ \<Rightarrow> returnG ())"

definition Reconcile :: "'w recon_ports \<Rightarrow> int64 \<Rightarrow> InventoryUsage list \<Rightarrow> bool
    \<Rightarrow> (error \<times> InventoryReconciliationResult, 'w, InventoryReconciliationResult) prog" where
  "Reconcile P programID usages repair w =
     (if programID \<le> 0 then (Inl (New CodeInvalidArgument ''program_id is required'', no_result), w)
      else case repair_blocked P programID repair w of
        (Inl e, w1) \<Rightarrow> (Inl (e, no_result), w1)
      | (Inr _, w1) \<Rightarrow> (case rp_ListTicketCategories P programID w1 of
          (Inl e, w2) \<Rightarrow> (Inl (e, no_result), w2)
        | (Inr categories, w2) \<Rightarrow> (case usage_by_category usages [] of
            Inl e \<Rightarrow> (Inl (e, no_result), w2)
          | Inr m \<Rightarrow> bindG (compare_all P programID (usage_at m) repair categories no_result)
                       (report_missing P programID (map tc_ID categories) m) w2)))"

section \<open>What a reconciliation does\<close>

text \<open>
  \<open>books w\<close> are the rows of the program's categories in the catalog and \<open>left w\<close> the counts in the state store;
  \<open>same_books\<close> calls change neither.
\<close>

definition same_books :: "('w \<Rightarrow> bool) \<Rightarrow> ('w \<Rightarrow> TicketCategory list) \<Rightarrow> ('w \<Rightarrow> int64 \<rightharpoonup> int64) \<Rightarrow> 'w \<Rightarrow> 'w \<Rightarrow> bool" where
  "same_books binv books left w w' \<longleftrightarrow> binv w' \<and> books w' = books w \<and> left w' = left w"

definition set_row :: "int64 \<Rightarrow> int64 \<Rightarrow> TicketCategory \<Rightarrow> TicketCategory" where
  "set_row c v x = (if tc_ID x = c then x\<lparr>tc_Remain := v\<rparr> else x)"

definition expected_remain :: "(int64 \<Rightarrow> int64) \<Rightarrow> TicketCategory \<Rightarrow> int64" where
  "expected_remain usage c = wrap64 (tc_Total c - usage (tc_ID c))"

definition balanced :: "(int64 \<Rightarrow> int64) \<Rightarrow> (int64 \<rightharpoonup> int64) \<Rightarrow> TicketCategory \<Rightarrow> bool" where
  "balanced usage lft c \<longleftrightarrow> 0 \<le> expected_remain usage c \<and> lft (tc_ID c) = Some (expected_remain usage c) \<and> tc_Remain c = expected_remain usage c"

text \<open>A row and a count after the repair: as expected, unless the orders occupy more than there is.\<close>

definition repaired_row :: "(int64 \<Rightarrow> int64) \<Rightarrow> TicketCategory \<Rightarrow> TicketCategory" where
  "repaired_row usage c = (if 0 \<le> expected_remain usage c then c\<lparr>tc_Remain := expected_remain usage c\<rparr> else c)"

definition repaired_left :: "(int64 \<Rightarrow> int64) \<Rightarrow> TicketCategory list \<Rightarrow> (int64 \<rightharpoonup> int64) \<Rightarrow> int64 \<rightharpoonup> int64" where
  "repaired_left usage cs lft i = (case List.find (\<lambda>c. tc_ID c = i) cs of
     Some c \<Rightarrow> if 0 \<le> expected_remain usage c then Some (expected_remain usage c) else lft i
   | None \<Rightarrow> lft i)"

definition counts_ok :: "InventoryReconciliationResult \<Rightarrow> bool" where
  "counts_ok res \<longleftrightarrow> irr_MismatchCount res = int (length (irr_Differences res))
     \<and> irr_RepairedCount res = int (length (filter idf_Repaired (irr_Differences res)))"

lemma counts_add: "counts_ok res \<Longrightarrow> counts_ok (add_difference d res)"
  by (simp add: counts_ok_def add_difference_def)

definition repaired_rows :: "(int64 \<Rightarrow> int64) \<Rightarrow> TicketCategory list \<Rightarrow> TicketCategory list \<Rightarrow> TicketCategory list" where
  "repaired_rows usage cs rows = map (\<lambda>x. if tc_ID x \<in> tc_ID ` set cs then repaired_row usage x else x) rows"

lemma find_id_None: "i \<notin> tc_ID ` set cs \<Longrightarrow> List.find (\<lambda>c. tc_ID c = i) cs = None"
  by (auto simp: find_None_iff)

lemma repaired_left_Cons:
  assumes "tc_ID c \<notin> tc_ID ` set cs"
  shows "0 \<le> expected_remain usage c \<Longrightarrow>
      repaired_left usage cs (lft(tc_ID c \<mapsto> expected_remain usage c)) = repaired_left usage (c # cs) lft"
    and "expected_remain usage c < 0 \<or> lft (tc_ID c) = Some (expected_remain usage c) \<Longrightarrow>
      repaired_left usage cs lft = repaired_left usage (c # cs) lft"
  using assms by (auto simp: repaired_left_def fun_eq_iff find_id_None split: option.splits)

lemma row_unique: "distinct (map tc_ID rows) \<Longrightarrow> x \<in> set rows \<Longrightarrow> c \<in> set rows \<Longrightarrow> tc_ID x = tc_ID c \<Longrightarrow> x = c"
  by (meson distinct_map inj_onD)

lemma repaired_rows_Cons:
  assumes "distinct (map tc_ID rows)" and "c \<in> set rows" and "tc_ID c \<notin> tc_ID ` set cs"
  shows "0 \<le> expected_remain usage c \<Longrightarrow>
      repaired_rows usage cs (map (set_row (tc_ID c) (expected_remain usage c)) rows) = repaired_rows usage (c # cs) rows"
    and "expected_remain usage c < 0 \<or> tc_Remain c = expected_remain usage c \<Longrightarrow>
      repaired_rows usage cs rows = repaired_rows usage (c # cs) rows"
proof -
  have x: "x = c" if "x \<in> set rows" "tc_ID x = tc_ID c" for x
    using row_unique [OF assms(1) that(1) assms(2) that(2)] .
  show "0 \<le> expected_remain usage c \<Longrightarrow>
      repaired_rows usage cs (map (set_row (tc_ID c) (expected_remain usage c)) rows) = repaired_rows usage (c # cs) rows"
    using assms(3) x unfolding repaired_rows_def by (auto simp: set_row_def repaired_row_def)
  have "repaired_row usage c = c" if "expected_remain usage c < 0 \<or> tc_Remain c = expected_remain usage c"
    using that by (auto simp: repaired_row_def)
  then show "expected_remain usage c < 0 \<or> tc_Remain c = expected_remain usage c \<Longrightarrow>
      repaired_rows usage cs rows = repaired_rows usage (c # cs) rows"
    using assms(3) unfolding repaired_rows_def by (auto dest!: x)
qed

locale inventory_books =
  fixes P :: "'w recon_ports"
    and programID :: int64
    and books :: "'w \<Rightarrow> TicketCategory list"
    and left :: "'w \<Rightarrow> int64 \<rightharpoonup> int64"
    and binv :: "'w \<Rightarrow> bool"
  assumes list_rows: "binv w \<Longrightarrow> rp_ListTicketCategories P programID w = (rc, w') \<Longrightarrow>
      same_books binv books left w w' \<and> (\<forall>cs. rc = Inr cs \<longrightarrow> cs = books w)"
    and rows_distinct: "binv w \<Longrightarrow> distinct (map tc_ID (books w))"
    and get_count: "binv w \<Longrightarrow> rp_GetRemain P programID c w = (rg, w') \<Longrightarrow>
      same_books binv books left w w' \<and> (\<forall>v x. rg = Inr (v, x) \<longrightarrow> (x \<longleftrightarrow> left w c \<noteq> None) \<and> (x \<longrightarrow> left w c = Some v))"
    and set_rows: "binv w \<Longrightarrow> in64 v \<Longrightarrow> rp_UpdateTicketCategoryRemain P c v w = (Inr (), w') \<Longrightarrow>
      binv w' \<and> books w' = map (set_row c v) (books w) \<and> left w' = left w"
    and set_count: "binv w \<Longrightarrow> in64 v \<Longrightarrow> rp_SetRemain P programID c v w = (Inr (), w') \<Longrightarrow>
      binv w' \<and> books w' = books w \<and> left w' = (left w)(c \<mapsto> v)"
    and active_quiet: "binv w \<Longrightarrow> rp_HasActiveReservations P = Some check \<Longrightarrow> same_books binv books left w (snd (check programID w))"
    and save_quiet: "binv w \<Longrightarrow> rp_SaveRecord P = Some save \<Longrightarrow> same_books binv books left w (snd (save rec w))"
    and ident_quiet: "binv w \<Longrightarrow> rp_NextID P = Some nextID \<Longrightarrow> same_books binv books left w (snd (nextID w))"
begin

abbreviation same :: "'w \<Rightarrow> 'w \<Rightarrow> bool" where
  "same \<equiv> same_books binv books left"

lemma saveRecord_quiet: "binv w \<Longrightarrow> same w (snd (saveRecord P programID d w))"
proof (cases "(rp_SaveRecord P, rp_NextID P)")
  case (Pair so no)
  assume inv: "binv w"
  show ?thesis
  proof (cases "so = None \<or> no = None")
    case True
    with Pair inv show ?thesis by (auto simp: saveRecord_def go_simps same_books_def split: option.splits)
  next
    case False
    then obtain save nextID where sn: "rp_SaveRecord P = Some save" "rp_NextID P = Some nextID" using Pair by auto
    obtain r1 w1 where n: "nextID w = (r1, w1)" by (cases "nextID w")
    with ident_quiet [OF inv sn(2)] have s: "same w w1" by simp
    then have i1: "binv w1" by (simp add: same_books_def)
    with s save_quiet [OF i1 sn(1)] n sn show ?thesis
      by (cases r1) (auto simp: saveRecord_def bindG_def go_simps same_books_def)
  qed
qed

text \<open>One category: what is compared, and what is written.\<close>

lemma compareCategory_result:
  assumes inv: "binv w" and run: "compareCategory P programID c (usage (tc_ID c)) repair w = ((d, m, None), w')"
  shows "binv w' \<and> (m \<longleftrightarrow> \<not> balanced usage (left w) c) \<and> (m \<longrightarrow> idf_TicketCategoryID d = tc_ID c)
    \<and> (if repair \<and> m \<and> 0 \<le> expected_remain usage c
       then books w' = map (set_row (tc_ID c) (expected_remain usage c)) (books w)
         \<and> left w' = (left w)(tc_ID c \<mapsto> expected_remain usage c)
       else books w' = books w \<and> left w' = left w)"
proof -
  let ?e = "expected_remain usage c"
  have e64: "in64 ?e" by (simp add: expected_remain_def wrap64_in64)
  from run obtain v x w1 where g: "rp_GetRemain P programID (tc_ID c) w = (Inr (v, x), w1)"
    by (auto simp: compareCategory_def Let_def split: prod.splits sum.splits)
  note gc = get_count [OF inv g]
  have s1: "binv w1" "books w1 = books w" "left w1 = left w" using gc by (auto simp: same_books_def)
  have bal: "x \<and> v = ?e \<and> tc_Remain c = ?e \<longleftrightarrow> left w (tc_ID c) = Some ?e \<and> tc_Remain c = ?e" using gc by auto
  show ?thesis
  proof (cases "?e < 0 \<or> (x \<and> v = ?e \<and> tc_Remain c = ?e) \<or> \<not> repair")
    case True
    with run g have "w' = w1" and "m \<longleftrightarrow> ?e < 0 \<or> \<not> (x \<and> v = ?e \<and> tc_Remain c = ?e)"
      and "m \<longrightarrow> idf_TicketCategoryID d = tc_ID c"
      by (auto simp: compareCategory_def Let_def expected_remain_def split: if_splits)
    with True s1 bal show ?thesis by (auto simp: balanced_def)
  next
    case False
    with run g obtain w2 where u: "rp_UpdateTicketCategoryRemain P (tc_ID c) ?e w1 = (Inr (), w2)"
      and t: "rp_SetRemain P programID (tc_ID c) ?e w2 = (Inr (), w')" and m: "m" and d: "idf_TicketCategoryID d = tc_ID c"
      by (auto simp: compareCategory_def Let_def expected_remain_def split: if_splits prod.splits sum.splits)
    from set_rows [OF s1(1) e64 u] have s2: "binv w2" "books w2 = map (set_row (tc_ID c) ?e) (books w1)" "left w2 = left w1" by auto
    from set_count [OF s2(1) e64 t] s2 s1 m d False bal show ?thesis by (auto simp: balanced_def)
  qed
qed

lemma compare_all_result:
  assumes "binv w" and "distinct (map tc_ID cs)" and "set cs \<subseteq> set (books w)" and "counts_ok res"
    and "compare_all P programID usage repair cs res w = (Inr res', w')"
  shows "binv w' \<and> counts_ok res'
    \<and> books w' = (if repair then repaired_rows usage cs (books w) else books w)
    \<and> left w' = (if repair then repaired_left usage cs (left w) else left w)
    \<and> map idf_TicketCategoryID (irr_Differences res') =
        map idf_TicketCategoryID (irr_Differences res) @ map tc_ID (filter (\<lambda>c. \<not> balanced usage (left w) c) cs)"
  using assms
proof (induction cs arbitrary: res w)
  case Nil
  then show ?case by (auto simp: repaired_rows_def repaired_left_def fun_eq_iff)
next
  case (Cons c cs)
  obtain d m err w1 where cc: "compareCategory P programID c (usage (tc_ID c)) repair w = ((d, m, err), w1)" by (metis prod.exhaust)
  have err: "err = None"
    using Cons.prems(5) cc by (cases err) (auto simp: Let_def split: if_splits prod.splits sum.splits)
  note one = compareCategory_result [where usage = usage and c = c, OF Cons.prems(1) cc [unfolded err]]
  define w2 where "w2 = (if m then snd (saveRecord P programID d w1) else w1)"
  have s2: "same w1 w2" using saveRecord_quiet [of w1 d] one by (simp add: w2_def same_books_def)
  define res1 where "res1 = (if m then add_difference d res else res)"
  have rest: "compare_all P programID usage repair cs res1 w2 = (Inr res', w')"
    using Cons.prems(5) cc err by (auto simp: res1_def w2_def Let_def split: if_splits prod.splits sum.splits)
  have c: "c \<in> set (books w)" "tc_ID c \<notin> tc_ID ` set cs" and rows: "distinct (map tc_ID (books w))"
    using Cons.prems(2,3) rows_distinct [OF Cons.prems(1)] by auto
  let ?fix = "repair \<and> m \<and> 0 \<le> expected_remain usage c"
  have b2: "books w2 = (if ?fix then map (set_row (tc_ID c) (expected_remain usage c)) (books w) else books w)"
    and l2: "left w2 = (if ?fix then (left w)(tc_ID c \<mapsto> expected_remain usage c) else left w)" and i2: "binv w2"
    using one s2 by (auto simp: same_books_def)
  have sub: "set cs \<subseteq> set (books w2)"
  proof
    fix x assume x: "x \<in> set cs"
    with c(2) have "tc_ID x \<noteq> tc_ID c" by (metis image_eqI)
    then have "set_row (tc_ID c) (expected_remain usage c) x = x" by (simp add: set_row_def)
    with x Cons.prems(3) show "x \<in> set (books w2)" unfolding b2 by (auto simp: image_iff) (metis subsetD)
  qed
  have bal: "balanced usage (left w2) x \<longleftrightarrow> balanced usage (left w) x" if "x \<in> set cs" for x
  proof -
    have "tc_ID x \<noteq> tc_ID c" using that c(2) by (metis image_eqI)
    then show ?thesis by (simp add: l2 balanced_def)
  qed
  have keep: "\<not> ?fix \<Longrightarrow> repair \<Longrightarrow> expected_remain usage c < 0 \<or> tc_Remain c = expected_remain usage c \<and> left w (tc_ID c) = Some (expected_remain usage c)"
    using one by (auto simp: balanced_def)
  from Cons.IH [OF i2 _ sub _ rest] Cons.prems(2,4) have ih: "binv w'" "counts_ok res'"
    "books w' = (if repair then repaired_rows usage cs (books w2) else books w2)"
    "left w' = (if repair then repaired_left usage cs (left w2) else left w2)"
    "map idf_TicketCategoryID (irr_Differences res') =
        map idf_TicketCategoryID (irr_Differences res1) @ map tc_ID (filter (\<lambda>c. \<not> balanced usage (left w2) c) cs)"
    by (auto simp: res1_def counts_add)
  have "books w' = (if repair then repaired_rows usage (c # cs) (books w) else books w)"
    using ih(3) b2 keep repaired_rows_Cons [OF rows c] by (cases ?fix) auto
  moreover have "left w' = (if repair then repaired_left usage (c # cs) (left w) else left w)"
    using ih(4) l2 keep repaired_left_Cons [OF c(2), of usage "left w"] by (cases ?fix) auto
  moreover have "filter (\<lambda>c. \<not> balanced usage (left w2) c) cs = filter (\<lambda>c. \<not> balanced usage (left w) c) cs"
    using bal by (auto intro: filter_cong)
  ultimately show ?case using ih one by (auto simp: res1_def add_difference_def)
qed

lemma report_missing_result:
  assumes "binv w" and "counts_ok res" and "report_missing P programID known usages res w = (Inr res', w')"
  shows "same w w' \<and> counts_ok res' \<and> map idf_TicketCategoryID (irr_Differences res') =
    map idf_TicketCategoryID (irr_Differences res) @ filter (\<lambda>i. i \<notin> set known) (map fst usages)"
  using assms
proof (induction usages arbitrary: res w)
  case Nil
  then show ?case by (simp add: same_books_def)
next
  case (Cons u usages)
  obtain i n where u: "u = (i, n)" by (cases u)
  show ?case
  proof (cases "i \<in> set known")
    case True
    with Cons u show ?thesis by simp
  next
    case False
    with Cons.prems(3) u obtain w1 where sv: "saveRecord P programID (missing_category i n) w = (Inr (), w1)"
      and rest: "report_missing P programID known usages (add_difference (missing_category i n) res) w1 = (Inr res', w')"
      by (auto simp: Let_def split: prod.splits sum.splits)
    have s: "same w w1" using saveRecord_quiet [OF Cons.prems(1), of "missing_category i n"] sv by simp
    with Cons.IH [OF _ counts_add [OF Cons.prems(2)] rest] False u show ?thesis
      by (auto simp: same_books_def add_difference_def missing_category_def)
  qed
qed

lemma Reconcile_result:
  assumes inv: "binv w" and run: "Reconcile P programID usages repair w = (Inr res, w')"
  shows "\<exists>m. usage_by_category usages [] = Inr m \<and> binv w' \<and> counts_ok res
    \<and> books w' = (if repair then map (repaired_row (usage_at m)) (books w) else books w)
    \<and> left w' = (if repair then repaired_left (usage_at m) (books w) (left w) else left w)
    \<and> map idf_TicketCategoryID (irr_Differences res) =
        map tc_ID (filter (\<lambda>c. \<not> balanced (usage_at m) (left w) c) (books w)) @ filter (\<lambda>i. i \<notin> tc_ID ` set (books w)) (map fst m)"
proof -
  from run obtain w1 where b: "repair_blocked P programID repair w = (Inr (), w1)"
    by (auto simp: Reconcile_def split: if_splits prod.splits sum.splits)
  have "same w (snd (repair_blocked P programID repair w))"
  proof (cases "(repair, rp_HasActiveReservations P)")
    case (Pair a h)
    then show ?thesis
      using active_quiet [OF inv] inv
      by (cases a; cases h) (auto simp: repair_blocked_def same_books_def bindG_def go_simps split: prod.splits sum.splits)
  qed
  with b have s1: "binv w1" "books w1 = books w" "left w1 = left w" by (auto simp: same_books_def)
  from run b obtain cs w2 where l: "rp_ListTicketCategories P programID w1 = (Inr cs, w2)"
    by (auto simp: Reconcile_def split: if_splits prod.splits sum.splits)
  with list_rows [OF s1(1) l] s1 have s2: "cs = books w" "binv w2" "books w2 = books w" "left w2 = left w" by (auto simp: same_books_def)
  from run b l obtain m res1 w3 where m: "usage_by_category usages [] = Inr m"
    and c: "compare_all P programID (usage_at m) repair cs no_result w2 = (Inr res1, w3)"
    and r: "report_missing P programID (map tc_ID cs) m res1 w3 = (Inr res, w')"
    by (auto simp: Reconcile_def bindG_def split: if_splits prod.splits sum.splits)
  have "counts_ok no_result" by (simp add: counts_ok_def)
  from compare_all_result [OF s2(2) _ _ this c] rows_distinct [OF s2(2)] s2
  have one: "binv w3" "counts_ok res1" "books w3 = (if repair then repaired_rows (usage_at m) (books w) (books w) else books w)"
    "left w3 = (if repair then repaired_left (usage_at m) (books w) (left w) else left w)"
    "map idf_TicketCategoryID (irr_Differences res1) = map tc_ID (filter (\<lambda>c. \<not> balanced (usage_at m) (left w) c) (books w))" by auto
  have "repaired_rows (usage_at m) (books w) (books w) = map (repaired_row (usage_at m)) (books w)"
    by (simp add: repaired_rows_def)
  with one report_missing_result [OF one(1,2) r] m s2 show ?thesis by (auto simp: same_books_def)
qed

end

section \<open>The adapters\<close>

text \<open>\<open>infrastructure/memory/reconciliation_record_repository.go\<close>\<close>

type_synonym ReconciliationRecordRepository = "ReconciliationRecord list"

definition Records_Save :: "ReconciliationRecord \<Rightarrow> (ReconciliationRecordRepository, unit) go" where
  "Records_Save record r = (Inr (), r @ [record])"

definition Records :: "ReconciliationRecordRepository \<Rightarrow> ReconciliationRecord list" where
  "Records r = r"

record recon_world =
  rw_programs :: ProgramRepository
  rw_redis :: keyspace
  rw_scanned :: "string list"
  rw_records :: ReconciliationRecordRepository
  rw_idents :: "int64 list"
  rw_now :: time

abbreviation on_rw_programs :: "('e, ProgramRepository, 'a) prog \<Rightarrow> ('e, recon_world, 'a) prog" where
  "on_rw_programs \<equiv> liftG rw_programs (\<lambda>s. rw_programs_update (\<lambda>_. s))"

abbreviation on_rw_redis :: "('e, keyspace, 'a) prog \<Rightarrow> ('e, recon_world, 'a) prog" where
  "on_rw_redis \<equiv> liftG rw_redis (\<lambda>s. rw_redis_update (\<lambda>_. s))"

definition redis_recon :: "string \<Rightarrow> recon_world recon_ports" where
  "redis_recon keys =
     \<lparr>rp_ListTicketCategories = (\<lambda>p. on_rw_programs (PR_ListTicketCategories p)),
      rp_UpdateTicketCategoryRemain = (\<lambda>c v. on_rw_programs (PR_UpdateTicketCategoryRemain c v)),
      rp_GetRemain = (\<lambda>p c. on_rw_redis (Store_GetRemain keyspace_redis keys p c)),
      rp_SetRemain = (\<lambda>p c v. on_rw_redis (Store_SetRemain keyspace_redis keys p c v)),
      rp_HasActiveReservations = Some (\<lambda>p w. on_rw_redis (HasActiveReservations keyspace_redis (\<lambda>_ s. ((rw_scanned w, None), s)) keys p) w),
      rp_SaveRecord = Some (\<lambda>r. liftG rw_records (\<lambda>s. rw_records_update (\<lambda>_. s)) (Records_Save r)),
      rp_NextID = Some (draw rw_idents (\<lambda>ns. rw_idents_update (\<lambda>_. ns))), rp_now = rw_now\<rparr>"

text \<open>Category ids are unique in the catalog, across programs.\<close>

definition catalog_ids :: "(int64 \<times> TicketCategory list) list \<Rightarrow> int64 list" where
  "catalog_ids m = concat (map (map tc_ID \<circ> snd) m)"

definition redis_count :: "string \<Rightarrow> int64 \<Rightarrow> keyspace \<Rightarrow> int64 \<rightharpoonup> int64" where
  "redis_count keys p s c = (case ks_val s (inventory_key keys p c) of None \<Rightarrow> None | Some v \<Rightarrow> int_val (Some v))"

definition recon_ok :: "string \<Rightarrow> recon_world \<Rightarrow> bool" where
  "recon_ok keys w \<longleftrightarrow> distinct (catalog_ids (pr_categories (rw_programs w))) \<and> keys_ok keys (ks_val (rw_redis w)) (ks_ttl (rw_redis w))"

definition program_rows :: "int64 \<Rightarrow> recon_world \<Rightarrow> TicketCategory list" where
  "program_rows p w = slice_at (pr_categories (rw_programs w)) p"

lemma set_row_ids [simp]: "tc_ID (set_row c v x) = tc_ID x"
  by (simp add: set_row_def)

lemma set_row_other: "c \<notin> tc_ID ` set cs \<Longrightarrow> map (set_row c v) cs = cs"
  by (rule map_idI) (auto simp: set_row_def)

lemma set_remain_rows:
  "set_remain c v cs = (if c \<in> tc_ID ` set cs then Some (map (set_row c v) cs) else None)" if "distinct (map tc_ID cs)"
  using that by (induction cs) (auto simp: set_row_def [of c v] set_row_other image_iff)

lemma set_remain_in_rows:
  "distinct (catalog_ids m) \<Longrightarrow> set_remain_in c v m = Some m' \<Longrightarrow> m' = map (\<lambda>(p, cs). (p, map (set_row c v) cs)) m"
proof (induction m arbitrary: m')
  case (Cons pc m)
  obtain p cs where pc: "pc = (p, cs)" by (cases pc)
  have d: "distinct (map tc_ID cs)" "distinct (catalog_ids m)" "set (map tc_ID cs) \<inter> set (catalog_ids m) = {}"
    using Cons.prems(1) by (auto simp: catalog_ids_def pc)
  show ?case
  proof (cases "c \<in> tc_ID ` set cs")
    case True
    with d(3) have "c \<notin> set (catalog_ids m)" by auto
    then have "map (\<lambda>(p, cs). (p, map (set_row c v) cs)) m = m"
      by (intro map_idI) (auto simp: catalog_ids_def intro!: set_row_other)
    with True Cons.prems(2) d(1) show ?thesis by (auto simp: pc set_remain_rows)
  next
    case False
    with Cons.prems(2) d(1) obtain m1 where "set_remain_in c v m = Some m1" "m' = (p, cs) # m1" by (auto simp: pc set_remain_rows)
    with Cons.IH [OF d(2)] False show ?thesis by (simp add: pc set_row_other)
  qed
qed simp

lemma slice_at_map: "slice_at (map (\<lambda>(p, cs). (p, map f cs)) m) i = map f (slice_at m i)"
  by (induction m) (auto simp: slice_at_def)

lemma catalog_ids_map: "catalog_ids (map (\<lambda>(p, cs). (p, map (set_row c v) cs)) m) = catalog_ids m"
  by (induction m) (auto simp: catalog_ids_def)

lemma slice_distinct: "distinct (catalog_ids m) \<Longrightarrow> distinct (map tc_ID (slice_at m i))"
  by (induction m) (auto simp: slice_at_def catalog_ids_def split: if_splits)

lemma active_among_reads: "snd (active_among R p ks s) = s"
  by (induction ks) (auto split: option.splits)

lemma active_reads: "snd (HasActiveReservations R (\<lambda>_ s. ((ks, None), s)) keys p s) = s"
  using active_among_reads [of R p ks s]
  by (auto simp: HasActiveReservations_def split: prod.splits sum.splits bool.splits)

lemma keys_ok_set_count:
  assumes "keys_ok b m vs" and "in64 v"
  shows "keys_ok b (m(inventory_key b p c \<mapsto> RString (show_int v))) (vs - {inventory_key b p c})"
  using assms by (auto simp: keys_ok_def parse_show_int)

interpretation redis_books: inventory_books "redis_recon keys" p "program_rows p" "\<lambda>w. redis_count keys p (rw_redis w)" "recon_ok keys" for keys p
proof unfold_locales
  fix w w' rc c v rg check save nextID rec
  let ?same = "same_books (recon_ok keys) (program_rows p) (\<lambda>w. redis_count keys p (rw_redis w))"
  note defs = redis_recon_def liftG_def same_books_def
  show "?same w w' \<and> (\<forall>cs. rc = Inr cs \<longrightarrow> cs = program_rows p w)"
    if "recon_ok keys w" "rp_ListTicketCategories (redis_recon keys) p w = (rc, w')"
    using that by (auto simp: defs PR_ListTicketCategories_def program_rows_def)
  show "distinct (map tc_ID (program_rows p w))" if "recon_ok keys w"
    using that by (simp add: recon_ok_def program_rows_def slice_distinct)
  show "?same w w' \<and> (\<forall>v x. rg = Inr (v, x) \<longrightarrow> x = (redis_count keys p (rw_redis w) c \<noteq> None) \<and> (x \<longrightarrow> redis_count keys p (rw_redis w) c = Some v))"
    if "recon_ok keys w" "rp_GetRemain (redis_recon keys) p c w = (rg, w')"
  proof -
    have nh: "\<not> is_hash (ks_val (rw_redis w) (inventory_key keys p c))" using that(1) by (simp add: recon_ok_def keys_ok_def)
    from that(2) nh show ?thesis
      using that(1) by (cases "ks_val (rw_redis w) (inventory_key keys p c)")
        (auto simp: defs Store_GetRemain_def keyspace_redis_def redis_count_def is_hash_def str_val_def split: option.splits rvalue.splits)
  qed
  show "recon_ok keys w' \<and> program_rows p w' = map (set_row c v) (program_rows p w) \<and> redis_count keys p (rw_redis w') = redis_count keys p (rw_redis w)"
    if "recon_ok keys w" "in64 v" "rp_UpdateTicketCategoryRemain (redis_recon keys) c v w = (Inr (), w')"
    using that set_remain_in_rows [of "pr_categories (rw_programs w)" c v]
    by (auto simp: defs PR_UpdateTicketCategoryRemain_def recon_ok_def program_rows_def slice_at_map catalog_ids_map split: option.splits)
  show "recon_ok keys w' \<and> program_rows p w' = program_rows p w \<and> redis_count keys p (rw_redis w') = (redis_count keys p (rw_redis w))(c \<mapsto> v)"
    if "recon_ok keys w" "in64 v" "rp_SetRemain (redis_recon keys) p c v w = (Inr (), w')"
    using that keys_ok_set_count [of keys "ks_val (rw_redis w)" "ks_ttl (rw_redis w)" v p c]
    by (auto simp: defs Store_SetRemain_def recon_ok_def program_rows_def keyspace_redis_def redis_count_def parse_show_int fun_eq_iff)
  show "?same w (snd (check p w))" if "recon_ok keys w" "rp_HasActiveReservations (redis_recon keys) = Some check"
    using that active_reads [of keyspace_redis "rw_scanned w" keys p "rw_redis w"] by (auto simp: defs split_beta)
  show "?same w (snd (save rec w))" if "recon_ok keys w" "rp_SaveRecord (redis_recon keys) = Some save"
    using that by (auto simp: defs Records_Save_def recon_ok_def program_rows_def)
  show "?same w (snd (nextID w))" if "recon_ok keys w" "rp_NextID (redis_recon keys) = Some nextID"
    using that by (auto simp: defs draw_def recon_ok_def program_rows_def split: list.splits)
qed

section \<open>Properties\<close>

text \<open>The tickets that the usages of a category add up to.\<close>

definition occupied :: "InventoryUsage list \<Rightarrow> int64 \<Rightarrow> int64" where
  "occupied usages c = foldl (\<lambda>a u. if iu_TicketCategoryID u = c then wrap64 (a + iu_OccupiedCount u) else a) 0 usages"

lemma usage_by_category_sum:
  assumes "usage_by_category usages m = Inr m'"
  shows "usage_at m' c = foldl (\<lambda>a u. if iu_TicketCategoryID u = c then wrap64 (a + iu_OccupiedCount u) else a) (usage_at m c) usages"
    and "set (map fst m') = set (map fst m) \<union> iu_TicketCategoryID ` set usages"
proof -
  have upd: "usage_at (AList.update k v n) c = (if k = c then v else usage_at n c)" for k v n
    by (simp add: usage_at_def update_conv')
  show "usage_at m' c = foldl (\<lambda>a u. if iu_TicketCategoryID u = c then wrap64 (a + iu_OccupiedCount u) else a) (usage_at m c) usages"
    using assms by (induction usages m rule: usage_by_category.induct) (auto simp: upd split: if_splits)
  show "set (map fst m') = set (map fst m) \<union> iu_TicketCategoryID ` set usages"
    using assms by (induction usages m rule: usage_by_category.induct) (auto simp: dom_update split: if_splits)
qed

lemma occupied_usage: "usage_by_category usages [] = Inr m \<Longrightarrow> usage_at m = occupied usages"
  using usage_by_category_sum(1) [of usages "[]" m] by (auto simp: occupied_def usage_at_def fun_eq_iff)

lemma find_row: "distinct (map tc_ID rows) \<Longrightarrow> c \<in> set rows \<Longrightarrow> List.find (\<lambda>x. tc_ID x = tc_ID c) rows = Some c"
  by (induction rows) auto

lemma balanced_after_repair:
  assumes "distinct (map tc_ID rows)" and "c \<in> set rows"
  shows "balanced usage (repaired_left usage rows lft) (repaired_row usage c) \<longleftrightarrow> 0 \<le> expected_remain usage c"
proof -
  have "List.find (\<lambda>x. tc_ID x = tc_ID c) rows = Some c"
    by (rule find_row [OF assms])
  moreover have "expected_remain usage (repaired_row usage c) = expected_remain usage c" "tc_ID (repaired_row usage c) = tc_ID c"
    by (simp_all add: repaired_row_def expected_remain_def)
  ultimately show ?thesis by (auto simp: balanced_def repaired_left_def repaired_row_def)
qed


text \<open>A category of five tickets with two sold, whose Redis count is one too high and whose row was never updated.\<close>

definition sample_recon :: recon_world where
  "sample_recon = \<lparr>rw_programs = sample_programs, rw_redis = \<lparr>ks_val = [inventory_key ''th'' 7 1 \<mapsto> RString ''4''], ks_ttl = {}\<rparr>,
     rw_scanned = [], rw_records = [], rw_idents = [90, 91], rw_now = 0\<rparr>"

abbreviation sample_usages :: "InventoryUsage list" where
  "sample_usages \<equiv> [\<lparr>iu_TicketCategoryID = 1, iu_OccupiedCount = 2\<rparr>, \<lparr>iu_TicketCategoryID = 9, iu_OccupiedCount = 1\<rparr>]"

lemma sample_recon_ok: "recon_ok ''th'' sample_recon"
proof -
  have "parse_int ''4'' = Some 4" by code_simp
  then show ?thesis by (auto simp: recon_ok_def sample_recon_def sample_programs_def catalog_ids_def keys_ok_def)
qed

lemma sample_recon_run: "\<exists>res w'. Reconcile (redis_recon ''th'') 7 sample_usages True sample_recon = (Inr res, w')"
proof -
  have "parse_int ''4'' = Some 4" by code_simp
  then show ?thesis
    by (simp add: Reconcile_def repair_blocked_def redis_recon_def sample_recon_def sample_programs_def liftG_def bindG_def go_simps HasActiveReservations_def
        PR_ListTicketCategories_def PR_UpdateTicketCategoryRemain_def slice_at_def compareCategory_def Let_def Store_GetRemain_def Store_SetRemain_def
        keyspace_redis_def usage_at_def wrap64_nonneg saveRecord_def draw_def Records_Save_def)
qed


end
