(* ===== verification/Seat_Service.thy ===== *)
theory Seat_Service
  imports Seat_Ledger Order_Commands Reconciliation
begin

text \<open>
  The order service and the program service together. The gRPC handlers of the program service that change seats
  (\<open>src/app/program-service/internal/interfaces/grpc/server.go\<close>), the client through which the order service calls
  them (\<open>src/app/order-service/internal/infrastructure/rpc/program_client.go\<close>), and what follows for the order
  commands of \<open>Order_Commands\<close> when their seat client is that client and the program service keeps its seats in Redis.

  The stubs that gRPC generates are a parameter: the locale \<open>seat_rpc\<close> assumes of a unary call that it runs the
  handler at most once, and exactly once when it returns a reply.
\<close>

section \<open>The handlers\<close>

text \<open>The messages of \<open>program.proto\<close>; a reply \<open>SeatOperationReply\<close> is its field \<open>success\<close>.\<close>

record SeatOperationRequest =
  sor_ProgramId :: int64
  sor_OrderNumber :: int64
  sor_TicketCategoryId :: int64
  sor_SeatIds :: "int64 list"
  sor_TicketUserIds :: "int64 list"
  sor_Count :: int64

record 'w SeatStateService =
  sss_RollbackCreateOrder :: "int64 \<Rightarrow> int64 \<Rightarrow> int64 \<Rightarrow> int64 list \<Rightarrow> int64 list \<Rightarrow> int64 \<Rightarrow> ('w, unit) go"
  sss_ConfirmSeatsSold :: "int64 \<Rightarrow> int64 \<Rightarrow> int64 list \<Rightarrow> int64 list \<Rightarrow> ('w, unit) go"
  sss_ReleaseSeats :: "int64 \<Rightarrow> int64 \<Rightarrow> int64 \<Rightarrow> int64 list \<Rightarrow> int64 list \<Rightarrow> int64 \<Rightarrow> ('w, unit) go"

record 'w program_server =
  srv_createOrders :: "CreateOrderCommand \<Rightarrow> ('w, int64) go"
  srv_seats :: "'w SeatStateService option"
  srv_reservations :: "(CreateOrderCommand \<Rightarrow> int64 \<Rightarrow> int64 \<Rightarrow> ('w, Seat list) go) option"
  srv_reconcile :: "(int64 \<Rightarrow> InventoryUsage list \<Rightarrow> bool \<Rightarrow>
      (error \<times> InventoryReconciliationResult, 'w, InventoryReconciliationResult) prog) option"

text \<open>\<open>count <= 0\<close>, an unset field, stands for the number of seats.\<close>

definition request_count :: "int64 \<Rightarrow> int64 list \<Rightarrow> int64" where
  "request_count count seatIDs = (if count \<le> 0 then int (length seatIDs) else count)"

definition Srv_RollbackCreateOrder :: "'w program_server \<Rightarrow> SeatOperationRequest \<Rightarrow> ('w, bool) go" where
  "Srv_RollbackCreateOrder s req = (case srv_seats s of
     None \<Rightarrow> returnG True
   | Some seats \<Rightarrow>
       bindG (sss_RollbackCreateOrder seats (sor_ProgramId req) (sor_TicketCategoryId req) (sor_OrderNumber req)
           (sor_SeatIds req) (sor_TicketUserIds req) (request_count (sor_Count req) (sor_SeatIds req))) (\<lambda>_. returnG True))"

definition Srv_ReserveCreateOrder :: "'w program_server \<Rightarrow> SeatOperationRequest \<Rightarrow> ('w, bool) go" where
  "Srv_ReserveCreateOrder s req = (case srv_reservations s of
     None \<Rightarrow> failG (New CodeInfrastructure ''create order reservation service is not configured'')
   | Some lockSeats \<Rightarrow>
       bindG (lockSeats \<lparr>cmd_RequestID = [], cmd_UserID = 0, cmd_ProgramID = sor_ProgramId req,
           cmd_TicketCategoryID = sor_TicketCategoryId req, cmd_SeatIDs = sor_SeatIds req, cmd_TicketUserIDs = sor_TicketUserIds req\<rparr>
           (sor_OrderNumber req) (sor_OrderNumber req)) (\<lambda>_. returnG True))"

definition Srv_ConfirmSeatsSold :: "'w program_server \<Rightarrow> SeatOperationRequest \<Rightarrow> ('w, bool) go" where
  "Srv_ConfirmSeatsSold s req = (case srv_seats s of
     None \<Rightarrow> returnG True
   | Some seats \<Rightarrow>
       bindG (sss_ConfirmSeatsSold seats (sor_OrderNumber req) (sor_ProgramId req) (sor_SeatIds req) (sor_TicketUserIds req))
         (\<lambda>_. returnG True))"

definition Srv_ReleaseSeats :: "'w program_server \<Rightarrow> SeatOperationRequest \<Rightarrow> ('w, bool) go" where
  "Srv_ReleaseSeats s req = (case srv_seats s of
     None \<Rightarrow> returnG True
   | Some seats \<Rightarrow>
       bindG (sss_ReleaseSeats seats (sor_OrderNumber req) (sor_ProgramId req) (sor_TicketCategoryId req)
           (sor_SeatIds req) (sor_TicketUserIds req) (request_count (sor_Count req) (sor_SeatIds req))) (\<lambda>_. returnG True))"

definition Srv_CreateOrder :: "'w program_server \<Rightarrow> CreateOrderCommand \<Rightarrow> ('w, int64) go" where
  "Srv_CreateOrder s req = srv_createOrders s req"

text \<open>The reply of \<open>ReconcileInventory\<close> is the result, field by field; a partial result of a failed run is dropped.\<close>

definition Srv_ReconcileInventory ::
  "'w program_server \<Rightarrow> int64 \<times> InventoryUsage list \<times> bool \<Rightarrow> ('w, InventoryReconciliationResult) go" where
  "Srv_ReconcileInventory s req = (case srv_reconcile s of
     None \<Rightarrow> failG (New CodeInfrastructure ''inventory reconciliation service is not configured'')
   | Some reconcile \<Rightarrow> (case req of (programID, usages, repair) \<Rightarrow>
       attemptG (reconcile programID usages repair) (\<lambda>r. case r of Inl (e, _) \<Rightarrow> failG e | Inr result \<Rightarrow> returnG result)))"

section \<open>The client\<close>

record 'w ProgramServiceClient =
  psc_ReconcileInventory :: "int64 \<times> InventoryUsage list \<times> bool \<Rightarrow> ('w, InventoryReconciliationResult) go"
  psc_ConfirmSeatsSold :: "SeatOperationRequest \<Rightarrow> ('w, bool) go"
  psc_ReleaseSeats :: "SeatOperationRequest \<Rightarrow> ('w, bool) go"
  psc_RollbackCreateOrder :: "SeatOperationRequest \<Rightarrow> ('w, bool) go"
  psc_ReserveCreateOrder :: "SeatOperationRequest \<Rightarrow> ('w, bool) go"

text \<open>A call that goes nowhere without a connection, and drops the reply otherwise.\<close>

definition seat_request :: "int64 \<Rightarrow> int64 \<Rightarrow> int64 \<Rightarrow> int64 list \<Rightarrow> int64 list \<Rightarrow> int64 \<Rightarrow> SeatOperationRequest" where
  "seat_request orderNumber programID ticketCategoryID seatIDs ticketUserIDs count =
     \<lparr>sor_ProgramId = programID, sor_OrderNumber = orderNumber, sor_TicketCategoryId = ticketCategoryID,
      sor_SeatIds = seatIDs, sor_TicketUserIds = ticketUserIDs, sor_Count = count\<rparr>"

definition Client_ReconcileInventory ::
  "'w ProgramServiceClient option \<Rightarrow> int64 \<Rightarrow> InventoryUsage list \<Rightarrow> bool \<Rightarrow> ('w, InventoryDifference list \<times> int64) go" where
  "Client_ReconcileInventory c programID usages repair = (case c of
     None \<Rightarrow> returnG ([], 0)
   | Some client \<Rightarrow> bindG (psc_ReconcileInventory client (programID, usages, repair)) (\<lambda>reply.
       returnG (irr_Differences reply, irr_RepairedCount reply)))"

definition Client_ConfirmSeatsSold ::
  "'w ProgramServiceClient option \<Rightarrow> int64 \<Rightarrow> int64 \<Rightarrow> int64 \<Rightarrow> int64 list \<Rightarrow> int64 list \<Rightarrow> ('w, unit) go" where
  "Client_ConfirmSeatsSold c orderNumber programID ticketCategoryID seatIDs ticketUserIDs = (case c of
     None \<Rightarrow> returnG ()
   | Some client \<Rightarrow> bindG (psc_ConfirmSeatsSold client (seat_request orderNumber programID ticketCategoryID seatIDs ticketUserIDs 0))
       (\<lambda>_. returnG ()))"

definition Client_ReleaseSeats ::
  "'w ProgramServiceClient option \<Rightarrow> int64 \<Rightarrow> int64 \<Rightarrow> int64 \<Rightarrow> int64 list \<Rightarrow> int64 list \<Rightarrow> int64 \<Rightarrow> ('w, unit) go" where
  "Client_ReleaseSeats c orderNumber programID ticketCategoryID seatIDs ticketUserIDs count = (case c of
     None \<Rightarrow> returnG ()
   | Some client \<Rightarrow> bindG (psc_ReleaseSeats client (seat_request orderNumber programID ticketCategoryID seatIDs ticketUserIDs count))
       (\<lambda>_. returnG ()))"

definition Client_RollbackCreateOrder ::
  "'w ProgramServiceClient option \<Rightarrow> int64 \<Rightarrow> int64 \<Rightarrow> int64 \<Rightarrow> int64 list \<Rightarrow> int64 list \<Rightarrow> int64 \<Rightarrow> ('w, unit) go" where
  "Client_RollbackCreateOrder c orderNumber programID ticketCategoryID seatIDs ticketUserIDs count = (case c of
     None \<Rightarrow> returnG ()
   | Some client \<Rightarrow> bindG (psc_RollbackCreateOrder client (seat_request orderNumber programID ticketCategoryID seatIDs ticketUserIDs count))
       (\<lambda>_. returnG ()))"

definition Client_ReserveCreateOrder ::
  "'w ProgramServiceClient option \<Rightarrow> int64 \<Rightarrow> int64 \<Rightarrow> int64 \<Rightarrow> int64 list \<Rightarrow> int64 list \<Rightarrow> int64 \<Rightarrow> ('w, unit) go" where
  "Client_ReserveCreateOrder c orderNumber programID ticketCategoryID seatIDs ticketUserIDs count = (case c of
     None \<Rightarrow> returnG ()
   | Some client \<Rightarrow> bindG (psc_ReserveCreateOrder client (seat_request orderNumber programID ticketCategoryID seatIDs ticketUserIDs count))
       (\<lambda>_. returnG ()))"

text \<open>What a unary call does of the handler it is for.\<close>

definition delivers :: "('q \<Rightarrow> ('w, 'a) go) \<Rightarrow> ('q \<Rightarrow> ('w, 'a) go) \<Rightarrow> bool" where
  "delivers stub handler \<longleftrightarrow> (\<forall>q w. case stub q w of
     (Inr x, w') \<Rightarrow> handler q w = (Inr x, w')
   | (Inl e, w') \<Rightarrow> w' = w \<or> w' = snd (handler q w))"

lemma delivers_refl: "delivers handler handler"
  by (auto simp: delivers_def split: prod.splits sum.splits)

lemma delivered:
  assumes "delivers stub handler" and "stub q w = (r, w')"
  shows "(\<exists>x. r = Inr x) \<Longrightarrow> handler q w = (r, w')" and "w' = w \<or> w' = snd (handler q w)"
proof -
  have "case stub q w of (Inr x, w') \<Rightarrow> handler q w = (Inr x, w') | (Inl e, w') \<Rightarrow> w' = w \<or> w' = snd (handler q w)"
    using assms(1) unfolding delivers_def by (elim allE [where x = q] allE [where x = w])
  with assms(2) show "(\<exists>x. r = Inr x) \<Longrightarrow> handler q w = (r, w')" and "w' = w \<or> w' = snd (handler q w)"
    by (cases r; auto)+
qed

section \<open>Order commands on the ledger\<close>

text \<open>
  \<open>lv\<close> is the seat ledger of a world, \<open>linv\<close> its well-formedness. The order repository and the locks leave the
  ledger alone; the seat calls are operations of the ledger, which may have happened when the call fails.
\<close>

definition keeps_ledger :: "('w \<Rightarrow> bool) \<Rightarrow> ('w \<Rightarrow> ledger) \<Rightarrow> ('e, 'w, 'a) prog \<Rightarrow> bool" where
  "keeps_ledger linv lv m \<longleftrightarrow> (\<forall>w. linv w \<longrightarrow> linv (snd (m w)) \<and> lv (snd (m w)) = lv w)"

locale ticket_sales = order_store P ov oinv
  for P :: "'w order_ports" and ov :: "'w \<Rightarrow> int64 \<rightharpoonup> Order" and oinv :: "'w \<Rightarrow> bool" +
  fixes lv :: "'w \<Rightarrow> ledger" and linv :: "'w \<Rightarrow> bool"
  assumes quiet: "keeps_ledger linv lv (op_FindByOrderNumber P n u)" "keeps_ledger linv lv (op_Update P item)"
      "op_FindByOrderNumberSystem P = Some f \<Longrightarrow> keeps_ledger linv lv (f n)"
      "op_locker P = Some (Acquire, Release) \<Longrightarrow> keeps_ledger linv lv (Acquire k ttl)"
      "op_locker P = Some (Acquire, Release) \<Longrightarrow> keeps_ledger linv lv (Release h)"
    and confirm_ledger: "linv w \<Longrightarrow> op_ConfirmSeatsSold P n p c seats tus w = (rs, w') \<Longrightarrow> linv w'
      \<and> (lv w' = lv w \<or> lv w' = snd (ledger_confirm n (order_resources p seats tus) (lv w)))
      \<and> (rs = Inr () \<longrightarrow> (\<exists>k \<ge> 0. ledger_confirm n (order_resources p seats tus) (lv w) = (Some k, lv w')))"
    and release_ledger: "linv w \<Longrightarrow> op_ReleaseSeats P n p c seats tus count w = (rs, w') \<Longrightarrow> linv w'
      \<and> (lv w' = lv w \<or> lv w' = snd (ledger_release n p c (request_count count seats) (order_resources p seats tus) (lv w)))
      \<and> (rs = Inr () \<longrightarrow> (\<exists>k \<ge> 0. ledger_release n p c (request_count count seats) (order_resources p seats tus) (lv w) = (Some k, lv w')))"
begin

text \<open>What is sold stays sold.\<close>

definition sold_kept :: "'w \<Rightarrow> 'w \<Rightarrow> bool" where
  "sold_kept w w' \<longleftrightarrow> (linv w \<longrightarrow> linv w' \<and>
     (\<forall>r n. lg_owner (lv w) r = Some (sold_to n) \<longrightarrow> lg_owner (lv w') r = Some (sold_to n)))"

sublocale sk: state_preorder sold_kept
  by unfold_locales (auto simp: sold_kept_def)

lemma quiet_sold: "keeps_ledger linv lv m \<Longrightarrow> keepsG sold_kept m"
  by (auto simp: keeps_ledger_def keepsG_def sold_kept_def)

lemma ports_sold: "ports_keep sold_kept P"
proof -
  have c: "keepsG sold_kept (op_ConfirmSeatsSold P n p c seats tus)" for n p c seats tus
  proof -
    have "sold_kept w (snd (op_ConfirmSeatsSold P n p c seats tus w))" for w
      using confirm_ledger [where w = w, OF _ surjective_pairing]
      by (fastforce simp: sold_kept_def ledger_confirm_def)
    then show ?thesis by (simp add: keepsG_def)
  qed
  have r: "keepsG sold_kept (op_ReleaseSeats P n p c seats tus count)" for n p c seats tus count
  proof -
    have "sold_kept w (snd (op_ReleaseSeats P n p c seats tus count w))" for w
      using release_ledger [where w = w, OF _ surjective_pairing]
      by (fastforce simp: sold_kept_def ledger_release_def give_back_owner)
    then show ?thesis by (simp add: keepsG_def)
  qed
  show ?thesis unfolding ports_keep_def using c r quiet by (auto intro: quiet_sold)
qed

lemma order_step_sold: "order_step P w w' \<Longrightarrow> sold_kept w w'"
proof (induction rule: order_step.induct)
  case (paid w n u)
  have "keepsG sold_kept (MarkPaid P n u)"
    unfolding MarkPaid_def using ports_sold
    by (intro sk.order_commands_keep(4) sk.keeps_bind sk.order_commands_keep(2) sk.keeps_return) (auto simp: ports_keep_def)
  then show ?case by (simp add: keepsG_def)
qed (use sk.order_commands_keep [OF ports_sold] in \<open>auto simp: keepsG_def\<close>)

lemma confirm_owner: "ledger_confirm n rs l = (Some k, l') \<Longrightarrow> 0 \<le> k \<Longrightarrow> r \<in> set rs \<Longrightarrow> lg_owner l' r = Some (sold_to n)"
  by (auto simp: ledger_confirm_def split: if_splits)

text \<open>A paid callback sells the seats of the order, a cancellation frees them.\<close>

lemma lock_ledger:
  assumes "withOrderLock P n wr fn w = (Inr x, w')" and "oinv w" and "linv w"
  obtains w1 w2 where "oinv w1" "linv w1" "ov w1 = ov w" "lv w1 = lv w" "fn w1 = (Inr x, w2)"
    "linv w2 \<longrightarrow> linv w' \<and> lv w' = lv w2"
proof (cases "op_locker P")
  case None
  with assms that [of w w'] show thesis by (simp add: withOrderLock_def)
next
  case (Some ar)
  then obtain Acquire Release where l: "op_locker P = Some (Acquire, Release)" by (cases ar) auto
  obtain ra w1 where a: "Acquire (''tickethub:order-lock:'' @ show_int n) (op_lockTTL P) w = (ra, w1)" by (metis surj_pair)
  from assms(1) a obtain h where h: "ra = Inr h" by (cases ra) (auto simp: withOrderLock_def l attemptG_def failG_def)
  obtain r2 w2 where f: "fn w1 = (r2, w2)" by (metis surj_pair)
  with h assms(1) a have w': "r2 = Inr x" "w' = snd (Release h w2)" by (auto simp: withOrderLock_def l attemptG_def deferG_def)
  have "linv w1 \<and> lv w1 = lv w" using quiet(4) [OF l] a assms(3) unfolding keeps_ledger_def by (metis snd_conv)
  moreover have "linv w2 \<longrightarrow> linv w' \<and> lv w' = lv w2" using quiet(5) [OF l] w'(2) by (simp add: keeps_ledger_def)
  ultimately show thesis using that [of w1 w2] keeps_state [OF locks_keep(1) [OF l] a assms(2)] f w' by simp
qed

lemma update_ledger: "(if b then returnG () else op_Update P item) w = (x, w') \<Longrightarrow> linv w \<Longrightarrow> linv w' \<and> lv w' = lv w"
  using quiet(2) [of item] unfolding keeps_ledger_def by (cases b) (auto simp: returnG_def dest!: spec [of _ w])

lemma persist_sells:
  assumes "persistPaid P item w = (Inr item', w')" and "linv w" and "ord_OrderNumber item = n"
  shows "linv w' \<and> (\<exists>k \<ge> 0. ledger_confirm n (order_resources (ord_ProgramID item) (ord_SeatIDs item) (ord_TicketUserIDs item)) (lv w) = (Some k, lv w'))"
proof -
  from assms(1) obtain paid w1 where p: "Order_MarkPaid (op_nowFunc P w) item = Inr paid"
    and u: "(if ord_Status item = StatusPaid then returnG () else op_Update P paid) w = (Inr (), w1)"
    and c: "op_ConfirmSeatsSold P (ord_OrderNumber paid) (ord_ProgramID paid) (ord_TicketCategoryID paid)
                    (ord_SeatIDs paid) (ord_TicketUserIDs paid) w1 = (Inr (), w')"
    unfolding persistPaid_def getG_bind
    by (auto simp: failG_def returnG_def split: sum.splits elim!: bindG_result)
  note k = order_evolves_keeps [OF transitions_evolve(1) [OF p, THEN conjunct1]]
  from update_ledger [OF u assms(2)] confirm_ledger [OF _ c] k assms(3) show ?thesis by auto
qed

lemma callback_sells:
  assumes "HandlePaymentCallback P n amount True w = (Inr res, w')" and "oinv w" and "linv w"
    and "ov w n = Some item" and "pcr_Status res = StatusPaid"
  shows "linv w' \<and> (\<forall>r \<in> set (order_resources (ord_ProgramID item) (ord_SeatIDs item) (ord_TicketUserIDs item)).
    lg_owner (lv w') r = Some (sold_to n))"
  using assms(1) [unfolded HandlePaymentCallback_def] assms(2,3)
proof (rule lock_ledger)
  fix w1 w2
  assume w1: "oinv w1" "linv w1" "ov w1 = ov w" "lv w1 = lv w" and w2: "linv w2 \<longrightarrow> linv w' \<and> lv w' = lv w2"
    and run: "(attemptG (findSystemOrder P n) (\<lambda>r. case r of
        Inl e \<Rightarrow> failG (e, zero_callback)
      | Inr current \<Rightarrow>
          (let result = \<lparr>pcr_Status = ord_Status current, pcr_RefundRequired = False, pcr_AmountCent = ord_AmountCent current\<rparr> in
           if amount \<noteq> ord_AmountCent current then
             failG (New CodeInvalidArgument ''payment amount does not match order amount'', result)
           else if \<not> True then returnG result
           else if ord_Status current = StatusCancel then returnG (result\<lparr>pcr_RefundRequired := True\<rparr>)
           else if ord_Status current = StatusRefund then returnG result
           else if ord_Status current \<in> {StatusNoPay, StatusPaid} then
             attemptG (persistPaid P current) (\<lambda>r. case r of
                Inl e \<Rightarrow> failG (e, result)
              | Inr saved \<Rightarrow> returnG (result\<lparr>pcr_Status := ord_Status saved\<rparr>))
           else failG (New CodeOrderStateConflict ''order cannot accept payment callback in current state'', result)))) w1 = (Inr res, w2)"
  then obtain g where g: "op_FindByOrderNumberSystem P = Some g"
    by (auto simp: attemptG_def findSystemOrder_def failG_def split: option.splits)
  with run obtain found w3 where f: "g n w1 = (Inr found, w3)"
    by (auto simp: attemptG_def findSystemOrder_def failG_def split: prod.splits sum.splits)
  from keeps_state [OF system_keeps [OF g] f w1(1)] system_result [OF g w1(1), of n found] f w1(3) assms(4)
  have [simp]: "found = item" and num: "ord_OrderNumber item = n" by auto
  have "linv w3 \<and> lv w3 = lv w1" using quiet(3) [OF g, of n] f w1(2) unfolding keeps_ledger_def by (metis snd_conv)
  moreover from run f g assms(5) obtain item' where "persistPaid P item w3 = (Inr item', w2)"
    by (auto simp: attemptG_def findSystemOrder_def failG_def returnG_def Let_def split: prod.splits sum.splits if_splits)
  ultimately obtain k where "0 \<le> k" "linv w2"
    "ledger_confirm n (order_resources (ord_ProgramID item) (ord_SeatIDs item) (ord_TicketUserIDs item)) (lv w1) = (Some k, lv w2)"
    using persist_sells [OF _ _ num, of w3 item' w2] by auto
  with w2 confirm_owner [of n _ "lv w1" k "lv w2"] show ?thesis by simp
qed

lemma Cancel_frees:
  assumes "Cancel P n u w = (Inr (), w')" and "oinv w" and "linv w" and "ov w n = Some item"
  shows "linv w' \<and> (\<exists>k \<ge> 0. ledger_release n (ord_ProgramID item) (ord_TicketCategoryID item) (Order_TicketCount item)
    (order_resources (ord_ProgramID item) (ord_SeatIDs item) (ord_TicketUserIDs item)) (lv w) = (Some k, lv w'))"
  using assms(1) [unfolded Cancel_def] assms(2,3)
proof (rule lock_ledger)
  fix w1 w2
  assume w1: "oinv w1" "linv w1" "ov w1 = ov w" "lv w1 = lv w" and w2: "linv w2 \<longrightarrow> linv w' \<and> lv w' = lv w2"
    and run: "cancel P n u w1 = (Inr (), w2)"
  from run obtain found w3 canceled w4 where f: "op_FindByOrderNumber P n u w1 = (Inr found, w3)"
    and p: "Order_Cancel (op_nowFunc P w3) found = Inr canceled"
    and upd: "(if ord_Status found = StatusCancel then returnG () else op_Update P canceled) w3 = (Inr (), w4)"
    and rel: "op_ReleaseSeats P (ord_OrderNumber canceled) (ord_ProgramID canceled) (ord_TicketCategoryID canceled)
               (ord_SeatIDs canceled) (ord_TicketUserIDs canceled) (Order_TicketCount canceled) w4 = (Inr (), w2)"
    unfolding cancel_def by (auto simp: getG_def failG_def split: sum.splits elim!: bindG_result)
  from find_run [OF f w1(1)] w1(3) assms(4) have [simp]: "found = item" and num: "ord_OrderNumber item = n" by auto
  note k = order_evolves_keeps [OF transitions_evolve(2) [OF p, THEN conjunct1]]
  have cnt: "Order_TicketCount canceled = Order_TicketCount item" "request_count (Order_TicketCount item) (ord_SeatIDs item) = Order_TicketCount item"
    using k by (simp_all add: Order_TicketCount_def request_count_def)
  have "linv w3 \<and> lv w3 = lv w1" using quiet(1) [of n u] f w1(2) unfolding keeps_ledger_def by (metis snd_conv)
  with update_ledger [OF upd] have "linv w4" "lv w4 = lv w" using w1(4) by auto
  with release_ledger [OF _ rel] w2 k cnt num show ?thesis by auto
qed

end

section \<open>The two services on Redis\<close>

text \<open>
  The world of the order service with the in-memory orders and locks, beside the Redis server of the program service.
  The handlers are wired as in \<open>src/app/program-service/cmd/server/main.go\<close>; the other use cases of the server are
  arguments.
\<close>

record 'r ticket_world = order_world +
  tw_redis :: 'r

abbreviation on_tw_redis :: "('e, 'r, 'a) prog \<Rightarrow> ('e, 'r ticket_world, 'a) prog" where
  "on_tw_redis \<equiv> liftG tw_redis (\<lambda>s. tw_redis_update (\<lambda>_. s))"

definition writer_seats :: "'r redis \<Rightarrow> 'r executor \<Rightarrow> string \<Rightarrow> 'r ticket_world SeatStateService" where
  "writer_seats R exec keys =
     \<lparr>sss_RollbackCreateOrder = (\<lambda>p c n seats tus count. on_tw_redis (Writer_RollbackCreateOrder R exec keys p c n seats tus count)),
      sss_ConfirmSeatsSold = (\<lambda>n p seats tus. on_tw_redis (Writer_ConfirmSeatsSold R exec keys n p seats tus)),
      sss_ReleaseSeats = (\<lambda>n p c seats tus count. on_tw_redis (Writer_ReleaseSeats R exec keys n p c seats tus count))\<rparr>"

definition sales_server ::
  "'r redis \<Rightarrow> 'r executor \<Rightarrow> string \<Rightarrow> int64 \<Rightarrow> (CreateOrderCommand \<Rightarrow> ('r ticket_world, int64) go) \<Rightarrow>
   (int64 \<Rightarrow> InventoryUsage list \<Rightarrow> bool \<Rightarrow> (error \<times> InventoryReconciliationResult, 'r ticket_world, InventoryReconciliationResult) prog) option
   \<Rightarrow> 'r ticket_world program_server" where
  "sales_server R exec keys ttlSec createOrders reconcile =
     \<lparr>srv_createOrders = createOrders, srv_seats = Some (writer_seats R exec keys),
      srv_reservations = Some (\<lambda>cmd n ident. on_tw_redis (Locker_LockSeats R exec keys (lock_ttl ttlSec) cmd n ident)),
      srv_reconcile = reconcile\<rparr>"

definition sales_ports :: "'r ticket_world ProgramServiceClient option \<Rightarrow> 'r ticket_world order_ports" where
  "sales_ports client = memory_ports\<lparr>op_ConfirmSeatsSold := Client_ConfirmSeatsSold client, op_ReleaseSeats := Client_ReleaseSeats client\<rparr>"

text \<open>A client whose calls reach the server.\<close>

definition direct_client :: "'w program_server \<Rightarrow> 'w ProgramServiceClient" where
  "direct_client s = \<lparr>psc_ReconcileInventory = Srv_ReconcileInventory s, psc_ConfirmSeatsSold = Srv_ConfirmSeatsSold s,
     psc_ReleaseSeats = Srv_ReleaseSeats s, psc_RollbackCreateOrder = Srv_RollbackCreateOrder s,
     psc_ReserveCreateOrder = Srv_ReserveCreateOrder s\<rparr>"

locale seat_rpc = seat_store R vw vol exec b
  for R :: "'r redis" and vw :: "'r \<Rightarrow> string \<rightharpoonup> rvalue" and vol :: "'r \<Rightarrow> string set" and exec :: "'r executor" and b :: string +
  fixes client :: "'r ticket_world ProgramServiceClient" and server :: "'r ticket_world program_server"
  assumes wired: "srv_seats server = Some (writer_seats R exec b)"
    and confirm_served: "delivers (psc_ConfirmSeatsSold client) (Srv_ConfirmSeatsSold server)"
    and release_served: "delivers (psc_ReleaseSeats client) (Srv_ReleaseSeats server)"
begin

abbreviation seat_ledger :: "'r ticket_world \<Rightarrow> ledger" where
  "seat_ledger w \<equiv> abs_ledger b (vw (tw_redis w))"

abbreviation redis_ok :: "'r ticket_world \<Rightarrow> bool" where
  "redis_ok w \<equiv> keys_ok b (vw (tw_redis w)) (vol (tw_redis w))"

lemma confirm_state:
  assumes "keys_ok b (vw s) (vol s)"
  shows "keys_ok b (vw (snd (Writer_ConfirmSeatsSold R exec b n p seats tus s))) (vol (snd (Writer_ConfirmSeatsSold R exec b n p seats tus s)))
    \<and> abs_ledger b (vw (snd (Writer_ConfirmSeatsSold R exec b n p seats tus s))) \<in>
        {abs_ledger b (vw s), snd (ledger_confirm n (order_resources p seats tus) (abs_ledger b (vw s)))}"
  unfolding adapter_states(3)
  using exec_state [of "confirmSeatsSoldScript R" "order_key b ''order-lock'' n # resourceKeys b p seats tus" "[show_int n, show_int markerTTL]" s]
    confirm_refines [where p = p and n = n and seats = seats and tus = tus, OF assms markerTTL_ok(2,1) surjective_pairing] assms
  by (auto simp: prod_eq_iff)

lemma release_state:
  assumes "keys_ok b (vw s) (vol s)"
  shows "keys_ok b (vw (snd (Writer_ReleaseSeats R exec b n p c seats tus count s))) (vol (snd (Writer_ReleaseSeats R exec b n p c seats tus count s)))
    \<and> abs_ledger b (vw (snd (Writer_ReleaseSeats R exec b n p c seats tus count s))) \<in>
        {abs_ledger b (vw s), snd (ledger_release n p c count (order_resources p seats tus) (abs_ledger b (vw s)))}"
proof (cases "in64 count")
  case True
  then show ?thesis
    unfolding adapter_states(4)
    using exec_state [of "releaseSeatsScript R" "giveback_keys b ''order-release'' p c n seats tus" "[show_int count, show_int n, show_int markerTTL]" s]
      release_refines [where p = p and c = c and n = n and seats = seats and tus = tus, OF assms True markerTTL_ok(2,1) surjective_pairing] assms
    by (auto simp: prod_eq_iff)
next
  case False
  then have "parse_int (show_int count) = None" by (simp add: parse_shown)
  then have "snd (releaseSeatsScript R (giveback_keys b ''order-release'' p c n seats tus) [show_int count, show_int n, show_int markerTTL] s) = s"
    by (simp add: releaseSeatsScript_def)
  then show ?thesis
    unfolding adapter_states(4)
    using exec_state [of "releaseSeatsScript R" "giveback_keys b ''order-release'' p c n seats tus" "[show_int count, show_int n, show_int markerTTL]" s] assms
    by auto
qed

lemma confirm_handler:
  "Srv_ConfirmSeatsSold server (seat_request n p c seats tus 0) w =
     (case Writer_ConfirmSeatsSold R exec b n p seats tus (tw_redis w) of (r, s) \<Rightarrow> (map_sum id (\<lambda>_. True) r, w\<lparr>tw_redis := s\<rparr>))"
  by (auto simp: Srv_ConfirmSeatsSold_def wired writer_seats_def seat_request_def bindG_def liftG_def go_simps split: prod.splits sum.splits)

lemma release_handler:
  "Srv_ReleaseSeats server (seat_request n p c seats tus count) w =
     (case Writer_ReleaseSeats R exec b n p c seats tus (request_count count seats) (tw_redis w) of
        (r, s) \<Rightarrow> (map_sum id (\<lambda>_. True) r, w\<lparr>tw_redis := s\<rparr>))"
  by (auto simp: Srv_ReleaseSeats_def wired writer_seats_def seat_request_def bindG_def liftG_def go_simps split: prod.splits sum.splits)

lemma client_call:
  assumes "delivers stub handler" and "bindG (stub q) (\<lambda>_. returnG ()) w = (r, w')"
    and "handler q w = (case writer (tw_redis w) of (r, s) \<Rightarrow> (map_sum id (\<lambda>_. True) r, w\<lparr>tw_redis := s\<rparr>))"
  shows "\<exists>s. w' = w\<lparr>tw_redis := s\<rparr> \<and> (s = tw_redis w \<or> s = snd (writer (tw_redis w)))
    \<and> (r = Inr () \<longrightarrow> (\<exists>x. writer (tw_redis w) = (Inr x, s)))"
proof -
  obtain r1 w1 where st: "stub q w = (r1, w1)" by (cases "stub q w")
  with assms(2) have [simp]: "w1 = w'" and r: "r = Inr () \<longleftrightarrow> (\<exists>x. r1 = Inr x)" by (cases r1; auto simp: bindG_def returnG_def)+
  obtain rw s where wr: "writer (tw_redis w) = (rw, s)" by (cases "writer (tw_redis w)")
  note d = delivered [OF assms(1) st]
  show ?thesis
  proof (cases "\<exists>x. r1 = Inr x")
    case True
    with d(1) assms(3) wr r show ?thesis by (intro exI [of _ s]) (cases rw; auto)
  next
    case False
    from d(2) assms(3) wr have "w' = w\<lparr>tw_redis := tw_redis w\<rparr> \<or> w' = w\<lparr>tw_redis := s\<rparr>" by auto
    then show ?thesis
    proof
      assume "w' = w\<lparr>tw_redis := tw_redis w\<rparr>"
      with False r show ?thesis by (intro exI [of _ "tw_redis w"]) simp
    next
      assume "w' = w\<lparr>tw_redis := s\<rparr>"
      with False r wr show ?thesis by (intro exI [of _ s]) simp
    qed
  qed
qed

lemmas confirm_client = client_call [where writer = "Writer_ConfirmSeatsSold R exec b n p seats tus", OF confirm_served _ confirm_handler] for n p seats tus
lemmas release_client = client_call [where writer = "Writer_ReleaseSeats R exec b n p c seats tus (request_count count seats)",
    OF release_served _ release_handler] for n p c seats tus count

lemma confirm_law:
  assumes "redis_ok w" and "Client_ConfirmSeatsSold (Some client) n p c seats tus w = (rs, w')"
  shows "redis_ok w' \<and> (seat_ledger w' = seat_ledger w \<or> seat_ledger w' = snd (ledger_confirm n (order_resources p seats tus) (seat_ledger w)))
    \<and> (rs = Inr () \<longrightarrow> (\<exists>k \<ge> 0. ledger_confirm n (order_resources p seats tus) (seat_ledger w) = (Some k, seat_ledger w')))"
proof -
  from confirm_client [OF assms(2) [unfolded Client_ConfirmSeatsSold_def option.case]] obtain s where s: "w' = w\<lparr>tw_redis := s\<rparr>"
    "s = tw_redis w \<or> s = snd (Writer_ConfirmSeatsSold R exec b n p seats tus (tw_redis w))"
    "rs = Inr () \<longrightarrow> Writer_ConfirmSeatsSold R exec b n p seats tus (tw_redis w) = (Inr (), s)" by auto
  from s(3) confirm_call [OF assms(1), of n p seats tus s] confirm_state [OF assms(1), of n p seats tus] s(2) assms(1) show ?thesis
    unfolding s(1) by auto
qed

lemma release_law:
  assumes "redis_ok w" and "Client_ReleaseSeats (Some client) n p c seats tus count w = (rs, w')"
  shows "redis_ok w' \<and> (seat_ledger w' = seat_ledger w
       \<or> seat_ledger w' = snd (ledger_release n p c (request_count count seats) (order_resources p seats tus) (seat_ledger w)))
    \<and> (rs = Inr () \<longrightarrow> (\<exists>k \<ge> 0. ledger_release n p c (request_count count seats) (order_resources p seats tus) (seat_ledger w) = (Some k, seat_ledger w')))"
proof -
  let ?c = "request_count count seats"
  from release_client [OF assms(2) [unfolded Client_ReleaseSeats_def option.case]] obtain s where s: "w' = w\<lparr>tw_redis := s\<rparr>"
    "s = tw_redis w \<or> s = snd (Writer_ReleaseSeats R exec b n p c seats tus ?c (tw_redis w))"
    "rs = Inr () \<longrightarrow> Writer_ReleaseSeats R exec b n p c seats tus ?c (tw_redis w) = (Inr (), s)" by auto
  have "in64 ?c" if "Writer_ReleaseSeats R exec b n p c seats tus ?c (tw_redis w) = (Inr (), s)"
  proof -
    from that obtain rep where "exec (releaseSeatsScript R) (giveback_keys b ''order-release'' p c n seats tus)
       [show_int ?c, show_int n, show_int markerTTL] (tw_redis w) = (Inr rep, s)"
      by (auto simp: Writer_ReleaseSeats_def attemptG_def go_simps split: prod.splits sum.splits if_splits)
    from exec_reply [OF this] show ?thesis by (auto simp: releaseSeatsScript_def parse_shown split: if_splits)
  qed
  with s(3) release_call [OF assms(1), of ?c n p c seats tus s] release_state [OF assms(1), of n p c seats tus ?c] s(2) assms(1) show ?thesis
    unfolding s(1) by auto
qed

lemma seat_calls_keep_orders:
  "ow_orders (snd (Client_ConfirmSeatsSold (Some client) n p c seats tus w)) = ow_orders w"
  "ow_orders (snd (Client_ReleaseSeats (Some client) n p c seats tus count w)) = ow_orders w"
  using confirm_client [where w = w and c = c, OF surjective_pairing, of n p seats tus]
    release_client [where w = w, OF surjective_pairing, of n p c seats tus count]
  unfolding Client_ConfirmSeatsSold_def Client_ReleaseSeats_def option.case by auto

end

lemma sales_ports_simps [simp]:
  "op_FindByOrderNumber (sales_ports c) = op_FindByOrderNumber memory_ports"
  "op_FindByOrderNumberSystem (sales_ports c) = op_FindByOrderNumberSystem memory_ports"
  "op_Update (sales_ports c) = op_Update memory_ports" "op_nowFunc (sales_ports c) = op_nowFunc memory_ports"
  "op_locker (sales_ports c) = op_locker memory_ports"
  "op_ConfirmSeatsSold (sales_ports c) = Client_ConfirmSeatsSold c" "op_ReleaseSeats (sales_ports c) = Client_ReleaseSeats c"
  by (simp_all add: sales_ports_def)

text \<open>The in-memory repository and locks do not reach the Redis server.\<close>

definition same_redis :: "'r ticket_world \<Rightarrow> 'r ticket_world \<Rightarrow> bool" where
  "same_redis w w' \<longleftrightarrow> tw_redis w' = tw_redis w"

lemma memory_ports_same_redis: "ports_keep same_redis (memory_ports :: 'r ticket_world order_ports)"
  by (auto simp: ports_keep_def memory_ports_def keepsG_def same_redis_def liftG_def world_Acquire_def ProgramClient_nil_def returnG_def
      split: prod.splits)

sublocale seat_rpc \<subseteq> sales: ticket_sales "sales_ports (Some client)" "\<lambda>w. map_of (ow_orders w)" "\<lambda>w. repo_ok (ow_orders w)" seat_ledger redis_ok
proof (unfold_locales, unfold sales_ports_simps)
  fix n u p c seats tus count k ttl h item e Acquire Release f rs and w w' :: "'r ticket_world"
  let ?ov = "\<lambda>w :: 'r ticket_world. map_of (ow_orders w)" and ?oinv = "\<lambda>w :: 'r ticket_world. repo_ok (ow_orders w)"
  let ?M = "memory_ports :: 'r ticket_world order_ports"
  note quiet = memory_ports_same_redis [where 'r = 'r, unfolded ports_keep_def]
  show "keeps_orders ?oinv ?ov (Client_ConfirmSeatsSold (Some client) n p c seats tus)"
    "keeps_orders ?oinv ?ov (Client_ReleaseSeats (Some client) n p c seats tus count)"
    by (simp_all add: keeps_orders_def seat_calls_keep_orders)
  show "keeps_orders ?oinv ?ov (op_FindByOrderNumber ?M n u)" by (rule memory_orders.find_keeps)
  show "?oinv w \<Longrightarrow> fst (op_FindByOrderNumber ?M n u w) = Inr item \<Longrightarrow> ?ov w n = Some item \<and> ord_OrderNumber item = n \<and> ord_UserID item = u"
    by (rule memory_orders.find_result)
  show "op_FindByOrderNumberSystem ?M = Some f \<Longrightarrow> keeps_orders ?oinv ?ov (f n)" by (rule memory_orders.system_keeps)
  show "op_FindByOrderNumberSystem ?M = Some f \<Longrightarrow> ?oinv w \<Longrightarrow> fst (f n w) = Inr item \<Longrightarrow> ?ov w n = Some item \<and> ord_OrderNumber item = n"
    by (rule memory_orders.system_result)
  show "?oinv w \<Longrightarrow> ?oinv (snd (op_Update ?M item w))" by (rule memory_orders.update_inv)
  show "?oinv w \<Longrightarrow> fst (op_Update ?M item w) = Inr () \<Longrightarrow> ?ov (snd (op_Update ?M item w)) = (?ov w)(ord_OrderNumber item \<mapsto> item)"
    by (rule memory_orders.update_ok)
  show "?oinv w \<Longrightarrow> fst (op_Update ?M item w) = Inl e \<Longrightarrow> ?ov (snd (op_Update ?M item w)) \<in> {?ov w, (?ov w)(ord_OrderNumber item \<mapsto> item)}"
    by (rule memory_orders.update_err)
  show "op_locker ?M = Some (Acquire, Release) \<Longrightarrow> keeps_orders ?oinv ?ov (Acquire k ttl)"
    "op_locker ?M = Some (Acquire, Release) \<Longrightarrow> keeps_orders ?oinv ?ov (Release h)" by (rule memory_orders.locks_keep, assumption)+
  have kl: "keeps_ledger redis_ok seat_ledger m" if "keepsG same_redis m" for m :: "('e, 'r ticket_world, 'a) prog"
    using that by (simp add: keepsG_def same_redis_def keeps_ledger_def)
  show "keeps_ledger redis_ok seat_ledger (op_FindByOrderNumber ?M n u)" "keeps_ledger redis_ok seat_ledger (op_Update ?M item)"
    "op_FindByOrderNumberSystem ?M = Some f \<Longrightarrow> keeps_ledger redis_ok seat_ledger (f n)"
    "op_locker ?M = Some (Acquire, Release) \<Longrightarrow> keeps_ledger redis_ok seat_ledger (Acquire k ttl)"
    "op_locker ?M = Some (Acquire, Release) \<Longrightarrow> keeps_ledger redis_ok seat_ledger (Release h)"
    using quiet by (auto intro!: kl)
qed (use confirm_law release_law in blast)+

interpretation keyspace_sales: seat_rpc keyspace_redis ks_val ks_ttl direct_exec b
    "direct_client (sales_server keyspace_redis direct_exec b ttl createOrders reconcile)"
    "sales_server keyspace_redis direct_exec b ttl createOrders reconcile" for b ttl createOrders reconcile
  by unfold_locales (simp_all add: sales_server_def direct_client_def delivers_refl)

section \<open>Properties\<close>

text \<open>
  What happens in the two services: order commands, calls of the seat adapters for any order (purchases, roll-backs,
  releases), keys that expire, and time that passes.
\<close>

inductive sales_step ::
  "'r redis \<Rightarrow> 'r executor \<Rightarrow> string \<Rightarrow> ('r \<Rightarrow> string \<rightharpoonup> rvalue) \<Rightarrow> ('r \<Rightarrow> string set) \<Rightarrow> 'r ticket_world order_ports
   \<Rightarrow> 'r ticket_world \<Rightarrow> 'r ticket_world \<Rightarrow> bool" for R exec b vw vol P where
  command: "order_step P w w' \<Longrightarrow> sales_step R exec b vw vol P w w'"
| seats: "seat_step R exec b vw vol (tw_redis w) s \<Longrightarrow> sales_step R exec b vw vol P w (w\<lparr>tw_redis := s\<rparr>)"
| clock: "sales_step R exec b vw vol P w (w\<lparr>ow_now := t\<rparr>)"

inductive_cases sales_stepE: "sales_step R exec b vw vol P w w'"

lemma ledger_release_ok:
  assumes "ledger_release n p c count rs l = (Some k, l')" and "0 \<le> k"
  shows "(\<forall>r \<in> set rs. lg_owner l r \<in> {None, Some (locked_by n)}) \<and> n \<in> lg_released l' \<and>
    (if n \<in> lg_released l then l' = l
     else lg_owner l' = (\<lambda>r. if r \<in> set rs then None else lg_owner l r) \<and> \<not> has_lock l' n
       \<and> remaining l' = (remaining l)((p, c) := remaining l (p, c) + count))"
  using assms by (auto simp: ledger_release_def ledger_give_back_def has_lock_def remaining_def fun_eq_iff split: if_splits)

context seat_rpc
begin

abbreviation sales_run :: "'r ticket_world \<Rightarrow> 'r ticket_world \<Rightarrow> bool" where
  "sales_run \<equiv> (sales_step R exec b vw vol (sales_ports (Some client)))\<^sup>*\<^sup>*"

lemma sales_run_keeps:
  assumes "sales_run w w'" and "repo_ok (ow_orders w)" and "redis_ok w"
  shows "repo_ok (ow_orders w') \<and> redis_ok w' \<and> rel_option order_evolves (map_of (ow_orders w) m) (map_of (ow_orders w') m)
    \<and> (\<forall>r k. lg_owner (seat_ledger w) r = Some (sold_to k) \<longrightarrow> lg_owner (seat_ledger w') r = Some (sold_to k))"
  using assms(1)
proof (induction rule: rtranclp_induct)
  case base
  show ?case using assms by (simp add: option.rel_refl)
next
  case (step v w')
  then have v: "repo_ok (ow_orders v)" "redis_ok v" by auto
  from step.hyps(2) have "repo_ok (ow_orders w') \<and> redis_ok w' \<and> rel_option order_evolves (map_of (ow_orders v) m) (map_of (ow_orders w') m)
    \<and> (\<forall>r k. lg_owner (seat_ledger v) r = Some (sold_to k) \<longrightarrow> lg_owner (seat_ledger w') r = Some (sold_to k))"
  proof (rule sales_stepE)
    assume c: "order_step (sales_ports (Some client)) v w'"
    have "sales.evolves v w'" by (rule sales.steps_evolve) (rule r_into_rtranclp [of "order_step (sales_ports (Some client))", OF c])
    with sales.order_step_sold [OF c] v show ?thesis by (simp add: sales.sold_kept_def sales.evolves_def)
  next
    fix s assume s: "w' = v\<lparr>tw_redis := s\<rparr>" "seat_step R exec b vw vol (tw_redis v) s"
    from seat_step_simulated [OF s(2) v(2)] run_sold [OF r_into_rtranclp [of "seat_step R exec b vw vol", OF s(2)] v(2)] v
    show ?thesis unfolding s(1) by (simp add: simulated_def option.rel_refl)
  next
    fix t assume "w' = v\<lparr>ow_now := t\<rparr>"
    with v show ?thesis by (simp add: option.rel_refl)
  qed
  with step.IH show ?case by (meson sales.rel_option_evolves_trans)
qed

lemma callback_sold_forever:
  assumes "repo_ok (ow_orders w)" and "redis_ok w" and "HandlePaymentCallback (sales_ports (Some client)) n amount True w = (Inr res, w1)"
    and "pcr_Status res = StatusPaid" and "sales_run w1 w2"
  shows "\<exists>item item2. map_of (ow_orders w) n = Some item \<and> map_of (ow_orders w2) n = Some item2 \<and> ord_Status item2 = StatusPaid
    \<and> (\<forall>r \<in> set (order_resources (ord_ProgramID item) (ord_SeatIDs item) (ord_TicketUserIDs item)).
         lg_owner (seat_ledger w2) r = Some (sold_to n))"
proof -
  from sales.callback_result [OF assms(3,1)] assms(4) obtain item item1 where i: "map_of (ow_orders w) n = Some item"
    "map_of (ow_orders w1) n = Some item1" "ord_Status item1 = StatusPaid" by auto
  from sales.callback_sells [OF assms(3,1,2) i(1) assms(4)] have sold: "redis_ok w1"
    "\<forall>r \<in> set (order_resources (ord_ProgramID item) (ord_SeatIDs item) (ord_TicketUserIDs item)). lg_owner (seat_ledger w1) r = Some (sold_to n)" by auto
  have "repo_ok (ow_orders w1)"
    using sales.commands_evolve(4) [of n amount True] assms(1,3) by (metis keepsG_def sales.evolves_def snd_conv)
  from sales_run_keeps [OF assms(5) this sold(1), of n] i sold(2) show ?thesis
    by (auto simp: option_rel_Some1 order_evolves_def status_reach_def)
qed

lemma Cancel_keeps_inv:
  assumes "repo_ok (ow_orders w)" and "Cancel (sales_ports (Some client)) n u w = (r, w')"
  shows "repo_ok (ow_orders w')"
  using sales.commands_evolve(1) [of n u] assms by (metis keepsG_def sales.evolves_def snd_conv)

lemma cancel_effect:
  assumes "repo_ok (ow_orders w)" and "redis_ok w" and "Cancel (sales_ports (Some client)) n u w = (Inr (), w')"
  shows "\<exists>item item'. map_of (ow_orders w) n = Some item \<and> map_of (ow_orders w') n = Some item' \<and> ord_Status item' = StatusCancel
    \<and> (let rs = order_resources (ord_ProgramID item) (ord_SeatIDs item) (ord_TicketUserIDs item);
           pc = (ord_ProgramID item, ord_TicketCategoryID item) in
       (\<forall>r \<in> set rs. lg_owner (seat_ledger w) r \<in> {None, Some (locked_by n)})
       \<and> (if n \<in> lg_released (seat_ledger w) then seat_ledger w' = seat_ledger w
          else lg_owner (seat_ledger w') = (\<lambda>r. if r \<in> set rs then None else lg_owner (seat_ledger w) r) \<and> \<not> has_lock (seat_ledger w') n
            \<and> remaining (seat_ledger w') = (remaining (seat_ledger w))(pc := remaining (seat_ledger w) pc + Order_TicketCount item)))
    \<and> (\<forall>w2. Cancel (sales_ports (Some client)) n u w' = (Inr (), w2) \<longrightarrow> seat_ledger w2 = seat_ledger w')"
proof -
  from sales.Cancel_result [OF assms(3,1)] obtain item item' where i: "map_of (ow_orders w) n = Some item"
    "map_of (ow_orders w') n = Some item'" "ord_Status item' = StatusCancel" by auto
  from sales.Cancel_frees [OF assms(3,1,2) i(1)] obtain k where k: "redis_ok w'" "0 \<le> k" and
    rel: "ledger_release n (ord_ProgramID item) (ord_TicketCategoryID item) (Order_TicketCount item)
      (order_resources (ord_ProgramID item) (ord_SeatIDs item) (ord_TicketUserIDs item)) (seat_ledger w) = (Some k, seat_ledger w')" by blast
  note eff = ledger_release_ok [OF rel k(2)]
  have again: "seat_ledger w2 = seat_ledger w'" if "Cancel (sales_ports (Some client)) n u w' = (Inr (), w2)" for w2
    using sales.Cancel_frees [OF that Cancel_keeps_inv [OF assms(1,3)] k(1) i(2)] eff by (auto dest!: ledger_release_ok simp del: abs_ledger_simps)
  from i eff again show ?thesis unfolding Let_def by (intro exI [of _ item] exI [of _ item']) (simp del: abs_ledger_simps)
qed

end

definition sample_sales :: "keyspace ticket_world" where
  "sample_sales = order_world.extend sample_world
     \<lparr>tw_redis = snd (Locker_LockSeats keyspace_redis direct_exec ''th'' 900 demo_cmd 42 5 demo_store)\<rparr>"

abbreviation sample_server :: "keyspace ticket_world program_server" where
  "sample_server \<equiv> sales_server keyspace_redis direct_exec ''th'' 900 (\<lambda>_. failG (PlainError ''unused'')) None"

lemma sample_sales_ledger:
  "repo_ok (ow_orders sample_sales)" "keys_ok ''th'' (ks_val (tw_redis sample_sales)) (ks_ttl (tw_redis sample_sales))"
  "remaining (abs_ledger ''th'' (ks_val (tw_redis sample_sales))) (7, 1) = 3"
  "lg_owner (abs_ledger ''th'' (ks_val (tw_redis sample_sales))) r = (if r \<in> {SeatR 7 11, SeatR 7 12} then Some (locked_by 42) else None)"
  "42 \<notin> lg_released (abs_ledger ''th'' (ks_val (tw_redis sample_sales)))"
proof -
  show "repo_ok (ow_orders sample_sales)" using sample_ok by (simp add: sample_sales_def order_world.defs)
  obtain t where run: "Locker_LockSeats keyspace_redis direct_exec ''th'' 900 demo_cmd 42 5 demo_store = (Inr (lockedSeatPlaceholders demo_cmd), t)"
    by (rule demo_lock)
  then have t: "tw_redis sample_sales = t" by (simp add: sample_sales_def order_world.defs)
  have num: "command_in64 demo_cmd" "(0::int) < 900" "in64 900" by (simp_all add: demo_cmd_def ticket_count_def command_in64_def in64_def)
  have nl: "\<not> has_lock (abs_ledger ''th'' (ks_val demo_store)) 42" by (simp add: has_lock_def abs_ledger_def demo_store_def)
  from keyspace_seats.lock_call [OF demo_keys num run] obtain rep where rep: "0 \<le> rep" "keys_ok ''th'' (ks_val t) (ks_ttl t)"
    "ledger_lock 42 7 1 2 (joinInt64 [11, 12]) 5 [SeatR 7 11, SeatR 7 12] (abs_ledger ''th'' (ks_val demo_store)) = (Some rep, abs_ledger ''th'' (ks_val t))"
    by (auto simp: demo_cmd_def ticket_count_def order_resources_def)
  note new = ledger_lock_new [of _ 42 "(7, 1)", unfolded fst_conv snd_conv, OF nl rep(3,1)]
  show "keys_ok ''th'' (ks_val (tw_redis sample_sales)) (ks_ttl (tw_redis sample_sales))" using rep t by simp
  show "remaining (abs_ledger ''th'' (ks_val (tw_redis sample_sales))) (7, 1) = 3" using new by (simp add: t demo_remaining)
  show "lg_owner (abs_ledger ''th'' (ks_val (tw_redis sample_sales))) r = (if r \<in> {SeatR 7 11, SeatR 7 12} then Some (locked_by 42) else None)"
    using new unfolding t by (simp add: demo_owner del: abs_ledger_simps)
  show "42 \<notin> lg_released (abs_ledger ''th'' (ks_val (tw_redis sample_sales)))" using new unfolding t by blast
qed

lemma sample_sales_runs:
  "fst (Cancel (sales_ports (Some (direct_client sample_server))) 42 3 sample_sales) = Inr ()"
  "fst (HandlePaymentCallback (sales_ports (Some (direct_client sample_server))) 42 500 True sample_sales) =
     Inr \<lparr>pcr_Status = StatusPaid, pcr_RefundRequired = False, pcr_AmountCent = 500\<rparr>"
proof -
  note l = sample_sales_ledger
  let ?l = "abs_ledger ''th'' (ks_val (tw_redis sample_sales))" and ?rs = "order_resources 7 [11, 12] []"
  have rs: "?rs = [SeatR 7 11, SeatR 7 12]" by (simp add: order_resources_def)
  have "fst (ledger_release 42 7 1 2 ?rs ?l) = Some 1"
    unfolding ledger_release_def ledger_give_back_def rs l(4) remaining_marks l(3) using l(5) by (simp add: in64_def)
  with direct_giveback(2) [OF l(2), of 2 42 7 1 "[11, 12]" "[]" 1] obtain s where
    s: "Writer_ReleaseSeats keyspace_redis direct_exec ''th'' 42 7 1 [11, 12] [] 2 (tw_redis sample_sales) = (Inr (), s)"
    by (auto simp: in64_def)
  have "fst (ledger_confirm 42 ?rs ?l) = Some 1" unfolding ledger_confirm_def rs l(4) by simp
  with direct_giveback(3) [OF l(2), of 2 42 7 "[11, 12]" "[]" 1] obtain t where
    t: "Writer_ConfirmSeatsSold keyspace_redis direct_exec ''th'' 42 7 [11, 12] [] (tw_redis sample_sales) = (Inr (), t)"
    by (auto simp: in64_def)
  define red where "red = tw_redis sample_sales"
  have w: "sample_sales = order_world.extend sample_world \<lparr>tw_redis = red\<rparr>"
    by (simp add: red_def sample_sales_def order_world.defs)
  note runs = s [folded red_def] t [folded red_def]
  note defs = run_defs sales_ports_def Client_ReleaseSeats_def Client_ConfirmSeatsSold_def direct_client_def Srv_ReleaseSeats_def Srv_ConfirmSeatsSold_def
    sales_server_def writer_seats_def seat_request_def request_count_def Order_TicketCount_def order_world.defs
  show "fst (Cancel (sales_ports (Some (direct_client sample_server))) 42 3 sample_sales) = Inr ()"
    unfolding w by (simp add: defs runs)
  show "fst (HandlePaymentCallback (sales_ports (Some (direct_client sample_server))) 42 500 True sample_sales) =
     Inr \<lparr>pcr_Status = StatusPaid, pcr_RefundRequired = False, pcr_AmountCent = 500\<rparr>"
    unfolding w by (simp add: defs runs)
qed



text \<open>
  C4. A cancellation gives the tickets back once. A successful \<open>Cancel\<close> of the order service leaves the order canceled;
  none of its seats was sold to it or held by another order. Unless the order was released before, its seats
  are free, its reservation is gone and the remaining count of its ticket category is higher by its number of
  tickets, while no other seat or count has changed; if it was released before, the ledger is unchanged, and a
  second cancellation changes nothing.
\<close>

theorem canceled_seats_return:
  assumes "seat_rpc R vw vol exec b client server" and "repo_ok (ow_orders w)"
    and "keys_ok b (vw (tw_redis w)) (vol (tw_redis w))" and "Cancel (sales_ports (Some client)) n u w = (Inr (), w')"
    and l: "l = abs_ledger b (vw (tw_redis w))" "l' = abs_ledger b (vw (tw_redis w'))"
  shows "\<exists>item item'. map_of (ow_orders w) n = Some item \<and> map_of (ow_orders w') n = Some item' \<and> ord_Status item' = StatusCancel
    \<and> (let rs = order_resources (ord_ProgramID item) (ord_SeatIDs item) (ord_TicketUserIDs item);
           pc = (ord_ProgramID item, ord_TicketCategoryID item) in
       (\<forall>r \<in> set rs. lg_owner l r \<in> {None, Some (locked_by n)})
       \<and> (if n \<in> lg_released l then l' = l
          else lg_owner l' = (\<lambda>r. if r \<in> set rs then None else lg_owner l r) \<and> \<not> has_lock l' n
            \<and> remaining l' = (remaining l)(pc := remaining l pc + Order_TicketCount item)))
    \<and> (\<forall>w2. Cancel (sales_ports (Some client)) n u w' = (Inr (), w2) \<longrightarrow> abs_ledger b (vw (tw_redis w2)) = l')"
  unfolding l by (rule seat_rpc.cancel_effect [OF assms(1-4)])

theorem canceled_seats_return_witness:
  "remaining (abs_ledger ''th'' (ks_val (tw_redis (snd (Cancel (sales_ports (Some (direct_client sample_server))) 42 3 sample_sales))))) (7, 1) = 5"
proof -
  let ?P = "sales_ports (Some (direct_client sample_server))"
  from canceled_seats_return [OF keyspace_sales.seat_rpc_axioms sample_sales_ledger(1,2) run_of_fst [OF sample_sales_runs(1)] refl refl]
  obtain item where i: "map_of (ow_orders sample_sales) 42 = Some item"
    and r: "remaining (abs_ledger ''th'' (ks_val (tw_redis (snd (Cancel ?P 42 3 sample_sales))))) =
      (remaining (abs_ledger ''th'' (ks_val (tw_redis sample_sales))))((ord_ProgramID item, ord_TicketCategoryID item) :=
        remaining (abs_ledger ''th'' (ks_val (tw_redis sample_sales))) (ord_ProgramID item, ord_TicketCategoryID item) + Order_TicketCount item)"
    unfolding Let_def using sample_sales_ledger(5) by (auto simp del: abs_ledger_simps)
  from i have "item = sample_order" by (simp add: sample_sales_def order_world.defs sample_world_def)
  with r show ?thesis by (simp add: sample_sales_ledger(3) sample_order_def Order_New_def Order_TicketCount_def)
qed

end
