(* ===== verification/Order_Reconciliation.thy ===== *)
theory Order_Reconciliation
  imports Seat_Service
begin

text \<open>
  The reconciliation that the order service offers (\<open>src/app/order-service/internal/application/reconciliation.go\<close>,
  \<open>infrastructure/memory/reconciliation_repository.go\<close>): it counts the tickets its orders occupy and has the program
  service compare and repair the inventory (\<open>Reconciliation\<close>), through the gRPC client of \<open>Seat_Service\<close>.
\<close>

section \<open>The service\<close>

record ReconciliationResult =
  rcr_ProgramID :: int64
  rcr_MismatchCount :: int64
  rcr_RecordMismatchCount :: int64
  rcr_InventoryMismatchCount :: int64
  rcr_RepairedInventoryCount :: int64
  rcr_MatchedCount :: int64
  rcr_ProcessedCount :: int64
  rcr_InventoryDifferences :: "InventoryDifference list"

record 'w recon_service =
  rsv_repo :: "(int64 \<Rightarrow> ('w, ReconciliationResult) go) option"
  rsv_usage :: "(int64 \<Rightarrow> ('w, InventoryUsage list) go) option"
  rsv_program :: "(int64 \<Rightarrow> InventoryUsage list \<Rightarrow> bool \<Rightarrow> ('w, InventoryDifference list \<times> int64) go) option"

definition with_inventory :: "ReconciliationResult \<Rightarrow> InventoryDifference list \<Rightarrow> int64 \<Rightarrow> ReconciliationResult" where
  "with_inventory result differences repaired = result\<lparr>rcr_InventoryDifferences := differences,
     rcr_InventoryMismatchCount := int (length differences), rcr_RepairedInventoryCount := repaired,
     rcr_MismatchCount := rcr_RecordMismatchCount result + int (length differences)\<rparr>"

text \<open>The variadic argument \<open>repairInventory\<close> is a list.\<close>

definition ReconcileProgram :: "'w recon_service \<Rightarrow> int64 \<Rightarrow> bool list \<Rightarrow> ('w, ReconciliationResult) go" where
  "ReconcileProgram s programID repairInventory =
     (let repair = (repairInventory \<noteq> [] \<and> hd repairInventory) in
      if repair \<and> programID \<le> 0 then failG (New CodeInvalidArgument ''program_id is required when repairing inventory'')
      else case rsv_repo s of
        None \<Rightarrow> failG (New CodeInfrastructure ''reconciliation repository is not configured'')
      | Some repo \<Rightarrow> bindG (repo programID) (\<lambda>result.
          (let result = result\<lparr>rcr_RecordMismatchCount := rcr_MismatchCount result\<rparr> in
           case (rsv_usage s, rsv_program s) of
             (Some ListInventoryUsage, Some ReconcileInventory) \<Rightarrow>
               if programID > 0 then
                 bindG (ListInventoryUsage programID) (\<lambda>usages.
                 bindG (ReconcileInventory programID usages repair) (\<lambda>(differences, repaired).
                   returnG (with_inventory result differences repaired)))
               else returnG result
           | _ \<Rightarrow> returnG result)))"

definition MemRecon_ReconcileProgram :: "int64 \<Rightarrow> ('w, ReconciliationResult) go" where
  "MemRecon_ReconcileProgram programID = returnG \<lparr>rcr_ProgramID = programID, rcr_MismatchCount = 0, rcr_RecordMismatchCount = 0,
     rcr_InventoryMismatchCount = 0, rcr_RepairedInventoryCount = 0, rcr_MatchedCount = 0, rcr_ProcessedCount = 0, rcr_InventoryDifferences = []\<rparr>"

section \<open>The tickets that orders occupy\<close>

definition tickets_held :: "OrderRepository \<Rightarrow> int64 \<Rightarrow> int64 \<Rightarrow> int" where
  "tickets_held orders p c = sum_list (map Order_TicketCount (filter (\<lambda>item. occupies p item \<and> ord_TicketCategoryID item = c) (map snd orders)))"

lemma wrap64_add: "wrap64 (wrap64 x + y) = wrap64 (x + y)"
  unfolding wrap64_def by (metis signed_take_bit_add signed_take_bit_signed_take_bit min.idem)

lemma count_usage_at:
  "usage_at (count_usage p items m) c = (if \<exists>item \<in> set items. occupies p item \<and> ord_TicketCategoryID item = c
     then wrap64 (usage_at m c + sum_list (map Order_TicketCount (filter (\<lambda>item. occupies p item \<and> ord_TicketCategoryID item = c) items)))
     else usage_at m c)"
proof (induction p items m rule: count_usage.induct)
  case (2 p item items m)
  have upd: "usage_at (AList.update k v m) c = (if k = c then v else usage_at m c)" for k v
    by (simp add: usage_at_def update_conv')
  have sum0: "\<not> (\<exists>item \<in> set items. occupies p item \<and> ord_TicketCategoryID item = c) \<Longrightarrow>
      filter (\<lambda>item. occupies p item \<and> ord_TicketCategoryID item = c) items = []"
    by (auto simp: filter_empty_conv)
  have fold: "(case map_of m k of None \<Rightarrow> 0 | Some n \<Rightarrow> n) = usage_at m k" for k by (simp add: usage_at_def)
  show ?case using 2 sum0 unfolding count_usage.simps fold by (cases "occupies p item") (auto simp: upd wrap64_add add.assoc)
qed simp

lemma count_usage_keys:
  "distinct (map fst m) \<Longrightarrow> distinct (map fst (count_usage p items m))"
  by (induction p items m rule: count_usage.induct) (auto simp: distinct_update)

definition usage_list :: "(int64 \<times> int64) list \<Rightarrow> InventoryUsage list" where
  "usage_list m = map (\<lambda>(c, n). \<lparr>iu_TicketCategoryID = c, iu_OccupiedCount = n\<rparr>) m"

lemma occupied_usage_list: "distinct (map fst m) \<Longrightarrow> occupied (usage_list m) c = (case map_of m c of None \<Rightarrow> 0 | Some n \<Rightarrow> wrap64 n)"
proof -
  have none: "foldl (\<lambda>a u. if iu_TicketCategoryID u = c then wrap64 (a + iu_OccupiedCount u) else a) a (usage_list m) = a"
    if "c \<notin> fst ` set m" for a m
    using that by (induction m) (auto simp: usage_list_def)
  show "distinct (map fst m) \<Longrightarrow> ?thesis"
    unfolding occupied_def by (induction m) (use none in \<open>auto simp: usage_list_def split: option.splits dest: map_of_SomeD\<close>)
qed

lemma occupied_orders:
  assumes "in64 (tickets_held orders p c)"
  shows "occupied (usage_list (count_usage p (map snd orders) [])) c = tickets_held orders p c"
proof -
  let ?m = "count_usage p (map snd orders) []" and ?held = "filter (\<lambda>item. occupies p item \<and> ord_TicketCategoryID item = c) (map snd orders)"
  have "usage_at ?m c = tickets_held orders p c"
  proof (cases "?held = []")
    case True
    then show ?thesis by (subst count_usage_at) (auto simp: tickets_held_def usage_at_def filter_empty_conv)
  next
    case False
    with assms show ?thesis by (subst count_usage_at) (auto simp: tickets_held_def usage_at_def filter_empty_conv wrap64_id)
  qed
  moreover have "occupied (usage_list ?m) c = (case map_of ?m c of None \<Rightarrow> 0 | Some n \<Rightarrow> wrap64 n)"
    by (rule occupied_usage_list) (simp add: count_usage_keys)
  ultimately show ?thesis using assms by (cases "map_of ?m c") (auto simp: usage_at_def wrap64_id)
qed

section \<open>Through both services\<close>

text \<open>The orders of the order service, beside the catalog, the Redis counts and the records of the program service.\<close>

type_synonym recon_pair = "OrderRepository \<times> recon_world"

abbreviation on_orders :: "('e, OrderRepository, 'a) prog \<Rightarrow> ('e, recon_pair, 'a) prog" where
  "on_orders \<equiv> liftG fst (\<lambda>s w. (s, snd w))"

abbreviation on_program :: "('e, recon_world, 'a) prog \<Rightarrow> ('e, recon_pair, 'a) prog" where
  "on_program \<equiv> liftG snd (\<lambda>s w. (fst w, s))"

definition order_recon :: "recon_pair ProgramServiceClient \<Rightarrow> recon_pair recon_service" where
  "order_recon client = \<lparr>rsv_repo = Some MemRecon_ReconcileProgram,
     rsv_usage = Some (\<lambda>p. on_orders (bindG (Repo_ListInventoryUsage p) (\<lambda>m. returnG (usage_list m)))),
     rsv_program = Some (Client_ReconcileInventory (Some client))\<rparr>"

lemma server_reconciles:
  assumes "srv_reconcile server = Some (\<lambda>p us rep. on_program (Reconcile (redis_recon keys) p us rep))"
    and "Srv_ReconcileInventory server (p, us, rep) w = (Inr res, w')"
  shows "fst w' = fst w \<and> Reconcile (redis_recon keys) p us rep (snd w) = (Inr res, snd w')"
  using assms by (auto simp: Srv_ReconcileInventory_def attemptG_def liftG_def go_simps split: prod.splits sum.splits)

lemma ReconcileProgram_run:
  assumes served: "delivers (psc_ReconcileInventory client) (Srv_ReconcileInventory server)"
    and wired: "srv_reconcile server = Some (\<lambda>p us rep. on_program (Reconcile (redis_recon keys) p us rep))"
    and run: "ReconcileProgram (order_recon client) p [repair] w = (Inr res, w')" and pos: "0 < p"
  shows "\<exists>inner. Reconcile (redis_recon keys) p (usage_list (count_usage p (map snd (fst w)) [])) repair (snd w) = (Inr inner, snd w')
    \<and> fst w' = fst w \<and> rcr_InventoryDifferences res = irr_Differences inner \<and> rcr_RepairedInventoryCount res = irr_RepairedCount inner
    \<and> rcr_MismatchCount res = int (length (irr_Differences inner))"
proof -
  let ?us = "usage_list (count_usage p (map snd (fst w)) [])"
  from run pos obtain reply where c: "psc_ReconcileInventory client (p, ?us, repair) w = (Inr reply, w')"
    and res: "rcr_InventoryDifferences res = irr_Differences reply" "rcr_RepairedInventoryCount res = irr_RepairedCount reply"
      "rcr_MismatchCount res = int (length (irr_Differences reply))"
    by (auto simp: ReconcileProgram_def order_recon_def MemRecon_ReconcileProgram_def Client_ReconcileInventory_def Repo_ListInventoryUsage_def
        with_inventory_def bindG_def liftG_def go_simps Let_def split: prod.splits sum.splits)
  from server_reconciles [OF wired] delivered(1) [OF served c] res show ?thesis by auto
qed

lemma tickets_held_nonneg: "0 \<le> tickets_held orders p c"
  unfolding tickets_held_def by (rule sum_list_nonneg) (auto simp: Order_TicketCount_def)

text \<open>A category that its orders fit into has the expected row and count after a repair.\<close>

lemma repaired_category:
  assumes "distinct (map tc_ID rows)" and "c \<in> set rows" and "0 \<le> usage (tc_ID c)" "usage (tc_ID c) \<le> tc_Total c" "in64 (tc_Total c)"
  shows "repaired_row usage c = c\<lparr>tc_Remain := tc_Total c - usage (tc_ID c)\<rparr>
    \<and> repaired_left usage rows lft (tc_ID c) = Some (tc_Total c - usage (tc_ID c))"
proof -
  have "expected_remain usage c = tc_Total c - usage (tc_ID c)"
    using assms(3-5) unfolding expected_remain_def by (intro wrap64_id) (auto simp: in64_def)
  then show ?thesis using assms(4) find_row [OF assms(1,2)] by (simp add: repaired_row_def repaired_left_def)
qed

section \<open>Properties\<close>


abbreviation recon_server :: "recon_pair program_server" where
  "recon_server \<equiv> \<lparr>srv_createOrders = (\<lambda>_. failG (PlainError ''unused'')), srv_seats = None, srv_reservations = None,
     srv_reconcile = Some (\<lambda>p us rep. on_program (Reconcile (redis_recon ''th'') p us rep))\<rparr>"

abbreviation recon_orders :: OrderRepository where
  "recon_orders \<equiv> [(42, sample_order)]"

lemma recon_pair_run: "\<exists>res w'. ReconcileProgram (order_recon (direct_client recon_server)) 7 [True] (recon_orders, sample_recon) = (Inr res, w')"
proof -
  have "parse_int ''4'' = Some 4" by code_simp
  then show ?thesis
    by (simp add: ReconcileProgram_def order_recon_def MemRecon_ReconcileProgram_def Client_ReconcileInventory_def direct_client_def
        Srv_ReconcileInventory_def Repo_ListInventoryUsage_def usage_list_def occupies_def sample_order_def Order_New_def Order_TicketCount_def
        attemptG_def Reconcile_def repair_blocked_def redis_recon_def sample_recon_def sample_programs_def liftG_def bindG_def go_simps HasActiveReservations_def
        PR_ListTicketCategories_def PR_UpdateTicketCategoryRemain_def slice_at_def compareCategory_def Let_def Store_GetRemain_def Store_SetRemain_def
        keyspace_redis_def usage_at_def wrap64_nonneg saveRecord_def draw_def Records_Save_def)
qed


end
