(* ===== verification/Inventory_Bootstrap.thy ===== *)
theory Inventory_Bootstrap
  imports Reconciliation
begin

text \<open>
  Filling the Redis counts at start-up (\<open>src/app/program-service/internal/application/inventory_bootstrap.go\<close>): the
  service pages through all ticket categories by id and sets the counts that are missing. The loop is a
  \<open>partial_function\<close>: \<open>None\<close> is a run that does not end.
\<close>

section \<open>The service\<close>

record 'w bootstrap_ports =
  bp_ListTicketCategoriesAfterID :: "int64 \<Rightarrow> int \<Rightarrow> ('w, TicketCategory list) go"
  bp_InitializeRemain :: "int64 \<Rightarrow> int64 \<Rightarrow> int64 \<Rightarrow> ('w, bool) go"

record InventoryBootstrapResult =
  ibr_Initialized :: int64
  ibr_Existing :: int64

definition bootstrap_batch :: "int \<Rightarrow> int" where
  "bootstrap_batch batchSize = (if batchSize \<le> 0 \<or> batchSize > 2000 then 500 else batchSize)"

definition tally :: "bool \<Rightarrow> InventoryBootstrapResult \<Rightarrow> InventoryBootstrapResult" where
  "tally initialized res = (if initialized then res\<lparr>ibr_Initialized := ibr_Initialized res + 1\<rparr> else res\<lparr>ibr_Existing := ibr_Existing res + 1\<rparr>)"

fun initialize_batch :: "'w bootstrap_ports \<Rightarrow> TicketCategory list \<Rightarrow> InventoryBootstrapResult
    \<Rightarrow> (error \<times> InventoryBootstrapResult, 'w, InventoryBootstrapResult) prog" where
  "initialize_batch P [] res w = (Inr res, w)"
| "initialize_batch P (category # categories) res w =
     (case bp_InitializeRemain P (tc_ProgramID category) (tc_ID category) (tc_Remain category) w of
        (Inl e, w1) \<Rightarrow> (Inl (e, res), w1)
      | (Inr initialized, w1) \<Rightarrow> initialize_batch P categories (tally initialized res) w1)"

partial_function (option) bootstrap_loop :: "'w bootstrap_ports \<Rightarrow> int \<Rightarrow> int64 \<Rightarrow> InventoryBootstrapResult \<Rightarrow> 'w
    \<Rightarrow> ((error \<times> InventoryBootstrapResult + InventoryBootstrapResult) \<times> 'w) option" where
  "bootstrap_loop P batchSize afterID res w =
     (case bp_ListTicketCategoriesAfterID P afterID batchSize w of
        (Inl e, w1) \<Rightarrow> Some (Inl (e, res), w1)
      | (Inr categories, w1) \<Rightarrow>
          if categories = [] then Some (Inr res, w1)
          else (case initialize_batch P categories res w1 of
            (Inl er, w2) \<Rightarrow> Some (Inl er, w2)
          | (Inr res2, w2) \<Rightarrow>
              if int (length categories) < batchSize then Some (Inr res2, w2)
              else bootstrap_loop P batchSize (tc_ID (last categories)) res2 w2))"

definition Bootstrap :: "'w bootstrap_ports \<Rightarrow> int \<Rightarrow> 'w
    \<Rightarrow> ((error \<times> InventoryBootstrapResult + InventoryBootstrapResult) \<times> 'w) option" where
  "Bootstrap P batchSize w = bootstrap_loop P (bootstrap_batch batchSize) 0 \<lparr>ibr_Initialized = 0, ibr_Existing = 0\<rparr> w"

section \<open>What it does\<close>

definition initial_counts :: "TicketCategory list \<Rightarrow> int64 \<times> int64 \<rightharpoonup> int64" where
  "initial_counts cs = map_of (map (\<lambda>c. ((tc_ProgramID c, tc_ID c), tc_Remain c)) cs)"

lemma initial_counts_append: "initial_counts (xs @ ys) ++ m = initial_counts ys ++ (initial_counts xs ++ m)"
  by (simp add: initial_counts_def)

text \<open>Ports whose calls do not fail.\<close>

definition ports_reliable :: "'w bootstrap_ports \<Rightarrow> bool" where
  "ports_reliable P \<longleftrightarrow> (\<forall>a n w. \<exists>cs. fst (bp_ListTicketCategoriesAfterID P a n w) = Inr cs)
     \<and> (\<forall>p c v w. \<exists>b. fst (bp_InitializeRemain P p c v w) = Inr b)"

lemma reliable_batch: "ports_reliable P \<Longrightarrow> \<exists>res'. fst (initialize_batch P cs res w) = Inr res'"
proof (induction cs arbitrary: res w)
  case (Cons c cs)
  obtain ri w1 where i: "bp_InitializeRemain P (tc_ProgramID c) (tc_ID c) (tc_Remain c) w = (ri, w1)" by (metis surj_pair)
  with Cons.prems obtain b where "ri = Inr b" unfolding ports_reliable_def by (metis fst_conv)
  with i Cons show ?case by simp
qed simp

locale inventory_bootstrap =
  fixes P :: "'w bootstrap_ports" and cats :: "TicketCategory list" and counts :: "'w \<Rightarrow> int64 \<times> int64 \<rightharpoonup> int64" and binv :: "'w \<Rightarrow> bool"
  assumes ids: "binv w \<Longrightarrow> sorted (map tc_ID cats) \<and> distinct (map tc_ID cats) \<and> (\<forall>c \<in> set cats. 0 < tc_ID c)"
    and list_after: "binv w \<Longrightarrow> 0 < n \<Longrightarrow> bp_ListTicketCategoriesAfterID P a n w = (rl, w') \<Longrightarrow>
      binv w' \<and> counts w' = counts w \<and> (\<forall>cs. rl = Inr cs \<longrightarrow> cs = take (nat n) (filter (\<lambda>c. a < tc_ID c) cats))"
    and initialize: "binv w \<Longrightarrow> c \<in> set cats \<Longrightarrow> bp_InitializeRemain P (tc_ProgramID c) (tc_ID c) (tc_Remain c) w = (ri, w') \<Longrightarrow>
      binv w' \<and> (case ri of Inl e \<Rightarrow> counts w \<subseteq>\<^sub>m counts w'
        | Inr b \<Rightarrow> (b \<longleftrightarrow> counts w (tc_ProgramID c, tc_ID c) = None) \<and> counts w' = initial_counts [c] ++ counts w)"
begin

definition tallied :: "TicketCategory list \<Rightarrow> (int64 \<times> int64 \<rightharpoonup> int64) \<Rightarrow> InventoryBootstrapResult \<Rightarrow> InventoryBootstrapResult" where
  "tallied cs m res = \<lparr>ibr_Initialized = ibr_Initialized res + int (length (filter (\<lambda>c. m (tc_ProgramID c, tc_ID c) = None) cs)),
     ibr_Existing = ibr_Existing res + int (length (filter (\<lambda>c. m (tc_ProgramID c, tc_ID c) \<noteq> None) cs))\<rparr>"

lemma batch_result:
  assumes "binv w" and "set cs \<subseteq> set cats" and "distinct (map tc_ID cs)" and "initialize_batch P cs res w = (r, w')"
  shows "binv w' \<and> counts w \<subseteq>\<^sub>m counts w' \<and> (\<forall>res'. r = Inr res' \<longrightarrow> counts w' = initial_counts cs ++ counts w \<and> res' = tallied cs (counts w) res)"
  using assms
proof (induction cs arbitrary: res w)
  case Nil
  then show ?case by (auto simp: initial_counts_def tallied_def)
next
  case (Cons c cs)
  obtain ri w1 where i: "bp_InitializeRemain P (tc_ProgramID c) (tc_ID c) (tc_Remain c) w = (ri, w1)" by (metis surj_pair)
  note one = initialize [OF Cons.prems(1) _ i]
  show ?case
  proof (cases ri)
    case (Inl e)
    with one i Cons.prems show ?thesis by auto
  next
    case (Inr b)
    with one Cons.prems have w1: "binv w1" "b \<longleftrightarrow> counts w (tc_ProgramID c, tc_ID c) = None" "counts w1 = initial_counts [c] ++ counts w" by auto
    have rest: "initialize_batch P cs (tally b res) w1 = (r, w')" using Cons.prems(4) i Inr by simp
    have other: "counts w1 (tc_ProgramID x, tc_ID x) = counts w (tc_ProgramID x, tc_ID x)" if "x \<in> set cs" for x
    proof -
      have "tc_ID x \<noteq> tc_ID c" using that Cons.prems(3) by (auto simp: image_iff)
      then show ?thesis by (simp add: w1(3) initial_counts_def map_add_def split: option.splits)
    qed
    from Cons.IH [OF w1(1) _ _ rest] Cons.prems(2,3) have ih: "binv w'" "counts w1 \<subseteq>\<^sub>m counts w'"
      "\<And>res'. r = Inr res' \<Longrightarrow> counts w' = initial_counts cs ++ counts w1 \<and> res' = tallied cs (counts w1) (tally b res)" by auto
    have "counts w \<subseteq>\<^sub>m counts w1" by (simp add: w1(3))
    moreover have "tallied cs (counts w1) (tally b res) = tallied (c # cs) (counts w) res"
      using other w1(2) by (auto simp: tallied_def tally_def cong: filter_cong)
    moreover have "initial_counts cs ++ counts w1 = initial_counts (c # cs) ++ counts w"
      using initial_counts_append [of "[c]" cs "counts w"] by (simp add: w1(3))
    ultimately show ?thesis using ih by (auto intro: map_le_trans)
  qed
qed

lemma tallied_append:
  "(\<And>c. c \<in> set ys \<Longrightarrow> m' (tc_ProgramID c, tc_ID c) = m (tc_ProgramID c, tc_ID c)) \<Longrightarrow>
     tallied ys m' (tallied xs m res) = tallied (xs @ ys) m res"
  by (simp add: tallied_def cong: filter_cong)

text \<open>A page of the categories behind an id, and what is behind the page.\<close>

lemma page_split:
  fixes a n
  defines "F \<equiv> filter (\<lambda>c. a < tc_ID c) cats"
  assumes "take n F \<noteq> []" and "binv w"
  shows "set (take n F) \<subseteq> set cats" and "distinct (map tc_ID (take n F))"
    and "filter (\<lambda>c. tc_ID (last (take n F)) < tc_ID c) cats = drop n F"
    and "x \<in> set (drop n F) \<Longrightarrow> initial_counts (take n F) (p, tc_ID x) = None"
proof -
  have F: "sorted (map tc_ID F)" "distinct (map tc_ID F)" "set F \<subseteq> set cats"
    unfolding F_def using ids [OF assms(3)] by (auto simp: sorted_filter distinct_map intro: inj_on_subset)
  then show "set (take n F) \<subseteq> set cats" "distinct (map tc_ID (take n F))"
    using set_take_subset [of n F] by (auto simp: take_map [symmetric])
  have "last (take n F) \<in> set F" using assms(2) by (meson last_in_set in_set_takeD)
  then have "a < tc_ID (last (take n F))" by (simp add: F_def)
  then have "filter (\<lambda>c. tc_ID (last (take n F)) < tc_ID c) cats = filter (\<lambda>c. tc_ID (last (take n F)) < tc_ID c) F"
    unfolding F_def filter_filter by (intro filter_cong) auto
  with page_rest [OF F(1,2) assms(2)] show "filter (\<lambda>c. tc_ID (last (take n F)) < tc_ID c) cats = drop n F" by simp
  have "distinct (map tc_ID (take n F @ drop n F))" using F(2) by simp
  then show "x \<in> set (drop n F) \<Longrightarrow> initial_counts (take n F) (p, tc_ID x) = None"
    unfolding map_append distinct_append by (auto simp: initial_counts_def map_of_eq_None_iff) (metis disjoint_iff image_eqI)
qed

lemma loop_returns:
  assumes "binv w" and "0 < n"
  shows "\<exists>r w'. bootstrap_loop P n a res w = Some (r, w') \<and> binv w' \<and> counts w \<subseteq>\<^sub>m counts w' \<and>
    (ports_reliable P \<longrightarrow> (\<exists>res'. r = Inr res')) \<and>
    (\<forall>res'. r = Inr res' \<longrightarrow> counts w' = initial_counts (filter (\<lambda>c. a < tc_ID c) cats) ++ counts w
       \<and> res' = tallied (filter (\<lambda>c. a < tc_ID c) cats) (counts w) res)"
  using assms(1)
proof (induction "length (filter (\<lambda>c. a < tc_ID c) cats)" arbitrary: a res w rule: less_induct)
  case less
  let ?F = "filter (\<lambda>c. a < tc_ID c) cats"
  let ?B = "take (nat n) ?F" and ?D = "drop (nat n) ?F"
  obtain rl w1 where l: "bp_ListTicketCategoriesAfterID P a n w = (rl, w1)" by (metis surj_pair)
  note la = list_after [OF less.prems assms(2) l]
  obtain rb w2 where ib: "initialize_batch P ?B res w1 = (rb, w2)" by (metis surj_pair)
  consider (list_error) e where "rl = Inl e" | (empty) "rl = Inr []" "?F = []" | (page) "rl = Inr ?B" "?B \<noteq> []"
    using la assms(2) by (cases rl) auto
  then show ?case
  proof cases
    case list_error
    then have "\<not> ports_reliable P" using l unfolding ports_reliable_def by (metis Inl_Inr_False fst_conv)
    with list_error l la show ?thesis by (subst bootstrap_loop.simps) auto
  next
    case empty
    with l la show ?thesis by (subst bootstrap_loop.simps) (simp add: initial_counts_def tallied_def)
  next
    case page
    note sp = page_split [OF page(2) less.prems]
    have w1: "binv w1" "counts w1 = counts w" using la by auto
    note br = batch_result [OF w1(1) sp(1,2) ib]
    consider (init_error) er where "rb = Inl er" | (last_page) res2 where "rb = Inr res2" "int (length ?B) < n"
      | (full_page) res2 where "rb = Inr res2" "\<not> int (length ?B) < n" by (cases rb) auto
    then show ?thesis
    proof cases
      case init_error
      then have "\<not> ports_reliable P" using reliable_batch [of P ?B res w1] ib by auto
      with init_error l page ib br w1 show ?thesis by (subst bootstrap_loop.simps) auto
    next
      case last_page
      then have "?B = ?F" by auto
      with l page ib br w1 last_page show ?thesis by (subst bootstrap_loop.simps) auto
    next
      case full_page
      then have w2: "binv w2" "counts w \<subseteq>\<^sub>m counts w2" "counts w2 = initial_counts ?B ++ counts w" "res2 = tallied ?B (counts w) res"
        using br w1 by auto
      have step: "bootstrap_loop P n a res w = bootstrap_loop P n (tc_ID (last ?B)) res2 w2"
        using l page ib full_page by (subst bootstrap_loop.simps) simp
      have "length (filter (\<lambda>c. tc_ID (last ?B) < tc_ID c) cats) < length ?F" unfolding sp(3) using page(2) assms(2) by (auto simp: not_less)
      from less.hyps [OF this w2(1), of res2, unfolded sp(3)] obtain r w' where ih: "bootstrap_loop P n (tc_ID (last ?B)) res2 w2 = Some (r, w')" "binv w'"
        "counts w2 \<subseteq>\<^sub>m counts w'" "ports_reliable P \<longrightarrow> (\<exists>res'. r = Inr res')" "\<And>res'. r = Inr res' \<Longrightarrow> counts w' = initial_counts ?D ++ counts w2 \<and> res' = tallied ?D (counts w2) res2" by auto
      have "initial_counts ?D ++ counts w2 = initial_counts ?F ++ counts w"
        using initial_counts_append [of ?B ?D "counts w"] by (simp add: w2(3))
      moreover have "tallied ?D (counts w2) res2 = tallied ?F (counts w) res"
        unfolding w2(3,4) using sp(4) by (subst tallied_append) (auto simp: map_add_def split: option.splits)
      ultimately show ?thesis using step ih w2(2) by (auto intro: map_le_trans)
    qed
  qed
qed

end

section \<open>On Redis\<close>

definition redis_bootstrap :: "string \<Rightarrow> recon_world bootstrap_ports" where
  "redis_bootstrap keys =
     \<lparr>bp_ListTicketCategoriesAfterID = (\<lambda>a n. on_rw_programs (PR_ListTicketCategoriesAfterID a n)),
      bp_InitializeRemain = (\<lambda>p c v. on_rw_redis (Store_InitializeRemain keyspace_redis keys p c v))\<rparr>"

definition all_categories :: "ProgramRepository \<Rightarrow> TicketCategory list" where
  "all_categories r = sort_key tc_ID (concat (map snd (pr_categories r)))"

definition catalog_ok :: "ProgramRepository \<Rightarrow> bool" where
  "catalog_ok r \<longleftrightarrow> distinct (catalog_ids (pr_categories r)) \<and> (\<forall>c \<in> set (all_categories r). 0 < tc_ID c \<and> in64 (tc_Remain c))"

lemma all_categories_ids: "catalog_ok r \<Longrightarrow> distinct (map tc_ID (all_categories r))"
proof -
  have "catalog_ids (pr_categories r) = map tc_ID (concat (map snd (pr_categories r)))"
    by (simp add: catalog_ids_def map_concat comp_def)
  then show "catalog_ok r \<Longrightarrow> distinct (map tc_ID (all_categories r))"
    by (simp add: catalog_ok_def all_categories_def distinct_map del: map_concat)
qed

text \<open>A world with a given catalog, and its counts.\<close>

definition boot_ok :: "string \<Rightarrow> ProgramRepository \<Rightarrow> recon_world \<Rightarrow> bool" where
  "boot_ok keys programs w \<longleftrightarrow> catalog_ok programs \<and> rw_programs w = programs \<and> keys_ok keys (ks_val (rw_redis w)) (ks_ttl (rw_redis w))"

definition boot_counts :: "string \<Rightarrow> recon_world \<Rightarrow> int64 \<times> int64 \<rightharpoonup> int64" where
  "boot_counts keys w pc = redis_count keys (fst pc) (rw_redis w) (snd pc)"

lemma after_page: "0 < n \<Longrightarrow> PR_ListTicketCategoriesAfterID a n r = (Inr (take (nat n) (filter (\<lambda>c. a < tc_ID c) (all_categories r))), r)"
  by (auto simp: PR_ListTicketCategoriesAfterID_def all_categories_def Let_def filter_sort)

interpretation boot: inventory_bootstrap "redis_bootstrap keys" "all_categories programs" "boot_counts keys" "boot_ok keys programs" for keys programs
proof unfold_locales
  fix w w' n a rl c ri
  show "sorted (map tc_ID (all_categories programs)) \<and> distinct (map tc_ID (all_categories programs)) \<and> (\<forall>c \<in> set (all_categories programs). 0 < tc_ID c)"
    if "boot_ok keys programs w"
    using that all_categories_ids [of programs] by (simp add: boot_ok_def catalog_ok_def) (simp add: all_categories_def)
  show "boot_ok keys programs w' \<and> boot_counts keys w' = boot_counts keys w \<and> (\<forall>cs. rl = Inr cs \<longrightarrow> cs = take (nat n) (filter (\<lambda>c. a < tc_ID c) (all_categories programs)))"
    if "boot_ok keys programs w" "0 < n" "bp_ListTicketCategoriesAfterID (redis_bootstrap keys) a n w = (rl, w')"
    using that by (auto simp: redis_bootstrap_def liftG_def boot_ok_def boot_counts_def fun_eq_iff after_page)
  show "boot_ok keys programs w' \<and> (case ri of Inl e \<Rightarrow> boot_counts keys w \<subseteq>\<^sub>m boot_counts keys w'
        | Inr b \<Rightarrow> (b \<longleftrightarrow> boot_counts keys w (tc_ProgramID c, tc_ID c) = None) \<and> boot_counts keys w' = initial_counts [c] ++ boot_counts keys w)"
    if w: "boot_ok keys programs w" and c: "c \<in> set (all_categories programs)"
      and run: "bp_InitializeRemain (redis_bootstrap keys) (tc_ProgramID c) (tc_ID c) (tc_Remain c) w = (ri, w')"
  proof -
    let ?k = "inventory_key keys (tc_ProgramID c) (tc_ID c)"
    have v: "in64 (tc_Remain c)" using w c by (simp add: boot_ok_def catalog_ok_def)
    have kok: "keys_ok keys (ks_val (rw_redis w)) (ks_ttl (rw_redis w))" using w by (simp add: boot_ok_def)
    then have some: "boot_counts keys w (tc_ProgramID c, tc_ID c) = None \<longleftrightarrow> ks_val (rw_redis w) ?k = None"
      unfolding boot_counts_def redis_count_def keys_ok_def by (auto split: option.splits) (metis option.distinct(1))
    show ?thesis
    proof (cases "ks_val (rw_redis w) ?k = None")
      case True
      with run have "ri = Inr True" "w' = w\<lparr>rw_redis := \<lparr>ks_val = (ks_val (rw_redis w))(?k \<mapsto> RString (show_int (tc_Remain c))), ks_ttl = ks_ttl (rw_redis w) - {?k}\<rparr>\<rparr>"
        by (auto simp: redis_bootstrap_def liftG_def Store_InitializeRemain_def keyspace_redis_def)
      with True some v w keys_ok_set_count [OF kok v, of "tc_ProgramID c" "tc_ID c"] show ?thesis
        by (auto simp: boot_ok_def boot_counts_def redis_count_def initial_counts_def parse_show_int fun_eq_iff map_add_def split: option.splits)
    next
      case False
      with run have "ri = Inr False" "w' = w" by (auto simp: redis_bootstrap_def liftG_def Store_InitializeRemain_def keyspace_redis_def)
      with False some w show ?thesis by (auto simp: initial_counts_def fun_eq_iff map_add_def split: option.splits)
    qed
  qed
qed

lemma redis_ports_reliable: "ports_reliable (redis_bootstrap keys)"
  by (auto simp: ports_reliable_def redis_bootstrap_def liftG_def PR_ListTicketCategoriesAfterID_def Store_InitializeRemain_def Let_def)

section \<open>Properties\<close>



end
