(* ===== verification/Go_Base64.thy ===== *)
theory Go_Base64
  imports TH_Prelude
begin

text \<open>
  \<open>encoding/base64\<close>, as \<open>base64.RawURLEncoding\<close>: the URL alphabet without padding. Decoding skips carriage returns and
  newlines, ignores the unused bits of the last character, and fails on any other character or a stray one.
\<close>

definition b64_alphabet :: string where
  "b64_alphabet = ''ABCDEFGHIJKLMNOPQRSTUVWXYZabcdefghijklmnopqrstuvwxyz0123456789-_''"

definition b64_char :: "nat \<Rightarrow> char" where
  "b64_char n = b64_alphabet ! n"

definition b64_val :: "char \<Rightarrow> nat option" where
  "b64_val c = map_of (zip b64_alphabet [0..<64]) c"

fun sextets :: "nat list \<Rightarrow> nat list" where
  "sextets (a # b # c # r) = [a div 4, (a mod 4) * 16 + b div 16, (b mod 16) * 4 + c div 64, c mod 64] @ sextets r"
| "sextets [a, b] = [a div 4, (a mod 4) * 16 + b div 16, (b mod 16) * 4]"
| "sextets [a] = [a div 4, (a mod 4) * 16]"
| "sextets [] = []"

fun octets :: "nat list \<Rightarrow> nat list option" where
  "octets (w # x # y # z # r) = map_option (append [w * 4 + x div 16, (x mod 16) * 16 + y div 4, (y mod 4) * 64 + z]) (octets r)"
| "octets [w, x, y] = Some [w * 4 + x div 16, (x mod 16) * 16 + y div 4]"
| "octets [w, x] = Some [w * 4 + x div 16]"
| "octets [w] = None"
| "octets [] = Some []"

definition b64_encode :: "string \<Rightarrow> string" where
  "b64_encode s = map b64_char (sextets (map of_char s))"

definition b64_decode :: "string \<Rightarrow> string option" where
  "b64_decode s =
     (let cs = filter (\<lambda>c. c \<noteq> CHR 0x0A \<and> c \<noteq> CHR 0x0D) s in
      if list_ex (\<lambda>c. b64_val c = None) cs then None
      else map_option (map char_of) (octets (map (the \<circ> b64_val) cs)))"

lemma octets_sextets: "\<forall>b \<in> set bs. b < 256 \<Longrightarrow> octets (sextets bs) = Some bs"
proof (induction bs rule: sextets.induct)
  case (1 a b c r)
  then have "b div 16 < 16" "c div 64 < 4" by auto
  then show ?case using 1 by (simp add: div_mult_self3 mod_mult_self3)
qed auto

lemma sextets_less: "\<forall>b \<in> set bs. b < 256 \<Longrightarrow> \<forall>x \<in> set (sextets bs). x < 64"
  by (induction bs rule: sextets.induct) (auto simp: less_mult_imp_div_less)

lemma b64_char_val: "n < 64 \<Longrightarrow> b64_val (b64_char n) = Some n"
proof -
  have "list_all (\<lambda>n. b64_val (b64_char n) = Some n) [0..<64]" by code_simp
  then show "n < 64 \<Longrightarrow> b64_val (b64_char n) = Some n" by (simp add: list_all_iff)
qed

lemma b64_char_plain: "n < 64 \<Longrightarrow> b64_char n \<noteq> CHR 0x0A \<and> b64_char n \<noteq> CHR 0x0D \<and> \<not> is_space (b64_char n)"
proof -
  have "list_all (\<lambda>n. b64_char n \<noteq> CHR 0x0A \<and> b64_char n \<noteq> CHR 0x0D \<and> \<not> is_space (b64_char n)) [0..<64]" by code_simp
  then show "n < 64 \<Longrightarrow> b64_char n \<noteq> CHR 0x0A \<and> b64_char n \<noteq> CHR 0x0D \<and> \<not> is_space (b64_char n)" by (simp add: list_all_iff)
qed

lemma b64_round_trip: "b64_decode (b64_encode s) = Some s"
proof -
  let ?bs = "map of_char s :: nat list"
  have b: "\<forall>b \<in> set ?bs. b < 256" by auto
  note x = sextets_less [OF b]
  have "filter (\<lambda>c. c \<noteq> CHR 0x0A \<and> c \<noteq> CHR 0x0D) (b64_encode s) = b64_encode s"
    unfolding b64_encode_def using x b64_char_plain by (intro filter_True) auto
  moreover have "\<not> list_ex (\<lambda>c. b64_val c = None) (b64_encode s)"
    unfolding b64_encode_def list_ex_iff using x b64_char_val by fastforce
  moreover have "map (the \<circ> b64_val) (b64_encode s) = sextets ?bs"
    unfolding b64_encode_def map_map using x b64_char_val by (intro map_idI) auto
  ultimately show ?thesis using octets_sextets [OF b] by (simp add: b64_decode_def comp_def)
qed

lemma b64_encode_trim: "trim_space (b64_encode s) = b64_encode s"
  unfolding trim_space_def b64_encode_def
  by (rule trim_id) (use sextets_less [of "map of_char s"] b64_char_plain in auto)

lemma b64_encode_ne: "b64_encode s = [] \<longleftrightarrow> s = []"
  by (cases "map of_char s :: nat list" rule: sextets.cases) (auto simp: b64_encode_def)

end
