(* ===== verification/Order_Query.thy ===== *)
theory Order_Query
  imports Order_Commands Events Go_Base64
begin

text \<open>
  Reading orders (\<open>src/app/order-service/internal/application/order_query.go\<close>): one order of a user, and a user's
  orders page by page, newest first, with an opaque cursor; and the gRPC handlers around them
  (\<open>src/app/order-service/internal/interfaces/grpc/server.go\<close>).

  A cursor is the URL-safe base64 of a JSON array of a time and an order number. JSON documents are trees as in
  \<open>Events\<close>; a string that is a time in RFC 3339 format is \<open>JTime\<close>. The text of a document is a parameter:
  a \<open>json_codec\<close> renders and parses documents, and what the service relies on is that a rendered pair of a time and
  a number is not empty and parses to itself.
\<close>

section \<open>Cursors\<close>

type_synonym json_codec = "(json \<Rightarrow> string) \<times> (string \<Rightarrow> json option)"

definition codec_ok :: "json_codec \<Rightarrow> bool" where
  "codec_ok J \<longleftrightarrow> (\<forall>t n. fst J (JArr [JTime t, JInt n]) \<noteq> [] \<and> snd J (fst J (JArr [JTime t, JInt n])) = Some (JArr [JTime t, JInt n]))"

definition encodeOrderCursor :: "json_codec \<Rightarrow> OrderListCursor \<Rightarrow> string" where
  "encodeOrderCursor J cursor = b64_encode (fst J (JArr [JTime (cur_CreatedAt cursor), JInt (cur_OrderNumber cursor)]))"

abbreviation invalid_cursor :: error where
  "invalid_cursor \<equiv> New CodeInvalidArgument ''invalid order cursor''"

definition decodeOrderCursor :: "json_codec \<Rightarrow> string \<Rightarrow> error + OrderListCursor" where
  "decodeOrderCursor J value =
     (let value = trim_space value in
      if value = [] then Inr no_cursor
      else case b64_decode value of
        None \<Rightarrow> Inl invalid_cursor
      | Some payload \<Rightarrow> (case snd J payload of
          Some (JArr [t, n]) \<Rightarrow> (case (t, get_int n) of
            (JTime createdAt, Some orderNumber) \<Rightarrow>
              if orderNumber \<le> 0 then Inl invalid_cursor
              else Inr \<lparr>cur_CreatedAt = createdAt, cur_OrderNumber = orderNumber\<rparr>
          | _ \<Rightarrow> Inl invalid_cursor)
        | _ \<Rightarrow> Inl invalid_cursor))"

lemma cursor_round_trip:
  assumes "codec_ok J" and "0 < cur_OrderNumber cursor" and "in64 (cur_OrderNumber cursor)"
  shows "decodeOrderCursor J (encodeOrderCursor J cursor) = Inr cursor"
    and "encodeOrderCursor J cursor \<noteq> []"
  using assms by (auto simp: decodeOrderCursor_def encodeOrderCursor_def b64_encode_trim b64_round_trip b64_encode_ne codec_ok_def get_int_def Let_def)

section \<open>Queries\<close>

definition parseOrderStatus :: "string \<Rightarrow> error + Status" where
  "parseOrderStatus value =
     (let status = to_upper (trim_space value) in
      if status = [] then Inr []
      else if status \<in> {StatusNoPay, StatusPaid, StatusCancel, StatusRefund} then Inr status
      else Inl (New CodeInvalidArgument ''invalid order status''))"

definition Query_Get :: "'w order_ports \<Rightarrow> int64 \<Rightarrow> int64 \<Rightarrow> ('w, Order) go" where
  "Query_Get P orderNumber userID =
     (if orderNumber \<le> 0 \<or> userID \<le> 0 then failG (New CodeInvalidArgument ''order_number and user_id are required'')
      else op_FindByOrderNumber P orderNumber userID)"

record OrderPage =
  pg_Items :: "Order list"
  pg_NextCursor :: string

text \<open>The repository's \<open>ListByUserIDPage\<close>, if it has that method.\<close>

type_synonym 'w page_repo = "(int64 \<Rightarrow> Status \<Rightarrow> OrderListCursor \<Rightarrow> nat \<Rightarrow> ('w, Order list) go) option"

definition page_limit :: "int \<Rightarrow> int" where
  "page_limit limit = (let limit = (if limit \<le> 0 then 20 else limit) in if limit > 100 then 100 else limit)"

definition ListPage :: "json_codec \<Rightarrow> 'w page_repo \<Rightarrow> int64 \<Rightarrow> string \<Rightarrow> string \<Rightarrow> int \<Rightarrow> ('w, OrderPage) go" where
  "ListPage J R userID status cursor limit =
     (if userID \<le> 0 then failG (New CodeInvalidArgument ''user_id is required'')
      else let limit = nat (page_limit limit) in
        case parseOrderStatus status of
          Inl e \<Rightarrow> failG e
        | Inr parsedStatus \<Rightarrow> (case decodeOrderCursor J cursor of
            Inl e \<Rightarrow> failG e
          | Inr before \<Rightarrow> (case R of
              None \<Rightarrow> failG (New CodeInfrastructure ''order page repository is not configured'')
            | Some ListByUserIDPage \<Rightarrow>
                bindG (ListByUserIDPage userID parsedStatus before (limit + 1)) (\<lambda>items.
                  returnG (if length items > limit
                    then (let page = take limit items; last = last page in
                      \<lparr>pg_Items = page, pg_NextCursor = encodeOrderCursor J \<lparr>cur_CreatedAt = ord_CreatedAt last, cur_OrderNumber = ord_OrderNumber last\<rparr>\<rparr>)
                    else \<lparr>pg_Items = items, pg_NextCursor = []\<rparr>)))))"

definition Query_List :: "json_codec \<Rightarrow> 'w page_repo \<Rightarrow> int64 \<Rightarrow> int \<Rightarrow> ('w, Order list) go" where
  "Query_List J R userID limit = bindG (ListPage J R userID [] [] limit) (\<lambda>page. returnG (pg_Items page))"

section \<open>The handlers\<close>

record OrderReply =
  orp_OrderNumber :: int64
  orp_Status :: string
  orp_AmountCent :: int64
  orp_ProgramId :: int64
  orp_TicketCategoryId :: int64
  orp_SeatIds :: "int64 list"
  orp_TicketUserIds :: "int64 list"
  orp_CreatedAt :: string
  orp_PaidAt :: string
  orp_CanceledAt :: string
  orp_RefundedAt :: string

text \<open>\<open>fmt_time\<close> is \<open>Time.Format(time.RFC3339)\<close>; an unset field of a message is empty.\<close>

definition orderReply :: "(time \<Rightarrow> string) \<Rightarrow> Order \<Rightarrow> OrderReply" where
  "orderReply fmt_time current =
     (let opt = (\<lambda>t. case t of None \<Rightarrow> [] | Some t \<Rightarrow> fmt_time t) in
      \<lparr>orp_OrderNumber = ord_OrderNumber current, orp_Status = ord_Status current, orp_AmountCent = ord_AmountCent current,
       orp_ProgramId = ord_ProgramID current, orp_TicketCategoryId = ord_TicketCategoryID current, orp_SeatIds = ord_SeatIDs current,
       orp_TicketUserIds = ord_TicketUserIDs current, orp_CreatedAt = fmt_time (ord_CreatedAt current), orp_PaidAt = opt (ord_PaidAt current),
       orp_CanceledAt = opt (ord_CanceledAt current), orp_RefundedAt = opt (ord_RefundedAt current)\<rparr>)"

definition OrderSrv_CreateOrder :: "(Order \<Rightarrow> ('w, unit) go) \<Rightarrow> ('w \<Rightarrow> time) \<Rightarrow> int64 \<Rightarrow> int64 \<Rightarrow> int64 \<Rightarrow> int64 \<Rightarrow> ('w, int64) go" where
  "OrderSrv_CreateOrder save now orderNumber programID userID amountCent =
     bindG (getG now) (\<lambda>t. let created = Order_New orderNumber programID userID amountCent t in
       bindG (save created) (\<lambda>_. returnG (ord_OrderNumber created)))"

definition OrderSrv_GetOrder :: "(time \<Rightarrow> string) \<Rightarrow> 'w order_ports \<Rightarrow> int64 \<Rightarrow> int64 \<Rightarrow> ('w, OrderReply) go" where
  "OrderSrv_GetOrder fmt_time P orderNumber userID = bindG (Query_Get P orderNumber userID) (\<lambda>current. returnG (orderReply fmt_time current))"

definition OrderSrv_ListOrders ::
  "(time \<Rightarrow> string) \<Rightarrow> json_codec \<Rightarrow> 'w page_repo \<Rightarrow> int64 \<Rightarrow> string \<Rightarrow> string \<Rightarrow> int \<Rightarrow> ('w, OrderReply list \<times> string) go" where
  "OrderSrv_ListOrders fmt_time J R userID status cursor limit =
     bindG (ListPage J R userID status cursor limit) (\<lambda>page. returnG (map (orderReply fmt_time) (pg_Items page), pg_NextCursor page))"

definition OrderSrv_CancelOrder :: "(time \<Rightarrow> string) \<Rightarrow> 'w order_ports \<Rightarrow> int64 \<Rightarrow> int64 \<Rightarrow> ('w, OrderReply) go" where
  "OrderSrv_CancelOrder fmt_time P orderNumber userID =
     bindG (Cancel P orderNumber userID) (\<lambda>_.
     bindG (Query_Get P orderNumber userID) (\<lambda>current. returnG (orderReply fmt_time current)))"

section \<open>Walking through the pages\<close>

text \<open>A client that asks for the next page until there is none.\<close>

partial_function (option) walk_pages ::
  "json_codec \<Rightarrow> 'w page_repo \<Rightarrow> int64 \<Rightarrow> string \<Rightarrow> int \<Rightarrow> string \<Rightarrow> Order list \<Rightarrow> 'w \<Rightarrow> ((error + Order list) \<times> 'w) option" where
  "walk_pages J R userID status limit cursor acc w =
     (case ListPage J R userID status cursor limit w of
        (Inl e, w1) \<Rightarrow> Some (Inl e, w1)
      | (Inr page, w1) \<Rightarrow>
          if pg_NextCursor page = [] then Some (Inr (acc @ pg_Items page), w1)
          else walk_pages J R userID status limit (pg_NextCursor page) (acc @ pg_Items page) w1)"

definition pageable :: "OrderRepository \<Rightarrow> bool" where
  "pageable r \<longleftrightarrow> repo_ok r \<and> (\<forall>item \<in> snd ` set r. 0 < ord_OrderNumber item \<and> in64 (ord_OrderNumber item) \<and> ord_CreatedAt item \<noteq> 0)"

abbreviation orders_page :: "OrderRepository \<Rightarrow> int64 \<Rightarrow> Status \<Rightarrow> OrderListCursor \<Rightarrow> Order list" where
  "orders_page r u st c \<equiv> sort_key page_key (filter (page_filter u st c) (map snd r))"

lemma page_keys_distinct: "repo_ok r \<Longrightarrow> distinct (map page_key (orders_page r u st c))"
proof -
  assume ok: "repo_ok r"
  have "inj_on page_key (snd ` set r)"
  proof (rule inj_onI)
    fix x y assume xy: "x \<in> snd ` set r" "y \<in> snd ` set r" "page_key x = page_key y"
    then obtain n m where "(n, x) \<in> set r" "(m, y) \<in> set r" by auto
    moreover from this ok have "ord_OrderNumber x = n" "ord_OrderNumber y = m" unfolding repo_ok_def by fast+
    moreover have "ord_OrderNumber x = ord_OrderNumber y" using xy(3) by (simp add: page_key_def)
    moreover have "distinct (map fst r)" using ok by (simp add: repo_ok_def)
    ultimately show "x = y" by (metis map_of_is_SomeI option.inject)
  qed
  moreover have "distinct (map snd r)"
  proof -
    have "map fst r = map ord_OrderNumber (map snd r)"
      unfolding map_map using ok by (intro map_cong) (auto simp: repo_ok_def)
    moreover have "distinct (map fst r)" using ok by (simp add: repo_ok_def)
    ultimately show ?thesis by (metis distinct_map)
  qed
  ultimately show ?thesis by (auto simp: distinct_map intro: inj_on_subset)
qed

text \<open>What is behind the last order of a page is what its cursor selects.\<close>

lemma next_page:
  fixes r u st c and n :: nat
  defines "T \<equiv> orders_page r u st c"
  assumes "pageable r" and "n < length T" and "0 < n"
  shows "orders_page r u st \<lparr>cur_CreatedAt = ord_CreatedAt (last (take n T)), cur_OrderNumber = ord_OrderNumber (last (take n T))\<rparr> = drop n T"
proof -
  let ?x = "last (take n T)"
  let ?c = "\<lparr>cur_CreatedAt = ord_CreatedAt ?x, cur_OrderNumber = ord_OrderNumber ?x\<rparr>"
  have ne: "take n T \<noteq> []" using assms(3,4) by auto
  then have x: "?x \<in> set T" by (meson last_in_set in_set_takeD)
  then have xf: "page_filter u st c ?x" "ord_CreatedAt ?x \<noteq> 0" using assms(2) by (auto simp: T_def pageable_def)
  have "page_filter u st ?c y \<longleftrightarrow> page_key ?x < page_key y \<and> page_filter u st c y" for y
    using xf by (auto simp: page_filter_def page_key_def less_prod_def)
  then have pf: "page_filter u st ?c = (\<lambda>y. page_key ?x < page_key y \<and> page_filter u st c y)" by (rule ext)
  have "orders_page r u st ?c = filter (\<lambda>y. page_key ?x < page_key y) T"
    unfolding pf by (simp add: T_def filter_sort conj_commute)
  also have "\<dots> = drop n T"
    using page_keys_distinct [of r u st c] assms(2) ne by (intro page_rest) (auto simp: T_def pageable_def)
  finally show ?thesis .
qed

definition memory_pages :: "OrderRepository page_repo" where
  "memory_pages = Some Repo_ListByUserIDPage"

lemma ListPage_memory:
  assumes "0 < u" and "parseOrderStatus status = Inr st" and "decodeOrderCursor J cursor = Inr c"
  shows "ListPage J memory_pages u status cursor limit r =
    (let n = nat (page_limit limit); T = orders_page r u st c in
     (Inr (if n < length T
       then \<lparr>pg_Items = take n T, pg_NextCursor = encodeOrderCursor J \<lparr>cur_CreatedAt = ord_CreatedAt (last (take n T)), cur_OrderNumber = ord_OrderNumber (last (take n T))\<rparr>\<rparr>
       else \<lparr>pg_Items = T, pg_NextCursor = []\<rparr>), r))"
  using assms by (auto simp: ListPage_def memory_pages_def Repo_ListByUserIDPage_def bindG_def go_simps Let_def min_def)

lemma walk_memory:
  assumes "codec_ok J" and "pageable r" and "0 < u" and "parseOrderStatus status = Inr st"
    and "decodeOrderCursor J cursor = Inr c"
  shows "walk_pages J memory_pages u status limit cursor acc r = Some (Inr (acc @ orders_page r u st c), r)"
  using assms(5)
proof (induction "length (orders_page r u st c)" arbitrary: cursor c acc rule: less_induct)
  case less
  let ?n = "nat (page_limit limit)" and ?T = "orders_page r u st c"
  have n: "0 < ?n" by (simp add: page_limit_def Let_def)
  note page = ListPage_memory [OF assms(3,4) less.prems, of limit r, unfolded Let_def]
  show ?case
  proof (cases "?n < length ?T")
    case False
    then show ?thesis by (subst walk_pages.simps) (simp add: page)
  next
    case True
    let ?x = "last (take ?n ?T)"
    let ?c = "\<lparr>cur_CreatedAt = ord_CreatedAt ?x, cur_OrderNumber = ord_OrderNumber ?x\<rparr>"
    have "take ?n ?T \<noteq> []" using True n by (cases ?T) auto
    then have "?x \<in> set ?T" by (meson last_in_set in_set_takeD)
    then have x: "0 < ord_OrderNumber ?x" "in64 (ord_OrderNumber ?x)" using assms(2) by (auto simp: pageable_def)
    note cur = cursor_round_trip [OF assms(1), of ?c, simplified, OF x]
    have rest: "orders_page r u st ?c = drop ?n ?T" by (rule next_page [OF assms(2) True n])
    have "walk_pages J memory_pages u status limit cursor acc r = walk_pages J memory_pages u status limit (encodeOrderCursor J ?c) (acc @ take ?n ?T) r"
      using True cur(2) by (subst walk_pages.simps) (simp add: page)
    also have "\<dots> = Some (Inr ((acc @ take ?n ?T) @ orders_page r u st ?c), r)"
      using True n by (intro less.hyps cur(1)) (simp only: rest, simp)
    finally show ?thesis unfolding rest by simp
  qed
qed

section \<open>Properties\<close>

text \<open>
  C36. Walking through the pages terminates and shows every order once: following the cursors from the first page
  with any page size, a client sees exactly the user's orders with the status asked for, newest first, without
  gaps or repetitions.
\<close>

theorem order_pages_complete:
  assumes "codec_ok J" and "pageable r" and "0 < u" and "parseOrderStatus status = Inr st"
  shows "\<exists>items. walk_pages J memory_pages u status limit [] [] r = Some (Inr items, r)
    \<and> set items = {item \<in> snd ` set r. ord_UserID item = u \<and> (st = [] \<or> ord_Status item = st)}
    \<and> distinct items \<and> sorted (map page_key items)"
proof -
  have "decodeOrderCursor J [] = Inr no_cursor" by (simp add: decodeOrderCursor_def trim_space_def trim_def)
  from walk_memory [OF assms this, of limit "[]"] have "walk_pages J memory_pages u status limit [] [] r = Some (Inr (orders_page r u st no_cursor), r)" by simp
  moreover have "distinct (orders_page r u st no_cursor)"
    using page_keys_distinct [of r u st no_cursor] assms(2) by (auto simp: pageable_def distinct_map)
  ultimately show ?thesis by (auto simp: page_filter_def)
qed

text \<open>One text form of the pairs in a cursor, with the numbers in decimal.\<close>

definition pair_codec :: json_codec where
  "pair_codec = ((\<lambda>d. case d of JArr [JTime t, JInt n] \<Rightarrow> show_int t @ '':'' @ show_int n | _ \<Rightarrow> []),
     (\<lambda>s. Some (JArr [JTime (read_int (takeWhile (\<lambda>c. c \<noteq> CHR '':'') s)), JInt (read_int (tl (dropWhile (\<lambda>c. c \<noteq> CHR '':'') s)))])))"

lemma pair_codec_ok: "codec_ok pair_codec"
proof -
  have "takeWhile (\<lambda>c. c \<noteq> CHR '':'') (show_int t @ CHR '':'' # xs) = show_int t"
    "dropWhile (\<lambda>c. c \<noteq> CHR '':'') (show_int t @ CHR '':'' # xs) = CHR '':'' # xs" for t xs
    using colon_not_in_show_int [of t] by (simp_all add: takeWhile_append dropWhile_append)
  then show ?thesis by (simp add: codec_ok_def pair_codec_def read_show_int)
qed

definition sample_orders :: OrderRepository where
  "sample_orders = [(1, (Order_New 1 7 3 500 10)), (2, (Order_New 2 7 3 500 30)), (3, (Order_New 3 7 4 500 20)), (4, (Order_New 4 7 3 500 30))]"

theorem order_pages_complete_witness:
  "\<exists>items. walk_pages pair_codec memory_pages 3 ''no_pay'' 1 [] [] sample_orders = Some (Inr items, sample_orders)
     \<and> ord_OrderNumber ` set items = {1, 2, 4}"
proof -
  have "pageable sample_orders" by (simp add: pageable_def repo_ok_def sample_orders_def Order_New_def in64_def)
  moreover have "parseOrderStatus ''no_pay'' = Inr StatusNoPay" by code_simp
  ultimately obtain items where i: "walk_pages pair_codec memory_pages 3 ''no_pay'' 1 [] [] sample_orders = Some (Inr items, sample_orders)"
    "set items = {item \<in> snd ` set sample_orders. ord_UserID item = 3 \<and> (StatusNoPay = [] \<or> ord_Status item = StatusNoPay)}"
    using order_pages_complete [OF pair_codec_ok, of sample_orders 3 "''no_pay''" StatusNoPay 1] by auto
  have "{item \<in> snd ` set sample_orders. ord_UserID item = 3 \<and> (StatusNoPay = [] \<or> ord_Status item = StatusNoPay)} =
      set (filter (\<lambda>item. ord_UserID item = 3 \<and> ord_Status item = StatusNoPay) (map snd sample_orders))" by auto
  then have "ord_OrderNumber ` set items = {1, 2, 4}" unfolding i(2) by (simp add: sample_orders_def Order_New_def)
  with i(1) show ?thesis by blast
qed

end
