(* ===== verification/Order_Tables.thy ===== *)
theory Order_Tables
  imports Orders Events
begin

text \<open>
  Orders in MySQL (\<open>src/app/order-service/internal/infrastructure/mysql/order_repository.go\<close>).

  A table of orders is an association list from its primary key, the order number, to rows; nullable columns are
  options and the JSON columns are documents as in \<open>Events\<close>. The databases are a map from a database and a
  table name to tables. Every statement takes the next fault of the databases: it is executed, or it is refused, or it is
  executed and its reply is lost; the last two report the driver's error. A \<open>DATETIME(3)\<close> column keeps \<open>dt t\<close> of
  a time \<open>t\<close>; \<open>dt\<close> is a parameter, and what the development relies on is that storing a stored time again does not
  change it.
\<close>

section \<open>Rows and tables\<close>

record order_row =
  row_order_number :: int64
  row_program_id :: int64
  row_user_id :: int64
  row_ticket_category_id :: "int64 option"
  row_seat_ids :: "json option"
  row_ticket_user_ids :: "json option"
  row_amount_cent :: int64
  row_status :: string
  row_created_at :: time
  row_paid_at :: "time option"
  row_canceled_at :: "time option"
  row_refunded_at :: "time option"
  row_reconciliation_status :: "string option"

type_synonym order_table = "(int64 \<times> order_row) list"

datatype db_fault = Works | Refused | ReplyLost

record order_dbs =
  od_tables :: "string \<times> string \<Rightarrow> order_table option"
  od_faults :: "db_fault list"
  od_error :: error

definition sql_run :: "string \<Rightarrow> string \<Rightarrow> (order_table \<Rightarrow> 'a \<times> order_table) \<Rightarrow> (order_dbs, 'a) go" where
  "sql_run db table stmt s =
     (let fault = (case od_faults s of [] \<Rightarrow> Works | f # _ \<Rightarrow> f);
          s1 = s\<lparr>od_faults := tl (od_faults s)\<rparr>
      in case od_tables s (db, table) of
           None \<Rightarrow> (Inl (od_error s), s1)
         | Some t \<Rightarrow>
             if fault = Refused then (Inl (od_error s), s1)
             else (let (a, t') = stmt t;
                       s2 = s1\<lparr>od_tables := (od_tables s)((db, table) \<mapsto> t')\<rparr>
                   in (if fault = ReplyLost then Inl (od_error s) else Inr a, s2)))"

section \<open>Columns\<close>

definition nullTime :: "(time \<Rightarrow> time) \<Rightarrow> time option \<Rightarrow> time option" where
  "nullTime dt value = map_option dt value"

definition nullInt64 :: "int64 \<Rightarrow> int64 option" where
  "nullInt64 value = (if value > 0 then Some value else None)"

definition jsonInt64Slice :: "int64 list \<Rightarrow> json option" where
  "jsonInt64Slice values = (if values = [] then None else Some (JArr (map JInt values)))"

definition order_values :: "(time \<Rightarrow> time) \<Rightarrow> Order \<Rightarrow> order_row" where
  "order_values dt item = \<lparr>row_order_number = ord_OrderNumber item, row_program_id = ord_ProgramID item, row_user_id = ord_UserID item,
     row_ticket_category_id = nullInt64 (ord_TicketCategoryID item), row_seat_ids = jsonInt64Slice (ord_SeatIDs item),
     row_ticket_user_ids = jsonInt64Slice (ord_TicketUserIDs item), row_amount_cent = ord_AmountCent item,
     row_status = ord_Status item, row_created_at = dt (ord_CreatedAt item), row_paid_at = nullTime dt (ord_PaidAt item),
     row_canceled_at = nullTime dt (ord_CanceledAt item), row_refunded_at = nullTime dt (ord_RefundedAt item),
     row_reconciliation_status = None\<rparr>"

abbreviation ErrNoRows :: error where
  "ErrNoRows \<equiv> PlainError ''sql: no rows in result set''"

definition scan_ints :: "json option \<Rightarrow> int64 list option" where
  "scan_ints v = (case v of None \<Rightarrow> Some [] | Some doc \<Rightarrow> get_ints doc)"

definition scanOrder :: "order_row option \<Rightarrow> error + Order" where
  "scanOrder row = (case row of
     None \<Rightarrow> Inl (New CodeNotFound ''order not found'')
   | Some r \<Rightarrow> (case scan_ints (row_seat_ids r) of
       None \<Rightarrow> Inl (Wrap CodeInfrastructure ''decode order seat ids failed'' (PlainError ''json: cannot unmarshal''))
     | Some seatIDs \<Rightarrow> (case scan_ints (row_ticket_user_ids r) of
         None \<Rightarrow> Inl (Wrap CodeInfrastructure ''decode order ticket user ids failed'' (PlainError ''json: cannot unmarshal''))
       | Some ticketUserIDs \<Rightarrow>
           Inr \<lparr>ord_OrderNumber = row_order_number r, ord_ProgramID = row_program_id r, ord_UserID = row_user_id r,
                ord_TicketCategoryID = (case row_ticket_category_id r of None \<Rightarrow> 0 | Some c \<Rightarrow> c),
                ord_SeatIDs = seatIDs, ord_TicketUserIDs = ticketUserIDs, ord_AmountCent = row_amount_cent r,
                ord_Status = row_status r, ord_CreatedAt = row_created_at r, ord_PaidAt = row_paid_at r,
                ord_CanceledAt = row_canceled_at r, ord_RefundedAt = row_refunded_at r\<rparr>)))"

section \<open>Statements\<close>

text \<open>
  \<open>INSERT ... ON DUPLICATE KEY UPDATE order_number = VALUES(order_number)\<close> and \<open>INSERT IGNORE\<close>: an existing row stays.
\<close>

definition insert_row :: "(time \<Rightarrow> time) \<Rightarrow> Order \<Rightarrow> order_table \<Rightarrow> unit \<times> order_table" where
  "insert_row dt item t = ((), if map_of t (ord_OrderNumber item) = None then t @ [(ord_OrderNumber item, order_values dt item)] else t)"

text \<open>
  \<open>UPDATE ... SET status, paid_at, canceled_at, refunded_at WHERE order_number = ? AND user_id = ? AND status IN (?, ?)\<close>;
  the result says whether a row was changed.
\<close>

definition set_transition :: "(time \<Rightarrow> time) \<Rightarrow> Order \<Rightarrow> order_row \<Rightarrow> order_row" where
  "set_transition dt item r = r\<lparr>row_status := ord_Status item, row_paid_at := nullTime dt (ord_PaidAt item),
     row_canceled_at := nullTime dt (ord_CanceledAt item), row_refunded_at := nullTime dt (ord_RefundedAt item)\<rparr>"

definition update_row :: "(time \<Rightarrow> time) \<Rightarrow> Status \<Rightarrow> Order \<Rightarrow> order_table \<Rightarrow> bool \<times> order_table" where
  "update_row dt previous item t = (case map_of t (ord_OrderNumber item) of
     None \<Rightarrow> (False, t)
   | Some r \<Rightarrow>
       if row_user_id r = ord_UserID item \<and> (row_status r = previous \<or> row_status r = ord_Status item)
       then (set_transition dt item r \<noteq> r, AList.update (ord_OrderNumber item) (set_transition dt item r) t)
       else (False, t))"

text \<open>\<open>SELECT status ... WHERE order_number = ? AND user_id = ?\<close>\<close>

definition select_status :: "int64 \<Rightarrow> int64 \<Rightarrow> order_table \<Rightarrow> string option \<times> order_table" where
  "select_status orderNumber userID t =
     (case map_of t orderNumber of
        Some r \<Rightarrow> (if row_user_id r = userID then Some (row_status r) else None, t)
      | None \<Rightarrow> (None, t))"

text \<open>\<open>SELECT ... WHERE order_number = ?\<close>, with \<open>AND user_id = ?\<close> if a user is given.\<close>

definition select_order :: "int64 \<Rightarrow> int64 option \<Rightarrow> order_table \<Rightarrow> order_row option \<times> order_table" where
  "select_order orderNumber user t =
     (case map_of t orderNumber of
        Some r \<Rightarrow> (if user = None \<or> user = Some (row_user_id r) then Some r else None, t)
      | None \<Rightarrow> (None, t))"

definition row_filter :: "int64 \<Rightarrow> Status \<Rightarrow> OrderListCursor \<Rightarrow> order_row \<Rightarrow> bool" where
  "row_filter userID status before r \<longleftrightarrow>
     row_user_id r = userID \<and> (status = [] \<or> row_status r = status)
     \<and> (cur_CreatedAt before = 0 \<or> row_created_at r < cur_CreatedAt before
        \<or> row_created_at r = cur_CreatedAt before \<and> row_order_number r < cur_OrderNumber before)"

definition select_page :: "int64 \<Rightarrow> Status \<Rightarrow> OrderListCursor \<Rightarrow> nat \<Rightarrow> order_table \<Rightarrow> order_row list \<times> order_table" where
  "select_page userID status before limit t =
     (take limit (sort_key (\<lambda>r. (- row_created_at r, - row_order_number r)) (filter (row_filter userID status before) (map snd t))), t)"

text \<open>\<open>SELECT ticket_category_id, SUM(...) ... GROUP BY ticket_category_id\<close>\<close>

definition json_length :: "json option \<Rightarrow> int64 option" where
  "json_length v = (case v of None \<Rightarrow> None | Some (JArr xs) \<Rightarrow> Some (int (length xs)) | Some (JObj fs) \<Rightarrow> Some (int (length fs)) | Some _ \<Rightarrow> Some 1)"

definition row_tickets :: "order_row \<Rightarrow> int64" where
  "row_tickets r =
     (let coalesce = (\<lambda>v. case v of None \<Rightarrow> 0 | Some n \<Rightarrow> n) in
      if coalesce (json_length (row_seat_ids r)) > 0 then coalesce (json_length (row_seat_ids r))
      else coalesce (json_length (row_ticket_user_ids r)))"

definition usage_row :: "int64 \<Rightarrow> order_row \<Rightarrow> bool" where
  "usage_row programID r \<longleftrightarrow> row_program_id r = programID \<and> row_status r \<in> {StatusNoPay, StatusPaid} \<and> row_ticket_category_id r \<noteq> None"

definition select_usage :: "int64 \<Rightarrow> order_table \<Rightarrow> (int64 \<times> int64) list \<times> order_table" where
  "select_usage programID t =
     (let rs = filter (usage_row programID) (map snd t) in
      (map (\<lambda>c. (c, sum_list (map row_tickets (filter (\<lambda>r. row_ticket_category_id r = Some c) rs))))
         (remdups (List.map_filter row_ticket_category_id rs)), t))"

section \<open>The repository of one table\<close>

definition allowedPreviousStatus :: "Status \<Rightarrow> error + Status" where
  "allowedPreviousStatus target =
     (if target = StatusPaid \<or> target = StatusCancel then Inr StatusNoPay
      else if target = StatusRefund then Inr StatusCancel
      else Inl (New CodeOrderStateConflict ''unsupported order status transition''))"

definition wrap_sql :: "string \<Rightarrow> (order_dbs, 'a) go \<Rightarrow> (order_dbs, 'a) go" where
  "wrap_sql message m = attemptG m (\<lambda>r. case r of Inl e \<Rightarrow> failG (Wrap CodeInfrastructure message e) | Inr x \<Rightarrow> returnG x)"

definition liftE :: "error + 'a \<Rightarrow> ('w, 'a) go" where
  "liftE r = (case r of Inl e \<Rightarrow> failG e | Inr x \<Rightarrow> returnG x)"

fun scan_orders :: "order_row list \<Rightarrow> error + Order list" where
  "scan_orders [] = Inr []"
| "scan_orders (r # rs) = (case scanOrder (Some r) of
     Inl e \<Rightarrow> Inl e
   | Inr item \<Rightarrow> (case scan_orders rs of Inl e \<Rightarrow> Inl e | Inr items \<Rightarrow> Inr (item # items)))"

text \<open>The guarded update, and the check of the status when no row was changed.\<close>

definition transition_at :: "(time \<Rightarrow> time) \<Rightarrow> string \<Rightarrow> string \<Rightarrow> string \<Rightarrow> string \<Rightarrow> Order \<Rightarrow> (order_dbs, unit) go" where
  "transition_at dt db table updateFailed verifyFailed item = (case allowedPreviousStatus (ord_Status item) of
     Inl e \<Rightarrow> failG e
   | Inr previous \<Rightarrow>
       bindG (wrap_sql updateFailed (sql_run db table (update_row dt previous item))) (\<lambda>affected.
       if affected then returnG ()
       else bindG (wrap_sql verifyFailed (sql_run db table (select_status (ord_OrderNumber item) (ord_UserID item)))) (\<lambda>current.
         case current of
           None \<Rightarrow> failG (Wrap CodeInfrastructure verifyFailed ErrNoRows)
         | Some status \<Rightarrow>
             if status \<noteq> ord_Status item then failG (New CodeOrderStateConflict ''order status changed concurrently'')
             else returnG ())))"

definition MySQL_Save :: "(time \<Rightarrow> time) \<Rightarrow> string \<Rightarrow> Order \<Rightarrow> (order_dbs, unit) go" where
  "MySQL_Save dt db item = wrap_sql ''save order failed'' (sql_run db ''orders'' (insert_row dt item))"

definition MySQL_FindByOrderNumber :: "string \<Rightarrow> int64 \<Rightarrow> int64 \<Rightarrow> (order_dbs, Order) go" where
  "MySQL_FindByOrderNumber db orderNumber userID =
     bindG (wrap_sql ''query order failed'' (sql_run db ''orders'' (select_order orderNumber (Some userID)))) (\<lambda>row. liftE (scanOrder row))"

definition MySQL_FindByOrderNumberSystem :: "string \<Rightarrow> int64 \<Rightarrow> (order_dbs, Order) go" where
  "MySQL_FindByOrderNumberSystem db orderNumber =
     bindG (wrap_sql ''query order failed'' (sql_run db ''orders'' (select_order orderNumber None))) (\<lambda>row. liftE (scanOrder row))"

definition MySQL_ListByUserIDPage :: "string \<Rightarrow> int64 \<Rightarrow> Status \<Rightarrow> OrderListCursor \<Rightarrow> nat \<Rightarrow> (order_dbs, Order list) go" where
  "MySQL_ListByUserIDPage db userID status before limit =
     bindG (wrap_sql ''list orders failed'' (sql_run db ''orders'' (select_page userID status before limit))) (\<lambda>rows. liftE (scan_orders rows))"

definition MySQL_ListByUserID :: "string \<Rightarrow> int64 \<Rightarrow> nat \<Rightarrow> (order_dbs, Order list) go" where
  "MySQL_ListByUserID db userID limit = MySQL_ListByUserIDPage db userID [] no_cursor limit"

definition MySQL_Update :: "(time \<Rightarrow> time) \<Rightarrow> string \<Rightarrow> Order \<Rightarrow> (order_dbs, unit) go" where
  "MySQL_Update dt db item = transition_at dt db ''orders'' ''update order failed'' ''verify order update conflict failed'' item"

definition MySQL_ListInventoryUsage :: "string \<Rightarrow> int64 \<Rightarrow> (order_dbs, (int64 \<times> int64) list) go" where
  "MySQL_ListInventoryUsage db programID =
     wrap_sql ''list order inventory usage failed'' (sql_run db ''orders'' (select_usage programID))"

section \<open>Orders as rows\<close>

text \<open>The order a table gives back: times as the columns keep them, and no category below 1.\<close>

definition stored :: "(time \<Rightarrow> time) \<Rightarrow> Order \<Rightarrow> Order" where
  "stored dt item = item\<lparr>ord_TicketCategoryID := (if ord_TicketCategoryID item > 0 then ord_TicketCategoryID item else 0),
     ord_CreatedAt := dt (ord_CreatedAt item), ord_PaidAt := map_option dt (ord_PaidAt item),
     ord_CanceledAt := map_option dt (ord_CanceledAt item), ord_RefundedAt := map_option dt (ord_RefundedAt item)\<rparr>"

definition order_in64 :: "Order \<Rightarrow> bool" where
  "order_in64 item \<longleftrightarrow> (\<forall>x \<in> set (ord_SeatIDs item) \<union> set (ord_TicketUserIDs item). in64 x)"

definition keeps_stored :: "(time \<Rightarrow> time) \<Rightarrow> bool" where
  "keeps_stored dt \<longleftrightarrow> (\<forall>t. dt (dt t) = dt t)"

lemma scan_ints_values: "\<forall>x \<in> set xs. in64 x \<Longrightarrow> scan_ints (jsonInt64Slice xs) = Some xs"
  using get_ints_round_trip [of xs] by (auto simp: scan_ints_def jsonInt64Slice_def json_ints_def)

lemma scan_values: "order_in64 item \<Longrightarrow> scanOrder (Some (order_values dt item)) = Inr (stored dt item)"
  by (simp add: scanOrder_def order_values_def scan_ints_values order_in64_def stored_def nullInt64_def nullTime_def)

lemma values_stored: "keeps_stored dt \<Longrightarrow> order_values dt (stored dt item) = order_values dt item"
  by (auto simp: order_values_def stored_def keeps_stored_def nullInt64_def nullTime_def option.map_comp comp_def)

text \<open>How a row may develop: as the order it holds.\<close>

definition row_evolves :: "order_row \<Rightarrow> order_row \<Rightarrow> bool" where
  "row_evolves r r' \<longleftrightarrow> status_reach (row_status r) (row_status r')
     \<and> (\<exists>paid canceled refunded. r' = r\<lparr>row_status := row_status r', row_paid_at := paid, row_canceled_at := canceled, row_refunded_at := refunded\<rparr>)"

lemma row_evolves_refl [simp]: "row_evolves r r"
  by (cases r) (auto simp: row_evolves_def status_reach_def)

lemma row_evolves_trans: "row_evolves a b \<Longrightarrow> row_evolves b c \<Longrightarrow> row_evolves a c"
  by (cases a; cases b; cases c) (auto simp: row_evolves_def status_reach_def)

lemma allowed_reach:
  "allowedPreviousStatus target = Inr previous \<Longrightarrow> status = previous \<or> status = target \<Longrightarrow> status_reach status target"
  by (auto simp: allowedPreviousStatus_def status_reach_def split: if_splits)

lemma transition_evolves:
  "allowedPreviousStatus (ord_Status item) = Inr previous \<Longrightarrow> row_status r = previous \<or> row_status r = ord_Status item
    \<Longrightarrow> row_evolves r (set_transition dt item r)"
  using allowed_reach [of "ord_Status item" previous "row_status r"] by (auto simp: row_evolves_def set_transition_def)

section \<open>What statements do to rows\<close>

definition cell :: "string \<times> string \<Rightarrow> int64 \<Rightarrow> order_dbs \<Rightarrow> order_row option" where
  "cell l n s = (case od_tables s l of None \<Rightarrow> None | Some t \<Rightarrow> map_of t n)"

text \<open>The rows of \<open>s\<close> are still there in \<open>s'\<close>, each related by \<open>Q\<close> to what it was.\<close>

definition rows_rel :: "(order_row \<Rightarrow> order_row \<Rightarrow> bool) \<Rightarrow> order_dbs \<Rightarrow> order_dbs \<Rightarrow> bool" where
  "rows_rel Q s s' \<longleftrightarrow> (\<forall>l n r. cell l n s = Some r \<longrightarrow> (\<exists>r'. cell l n s' = Some r' \<and> Q r r'))"

abbreviation rows_evolve :: "order_dbs \<Rightarrow> order_dbs \<Rightarrow> bool" where
  "rows_evolve \<equiv> rows_rel row_evolves"

abbreviation rows_stay :: "order_dbs \<Rightarrow> order_dbs \<Rightarrow> bool" where
  "rows_stay \<equiv> rows_rel (=)"

interpretation rows: state_preorder rows_evolve
proof
  show "rows_evolve s s" for s by (auto simp: rows_rel_def)
  show "rows_evolve s t \<Longrightarrow> rows_evolve t u \<Longrightarrow> rows_evolve s u" for s t u
    unfolding rows_rel_def by (meson row_evolves_trans)
qed

interpretation stay: state_preorder rows_stay
  by unfold_locales (auto simp: rows_rel_def)

lemma sql_run_rel:
  assumes refl: "\<And>r. Q r r" and "\<And>t n r. map_of t n = Some r \<Longrightarrow> \<exists>r'. map_of (snd (stmt t)) n = Some r' \<and> Q r r'"
  shows "keepsG (rows_rel Q) (sql_run db table stmt)"
  unfolding keepsG_def
proof
  fix s
  show "rows_rel Q s (snd (sql_run db table stmt s))"
  proof (cases "od_tables s (db, table)")
    case None
    with refl show ?thesis by (auto simp: sql_run_def Let_def rows_rel_def cell_def)
  next
    case (Some t)
    obtain a t' where st: "stmt t = (a, t')" by (metis surj_pair)
    have "\<exists>r'. map_of t' n = Some r' \<and> Q r r'" if "map_of t n = Some r" for n r
      using assms(2) [OF that] st by simp
    with Some st refl show ?thesis by (auto simp: sql_run_def Let_def rows_rel_def cell_def)
  qed
qed

lemmas sql_run_evolves = sql_run_rel [of row_evolves, OF row_evolves_refl]

text \<open>Inserting leaves the rows that are there as they are.\<close>

lemma insert_stays: "keepsG rows_stay (sql_run db table (insert_row dt item))"
  by (rule sql_run_rel) (auto simp: insert_row_def map_add_Some_iff)

lemma wrap_sql_stays: "keepsG rows_stay m \<Longrightarrow> keepsG rows_stay (wrap_sql message m)"
  unfolding wrap_sql_def by (intro stay.keeps_attempt) (auto split: sum.splits intro: stay.keeps_fail stay.keeps_return)

lemma liftE_stays: "keepsG rows_stay (liftE r)"
  by (auto simp: liftE_def split: sum.splits intro: stay.keeps_fail stay.keeps_return)

text \<open>A statement that is answered, and a statement when no fault is left.\<close>

lemma sql_run_Inr:
  assumes "sql_run db table stmt s = (Inr a, s')"
  shows "\<exists>t. od_tables s (db, table) = Some t \<and> a = fst (stmt t)
    \<and> s' = s\<lparr>od_faults := tl (od_faults s), od_tables := (od_tables s)((db, table) \<mapsto> snd (stmt t))\<rparr>"
  using assms by (auto simp: sql_run_def Let_def split: option.splits if_splits prod.splits)

lemma sql_run_works:
  "od_faults s = [] \<Longrightarrow> od_tables s (db, table) = Some t
    \<Longrightarrow> sql_run db table stmt s = (Inr (fst (stmt t)), s\<lparr>od_tables := (od_tables s)((db, table) \<mapsto> snd (stmt t))\<rparr>)"
  by (cases s) (simp add: sql_run_def Let_def split: prod.splits)

lemma sql_read:
  "od_faults s = [] \<Longrightarrow> od_tables s (db, table) = Some t \<Longrightarrow> stmt t = (a, t) \<Longrightarrow> sql_run db table stmt s = (Inr a, s)"
  by (cases s) (auto simp: sql_run_def Let_def fun_upd_idem)

lemma select_evolves:
  "keepsG rows_evolve (sql_run db table (select_status n u))" "keepsG rows_evolve (sql_run db table (select_order n user))"
  "keepsG rows_evolve (sql_run db table (select_page u status before limit))" "keepsG rows_evolve (sql_run db table (select_usage p))"
  by (rule sql_run_evolves; auto simp: select_status_def select_order_def select_page_def select_usage_def Let_def split: option.splits)+

lemma insert_evolves: "keepsG rows_evolve (sql_run db table (insert_row dt item))"
  by (rule sql_run_evolves) (auto simp: insert_row_def map_add_Some_iff)

lemma update_evolves_rows:
  assumes "allowedPreviousStatus (ord_Status item) = Inr previous"
  shows "keepsG rows_evolve (sql_run db table (update_row dt previous item))"
  using transition_evolves [OF assms] by (intro sql_run_evolves) (auto simp: update_row_def update_conv' split: option.splits)

lemma wrap_sql_evolves: "keepsG rows_evolve m \<Longrightarrow> keepsG rows_evolve (wrap_sql message m)"
  unfolding wrap_sql_def by (intro rows.keeps_attempt) (auto split: sum.splits intro: rows.keeps_fail rows.keeps_return)

lemma liftE_evolves: "keepsG rows_evolve (liftE r)"
  by (auto simp: liftE_def split: sum.splits intro: rows.keeps_fail rows.keeps_return)

lemma transition_at_evolves: "keepsG rows_evolve (transition_at dt db table m1 m2 item)"
proof (cases "allowedPreviousStatus (ord_Status item)")
  case (Inl e)
  then show ?thesis by (simp add: transition_at_def rows.keeps_fail)
next
  case (Inr previous)
  have "keepsG rows_evolve (case current of None \<Rightarrow> failG (Wrap CodeInfrastructure m2 ErrNoRows) | Some status \<Rightarrow>
      if status \<noteq> ord_Status item then failG (New CodeOrderStateConflict ''order status changed concurrently'') else returnG ())" for current
    by (auto split: option.splits intro: rows.keeps_fail rows.keeps_return)
  with Inr show ?thesis unfolding transition_at_def
    by (auto intro!: rows.keeps_bind wrap_sql_evolves update_evolves_rows select_evolves rows.keeps_return)
qed

lemmas statements_evolve = select_evolves insert_evolves wrap_sql_evolves liftE_evolves transition_at_evolves
  rows.keeps_bind rows.keeps_fail rows.keeps_return

end
