(* ===== verification/Sharded_Orders.thy ===== *)
theory Sharded_Orders
  imports Order_Tables Sharding
begin

text \<open>
  The sharded order repository
  (\<open>src/app/order-service/internal/infrastructure/mysql/sharded_order_repository.go\<close>): orders are written to all
  locations of the router's write targets and read from its primary location. The router is the interface
  \<open>OrderRouter\<close> with the optional interfaces the repository asks for; \<open>mapping_shards\<close> is the mapping router.
  The pool of connections gives the database a connection is for.

  The lemmas show what a call does to the row of an order at a location: stored rows are never lost, follow the
  state machine of orders whatever the caller passes, and a saved order is read back.
\<close>

section \<open>The repository\<close>

record shard_router =
  rt_RouteOrder :: "int64 \<Rightarrow> int64 \<Rightarrow> Location"
  rt_RouteOrderWrites :: "(int64 \<Rightarrow> int64 \<Rightarrow> Location list) option"
  rt_PrimaryLocations :: "Location list option"
  rt_MappingFresh :: "(duration \<Rightarrow> bool) option"

record ShardedOrderRepository =
  sr_databases :: "(string \<rightharpoonup> string option) option"
  sr_router :: shard_router

definition DefaultMappingMaxStaleness :: duration where
  "DefaultMappingMaxStaleness = 15 * 1000000000"

definition mapping_shards :: "time \<Rightarrow> MappingOrderRouter \<Rightarrow> shard_router" where
  "mapping_shards now r = \<lparr>rt_RouteOrder = Mapping_RouteOrder r, rt_RouteOrderWrites = Some (Mapping_RouteOrderWrites r),
     rt_PrimaryLocations = Some (Mapping_PrimaryLocations r), rt_MappingFresh = Some (\<lambda>maxAge. MappingFresh now maxAge r)\<rparr>"

definition ensureFreshMapping :: "ShardedOrderRepository \<Rightarrow> ('w, unit) go" where
  "ensureFreshMapping R = (case rt_MappingFresh (sr_router R) of
     Some fresh \<Rightarrow> if \<not> fresh DefaultMappingMaxStaleness then failG (New CodeInfrastructure ''order shard mapping is stale'') else returnG ()
   | None \<Rightarrow> returnG ())"

definition location_name :: "Location \<Rightarrow> string" where
  "location_name l = loc_Database l @ ''.'' @ loc_Table l"

fun unique_from :: "string set \<Rightarrow> Location list \<Rightarrow> Location list" where
  "unique_from seen [] = []"
| "unique_from seen (l # ls) =
     (if location_name l \<in> seen then unique_from seen ls else l # unique_from (insert (location_name l) seen) ls)"

definition uniqueLocations :: "Location list \<Rightarrow> Location list" where
  "uniqueLocations locations = unique_from {} locations"

definition writeLocations :: "ShardedOrderRepository \<Rightarrow> int64 \<Rightarrow> int64 \<Rightarrow> Location list" where
  "writeLocations R orderNumber userID =
     (case rt_RouteOrderWrites (sr_router R) of
        Some writes \<Rightarrow>
          (let locations = writes orderNumber userID in
           if locations \<noteq> [] then uniqueLocations locations else [rt_RouteOrder (sr_router R) orderNumber userID])
      | None \<Rightarrow> [rt_RouteOrder (sr_router R) orderNumber userID])"

definition resolve :: "ShardedOrderRepository \<Rightarrow> Location \<Rightarrow> error + (string \<times> string)" where
  "resolve R location =
     (if \<not> is_ident (loc_Database location) \<or> \<not> is_ident (loc_Table location)
      then Inl (New CodeInfrastructure ''invalid order shard identifier'')
      else case Resolve (sr_databases R) (loc_Database location) of
        Inl e \<Rightarrow> Inl (Wrap CodeInfrastructure ''resolve order shard database failed'' e)
      | Inr database \<Rightarrow> Inr (database, loc_Table location))"

definition saveAt :: "(time \<Rightarrow> time) \<Rightarrow> ShardedOrderRepository \<Rightarrow> Location \<Rightarrow> Order \<Rightarrow> (order_dbs, unit) go" where
  "saveAt dt R location item = bindG (liftE (resolve R location)) (\<lambda>(database, table).
     wrap_sql (''save order to shard '' @ location_name location @ '' failed'') (sql_run database table (insert_row dt item)))"

definition insertIgnoreAt :: "(time \<Rightarrow> time) \<Rightarrow> ShardedOrderRepository \<Rightarrow> Location \<Rightarrow> Order \<Rightarrow> (order_dbs, unit) go" where
  "insertIgnoreAt dt R location item = bindG (liftE (resolve R location)) (\<lambda>(database, table).
     wrap_sql ''insert order transition row at shard failed'' (sql_run database table (insert_row dt item)))"

definition updateAt :: "(time \<Rightarrow> time) \<Rightarrow> ShardedOrderRepository \<Rightarrow> Location \<Rightarrow> Order \<Rightarrow> (order_dbs, unit) go" where
  "updateAt dt R location item = bindG (liftE (resolve R location)) (\<lambda>(database, table).
     transition_at dt database table ''update order transition at shard failed'' ''verify sharded order update conflict failed'' item)"

definition findAt :: "ShardedOrderRepository \<Rightarrow> Location \<Rightarrow> int64 \<Rightarrow> int64 \<Rightarrow> bool \<Rightarrow> (order_dbs, Order) go" where
  "findAt R location orderNumber userID enforceUser = bindG (liftE (resolve R location)) (\<lambda>(database, table).
     bindG (wrap_sql ''query order failed'' (sql_run database table (select_order orderNumber (if enforceUser then Some userID else None))))
       (\<lambda>row. liftE (scanOrder row)))"

definition listByUserAt :: "ShardedOrderRepository \<Rightarrow> Location \<Rightarrow> int64 \<Rightarrow> Status \<Rightarrow> OrderListCursor \<Rightarrow> nat \<Rightarrow> (order_dbs, Order list) go" where
  "listByUserAt R location userID status before limit = bindG (liftE (resolve R location)) (\<lambda>(database, table).
     bindG (wrap_sql (''list orders from shard '' @ location_name location @ '' failed'') (sql_run database table (select_page userID status before limit)))
       (\<lambda>rows. liftE (scan_orders rows)))"

fun save_all :: "(time \<Rightarrow> time) \<Rightarrow> ShardedOrderRepository \<Rightarrow> Location list \<Rightarrow> Order \<Rightarrow> (order_dbs, unit) go" where
  "save_all dt R [] item = returnG ()"
| "save_all dt R (l # ls) item = bindG (saveAt dt R l item) (\<lambda>_. save_all dt R ls item)"

definition Sharded_Save :: "(time \<Rightarrow> time) \<Rightarrow> ShardedOrderRepository \<Rightarrow> Order \<Rightarrow> (order_dbs, unit) go" where
  "Sharded_Save dt R item = bindG (ensureFreshMapping R) (\<lambda>_. save_all dt R (writeLocations R (ord_OrderNumber item) (ord_UserID item)) item)"

fun update_all :: "(time \<Rightarrow> time) \<Rightarrow> ShardedOrderRepository \<Rightarrow> Location list \<Rightarrow> Order \<Rightarrow> (order_dbs, unit) go" where
  "update_all dt R [] item = returnG ()"
| "update_all dt R (l # ls) item =
     bindG (insertIgnoreAt dt R l item) (\<lambda>_. bindG (updateAt dt R l item) (\<lambda>_. update_all dt R ls item))"

definition Sharded_Update :: "(time \<Rightarrow> time) \<Rightarrow> ShardedOrderRepository \<Rightarrow> Order \<Rightarrow> (order_dbs, unit) go" where
  "Sharded_Update dt R item = bindG (ensureFreshMapping R) (\<lambda>_. update_all dt R (writeLocations R (ord_OrderNumber item) (ord_UserID item)) item)"

definition Sharded_FindByOrderNumber :: "ShardedOrderRepository \<Rightarrow> int64 \<Rightarrow> int64 \<Rightarrow> (order_dbs, Order) go" where
  "Sharded_FindByOrderNumber R orderNumber userID = bindG (ensureFreshMapping R) (\<lambda>_.
     findAt R (rt_RouteOrder (sr_router R) orderNumber userID) orderNumber userID True)"

definition Sharded_FindByOrderNumberSystem :: "ShardedOrderRepository \<Rightarrow> int64 \<Rightarrow> (order_dbs, Order) go" where
  "Sharded_FindByOrderNumberSystem R orderNumber = bindG (ensureFreshMapping R) (\<lambda>_.
     findAt R (rt_RouteOrder (sr_router R) orderNumber 0) orderNumber 0 False)"

definition Sharded_ListByUserIDPage :: "ShardedOrderRepository \<Rightarrow> int64 \<Rightarrow> Status \<Rightarrow> OrderListCursor \<Rightarrow> nat \<Rightarrow> (order_dbs, Order list) go" where
  "Sharded_ListByUserIDPage R userID status before limit = bindG (ensureFreshMapping R) (\<lambda>_.
     listByUserAt R (rt_RouteOrder (sr_router R) 0 userID) userID status before limit)"

definition Sharded_ListByUserID :: "ShardedOrderRepository \<Rightarrow> int64 \<Rightarrow> nat \<Rightarrow> (order_dbs, Order list) go" where
  "Sharded_ListByUserID R userID limit = Sharded_ListByUserIDPage R userID [] no_cursor limit"

definition add_counts :: "(int64 \<times> int64) list \<Rightarrow> (int64 \<times> int64) list \<Rightarrow> (int64 \<times> int64) list" where
  "add_counts rows counts = fold (\<lambda>(categoryID, occupiedCount) cs.
     AList.update categoryID (wrap64 ((case map_of cs categoryID of None \<Rightarrow> 0 | Some n \<Rightarrow> n) + occupiedCount)) cs) rows counts"

definition addInventoryUsage :: "ShardedOrderRepository \<Rightarrow> Location \<Rightarrow> int64 \<Rightarrow> (int64 \<times> int64) list \<Rightarrow> (order_dbs, (int64 \<times> int64) list) go" where
  "addInventoryUsage R location programID counts = bindG (liftE (resolve R location)) (\<lambda>(database, table).
     bindG (wrap_sql (''list inventory usage from shard '' @ location_name location @ '' failed'') (sql_run database table (select_usage programID)))
       (\<lambda>rows. returnG (add_counts rows counts)))"

fun usage_all :: "ShardedOrderRepository \<Rightarrow> Location list \<Rightarrow> int64 \<Rightarrow> (int64 \<times> int64) list \<Rightarrow> (order_dbs, (int64 \<times> int64) list) go" where
  "usage_all R [] programID counts = returnG counts"
| "usage_all R (l # ls) programID counts = bindG (addInventoryUsage R l programID counts) (\<lambda>counts. usage_all R ls programID counts)"

definition Sharded_ListInventoryUsage :: "ShardedOrderRepository \<Rightarrow> int64 \<Rightarrow> (order_dbs, (int64 \<times> int64) list) go" where
  "Sharded_ListInventoryUsage R programID = bindG (ensureFreshMapping R) (\<lambda>_.
     case rt_PrimaryLocations (sr_router R) of
       None \<Rightarrow> failG (New CodeInfrastructure ''order shard router does not expose primary locations'')
     | Some locations \<Rightarrow> bindG (usage_all R (uniqueLocations locations) programID []) (\<lambda>counts.
         returnG (sort_key fst counts)))"

section \<open>Rows under the repository\<close>

lemma ensureFresh_evolves: "keepsG rows_evolve (ensureFreshMapping R)"
  by (auto simp: ensureFreshMapping_def split: option.splits intro: rows.keeps_fail rows.keeps_return)

lemma at_location_evolves:
  "keepsG rows_evolve (saveAt dt R l item)" "keepsG rows_evolve (insertIgnoreAt dt R l item)" "keepsG rows_evolve (updateAt dt R l item)"
  "keepsG rows_evolve (findAt R l n u enforce)" "keepsG rows_evolve (listByUserAt R l u status before limit)"
  "keepsG rows_evolve (addInventoryUsage R l p counts)"
  by (auto simp: saveAt_def insertIgnoreAt_def updateAt_def findAt_def listByUserAt_def addInventoryUsage_def
      intro!: statements_evolve split: prod.splits)

lemma all_locations_evolve:
  "keepsG rows_evolve (save_all dt R ls item)" "keepsG rows_evolve (update_all dt R ls item)" "keepsG rows_evolve (usage_all R ls p counts)"
proof -
  show "keepsG rows_evolve (save_all dt R ls item)" "keepsG rows_evolve (update_all dt R ls item)"
    by (induction ls) (auto intro!: statements_evolve at_location_evolves)
  show "keepsG rows_evolve (usage_all R ls p counts)"
    by (induction ls arbitrary: counts) (auto intro!: statements_evolve at_location_evolves)
qed

lemma sharded_calls_evolve:
  "keepsG rows_evolve (Sharded_Save dt R item)" "keepsG rows_evolve (Sharded_Update dt R item)"
  "keepsG rows_evolve (Sharded_FindByOrderNumber R n u)" "keepsG rows_evolve (Sharded_FindByOrderNumberSystem R n)"
  "keepsG rows_evolve (Sharded_ListByUserIDPage R u status before limit)" "keepsG rows_evolve (Sharded_ListInventoryUsage R p)"
  by (auto simp: Sharded_Save_def Sharded_Update_def Sharded_FindByOrderNumber_def Sharded_FindByOrderNumberSystem_def
      Sharded_ListByUserIDPage_def Sharded_ListInventoryUsage_def
      intro!: statements_evolve ensureFresh_evolves at_location_evolves all_locations_evolve split: option.splits)

lemma save_all_stays: "keepsG rows_stay (save_all dt R ls item)"
proof (induction ls)
  case (Cons l ls)
  have "keepsG rows_stay (saveAt dt R l item)"
    by (auto simp: saveAt_def intro!: stay.keeps_bind liftE_stays wrap_sql_stays insert_stays split: prod.splits)
  with Cons show ?case by (auto intro!: stay.keeps_bind)
qed (simp add: stay.keeps_return)

text \<open>Calls of any number of repositories, each with any router and pool, and of the repository of one table.\<close>

inductive shard_step :: "(time \<Rightarrow> time) \<Rightarrow> order_dbs \<Rightarrow> order_dbs \<Rightarrow> bool" for dt where
  save: "shard_step dt s (snd (Sharded_Save dt R item s))"
| update: "shard_step dt s (snd (Sharded_Update dt R item s))"
| find: "shard_step dt s (snd (Sharded_FindByOrderNumber R n u s))"
| system: "shard_step dt s (snd (Sharded_FindByOrderNumberSystem R n s))"
| page: "shard_step dt s (snd (Sharded_ListByUserIDPage R u status before limit s))"
| usage: "shard_step dt s (snd (Sharded_ListInventoryUsage R p s))"
| save_one: "shard_step dt s (snd (MySQL_Save dt db item s))"
| update_one: "shard_step dt s (snd (MySQL_Update dt db item s))"

lemma shard_step_evolves: "shard_step dt s s' \<Longrightarrow> rows_evolve s s'"
proof (induction rule: shard_step.induct)
  case (save_one s db item)
  have "keepsG rows_evolve (MySQL_Save dt db item)" unfolding MySQL_Save_def by (intro statements_evolve)
  then show ?case by (simp add: keepsG_def)
next
  case (update_one s db item)
  have "keepsG rows_evolve (MySQL_Update dt db item)" unfolding MySQL_Update_def by (intro statements_evolve)
  then show ?case by (simp add: keepsG_def)
qed (use sharded_calls_evolve in \<open>simp_all add: keepsG_def\<close>)

lemma writeLocations_mapping:
  assumes "router_ok m" and "sr_router R = mapping_shards now m"
  shows "\<exists>rest. writeLocations R n u = Mapping_RouteOrder m n u # rest"
proof -
  from mapping_router.reads_written [OF assms(1)] obtain rest where "Mapping_RouteOrderWrites m n u = Mapping_RouteOrder m n u # rest" by blast
  with assms(2) show ?thesis by (auto simp: writeLocations_def mapping_shards_def uniqueLocations_def)
qed

lemma saveAt_Inr:
  assumes "saveAt dt R l item s = (Inr (), s')" and "cell (d, t) n s = None" and "n = ord_OrderNumber item" and "resolve R l = Inr (d, t)"
  shows "cell (d, t) n s' = Some (order_values dt item)"
proof -
  from assms(1,4) have "sql_run d t (insert_row dt item) s = (Inr (), s')"
    by (auto simp: saveAt_def liftE_def wrap_sql_def attemptG_def go_simps split: sum.splits prod.splits)
  from sql_run_Inr [OF this] obtain tbl where "od_tables s (d, t) = Some tbl"
    "s' = s\<lparr>od_faults := tl (od_faults s), od_tables := (od_tables s)((d, t) \<mapsto> snd (insert_row dt item tbl))\<rparr>" by blast
  with assms(2,3) show ?thesis by (simp add: cell_def insert_row_def map_add_def)
qed

lemma findAt_works:
  assumes "resolve R l = Inr (d, t)" and "od_faults s = []" and "cell (d, t) n s = Some r" and "enforce \<longrightarrow> row_user_id r = u"
  shows "findAt R l n u enforce s = (scanOrder (Some r), s)"
proof -
  from assms(3) obtain tbl where tbl: "od_tables s (d, t) = Some tbl" "map_of tbl n = Some r" by (auto simp: cell_def split: option.splits)
  from assms(4) tbl(2) have sel: "select_order n (if enforce then Some u else None) tbl = (Some r, tbl)" by (auto simp: select_order_def)
  have "sql_run d t (select_order n (if enforce then Some u else None)) s = (Inr (Some r), s)"
    by (rule sql_read [where stmt = "select_order n (if enforce then Some u else None)", OF assms(2) tbl(1) sel])
  with assms(1) show ?thesis
    by (auto simp: findAt_def liftE_def wrap_sql_def attemptG_def bindG_def go_simps split: sum.splits)
qed

section \<open>Properties\<close>

text \<open>
  C15. Orders in MySQL follow their state machine without any lock: whatever calls of sharded and unsharded repositories
  run, with whatever routers, callers' copies of orders and failing statements, a stored row stays in its table, keeps
  what was ordered, and its status only moves from unpaid to paid or canceled and from canceled to refunded.
\<close>

theorem stored_orders_evolve:
  assumes "(shard_step dt)\<^sup>*\<^sup>* s s'" and "cell l n s = Some r"
  shows "\<exists>r'. cell l n s' = Some r' \<and> row_evolves r r'"
proof -
  from assms(1) have "rows_evolve s s'"
    by (induction rule: rtranclp_induct) (auto intro: rows.R_refl rows.R_trans shard_step_evolves)
  with assms(2) show ?thesis unfolding rows_rel_def by blast
qed

definition sample_dual :: MappingOrderRouter where
  "sample_dual = (NewMappingOrderRouter (NewGeneOrderRouter ''db'' ''orders'' 1 2))\<lparr>mo_refreshedAt := 5,
     mo_mappings := [0 \<mapsto> \<lparr>sm_VirtualShard = 0, sm_Primary = \<lparr>loc_Database = ''a'', loc_Table = ''t0'', loc_DBIndex = 0, loc_TblIndex = 0\<rparr>,
       sm_Shadow = Some \<lparr>loc_Database = ''b'', loc_Table = ''t0'', loc_DBIndex = 0, loc_TblIndex = 0\<rparr>, sm_WriteMode = WriteDual, sm_Version = 2\<rparr>]\<rparr>"

definition sample_shards :: ShardedOrderRepository where
  "sample_shards = \<lparr>sr_databases = Some [''a'' \<mapsto> Some ''a'', ''b'' \<mapsto> Some ''b''], sr_router = mapping_shards 6 sample_dual\<rparr>"

definition sample_dbs :: order_dbs where
  "sample_dbs = \<lparr>od_tables = [(''a'', ''t0'') \<mapsto> [], (''b'', ''t0'') \<mapsto> []], od_faults = [], od_error = PlainError ''driver''\<rparr>"

definition sample_sharded_order :: Order where
  "sample_sharded_order = Order_New 4096 7 2048 100 5"

lemma sample_dual_ok: "router_ok sample_dual"
  by (auto simp: router_ok_def sample_dual_def NewMappingOrderRouter_def NewGeneOrderRouter_def mapping_ok_def tableCount_def virtualShardCount_def
      atLeastOne_def wrap64_id in64_def)

lemma sample_save:
  "fst (Sharded_Save id sample_shards sample_sharded_order sample_dbs) = Inr ()"
  "od_faults (snd (Sharded_Save id sample_shards sample_sharded_order sample_dbs)) = []"
  "cell (''b'', ''t0'') 4096 (snd (Sharded_Save id sample_shards sample_sharded_order sample_dbs)) = Some (order_values id sample_sharded_order)"
  "ExtractUserGene 4096 = UserGene 2048"
  by code_simp+

theorem stored_orders_evolve_witness:
  "\<exists>r'. cell (''b'', ''t0'') 4096 (snd (Sharded_Update id sample_shards (sample_sharded_order\<lparr>ord_Status := StatusPaid\<rparr>)
      (snd (Sharded_Save id sample_shards sample_sharded_order sample_dbs)))) = Some r' \<and> row_evolves (order_values id sample_sharded_order) r'"
  by (rule stored_orders_evolve [OF _ sample_save(3), where dt = id], rule r_into_rtranclp, rule shard_step.update)

text \<open>
  C16. A saved order is found again: if the order number carries the gene of its user and was not in use, then after
  a successful save both the lookup of its user and the system's lookup return the order as the columns keep it, for
  any mappings and write modes.
\<close>

theorem sharded_save_then_find:
  assumes "router_ok m" and "sr_router R = mapping_shards now m"
    and "ExtractUserGene n = UserGene u" and "ord_OrderNumber item = n" and "ord_UserID item = u" and "order_in64 item"
    and "\<forall>l. cell l n s = None" and "Sharded_Save dt R item s = (Inr (), s')" and "od_faults s' = []"
  shows "fst (Sharded_FindByOrderNumber R n u s') = Inr (stored dt item)
    \<and> fst (Sharded_FindByOrderNumberSystem R n s') = Inr (stored dt item)"
proof -
  let ?l = "Mapping_RouteOrder m n u"
  from writeLocations_mapping [OF assms(1,2)] obtain rest where w: "writeLocations R n u = ?l # rest" by blast
  from assms(4,5,8) w have fresh: "ensureFreshMapping R s = (Inr (), s)" and all: "save_all dt R (?l # rest) item s = (Inr (), s')"
    by (auto simp: Sharded_Save_def ensureFreshMapping_def bindG_def go_simps split: option.splits if_splits)
  from fresh have fresh': "ensureFreshMapping R s' = (Inr (), s')" by (auto simp: ensureFreshMapping_def go_simps split: option.splits if_splits)
  from all obtain s1 where s1: "saveAt dt R ?l item s = (Inr (), s1)" and more: "save_all dt R rest item s1 = (Inr (), s')"
    by (auto elim: bindG_result)
  from s1 obtain d t where res: "resolve R ?l = Inr (d, t)"
    by (cases "resolve R ?l") (auto simp: saveAt_def liftE_def failG_def)
  from saveAt_Inr [OF s1 _ _ res] assms(4,7) have "cell (d, t) n s1 = Some (order_values dt item)" by simp
  moreover have "rows_stay s1 s'" using save_all_stays [of dt R rest item] more by (simp add: keepsG_def) (metis snd_conv)
  ultimately have c: "cell (d, t) n s' = Some (order_values dt item)" by (auto simp: rows_rel_def)
  have "Mapping_RouteOrder m n 0 = ?l" using mapping_router.system_lookup [OF assms(1,3)] by simp
  moreover have "row_user_id (order_values dt item) = u" by (simp add: order_values_def assms(5))
  ultimately show ?thesis
    using findAt_works [OF res assms(9) c] scan_values [OF assms(6)] fresh' assms(2)
    by (simp add: Sharded_FindByOrderNumber_def Sharded_FindByOrderNumberSystem_def bindG_def mapping_shards_def)
qed

theorem sharded_save_then_find_witness:
  "fst (Sharded_FindByOrderNumberSystem sample_shards 4096 (snd (Sharded_Save id sample_shards sample_sharded_order sample_dbs)))
    = Inr (stored id sample_sharded_order)"
proof -
  have "\<forall>l. cell l 4096 sample_dbs = None" by (simp add: cell_def sample_dbs_def)
  moreover have "order_in64 sample_sharded_order" "ord_OrderNumber sample_sharded_order = 4096" "ord_UserID sample_sharded_order = 2048"
    by (simp_all add: sample_sharded_order_def Order_New_def order_in64_def)
  moreover have "sr_router sample_shards = mapping_shards 6 sample_dual" by (simp add: sample_shards_def)
  ultimately show ?thesis
    using sharded_save_then_find [OF sample_dual_ok _ sample_save(4) _ _ _ _ run_of_fst [OF sample_save(1)] sample_save(2)] by blast
qed

end
