(* ===== verification/Migration.thy ===== *)
theory Migration
  imports Sharded_Orders Locks
begin

text \<open>
  The migration service (\<open>src/app/migrate-service/internal\<close>): tasks that move a virtual shard of the orders from one
  location to another, and the mappings from virtual shards to locations. A task switches its shard to dual writing,
  its worker copies the orders batch by batch, and when nothing is left to copy the mapping is cut over.

  Both repositories are modelled. The in-memory one has no orders to copy. The MySQL one keeps tasks, mappings and the
  tables of orders of \<open>Order_Tables\<close>, since the service copies rows between them on its own connection; each of its
  statements takes the next fault of the databases, and a transaction that does not end with a commit is undone. Strings
  are compared as they are. The clock of the database server is an argument.
\<close>

section \<open>The domain\<close>

type_synonym TaskStatus = string

abbreviation TaskPending :: TaskStatus where "TaskPending \<equiv> ''PENDING''"
abbreviation TaskRunning :: TaskStatus where "TaskRunning \<equiv> ''RUNNING''"
abbreviation TaskPaused :: TaskStatus where "TaskPaused \<equiv> ''PAUSED''"
abbreviation TaskDone :: TaskStatus where "TaskDone \<equiv> ''DONE''"
abbreviation TaskFailed :: TaskStatus where "TaskFailed \<equiv> ''FAILED''"

record MigrationTask =
  tk_ID :: int64
  tk_VirtualShard :: int
  tk_SourceShard :: string
  tk_TargetShard :: string
  tk_Status :: TaskStatus
  tk_BatchSize :: int
  tk_CursorOrderNumber :: int64
  tk_CopiedRows :: int64
  tk_ErrorMessage :: string
  tk_CreatedAt :: time

record MigrateMapping =
  mm_VirtualShard :: int
  mm_PhysicalDB :: string
  mm_PhysicalTable :: string
  mm_ShadowDB :: string
  mm_ShadowTable :: string
  mm_WriteMode :: string
  mm_Version :: int64

abbreviation no_task :: MigrationTask where
  "no_task \<equiv> \<lparr>tk_ID = 0, tk_VirtualShard = 0, tk_SourceShard = [], tk_TargetShard = [], tk_Status = [], tk_BatchSize = 0,
     tk_CursorOrderNumber = 0, tk_CopiedRows = 0, tk_ErrorMessage = [], tk_CreatedAt = 0\<rparr>"

definition ParseShardLocation :: "string \<Rightarrow> error + (string \<times> string)" where
  "ParseShardLocation value = (case split_on (CHR ''.'') (trim_space value) of
     [database, table] \<Rightarrow>
       if is_ident database \<and> is_ident table then Inr (database, table) else Inl (PlainError ''shard location must use database.table'')
   | _ \<Rightarrow> Inl (PlainError ''shard location must use database.table''))"

section \<open>The use cases\<close>

record 'w migration_repo =
  mr_SaveTask :: "MigrationTask \<Rightarrow> ('w, unit) go"
  mr_LoadShardMappings :: "('w, MigrateMapping list) go"
  mr_LoadNextTask :: "('w, MigrationTask option) go"
  mr_CopyBatch :: "MigrationTask \<Rightarrow> ('w, int64 \<times> int64) go"
  mr_CompleteTask :: "MigrationTask \<Rightarrow> ('w, unit) go"
  mr_FailTask :: "int64 \<Rightarrow> string \<Rightarrow> ('w, unit) go"
  mr_ResumeTask :: "int64 \<Rightarrow> ('w, unit) go"

record 'w MigrationWorker =
  wk_repo :: "'w migration_repo"
  wk_locker :: "(string \<Rightarrow> duration \<Rightarrow> ('w, lock_handle) go) \<times> (lock_handle \<Rightarrow> ('w, unit) go)"
  wk_now :: "'w \<Rightarrow> time"

definition DualWritePropagationDelay :: duration where
  "DualWritePropagationDelay = DefaultMappingMaxStaleness + 5 * 1000000000"

definition ErrNotAcquired :: error where
  "ErrNotAcquired = PlainError ''lock not acquired''"

definition poll_task :: "'w MigrationWorker \<Rightarrow> MigrationTask \<Rightarrow> ('w, unit) go" where
  "poll_task W task = bindG (getG (wk_now W)) (\<lambda>now.
     if tk_CreatedAt task = 0 \<or> now - tk_CreatedAt task < DualWritePropagationDelay then returnG ()
     else attemptG (mr_CopyBatch (wk_repo W) task) (\<lambda>r. case r of
       Inl e \<Rightarrow> attemptG (mr_FailTask (wk_repo W) (tk_ID task) (error_text e)) (\<lambda>_. failG e)
     | Inr (copied, _) \<Rightarrow>
         if copied > 0 then returnG ()
         else attemptG (mr_CompleteTask (wk_repo W) task) (\<lambda>r. case r of
           Inl e \<Rightarrow> attemptG (mr_FailTask (wk_repo W) (tk_ID task) (error_text e)) (\<lambda>_. failG e)
         | Inr _ \<Rightarrow> returnG ())))"

definition Poll_migration :: "'w MigrationWorker \<Rightarrow> ('w, unit) go" where
  "Poll_migration W = (case wk_locker W of (Acquire, Release) \<Rightarrow>
     attemptG (Acquire ''tickethub:migrate:worker'' (30 * 1000000000)) (\<lambda>r. case r of
       Inl e \<Rightarrow> if errors_Is e ErrNotAcquired then returnG () else failG e
     | Inr guard \<Rightarrow> deferG
         (bindG (mr_LoadNextTask (wk_repo W)) (\<lambda>next. case next of None \<Rightarrow> returnG () | Some task \<Rightarrow> poll_task W task))
         (Release guard)))"

record 'w MigrationService =
  ms_repo :: "'w migration_repo"
  ms_allowedTargets :: "string list"
  ms_now :: "'w \<Rightarrow> time"

definition Migration_SaveTask :: "'w MigrationService \<Rightarrow> MigrationTask \<Rightarrow> ('w, unit) go" where
  "Migration_SaveTask S task =
     (if tk_ID task \<le> 0 \<or> tk_VirtualShard task < 0
      then failG (New CodeInvalidArgument ''migration task id and virtual shard are required'')
      else case ParseShardLocation (tk_SourceShard task) of
        Inl e \<Rightarrow> failG (New CodeInvalidArgument (error_text e))
      | Inr _ \<Rightarrow> (case ParseShardLocation (tk_TargetShard task) of
        Inl e \<Rightarrow> failG (New CodeInvalidArgument (error_text e))
      | Inr _ \<Rightarrow>
        if tk_SourceShard task = tk_TargetShard task then failG (New CodeInvalidArgument ''source and target shards must differ'')
        else if ms_allowedTargets S \<noteq> [] \<and> tk_TargetShard task \<notin> set (ms_allowedTargets S)
        then failG (New CodeInvalidArgument ''target shard is not configured'')
        else bindG (getG (ms_now S)) (\<lambda>now.
          let task = (if tk_BatchSize task \<le> 0 then task\<lparr>tk_BatchSize := 500\<rparr> else task);
              task = (if tk_Status task = [] then task\<lparr>tk_Status := TaskPending\<rparr> else task);
              task = (if tk_CreatedAt task = 0 then task\<lparr>tk_CreatedAt := now\<rparr> else task)
          in mr_SaveTask (ms_repo S) task)))"

definition Migration_LoadShardMappings :: "'w MigrationService \<Rightarrow> ('w, MigrateMapping list) go" where
  "Migration_LoadShardMappings S = mr_LoadShardMappings (ms_repo S)"

definition Migration_ResumeTask :: "'w MigrationService \<Rightarrow> int64 \<Rightarrow> ('w, unit) go" where
  "Migration_ResumeTask S taskID =
     (if taskID \<le> 0 then failG (New CodeInvalidArgument ''task_id is required'') else mr_ResumeTask (ms_repo S) taskID)"

section \<open>The in-memory repository\<close>

record MemoryMigration =
  mem_tasks :: "(int64 \<times> MigrationTask) list"
  mem_mappings :: "MigrateMapping list"

definition NewMigrationRepository :: MemoryMigration where
  "NewMigrationRepository = \<lparr>mem_tasks = [], mem_mappings =
     [\<lparr>mm_VirtualShard = 0, mm_PhysicalDB = ''tickethub_order_0'', mm_PhysicalTable = ''orders_0'', mm_ShadowDB = [], mm_ShadowTable = [], mm_WriteMode = ''PRIMARY_ONLY'', mm_Version = 1\<rparr>,
      \<lparr>mm_VirtualShard = 1, mm_PhysicalDB = ''tickethub_order_0'', mm_PhysicalTable = ''orders_1'', mm_ShadowDB = [], mm_ShadowTable = [], mm_WriteMode = ''PRIMARY_ONLY'', mm_Version = 1\<rparr>]\<rparr>"

text \<open>\<open>for index := range ...\<close> with \<open>break\<close>: the first element that satisfies \<open>p\<close> is changed, if there is one.\<close>

fun update_first :: "('a \<Rightarrow> bool) \<Rightarrow> ('a \<Rightarrow> 'a) \<Rightarrow> 'a list \<Rightarrow> 'a list option" where
  "update_first p f [] = None"
| "update_first p f (x # xs) = (if p x then Some (f x # xs) else map_option (Cons x) (update_first p f xs))"

definition parsed :: "string \<Rightarrow> string \<times> string" where
  "parsed value = (case ParseShardLocation value of Inl e \<Rightarrow> ([], []) | Inr l \<Rightarrow> l)"

definition Mem_SaveTask :: "time \<Rightarrow> MigrationTask \<Rightarrow> (MemoryMigration, unit) go" where
  "Mem_SaveTask now task r =
     (let (sourceDatabase, sourceTable) = parsed (tk_SourceShard task);
          (targetDatabase, targetTable) = parsed (tk_TargetShard task);
          task = (if tk_CreatedAt task = 0 then task\<lparr>tk_CreatedAt := now\<rparr> else task)
      in if list_ex (\<lambda>m. mm_VirtualShard m \<noteq> tk_VirtualShard task
              \<and> (mm_PhysicalDB m = targetDatabase \<and> mm_PhysicalTable m = targetTable
                 \<or> mm_ShadowDB m = targetDatabase \<and> mm_ShadowTable m = targetTable)) (mem_mappings r)
         then (Inl (New CodeConflict ''target shard is already assigned''), r)
         else case update_first (\<lambda>m. \<not> (mm_VirtualShard m \<noteq> tk_VirtualShard task \<or> mm_PhysicalDB m \<noteq> sourceDatabase \<or> mm_PhysicalTable m \<noteq> sourceTable))
                (\<lambda>m. m\<lparr>mm_ShadowDB := targetDatabase, mm_ShadowTable := targetTable, mm_WriteMode := ''DUAL_WRITE'', mm_Version := wrap64 (mm_Version m + 1)\<rparr>)
                (mem_mappings r) of
           None \<Rightarrow> (Inl (New CodeConflict ''source shard does not match current mapping''), r)
         | Some mappings \<Rightarrow> (Inr (), r\<lparr>mem_mappings := mappings, mem_tasks := AList.update (tk_ID task) task (mem_tasks r)\<rparr>))"

definition Mem_LoadNextTask :: "(MemoryMigration, MigrationTask option) go" where
  "Mem_LoadNextTask r =
     (let ids = map fst (filter (\<lambda>(i, task). tk_Status task = TaskPending \<or> tk_Status task = TaskRunning) (mem_tasks r)) in
      if ids = [] then (Inr None, r)
      else let task = (the (map_of (mem_tasks r) (hd (sort ids))))\<lparr>tk_Status := TaskRunning\<rparr>
           in (Inr (Some task), r\<lparr>mem_tasks := AList.update (tk_ID task) task (mem_tasks r)\<rparr>))"

definition Mem_CopyBatch :: "MigrationTask \<Rightarrow> (MemoryMigration, int64 \<times> int64) go" where
  "Mem_CopyBatch task = returnG (0, tk_CursorOrderNumber task)"

definition Mem_CompleteTask :: "MigrationTask \<Rightarrow> (MemoryMigration, unit) go" where
  "Mem_CompleteTask task r =
     (case update_first (\<lambda>m. \<not> (mm_VirtualShard m \<noteq> tk_VirtualShard task \<or> mm_WriteMode m \<noteq> ''DUAL_WRITE''))
        (\<lambda>m. m\<lparr>mm_PhysicalDB := mm_ShadowDB m, mm_PhysicalTable := mm_ShadowTable m, mm_ShadowDB := [], mm_ShadowTable := [],
               mm_WriteMode := ''PRIMARY_ONLY'', mm_Version := wrap64 (mm_Version m + 1)\<rparr>) (mem_mappings r) of
        None \<Rightarrow> (Inl (New CodeConflict ''dual-write mapping not found''), r)
      | Some mappings \<Rightarrow>
          (let stored = (case map_of (mem_tasks r) (tk_ID task) of None \<Rightarrow> no_task | Some t \<Rightarrow> t)\<lparr>tk_Status := TaskDone\<rparr>
           in (Inr (), r\<lparr>mem_mappings := mappings, mem_tasks := AList.update (tk_ID task) stored (mem_tasks r)\<rparr>)))"

definition Mem_FailTask :: "int64 \<Rightarrow> string \<Rightarrow> (MemoryMigration, unit) go" where
  "Mem_FailTask taskID reason r = (case map_of (mem_tasks r) taskID of
     None \<Rightarrow> (Inl (New CodeNotFound ''migration task not found''), r)
   | Some task \<Rightarrow> (Inr (), r\<lparr>mem_tasks := AList.update taskID (task\<lparr>tk_Status := TaskPaused, tk_ErrorMessage := reason\<rparr>) (mem_tasks r)\<rparr>))"

definition Mem_ResumeTask :: "int64 \<Rightarrow> (MemoryMigration, unit) go" where
  "Mem_ResumeTask taskID r = (case map_of (mem_tasks r) taskID of
     None \<Rightarrow> (Inl (New CodeConflict ''migration task is not resumable''), r)
   | Some task \<Rightarrow>
       if tk_Status task \<noteq> TaskPaused \<and> tk_Status task \<noteq> TaskFailed then (Inl (New CodeConflict ''migration task is not resumable''), r)
       else (Inr (), r\<lparr>mem_tasks := AList.update taskID (task\<lparr>tk_Status := TaskRunning, tk_ErrorMessage := []\<rparr>) (mem_tasks r)\<rparr>))"

definition Mem_LoadShardMappings :: "(MemoryMigration, MigrateMapping list) go" where
  "Mem_LoadShardMappings r = (Inr (mem_mappings r), r)"

section \<open>The MySQL repository\<close>

text \<open>
  A row of \<open>migration_tasks\<close> is a task, whose error message is empty for \<open>NULL\<close>; \<open>shard_mappings\<close> has the primary key
  \<open>virtual_shard\<close>.
\<close>

record mapping_row =
  mp_virtual_shard :: int
  mp_physical_db :: string
  mp_physical_table :: string
  mp_shadow_db :: "string option"
  mp_shadow_table :: "string option"
  mp_write_mode :: string
  mp_version :: int64

record migrate_db =
  md_tasks :: "(int64 \<times> MigrationTask) list"
  md_mappings :: "mapping_row list"
  md_orders :: order_dbs

text \<open>A statement, which is \<open>None\<close> where MySQL reports an error.\<close>

definition md_run :: "('z migrate_db_scheme \<Rightarrow> ('a \<times> 'z migrate_db_scheme) option) \<Rightarrow> ('z migrate_db_scheme, 'a) go" where
  "md_run stmt s =
     (let fault = (case od_faults (md_orders s) of [] \<Rightarrow> Works | f # _ \<Rightarrow> f);
          e = od_error (md_orders s);
          s1 = s\<lparr>md_orders := (md_orders s)\<lparr>od_faults := tl (od_faults (md_orders s))\<rparr>\<rparr>
      in if fault = Refused then (Inl e, s1)
         else case stmt s1 of
           None \<Rightarrow> (Inl e, s1)
         | Some (a, s2) \<Rightarrow> (if fault = ReplyLost then Inl e else Inr a, s2))"

definition wrap_md :: "string \<Rightarrow> ('z migrate_db_scheme, 'a) go \<Rightarrow> ('z migrate_db_scheme, 'a) go" where
  "wrap_md message m = attemptG m (\<lambda>r. case r of Inl e \<Rightarrow> failG (Wrap CodeInfrastructure message e) | Inr x \<Rightarrow> returnG x)"

text \<open>\<open>BeginTx\<close>, the statements and \<open>Commit\<close>: a transaction that is not committed leaves the tables as they were.\<close>

definition undo_to :: "'z migrate_db_scheme \<Rightarrow> 'z migrate_db_scheme \<Rightarrow> 'z migrate_db_scheme" where
  "undo_to s0 s = s0\<lparr>md_orders := (md_orders s0)\<lparr>od_faults := od_faults (md_orders s)\<rparr>\<rparr>"

definition md_tx :: "string \<Rightarrow> string \<Rightarrow> ('z migrate_db_scheme, unit) go \<Rightarrow> ('z migrate_db_scheme, unit) go" where
  "md_tx beginFailed commitFailed body =
     bindG (wrap_md beginFailed (md_run (\<lambda>s. Some ((), s)))) (\<lambda>_ s0. case body s0 of
       (Inl e, s1) \<Rightarrow> (Inl e, undo_to s0 s1)
     | (Inr _, s1) \<Rightarrow> wrap_md commitFailed (md_run (\<lambda>s. Some ((), undo_to s1 s))) (undo_to s0 s1))"

definition target_assigned :: "int \<Rightarrow> string \<times> string \<Rightarrow> mapping_row \<Rightarrow> bool" where
  "target_assigned virtualShard target m \<longleftrightarrow> mp_virtual_shard m \<noteq> virtualShard
     \<and> ((mp_physical_db m, mp_physical_table m) = target \<or> (mp_shadow_db m, mp_shadow_table m) = (Some (fst target), Some (snd target)))"

definition activate_row :: "int \<Rightarrow> string \<times> string \<Rightarrow> mapping_row \<Rightarrow> bool" where
  "activate_row virtualShard source m \<longleftrightarrow> mp_virtual_shard m = virtualShard \<and> (mp_physical_db m, mp_physical_table m) = source
     \<and> mp_write_mode m = ''PRIMARY_ONLY''"

definition activate :: "string \<times> string \<Rightarrow> mapping_row \<Rightarrow> mapping_row" where
  "activate target m = m\<lparr>mp_shadow_db := Some (fst target), mp_shadow_table := Some (snd target), mp_write_mode := ''DUAL_WRITE'',
     mp_version := mp_version m + 1\<rparr>"

text \<open>\<open>UPDATE shard_mappings ... WHERE p\<close>: the number of rows, and the rows.\<close>

definition update_mappings :: "(mapping_row \<Rightarrow> bool) \<Rightarrow> (mapping_row \<Rightarrow> mapping_row) \<Rightarrow> 'z migrate_db_scheme \<Rightarrow> (nat \<times> 'z migrate_db_scheme) option" where
  "update_mappings p f s = Some (length (filter p (md_mappings s)), s\<lparr>md_mappings := map (\<lambda>m. if p m then f m else m) (md_mappings s)\<rparr>)"

definition upsert_task :: "time \<Rightarrow> MigrationTask \<Rightarrow> 'z migrate_db_scheme \<Rightarrow> (unit \<times> 'z migrate_db_scheme) option" where
  "upsert_task ts task s =
     (let row = (case map_of (md_tasks s) (tk_ID task) of
          None \<Rightarrow> task\<lparr>tk_CursorOrderNumber := 0, tk_CopiedRows := 0, tk_ErrorMessage := [], tk_CreatedAt := ts\<rparr>
        | Some old \<Rightarrow> old\<lparr>tk_VirtualShard := tk_VirtualShard task, tk_SourceShard := tk_SourceShard task, tk_TargetShard := tk_TargetShard task,
            tk_Status := tk_Status task, tk_BatchSize := tk_BatchSize task\<rparr>)
      in Some ((), s\<lparr>md_tasks := AList.update (tk_ID task) row (md_tasks s)\<rparr>))"

definition DB_SaveTask :: "time \<Rightarrow> MigrationTask \<Rightarrow> ('z migrate_db_scheme, unit) go" where
  "DB_SaveTask ts task = (case ParseShardLocation (tk_SourceShard task) of
     Inl e \<Rightarrow> failG (New CodeInvalidArgument (error_text e))
   | Inr source \<Rightarrow> (case ParseShardLocation (tk_TargetShard task) of
     Inl e \<Rightarrow> failG (New CodeInvalidArgument (error_text e))
   | Inr target \<Rightarrow>
       md_tx ''begin migration task transaction failed'' ''commit migration task failed''
         (bindG (wrap_md ''check migration target table failed'' (md_run (\<lambda>s. Some (od_tables (md_orders s) target \<noteq> None, s)))) (\<lambda>targetTableExists.
          if \<not> targetTableExists then failG (New CodeInvalidArgument ''migration target table does not exist'')
          else bindG (wrap_md ''check migration target assignment failed''
              (md_run (\<lambda>s. Some (length (filter (target_assigned (tk_VirtualShard task) target) (md_mappings s)), s)))) (\<lambda>targetAssignments.
          if targetAssignments > 0 then failG (New CodeConflict ''target shard is already assigned'')
          else bindG (wrap_md ''activate shard dual write failed''
              (md_run (update_mappings (activate_row (tk_VirtualShard task) source) (activate target)))) (\<lambda>affected.
          if affected = 0 then failG (New CodeConflict ''source shard does not match a primary-only mapping'')
          else wrap_md ''save migration task failed'' (md_run (upsert_task ts task))))))))"

definition set_task :: "int64 \<Rightarrow> (MigrationTask \<Rightarrow> MigrationTask) \<Rightarrow> 'z migrate_db_scheme \<Rightarrow> (unit \<times> 'z migrate_db_scheme) option" where
  "set_task taskID f s = Some ((), s\<lparr>md_tasks := map (\<lambda>(i, task). (i, if i = taskID then f task else task)) (md_tasks s)\<rparr>)"

definition DB_LoadNextTask :: "('z migrate_db_scheme, MigrationTask option) go" where
  "DB_LoadNextTask =
     bindG (wrap_md ''load next migration task failed'' (md_run (\<lambda>s. Some
       (sort_key tk_CreatedAt (filter (\<lambda>task. tk_Status task \<in> {TaskPending, TaskRunning}) (map snd (md_tasks s))), s)))) (\<lambda>tasks.
     case tasks of
       [] \<Rightarrow> returnG None
     | task # _ \<Rightarrow>
         bindG (wrap_md ''mark migration task running failed'' (md_run (set_task (tk_ID task) (\<lambda>task. task\<lparr>tk_Status := TaskRunning\<rparr>)))) (\<lambda>_.
         returnG (Some (task\<lparr>tk_Status := TaskRunning\<rparr>))))"

text \<open>\<open>SELECT COALESCE(MAX(order_number), 0), COUNT(*) FROM (SELECT ... WHERE order_number > ? ORDER BY order_number LIMIT ?)\<close>\<close>

definition batch_numbers :: "int64 \<Rightarrow> nat \<Rightarrow> order_table \<Rightarrow> int64 list" where
  "batch_numbers cursor batchSize t = take batchSize (sort (filter (\<lambda>n. n > cursor) (map fst t)))"

definition batch_boundary :: "string \<times> string \<Rightarrow> int64 \<Rightarrow> nat \<Rightarrow> 'z migrate_db_scheme \<Rightarrow> ((int64 \<times> int64) \<times> 'z migrate_db_scheme) option" where
  "batch_boundary source cursor batchSize s = map_option (\<lambda>t.
     (let ns = batch_numbers cursor batchSize t in ((if ns = [] then 0 else last ns, int (length ns)), s))) (od_tables (md_orders s) source)"

text \<open>\<open>INSERT ... SELECT ... ON DUPLICATE KEY UPDATE\<close> of all columns but \<open>created_at\<close>.\<close>

definition copy_row :: "order_row \<Rightarrow> order_row option \<Rightarrow> order_row" where
  "copy_row r old = (case old of None \<Rightarrow> r | Some o' \<Rightarrow> r\<lparr>row_order_number := row_order_number o', row_created_at := row_created_at o'\<rparr>)"

definition copy_rows :: "int64 \<Rightarrow> int64 \<Rightarrow> order_table \<Rightarrow> order_table \<Rightarrow> order_table" where
  "copy_rows cursor next source target =
     fold (\<lambda>(n, r) t. AList.update n (copy_row r (map_of t n)) t) (filter (\<lambda>(n, r). cursor < n \<and> n \<le> next) source) target"

definition copy_batch :: "string \<times> string \<Rightarrow> string \<times> string \<Rightarrow> int64 \<Rightarrow> int64 \<Rightarrow> 'z migrate_db_scheme \<Rightarrow> (unit \<times> 'z migrate_db_scheme) option" where
  "copy_batch source target cursor next s = (case (od_tables (md_orders s) source, od_tables (md_orders s) target) of
     (Some src, Some tgt) \<Rightarrow>
       Some ((), s\<lparr>md_orders := (md_orders s)\<lparr>od_tables := (od_tables (md_orders s))(target \<mapsto> copy_rows cursor next src tgt)\<rparr>\<rparr>)
   | _ \<Rightarrow> None)"

definition DB_CopyBatch :: "MigrationTask \<Rightarrow> ('z migrate_db_scheme, int64 \<times> int64) go" where
  "DB_CopyBatch task = (case ParseShardLocation (tk_SourceShard task) of
     Inl e \<Rightarrow> failG (New CodeInvalidArgument (error_text e))
   | Inr source \<Rightarrow> (case ParseShardLocation (tk_TargetShard task) of
     Inl e \<Rightarrow> failG (New CodeInvalidArgument (error_text e))
   | Inr target \<Rightarrow>
       (let batchSize = (if tk_BatchSize task \<le> 0 then 500 else tk_BatchSize task) in
        bindG (wrap_md ''read migration batch boundary failed''
          (md_run (batch_boundary source (tk_CursorOrderNumber task) (nat batchSize)))) (\<lambda>(nextCursor, copied).
        if copied = 0 then returnG (0, tk_CursorOrderNumber task)
        else bindG (wrap_md ''copy migration order batch failed'' (md_run (copy_batch source target (tk_CursorOrderNumber task) nextCursor))) (\<lambda>_.
          bindG (wrap_md ''advance migration task cursor failed''
            (md_run (set_task (tk_ID task) (\<lambda>t. t\<lparr>tk_CursorOrderNumber := nextCursor, tk_CopiedRows := tk_CopiedRows t + copied, tk_Status := TaskRunning\<rparr>)))) (\<lambda>_.
          returnG (copied, nextCursor)))))))"

definition cutover_row :: "int \<Rightarrow> string \<times> string \<Rightarrow> mapping_row \<Rightarrow> bool" where
  "cutover_row virtualShard target m \<longleftrightarrow> mp_virtual_shard m = virtualShard \<and> mp_write_mode m = ''DUAL_WRITE''
     \<and> (mp_shadow_db m, mp_shadow_table m) = (Some (fst target), Some (snd target))"

definition cutover :: "mapping_row \<Rightarrow> mapping_row" where
  "cutover m = m\<lparr>mp_physical_db := the (mp_shadow_db m), mp_physical_table := the (mp_shadow_table m), mp_shadow_db := None,
     mp_shadow_table := None, mp_write_mode := ''PRIMARY_ONLY'', mp_version := mp_version m + 1\<rparr>"

definition DB_CompleteTask :: "MigrationTask \<Rightarrow> ('z migrate_db_scheme, unit) go" where
  "DB_CompleteTask task = (case ParseShardLocation (tk_TargetShard task) of
     Inl e \<Rightarrow> failG (New CodeInvalidArgument (error_text e))
   | Inr target \<Rightarrow>
       md_tx ''begin migration cutover failed'' ''commit migration cutover failed''
         (bindG (wrap_md ''cut over shard mapping failed'' (md_run (update_mappings (cutover_row (tk_VirtualShard task) target) cutover))) (\<lambda>affected.
          if affected = 0 then failG (New CodeConflict ''dual-write shard mapping not found'')
          else wrap_md ''complete migration task failed''
            (md_run (set_task (tk_ID task) (\<lambda>t. t\<lparr>tk_Status := TaskDone, tk_ErrorMessage := []\<rparr>))))))"

definition DB_FailTask :: "int64 \<Rightarrow> string \<Rightarrow> ('z migrate_db_scheme, unit) go" where
  "DB_FailTask taskID reason = wrap_md ''fail migration task failed''
     (md_run (set_task taskID (\<lambda>t. t\<lparr>tk_Status := TaskPaused, tk_ErrorMessage := reason\<rparr>)))"

definition resumable :: "'z migrate_db_scheme \<Rightarrow> MigrationTask \<Rightarrow> bool" where
  "resumable s task \<longleftrightarrow> tk_Status task \<in> {TaskPaused, TaskFailed}
     \<and> list_ex (\<lambda>m. mp_virtual_shard m = tk_VirtualShard task \<and> mp_write_mode m = ''DUAL_WRITE'') (md_mappings s)"

definition resume_rows :: "int64 \<Rightarrow> 'z migrate_db_scheme \<Rightarrow> (nat \<times> 'z migrate_db_scheme) option" where
  "resume_rows taskID s =
     (let p = (\<lambda>(i, task). i = taskID \<and> resumable s task) in
      Some (length (filter p (md_tasks s)),
        s\<lparr>md_tasks := map (\<lambda>e. if p e then (fst e, (snd e)\<lparr>tk_Status := TaskRunning, tk_ErrorMessage := []\<rparr>) else e) (md_tasks s)\<rparr>))"

definition DB_ResumeTask :: "int64 \<Rightarrow> ('z migrate_db_scheme, unit) go" where
  "DB_ResumeTask taskID = bindG (wrap_md ''resume migration task failed'' (md_run (resume_rows taskID))) (\<lambda>affected.
     if affected = 0 then failG (New CodeConflict ''migration task is not resumable'') else returnG ())"

definition mapping_item :: "mapping_row \<Rightarrow> MigrateMapping" where
  "mapping_item m =
     (let coalesce = (\<lambda>v. case v of None \<Rightarrow> [] | Some x \<Rightarrow> x) in
      \<lparr>mm_VirtualShard = mp_virtual_shard m, mm_PhysicalDB = mp_physical_db m, mm_PhysicalTable = mp_physical_table m,
       mm_ShadowDB = coalesce (mp_shadow_db m), mm_ShadowTable = coalesce (mp_shadow_table m),
       mm_WriteMode = mp_write_mode m, mm_Version = mp_version m\<rparr>)"

definition DB_LoadShardMappings :: "('z migrate_db_scheme, MigrateMapping list) go" where
  "DB_LoadShardMappings = wrap_md ''query shard mappings failed''
     (md_run (\<lambda>s. Some (map mapping_item (sort_key mp_virtual_shard (md_mappings s)), s)))"

definition mysql_migrations :: "time \<Rightarrow> 'z migrate_db_scheme migration_repo" where
  "mysql_migrations ts = \<lparr>mr_SaveTask = DB_SaveTask ts, mr_LoadShardMappings = DB_LoadShardMappings, mr_LoadNextTask = DB_LoadNextTask,
     mr_CopyBatch = DB_CopyBatch, mr_CompleteTask = DB_CompleteTask, mr_FailTask = DB_FailTask, mr_ResumeTask = DB_ResumeTask\<rparr>"

section \<open>The gRPC server, and the mappings at the order service\<close>

definition wrap32 :: "int \<Rightarrow> int" where
  "wrap32 x = signed_take_bit 31 x"

record CreateTaskRequest =
  ctr_SourceShard :: string
  ctr_TargetShard :: string
  ctr_BatchSize :: int
  ctr_VirtualShard :: int

definition Server_CreateTask :: "'w MigrationService \<Rightarrow> ('w, int64) go \<Rightarrow> CreateTaskRequest \<Rightarrow> ('w, int64 \<times> int \<times> string) go" where
  "Server_CreateTask S nextID req = bindG nextID (\<lambda>id.
     (let batchSize = (if ctr_BatchSize req \<le> 0 then 500 else ctr_BatchSize req) in
      bindG (Migration_SaveTask S (no_task\<lparr>tk_ID := id, tk_VirtualShard := ctr_VirtualShard req, tk_SourceShard := ctr_SourceShard req,
          tk_TargetShard := ctr_TargetShard req, tk_Status := TaskPending, tk_BatchSize := batchSize\<rparr>)) (\<lambda>_.
      returnG (id, ctr_VirtualShard req, TaskPending))))"

definition Server_ListShardMappings :: "'w MigrationService \<Rightarrow> ('w, MigrateMapping list) go" where
  "Server_ListShardMappings S = bindG (Migration_LoadShardMappings S) (\<lambda>mappings.
     returnG (map (\<lambda>m. m\<lparr>mm_VirtualShard := wrap32 (mm_VirtualShard m)\<rparr>) mappings))"

definition Server_ResumeTask :: "'w MigrationService \<Rightarrow> int64 \<Rightarrow> ('w, int64 \<times> string) go" where
  "Server_ResumeTask S taskID = bindG (Migration_ResumeTask S taskID) (\<lambda>_. returnG (taskID, TaskRunning))"

text \<open>The order service's client and \<open>ShardMappingRefreshService.Refresh\<close>; \<open>stub\<close> is the generated client, if there is an address.\<close>

definition client_mapping :: "MigrateMapping \<Rightarrow> ShardMapping" where
  "client_mapping m = \<lparr>sm_VirtualShard = mm_VirtualShard m,
     sm_Primary = \<lparr>loc_Database = mm_PhysicalDB m, loc_Table = mm_PhysicalTable m, loc_DBIndex = 0, loc_TblIndex = 0\<rparr>,
     sm_Shadow = (if mm_ShadowDB m \<noteq> [] \<and> mm_ShadowTable m \<noteq> []
       then Some \<lparr>loc_Database = mm_ShadowDB m, loc_Table = mm_ShadowTable m, loc_DBIndex = 0, loc_TblIndex = 0\<rparr> else None),
     sm_WriteMode = mm_WriteMode m, sm_Version = mm_Version m\<rparr>"

definition Client_ListShardMappings :: "('w, MigrateMapping list) go option \<Rightarrow> ('w, ShardMapping list) go" where
  "Client_ListShardMappings stub = (case stub of
     None \<Rightarrow> returnG []
   | Some ListShardMappings \<Rightarrow> bindG ListShardMappings (\<lambda>reply. returnG (map client_mapping reply)))"

definition Refresh :: "('w, ShardMapping list) go \<Rightarrow> (ShardMapping list \<Rightarrow> ('w, unit) go) \<Rightarrow> ('w, unit) go" where
  "Refresh listShardMappings replaceMappings = bindG listShardMappings (\<lambda>mappings. bindG (replaceMappings mappings) (\<lambda>_. returnG ()))"

end
