(* ===== verification/Shard_Writes.thy ===== *)
theory Shard_Writes
  imports Sharded_Orders
begin

text \<open>
  What saving and updating an order does to its rows when the databases work: at every location the rows of other
  orders stay, a missing row is inserted, and a present row is updated if its status allows it. An update that is not
  accepted at the first location does not reach the second.
\<close>

declare split_paired_All [simp del] split_paired_Ex [simp del]

section \<open>What writes do to rows when the databases work\<close>

definition pairL :: "Location \<Rightarrow> string \<times> string" where
  "pairL l = (loc_Database l, loc_Table l)"

definition dbs_ok :: "order_dbs \<Rightarrow> bool" where
  "dbs_ok s \<longleftrightarrow> od_faults s = [] \<and> (\<forall>l t. od_tables s l = Some t \<longrightarrow> distinct (map fst t))"

text \<open>\<open>reaches R s l\<close>: the repository resolves the location to a table that exists.\<close>

definition reaches :: "ShardedOrderRepository \<Rightarrow> order_dbs \<Rightarrow> Location \<Rightarrow> bool" where
  "reaches R s l \<longleftrightarrow> resolve R l = Inr (pairL l) \<and> od_tables s (pairL l) \<noteq> None"

definition cell_set :: "string \<times> string \<Rightarrow> int64 \<Rightarrow> order_row option \<Rightarrow> order_dbs \<Rightarrow> order_dbs \<Rightarrow> bool" where
  "cell_set l n c s s' \<longleftrightarrow> dbs_ok s' \<and> (\<forall>k. od_tables s' k = None \<longleftrightarrow> od_tables s k = None)
     \<and> (\<forall>k i. cell k i s' = (if k = l \<and> i = n then c else cell k i s))"

lemma sql_write:
  assumes "dbs_ok s" and "od_tables s (d, t) = Some tbl" and "stmt tbl = (a, tbl')" and "distinct (map fst tbl) \<Longrightarrow> distinct (map fst tbl')"
    and "\<And>i. i \<noteq> n \<Longrightarrow> map_of tbl' i = map_of tbl i"
  shows "\<exists>s'. sql_run d t stmt s = (Inr a, s') \<and> cell_set (d, t) n (map_of tbl' n) s s'"
proof -
  have "od_faults s = []" "distinct (map fst tbl)" using assms(1,2) by (auto simp: dbs_ok_def)
  with assms show ?thesis
    using sql_run_works [of s d t tbl stmt] by (auto simp: cell_set_def dbs_ok_def cell_def)
qed

lemma insert_cell:
  assumes "dbs_ok s" and "od_tables s (d, t) \<noteq> None" and "n = ord_OrderNumber item"
  shows "\<exists>s'. sql_run d t (insert_row dt item) s = (Inr (), s')
    \<and> cell_set (d, t) n (case cell (d, t) n s of None \<Rightarrow> Some (order_values dt item) | Some r \<Rightarrow> Some r) s s'"
proof -
  from assms(2) obtain tbl where t: "od_tables s (d, t) = Some tbl" by blast
  let ?tbl' = "if map_of tbl n = None then tbl @ [(n, order_values dt item)] else tbl"
  have "insert_row dt item tbl = ((), ?tbl')" by (simp add: insert_row_def assms(3))
  moreover have "distinct (map fst tbl) \<Longrightarrow> distinct (map fst ?tbl')" by (auto simp: map_of_eq_None_iff)
  moreover have "i \<noteq> n \<Longrightarrow> map_of ?tbl' i = map_of tbl i" for i by (simp add: map_add_def split: option.splits)
  moreover have "map_of ?tbl' n = (case cell (d, t) n s of None \<Rightarrow> Some (order_values dt item) | Some r \<Rightarrow> Some r)"
    using t by (auto simp: cell_def map_add_def split: option.splits)
  ultimately show ?thesis using sql_write [OF assms(1) t] by metis
qed

text \<open>The guarded update of a row: whether it is accepted, and the row afterwards.\<close>

definition upd_cell :: "(time \<Rightarrow> time) \<Rightarrow> Status \<Rightarrow> Order \<Rightarrow> order_row option \<Rightarrow> bool \<times> order_row option" where
  "upd_cell dt previous item c = (case c of
     None \<Rightarrow> (False, None)
   | Some r \<Rightarrow> if row_user_id r = ord_UserID item \<and> (row_status r = previous \<or> row_status r = ord_Status item)
       then (True, Some (set_transition dt item r)) else (False, Some r))"

lemma transition_same: "set_transition dt item r = r \<Longrightarrow> row_status r = ord_Status item"
  by (drule arg_cong [of _ _ row_status]) (simp add: set_transition_def)

lemma update_cell:
  assumes "dbs_ok s" and "od_tables s (d, t) \<noteq> None" and "allowedPreviousStatus (ord_Status item) = Inr previous" and "n = ord_OrderNumber item"
  shows "\<exists>r s'. transition_at dt d t m1 m2 item s = (r, s') \<and> ((\<exists>x. r = Inr x) \<longleftrightarrow> fst (upd_cell dt previous item (cell (d, t) n s)))
    \<and> cell_set (d, t) n (snd (upd_cell dt previous item (cell (d, t) n s))) s s'"
proof -
  from assms(2) obtain tbl where t: "od_tables s (d, t) = Some tbl" by blast
  obtain a tbl' where u: "update_row dt previous item tbl = (a, tbl')" by (metis surj_pair)
  have c: "cell (d, t) n s = map_of tbl n" by (simp add: cell_def t)
  have u': "map_of tbl' n = snd (upd_cell dt previous item (map_of tbl n))" "a \<longrightarrow> fst (upd_cell dt previous item (map_of tbl n))"
    "i \<noteq> n \<Longrightarrow> map_of tbl' i = map_of tbl i" "distinct (map fst tbl) \<Longrightarrow> distinct (map fst tbl')" for i
    using u by (auto simp: update_row_def upd_cell_def assms(4) update_conv' distinct_update split: option.splits if_splits)
  obtain s' where w: "sql_run d t (update_row dt previous item) s = (Inr a, s')" and cs: "cell_set (d, t) n (map_of tbl' n) s s'"
    using sql_write [where stmt = "update_row dt previous item", OF assms(1) t u u'(4,3)] by blast
  show ?thesis
  proof (cases a)
    case True
    with w cs u' c assms(3) show ?thesis by (auto simp: transition_at_def bindG_def wrap_sql_def attemptG_def go_simps)
  next
    case False
    from cs have s': "od_faults s' = []" "cell (d, t) n s' = map_of tbl' n" by (auto simp: cell_set_def dbs_ok_def)
    from cs t have "od_tables s' (d, t) \<noteq> None" by (simp add: cell_set_def)
    then obtain tbl2 where t2: "od_tables s' (d, t) = Some tbl2" by blast
    with s'(2) have m2: "map_of tbl2 n = map_of tbl' n" by (simp add: cell_def)
    obtain st where st: "select_status n (ord_UserID item) tbl2 = (st, tbl2)" by (cases "map_of tbl2 n") (simp_all add: select_status_def)
    have rd: "sql_run d t (select_status n (ord_UserID item)) s' = (Inr st, s')" by (rule sql_read [where stmt = "select_status n (ord_UserID item)", OF s'(1) t2 st])
    have "st = Some (ord_Status item) \<longleftrightarrow> fst (upd_cell dt previous item (map_of tbl n))"
      using st m2 u'(1) u False transition_same [of dt item "the (map_of tbl n)"]
      by (auto simp: select_status_def upd_cell_def update_row_def assms(4) split: option.splits if_splits)
    with w rd cs u'(1) c assms(3,4) False show ?thesis
      by (auto simp: transition_at_def bindG_def wrap_sql_def attemptG_def go_simps split: option.splits)
  qed
qed

definition ins_cell :: "(time \<Rightarrow> time) \<Rightarrow> Order \<Rightarrow> order_row option \<Rightarrow> order_row option" where
  "ins_cell dt item c = (case c of None \<Rightarrow> Some (order_values dt item) | Some r \<Rightarrow> Some r)"

definition put_cell :: "(time \<Rightarrow> time) \<Rightarrow> Status \<Rightarrow> Order \<Rightarrow> order_row option \<Rightarrow> bool \<times> order_row option" where
  "put_cell dt previous item c = upd_cell dt previous item (ins_cell dt item c)"

lemma reaches_cell_set: "cell_set k n c s s' \<Longrightarrow> reaches R s' l \<longleftrightarrow> reaches R s l"
  unfolding reaches_def cell_set_def by metis

lemma saveAt_cell:
  assumes "dbs_ok s" and "reaches R s l"
  shows "\<exists>s'. saveAt dt R l item s = (Inr (), s') \<and> cell_set (pairL l) (ord_OrderNumber item) (ins_cell dt item (cell (pairL l) (ord_OrderNumber item) s)) s s'"
  using insert_cell [OF assms(1), of "loc_Database l" "loc_Table l" _ item dt] assms(2)
  by (auto simp: saveAt_def reaches_def liftE_def pairL_def ins_cell_def wrap_sql_def attemptG_def go_simps)

lemma putAt_cell:
  fixes dt :: "time \<Rightarrow> time"
  assumes "dbs_ok s" and "reaches R s l" and "allowedPreviousStatus (ord_Status item) = Inr previous"
  defines "c \<equiv> put_cell dt previous item (cell (pairL l) (ord_OrderNumber item) s)"
  shows "\<exists>r s'. bindG (insertIgnoreAt dt R l item) (\<lambda>_. updateAt dt R l item) s = (r, s') \<and> ((\<exists>x. r = Inr x) \<longleftrightarrow> fst c)
    \<and> cell_set (pairL l) (ord_OrderNumber item) (snd c) s s'"
proof -
  let ?n = "ord_OrderNumber item" and ?d = "loc_Database l" and ?t = "loc_Table l"
  from assms(2) have res: "resolve R l = Inr (?d, ?t)" "od_tables s (?d, ?t) \<noteq> None" by (auto simp: reaches_def pairL_def)
  obtain s1 where s1: "sql_run ?d ?t (insert_row dt item) s = (Inr (), s1)"
    and c1: "cell_set (?d, ?t) ?n (ins_cell dt item (cell (?d, ?t) ?n s)) s s1"
    using insert_cell [OF assms(1) res(2) refl] by (auto simp: ins_cell_def)
  from c1 res(2) have ok1: "dbs_ok s1" "od_tables s1 (?d, ?t) \<noteq> None" "cell (?d, ?t) ?n s1 = ins_cell dt item (cell (?d, ?t) ?n s)" by (auto simp: cell_set_def)
  have c: "upd_cell dt previous item (cell (?d, ?t) ?n s1) = c" by (simp add: c_def put_cell_def ok1(3) pairL_def)
  obtain r s2 where s2: "transition_at dt ?d ?t ''update order transition at shard failed'' ''verify sharded order update conflict failed'' item s1 = (r, s2)"
    "(\<exists>x. r = Inr x) \<longleftrightarrow> fst c" "cell_set (?d, ?t) ?n (snd c) s1 s2"
    using update_cell [OF ok1(1,2) assms(3) refl, of dt "''update order transition at shard failed''" "''verify sharded order update conflict failed''"] unfolding c by blast
  have "cell_set (?d, ?t) ?n (snd c) s s2" using c1 s2(3) by (auto simp: cell_set_def)
  with s1 s2 res(1) show ?thesis
    by (auto simp: insertIgnoreAt_def updateAt_def liftE_def pairL_def wrap_sql_def attemptG_def bindG_def go_simps)
qed

definition cells_after :: "(string \<times> string \<Rightarrow> order_row option) \<Rightarrow> int64 \<Rightarrow> order_dbs \<Rightarrow> order_dbs \<Rightarrow> bool" where
  "cells_after f n s s' \<longleftrightarrow> dbs_ok s' \<and> (\<forall>k. od_tables s' k = None \<longleftrightarrow> od_tables s k = None)
     \<and> (\<forall>k i. cell k i s' = (if i = n then f k else cell k i s))"

lemma save_all_cells:
  assumes "dbs_ok s" and "\<forall>l \<in> set ls. reaches R s l"
  shows "cells_after (\<lambda>k. if k \<in> pairL ` set ls then ins_cell dt item (cell k (ord_OrderNumber item) s) else cell k (ord_OrderNumber item) s)
    (ord_OrderNumber item) s (snd (save_all dt R ls item s))"
  using assms
proof (induction ls arbitrary: s)
  case Nil
  then show ?case by (simp add: cells_after_def go_simps)
next
  case (Cons l ls)
  let ?n = "ord_OrderNumber item"
  from saveAt_cell [OF Cons.prems(1)] Cons.prems(2) obtain s1 where s1: "saveAt dt R l item s = (Inr (), s1)"
    and c: "cell_set (pairL l) ?n (ins_cell dt item (cell (pairL l) ?n s)) s s1" by (metis list.set_intros(1))
  from c Cons.prems have "dbs_ok s1" "\<forall>l \<in> set ls. reaches R s1 l" using reaches_cell_set [OF c] by (auto simp: cell_set_def)
  from Cons.IH [OF this] c s1 show ?case by (auto simp: cells_after_def cell_set_def bindG_def ins_cell_def split: option.splits)
qed

lemma update_one_cells:
  assumes "dbs_ok s" and "reaches R s l" and "allowedPreviousStatus (ord_Status item) = Inr previous"
  shows "cells_after (\<lambda>k. if k = pairL l then snd (put_cell dt previous item (cell k (ord_OrderNumber item) s)) else cell k (ord_OrderNumber item) s)
    (ord_OrderNumber item) s (snd (update_all dt R [l] item s))"
proof -
  from putAt_cell [OF assms] obtain r s' where p: "bindG (insertIgnoreAt dt R l item) (\<lambda>_. updateAt dt R l item) s = (r, s')"
    and c: "cell_set (pairL l) (ord_OrderNumber item) (snd (put_cell dt previous item (cell (pairL l) (ord_OrderNumber item) s))) s s'" by blast
  from p have "snd (update_all dt R [l] item s) = s'" by (auto simp: bindG_def go_simps split: prod.splits sum.splits)
  with c show ?thesis by (auto simp: cells_after_def cell_set_def)
qed

lemma update_two_cells:
  fixes dt :: "time \<Rightarrow> time"
  assumes "dbs_ok s" and "reaches R s l" and "reaches R s k" and "allowedPreviousStatus (ord_Status item) = Inr previous" and "pairL l \<noteq> pairL k"
  defines "c \<equiv> \<lambda>k. put_cell dt previous item (cell k (ord_OrderNumber item) s)"
  shows "cells_after (\<lambda>j. if j = pairL l \<or> j = pairL k \<and> fst (c (pairL l)) then snd (c j) else cell j (ord_OrderNumber item) s)
    (ord_OrderNumber item) s (snd (update_all dt R [l, k] item s))"
proof -
  from putAt_cell [OF assms(1,2,4)] obtain r s1 where p: "bindG (insertIgnoreAt dt R l item) (\<lambda>_. updateAt dt R l item) s = (r, s1)"
    and r: "(\<exists>x. r = Inr x) \<longleftrightarrow> fst (c (pairL l))" and c: "cell_set (pairL l) (ord_OrderNumber item) (snd (c (pairL l))) s s1" unfolding c_def by blast
  from c assms(3) have s1: "dbs_ok s1" "reaches R s1 k" using reaches_cell_set [OF c] by (auto simp: cell_set_def)
  note q = update_one_cells [OF s1 assms(4), of dt]
  show ?thesis
  proof (cases r)
    case (Inl e)
    with p have "snd (update_all dt R [l, k] item s) = s1" by (auto simp: bindG_def go_simps split: prod.splits sum.splits)
    with c r Inl show ?thesis by (auto simp: cells_after_def cell_set_def)
  next
    case (Inr x)
    with p have "snd (update_all dt R [l, k] item s) = snd (update_all dt R [k] item s1)" by (auto simp: bindG_def go_simps split: prod.splits sum.splits)
    with q c r Inr assms(5) show ?thesis by (auto simp: cells_after_def cell_set_def c_def)
  qed
qed

section \<open>The locations of a router's entry\<close>

definition entry_writes :: "ShardMapping \<Rightarrow> (string \<times> string) list" where
  "entry_writes e = (case (sm_WriteMode e = WriteDual, sm_Shadow e) of
     (True, Some shadow) \<Rightarrow> [pairL (sm_Primary e), pairL shadow] | _ \<Rightarrow> [pairL (sm_Primary e)])"

definition named :: "string \<times> string \<Rightarrow> bool" where
  "named l \<longleftrightarrow> is_ident (fst l) \<and> is_ident (snd l)"

lemma location_name_inj: "named (pairL a) \<Longrightarrow> named (pairL b) \<Longrightarrow> location_name a = location_name b \<longleftrightarrow> pairL a = pairL b"
proof -
  have "split_on (CHR ''.'') (location_name l) = [loc_Database l, loc_Table l]" if "named (pairL l)" for l
    using that by (simp add: location_name_def named_def pairL_def split_on_append split_on_plain dot_not_identifier)
  then show "named (pairL a) \<Longrightarrow> named (pairL b) \<Longrightarrow> location_name a = location_name b \<longleftrightarrow> pairL a = pairL b"
    by (metis Pair_inject list.inject location_name_def pairL_def)
qed

text \<open>The locations a repository with a mapping router writes an order to, for the entry of its virtual shard.\<close>

lemma write_locations_entry:
  assumes "sr_router R = mapping_shards now r" and "mo_mappings r (fst (routeVirtualShard r n u)) = Some e" and "\<forall>l \<in> set (entry_writes e). named l"
  shows "(\<exists>a. writeLocations R n u = [a] \<and> set (entry_writes e) = {pairL a})
    \<or> (\<exists>a b. writeLocations R n u = [a, b] \<and> entry_writes e = [pairL a, pairL b] \<and> pairL a \<noteq> pairL b)"
proof -
  have w: "rt_RouteOrderWrites (sr_router R) = Some (Mapping_RouteOrderWrites r)" using assms(1) by (simp add: mapping_shards_def)
  show ?thesis
  proof (cases "sm_WriteMode e = WriteDual \<and> sm_Shadow e \<noteq> None")
    case True
    then obtain b where b: "sm_Shadow e = Some b" by auto
    with True assms(2) have ws: "Mapping_RouteOrderWrites r n u = [sm_Primary e, b]" "entry_writes e = [pairL (sm_Primary e), pairL b]"
      by (auto simp: Mapping_RouteOrderWrites_def entry_writes_def split: prod.splits)
    with assms(3) have "location_name (sm_Primary e) = location_name b \<longleftrightarrow> pairL (sm_Primary e) = pairL b" by (intro location_name_inj) auto
    with w ws show ?thesis by (auto simp: writeLocations_def uniqueLocations_def)
  next
    case False
    with assms(2) have "Mapping_RouteOrderWrites r n u = [sm_Primary e]" "entry_writes e = [pairL (sm_Primary e)]"
      by (auto simp: Mapping_RouteOrderWrites_def entry_writes_def split: prod.splits option.splits bool.splits)
    with w show ?thesis by (auto simp: writeLocations_def uniqueLocations_def)
  qed
qed

end
