(* ===== verification/Migration_Control.thy ===== *)
theory Migration_Control
  imports Migration Shard_Writes
begin

text \<open>
  What the operations of the migration service's MySQL repository do to tasks, mappings and tables when any of their
  statements may be refused. The operations are described by relations between the states before and after
  (\<open>task_saved\<close>, \<open>rows_copied\<close>, \<open>task_completed\<close> and others); the rules for \<open>ends\<close> carry the proofs.
\<close>


section \<open>Statements that may be refused\<close>

text \<open>
  No reply is lost from now on: a statement is refused or executed. \<open>ends m s E Q\<close>: from such a state \<open>m\<close> fails in
  a state with \<open>E\<close> or returns \<open>a\<close> in a state with \<open>Q a\<close>, and again no reply is lost.
\<close>

definition calm :: "'z migrate_db_scheme \<Rightarrow> bool" where
  "calm s \<longleftrightarrow> ReplyLost \<notin> set (od_faults (md_orders s))"

definition same_data :: "'z migrate_db_scheme \<Rightarrow> 'z migrate_db_scheme \<Rightarrow> bool" where
  "same_data s s' \<longleftrightarrow> md_tasks s' = md_tasks s \<and> md_mappings s' = md_mappings s \<and> od_tables (md_orders s') = od_tables (md_orders s)
     \<and> migrate_db.more s' = migrate_db.more s"

definition ends :: "('z migrate_db_scheme, 'a) go \<Rightarrow> 'z migrate_db_scheme \<Rightarrow> ('z migrate_db_scheme \<Rightarrow> bool) \<Rightarrow> ('a \<Rightarrow> 'z migrate_db_scheme \<Rightarrow> bool) \<Rightarrow> bool" where
  "ends m s E Q \<longleftrightarrow> (case m s of (Inl e, s') \<Rightarrow> calm s' \<and> E s' | (Inr a, s') \<Rightarrow> calm s' \<and> Q a s')"

definition plain_stmt :: "('z migrate_db_scheme \<Rightarrow> ('a \<times> 'z migrate_db_scheme) option) \<Rightarrow> bool" where
  "plain_stmt stmt \<longleftrightarrow> (\<forall>s a s'. stmt s = Some (a, s') \<longrightarrow> od_faults (md_orders s') = od_faults (md_orders s))"

lemma same_data_refl [simp]: "same_data s s"
  by (simp add: same_data_def)

lemma same_data_trans: "same_data s t \<Longrightarrow> same_data t u \<Longrightarrow> same_data s u"
  by (simp add: same_data_def)

lemma plain_stmts [intro!]:
  "plain_stmt (\<lambda>s. Some (f s, s))" "plain_stmt (update_mappings p g)" "plain_stmt (upsert_task ts task)" "plain_stmt (set_task i h)"
  "plain_stmt (batch_boundary source cursor sz)" "plain_stmt (copy_batch source target cursor nx)" "plain_stmt (resume_rows i)"
  by (auto simp: plain_stmt_def update_mappings_def upsert_task_def set_task_def batch_boundary_def copy_batch_def resume_rows_def Let_def
      split: option.splits prod.splits)

lemma ends_run:
  assumes "calm s" and "plain_stmt stmt" and E: "\<And>s1. same_data s s1 \<Longrightarrow> calm s1 \<Longrightarrow> E s1"
    and Q: "\<And>s1 a s2. same_data s s1 \<Longrightarrow> stmt s1 = Some (a, s2) \<Longrightarrow> calm s2 \<Longrightarrow> Q a s2"
  shows "ends (md_run stmt) s E Q"
proof -
  let ?s1 = "s\<lparr>md_orders := (md_orders s)\<lparr>od_faults := tl (od_faults (md_orders s))\<rparr>\<rparr>"
  have s1: "same_data s ?s1" "calm ?s1" using assms(1) by (cases "od_faults (md_orders s)"; auto simp: same_data_def calm_def)+
  have "(case od_faults (md_orders s) of [] \<Rightarrow> Works | f # _ \<Rightarrow> f) \<noteq> ReplyLost" using assms(1) by (auto simp: calm_def split: list.splits)
  moreover have "calm s2 \<and> Q a s2" if "stmt ?s1 = Some (a, s2)" for a s2
    using that Q [OF s1(1) that] s1(2) assms(2) by (auto simp: calm_def plain_stmt_def)
  ultimately show ?thesis
    using E [OF s1] s1(2) by (auto simp: ends_def md_run_def Let_def split: option.splits)
qed

lemma ends_wrap: "ends m s E Q \<Longrightarrow> ends (wrap_md message m) s E Q"
  by (auto simp: ends_def wrap_md_def attemptG_def go_simps split: prod.splits sum.splits)

lemma ends_bind: "ends m s E (\<lambda>a s1. calm s1 \<longrightarrow> ends (f a) s1 E Q) \<Longrightarrow> ends (bindG m f) s E Q"
  by (auto simp: ends_def bindG_def split: prod.splits sum.splits)

lemma ends_fail: "calm s \<Longrightarrow> E s \<Longrightarrow> ends (failG e) s E Q"
  by (simp add: ends_def failG_def)

lemma ends_return: "calm s \<Longrightarrow> Q a s \<Longrightarrow> ends (returnG a) s E Q"
  by (simp add: ends_def returnG_def)

lemma ends_mono: "ends m s E Q \<Longrightarrow> (\<And>s. E s \<Longrightarrow> E' s) \<Longrightarrow> (\<And>a s. Q a s \<Longrightarrow> Q' a s) \<Longrightarrow> ends m s E' Q'"
  by (auto simp: ends_def split: prod.splits sum.splits)

lemma ends_tx:
  assumes "calm s" and E: "\<And>s1. same_data s s1 \<Longrightarrow> E s1"
    and body: "\<And>s0. same_data s s0 \<Longrightarrow> calm s0 \<Longrightarrow> ends body s0 (\<lambda>_. True) (\<lambda>_ s1. \<forall>s2. same_data s1 s2 \<longrightarrow> Q () s2)"
  shows "ends (md_tx m1 m2 body) s E Q"
  unfolding md_tx_def
proof (rule ends_bind, rule ends_wrap, rule ends_run [OF assms(1) plain_stmts(1)], rule E, assumption, rule impI)
  fix s1 a s0
  assume s1: "same_data s s1" "Some ((), s1) = Some (a, s0)" "calm s0"
  then have s0: "same_data s s0" by simp
  obtain r sb where b: "body s0 = (r, sb)" by (metis surj_pair)
  have cb: "calm sb" using body [OF s0 s1(3)] b by (cases r) (auto simp: ends_def)
  have u: "same_data s0 (undo_to s0 sb)" "calm (undo_to s0 sb)" using cb by (auto simp: undo_to_def same_data_def calm_def)
  show "ends (\<lambda>s0. case body s0 of (Inl e, s1) \<Rightarrow> (Inl e, undo_to s0 s1)
      | (Inr x, s1) \<Rightarrow> wrap_md m2 (md_run (\<lambda>s. Some ((), undo_to s1 s))) (undo_to s0 s1)) s0 E Q"
  proof (cases r)
    case (Inl e)
    with b u E [OF same_data_trans [OF s0 u(1)]] show ?thesis by (simp add: ends_def)
  next
    case (Inr x)
    have Q: "Q () s2" if "same_data sb s2" for s2 using body [OF s0 s1(3)] b Inr that by (simp add: ends_def)
    have "ends (wrap_md m2 (md_run (\<lambda>s. Some ((), undo_to sb s)))) (undo_to s0 sb) E Q"
    proof (rule ends_wrap, rule ends_run [OF u(2)])
      show "plain_stmt (\<lambda>s. Some ((), undo_to sb s))" by (auto simp: plain_stmt_def undo_to_def)
      show "E t" if "same_data (undo_to s0 sb) t" for t using E s0 u(1) that by (meson same_data_trans)
      show "Q a t" if "Some ((), undo_to sb s2) = Some (a, t)" for a s2 t using that by (auto intro!: Q simp: same_data_def undo_to_def)
    qed
    with b Inr show ?thesis by (simp add: ends_def)
  qed
qed

lemmas ends_rules = ends_bind ends_wrap ends_fail ends_return

text \<open>What the operations of the repository do.\<close>

definition task_saved :: "time \<Rightarrow> MigrationTask \<Rightarrow> 'z migrate_db_scheme \<Rightarrow> 'z migrate_db_scheme \<Rightarrow> bool" where
  "task_saved ts task s s' \<longleftrightarrow> (\<exists>source target. ParseShardLocation (tk_SourceShard task) = Inr source
     \<and> ParseShardLocation (tk_TargetShard task) = Inr target \<and> od_tables (md_orders s) target \<noteq> None
     \<and> (\<forall>m \<in> set (md_mappings s). \<not> target_assigned (tk_VirtualShard task) target m)
     \<and> (\<exists>m \<in> set (md_mappings s). activate_row (tk_VirtualShard task) source m)
     \<and> md_mappings s' = map (\<lambda>m. if activate_row (tk_VirtualShard task) source m then activate target m else m) (md_mappings s)
     \<and> md_tasks s' = md_tasks (snd (the (upsert_task ts task s))) \<and> od_tables (md_orders s') = od_tables (md_orders s)
     \<and> migrate_db.more s' = migrate_db.more s)"

lemma SaveTask_ends:
  assumes "calm s"
  shows "ends (DB_SaveTask ts task) s (same_data s) (\<lambda>_. task_saved ts task s)"
proof (cases "ParseShardLocation (tk_SourceShard task)")
  case (Inr source)
  note source = this
  show ?thesis
  proof (cases "ParseShardLocation (tk_TargetShard task)")
    case (Inr target)
    show ?thesis unfolding DB_SaveTask_def source Inr sum.case
      by (rule ends_tx [OF assms], assumption, intro ends_rules ends_run, auto intro!: ends_rules ends_run plain_stmts
          simp: task_saved_def same_data_def source Inr update_mappings_def upsert_task_def Let_def filter_empty_conv)
  qed (use assms source in \<open>auto simp: DB_SaveTask_def intro: ends_fail\<close>)
qed (use assms in \<open>auto simp: DB_SaveTask_def intro: ends_fail\<close>)

definition task_set :: "int64 \<Rightarrow> (MigrationTask \<Rightarrow> MigrationTask) \<Rightarrow> 'z migrate_db_scheme \<Rightarrow> 'z migrate_db_scheme \<Rightarrow> bool" where
  "task_set i f s s' \<longleftrightarrow> md_tasks s' = map (\<lambda>(j, task). (j, if j = i then f task else task)) (md_tasks s)
     \<and> md_mappings s' = md_mappings s \<and> od_tables (md_orders s') = od_tables (md_orders s) \<and> migrate_db.more s' = migrate_db.more s"

lemma set_task_set: "same_data s s1 \<Longrightarrow> set_task i f s1 = Some (a, s') \<Longrightarrow> task_set i f s s'"
  by (auto simp: set_task_def task_set_def same_data_def)

definition task_loaded :: "'z migrate_db_scheme \<Rightarrow> MigrationTask option \<Rightarrow> 'z migrate_db_scheme \<Rightarrow> bool" where
  "task_loaded s next s' \<longleftrightarrow> (case next of
     None \<Rightarrow> same_data s s'
   | Some t \<Rightarrow> (\<exists>task \<in> snd ` set (md_tasks s). tk_Status task \<in> {TaskPending, TaskRunning} \<and> t = task\<lparr>tk_Status := TaskRunning\<rparr>
       \<and> task_set (tk_ID task) (\<lambda>task. task\<lparr>tk_Status := TaskRunning\<rparr>) s s'))"

lemma LoadNextTask_ends:
  assumes "calm s"
  shows "ends DB_LoadNextTask s (same_data s) (task_loaded s)"
  unfolding DB_LoadNextTask_def
proof (rule ends_bind, rule ends_wrap, rule ends_run [OF assms plain_stmts(1)], assumption, rule impI)
  fix s1 tasks s2
  assume s1: "same_data s s1" "calm s2"
    and "Some (sort_key tk_CreatedAt (filter (\<lambda>task. tk_Status task \<in> {TaskPending, TaskRunning}) (map snd (md_tasks s1))), s1) = Some (tasks, s2)"
  then have t: "set tasks \<subseteq> {task \<in> snd ` set (md_tasks s). tk_Status task \<in> {TaskPending, TaskRunning}}" and s2: "same_data s s2"
    by (auto simp: same_data_def)
  show "ends (case tasks of [] \<Rightarrow> returnG None | task # _ \<Rightarrow>
         bindG (wrap_md ''mark migration task running failed'' (md_run (set_task (tk_ID task) (\<lambda>task. task\<lparr>tk_Status := TaskRunning\<rparr>)))) (\<lambda>_.
         returnG (Some (task\<lparr>tk_Status := TaskRunning\<rparr>)))) s2 (same_data s) (task_loaded s)"
  proof (cases tasks)
    case Nil
    with s1(2) s2 show ?thesis by (auto intro!: ends_return simp: task_loaded_def)
  next
    case (Cons task rest)
    with t have task: "task \<in> snd ` set (md_tasks s)" "tk_Status task \<in> {TaskPending, TaskRunning}" by auto
    have "task_loaded s (Some (task\<lparr>tk_Status := TaskRunning\<rparr>)) s4"
      if "same_data s2 s3" "set_task (tk_ID task) (\<lambda>task. task\<lparr>tk_Status := TaskRunning\<rparr>) s3 = Some (a, s4)" for s3 a s4
      using task set_task_set [OF same_data_trans [OF s2 that(1)] that(2)] unfolding task_loaded_def option.case by blast
    then show ?thesis unfolding Cons list.case
      by (intro ends_rules ends_run s1(2) plain_stmts impI) (auto intro: same_data_trans [OF s2])
  qed
qed

text \<open>\<open>rows_copied task nx s s'\<close>: the source's rows after the cursor and up to \<open>nx\<close> have been copied.\<close>

definition rows_copied :: "MigrationTask \<Rightarrow> int64 \<Rightarrow> 'z migrate_db_scheme \<Rightarrow> 'z migrate_db_scheme \<Rightarrow> bool" where
  "rows_copied task nx s s' \<longleftrightarrow> (\<exists>source target src tgt. ParseShardLocation (tk_SourceShard task) = Inr source
     \<and> ParseShardLocation (tk_TargetShard task) = Inr target \<and> od_tables (md_orders s) source = Some src \<and> od_tables (md_orders s) target = Some tgt
     \<and> od_tables (md_orders s') = (od_tables (md_orders s))(target \<mapsto> copy_rows (tk_CursorOrderNumber task) nx src tgt)
     \<and> md_mappings s' = md_mappings s \<and> migrate_db.more s' = migrate_db.more s)"

definition nothing_left :: "MigrationTask \<Rightarrow> 'z migrate_db_scheme \<Rightarrow> bool" where
  "nothing_left task s \<longleftrightarrow> (\<exists>source src. ParseShardLocation (tk_SourceShard task) = Inr source \<and> od_tables (md_orders s) source = Some src
     \<and> (\<forall>n \<in> fst ` set src. n \<le> tk_CursorOrderNumber task))"

lemma batch_numbers_Nil:
  assumes "batch_numbers cursor sz t = []" and "0 < sz"
  shows "\<forall>n \<in> fst ` set t. n \<le> cursor"
proof -
  have "sort (filter (\<lambda>n. n > cursor) (map fst t)) = []" using assms by (simp add: batch_numbers_def)
  then have "filter (\<lambda>n. n > cursor) (map fst t) = []" by (metis length_0_conv length_sort)
  then show ?thesis by (auto simp: filter_empty_conv not_less)
qed

definition copied_from :: "MigrationTask \<Rightarrow> 'z migrate_db_scheme \<Rightarrow> int64 \<times> int64 \<Rightarrow> 'z migrate_db_scheme \<Rightarrow> bool" where
  "copied_from task s = (\<lambda>(copied, nx) s'. copied = 0 \<and> same_data s s' \<and> nothing_left task s
       \<or> copied > 0 \<and> rows_copied task nx s s' \<and> md_tasks s' = map (\<lambda>(i, t). (i, if i = tk_ID task
            then t\<lparr>tk_CursorOrderNumber := nx, tk_CopiedRows := tk_CopiedRows t + copied, tk_Status := TaskRunning\<rparr> else t)) (md_tasks s))"

lemma CopyBatch_ends:
  assumes "calm s"
  shows "ends (DB_CopyBatch task) s (\<lambda>s'. same_data s s' \<or> (\<exists>nx. rows_copied task nx s s' \<and> md_tasks s' = md_tasks s)) (copied_from task s)"
    (is "ends _ s ?E ?Q")
proof (cases "ParseShardLocation (tk_SourceShard task)")
  case (Inr source)
  note source = this
  show ?thesis
  proof (cases "ParseShardLocation (tk_TargetShard task)")
    case (Inr target)
    let ?sz = "if tk_BatchSize task \<le> 0 then 500 else tk_BatchSize task"
    show ?thesis unfolding DB_CopyBatch_def source Inr sum.case Let_def
    proof (rule ends_bind, rule ends_wrap, rule ends_run [OF assms plain_stmts(5)], blast, rule impI)
      fix s1 b s2
      assume s1: "same_data s s1" "batch_boundary source (tk_CursorOrderNumber task) (nat ?sz) s1 = Some (b, s2)" "calm s2"
      then obtain src where src: "od_tables (md_orders s) source = Some src" and s2: "same_data s s2"
        and b: "b = (let ns = batch_numbers (tk_CursorOrderNumber task) (nat ?sz) src in (if ns = [] then 0 else last ns, int (length ns)))"
        by (auto simp: batch_boundary_def same_data_def Let_def)
      obtain nx copied where nx: "b = (nx, copied)" by (cases b)
      have left: "nothing_left task s" if "copied = 0"
        using batch_numbers_Nil [of "tk_CursorOrderNumber task" "nat ?sz" src] that b nx src source
        by (auto simp: nothing_left_def Let_def)
      have copy: "rows_copied task nx s s4 \<and> md_tasks s4 = md_tasks s"
        if "same_data s2 s3" "copy_batch source target (tk_CursorOrderNumber task) nx s3 = Some (a, s4)" for s3 a s4
        using that s2 source Inr by (auto simp: copy_batch_def rows_copied_def same_data_def split: option.splits)
      have adv: "?Q (copied, nx) s6" if "rows_copied task nx s s4 \<and> md_tasks s4 = md_tasks s" "same_data s4 s5" "copied > 0"
        "set_task (tk_ID task) (\<lambda>t. t\<lparr>tk_CursorOrderNumber := nx, tk_CopiedRows := tk_CopiedRows t + copied, tk_Status := TaskRunning\<rparr>) s5 = Some (a, s6)" for s4 s5 s6 a
        using that by (auto simp: copied_from_def rows_copied_def same_data_def set_task_def)
      have E4: "?E s5" if "rows_copied task nx s s4 \<and> md_tasks s4 = md_tasks s" "same_data s4 s5" for s4 s5
        using that by (auto simp: rows_copied_def same_data_def)
      have pos: "copied \<noteq> 0 \<Longrightarrow> copied > 0" using b nx by (auto simp: Let_def)
      show "ends (case b of (nextCursor, copied) \<Rightarrow>
        if copied = 0 then returnG (0, tk_CursorOrderNumber task)
        else bindG (wrap_md ''copy migration order batch failed'' (md_run (copy_batch source target (tk_CursorOrderNumber task) nextCursor))) (\<lambda>_.
          bindG (wrap_md ''advance migration task cursor failed''
            (md_run (set_task (tk_ID task) (\<lambda>t. t\<lparr>tk_CursorOrderNumber := nextCursor, tk_CopiedRows := tk_CopiedRows t + copied, tk_Status := TaskRunning\<rparr>)))) (\<lambda>_.
          returnG (copied, nextCursor)))) s2 ?E ?Q"
      proof (cases "copied = 0")
        case True
        with s1(3) s2 left nx show ?thesis by (auto intro!: ends_return simp: copied_from_def)
      next
        case False
        show ?thesis unfolding nx prod.case if_not_P [OF False]
        proof (rule ends_bind, rule ends_wrap, rule ends_run [OF s1(3) plain_stmts(6)], rule disjI1, erule same_data_trans [OF s2], rule impI)
          fix s3 a s4 assume "same_data s2 s3" "copy_batch source target (tk_CursorOrderNumber task) nx s3 = Some (a, s4)" "calm s4"
          note c = copy [OF this(1,2)]
          show "ends (bindG (wrap_md ''advance migration task cursor failed''
            (md_run (set_task (tk_ID task) (\<lambda>t. t\<lparr>tk_CursorOrderNumber := nx, tk_CopiedRows := tk_CopiedRows t + copied, tk_Status := TaskRunning\<rparr>)))) (\<lambda>_.
            returnG (copied, nx))) s4 ?E ?Q"
            by (intro ends_rules ends_run \<open>calm s4\<close> plain_stmts E4 [OF c] impI, assumption+, rule adv [OF c _ pos [OF False]])
        qed
      qed
    qed
  qed (use assms source in \<open>auto simp: DB_CopyBatch_def intro: ends_fail\<close>)
qed (use assms in \<open>auto simp: DB_CopyBatch_def intro: ends_fail\<close>)

definition task_completed :: "MigrationTask \<Rightarrow> 'z migrate_db_scheme \<Rightarrow> 'z migrate_db_scheme \<Rightarrow> bool" where
  "task_completed task s s' \<longleftrightarrow> (\<exists>target. ParseShardLocation (tk_TargetShard task) = Inr target
     \<and> (\<exists>m \<in> set (md_mappings s). cutover_row (tk_VirtualShard task) target m)
     \<and> md_mappings s' = map (\<lambda>m. if cutover_row (tk_VirtualShard task) target m then cutover m else m) (md_mappings s)
     \<and> md_tasks s' = map (\<lambda>(j, t). (j, if j = tk_ID task then t\<lparr>tk_Status := TaskDone, tk_ErrorMessage := []\<rparr> else t)) (md_tasks s)
     \<and> od_tables (md_orders s') = od_tables (md_orders s) \<and> migrate_db.more s' = migrate_db.more s)"

lemma CompleteTask_ends:
  assumes "calm s"
  shows "ends (DB_CompleteTask task) s (same_data s) (\<lambda>_. task_completed task s)"
proof (cases "ParseShardLocation (tk_TargetShard task)")
  case (Inr target)
  show ?thesis unfolding DB_CompleteTask_def Inr sum.case
    by (rule ends_tx [OF assms], assumption, intro ends_rules ends_run, auto intro!: ends_rules ends_run plain_stmts
        simp: task_completed_def same_data_def Inr update_mappings_def set_task_def filter_empty_conv)
qed (use assms in \<open>auto simp: DB_CompleteTask_def intro: ends_fail\<close>)

lemma FailTask_ends:
  "calm s \<Longrightarrow> ends (DB_FailTask i reason) s (same_data s) (\<lambda>_. task_set i (\<lambda>t. t\<lparr>tk_Status := TaskPaused, tk_ErrorMessage := reason\<rparr>) s)"
  unfolding DB_FailTask_def by (auto intro!: ends_rules ends_run plain_stmts intro: set_task_set)

definition task_resumed :: "int64 \<Rightarrow> 'z migrate_db_scheme \<Rightarrow> 'z migrate_db_scheme \<Rightarrow> bool" where
  "task_resumed i s s' \<longleftrightarrow> md_tasks s' = map (\<lambda>(j, task). (j, if j = i \<and> resumable s task then task\<lparr>tk_Status := TaskRunning, tk_ErrorMessage := []\<rparr> else task)) (md_tasks s)
     \<and> md_mappings s' = md_mappings s \<and> od_tables (md_orders s') = od_tables (md_orders s) \<and> migrate_db.more s' = migrate_db.more s"

lemma resume_rows_resumed:
  assumes "same_data s s1" and "resume_rows i s1 = Some (k, s')"
  shows "task_resumed i s s'"
proof -
  have "resumable s1 = resumable s" using assms(1) by (auto simp: fun_eq_iff resumable_def same_data_def)
  with assms show ?thesis by (auto simp: resume_rows_def task_resumed_def same_data_def Let_def)
qed

lemma ResumeTask_ends: "calm s \<Longrightarrow> ends (DB_ResumeTask i) s (\<lambda>s'. same_data s s' \<or> task_resumed i s s') (\<lambda>_. task_resumed i s)"
  unfolding DB_ResumeTask_def
  by (rule ends_bind, rule ends_wrap, rule ends_run) (auto intro!: ends_rules plain_stmts dest: resume_rows_resumed)

lemma LoadShardMappings_ends:
  "calm s \<Longrightarrow> ends DB_LoadShardMappings s (same_data s) (\<lambda>ms s'. same_data s s' \<and> ms = map mapping_item (sort_key mp_virtual_shard (md_mappings s)))"
  unfolding DB_LoadShardMappings_def by (rule ends_wrap, rule ends_run) (auto simp: same_data_def)

section \<open>Copying rows\<close>

lemma copy_fold_lookup:
  "distinct (map fst xs) \<Longrightarrow> map_of (fold (\<lambda>(n, r) t. AList.update n (copy_row r (map_of t n)) t) xs tgt) n
    = (case map_of xs n of None \<Rightarrow> map_of tgt n | Some r \<Rightarrow> Some (copy_row r (map_of tgt n)))"
proof (induction xs arbitrary: tgt)
  case (Cons x xs)
  obtain k r where x: "x = (k, r)" by (cases x)
  with Cons.prems have "map_of xs k = None" by (simp add: map_of_eq_None_iff)
  with Cons x show ?case by (auto simp: update_conv' split: option.splits)
qed simp

lemma copy_rows_lookup:
  assumes "distinct (map fst src)"
  shows "map_of (copy_rows cursor nx src tgt) n = (case map_of src n of
      Some r \<Rightarrow> if cursor < n \<and> n \<le> nx then Some (copy_row r (map_of tgt n)) else map_of tgt n | None \<Rightarrow> map_of tgt n)"
proof -
  let ?xs = "filter (\<lambda>(n, r). cursor < n \<and> n \<le> nx) src"
  have "map_of ?xs n = (if cursor < n \<and> n \<le> nx then map_of src n else None)" by (induction src) auto
  moreover have "distinct (map fst ?xs)" using assms by (induction src) auto
  ultimately show ?thesis by (simp add: copy_rows_def copy_fold_lookup split: option.splits)
qed

lemma copy_rows_distinct: "distinct (map fst tgt) \<Longrightarrow> distinct (map fst (copy_rows cursor nx src tgt))"
proof -
  have "distinct (map fst tgt) \<Longrightarrow> distinct (map fst (fold (\<lambda>(n, r) t. AList.update n (copy_row r (map_of t n)) t) xs tgt))" for xs
    by (induction xs arbitrary: tgt) (auto simp: distinct_update)
  then show "distinct (map fst tgt) \<Longrightarrow> distinct (map fst (copy_rows cursor nx src tgt))" by (simp add: copy_rows_def)
qed

section \<open>The control tables\<close>

text \<open>
  The tables of tasks and mappings are well formed: a mapping names tables that exist and has a shadow exactly in the mode
  of dual writing; no two virtual shards share a location; a task that is not done is the only one of its virtual
  shard, which is writing to the task's target as its shadow.
\<close>

definition loc_of :: "mapping_row \<Rightarrow> string \<times> string" where
  "loc_of m = (mp_physical_db m, mp_physical_table m)"

definition shadow_of :: "mapping_row \<Rightarrow> (string \<times> string) option" where
  "shadow_of m = (case (mp_shadow_db m, mp_shadow_table m) of (Some d, Some t) \<Rightarrow> Some (d, t) | _ \<Rightarrow> None)"

definition locs_of :: "mapping_row \<Rightarrow> (string \<times> string) set" where
  "locs_of m = insert (loc_of m) (set_option (shadow_of m))"

definition mapping_wf :: "(string \<times> string \<Rightarrow> order_table option) \<Rightarrow> mapping_row \<Rightarrow> bool" where
  "mapping_wf tables m \<longleftrightarrow> - (2 ^ 31) \<le> mp_virtual_shard m \<and> mp_virtual_shard m < 2 ^ 31
     \<and> (\<forall>l \<in> locs_of m. named l \<and> tables l \<noteq> None)
     \<and> (mp_write_mode m = ''PRIMARY_ONLY'' \<and> mp_shadow_db m = None \<and> mp_shadow_table m = None
        \<or> mp_write_mode m = ''DUAL_WRITE'' \<and> shadow_of m \<noteq> None)"

definition mappings_ok :: "'z migrate_db_scheme \<Rightarrow> bool" where
  "mappings_ok s \<longleftrightarrow> distinct (map mp_virtual_shard (md_mappings s)) \<and> (\<forall>m \<in> set (md_mappings s). mapping_wf (od_tables (md_orders s)) m)
     \<and> (\<forall>m \<in> set (md_mappings s). \<forall>k \<in> set (md_mappings s). mp_virtual_shard m \<noteq> mp_virtual_shard k \<longrightarrow> locs_of m \<inter> locs_of k = {})"

definition serves :: "mapping_row \<Rightarrow> MigrationTask \<Rightarrow> bool" where
  "serves m task \<longleftrightarrow> mp_virtual_shard m = tk_VirtualShard task \<and> ParseShardLocation (tk_SourceShard task) = Inr (loc_of m)
     \<and> (\<exists>l. shadow_of m = Some l \<and> ParseShardLocation (tk_TargetShard task) = Inr l)"

definition tasks_ok :: "'z migrate_db_scheme \<Rightarrow> bool" where
  "tasks_ok s \<longleftrightarrow> distinct (map fst (md_tasks s))
     \<and> (\<forall>i task. (i, task) \<in> set (md_tasks s) \<longrightarrow> tk_ID task = i \<and> (tk_Status task \<noteq> TaskDone \<longrightarrow> (\<exists>m \<in> set (md_mappings s). serves m task)))
     \<and> (\<forall>i task j other. (i, task) \<in> set (md_tasks s) \<longrightarrow> (j, other) \<in> set (md_tasks s) \<longrightarrow>
          tk_Status task \<noteq> TaskDone \<longrightarrow> tk_Status other \<noteq> TaskDone \<longrightarrow> tk_VirtualShard task = tk_VirtualShard other \<longrightarrow> i = j)"

definition control_ok :: "'z migrate_db_scheme \<Rightarrow> bool" where
  "control_ok s \<longleftrightarrow> mappings_ok s \<and> tasks_ok s"

lemma ParseShardLocation_named: "ParseShardLocation v = Inr l \<Longrightarrow> named l"
  by (auto simp: ParseShardLocation_def named_def split: list.splits if_splits)

lemma mapping_wf_dom: "(\<And>l. tables l = None \<longleftrightarrow> tables' l = None) \<Longrightarrow> mapping_wf tables m = mapping_wf tables' m"
  by (simp add: mapping_wf_def)

lemma same_shard_same: "mappings_ok s \<Longrightarrow> m \<in> set (md_mappings s) \<Longrightarrow> k \<in> set (md_mappings s) \<Longrightarrow> mp_virtual_shard m = mp_virtual_shard k \<Longrightarrow> m = k"
  by (auto simp: mappings_ok_def distinct_map dest: inj_onD)

text \<open>Changes of tasks that leave their plan alone.\<close>

definition same_plan :: "MigrationTask \<Rightarrow> MigrationTask \<Rightarrow> bool" where
  "same_plan t t' \<longleftrightarrow> tk_ID t' = tk_ID t \<and> tk_VirtualShard t' = tk_VirtualShard t \<and> tk_SourceShard t' = tk_SourceShard t
     \<and> tk_TargetShard t' = tk_TargetShard t \<and> tk_CreatedAt t' = tk_CreatedAt t \<and> (tk_Status t' = TaskDone \<longleftrightarrow> tk_Status t = TaskDone)"

lemma control_ok_plan:
  assumes "control_ok s" and "md_mappings s' = md_mappings s" and "\<And>l. od_tables (md_orders s') l = None \<longleftrightarrow> od_tables (md_orders s) l = None"
    and "md_tasks s' = map (\<lambda>(j, t). (j, g j t)) (md_tasks s)" and g: "\<And>j t. (j, t) \<in> set (md_tasks s) \<Longrightarrow> same_plan t (g j t)"
  shows "control_ok s'"
proof -
  have "mappings_ok s'" using assms(1-3) mapping_wf_dom [of "od_tables (md_orders s)" "od_tables (md_orders s')"]
    by (auto simp: control_ok_def mappings_ok_def)
  moreover have "map fst (md_tasks s') = map fst (md_tasks s)" unfolding assms(4) by (induction "md_tasks s") auto
  then have "distinct (map fst (md_tasks s'))" using assms(1) by (simp add: control_ok_def tasks_ok_def)
  moreover have tk: "\<exists>t. (i, t) \<in> set (md_tasks s) \<and> same_plan t task \<and> (\<forall>m. serves m task \<longleftrightarrow> serves m t)" if "(i, task) \<in> set (md_tasks s')" for i task
  proof -
    from that obtain t where t: "(i, t) \<in> set (md_tasks s)" "task = g i t" unfolding assms(4) by auto
    with g [OF t(1)] show ?thesis by (auto simp: serves_def same_plan_def)
  qed
  have "tk_ID task = i \<and> (tk_Status task \<noteq> TaskDone \<longrightarrow> (\<exists>m \<in> set (md_mappings s'). serves m task))" if "(i, task) \<in> set (md_tasks s')" for i task
    using tk [OF that] assms(1) by (auto simp: control_ok_def tasks_ok_def same_plan_def assms(2))
  moreover have "i = j" if "(i, task) \<in> set (md_tasks s')" "(j, other) \<in> set (md_tasks s')" "tk_Status task \<noteq> TaskDone" "tk_Status other \<noteq> TaskDone"
    "tk_VirtualShard task = tk_VirtualShard other" for i task j other
    using tk [OF that(1)] tk [OF that(2)] that(3-) assms(1) unfolding control_ok_def tasks_ok_def same_plan_def by metis
  ultimately show ?thesis unfolding control_ok_def tasks_ok_def by blast
qed

lemma control_ok_same: "same_data s s' \<Longrightarrow> control_ok s \<Longrightarrow> control_ok s'"
  by (simp add: same_data_def control_ok_def mappings_ok_def tasks_ok_def)

lemma task_served: "control_ok s \<Longrightarrow> (i, t) \<in> set (md_tasks s) \<Longrightarrow> tk_Status t \<noteq> TaskDone \<Longrightarrow> \<exists>m \<in> set (md_mappings s). serves m t"
  unfolding control_ok_def tasks_ok_def by blast

lemma one_task: "control_ok s \<Longrightarrow> (i, t) \<in> set (md_tasks s) \<Longrightarrow> (j, o') \<in> set (md_tasks s) \<Longrightarrow> tk_Status t \<noteq> TaskDone \<Longrightarrow> tk_Status o' \<noteq> TaskDone
    \<Longrightarrow> tk_VirtualShard t = tk_VirtualShard o' \<Longrightarrow> i = j"
  unfolding control_ok_def tasks_ok_def by blast

lemma upsert_new: "i \<notin> fst ` set xs \<Longrightarrow> AList.update i v xs = xs @ [(i, v)]"
  by (induction xs) auto

lemma task_saved_new:
  assumes "task_saved ts task s s'" and "tk_ID task \<notin> fst ` set (md_tasks s)"
  shows "md_tasks s' = md_tasks s @ [(tk_ID task, task\<lparr>tk_CursorOrderNumber := 0, tk_CopiedRows := 0, tk_ErrorMessage := [], tk_CreatedAt := ts\<rparr>)]"
proof -
  from assms(2) have "map_of (md_tasks s) (tk_ID task) = None" by (simp add: map_of_eq_None_iff)
  with assms show ?thesis by (auto simp: task_saved_def upsert_task_def upsert_new)
qed

lemma activate_locs: "activate_row v source m \<Longrightarrow> loc_of (activate target m) = loc_of m \<and> loc_of m = source \<and> shadow_of (activate target m) = Some target
    \<and> mp_virtual_shard (activate target m) = v \<and> mp_virtual_shard m = v"
  by (simp add: activate_def activate_row_def loc_of_def shadow_of_def)

lemma mappings_ok_map:
  assumes "mappings_ok s" and "md_mappings s' = map g (md_mappings s)" and "\<And>m. mp_virtual_shard (g m) = mp_virtual_shard m"
    and "\<And>m. m \<in> set (md_mappings s) \<Longrightarrow> mapping_wf (od_tables (md_orders s')) (g m)"
    and "\<And>m k. m \<in> set (md_mappings s) \<Longrightarrow> k \<in> set (md_mappings s) \<Longrightarrow> mp_virtual_shard m \<noteq> mp_virtual_shard k \<Longrightarrow> locs_of (g m) \<inter> locs_of (g k) = {}"
  shows "mappings_ok s'"
proof -
  have "map mp_virtual_shard (md_mappings s') = map mp_virtual_shard (md_mappings s)" by (simp add: assms(2,3) comp_def)
  with assms show ?thesis by (auto simp: mappings_ok_def simp del: map_map)
qed

lemma control_ok_saved:
  assumes "control_ok s" and "task_saved ts task s s'" and "tk_ID task \<notin> fst ` set (md_tasks s)" and "tk_Status task \<noteq> TaskDone"
  shows "control_ok s'"
proof -
  from assms(2) obtain source target where p: "ParseShardLocation (tk_SourceShard task) = Inr source" "ParseShardLocation (tk_TargetShard task) = Inr target"
    "od_tables (md_orders s) target \<noteq> None" "\<forall>m \<in> set (md_mappings s). \<not> target_assigned (tk_VirtualShard task) target m"
    "\<exists>m \<in> set (md_mappings s). activate_row (tk_VirtualShard task) source m"
    "md_mappings s' = map (\<lambda>m. if activate_row (tk_VirtualShard task) source m then activate target m else m) (md_mappings s)"
    "od_tables (md_orders s') = od_tables (md_orders s)" unfolding task_saved_def by blast
  define g where "g m = (if activate_row (tk_VirtualShard task) source m then activate target m else m)" for m
  have p6: "md_mappings s' = map g (md_mappings s)" using p(6) by (simp add: g_def)
  have ok: "mappings_ok s" "tasks_ok s" using assms(1) by (auto simp: control_ok_def)
  have vs: "mp_virtual_shard (g m) = mp_virtual_shard m" for m using activate_locs [of "tk_VirtualShard task" source m] by (auto simp: g_def)
  have wf: "mapping_wf (od_tables (md_orders s')) (g m)" if "m \<in> set (md_mappings s)" for m
    using that ok(1) p(3,7) ParseShardLocation_named [OF p(2)] activate_locs [of "tk_VirtualShard task" source m target]
    by (auto simp: g_def mappings_ok_def mapping_wf_def locs_of_def activate_def)
  have locs: "locs_of (g m) \<subseteq> insert target (locs_of m)" "mp_virtual_shard m \<noteq> tk_VirtualShard task \<Longrightarrow> locs_of (g m) = locs_of m" for m
    using activate_locs [of "tk_VirtualShard task" source m target] by (auto simp: g_def locs_of_def activate_row_def)
  have free: "target \<notin> locs_of m" if "m \<in> set (md_mappings s)" "mp_virtual_shard m \<noteq> tk_VirtualShard task" for m
    using p(4) that by (auto simp: target_assigned_def locs_of_def loc_of_def shadow_of_def split: option.splits)
  have disj: "locs_of (g m) \<inter> locs_of (g k) = {}"
    if m: "m \<in> set (md_mappings s)" "k \<in> set (md_mappings s)" "mp_virtual_shard m \<noteq> mp_virtual_shard k" for m k
  proof (cases "mp_virtual_shard k = tk_VirtualShard task")
    case False
    have "locs_of m \<inter> locs_of k = {}" using ok(1) m by (simp add: mappings_ok_def)
    with locs(1) [of m] locs(2) [OF False] free [OF m(2) False] show ?thesis by blast
  next
    case True
    with m(3) have ne: "mp_virtual_shard m \<noteq> tk_VirtualShard task" by simp
    have "locs_of m \<inter> locs_of k = {}" using ok(1) m by (simp add: mappings_ok_def)
    with locs(1) [of k] locs(2) [OF ne] free [OF m(1) ne] show ?thesis by blast
  qed
  have "mappings_ok s'" by (rule mappings_ok_map [OF ok(1) p6 vs wf disj])
  moreover have keep: "serves (g m) t" if "serves m t" "m \<in> set (md_mappings s)" for m t
  proof -
    from that(1) have "shadow_of m \<noteq> None" by (auto simp: serves_def)
    with that(2) ok(1) have "mp_write_mode m \<noteq> ''PRIMARY_ONLY''" by (auto simp: mappings_ok_def mapping_wf_def shadow_of_def)
    with that(1) show ?thesis by (simp add: g_def activate_row_def)
  qed
  from p(5) obtain k where k: "k \<in> set (md_mappings s)" "activate_row (tk_VirtualShard task) source k" by blast
  have other: "tk_VirtualShard t \<noteq> tk_VirtualShard task" if "(i, t) \<in> set (md_tasks s)" "tk_Status t \<noteq> TaskDone" for i t
  proof
    assume same: "tk_VirtualShard t = tk_VirtualShard task"
    from task_served [OF assms(1) that] obtain m where m: "m \<in> set (md_mappings s)" "serves m t" by blast
    with k same have "m = k" using same_shard_same [OF ok(1) m(1) k(1)] activate_locs [OF k(2)] by (simp add: serves_def)
    with m(2) k ok(1) show False by (auto simp: serves_def activate_row_def mappings_ok_def mapping_wf_def shadow_of_def)
  qed
  have "tasks_ok s'"
  proof -
    let ?t = "task\<lparr>tk_CursorOrderNumber := 0, tk_CopiedRows := 0, tk_ErrorMessage := [], tk_CreatedAt := ts\<rparr>"
    have new: "serves (g k) ?t" using k activate_locs [OF k(2), of target] p(1,2) by (simp add: serves_def g_def)
    have old: "\<exists>m \<in> set (md_mappings s'). serves m t" if "(i, t) \<in> set (md_tasks s)" "tk_Status t \<noteq> TaskDone" for i t
      using task_served [OF assms(1) that] keep unfolding p6 by auto
    show ?thesis
      using ok(2) new k(1) old other assms(3)
      unfolding tasks_ok_def task_saved_new [OF assms(2,3)] p6 by auto (use other in blast)
  qed
  ultimately show ?thesis by (simp add: control_ok_def)
qed

text \<open>The mapping that a task's completion cuts over.\<close>

lemma completed_row:
  assumes "control_ok s" and "task_completed task s s'" and "(i, t) \<in> set (md_tasks s)" and "same_plan t task" and "tk_Status t \<noteq> TaskDone"
  obtains m l where "m \<in> set (md_mappings s)" and "serves m t" and "shadow_of m = Some l"
    and "md_mappings s' = map (\<lambda>k. if k = m then cutover m else k) (md_mappings s)"
    and "loc_of (cutover m) = l" and "shadow_of (cutover m) = None" and "mp_virtual_shard (cutover m) = mp_virtual_shard m"
proof -
  from task_served [OF assms(1,3,5)] obtain m where m: "m \<in> set (md_mappings s)" "serves m t" by blast
  from assms(2) obtain target where p: "ParseShardLocation (tk_TargetShard task) = Inr target"
    "md_mappings s' = map (\<lambda>m. if cutover_row (tk_VirtualShard task) target m then cutover m else m) (md_mappings s)" unfolding task_completed_def by blast
  from m(2) p(1) assms(4) have l: "shadow_of m = Some target" "mp_virtual_shard m = tk_VirtualShard task" by (auto simp: serves_def same_plan_def)
  have wf: "mapping_wf (od_tables (md_orders s)) m" using assms(1) m(1) by (simp add: control_ok_def mappings_ok_def)
  have "cutover_row (tk_VirtualShard task) target k \<longleftrightarrow> k = m" if "k \<in> set (md_mappings s)" for k
    using that m(1) l wf same_shard_same [of s k m] assms(1)
    by (auto simp: cutover_row_def control_ok_def mapping_wf_def shadow_of_def split: option.splits)
  then have "md_mappings s' = map (\<lambda>k. if k = m then cutover m else k) (md_mappings s)" unfolding p(2) by auto
  with m l that show thesis by (auto simp: cutover_def loc_of_def shadow_of_def split: option.splits)
qed

lemma control_ok_completed:
  assumes "control_ok s" and "task_completed task s s'" and "(i, t) \<in> set (md_tasks s)" and "same_plan t task" and "tk_Status t \<noteq> TaskDone"
  shows "control_ok s'"
proof -
  from completed_row [OF assms] obtain m l where m: "m \<in> set (md_mappings s)" "serves m t" "shadow_of m = Some l"
    and ms: "md_mappings s' = map (\<lambda>k. if k = m then cutover m else k) (md_mappings s)"
    and c: "loc_of (cutover m) = l" "shadow_of (cutover m) = None" "mp_virtual_shard (cutover m) = mp_virtual_shard m" by blast
  define g where "g k = (if k = m then cutover m else k)" for k
  have ok: "mappings_ok s" "tasks_ok s" using assms(1) by (auto simp: control_ok_def)
  have ms': "md_mappings s' = map g (md_mappings s)" using ms by (simp add: g_def)
  have vs: "mp_virtual_shard (g k) = mp_virtual_shard k" for k using c by (simp add: g_def)
  have tabs: "od_tables (md_orders s') = od_tables (md_orders s)"
    and ts: "md_tasks s' = map (\<lambda>(j, t). (j, if j = tk_ID task then t\<lparr>tk_Status := TaskDone, tk_ErrorMessage := []\<rparr> else t)) (md_tasks s)"
    using assms(2) unfolding task_completed_def by blast+
  have locs: "locs_of (g k) \<subseteq> locs_of k" for k using m(3) c by (auto simp: locs_of_def g_def)
  have wf: "mapping_wf (od_tables (md_orders s')) (g k)" if "k \<in> set (md_mappings s)" for k
    using that ok(1) c m(3) unfolding tabs by (auto simp: mappings_ok_def mapping_wf_def locs_of_def g_def cutover_def)
  have "mappings_ok s'"
  proof (rule mappings_ok_map [OF ok(1) ms' vs wf])
    fix a b assume "a \<in> set (md_mappings s)" "b \<in> set (md_mappings s)" "mp_virtual_shard a \<noteq> mp_virtual_shard b"
    with ok(1) locs [of a] locs [of b] show "locs_of (g a) \<inter> locs_of (g b) = {}" unfolding mappings_ok_def by blast
  qed
  moreover have id: "tk_ID task = i" using assms(3,4) ok(2) by (simp add: tasks_ok_def same_plan_def)
  have tk: "(j, o') \<in> set (md_tasks s) \<and> j \<noteq> i" if "(j, o') \<in> set (md_tasks s')" "tk_Status o' \<noteq> TaskDone" for j o'
    using that unfolding ts id by (auto split: if_splits)
  have "\<exists>k \<in> set (md_mappings s'). serves k o'" if "(j, o') \<in> set (md_tasks s')" "tk_Status o' \<noteq> TaskDone" for j o'
  proof -
    from tk [OF that] have o': "(j, o') \<in> set (md_tasks s)" "j \<noteq> i" by auto
    from task_served [OF assms(1) o'(1) that(2)] obtain k where k: "k \<in> set (md_mappings s)" "serves k o'" by blast
    have "k \<noteq> m" using one_task [OF assms(1) assms(3) o'(1) assms(5) that(2)] o'(2) m(2) k(2) by (auto simp: serves_def)
    with k show ?thesis unfolding ms' by (auto simp: g_def)
  qed
  moreover have "map fst (md_tasks s') = map fst (md_tasks s)" unfolding ts by (induction "md_tasks s") auto
  moreover have "tk_ID o' = j" if "(j, o') \<in> set (md_tasks s')" for j o'
    using that ok(2) unfolding ts tasks_ok_def by (auto split: if_splits)
  ultimately show ?thesis using ok(2) tk one_task [OF assms(1)] unfolding control_ok_def tasks_ok_def by metis
qed

end
