(* ===== verification/Migration_Safety.thy ===== *)
theory Migration_Safety
  imports Migration_Control
begin

text \<open>
  Migrations while orders are written. The world has the databases, any number of instances of the order service, each
  with its own mapping router, the clock and the locks of the migration workers. A step is one call: an order service saves or
  updates an order or refreshes its mappings, the migration service creates or resumes a task or its worker polls, or
  time passes. The statements of the migration service may be refused at any point; its database's clock may
  be up to five seconds behind. The statements of the order services work, and every database with tables
  is in their pools.
\<close>

declare split_paired_All [simp del] split_paired_Ex [simp del]

section \<open>The world\<close>

record mig_world = migrate_db +
  gw_routers :: "nat \<Rightarrow> MappingOrderRouter"
  gw_now :: time
  gw_locks :: MemoryLocker

definition with_faults :: "db_fault list \<Rightarrow> mig_world \<Rightarrow> mig_world" where
  "with_faults fs w = w\<lparr>md_orders := (md_orders w)\<lparr>od_faults := fs\<rparr>\<rparr>"

definition world_migrations :: "string list \<Rightarrow> time \<Rightarrow> mig_world MigrationService" where
  "world_migrations allowed ts = \<lparr>ms_repo = mysql_migrations ts, ms_allowedTargets = allowed, ms_now = gw_now\<rparr>"

definition world_worker :: "string \<Rightarrow> mig_world MigrationWorker" where
  "world_worker token = \<lparr>wk_repo = mysql_migrations 0,
     wk_locker = (\<lambda>k ttl w. liftG gw_locks (\<lambda>l w. w\<lparr>gw_locks := l\<rparr>) (MemoryLocker_Acquire (gw_now w) token k ttl) w,
                  \<lambda>h. liftG gw_locks (\<lambda>l w. w\<lparr>gw_locks := l\<rparr>) (memoryLock_Release h)),
     wk_now = gw_now\<rparr>"

definition world_repo :: "(string \<rightharpoonup> string option) option \<Rightarrow> nat \<Rightarrow> mig_world \<Rightarrow> ShardedOrderRepository" where
  "world_repo pool j w = \<lparr>sr_databases = pool, sr_router = mapping_shards (gw_now w) (gw_routers w j)\<rparr>"

definition on_orders :: "(order_dbs, 'a) go \<Rightarrow> (mig_world, 'a) go" where
  "on_orders = liftG md_orders (\<lambda>s w. w\<lparr>md_orders := s\<rparr>)"

definition replace_mappings :: "nat \<Rightarrow> ShardMapping list \<Rightarrow> (mig_world, unit) go" where
  "replace_mappings j ms w = liftG (\<lambda>w. gw_routers w j) (\<lambda>r w. w\<lparr>gw_routers := (gw_routers w)(j := r)\<rparr>) (ReplaceMappings (gw_now w) ms) w"

definition refresh_router :: "nat \<Rightarrow> (mig_world, unit) go" where
  "refresh_router j = Refresh (Client_ListShardMappings (Some (Server_ListShardMappings (world_migrations [] 0)))) (replace_mappings j)"

text \<open>
  What never changes of an order: \<open>core n\<close> are the columns of order \<open>n\<close> other than its status and the times of its
  transitions.
\<close>

definition row_core :: "order_row \<Rightarrow> order_row" where
  "row_core r = r\<lparr>row_status := [], row_paid_at := None, row_canceled_at := None, row_refunded_at := None\<rparr>"

definition proper_order :: "(time \<Rightarrow> time) \<Rightarrow> (int64 \<Rightarrow> order_row) \<Rightarrow> Order \<Rightarrow> bool" where
  "proper_order dt core item \<longleftrightarrow> 0 < ord_OrderNumber item \<and> ExtractUserGene (ord_OrderNumber item) = UserGene (ord_UserID item)
     \<and> row_core (order_values dt item) = core (ord_OrderNumber item)"

inductive mig_step :: "(time \<Rightarrow> time) \<Rightarrow> (int64 \<Rightarrow> order_row) \<Rightarrow> (string \<rightharpoonup> string option) option \<Rightarrow> mig_world \<Rightarrow> mig_world \<Rightarrow> bool"
  for dt core pool where
  save: "proper_order dt core item \<Longrightarrow> mig_step dt core pool w (snd (on_orders (Sharded_Save dt (world_repo pool j w) item) (with_faults [] w)))"
| update: "proper_order dt core item \<Longrightarrow> ord_Status item \<in> {StatusPaid, StatusCancel, StatusRefund} \<Longrightarrow>
    mig_step dt core pool w (snd (on_orders (Sharded_Update dt (world_repo pool j w) item) (with_faults [] w)))"
| refresh: "ReplyLost \<notin> set fs \<Longrightarrow> mig_step dt core pool w (snd (refresh_router j (with_faults fs w)))"
| create: "i \<notin> fst ` set (md_tasks w) \<Longrightarrow> gw_now w - 5 * 1000000000 < ts \<Longrightarrow> ReplyLost \<notin> set fs \<Longrightarrow>
    mig_step dt core pool w (snd (Server_CreateTask (world_migrations allowed ts) (returnG i) req (with_faults fs w)))"
| resume: "ReplyLost \<notin> set fs \<Longrightarrow> mig_step dt core pool w (snd (Server_ResumeTask (world_migrations allowed ts) i (with_faults fs w)))"
| poll: "ReplyLost \<notin> set fs \<Longrightarrow> mig_step dt core pool w (snd (Poll_migration (world_worker token) (with_faults fs w)))"
| tick: "gw_now w \<le> t \<Longrightarrow> mig_step dt core pool w (w\<lparr>gw_now := t\<rparr>)"

section \<open>The invariant\<close>

definition shard_of :: "GeneOrderRouter \<Rightarrow> int64 \<Rightarrow> int" where
  "shard_of F n = fst (routeVirtualShard (NewMappingOrderRouter F) n 0)"

definition cellw :: "string \<times> string \<Rightarrow> int64 \<Rightarrow> mig_world \<Rightarrow> order_row option" where
  "cellw l n w = cell l n (md_orders w)"

text \<open>The row of an order where the mappings send its reads.\<close>

definition primary_row :: "GeneOrderRouter \<Rightarrow> int64 \<Rightarrow> mig_world \<Rightarrow> order_row option" where
  "primary_row F n w = (case find (\<lambda>m. mp_virtual_shard m = shard_of F n) (md_mappings w) of
     None \<Rightarrow> None | Some m \<Rightarrow> cellw (loc_of m) n w)"

definition active :: "mig_world \<Rightarrow> MigrationTask \<Rightarrow> bool" where
  "active w t \<longleftrightarrow> t \<in> snd ` set (md_tasks w) \<and> tk_Status t \<noteq> TaskDone"

definition fresh :: "mig_world \<Rightarrow> nat \<Rightarrow> bool" where
  "fresh w j \<longleftrightarrow> MappingFresh (gw_now w) DefaultMappingMaxStaleness (gw_routers w j)"

definition rows_ok :: "(int64 \<Rightarrow> order_row) \<Rightarrow> mig_world \<Rightarrow> bool" where
  "rows_ok core w \<longleftrightarrow> (\<forall>l t. od_tables (md_orders w) l = Some t \<longrightarrow> distinct (map fst t))
     \<and> (\<forall>l n r. cellw l n w = Some r \<longrightarrow> 0 < n \<and> row_core r = core n)"

text \<open>Every row of an order has a row at the primary location of the order's shard.\<close>

definition primary_holds :: "GeneOrderRouter \<Rightarrow> mig_world \<Rightarrow> bool" where
  "primary_holds F w \<longleftrightarrow> (\<forall>m \<in> set (md_mappings w). \<forall>n l. shard_of F n = mp_virtual_shard m \<longrightarrow> cellw l n w \<noteq> None \<longrightarrow> cellw (loc_of m) n w \<noteq> None)"

text \<open>What a task has copied is equal at source and target, and it began after the delay.\<close>

definition copied_ok :: "GeneOrderRouter \<Rightarrow> mig_world \<Rightarrow> bool" where
  "copied_ok F w \<longleftrightarrow> (\<forall>t. active w t \<longrightarrow> (\<forall>m \<in> set (md_mappings w). \<forall>l n. serves m t \<longrightarrow> shadow_of m = Some l \<longrightarrow>
       0 < n \<longrightarrow> n \<le> tk_CursorOrderNumber t \<longrightarrow> shard_of F n = mp_virtual_shard m \<longrightarrow> cellw l n w = cellw (loc_of m) n w)
     \<and> (0 < tk_CursorOrderNumber t \<longrightarrow> tk_CreatedAt t + DualWritePropagationDelay \<le> gw_now w))"

text \<open>
  What a router that may be used knows: it writes to the primary location of every shard, and for a shard that is
  being migrated it knows the present mapping, or it was refreshed before the task could be seen.
\<close>

definition knows :: "mig_world \<Rightarrow> nat \<Rightarrow> mapping_row \<Rightarrow> bool" where
  "knows w j m \<longleftrightarrow> (\<exists>e. mo_mappings (gw_routers w j) (mp_virtual_shard m) = Some e
     \<and> (\<forall>l \<in> set (entry_writes e). named l \<and> od_tables (md_orders w) l \<noteq> None) \<and> loc_of m \<in> set (entry_writes e)
     \<and> (\<forall>t. active w t \<longrightarrow> serves m t \<longrightarrow>
          Some (entry_writes e) = map_option (\<lambda>l. [loc_of m, l]) (shadow_of m) \<or> mo_refreshedAt (gw_routers w j) < tk_CreatedAt t + 5 * 1000000000))"

definition routers_ok :: "GeneOrderRouter \<Rightarrow> mig_world \<Rightarrow> bool" where
  "routers_ok F w \<longleftrightarrow> (\<forall>j. mo_fallback (gw_routers w j) = F \<and> mo_refreshedAt (gw_routers w j) \<le> gw_now w
     \<and> (fresh w j \<longrightarrow> (\<forall>m \<in> set (md_mappings w). knows w j m)))"

definition mapped :: "GeneOrderRouter \<Rightarrow> mig_world \<Rightarrow> bool" where
  "mapped F w \<longleftrightarrow> (\<forall>n. \<exists>m \<in> set (md_mappings w). mp_virtual_shard m = shard_of F n)"

definition pooled :: "(string \<rightharpoonup> string option) option \<Rightarrow> mig_world \<Rightarrow> bool" where
  "pooled pool w \<longleftrightarrow> (\<forall>d t. od_tables (md_orders w) (d, t) \<noteq> None \<longrightarrow> Resolve pool d = Inr d)"

definition mig_inv :: "GeneOrderRouter \<Rightarrow> (int64 \<Rightarrow> order_row) \<Rightarrow> (string \<rightharpoonup> string option) option \<Rightarrow> mig_world \<Rightarrow> bool" where
  "mig_inv F core pool w \<longleftrightarrow> control_ok w \<and> rows_ok core w \<and> primary_holds F w \<and> copied_ok F w \<and> routers_ok F w \<and> mapped F w \<and> pooled pool w"

section \<open>Steps that keep the rows\<close>

definition rows_go_on :: "GeneOrderRouter \<Rightarrow> mig_world \<Rightarrow> mig_world \<Rightarrow> bool" where
  "rows_go_on F w w' \<longleftrightarrow> (\<forall>n r. primary_row F n w = Some r \<longrightarrow> (\<exists>r'. primary_row F n w' = Some r' \<and> row_evolves r r'))"

definition good_step :: "GeneOrderRouter \<Rightarrow> (int64 \<Rightarrow> order_row) \<Rightarrow> (string \<rightharpoonup> string option) option \<Rightarrow> mig_world \<Rightarrow> mig_world \<Rightarrow> bool" where
  "good_step F core pool w w' \<longleftrightarrow> (mig_inv F core pool w \<longrightarrow> mig_inv F core pool w' \<and> rows_go_on F w w')"

interpretation good: state_preorder "good_step F core pool" for F core pool
proof
  show "good_step F core pool s s" for s by (auto simp: good_step_def rows_go_on_def)
  show "good_step F core pool s t \<Longrightarrow> good_step F core pool t u \<Longrightarrow> good_step F core pool s u" for s t u
    unfolding good_step_def rows_go_on_def by (meson row_evolves_trans)
qed

definition same_world :: "mig_world \<Rightarrow> mig_world \<Rightarrow> bool" where
  "same_world w w' \<longleftrightarrow> md_tasks w' = md_tasks w \<and> md_mappings w' = md_mappings w \<and> od_tables (md_orders w') = od_tables (md_orders w)
     \<and> gw_routers w' = gw_routers w \<and> gw_now w' = gw_now w"

lemma same_more: "migrate_db.more w' = migrate_db.more w \<Longrightarrow> gw_routers w' = gw_routers w \<and> gw_now w' = gw_now w \<and> gw_locks w' = gw_locks w"
  for w w' :: mig_world
  by (cases w; cases w') simp

lemma same_data_world: "same_data w w' \<Longrightarrow> same_world w w'" for w w' :: mig_world
  using same_more [of w' w] by (simp add: same_data_def same_world_def)

lemma same_world_good: "same_world w w' \<Longrightarrow> good_step F core pool w w'"
proof -
  assume s: "same_world w w'"
  then have c: "cellw l n w' = cellw l n w" for l n by (simp add: same_world_def cellw_def cell_def)
  have a: "active w' = active w" "fresh w' = fresh w" using s by (auto simp: fun_eq_iff active_def fresh_def same_world_def)
  then have k: "knows w' = knows w" using s by (intro ext) (simp add: knows_def same_world_def)
  have "mig_inv F core pool w' = mig_inv F core pool w"
    using s c a k by (simp add: mig_inv_def control_ok_def mappings_ok_def tasks_ok_def rows_ok_def primary_holds_def copied_ok_def
        routers_ok_def mapped_def pooled_def same_world_def)
  moreover have "primary_row F n w' = primary_row F n w" for n using s c by (simp add: primary_row_def same_world_def split: option.splits)
  ultimately show ?thesis by (simp add: good_step_def rows_go_on_def)
qed

lemma primary_row_at:
  assumes "mappings_ok w" and "m \<in> set (md_mappings w)" and "mp_virtual_shard m = shard_of F n"
  shows "primary_row F n w = cellw (loc_of m) n w"
proof (cases "find (\<lambda>m. mp_virtual_shard m = shard_of F n) (md_mappings w)")
  case None
  with assms show ?thesis by (auto simp: find_None_iff)
next
  case (Some k)
  then have "k \<in> set (md_mappings w)" "mp_virtual_shard k = shard_of F n" by (auto simp: find_Some_iff)
  with assms same_shard_same [of w k m] Some show ?thesis by (simp add: primary_row_def)
qed

lemma primary_row_some: "primary_row F n w = Some r \<Longrightarrow> \<exists>m \<in> set (md_mappings w). mp_virtual_shard m = shard_of F n \<and> cellw (loc_of m) n w = Some r"
  by (auto simp: primary_row_def find_Some_iff split: option.splits)

text \<open>A step that changes neither mappings nor rows at primary locations, except that they evolve.\<close>

lemma rows_go_on_same_mappings:
  assumes "mappings_ok w" and "mappings_ok w'" and "md_mappings w' = md_mappings w"
    and "\<And>m n r. m \<in> set (md_mappings w) \<Longrightarrow> mp_virtual_shard m = shard_of F n \<Longrightarrow> cellw (loc_of m) n w = Some r \<Longrightarrow> \<exists>r'. cellw (loc_of m) n w' = Some r' \<and> row_evolves r r'"
  shows "rows_go_on F w w'"
  unfolding rows_go_on_def
proof (intro allI impI)
  fix n r assume "primary_row F n w = Some r"
  then obtain m where m: "m \<in> set (md_mappings w)" "mp_virtual_shard m = shard_of F n" "cellw (loc_of m) n w = Some r" using primary_row_some by blast
  with assms(4) primary_row_at [OF assms(2), of m F n] assms(3) show "\<exists>r'. primary_row F n w' = Some r' \<and> row_evolves r r'" by auto
qed

subsection \<open>Time passes\<close>

lemma fresh_later: "gw_now w \<le> t \<Longrightarrow> fresh (w\<lparr>gw_now := t\<rparr>) j \<Longrightarrow> fresh w j"
  by (auto simp: fresh_def MappingFresh_def)

lemma tick_good: "gw_now w \<le> t \<Longrightarrow> good_step F core pool w (w\<lparr>gw_now := t\<rparr>)"
proof -
  assume t: "gw_now w \<le> t"
  let ?w = "w\<lparr>gw_now := t\<rparr>"
  have c: "cellw l n ?w = cellw l n w" for l n by (simp add: cellw_def)
  have a: "active ?w = active w" by (simp add: fun_eq_iff active_def)
  then have k: "knows ?w = knows w" by (intro ext) (simp add: knows_def)
  show ?thesis unfolding good_step_def
  proof
    assume i: "mig_inv F core pool w"
    have "control_ok ?w" "rows_ok core ?w" "primary_holds F ?w" "mapped F ?w" "pooled pool ?w"
      using i by (simp_all add: mig_inv_def control_ok_def mappings_ok_def tasks_ok_def rows_ok_def primary_holds_def mapped_def pooled_def c)
    moreover have "copied_ok F ?w" using i t by (auto simp: mig_inv_def copied_ok_def a c intro: order_trans)
    moreover have "routers_ok F ?w" using i t fresh_later [OF t] by (auto simp: mig_inv_def routers_ok_def k intro: order_trans)
    ultimately have "mig_inv F core pool ?w" by (simp add: mig_inv_def)
    moreover have "primary_row F n ?w = primary_row F n w" for n by (simp add: primary_row_def c split: option.splits)
    ultimately show "mig_inv F core pool ?w \<and> rows_go_on F w ?w" by (simp add: rows_go_on_def)
  qed
qed

subsection \<open>Changes of the status of tasks\<close>

lemma serves_plan: "same_plan t t' \<Longrightarrow> serves m t' \<longleftrightarrow> serves m t"
  by (simp add: serves_def same_plan_def)

lemma knows_step:
  assumes "knows w j m" and "gw_routers w' = gw_routers w" and "\<And>l. od_tables (md_orders w') l = None \<longleftrightarrow> od_tables (md_orders w) l = None"
    and "\<And>t'. active w' t' \<Longrightarrow> \<exists>t. active w t \<and> same_plan t t'"
  shows "knows w' j m"
proof -
  from assms(1) obtain e where e: "mo_mappings (gw_routers w j) (mp_virtual_shard m) = Some e"
    "\<forall>l \<in> set (entry_writes e). named l \<and> od_tables (md_orders w) l \<noteq> None" "loc_of m \<in> set (entry_writes e)"
    "\<And>t. active w t \<Longrightarrow> serves m t \<Longrightarrow> Some (entry_writes e) = map_option (\<lambda>l. [loc_of m, l]) (shadow_of m) \<or> mo_refreshedAt (gw_routers w j) < tk_CreatedAt t + 5 * 1000000000"
    unfolding knows_def by blast
  have "Some (entry_writes e) = map_option (\<lambda>l. [loc_of m, l]) (shadow_of m) \<or> mo_refreshedAt (gw_routers w j) < tk_CreatedAt t' + 5 * 1000000000"
    if "active w' t'" "serves m t'" for t'
  proof -
    from assms(4) [OF that(1)] obtain t where t: "active w t" "same_plan t t'" by blast
    with e(4) [OF t(1)] that(2) serves_plan [OF t(2)] show ?thesis by (simp add: same_plan_def)
  qed
  with e(1-3) show ?thesis unfolding knows_def assms(2,3) by blast
qed

lemma plan_good:
  assumes g: "md_tasks w' = map (\<lambda>(j, t). (j, g j t)) (md_tasks w)"
    and plan: "\<And>j t. (j, t) \<in> set (md_tasks w) \<Longrightarrow> same_plan t (g j t) \<and> tk_CursorOrderNumber (g j t) = tk_CursorOrderNumber t"
    and same: "md_mappings w' = md_mappings w" "od_tables (md_orders w') = od_tables (md_orders w)" "gw_routers w' = gw_routers w" "gw_now w' = gw_now w"
  shows "good_step F core pool w w'"
  unfolding good_step_def
proof
  assume i: "mig_inv F core pool w"
  have c: "cellw l n w' = cellw l n w" for l n by (simp add: cellw_def cell_def same(2))
  have act: "\<exists>t. active w t \<and> same_plan t t' \<and> tk_CursorOrderNumber t' = tk_CursorOrderNumber t" if "active w' t'" for t'
  proof -
    from that obtain j t where t: "(j, t) \<in> set (md_tasks w)" "t' = g j t" "tk_Status t' \<noteq> TaskDone" by (auto simp: active_def g)
    with plan [OF t(1)] show ?thesis by (force simp: active_def same_plan_def)
  qed
  have "control_ok w'"
    by (rule control_ok_plan [of w w' g]) (use i plan same g in \<open>auto simp: mig_inv_def\<close>)
  moreover have "rows_ok core w'" "primary_holds F w'" "mapped F w'" "pooled pool w'"
    using i by (simp_all add: mig_inv_def rows_ok_def primary_holds_def mapped_def pooled_def c same)
  moreover have "copied_ok F w'" unfolding copied_ok_def
  proof (intro allI impI)
    fix t' assume "active w' t'"
    from act [OF this] obtain t where t: "active w t" "same_plan t t'" "tk_CursorOrderNumber t' = tk_CursorOrderNumber t" by blast
    from i t(1) have "(\<forall>m \<in> set (md_mappings w). \<forall>l n. serves m t \<longrightarrow> shadow_of m = Some l \<longrightarrow>
       0 < n \<longrightarrow> n \<le> tk_CursorOrderNumber t \<longrightarrow> shard_of F n = mp_virtual_shard m \<longrightarrow> cellw l n w = cellw (loc_of m) n w)
     \<and> (0 < tk_CursorOrderNumber t \<longrightarrow> tk_CreatedAt t + DualWritePropagationDelay \<le> gw_now w)" by (simp add: mig_inv_def copied_ok_def)
    moreover have "tk_CreatedAt t' = tk_CreatedAt t" using t(2) by (simp add: same_plan_def)
    ultimately show "(\<forall>m \<in> set (md_mappings w'). \<forall>l n. serves m t' \<longrightarrow> shadow_of m = Some l \<longrightarrow>
       0 < n \<longrightarrow> n \<le> tk_CursorOrderNumber t' \<longrightarrow> shard_of F n = mp_virtual_shard m \<longrightarrow> cellw l n w' = cellw (loc_of m) n w')
     \<and> (0 < tk_CursorOrderNumber t' \<longrightarrow> tk_CreatedAt t' + DualWritePropagationDelay \<le> gw_now w')"
      unfolding c same t(3) serves_plan [OF t(2)] by simp
  qed
  moreover have "knows w' j m" if "knows w j m" for j m
    by (rule knows_step [OF that same(3)]) (use same act in auto)
  then have "routers_ok F w'" using i unfolding mig_inv_def routers_ok_def same fresh_def by blast
  moreover have "primary_row F n w' = primary_row F n w" for n by (simp add: primary_row_def same(1) c split: option.splits)
  ultimately show "mig_inv F core pool w' \<and> rows_go_on F w w'" by (simp add: mig_inv_def rows_go_on_def)
qed

subsection \<open>Writing an order\<close>

text \<open>The rows of order \<open>n\<close> become \<open>f\<close>; all other rows and everything else stay.\<close>

lemma write_good:
  assumes after: "cells_after f n (md_orders w) (md_orders w')" and n: "0 < n"
    and same: "md_tasks w' = md_tasks w" "md_mappings w' = md_mappings w" "gw_routers w' = gw_routers w" "gw_now w' = gw_now w"
    and core: "\<And>k r. mig_inv F core pool w \<Longrightarrow> f k = Some r \<Longrightarrow> row_core r = core n"
    and held: "\<And>m k. mig_inv F core pool w \<Longrightarrow> m \<in> set (md_mappings w) \<Longrightarrow> mp_virtual_shard m = shard_of F n \<Longrightarrow> f k \<noteq> None \<Longrightarrow> f (loc_of m) \<noteq> None"
    and copied: "\<And>m t l. mig_inv F core pool w \<Longrightarrow> m \<in> set (md_mappings w) \<Longrightarrow> mp_virtual_shard m = shard_of F n \<Longrightarrow> active w t \<Longrightarrow> serves m t \<Longrightarrow> shadow_of m = Some l
        \<Longrightarrow> n \<le> tk_CursorOrderNumber t \<Longrightarrow> f l = f (loc_of m)"
    and evolves: "rows_evolve (md_orders w) (md_orders w')"
  shows "good_step F core pool w w'"
  unfolding good_step_def
proof
  assume i: "mig_inv F core pool w"
  have c: "cellw k j w' = (if j = n then f k else cellw k j w)" for k j using after by (simp add: cells_after_def cellw_def)
  have dom: "od_tables (md_orders w') k = None \<longleftrightarrow> od_tables (md_orders w) k = None" for k using after by (simp add: cells_after_def)
  have a: "active w' = active w" "fresh w' = fresh w" using same by (auto simp: fun_eq_iff active_def fresh_def)
  then have k: "knows w' = knows w" using same dom by (intro ext) (simp add: knows_def)
  have "control_ok w'" by (rule control_ok_plan [of w w' "\<lambda>_ t. t"]) (use i dom same in \<open>auto simp: mig_inv_def same_plan_def\<close>)
  moreover have "rows_ok core w'"
    using i core [OF i] n after by (auto simp: mig_inv_def rows_ok_def c cells_after_def dbs_ok_def split: if_splits)
  moreover have "primary_holds F w'" using i held [OF i] by (auto simp: mig_inv_def primary_holds_def c same split: if_splits) metis+
  moreover have "copied_ok F w'" using i copied [OF i] by (auto simp: mig_inv_def copied_ok_def c same a)
  moreover have "routers_ok F w'" "mapped F w'" "pooled pool w'" using i by (simp_all add: mig_inv_def routers_ok_def mapped_def pooled_def same k a dom)
  ultimately have inv: "mig_inv F core pool w'" by (simp add: mig_inv_def)
  have "\<exists>r'. cellw (loc_of m) j w' = Some r' \<and> row_evolves r r'" if "cellw (loc_of m) j w = Some r" for m j r
    using evolves that by (simp add: rows_rel_def cellw_def)
  with i inv have "rows_go_on F w w'" by (intro rows_go_on_same_mappings) (auto simp: mig_inv_def control_ok_def same)
  with inv show "mig_inv F core pool w' \<and> rows_go_on F w w'" by simp
qed

end
