(* ===== verification/Migration_Steps.thy ===== *)
theory Migration_Steps
  imports Migration_Safety
begin

text \<open>
  The steps of the order services and of the copying worker keep the invariant: an order service with fresh mappings writes
  to the primary location of the order's shard and, once a task has begun to copy, to its target too; a
  batch makes the target's rows equal to the source's; the cut-over finds them equal for every order of the shard.
\<close>

declare split_paired_All [simp del] split_paired_Ex [simp del]

section \<open>Writing an order\<close>

lemma route_shard:
  assumes "mo_fallback r = F" and "ExtractUserGene n = UserGene u"
  shows "fst (routeVirtualShard r n u) = shard_of F n"
proof -
  have "effective_gene n u = effective_gene n 0" using assms(2) by (simp add: effective_gene_def UserGene_def)
  then have "Gene_RouteOrder F n u = Gene_RouteOrder F n 0" by (simp add: Gene_RouteOrder_eq)
  with assms(1) show ?thesis by (simp add: routeVirtualShard_def shard_of_def NewMappingOrderRouter_def tableCount_def Let_def)
qed

text \<open>A router that is fresh after the delay was refreshed when the task's mapping could be seen.\<close>

lemma delay_over: "fresh w j \<Longrightarrow> tk_CreatedAt t + DualWritePropagationDelay \<le> gw_now w \<Longrightarrow> \<not> mo_refreshedAt (gw_routers w j) < tk_CreatedAt t + 5 * 1000000000"
  by (simp add: fresh_def MappingFresh_def DualWritePropagationDelay_def)

text \<open>What an instance with fresh mappings writes to.\<close>

definition writes_to :: "(string \<rightharpoonup> string option) option \<Rightarrow> mig_world \<Rightarrow> nat \<Rightarrow> Order \<Rightarrow> GeneOrderRouter \<Rightarrow> mapping_row \<Rightarrow> (string \<times> string) list \<Rightarrow> bool" where
  "writes_to pool w j item F m ps \<longleftrightarrow> m \<in> set (md_mappings w) \<and> mp_virtual_shard m = shard_of F (ord_OrderNumber item) \<and> loc_of m \<in> set ps
     \<and> (\<forall>t l. active w t \<longrightarrow> serves m t \<longrightarrow> shadow_of m = Some l \<longrightarrow> 0 < tk_CursorOrderNumber t \<longrightarrow> ps = [loc_of m, l])
     \<and> (let R = world_repo pool j w; ls = writeLocations R (ord_OrderNumber item) (ord_UserID item) in
        (\<forall>l \<in> set ls. reaches R (md_orders w) l)
        \<and> ((\<exists>a. ls = [a] \<and> set ps = {pairL a}) \<or> (\<exists>a b. ls = [a, b] \<and> ps = [pairL a, pairL b] \<and> pairL a \<noteq> pairL b)))"

lemma fresh_writes:
  assumes i: "mig_inv F core pool w" and "fresh w j" and "proper_order dt core item"
  shows "\<exists>m ps. writes_to pool w j item F m ps"
proof -
  let ?n = "ord_OrderNumber item" and ?u = "ord_UserID item" and ?r = "gw_routers w j" and ?R = "world_repo pool j w"
  from i obtain m where m: "m \<in> set (md_mappings w)" "mp_virtual_shard m = shard_of F ?n" by (auto simp: mig_inv_def mapped_def)
  from i assms(2) m(1) have "knows w j m" by (auto simp: mig_inv_def routers_ok_def)
  then obtain e where e: "mo_mappings ?r (mp_virtual_shard m) = Some e" "\<forall>l \<in> set (entry_writes e). named l \<and> od_tables (md_orders w) l \<noteq> None"
    "loc_of m \<in> set (entry_writes e)"
    "\<And>t. active w t \<Longrightarrow> serves m t \<Longrightarrow> Some (entry_writes e) = map_option (\<lambda>l. [loc_of m, l]) (shadow_of m) \<or> mo_refreshedAt ?r < tk_CreatedAt t + 5 * 1000000000"
    unfolding knows_def by blast
  have dual: "entry_writes e = [loc_of m, l]" if t: "active w t" "serves m t" "shadow_of m = Some l" "0 < tk_CursorOrderNumber t" for t l
  proof -
    from i t have "tk_CreatedAt t + DualWritePropagationDelay \<le> gw_now w" by (auto simp: mig_inv_def copied_ok_def)
    from delay_over [OF assms(2) this] e(4) [OF t(1,2)] t(3) show ?thesis by simp
  qed
  have "mo_fallback ?r = F" using i by (simp add: mig_inv_def routers_ok_def)
  then have "fst (routeVirtualShard ?r ?n ?u) = mp_virtual_shard m" using route_shard assms(3) m(2) by (simp add: proper_order_def)
  with e(1,2) have forms: "(\<exists>a. writeLocations ?R ?n ?u = [a] \<and> set (entry_writes e) = {pairL a})
    \<or> (\<exists>a b. writeLocations ?R ?n ?u = [a, b] \<and> entry_writes e = [pairL a, pairL b] \<and> pairL a \<noteq> pairL b)"
    by (intro write_locations_entry [of _ "gw_now w" ?r]) (auto simp: world_repo_def)
  have "reaches ?R (md_orders w) l" if "l \<in> set (writeLocations ?R ?n ?u)" for l
  proof -
    from forms have "pairL l \<in> set (entry_writes e)" using that by (elim disjE exE conjE) (simp, force)
    with e(2) have "named (pairL l)" "od_tables (md_orders w) (pairL l) \<noteq> None" by auto
    moreover from this(2) i have "Resolve pool (loc_Database l) = Inr (loc_Database l)" unfolding mig_inv_def pooled_def pairL_def by blast
    ultimately show ?thesis by (auto simp: reaches_def resolve_def world_repo_def named_def pairL_def)
  qed
  with m e(3) dual forms have "writes_to pool w j item F m (entry_writes e)" by (simp add: writes_to_def Let_def)
  then show ?thesis by blast
qed

lemma inv_dbs_ok: "mig_inv F core pool w \<Longrightarrow> od_faults (md_orders w) = [] \<Longrightarrow> dbs_ok (md_orders w)"
  by (simp add: mig_inv_def rows_ok_def dbs_ok_def)

lemma ins_cell_core: "row_core (order_values dt item) = c \<Longrightarrow> (\<And>r. k = Some r \<Longrightarrow> row_core r = c) \<Longrightarrow> ins_cell dt item k = Some r \<Longrightarrow> row_core r = c"
  by (auto simp: ins_cell_def split: option.splits)

text \<open>What is known of the rows of an order that an instance writes.\<close>

lemma writes_facts:
  assumes i: "mig_inv F core pool w" and p: "proper_order dt core item" and k: "writes_to pool w j item F m ps"
  shows "\<And>c r. cell c (ord_OrderNumber item) (md_orders w) = Some r \<Longrightarrow> row_core r = core (ord_OrderNumber item)"
    and "\<And>m'. m' \<in> set (md_mappings w) \<Longrightarrow> mp_virtual_shard m' = shard_of F (ord_OrderNumber item) \<Longrightarrow> m' = m"
    and "\<And>c. cell c (ord_OrderNumber item) (md_orders w) \<noteq> None \<Longrightarrow> cell (loc_of m) (ord_OrderNumber item) (md_orders w) \<noteq> None"
    and "\<And>t l. active w t \<Longrightarrow> serves m t \<Longrightarrow> shadow_of m = Some l \<Longrightarrow> ord_OrderNumber item \<le> tk_CursorOrderNumber t \<Longrightarrow>
      ps = [loc_of m, l] \<and> cell l (ord_OrderNumber item) (md_orders w) = cell (loc_of m) (ord_OrderNumber item) (md_orders w)"
proof -
  let ?n = "ord_OrderNumber item"
  from k have m: "m \<in> set (md_mappings w)" "mp_virtual_shard m = shard_of F ?n"
    and dual: "\<And>t l. active w t \<Longrightarrow> serves m t \<Longrightarrow> shadow_of m = Some l \<Longrightarrow> 0 < tk_CursorOrderNumber t \<Longrightarrow> ps = [loc_of m, l]"
    by (simp_all add: writes_to_def)
  have n: "0 < ?n" using p by (simp add: proper_order_def)
  show "row_core r = core ?n" if "cell c ?n (md_orders w) = Some r" for c r using i that by (auto simp: mig_inv_def rows_ok_def cellw_def)
  show "m' = m" if "m' \<in> set (md_mappings w)" "mp_virtual_shard m' = shard_of F ?n" for m'
    using i same_shard_same [of w m' m] that m by (simp add: mig_inv_def control_ok_def)
  show "cell (loc_of m) ?n (md_orders w) \<noteq> None" if "cell c ?n (md_orders w) \<noteq> None" for c
    using i that m unfolding mig_inv_def primary_holds_def cellw_def by metis
  show "ps = [loc_of m, l] \<and> cell l ?n (md_orders w) = cell (loc_of m) ?n (md_orders w)"
    if "active w t" "serves m t" "shadow_of m = Some l" "?n \<le> tk_CursorOrderNumber t" for t l
    using i that n m dual [OF that(1-3)] by (auto simp: mig_inv_def copied_ok_def cellw_def)
qed

lemma stale_write:
  "\<not> fresh w j \<Longrightarrow> snd (on_orders (bindG (ensureFreshMapping (world_repo pool j w)) f) w) = w"
  by (simp add: ensureFreshMapping_def world_repo_def mapping_shards_def fresh_def on_orders_def liftG_def bindG_def go_simps)

lemma fresh_write:
  "fresh w j \<Longrightarrow> snd (on_orders (bindG (ensureFreshMapping (world_repo pool j w)) f) w) = w\<lparr>md_orders := snd (f () (md_orders w))\<rparr>"
  by (simp add: ensureFreshMapping_def world_repo_def mapping_shards_def fresh_def on_orders_def liftG_def bindG_def go_simps split: prod.splits)

lemma save_known_good:
  assumes i: "mig_inv F core pool w" and p: "proper_order dt core item" and ff: "od_faults (md_orders w) = []" and k: "writes_to pool w j item F m ps"
  defines "R \<equiv> world_repo pool j w" and "ls \<equiv> writeLocations (world_repo pool j w) (ord_OrderNumber item) (ord_UserID item)"
  shows "good_step F core pool w (w\<lparr>md_orders := snd (save_all dt R ls item (md_orders w))\<rparr>)"
proof -
  let ?n = "ord_OrderNumber item" and ?s = "md_orders w"
  let ?f = "\<lambda>k. if k \<in> pairL ` set ls then ins_cell dt item (cell k ?n ?s) else cell k ?n ?s"
  note facts = writes_facts [OF i p k]
  from k have m: "loc_of m \<in> set ps" and reach: "\<forall>l \<in> set ls. reaches R ?s l" and writes: "pairL ` set ls = set ps"
    by (auto simp: writes_to_def Let_def R_def ls_def)
  have n: "0 < ?n" "row_core (order_values dt item) = core ?n" using p by (auto simp: proper_order_def)
  show ?thesis
  proof (rule write_good [of ?f ?n])
    show "cells_after ?f ?n (md_orders w) (md_orders (w\<lparr>md_orders := snd (save_all dt R ls item ?s)\<rparr>))"
      using save_all_cells [OF inv_dbs_ok [OF i ff] reach] by simp
    show "rows_evolve (md_orders w) (md_orders (w\<lparr>md_orders := snd (save_all dt R ls item ?s)\<rparr>))"
      using all_locations_evolve(1) [of dt R ls item] by (simp add: keepsG_def)
    show "row_core r = core ?n" if "?f k = Some r" for k r
      using that facts(1) ins_cell_core [OF n(2), of "cell k ?n ?s" r] by (auto split: if_splits)
    show "?f (loc_of m') \<noteq> None" if "m' \<in> set (md_mappings w)" "mp_virtual_shard m' = shard_of F ?n" for m'
      using facts(2) [OF that] m writes by (simp add: ins_cell_def split: option.splits)
    show "?f l = ?f (loc_of m')" if "m' \<in> set (md_mappings w)" "mp_virtual_shard m' = shard_of F ?n" "active w t" "serves m' t" "shadow_of m' = Some l"
      "?n \<le> tk_CursorOrderNumber t" for m' t l
      using facts(4) [of t l] facts(2) [OF that(1,2)] that writes by simp
  qed (use n in simp_all)
qed

lemma save_good:
  assumes "proper_order dt core item" and "od_faults (md_orders w) = []"
  shows "good_step F core pool w (snd (on_orders (Sharded_Save dt (world_repo pool j w) item) w))"
proof (cases "mig_inv F core pool w \<and> fresh w j")
  case False
  then show ?thesis unfolding Sharded_Save_def
    by (cases "fresh w j") (simp_all add: good_step_def stale_write rows_go_on_def)
next
  case True
  with fresh_writes [of F core pool w j dt item] assms(1) obtain m ps where "writes_to pool w j item F m ps" by blast
  with True save_known_good [of F core pool w dt item j m ps] assms show ?thesis unfolding Sharded_Save_def by (simp add: fresh_write)
qed

lemma put_cell_core: "row_core (order_values dt item) = c \<Longrightarrow> (\<And>r. k = Some r \<Longrightarrow> row_core r = c) \<Longrightarrow> snd (put_cell dt previous item k) = Some r \<Longrightarrow> row_core r = c"
  by (auto simp: put_cell_def upd_cell_def ins_cell_def row_core_def set_transition_def split: option.splits if_splits)

lemma put_cell_some: "snd (put_cell dt previous item k) \<noteq> None"
  by (auto simp: put_cell_def upd_cell_def ins_cell_def split: option.splits)

lemma put_cell_none: "fst (put_cell dt previous item None)"
  by (simp add: put_cell_def upd_cell_def ins_cell_def order_values_def)

lemma put_cell_refused: "\<not> fst (put_cell dt previous item c) \<Longrightarrow> snd (put_cell dt previous item c) = c"
  by (auto simp: put_cell_def upd_cell_def ins_cell_def order_values_def split: option.splits if_splits)

lemma update_known_good:
  assumes i: "mig_inv F core pool w" and p: "proper_order dt core item" and ff: "od_faults (md_orders w) = []" and k: "writes_to pool w j item F m ps"
    and prev: "allowedPreviousStatus (ord_Status item) = Inr previous"
  defines "R \<equiv> world_repo pool j w" and "ls \<equiv> writeLocations (world_repo pool j w) (ord_OrderNumber item) (ord_UserID item)"
  shows "good_step F core pool w (w\<lparr>md_orders := snd (update_all dt R ls item (md_orders w))\<rparr>)"
proof -
  let ?n = "ord_OrderNumber item" and ?s = "md_orders w" and ?w = "w\<lparr>md_orders := snd (update_all dt R ls item (md_orders w))\<rparr>"
  let ?c = "\<lambda>k. put_cell dt previous item (cell k ?n ?s)"
  note facts = writes_facts [OF i p k]
  from k have m: "loc_of m \<in> set ps" and reach: "\<forall>l \<in> set ls. reaches R ?s l"
    and forms: "(\<exists>a. ls = [a] \<and> set ps = {pairL a}) \<or> (\<exists>a b. ls = [a, b] \<and> ps = [pairL a, pairL b] \<and> pairL a \<noteq> pairL b)"
    by (auto simp: writes_to_def Let_def R_def ls_def)
  have n: "0 < ?n" "row_core (order_values dt item) = core ?n" using p by (auto simp: proper_order_def)
  have put: "row_core r = core ?n" if "snd (?c k) = Some r" for k r using that facts(1) put_cell_core [OF n(2), of "cell k ?n ?s" previous r] by blast
  obtain f where after: "cells_after f ?n ?s (md_orders ?w)" and f: "\<And>k. f k = snd (?c k) \<or> f k = cell k ?n ?s"
    and held: "f (loc_of m) \<noteq> None" and two: "\<And>l. ps = [loc_of m, l] \<Longrightarrow> cell l ?n ?s = cell (loc_of m) ?n ?s \<Longrightarrow> f l = f (loc_of m)"
    using forms
  proof (elim disjE exE conjE)
    fix a assume a: "ls = [a]" "set ps = {pairL a}"
    show thesis
    proof (rule that [of "\<lambda>k. if k = pairL a then snd (?c k) else cell k ?n ?s"])
      show "cells_after (\<lambda>k. if k = pairL a then snd (?c k) else cell k ?n ?s) ?n ?s (md_orders ?w)"
        using update_one_cells [OF inv_dbs_ok [OF i ff] _ prev, of R a dt] reach a(1) by simp
    qed (use a m put_cell_some in auto)
  next
    fix a b assume ab: "ls = [a, b]" "ps = [pairL a, pairL b]" "pairL a \<noteq> pairL b"
    let ?f = "\<lambda>k. if k = pairL a \<or> k = pairL b \<and> fst (?c (pairL a)) then snd (?c k) else cell k ?n ?s"
    show thesis
    proof (rule that [of ?f])
      show "cells_after ?f ?n ?s (md_orders ?w)"
        using update_two_cells [OF inv_dbs_ok [OF i ff] _ _ prev ab(3), of R dt] reach ab(1) by simp
      show "?f (loc_of m) \<noteq> None"
        using m ab(2) put_cell_some facts(3) [of "pairL a"] put_cell_none [of dt previous item] by (cases "cell (pairL a) ?n ?s") auto
    qed (use ab put_cell_refused in auto)
  qed
  show ?thesis
  proof (rule write_good [OF after n(1)])
    show "rows_evolve (md_orders w) (md_orders ?w)" using all_locations_evolve(2) [of dt R ls item] by (simp add: keepsG_def)
    show "row_core r = core ?n" if "f k = Some r" for k r using f [of k] that put [of k r] facts(1) [of k r] by auto
    show "f (loc_of m') \<noteq> None" if "m' \<in> set (md_mappings w)" "mp_virtual_shard m' = shard_of F ?n" for m'
      using facts(2) [OF that] held by simp
    show "f l = f (loc_of m')" if "m' \<in> set (md_mappings w)" "mp_virtual_shard m' = shard_of F ?n" "active w t" "serves m' t" "shadow_of m' = Some l"
      "?n \<le> tk_CursorOrderNumber t" for m' t l
      using facts(4) [of t l] facts(2) [OF that(1,2)] that two [of l] by simp
  qed simp_all
qed

lemma update_good:
  assumes "proper_order dt core item" and "od_faults (md_orders w) = []" and "ord_Status item \<in> {StatusPaid, StatusCancel, StatusRefund}"
  shows "good_step F core pool w (snd (on_orders (Sharded_Update dt (world_repo pool j w) item) w))"
proof (cases "mig_inv F core pool w \<and> fresh w j")
  case False
  then show ?thesis unfolding Sharded_Update_def
    by (cases "fresh w j") (simp_all add: good_step_def stale_write rows_go_on_def)
next
  case True
  from assms(3) obtain previous where "allowedPreviousStatus (ord_Status item) = Inr previous" by (auto simp: allowedPreviousStatus_def)
  moreover from True fresh_writes [of F core pool w j dt item] assms(1) obtain m ps where "writes_to pool w j item F m ps" by blast
  ultimately show ?thesis
    using True update_known_good [of F core pool w dt item j m ps previous] assms unfolding Sharded_Update_def by (simp add: fresh_write)
qed

section \<open>Copying a batch\<close>

lemma copy_row_core: "row_core r = row_core o' \<Longrightarrow> copy_row r (Some o') = r"
  by (cases r; cases o') (simp add: copy_row_def row_core_def)

text \<open>The rows after a batch has been copied, and what is left of the tasks.\<close>

lemma copied_cells:
  assumes cp: "rows_copied T nx w w'" and rows: "rows_ok core w" and m: "serves m t" "shadow_of m = Some l" "same_plan t T"
  shows "cellw k n w' = (if k = l \<and> tk_CursorOrderNumber T < n \<and> n \<le> nx \<and> cellw (loc_of m) n w \<noteq> None then cellw (loc_of m) n w else cellw k n w)"
    and "od_tables (md_orders w') k = None \<longleftrightarrow> od_tables (md_orders w) k = None"
    and "od_tables (md_orders w') k = Some tab \<Longrightarrow> distinct (map fst tab)"
proof -
  from cp m obtain src tgt where tab: "od_tables (md_orders w) (loc_of m) = Some src" "od_tables (md_orders w) l = Some tgt"
    "od_tables (md_orders w') = (od_tables (md_orders w))(l \<mapsto> copy_rows (tk_CursorOrderNumber T) nx src tgt)"
    by (auto simp: rows_copied_def serves_def same_plan_def)
  have dist: "distinct (map fst src)" "distinct (map fst tgt)" using rows tab by (auto simp: rows_ok_def)
  have "copy_row r (map_of tgt n) = r" if r: "map_of src n = Some r" for r
  proof (cases "map_of tgt n")
    case (Some o')
    have "cellw (loc_of m) n w = Some r" "cellw l n w = Some o'" using r Some tab by (simp_all add: cellw_def cell_def)
    then have "row_core r = row_core o'" using rows unfolding rows_ok_def by metis
    with Some show ?thesis by (simp add: copy_row_core)
  qed (simp add: copy_row_def)
  then show "cellw k n w' = (if k = l \<and> tk_CursorOrderNumber T < n \<and> n \<le> nx \<and> cellw (loc_of m) n w \<noteq> None then cellw (loc_of m) n w else cellw k n w)"
    using tab copy_rows_lookup [OF dist(1)] by (auto simp: cellw_def cell_def split: option.splits)
  show "od_tables (md_orders w') k = None \<longleftrightarrow> od_tables (md_orders w) k = None" using tab by simp
  show "od_tables (md_orders w') k = Some tab \<Longrightarrow> distinct (map fst tab)"
    using rows copy_rows_distinct [OF dist(2)] tab(3) by (auto simp: rows_ok_def split: if_splits)
qed

lemma advanced_tasks:
  assumes ctl: "control_ok w" and t: "(i, t) \<in> set (md_tasks w)" "tk_Status t \<noteq> TaskDone"
    and ts: "md_tasks w' = map (\<lambda>(j, u). (j, if j = i then h u else u)) (md_tasks w)" and h: "same_plan t (h t)" and a: "active w' u'"
  obtains u where "active w u" and "same_plan u u'" and "u' = h t \<and> u = t \<or> u' = u \<and> tk_VirtualShard u \<noteq> tk_VirtualShard t"
proof -
  from a obtain j u where u: "(j, u) \<in> set (md_tasks w)" "u' = (if j = i then h u else u)" "tk_Status u' \<noteq> TaskDone" by (auto simp: active_def ts)
  show thesis
  proof (cases "j = i")
    case True
    with u(1) t(1) ctl have "u = t" by (auto simp: control_ok_def tasks_ok_def dest: eq_key_imp_eq_value)
    with True u h t that [of t] show ?thesis by (force simp: active_def same_plan_def)
  next
    case False
    have "tk_VirtualShard u \<noteq> tk_VirtualShard t" using one_task [OF ctl u(1) t(1)] u(2,3) False t(2) by auto
    with False u that [of u] show ?thesis by (force simp: active_def same_plan_def)
  qed
qed

lemma shadow_apart:
  assumes "mappings_ok w" and "m \<in> set (md_mappings w)" and "shadow_of m = Some l" and "m' \<in> set (md_mappings w)" and "m' \<noteq> m"
  shows "loc_of m' \<noteq> l \<and> shadow_of m' \<noteq> Some l"
proof -
  have "mp_virtual_shard m' \<noteq> mp_virtual_shard m" using same_shard_same [OF assms(1,4,2)] assms(5) by blast
  with assms(1,2,4) have "locs_of m' \<inter> locs_of m = {}" by (simp add: mappings_ok_def)
  with assms(3) show ?thesis by (auto simp: locs_of_def)
qed

lemma copy_good:
  assumes cp: "rows_copied T nx w w'" and t: "(i, t) \<in> set (md_tasks w)" "tk_Status t \<noteq> TaskDone" "same_plan t T" "tk_CursorOrderNumber T = tk_CursorOrderNumber t"
    and late: "tk_CreatedAt t + DualWritePropagationDelay \<le> gw_now w"
    and ts: "md_tasks w' = map (\<lambda>(j, u). (j, if j = i then h u else u)) (md_tasks w)"
    and h: "same_plan t (h t)" "tk_CursorOrderNumber (h t) = tk_CursorOrderNumber t \<or> tk_CursorOrderNumber (h t) = nx"
  shows "good_step F core pool w w'"
  unfolding good_step_def
proof
  assume inv: "mig_inv F core pool w"
  then have ctl: "control_ok w" and rows: "rows_ok core w" and prim: "primary_holds F w" and cop: "copied_ok F w" by (auto simp: mig_inv_def)
  then have mok: "mappings_ok w" by (simp add: control_ok_def)
  from task_served [OF ctl t(1,2)] obtain m where m: "m \<in> set (md_mappings w)" "serves m t" by blast
  then obtain l where l: "shadow_of m = Some l" by (auto simp: serves_def)
  from cp have same: "md_mappings w' = md_mappings w" "gw_routers w' = gw_routers w" "gw_now w' = gw_now w"
    using same_more [of w' w] unfolding rows_copied_def by blast+
  note c = copied_cells(1) [OF cp rows m(2) l t(3), unfolded t(4)] and dom = copied_cells(2) [OF cp rows m(2) l t(3)]
  note act = advanced_tasks [OF ctl t(1,2) ts h(1)]
  have main: "cellw (loc_of m') n w' = cellw (loc_of m') n w" if "m' \<in> set (md_mappings w)" for m' n
    using shadow_apart [OF mok m(1) l that] by (cases "m' = m") (simp_all add: c)
  have "control_ok w'"
    by (rule control_ok_plan [OF ctl same(1) dom ts]) (use h(1) t(1) ctl in \<open>auto simp: same_plan_def control_ok_def tasks_ok_def dest: eq_key_imp_eq_value\<close>)
  moreover have "rows_ok core w'"
    using rows copied_cells(3) [OF cp rows m(2) l t(3)] by (auto simp: rows_ok_def c split: if_splits)
  moreover have "primary_holds F w'" unfolding primary_holds_def same
  proof (intro ballI allI impI)
    fix m' n k assume m': "m' \<in> set (md_mappings w)" "shard_of F n = mp_virtual_shard m'" "cellw k n w' \<noteq> None"
    with prim have "cellw (loc_of m') n w \<noteq> None" unfolding primary_holds_def c by (metis (no_types))
    with main [OF m'(1)] show "cellw (loc_of m') n w' \<noteq> None" by simp
  qed
  moreover have "copied_ok F w'" unfolding copied_ok_def same
  proof (intro allI impI conjI ballI)
    fix u' assume "0 < tk_CursorOrderNumber u'" "active w' u'"
    with cop late h show "tk_CreatedAt u' + DualWritePropagationDelay \<le> gw_now w"
      by (elim act) (auto simp: copied_ok_def same_plan_def)
  next
    fix u' m' k n assume u': "active w' u'" and m': "m' \<in> set (md_mappings w)" "serves m' u'" "shadow_of m' = Some k"
      and n: "0 < n" "n \<le> tk_CursorOrderNumber u'" "shard_of F n = mp_virtual_shard m'"
    from act [OF u'] obtain u where u: "active w u" "same_plan u u'" "u' = h t \<and> u = t \<or> u' = u \<and> tk_VirtualShard u \<noteq> tk_VirtualShard t" by blast
    have su: "serves m' u" using m'(2) serves_plan [OF u(2)] by simp
    from cop u(1) m' n(1,3) su have eq: "n \<le> tk_CursorOrderNumber u \<Longrightarrow> cellw k n w = cellw (loc_of m') n w" by (simp add: copied_ok_def)
    have none: "cellw (loc_of m') n w = None \<Longrightarrow> cellw k n w = None" using prim m'(1) n(3) unfolding primary_holds_def by metis
    show "cellw k n w' = cellw (loc_of m') n w'"
    proof (cases "m' = m")
      case True
      with u(3) su m(2) have "u = t" "u' = h t" by (auto simp: serves_def)
      with True l m'(3) h(2) n(2) eq none main [OF m(1)] show ?thesis by (auto simp: c)
    next
      case False
      with su m(2) same_shard_same [OF mok m'(1) m(1)] have "u \<noteq> t" by (auto simp: serves_def)
      with u(3) n(2) eq main [OF m'(1)] shadow_apart [OF mok m(1) l m'(1) False] m'(3) show ?thesis by (auto simp: c)
    qed
  qed
  moreover have "knows w' j m" if "knows w j m" for j m
    by (rule knows_step [OF that same(2) dom]) (use act in blast)
  then have "routers_ok F w'" using inv unfolding mig_inv_def routers_ok_def fresh_def same by blast
  moreover have "mapped F w'" "pooled pool w'" using inv by (simp_all add: mig_inv_def mapped_def pooled_def same dom)
  ultimately have inv': "mig_inv F core pool w'" by (simp add: mig_inv_def)
  have "rows_go_on F w w'" using mok inv' same main by (intro rows_go_on_same_mappings) (auto simp: mig_inv_def control_ok_def)
  with inv' show "mig_inv F core pool w' \<and> rows_go_on F w w'" by simp
qed

section \<open>The cut-over\<close>

lemma nothing_left_equal:
  assumes i: "mig_inv F core pool w" and t: "(i, t) \<in> set (md_tasks w)" "tk_Status t \<noteq> TaskDone" "same_plan t T" "tk_CursorOrderNumber T = tk_CursorOrderNumber t"
    and left: "nothing_left T w" and m: "m \<in> set (md_mappings w)" "serves m t" "shadow_of m = Some l" and n: "shard_of F n = mp_virtual_shard m"
  shows "cellw l n w = cellw (loc_of m) n w"
proof (cases "cellw (loc_of m) n w")
  case None
  with i m(1) n show ?thesis unfolding mig_inv_def primary_holds_def by metis
next
  case (Some r)
  from left m(2) t(3) obtain src where src: "od_tables (md_orders w) (loc_of m) = Some src" "\<forall>n \<in> fst ` set src. n \<le> tk_CursorOrderNumber T"
    by (auto simp: nothing_left_def serves_def same_plan_def)
  with Some have "n \<le> tk_CursorOrderNumber t" using t(4) by (force simp: cellw_def cell_def dest: map_of_SomeD)
  moreover have "0 < n" using i Some by (auto simp: mig_inv_def rows_ok_def)
  moreover have "active w t" using t by (force simp: active_def)
  ultimately show ?thesis using i m n by (auto simp: mig_inv_def copied_ok_def)
qed

lemma cutover_known:
  assumes i: "mig_inv F core pool w" and j: "fresh w j" and t: "active w t" "tk_CreatedAt t + DualWritePropagationDelay \<le> gw_now w"
    and m: "m \<in> set (md_mappings w)" "serves m t" "shadow_of m = Some l"
    and m': "mp_virtual_shard m' = mp_virtual_shard m" "loc_of m' = l" "shadow_of m' = None"
    and same: "gw_routers w' = gw_routers w" "\<And>l. od_tables (md_orders w') l = None \<longleftrightarrow> od_tables (md_orders w) l = None"
  shows "knows w' j m'"
proof -
  from i j m(1) have "knows w j m" by (auto simp: mig_inv_def routers_ok_def)
  then obtain e where e: "mo_mappings (gw_routers w j) (mp_virtual_shard m) = Some e" "\<forall>l \<in> set (entry_writes e). named l \<and> od_tables (md_orders w) l \<noteq> None"
    "entry_writes e = [loc_of m, l]"
    using delay_over [OF j t(2)] t(1) m(2,3) unfolding knows_def by auto
  then show ?thesis using m' by (auto simp: knows_def same serves_def)
qed

lemma complete_good:
  assumes cut: "task_completed T w w'" and t: "(i, t) \<in> set (md_tasks w)" "tk_Status t \<noteq> TaskDone" "same_plan t T" "tk_CursorOrderNumber T = tk_CursorOrderNumber t"
    and late: "tk_CreatedAt t + DualWritePropagationDelay \<le> gw_now w" and left: "nothing_left T w"
  shows "good_step F core pool w w'"
  unfolding good_step_def
proof
  assume inv: "mig_inv F core pool w"
  then have ctl: "control_ok w" and mok: "mappings_ok w" by (auto simp: mig_inv_def control_ok_def)
  from completed_row [OF ctl cut t(1,3,2)] obtain m l where m: "m \<in> set (md_mappings w)" "serves m t" "shadow_of m = Some l"
    and ms: "md_mappings w' = map (\<lambda>k. if k = m then cutover m else k) (md_mappings w)"
    and new: "mp_virtual_shard (cutover m) = mp_virtual_shard m" "loc_of (cutover m) = l" "shadow_of (cutover m) = None" by blast
  from cut have same: "od_tables (md_orders w') = od_tables (md_orders w)" "gw_routers w' = gw_routers w" "gw_now w' = gw_now w"
    using same_more [of w' w] unfolding task_completed_def by blast+
  have c: "cellw k n w' = cellw k n w" for k n by (simp add: cellw_def cell_def same)
  have set: "set (md_mappings w') = insert (cutover m) (set (md_mappings w) - {m})" using m(1) by (auto simp: ms)
  have at: "active w t" using t by (force simp: active_def)
  have act: "active w u" if "active w' u" for u using that cut by (auto simp: active_def task_completed_def split: if_splits) force
  note eq = nothing_left_equal [OF inv t left m]
  have ctl': "control_ok w'" by (rule control_ok_completed [OF ctl cut t(1,3,2)])
  have "rows_ok core w'" "pooled pool w'" using inv by (simp_all add: mig_inv_def rows_ok_def pooled_def c same)
  moreover have "mapped F w'" using inv m(1) new(1) unfolding mig_inv_def mapped_def set by (metis Diff_iff insert_iff singletonD)
  moreover have "primary_holds F w'" using inv m(1) new eq by (auto simp: mig_inv_def primary_holds_def set c)
  moreover have "copied_ok F w'" unfolding copied_ok_def c same
  proof (intro allI impI conjI ballI)
    fix u assume "active w' u" "0 < tk_CursorOrderNumber u"
    with act inv show "tk_CreatedAt u + DualWritePropagationDelay \<le> gw_now w" by (simp add: mig_inv_def copied_ok_def)
  next
    fix u k a n assume u: "active w' u" and k: "k \<in> set (md_mappings w')" "serves k u" "shadow_of k = Some a"
      and n: "0 < n" "n \<le> tk_CursorOrderNumber u" "shard_of F n = mp_virtual_shard k"
    from k new(3) have "k \<in> set (md_mappings w)" by (auto simp: set)
    with k(2,3) n act [OF u] inv show "cellw a n w = cellw (loc_of k) n w" by (simp add: mig_inv_def copied_ok_def)
  qed
  moreover have "knows w' j k" if "fresh w j" "k \<in> set (md_mappings w')" for j k
  proof (cases "k = cutover m")
    case True
    with cutover_known [OF inv that(1) at late m new] same show ?thesis by simp
  next
    case False
    with that(2) set have "k \<in> set (md_mappings w)" by auto
    with inv that(1) have "knows w j k" by (auto simp: mig_inv_def routers_ok_def)
    then show ?thesis by (rule knows_step) (use same act in \<open>auto simp: same_plan_def\<close>)
  qed
  then have "routers_ok F w'" using inv by (simp add: mig_inv_def routers_ok_def same fresh_def)
  ultimately have inv': "mig_inv F core pool w'" using ctl' by (simp add: mig_inv_def)
  moreover have "primary_row F n w' = Some r" if r: "primary_row F n w = Some r" for n r
  proof -
    from primary_row_some [OF r] obtain k where k: "k \<in> set (md_mappings w)" "mp_virtual_shard k = shard_of F n" "cellw (loc_of k) n w = Some r" by blast
    have "mappings_ok w'" using ctl' by (simp add: control_ok_def)
    note at' = primary_row_at [OF this]
    show ?thesis
    proof (cases "k = m")
      case True
      with at' [of "cutover m" F n] k new eq [of n] show ?thesis by (simp add: set c)
    next
      case False
      with at' [of k F n] k show ?thesis by (simp add: set c)
    qed
  qed
  ultimately show "mig_inv F core pool w' \<and> rows_go_on F w w'" by (auto simp: rows_go_on_def)
qed
section \<open>A new task\<close>

lemma create_good:
  assumes saved: "task_saved ts task w w'" and new: "tk_ID task \<notin> fst ` set (md_tasks w)" and st: "tk_Status task = TaskPending"
    and ts: "gw_now w - 5 * 1000000000 < ts"
  shows "good_step F core pool w w'"
  unfolding good_step_def
proof
  assume inv: "mig_inv F core pool w"
  then have ctl: "control_ok w" and mok: "mappings_ok w" by (auto simp: mig_inv_def control_ok_def)
  define g where "g m = (if activate_row (tk_VirtualShard task) (parsed (tk_SourceShard task)) m then activate (parsed (tk_TargetShard task)) m else m)" for m
  from saved have ms: "md_mappings w' = map g (md_mappings w)" and tab: "od_tables (md_orders w') = od_tables (md_orders w)"
    and same: "gw_routers w' = gw_routers w" "gw_now w' = gw_now w"
    using same_more [of w' w] by (auto simp: task_saved_def g_def parsed_def)
  have g: "mp_virtual_shard (g m) = mp_virtual_shard m" "loc_of (g m) = loc_of m" for m by (auto simp: g_def activate_def loc_of_def)
  have g_other: "g m = m" if "mp_virtual_shard m \<noteq> tk_VirtualShard task" for m using that by (simp add: g_def activate_row_def)
  have c: "cellw k n w' = cellw k n w" for k n by (simp add: cellw_def cell_def tab)
  let ?t = "task\<lparr>tk_CursorOrderNumber := 0, tk_CopiedRows := 0, tk_ErrorMessage := [], tk_CreatedAt := ts\<rparr>"
  have ctl': "control_ok w'" using control_ok_saved [OF ctl saved new] st by simp
  have tasks: "md_tasks w' = md_tasks w @ [(tk_ID task, ?t)]" by (rule task_saved_new [OF saved new])
  have act: "u = ?t \<or> active w u \<and> tk_VirtualShard u \<noteq> tk_VirtualShard task" if "active w' u" for u
  proof -
    from that obtain j where j: "(j, u) \<in> set (md_tasks w')" "tk_Status u \<noteq> TaskDone" by (force simp: active_def)
    show ?thesis
    proof (cases "(j, u) \<in> set (md_tasks w)")
      case True
      with new have "j \<noteq> tk_ID task" by force
      with one_task [OF ctl' j(1) _ j(2), of "tk_ID task" ?t] st have "tk_VirtualShard u \<noteq> tk_VirtualShard task" by (auto simp: tasks)
      with True j(2) show ?thesis by (force simp: active_def)
    qed (use j(1) tasks in auto)
  qed
  have "rows_ok core w'" "pooled pool w'" "mapped F w'" "primary_holds F w'"
    using inv by (auto simp: mig_inv_def rows_ok_def pooled_def mapped_def primary_holds_def c tab ms g)
  moreover have "copied_ok F w'" unfolding copied_ok_def c same
  proof (intro allI impI conjI ballI)
    fix u assume "active w' u" "0 < tk_CursorOrderNumber u"
    with act [of u] inv show "tk_CreatedAt u + DualWritePropagationDelay \<le> gw_now w" by (auto simp: mig_inv_def copied_ok_def)
  next
    fix u k a n assume u: "active w' u" and k: "k \<in> set (md_mappings w')" "serves k u" "shadow_of k = Some a"
      and n: "0 < n" "n \<le> tk_CursorOrderNumber u" "shard_of F n = mp_virtual_shard k"
    from act [OF u] n have a: "active w u" "tk_VirtualShard u \<noteq> tk_VirtualShard task" by auto
    with k(1,2) g_other g(1) have "k \<in> set (md_mappings w)" by (auto simp: ms serves_def)
    with k(2,3) n a inv show "cellw a n w = cellw (loc_of k) n w" by (simp add: mig_inv_def copied_ok_def)
  qed
  moreover have "knows w' j (g m)" if k: "knows w j m" and r: "mo_refreshedAt (gw_routers w j) \<le> gw_now w" for j m
  proof -
    from k obtain e where e: "mo_mappings (gw_routers w j) (mp_virtual_shard m) = Some e"
      "\<forall>l \<in> set (entry_writes e). named l \<and> od_tables (md_orders w) l \<noteq> None" "loc_of m \<in> set (entry_writes e)"
      "\<And>t. active w t \<Longrightarrow> serves m t \<Longrightarrow> Some (entry_writes e) = map_option (\<lambda>l. [loc_of m, l]) (shadow_of m) \<or> mo_refreshedAt (gw_routers w j) < tk_CreatedAt t + 5 * 1000000000"
      unfolding knows_def by blast
    have "Some (entry_writes e) = map_option (\<lambda>l. [loc_of (g m), l]) (shadow_of (g m)) \<or> mo_refreshedAt (gw_routers w j) < tk_CreatedAt u + 5 * 1000000000"
      if u: "active w' u" "serves (g m) u" for u
    proof (cases "u = ?t")
      case False
      with act [OF u(1)] have a: "active w u" "tk_VirtualShard u \<noteq> tk_VirtualShard task" by auto
      with u(2) g_other [of m] g(1) have "g m = m" by (auto simp: serves_def)
      with e(4) [OF a(1)] u(2) show ?thesis by simp
    qed (use r ts in simp)
    with e(1-3) show ?thesis unfolding knows_def g tab same by blast
  qed
  then have "routers_ok F w'" using inv by (auto simp: mig_inv_def routers_ok_def same fresh_def ms)
  ultimately have inv': "mig_inv F core pool w'" using ctl' by (simp add: mig_inv_def)
  moreover have "primary_row F n w' = Some r" if r: "primary_row F n w = Some r" for n r
  proof -
    from primary_row_some [OF r] obtain k where "k \<in> set (md_mappings w)" "mp_virtual_shard k = shard_of F n" "cellw (loc_of k) n w = Some r" by blast
    with primary_row_at [of w' "g k" F n] ctl' show ?thesis by (simp add: control_ok_def ms g c)
  qed
  ultimately show "mig_inv F core pool w' \<and> rows_go_on F w w'" by (auto simp: rows_go_on_def)
qed
section \<open>A router is refreshed\<close>

lemma collect_mappings_lookup:
  assumes "collect_mappings mx ms acc = Inr res" and "distinct (map sm_VirtualShard ms)"
  shows "(\<forall>m \<in> set ms. \<exists>e. check_mapping mx m = Inr e \<and> res (sm_VirtualShard m) = Some e)
    \<and> (\<forall>k. k \<notin> sm_VirtualShard ` set ms \<longrightarrow> res k = acc k)"
  using assms
proof (induction ms arbitrary: acc)
  case (Cons m ms)
  from collect_mappings_Cons [OF Cons.prems(1)] obtain e where e: "check_mapping mx m = Inr e"
    "collect_mappings mx ms (acc(sm_VirtualShard m := Some e)) = Inr res" by metis
  have "distinct (map sm_VirtualShard ms)" "sm_VirtualShard m \<notin> sm_VirtualShard ` set ms" using Cons.prems(2) by auto
  with Cons.IH [OF e(2)] e(1) show ?case by auto
qed simp

definition loaded :: "mapping_row \<Rightarrow> ShardMapping" where
  "loaded m = client_mapping ((mapping_item m)\<lparr>mm_VirtualShard := wrap32 (mm_VirtualShard (mapping_item m))\<rparr>)"

lemma wrap32_id: "- (2 ^ 31) \<le> x \<Longrightarrow> x < 2 ^ 31 \<Longrightarrow> wrap32 x = x"
  by (simp add: wrap32_def signed_take_bit_int_eq_self)

lemma loaded_shard: "mapping_wf tabs m \<Longrightarrow> sm_VirtualShard (loaded m) = mp_virtual_shard m"
  by (simp add: loaded_def client_mapping_def mapping_item_def mapping_wf_def wrap32_id Let_def)

lemma loaded_writes:
  assumes "mapping_wf tabs m" and "check_mapping mx (loaded m) = Inr e"
  shows "entry_writes e = loc_of m # (case shadow_of m of None \<Rightarrow> [] | Some l \<Rightarrow> [l])"
proof -
  have "\<And>l. l \<in> locs_of m \<Longrightarrow> fst l \<noteq> [] \<and> snd l \<noteq> []" using assms(1) by (auto simp: mapping_wf_def named_def is_ident_def)
  with assms show ?thesis
    by (auto simp: mapping_wf_def loaded_def client_mapping_def mapping_item_def check_mapping_def entry_writes_def pairL_def loc_of_def shadow_of_def locs_of_def Let_def
        split: option.splits if_splits)
qed

lemma replace_good: "good_step F core pool w (snd (replace_mappings j (map loaded (sort_key mp_virtual_shard (md_mappings w))) w))"
proof (cases "collect_mappings (virtualShardCount (gw_routers w j)) (map loaded (sort_key mp_virtual_shard (md_mappings w))) Map.empty")
  case (Inl e)
  then show ?thesis by (intro same_world_good) (simp add: same_world_def replace_mappings_def liftG_def ReplaceMappings_def)
next
  case (Inr res)
  let ?r = "(gw_routers w j)\<lparr>mo_mappings := res, mo_refreshedAt := gw_now w\<rparr>"
  let ?w = "w\<lparr>gw_routers := (gw_routers w)(j := ?r)\<rparr>"
  have w': "snd (replace_mappings j (map loaded (sort_key mp_virtual_shard (md_mappings w))) w) = ?w"
    using Inr by (simp add: replace_mappings_def liftG_def ReplaceMappings_def)
  show ?thesis unfolding w' good_step_def
  proof
    assume inv: "mig_inv F core pool w"
    then have mok: "mappings_ok w" by (simp add: mig_inv_def control_ok_def)
    then have wf: "\<And>m. m \<in> set (md_mappings w) \<Longrightarrow> mapping_wf (od_tables (md_orders w)) m" by (simp add: mappings_ok_def)
    have "map sm_VirtualShard (map loaded (sort_key mp_virtual_shard (md_mappings w))) = map mp_virtual_shard (sort_key mp_virtual_shard (md_mappings w))"
      using loaded_shard [OF wf] by simp
    moreover have "distinct (map mp_virtual_shard (sort_key mp_virtual_shard (md_mappings w)))"
      using mok unfolding mappings_ok_def distinct_map by simp
    ultimately have "distinct (map sm_VirtualShard (map loaded (sort_key mp_virtual_shard (md_mappings w))))" by metis
    note look = collect_mappings_lookup [OF Inr this]
    have c: "cellw l n ?w = cellw l n w" for l n by (simp add: cellw_def)
    have a: "active ?w = active w" by (simp add: fun_eq_iff active_def)
    have "knows ?w j m" if m: "m \<in> set (md_mappings w)" for m
    proof -
      from look m loaded_shard [OF wf [OF m]] obtain e where e: "check_mapping (virtualShardCount (gw_routers w j)) (loaded m) = Inr e"
        "res (mp_virtual_shard m) = Some e" by auto
      with wf [OF m] loaded_writes [OF wf [OF m] e(1)] show ?thesis
        by (auto simp: knows_def mapping_wf_def locs_of_def serves_def split: option.splits)
    qed
    moreover have "knows ?w k m = knows w k m" "fresh ?w k = fresh w k" if "k \<noteq> j" for k m
      using that by (simp_all add: knows_def a fresh_def)
    ultimately have "routers_ok F ?w" using inv by (auto simp: mig_inv_def routers_ok_def)
    moreover have "control_ok ?w" "rows_ok core ?w" "primary_holds F ?w" "mapped F ?w" "pooled pool ?w" "copied_ok F ?w"
      using inv by (simp_all add: mig_inv_def control_ok_def mappings_ok_def tasks_ok_def rows_ok_def primary_holds_def mapped_def pooled_def copied_ok_def c a)
    ultimately have "mig_inv F core pool ?w" by (simp add: mig_inv_def)
    moreover have "primary_row F n ?w = primary_row F n w" for n by (simp add: primary_row_def c split: option.splits)
    ultimately show "mig_inv F core pool ?w \<and> rows_go_on F w ?w" by (simp add: rows_go_on_def)
  qed
qed

lemma refresh_good:
  assumes "calm w"
  shows "good_step F core pool w (snd (refresh_router j w))"
proof -
  obtain r w1 where l: "DB_LoadShardMappings w = (r, w1)" by (metis surj_pair)
  with LoadShardMappings_ends [OF assms] have w1: "same_data w w1" and r: "\<And>ms. r = Inr ms \<Longrightarrow> ms = map mapping_item (sort_key mp_virtual_shard (md_mappings w))"
    by (cases r; auto simp: ends_def)+
  note s = same_world_good [OF same_data_world [OF w1], of F core pool]
  show ?thesis
  proof (cases r)
    case (Inl e)
    with l s show ?thesis
      by (simp add: refresh_router_def Refresh_def Client_ListShardMappings_def Server_ListShardMappings_def Migration_LoadShardMappings_def
          world_migrations_def mysql_migrations_def bindG_def)
  next
    case (Inr ms)
    let ?ms = "map loaded (sort_key mp_virtual_shard (md_mappings w1))"
    have "md_mappings w1 = md_mappings w" using w1 by (simp add: same_data_def)
    with l Inr r [OF Inr] have "snd (refresh_router j w) = snd (replace_mappings j ?ms w1)"
      by (simp add: refresh_router_def Refresh_def Client_ListShardMappings_def Server_ListShardMappings_def Migration_LoadShardMappings_def
          world_migrations_def mysql_migrations_def bindG_def returnG_def comp_def loaded_def [abs_def] split: prod.splits sum.splits)
    with good.R_trans [OF s replace_good] show ?thesis by simp
  qed
qed
end
