(* ===== verification/Migration_Orders.thy ===== *)
theory Migration_Orders
  imports Migration_Steps
begin

text \<open>
  The steps of the migration service keep the invariant, and with them every step of the world of \<open>Migration_Safety\<close>:
  no order is lost or set back by a migration, and the control tables stay well formed. The last section shows what
  happens when a statement of an order service is refused in the middle of a dual write.
\<close>

declare split_paired_All [simp del] split_paired_Ex [simp del]

section \<open>The worker and the service\<close>

lemma task_set_good:
  assumes set: "task_set i f w w'" and T: "(i, T) \<in> set (md_tasks w)" "same_plan T (f T)" "tk_CursorOrderNumber (f T) = tk_CursorOrderNumber T"
  shows "good_step F core pool w w'"
  unfolding good_step_def
proof
  assume inv: "mig_inv F core pool w"
  have T': "t = T" if "(i, t) \<in> set (md_tasks w)" for t
    using inv that T(1) by (auto simp: mig_inv_def control_ok_def tasks_ok_def dest: eq_key_imp_eq_value)
  have "good_step F core pool w w'"
    by (rule plan_good [where g = "\<lambda>j t. if j = i then f t else t"])
      (use set T same_more [of w' w] in \<open>auto simp: task_set_def same_plan_def dest: T'\<close>)
  with inv show "mig_inv F core pool w' \<and> rows_go_on F w w'" by (simp add: good_step_def)
qed

lemma fail_good:
  assumes "calm w" and "(i, T) \<in> set (md_tasks w)" and "tk_Status T \<noteq> TaskDone"
  shows "good_step F core pool w (snd (attemptG (DB_FailTask i reason) (\<lambda>_. failG e) w))"
proof -
  obtain r w1 where f: "DB_FailTask i reason w = (r, w1)" by (metis surj_pair)
  with FailTask_ends [OF assms(1), of i reason] have "same_data w w1 \<or> task_set i (\<lambda>t. t\<lparr>tk_Status := TaskPaused, tk_ErrorMessage := reason\<rparr>) w w1"
    by (cases r) (auto simp: ends_def)
  then have "good_step F core pool w w1"
    using same_world_good [OF same_data_world] task_set_good [OF _ assms(2)] assms(3) by (auto simp: same_plan_def)
  with f show ?thesis by (simp add: attemptG_def failG_def)
qed

lemma finish_good:
  assumes "calm w" and T: "(tk_ID T, T) \<in> set (md_tasks w)" "tk_Status T \<noteq> TaskDone"
    and late: "tk_CreatedAt T + DualWritePropagationDelay \<le> gw_now w" and left: "nothing_left T w"
  shows "good_step F core pool w (snd (attemptG (DB_CompleteTask T) (\<lambda>r. case r of
      Inl e \<Rightarrow> attemptG (DB_FailTask (tk_ID T) (error_text e)) (\<lambda>_. failG e) | Inr _ \<Rightarrow> returnG ()) w))"
proof -
  obtain r w1 where d: "DB_CompleteTask T w = (r, w1)" by (metis surj_pair)
  note ends = CompleteTask_ends [OF assms(1), of T, unfolded ends_def d]
  show ?thesis
  proof (cases r)
    case (Inl e)
    with ends have c: "calm w1" "same_data w w1" by auto
    with T(1) have "(tk_ID T, T) \<in> set (md_tasks w1)" by (simp add: same_data_def)
    from good.R_trans [OF same_world_good [OF same_data_world [OF c(2)]] fail_good [OF c(1) this T(2)]] d Inl show ?thesis by (simp add: attemptG_def)
  next
    case (Inr u)
    with ends complete_good [OF _ T _ refl late left] have "good_step F core pool w w1" by (simp add: same_plan_def)
    with d Inr show ?thesis by (simp add: attemptG_def returnG_def)
  qed
qed

lemma poll_task_good:
  assumes "calm w" and T: "(tk_ID T, T) \<in> set (md_tasks w)" "tk_Status T \<noteq> TaskDone"
  shows "good_step F core pool w (snd (poll_task (world_worker token) T w))"
proof (cases "tk_CreatedAt T = 0 \<or> gw_now w - tk_CreatedAt T < DualWritePropagationDelay")
  case True
  then show ?thesis by (simp add: poll_task_def world_worker_def go_simps bindG_def good.R_refl)
next
  case False
  then have late: "tk_CreatedAt T + DualWritePropagationDelay \<le> gw_now w" by simp
  have plan: "same_plan T T" by (simp add: same_plan_def)
  note copy = copy_good [OF _ T plan refl late]
  obtain r w1 where f: "DB_CopyBatch T w = (r, w1)" by (metis surj_pair)
  let ?fail = "\<lambda>e. attemptG (DB_FailTask (tk_ID T) (error_text e)) (\<lambda>_. failG e)"
  have poll: "poll_task (world_worker token) T w = (case r of Inl e \<Rightarrow> ?fail e w1
    | Inr (copied, _) \<Rightarrow> if copied > 0 then returnG () w1
        else attemptG (DB_CompleteTask T) (\<lambda>r. case r of Inl e \<Rightarrow> ?fail e | Inr _ \<Rightarrow> returnG ()) w1)"
    using False f by (simp add: poll_task_def world_worker_def mysql_migrations_def go_simps bindG_def attemptG_def split: sum.splits prod.splits)
  show ?thesis
  proof (cases r)
    case (Inl e)
    with f CopyBatch_ends [OF assms(1), of T] have c: "calm w1" "same_data w w1 \<or> (\<exists>nx. rows_copied T nx w w1 \<and> md_tasks w1 = md_tasks w)" by (auto simp: ends_def)
    have id: "md_tasks w = map (\<lambda>(j, u). (j, if j = tk_ID T then u else u)) (md_tasks w)" by (induction "md_tasks w") auto
    from c(2) have "good_step F core pool w w1"
      using same_world_good [OF same_data_world] copy [of _ w1 "\<lambda>u. u"] plan id by auto
    moreover have "(tk_ID T, T) \<in> set (md_tasks w1)" using c(2) T(1) by (auto simp: same_data_def)
    ultimately show ?thesis using good.R_trans [OF _ fail_good [OF c(1) _ T(2)]] Inl poll by simp
  next
    case (Inr p)
    obtain copied nx where p: "p = (copied, nx)" by (cases p)
    with f Inr CopyBatch_ends [OF assms(1), of T] have c: "calm w1" "copied_from T w (copied, nx) w1" by (auto simp: ends_def)
    show ?thesis
    proof (cases "copied > 0")
      case True
      with c(2) have cp: "rows_copied T nx w w1" "md_tasks w1 = map (\<lambda>(i, t). (i, if i = tk_ID T
            then t\<lparr>tk_CursorOrderNumber := nx, tk_CopiedRows := tk_CopiedRows t + copied, tk_Status := TaskRunning\<rparr> else t)) (md_tasks w)" by (auto simp: copied_from_def)
      have "good_step F core pool w w1" by (rule copy [OF cp(1) cp(2)]) (use T in \<open>auto simp: same_plan_def\<close>)
      with True poll Inr p show ?thesis by (simp add: returnG_def)
    next
      case False
      with c(2) have w1: "same_data w w1" "nothing_left T w" by (auto simp: copied_from_def)
      have T1: "(tk_ID T, T) \<in> set (md_tasks w1)" "nothing_left T w1" "tk_CreatedAt T + DualWritePropagationDelay \<le> gw_now w1"
        using w1 T(1) late same_data_world [OF w1(1)] by (auto simp: same_data_def nothing_left_def same_world_def)
      from good.R_trans [OF same_world_good [OF same_data_world [OF w1(1)]] finish_good [OF c(1) T1(1) T(2) T1(3,2)]]
      show ?thesis by (simp only: poll Inr p False sum.case prod.case if_False)
    qed
  qed
qed

lemma load_and_poll_good:
  assumes "calm w"
  shows "good_step F core pool w (snd (bindG DB_LoadNextTask (\<lambda>next. case next of None \<Rightarrow> returnG () | Some T \<Rightarrow> poll_task (world_worker token) T) w))"
    (is "good_step F core pool w (snd (bindG _ ?f w))")
proof -
  obtain r w1 where l: "DB_LoadNextTask w = (r, w1)" by (metis surj_pair)
  note e = LoadNextTask_ends [OF assms, unfolded ends_def l]
  show ?thesis
  proof (cases "\<exists>T. r = Inr (Some T)")
    case False
    with e have "same_data w w1" by (cases r) (auto simp: task_loaded_def split: option.splits)
    with same_world_good [OF same_data_world] l False show ?thesis by (cases r) (auto simp: bindG_def returnG_def split: option.splits)
  next
    case True
    then obtain T where T: "r = Inr (Some T)" by blast
    with e obtain t where c: "calm w1" and t: "t \<in> snd ` set (md_tasks w)" "tk_Status t \<in> {TaskPending, TaskRunning}" "T = t\<lparr>tk_Status := TaskRunning\<rparr>"
      "task_set (tk_ID t) (\<lambda>t. t\<lparr>tk_Status := TaskRunning\<rparr>) w w1" by (auto simp: task_loaded_def)
    show ?thesis unfolding good_step_def
    proof
      assume inv: "mig_inv F core pool w"
      with t(1) have i: "(tk_ID t, t) \<in> set (md_tasks w)" by (auto simp: mig_inv_def control_ok_def tasks_ok_def)
      have s: "good_step F core pool w w1" by (rule task_set_good [OF t(4) i]) (use t(2) in \<open>auto simp: same_plan_def\<close>)
      have "(tk_ID T, T) \<in> set (md_tasks w1)" using i t(3,4) by (force simp: task_set_def)
      from good.R_trans [OF s poll_task_good [OF c this]] t(3) inv
      show "mig_inv F core pool (snd (bindG DB_LoadNextTask ?f w)) \<and> rows_go_on F w (snd (bindG DB_LoadNextTask ?f w))"
        using l T by (simp add: bindG_def good_step_def)
    qed
  qed
qed

lemma locked_world: "same_world w (w\<lparr>gw_locks := l\<rparr>)" "same_world (w\<lparr>gw_locks := l\<rparr>) w"
  by (simp_all add: same_world_def)

lemma world_worker_parts: "wk_repo (world_worker token) = mysql_migrations 0"
  "wk_locker (world_worker token) = (\<lambda>k ttl w. liftG gw_locks (\<lambda>l w. w\<lparr>gw_locks := l\<rparr>) (MemoryLocker_Acquire (gw_now w) token k ttl) w,
     \<lambda>h. liftG gw_locks (\<lambda>l w. w\<lparr>gw_locks := l\<rparr>) (memoryLock_Release h))"
  "mr_LoadNextTask (mysql_migrations 0) = DB_LoadNextTask"
  by (simp_all add: world_worker_def mysql_migrations_def)

lemma poll_good:
  assumes "calm w"
  shows "good_step F core pool w (snd (Poll_migration (world_worker token) w))"
proof -
  obtain r l where l: "MemoryLocker_Acquire (gw_now w) token ''tickethub:migrate:worker'' (30 * 1000000000) (gw_locks w) = (r, l)" by (metis surj_pair)
  let ?w = "w\<lparr>gw_locks := l\<rparr>"
  note s1 = same_world_good [OF locked_world(1), of F core pool w l]
  show ?thesis
  proof (cases r)
    case (Inl e)
    with l s1 show ?thesis by (simp add: Poll_migration_def world_worker_def liftG_def attemptG_def returnG_def failG_def)
  next
    case (Inr guard)
    have "calm ?w" using assms by (simp add: calm_def)
    note s2 = good.R_trans [OF s1 load_and_poll_good [OF this]]
    obtain r' w' where b: "bindG DB_LoadNextTask (\<lambda>next. case next of None \<Rightarrow> returnG () | Some T \<Rightarrow> poll_task (world_worker token) T) ?w = (r', w')" by (metis surj_pair)
    with s2 [of token] good.R_trans [OF _ same_world_good [OF locked_world(1)]] have "good_step F core pool w (w'\<lparr>gw_locks := x\<rparr>)" for x by simp
    with l Inr b show ?thesis
      by (simp add: Poll_migration_def world_worker_parts liftG_def attemptG_def deferG_def split: prod.splits)
  qed
qed

lemma resume_good:
  assumes "calm w"
  shows "good_step F core pool w (snd (Server_ResumeTask (world_migrations allowed ts) i w))"
proof (cases "i \<le> 0")
  case True
  then show ?thesis by (simp add: Server_ResumeTask_def Migration_ResumeTask_def world_migrations_def go_simps bindG_def good.R_refl)
next
  case False
  obtain r w1 where f: "DB_ResumeTask i w = (r, w1)" by (metis surj_pair)
  with ResumeTask_ends [OF assms, of i] have "same_data w w1 \<or> task_resumed i w w1" by (cases r) (auto simp: ends_def)
  moreover have "good_step F core pool w w1" if "task_resumed i w w1"
    by (rule plan_good [where g = "\<lambda>j t. if j = i \<and> resumable w t then t\<lparr>tk_Status := TaskRunning, tk_ErrorMessage := []\<rparr> else t"])
      (use that same_more [of w1 w] in \<open>auto simp: task_resumed_def same_plan_def resumable_def\<close>)
  ultimately have "good_step F core pool w w1" using same_world_good [OF same_data_world] by blast
  with f False show ?thesis
    by (simp add: Server_ResumeTask_def Migration_ResumeTask_def world_migrations_def mysql_migrations_def bindG_def returnG_def split: sum.splits)
qed

lemma save_task_good:
  assumes "calm w" and "tk_ID task \<notin> fst ` set (md_tasks w)" and "gw_now w - 5 * 1000000000 < ts" and "tk_Status task = TaskPending"
  shows "good_step F core pool w (snd (Migration_SaveTask (world_migrations allowed ts) task w))"
proof -
  have db: "good_step F core pool w (snd (DB_SaveTask ts t w))" if "tk_ID t = tk_ID task" "tk_Status t = TaskPending" for t
  proof -
    obtain r w1 where f: "DB_SaveTask ts t w = (r, w1)" by (metis surj_pair)
    with SaveTask_ends [OF assms(1), of ts t] have "same_data w w1 \<or> task_saved ts t w w1" by (cases r) (auto simp: ends_def)
    with f that assms same_world_good [OF same_data_world] create_good [of ts t w w1] show ?thesis by auto
  qed
  show ?thesis using assms(4)
    by (auto simp: Migration_SaveTask_def world_migrations_def mysql_migrations_def go_simps bindG_def Let_def good.R_refl db split: sum.splits)
qed

lemma create_task_good:
  assumes "calm w" and "i \<notin> fst ` set (md_tasks w)" and "gw_now w - 5 * 1000000000 < ts"
  shows "good_step F core pool w (snd (Server_CreateTask (world_migrations allowed ts) (returnG i) req w))"
proof -
  let ?t = "no_task\<lparr>tk_ID := i, tk_VirtualShard := ctr_VirtualShard req, tk_SourceShard := ctr_SourceShard req, tk_TargetShard := ctr_TargetShard req,
    tk_Status := TaskPending, tk_BatchSize := (if ctr_BatchSize req \<le> 0 then 500 else ctr_BatchSize req)\<rparr>"
  obtain r w1 where f: "Migration_SaveTask (world_migrations allowed ts) ?t w = (r, w1)" by (metis surj_pair)
  with save_task_good [OF assms(1), of ?t ts F core pool allowed] assms have "good_step F core pool w w1" by simp
  with f show ?thesis by (cases r) (simp_all add: Server_CreateTask_def bindG_def returnG_def Let_def)
qed

lemma step_good:
  assumes "mig_step dt core pool w w'"
  shows "good_step F core pool w w'"
proof -
  have w: "good_step F core pool w (with_faults fs w)" for w fs by (rule same_world_good) (simp add: same_world_def with_faults_def)
  have calm: "ReplyLost \<notin> set fs \<Longrightarrow> calm (with_faults fs w)" for w fs by (simp add: with_faults_def calm_def)
  have repo: "world_repo pool j w = world_repo pool j (with_faults fs w)" for j w fs by (simp add: world_repo_def with_faults_def)
  have more: "gw_now (with_faults fs w) = gw_now w" "md_tasks (with_faults fs w) = md_tasks w" "od_faults (md_orders (with_faults fs w)) = fs" for w fs
    by (simp_all add: with_faults_def)
  from assms show ?thesis
  proof cases
    case (save item j)
    then show ?thesis using good.R_trans [OF w save_good] more repo by metis
  next
    case (update item j)
    then show ?thesis using good.R_trans [OF w update_good] more repo by metis
  next
    case (refresh fs j)
    then show ?thesis using good.R_trans [OF w refresh_good [OF calm]] by blast
  next
    case (create i ts fs allowed req)
    then show ?thesis using good.R_trans [OF w create_task_good [OF calm]] more by auto
  next
    case (resume fs allowed ts i)
    then show ?thesis using good.R_trans [OF w resume_good [OF calm]] by blast
  next
    case (poll fs token)
    then show ?thesis using good.R_trans [OF w poll_good [OF calm]] by blast
  next
    case (tick t)
    then show ?thesis using tick_good by simp
  qed
qed
section \<open>Migrations keep the orders\<close>

text \<open>Before the first migration: no tasks, no shadows, and the order services have just been started.\<close>

definition mig_start :: "GeneOrderRouter \<Rightarrow> (int64 \<Rightarrow> order_row) \<Rightarrow> (string \<rightharpoonup> string option) option \<Rightarrow> mig_world \<Rightarrow> bool" where
  "mig_start F core pool w \<longleftrightarrow> md_tasks w = [] \<and> gw_routers w = (\<lambda>_. NewMappingOrderRouter F) \<and> 0 \<le> gw_now w
     \<and> mappings_ok w \<and> rows_ok core w \<and> primary_holds F w \<and> mapped F w \<and> pooled pool w"

lemma start_inv: "mig_start F core pool w \<Longrightarrow> mig_inv F core pool w"
  by (auto simp: mig_start_def mig_inv_def control_ok_def tasks_ok_def copied_ok_def active_def routers_ok_def fresh_def MappingFresh_def NewMappingOrderRouter_def)

lemma steps_good: "(mig_step dt core pool)\<^sup>*\<^sup>* w w' \<Longrightarrow> good_step F core pool w w'"
  by (induction rule: rtranclp_induct) (auto intro: good.R_refl good.R_trans step_good)

lemma reachable_inv: "mig_start F core pool w0 \<Longrightarrow> (mig_step dt core pool)\<^sup>*\<^sup>* w0 w \<Longrightarrow> mig_inv F core pool w"
  using steps_good start_inv by (auto simp: good_step_def)

definition sample_core :: "int64 \<Rightarrow> order_row" where
  "sample_core n = row_core (order_values id (sample_sharded_order\<lparr>ord_OrderNumber := n\<rparr>))"

definition sample_fallback :: GeneOrderRouter where
  "sample_fallback = NewGeneOrderRouter ''a'' ''t'' 1 1"

definition sample_pool :: "(string \<rightharpoonup> string option) option" where
  "sample_pool = Some [''a'' \<mapsto> Some ''a'', ''b'' \<mapsto> Some ''b'']"

definition sample_world :: mig_world where
  "sample_world = \<lparr>md_tasks = [],
     md_mappings = [\<lparr>mp_virtual_shard = 0, mp_physical_db = ''a'', mp_physical_table = ''t0'', mp_shadow_db = None, mp_shadow_table = None,
       mp_write_mode = ''PRIMARY_ONLY'', mp_version = 1\<rparr>],
     md_orders = \<lparr>od_tables = [(''a'', ''t0'') \<mapsto> [(4096, order_values id sample_sharded_order)], (''b'', ''t0'') \<mapsto> []],
       od_faults = [], od_error = PlainError ''driver''\<rparr>,
     gw_routers = (\<lambda>_. NewMappingOrderRouter sample_fallback), gw_now = 100000000000, gw_locks = (\<lambda>_. None)\<rparr>"

text \<open>A task is created, the order is copied after the delay, and then paid; the first \<open>k\<close> polls are made.\<close>

definition sample_created :: mig_world where
  "sample_created = snd (Server_CreateTask (world_migrations [] 100000000000) (returnG 9)
     \<lparr>ctr_SourceShard = ''a.t0'', ctr_TargetShard = ''b.t0'', ctr_BatchSize = 10, ctr_VirtualShard = 0\<rparr> (with_faults [] sample_world))"

definition sample_copied :: mig_world where
  "sample_copied = snd (Poll_migration (world_worker ''k'') (with_faults [] (snd (refresh_router 0 (with_faults [] (sample_created\<lparr>gw_now := 150000000000\<rparr>))))))"

definition sample_payment :: Order where
  "sample_payment = sample_sharded_order\<lparr>ord_Status := StatusPaid, ord_PaidAt := Some 7\<rparr>"

definition sample_paid :: "db_fault list \<Rightarrow> mig_world" where
  "sample_paid fs = snd (on_orders (Sharded_Update id (world_repo sample_pool 0 sample_copied) sample_payment) (with_faults fs sample_copied))"

definition sample_done :: "db_fault list \<Rightarrow> mig_world" where
  "sample_done fs = snd (Poll_migration (world_worker ''k'') (with_faults [] (sample_paid fs)))"

lemma sample_migration:
  "map_option row_status (primary_row sample_fallback 4096 (sample_paid [])) = Some StatusPaid"
  "map loc_of (md_mappings (sample_done [])) = [(''b'', ''t0'')]"
  "map_option row_status (primary_row sample_fallback 4096 (sample_paid [Works, Works, Refused])) = Some StatusPaid"
  "map_option row_status (primary_row sample_fallback 4096 (sample_done [Works, Works, Refused])) = Some StatusNoPay"
  by code_simp+

lemma sample_start: "mig_start sample_fallback sample_core sample_pool sample_world"
proof -
  have "x smod 1 = 0" for x :: int by (simp add: signed_modulo_int_def)
  then have shard: "shard_of sample_fallback n = 0" for n
    by (simp add: shard_of_def sample_fallback_def routeVirtualShard_def NewMappingOrderRouter_def NewGeneOrderRouter_def Gene_RouteOrder_def tableCount_def
        gene_location_def atLeastOne_def wrap64_id in64_def Let_def)
  have cell: "cellw l n sample_world = (if l = (''a'', ''t0'') \<and> n = 4096 then Some (order_values id sample_sharded_order) else None)" for l n
    by (auto simp: cellw_def cell_def sample_world_def)
  have core: "row_core (order_values id sample_sharded_order) = sample_core 4096"
    by (simp add: sample_core_def sample_sharded_order_def Order_New_def)
  have "\<And>l t. od_tables (md_orders sample_world) l = Some t \<Longrightarrow> distinct (map fst t)" by (auto simp: sample_world_def split: if_splits)
  then have "rows_ok sample_core sample_world" using core by (simp add: rows_ok_def cell)
  moreover have "primary_holds sample_fallback sample_world"
    unfolding primary_holds_def cell by (simp add: sample_world_def loc_of_def)
  moreover have "mappings_ok sample_world"
    by (simp add: mappings_ok_def mapping_wf_def sample_world_def locs_of_def loc_of_def shadow_of_def named_def is_ident_def ident_char_def)
  moreover have "pooled sample_pool sample_world"
    unfolding pooled_def by (auto simp: sample_world_def sample_pool_def Resolve_def split: if_splits)
  ultimately show ?thesis by (simp add: mig_start_def mapped_def shard) (simp add: sample_world_def)
qed

lemma sample_steps:
  "(mig_step id sample_core sample_pool)\<^sup>*\<^sup>* sample_world (sample_paid [])" "(mig_step id sample_core sample_pool)\<^sup>*\<^sup>* (sample_paid []) (sample_done [])"
proof -
  let ?S = "mig_step id sample_core sample_pool"
  have p: "proper_order id sample_core sample_payment" "ord_Status sample_payment \<in> {StatusPaid, StatusCancel, StatusRefund}"
    unfolding proper_order_def by code_simp+
  have "?S sample_world sample_created" unfolding sample_created_def by (rule mig_step.create) (simp_all add: sample_world_def)
  moreover have "gw_now sample_created \<le> 150000000000" by code_simp
  then have "?S sample_created (sample_created\<lparr>gw_now := 150000000000\<rparr>)" by (rule mig_step.tick)
  moreover have "?S (sample_created\<lparr>gw_now := 150000000000\<rparr>) (snd (refresh_router 0 (with_faults [] (sample_created\<lparr>gw_now := 150000000000\<rparr>))))"
    by (rule mig_step.refresh) simp
  moreover have "?S (snd (refresh_router 0 (with_faults [] (sample_created\<lparr>gw_now := 150000000000\<rparr>)))) sample_copied"
    unfolding sample_copied_def by (rule mig_step.poll) simp
  moreover have "?S sample_copied (sample_paid [])" unfolding sample_paid_def by (rule mig_step.update [OF p])
  ultimately show "?S\<^sup>*\<^sup>* sample_world (sample_paid [])" by (meson converse_rtranclp_into_rtranclp rtranclp.rtrancl_refl)
  have "?S (sample_paid []) (sample_done [])" unfolding sample_done_def by (rule mig_step.poll) simp
  then show "?S\<^sup>*\<^sup>* (sample_paid []) (sample_done [])" by blast
qed

text \<open>
  C7. A migration neither loses nor reverts an order: whatever order services save and update while tasks are created, refused,
  resumed, copied and cut over, the row of an order at the primary location of its shard stays there, keeps its
  columns, and its status only goes along the order's transitions. In particular at the cut-over the new primary location
  has the row as the old one had it.
\<close>

theorem migration_keeps_orders:
  assumes "mig_start F core pool w0" and "(mig_step dt core pool)\<^sup>*\<^sup>* w0 w" and "(mig_step dt core pool)\<^sup>*\<^sup>* w w'" and "primary_row F n w = Some r"
  shows "\<exists>r'. primary_row F n w' = Some r' \<and> row_evolves r r'"
  using reachable_inv [OF assms(1,2)] steps_good [OF assms(3), of F] assms(4) by (auto simp: good_step_def rows_go_on_def)

theorem migration_keeps_orders_witness:
  "map loc_of (md_mappings (sample_done [])) = [(''b'', ''t0'')]
   \<and> (\<exists>r r'. primary_row sample_fallback 4096 (sample_paid []) = Some r \<and> row_status r = StatusPaid
        \<and> primary_row sample_fallback 4096 (sample_done []) = Some r' \<and> row_evolves r r')"
proof -
  from sample_migration(1) obtain r where r: "primary_row sample_fallback 4096 (sample_paid []) = Some r" "row_status r = StatusPaid" by auto
  from migration_keeps_orders [OF sample_start sample_steps r(1)] r sample_migration(2) show ?thesis by blast
qed

text \<open>
  C37. The tables of the migration service stay well formed through every step: each mapping names existing tables and has a shadow
  exactly when it is written twice, no location belongs to two virtual shards, and each task that is not done is the
  only one of its virtual shard, whose mapping has the task's source as primary location and its target as shadow.
\<close>

theorem control_tables_wf:
  assumes "mig_start F core pool w" and "(mig_step dt core pool)\<^sup>*\<^sup>* w w'"
  shows "control_ok w'"
  using reachable_inv [OF assms] by (simp add: mig_inv_def)

theorem control_tables_wf_witness: "control_ok (sample_paid []) \<and> md_tasks (sample_paid []) \<noteq> []"
proof -
  have "md_tasks (sample_paid []) \<noteq> []" by code_simp
  with control_tables_wf [OF sample_start sample_steps(1)] show ?thesis by blast
qed

section \<open>A refused shadow write\<close>

end
