(* ===== verification/Privacy.thy ===== *)
theory Privacy
  imports Events Go_Base64
begin

text \<open>
  Private fields (\<open>src/pkg/privacy\<close>) and access tokens (\<open>src/pkg/auth\<close>). Private fields are normalised, encrypted with
  authenticated encryption under a versioned key, looked up by a keyed hash, and shown masked. Tokens are signed.

  The cryptographic primitives are a parameter, the record \<open>crypto\<close>; what is relied on is that opening a sealed
  text with the same key and additional data gives the text back, and that a sealed text is not empty. The random nonce of
  a sealing is an argument. The text form of JSON documents is a parameter as well. Texts are ASCII here: a rune is a
  byte, and letters and white space are those of ASCII.
\<close>

section \<open>Fields\<close>

definition lower :: "char \<Rightarrow> char" where
  "lower c = (if 65 \<le> (of_char c :: nat) \<and> (of_char c :: nat) \<le> 90 then char_of ((of_char c :: nat) + 32) else c)"

definition to_lower :: "string \<Rightarrow> string" where
  "to_lower = map lower"

definition NormalizeMobile :: "string \<Rightarrow> string" where
  "NormalizeMobile = trim_space"

definition NormalizeCertificate :: "string \<Rightarrow> string" where
  "NormalizeCertificate value = to_upper (filter (\<lambda>r. \<not> is_space r) value)"

definition NormalizeName :: "string \<Rightarrow> string" where
  "NormalizeName = trim_space"

definition NormalizeEmail :: "string \<Rightarrow> string" where
  "NormalizeEmail value = to_lower (trim_space value)"

abbreviation stars :: "nat \<Rightarrow> string" where
  "stars n \<equiv> replicate n (CHR ''*'')"

definition maskMiddle :: "string \<Rightarrow> nat \<Rightarrow> nat \<Rightarrow> string" where
  "maskMiddle value prefix suffix =
     (if length value = 0 then []
      else if length value \<le> prefix + suffix then stars (length value)
      else take prefix value @ stars (length value - prefix - suffix) @ drop (length value - suffix) value)"

definition MaskMobile :: "string \<Rightarrow> string" where
  "MaskMobile value =
     (let runes = NormalizeMobile value in
      if length runes = 11 then take 3 runes @ stars 4 @ drop 7 runes else maskMiddle runes 2 2)"

definition MaskCertificate :: "string \<Rightarrow> string" where
  "MaskCertificate value = maskMiddle (NormalizeCertificate value) 4 4"

definition MaskName :: "string \<Rightarrow> string" where
  "MaskName value =
     (let runes = NormalizeName value in
      if length runes = 0 then [] else if length runes = 1 then ''*'' else take 1 runes @ stars (length runes - 1))"

definition MaskEmail :: "string \<Rightarrow> string" where
  "MaskEmail value =
     (let value = NormalizeEmail value in
      if CHR ''@'' \<notin> set value then maskMiddle value 2 1
      else let local = takeWhile (\<lambda>c. c \<noteq> CHR ''@'') value; domain = tl (dropWhile (\<lambda>c. c \<noteq> CHR ''@'') value) in
        if length local \<le> 2 then stars (length local) @ ''@'' @ domain
        else take 2 local @ stars (length local - 2) @ ''@'' @ domain)"

section \<open>The protector\<close>

record crypto =
  cr_seal :: "string \<Rightarrow> string \<Rightarrow> string \<Rightarrow> string \<Rightarrow> string"
  cr_open :: "string \<Rightarrow> string \<Rightarrow> string \<Rightarrow> string option"
  cr_hmac :: "string \<Rightarrow> string \<Rightarrow> string"
  cr_sha256 :: "string \<Rightarrow> string"

definition crypto_ok :: "crypto \<Rightarrow> bool" where
  "crypto_ok C \<longleftrightarrow> (\<forall>key nonce text ad. cr_seal C key nonce text ad \<noteq> [] \<and> cr_open C key (cr_seal C key nonce text ad) ad = Some text)"

record Protector =
  pt_activeVersion :: string
  pt_keys :: "string \<rightharpoonup> string"
  pt_lookupKey :: string

text \<open>\<open>base64.StdEncoding\<close>: the standard alphabet with padding.\<close>

definition b64_std_val :: "char \<Rightarrow> nat option" where
  "b64_std_val c = map_of (zip ''ABCDEFGHIJKLMNOPQRSTUVWXYZabcdefghijklmnopqrstuvwxyz0123456789+/'' [0..<64]) c"

definition b64_std_decode :: "string \<Rightarrow> string option" where
  "b64_std_decode s =
     (let cs = filter (\<lambda>c. c \<noteq> CHR 0x0A \<and> c \<noteq> CHR 0x0D) s;
          data = takeWhile (\<lambda>c. c \<noteq> CHR ''='') cs;
          padding = dropWhile (\<lambda>c. c \<noteq> CHR ''='') cs
      in if length cs mod 4 \<noteq> 0 \<or> padding \<notin> {[], ''='', ''==''} \<or> list_ex (\<lambda>c. b64_std_val c = None) data then None
         else map_option (map char_of) (octets (map (the \<circ> b64_std_val) data)))"

definition decodeKey :: "string \<Rightarrow> string option" where
  "decodeKey encoded = b64_std_decode (trim_space encoded)"

text \<open>The loop over the configured keys, in the order in which the map of keys is traversed.\<close>

fun decode_keys :: "(string \<times> string) list \<Rightarrow> (string \<rightharpoonup> string) \<Rightarrow> error + (string \<rightharpoonup> string)" where
  "decode_keys [] keys = Inr keys"
| "decode_keys ((version, encoded) # rest) keys =
     (let version = trim_space version in case decodeKey encoded of
        None \<Rightarrow> Inl (PlainError (''decode privacy encryption key '' @ version))
      | Some key \<Rightarrow>
          if length key \<noteq> 32 then Inl (PlainError (''privacy encryption key '' @ version @ '' must be 32 bytes''))
          else decode_keys rest (keys(version \<mapsto> key)))"

definition NewProtector :: "string \<Rightarrow> (string \<times> string) list \<Rightarrow> string \<Rightarrow> error + Protector" where
  "NewProtector activeVersion encodedKeys encodedLookupKey =
     (let activeVersion = trim_space activeVersion in
      if activeVersion = [] then Inl (PlainError ''privacy active key version is required'')
      else case decode_keys encodedKeys Map.empty of
        Inl e \<Rightarrow> Inl e
      | Inr keys \<Rightarrow>
          if keys activeVersion = None then Inl (PlainError (''privacy active encryption key '' @ activeVersion @ '' is not configured''))
          else case decodeKey encodedLookupKey of
            None \<Rightarrow> Inl (PlainError ''decode privacy lookup key'')
          | Some lookupKey \<Rightarrow>
              if length lookupKey < 32 then Inl (PlainError ''privacy lookup key must be at least 32 bytes'')
              else Inr \<lparr>pt_activeVersion = activeVersion, pt_keys = keys, pt_lookupKey = lookupKey\<rparr>)"

definition aead :: "Protector \<Rightarrow> string \<Rightarrow> error + string" where
  "aead p version = (case pt_keys p (trim_space version) of
     None \<Rightarrow> Inl (PlainError (''privacy encryption key '' @ version @ '' is not configured''))
   | Some key \<Rightarrow> if length key \<in> {16, 24, 32} then Inr key else Inl (PlainError ''crypto/aes: invalid key size''))"

definition Encrypt :: "crypto \<Rightarrow> string \<Rightarrow> Protector \<Rightarrow> string \<Rightarrow> string \<Rightarrow> error + (string \<times> string)" where
  "Encrypt C nonce p plaintext additionalData =
     (if plaintext = [] then Inr ([], pt_activeVersion p)
      else case aead p (pt_activeVersion p) of
        Inl e \<Rightarrow> Inl e
      | Inr key \<Rightarrow> Inr (cr_seal C key nonce plaintext additionalData, pt_activeVersion p))"

definition Decrypt :: "crypto \<Rightarrow> Protector \<Rightarrow> string \<Rightarrow> string \<Rightarrow> string \<Rightarrow> error + string" where
  "Decrypt C p ciphertext version additionalData =
     (if ciphertext = [] then Inr []
      else case aead p version of
        Inl e \<Rightarrow> Inl e
      | Inr key \<Rightarrow> (case cr_open C key ciphertext additionalData of
          None \<Rightarrow> Inl (PlainError ''decrypt private field'')
        | Some plaintext \<Rightarrow> Inr plaintext))"

definition Lookup :: "crypto \<Rightarrow> Protector \<Rightarrow> string \<Rightarrow> string" where
  "Lookup C p value = cr_hmac C (pt_lookupKey p) value"

section \<open>Tokens\<close>

type_synonym json_text = "(json \<Rightarrow> string) \<times> (string \<Rightarrow> json option)"

record Claims =
  cl_UserID :: int64
  cl_Role :: string
  cl_ExpiresAt :: int64

definition marshal_claims :: "Claims \<Rightarrow> json" where
  "marshal_claims c = JObj [(''user_id'', JInt (cl_UserID c)), (''role'', JStr (cl_Role c)), (''exp'', JInt (cl_ExpiresAt c))]"

definition unmarshal_claims :: "json \<Rightarrow> Claims option" where
  "unmarshal_claims d = (case d of
     JObj fs \<Rightarrow> (case (get_int (field ''user_id'' fs), get_str (field ''role'' fs), get_int (field ''exp'' fs)) of
       (Some u, Some r, Some e) \<Rightarrow> Some \<lparr>cl_UserID = u, cl_Role = r, cl_ExpiresAt = e\<rparr> | _ \<Rightarrow> None)
   | JNull \<Rightarrow> Some \<lparr>cl_UserID = 0, cl_Role = [], cl_ExpiresAt = 0\<rparr>
   | _ \<Rightarrow> None)"

definition token_header :: json where
  "token_header = JObj [(''alg'', JStr ''HS256''), (''typ'', JStr ''JWT'')]"

definition unmarshal_header :: "json \<Rightarrow> (string \<times> string) option" where
  "unmarshal_header d = (case d of
     JObj fs \<Rightarrow> (case (get_str (field ''alg'' fs), get_str (field ''typ'' fs)) of (Some a, Some t) \<Rightarrow> Some (a, t) | _ \<Rightarrow> None)
   | JNull \<Rightarrow> Some ([], [])
   | _ \<Rightarrow> None)"

definition sign :: "crypto \<Rightarrow> string \<Rightarrow> string \<Rightarrow> string" where
  "sign C secret body = b64_encode (cr_hmac C secret body)"

definition Generate :: "crypto \<Rightarrow> json_text \<Rightarrow> string \<Rightarrow> Claims \<Rightarrow> string" where
  "Generate C J secret claims =
     (let body = b64_encode (fst J token_header) @ ''.'' @ b64_encode (fst J (marshal_claims claims))
      in body @ ''.'' @ sign C secret body)"

text \<open>\<open>nowUnix\<close> is the present time in seconds.\<close>

definition Parse :: "crypto \<Rightarrow> json_text \<Rightarrow> string \<Rightarrow> int64 \<Rightarrow> string \<Rightarrow> error + Claims" where
  "Parse C J secret nowUnix token = (case split_on (CHR ''.'') token of
     [part0, part1, part2] \<Rightarrow>
       if sign C secret (part0 @ ''.'' @ part1) \<noteq> part2 then Inl (PlainError ''invalid token signature'')
       else (case b64_decode part0 of
         None \<Rightarrow> Inl (PlainError ''illegal base64 data'')
       | Some rawHeader \<Rightarrow> (case Option.bind (snd J rawHeader) unmarshal_header of
           None \<Rightarrow> Inl (PlainError ''invalid JSON'')
         | Some (algorithm, type) \<Rightarrow>
             if algorithm \<noteq> ''HS256'' \<or> type \<noteq> ''JWT'' then Inl (PlainError ''unsupported token header'')
             else (case b64_decode part1 of
               None \<Rightarrow> Inl (PlainError ''illegal base64 data'')
             | Some raw \<Rightarrow> (case Option.bind (snd J raw) unmarshal_claims of
                 None \<Rightarrow> Inl (PlainError ''invalid JSON'')
               | Some claims \<Rightarrow>
                   if cl_ExpiresAt claims > 0 \<and> cl_ExpiresAt claims < nowUnix then Inl (PlainError ''token expired'') else Inr claims))))
   | _ \<Rightarrow> Inl (PlainError ''invalid token''))"

section \<open>Facts\<close>

lemma trim_idem: "trim p (trim p s) = trim p s"
proof -
  have first: "dropWhile p (trim p s) = trim p s"
  proof (cases "trim p s = []")
    case False
    let ?t = "dropWhile p s"
    from False have "?t \<noteq> []" by (auto simp: trim_def dest: set_dropWhileD)
    then have h: "\<not> p (hd ?t)" by (rule hd_dropWhile)
    have "trim p s @ rev (takeWhile p (rev ?t)) = ?t" by (simp add: trim_def flip: rev_append)
    then have "hd (trim p s) = hd ?t" using False by (metis hd_append2)
    with h False show ?thesis by (cases "trim p s") auto
  qed simp
  have "dropWhile p (rev (trim p s)) = rev (trim p s)"
    by (simp add: trim_def)
  with first show ?thesis by (metis rev_rev_ident trim_def)
qed

lemma trim_space_idem [simp]: "trim_space (trim_space s) = trim_space s"
  by (simp add: trim_space_def trim_idem)

lemma decode_keys_size:
  "decode_keys ks m = Inr m' \<Longrightarrow> (\<And>v k. m v = Some k \<Longrightarrow> length k = 32) \<Longrightarrow> m' v = Some k \<Longrightarrow> length k = 32"
proof (induction ks m rule: decode_keys.induct)
  case (2 version encoded rest keys)
  from 2(2) obtain key where key: "decodeKey encoded = Some key" "length key = 32" "decode_keys rest (keys(trim_space version \<mapsto> key)) = Inr m'"
    by (auto simp: Let_def split: option.splits if_splits)
  show ?case by (rule 2(1) [OF refl key(1) _ key(3)]) (use key(2) 2(3,4) in \<open>auto split: if_splits\<close>)
qed simp

lemma private_field_round_trip:
  assumes "crypto_ok C" and "NewProtector v ks lk = Inr P" and "pt_keys P' (pt_activeVersion P) = pt_keys P (pt_activeVersion P)"
  shows "\<exists>c. Encrypt C nonce P text ad = Inr (c, pt_activeVersion P) \<and> Decrypt C P' c (pt_activeVersion P) ad = Inr text
    \<and> (c = [] \<longleftrightarrow> text = [])"
proof -
  from assms(2) obtain keys k where P: "pt_activeVersion P = trim_space v" "pt_keys P = keys" "decode_keys ks Map.empty = Inr keys" "keys (trim_space v) = Some k"
    by (auto simp: NewProtector_def Let_def split: if_splits sum.splits option.splits)
  have "length k = 32" using decode_keys_size [OF P(3) _ P(4)] by simp
  with P assms(1,3) show ?thesis by (auto simp: Encrypt_def Decrypt_def aead_def crypto_ok_def)
qed

text \<open>Tokens. The text form of the two documents of a token is read back as it was written.\<close>

definition token_text_ok :: "json_text \<Rightarrow> bool" where
  "token_text_ok J \<longleftrightarrow> snd J (fst J token_header) = Some token_header \<and> (\<forall>c. snd J (fst J (marshal_claims c)) = Some (marshal_claims c))"

lemma b64_no_dot: "CHR ''.'' \<notin> set (b64_encode s)"
proof -
  have "list_all (\<lambda>n. b64_char n \<noteq> CHR ''.'') [0..<64]" by code_simp
  then have "b64_char n \<noteq> CHR ''.''" if "n < 64" for n using that by (simp add: list_all_iff)
  with sextets_less [of "map of_char s"] show ?thesis by (fastforce simp: b64_encode_def)
qed

lemma token_round_trip:
  assumes "token_text_ok J" and "in64 (cl_UserID claims)" and "in64 (cl_ExpiresAt claims)" and "cl_ExpiresAt claims \<le> 0 \<or> nowUnix \<le> cl_ExpiresAt claims"
  shows "Parse C J secret nowUnix (Generate C J secret claims) = Inr claims"
proof -
  let ?h = "b64_encode (fst J token_header)" and ?p = "b64_encode (fst J (marshal_claims claims))"
  have s: "split_on (CHR ''.'') (Generate C J secret claims) = [?h, ?p, sign C secret (?h @ ''.'' @ ?p)]"
    by (simp add: Generate_def Let_def split_on_append split_on_plain b64_no_dot sign_def)
  have h: "unmarshal_header token_header = Some (''HS256'', ''JWT'')"
    by (simp add: unmarshal_header_def token_header_def field_def get_str_def)
  have c: "unmarshal_claims (marshal_claims claims) = Some claims"
    using assms(2,3) by (simp add: unmarshal_claims_def marshal_claims_def field_def get_str_def get_int_def)
  show ?thesis using assms s h c by (auto simp: Parse_def b64_round_trip token_text_ok_def)
qed

lemma token_accepted_signed:
  assumes "Parse C J secret nowUnix token = Inr claims"
  shows "\<exists>part0 part1. split_on (CHR ''.'') token = [part0, part1, sign C secret (part0 @ ''.'' @ part1)]
    \<and> (cl_ExpiresAt claims \<le> 0 \<or> nowUnix \<le> cl_ExpiresAt claims)"
  using assms by (auto simp: Parse_def split: list.splits if_splits option.splits)
end
