(* ===== verification/User_Accounts.thy ===== *)
theory User_Accounts
  imports Privacy Order_Tables
begin

text \<open>
  Users (\<open>src/app/user-service/internal\<close>): registration, login, and the persons tickets are issued to. The use cases
  are functions of their ports; both repositories are modelled. The MySQL tables keep mobile numbers encrypted, with a
  keyed hash under a unique index; statements take the next fault of the database, as in \<open>Order_Tables\<close>. Random nonces
  come from a supply that is part of the state, passwords are hashed by a port.
\<close>

section \<open>The domain\<close>

record User =
  us_ID :: int64
  us_Mobile :: string
  us_PasswordHash :: string
  us_Email :: string
  us_RealNameStatus :: string
  us_CreatedAt :: time

definition NewUser :: "int64 \<Rightarrow> string \<Rightarrow> string \<Rightarrow> time \<Rightarrow> User" where
  "NewUser i mobile passwordHash now = \<lparr>us_ID = i, us_Mobile = mobile, us_PasswordHash = passwordHash, us_Email = [],
     us_RealNameStatus = ''unverified'', us_CreatedAt = now\<rparr>"

definition MarkRealNameVerified :: "User \<Rightarrow> User" where
  "MarkRealNameVerified u = u\<lparr>us_RealNameStatus := ''verified''\<rparr>"

record TicketUser =
  tu_ID :: int64
  tu_UserID :: int64
  tu_Name :: string
  tu_CertificateNo :: string
  tu_Mobile :: string

definition BelongsTo :: "TicketUser \<Rightarrow> int64 \<Rightarrow> bool" where
  "BelongsTo t userID \<longleftrightarrow> tu_UserID t = userID"

section \<open>The use cases\<close>

datatype MobileLookupState = MobileLookupUnknown | MobileLookupAbsent | MobileLookupMayExist

record RegistrationAttempt =
  ra_Mobile :: string
  ra_ClientIP :: string
  ra_CaptchaID :: string
  ra_CaptchaAnswer :: string

record RegisterCaptcha =
  rc_ID :: string
  rc_Image :: string
  rc_ExpiresIn :: duration

record 'w registration_guard =
  rg_Check :: "RegistrationAttempt \<Rightarrow> ('w, unit) go"
  rg_IssueCaptcha :: "string \<Rightarrow> string \<Rightarrow> ('w, RegisterCaptcha) go"
  rg_LookupMobile :: "string \<Rightarrow> ('w, MobileLookupState) go"
  rg_MarkRegistered :: "string \<Rightarrow> ('w, unit) go"

definition NoopRegistrationGuard :: "'w registration_guard" where
  "NoopRegistrationGuard = \<lparr>rg_Check = (\<lambda>_. returnG ()),
     rg_IssueCaptcha = (\<lambda>_ _. failG (New CodeInfrastructure ''registration protection is disabled'')),
     rg_LookupMobile = (\<lambda>_. returnG MobileLookupUnknown), rg_MarkRegistered = (\<lambda>_. returnG ())\<rparr>"

record 'w UserCommandService =
  uc_NextID :: "('w, int64) go"
  uc_SaveUser :: "User \<Rightarrow> ('w, unit) go"
  uc_FindByID :: "int64 \<Rightarrow> ('w, User) go"
  uc_FindByMobile :: "string \<Rightarrow> ('w, User) go"
  uc_ticketUsers :: "((TicketUser \<Rightarrow> ('w, unit) go) \<times> (int64 \<Rightarrow> ('w, TicketUser list) go)) option"
  uc_Hash :: "string \<Rightarrow> ('w, string) go"
  uc_Compare :: "string \<Rightarrow> string \<Rightarrow> bool"
  uc_Generate :: "(Claims \<Rightarrow> error + string) option"
  uc_now :: "'w \<Rightarrow> time"
  uc_adminMobiles :: "string list"
  uc_guard :: "'w registration_guard"

definition WithAdminMobiles :: "string list \<Rightarrow> 'w UserCommandService \<Rightarrow> 'w UserCommandService" where
  "WithAdminMobiles mobiles S = S\<lparr>uc_adminMobiles := filter (\<lambda>m. m \<noteq> []) (map trim_space mobiles)\<rparr>"

record RegisterCommand =
  rgc_Mobile :: string
  rgc_Password :: string
  rgc_ClientIP :: string
  rgc_CaptchaID :: string
  rgc_CaptchaAnswer :: string

text \<open>The part of \<open>Register\<close> after the check that the mobile is free.\<close>

definition register_new :: "'w UserCommandService \<Rightarrow> string \<Rightarrow> string \<Rightarrow> ('w, User) go" where
  "register_new S mobile password =
     bindG (uc_NextID S) (\<lambda>i.
     bindG (uc_Hash S password) (\<lambda>hash.
     bindG (getG (uc_now S)) (\<lambda>now.
     let registered = NewUser i mobile hash now in
     attemptG (uc_SaveUser S registered) (\<lambda>r. case r of
       Inl e \<Rightarrow>
         if IsCode (Some e) CodeConflict then attemptG (rg_MarkRegistered (uc_guard S) mobile) (\<lambda>_. failG e) else failG e
     | Inr _ \<Rightarrow> attemptG (rg_MarkRegistered (uc_guard S) mobile) (\<lambda>_. returnG registered)))))"

definition Register :: "'w UserCommandService \<Rightarrow> RegisterCommand \<Rightarrow> ('w, User) go" where
  "Register S cmd =
     (let mobile = trim_space (rgc_Mobile cmd) in
      if mobile = [] \<or> trim_space (rgc_Password cmd) = [] then failG (New CodeInvalidArgument ''mobile and password are required'')
      else bindG (rg_Check (uc_guard S) \<lparr>ra_Mobile = mobile, ra_ClientIP = trim_space (rgc_ClientIP cmd),
          ra_CaptchaID = trim_space (rgc_CaptchaID cmd), ra_CaptchaAnswer = trim_space (rgc_CaptchaAnswer cmd)\<rparr>) (\<lambda>_.
        attemptG (rg_LookupMobile (uc_guard S) mobile) (\<lambda>r.
          let lookupState = (case r of Inl _ \<Rightarrow> MobileLookupUnknown | Inr state \<Rightarrow> state) in
          if lookupState \<noteq> MobileLookupAbsent then
            attemptG (uc_FindByMobile S mobile) (\<lambda>r. case r of
              Inr _ \<Rightarrow> failG (New CodeConflict ''mobile already registered'')
            | Inl e \<Rightarrow> if \<not> IsCode (Some e) CodeNotFound then failG e else register_new S mobile (rgc_Password cmd))
          else register_new S mobile (rgc_Password cmd))))"

definition CreateRegisterCaptcha :: "'w UserCommandService \<Rightarrow> string \<Rightarrow> string \<Rightarrow> ('w, RegisterCaptcha) go" where
  "CreateRegisterCaptcha S mobile clientIP =
     (let mobile = trim_space mobile in
      if mobile = [] then failG (New CodeInvalidArgument ''mobile is required'')
      else rg_IssueCaptcha (uc_guard S) mobile (trim_space clientIP))"

definition Login :: "'w UserCommandService \<Rightarrow> string \<Rightarrow> string \<Rightarrow> ('w, string \<times> User) go" where
  "Login S mobile password =
     (let mobile = trim_space mobile in
      if mobile = [] \<or> trim_space password = [] then failG (New CodeInvalidArgument ''mobile and password are required'')
      else bindG (uc_FindByMobile S mobile) (\<lambda>current.
        if \<not> uc_Compare S (us_PasswordHash current) password then failG (New CodeUnauthenticated ''invalid mobile or password'')
        else case uc_Generate S of
          None \<Rightarrow> returnG ([], current)
        | Some generate \<Rightarrow> bindG (getG (uc_now S)) (\<lambda>now.
            let role = (if us_Mobile current \<in> set (uc_adminMobiles S) then ''admin'' else ''user'') in
            case generate \<lparr>cl_UserID = us_ID current, cl_Role = role, cl_ExpiresAt = (now + 24 * 3600 * 1000000000) div 1000000000\<rparr> of
              Inl e \<Rightarrow> failG e
            | Inr token \<Rightarrow> returnG (token, current))))"

definition GetUser :: "'w UserCommandService \<Rightarrow> int64 \<Rightarrow> ('w, User) go" where
  "GetUser S userID = (if userID \<le> 0 then failG (New CodeInvalidArgument ''user_id is required'') else uc_FindByID S userID)"

definition ListTicketUsers :: "'w UserCommandService \<Rightarrow> int64 \<Rightarrow> ('w, TicketUser list) go" where
  "ListTicketUsers S userID = (case uc_ticketUsers S of
     None \<Rightarrow> failG (New CodeInfrastructure ''ticket user repository is not configured'')
   | Some (_, ListByUserID) \<Rightarrow>
       if userID \<le> 0 then failG (New CodeInvalidArgument ''user_id is required'') else ListByUserID userID)"

record AddTicketUserCommand =
  at_UserID :: int64
  at_Name :: string
  at_CertificateNo :: string
  at_Mobile :: string

definition AddTicketUser :: "'w UserCommandService \<Rightarrow> AddTicketUserCommand \<Rightarrow> ('w, TicketUser) go" where
  "AddTicketUser S cmd = (case uc_ticketUsers S of
     None \<Rightarrow> failG (New CodeInfrastructure ''ticket user repository is not configured'')
   | Some (Save, _) \<Rightarrow>
       if at_UserID cmd \<le> 0 \<or> trim_space (at_Name cmd) = [] \<or> trim_space (at_CertificateNo cmd) = []
       then failG (New CodeInvalidArgument ''user_id, name and certificate_no are required'')
       else bindG (uc_NextID S) (\<lambda>i.
         let item = \<lparr>tu_ID = i, tu_UserID = at_UserID cmd, tu_Name = trim_space (at_Name cmd),
                     tu_CertificateNo = trim_space (at_CertificateNo cmd), tu_Mobile = trim_space (at_Mobile cmd)\<rparr> in
         bindG (Save item) (\<lambda>_. returnG item)))"

section \<open>The in-memory repositories\<close>

record UserRepository =
  mu_byID :: "int64 \<rightharpoonup> User"
  mu_byMobile :: "string \<rightharpoonup> int64"

abbreviation no_user :: User where
  "no_user \<equiv> \<lparr>us_ID = 0, us_Mobile = [], us_PasswordHash = [], us_Email = [], us_RealNameStatus = [], us_CreatedAt = 0\<rparr>"

definition MemUser_Save :: "User \<Rightarrow> (UserRepository, unit) go" where
  "MemUser_Save item r = (Inr (), r\<lparr>mu_byID := (mu_byID r)(us_ID item \<mapsto> item), mu_byMobile := (mu_byMobile r)(us_Mobile item \<mapsto> us_ID item)\<rparr>)"

definition MemUser_FindByID :: "int64 \<Rightarrow> (UserRepository, User) go" where
  "MemUser_FindByID i r = (case mu_byID r i of None \<Rightarrow> (Inl (New CodeNotFound ''user not found''), r) | Some item \<Rightarrow> (Inr item, r))"

definition MemUser_FindByMobile :: "string \<Rightarrow> (UserRepository, User) go" where
  "MemUser_FindByMobile mobile r = (case mu_byMobile r mobile of
     None \<Rightarrow> (Inl (New CodeNotFound ''user not found''), r)
   | Some i \<Rightarrow> (Inr (case mu_byID r i of None \<Rightarrow> no_user | Some item \<Rightarrow> item), r))"

type_synonym TicketUserRepository = "int64 \<Rightarrow> TicketUser list"

definition MemTicketUser_Save :: "TicketUser \<Rightarrow> (TicketUserRepository, unit) go" where
  "MemTicketUser_Save item r =
     (let items = r (tu_UserID item) in
      (Inr (), r(tu_UserID item := (case find (\<lambda>i. tu_ID (items ! i) = tu_ID item) [0..<length items] of
         Some index \<Rightarrow> items[index := item] | None \<Rightarrow> items @ [item]))))"

definition MemTicketUser_ListByUserID :: "int64 \<Rightarrow> (TicketUserRepository, TicketUser list) go" where
  "MemTicketUser_ListByUserID userID r = (Inr (r userID), r)"

section \<open>The MySQL repositories\<close>

record user_row =
  ur_id :: int64
  ur_mobile_ciphertext :: string
  ur_mobile_lookup :: string
  ur_password_hash :: string
  ur_email_ciphertext :: "string option"
  ur_email_lookup :: "string option"
  ur_privacy_key_version :: string
  ur_real_name_status :: string
  ur_created_at :: time

record ticket_user_row =
  tr_id :: int64
  tr_user_id :: int64
  tr_name_ciphertext :: string
  tr_certificate_ciphertext :: string
  tr_certificate_lookup :: string
  tr_mobile_ciphertext :: "string option"
  tr_privacy_key_version :: string

record user_db =
  ud_users :: "user_row list"
  ud_ticket_users :: "ticket_user_row list"
  ud_faults :: "db_fault list"
  ud_error :: error
  ud_nonces :: "nat \<Rightarrow> string"
  ud_used :: nat

text \<open>A statement; \<open>None\<close> is MySQL's error 1062, a duplicate key.\<close>

definition user_run :: "('z user_db_scheme \<Rightarrow> ('a \<times> 'z user_db_scheme) option) \<Rightarrow> ('z user_db_scheme, 'a option) go" where
  "user_run stmt s =
     (let fault = (case ud_faults s of [] \<Rightarrow> Works | f # _ \<Rightarrow> f); s1 = s\<lparr>ud_faults := tl (ud_faults s)\<rparr> in
      if fault = Refused then (Inl (ud_error s), s1)
      else case stmt s1 of
        None \<Rightarrow> (if fault = ReplyLost then Inl (ud_error s) else Inr None, s1)
      | Some (a, s2) \<Rightarrow> (if fault = ReplyLost then Inl (ud_error s) else Inr (Some a), s2))"

definition privateAAD :: "string \<Rightarrow> string \<Rightarrow> int64 \<Rightarrow> string" where
  "privateAAD table column i = table @ '':'' @ column @ '':'' @ show_int i"

definition lookupOptional :: "crypto \<Rightarrow> Protector \<Rightarrow> string \<Rightarrow> string" where
  "lookupOptional C P value = (if value = [] then [] else Lookup C P value)"

definition nullBytes :: "string \<Rightarrow> string option" where
  "nullBytes value = (if value = [] then None else Some value)"

text \<open>\<open>protector.Encrypt\<close> with the next nonce of the supply; an error is wrapped.\<close>

definition encrypt_field :: "crypto \<Rightarrow> Protector \<Rightarrow> string \<Rightarrow> string \<Rightarrow> string \<Rightarrow> ('z user_db_scheme, string \<times> string) go" where
  "encrypt_field C P message plaintext ad s = (case Encrypt C (ud_nonces s (ud_used s)) P plaintext ad of
     Inl e \<Rightarrow> (Inl (Wrap CodeInfrastructure message e), s\<lparr>ud_used := Suc (ud_used s)\<rparr>)
   | Inr r \<Rightarrow> (Inr r, s\<lparr>ud_used := Suc (ud_used s)\<rparr>))"

definition decrypt_field :: "crypto \<Rightarrow> Protector \<Rightarrow> string \<Rightarrow> string \<Rightarrow> string \<Rightarrow> string \<Rightarrow> error + string" where
  "decrypt_field C P message ciphertext version ad = (case Decrypt C P ciphertext version ad of
     Inl e \<Rightarrow> Inl (Wrap CodeInfrastructure message e) | Inr t \<Rightarrow> Inr t)"

definition insert_user :: "user_row \<Rightarrow> 'z user_db_scheme \<Rightarrow> (unit \<times> 'z user_db_scheme) option" where
  "insert_user row s =
     (if list_ex (\<lambda>r. ur_id r = ur_id row \<or> ur_mobile_lookup r = ur_mobile_lookup row
          \<or> ur_email_lookup row \<noteq> None \<and> ur_email_lookup r = ur_email_lookup row) (ud_users s)
      then None else Some ((), s\<lparr>ud_users := ud_users s @ [row]\<rparr>))"

definition MySQLUser_Save :: "(time \<Rightarrow> time) \<Rightarrow> crypto \<Rightarrow> Protector \<Rightarrow> User \<Rightarrow> ('z user_db_scheme, unit) go" where
  "MySQLUser_Save dt C P item =
     (let mobile = NormalizeMobile (us_Mobile item); email = NormalizeEmail (us_Email item) in
      bindG (encrypt_field C P ''encrypt user mobile failed'' mobile (privateAAD ''users'' ''mobile'' (us_ID item))) (\<lambda>(mobileCiphertext, version).
      bindG (encrypt_field C P ''encrypt user email failed'' email (privateAAD ''users'' ''email'' (us_ID item))) (\<lambda>(emailCiphertext, _).
      attemptG (user_run (insert_user \<lparr>ur_id = us_ID item, ur_mobile_ciphertext = mobileCiphertext, ur_mobile_lookup = Lookup C P mobile,
          ur_password_hash = us_PasswordHash item, ur_email_ciphertext = nullBytes emailCiphertext, ur_email_lookup = nullBytes (lookupOptional C P email),
          ur_privacy_key_version = version, ur_real_name_status = us_RealNameStatus item, ur_created_at = dt (us_CreatedAt item)\<rparr>)) (\<lambda>r. case r of
        Inl e \<Rightarrow> failG (Wrap CodeInfrastructure ''save user failed'' e)
      | Inr None \<Rightarrow> failG (New CodeConflict ''mobile already registered'')
      | Inr (Some _) \<Rightarrow> returnG ()))))"

definition bytes_of :: "string option \<Rightarrow> string" where
  "bytes_of v = (case v of None \<Rightarrow> [] | Some b \<Rightarrow> b)"

definition scanUser :: "crypto \<Rightarrow> Protector \<Rightarrow> user_row option \<Rightarrow> error + User" where
  "scanUser C P row = (case row of
     None \<Rightarrow> Inl (New CodeNotFound ''user not found'')
   | Some r \<Rightarrow> (case decrypt_field C P ''decrypt user mobile failed'' (ur_mobile_ciphertext r) (ur_privacy_key_version r) (privateAAD ''users'' ''mobile'' (ur_id r)) of
       Inl e \<Rightarrow> Inl e
     | Inr mobile \<Rightarrow> (case decrypt_field C P ''decrypt user email failed'' (bytes_of (ur_email_ciphertext r)) (ur_privacy_key_version r) (privateAAD ''users'' ''email'' (ur_id r)) of
         Inl e \<Rightarrow> Inl e
       | Inr email \<Rightarrow> Inr \<lparr>us_ID = ur_id r, us_Mobile = mobile, us_PasswordHash = ur_password_hash r, us_Email = email,
           us_RealNameStatus = ur_real_name_status r, us_CreatedAt = ur_created_at r\<rparr>)))"

definition find_user :: "crypto \<Rightarrow> Protector \<Rightarrow> (user_row \<Rightarrow> bool) \<Rightarrow> ('z user_db_scheme, User) go" where
  "find_user C P p = attemptG (user_run (\<lambda>s. Some (find p (ud_users s), s))) (\<lambda>r. case r of
     Inl e \<Rightarrow> failG (Wrap CodeInfrastructure ''query user failed'' e)
   | Inr rows \<Rightarrow> liftE (scanUser C P (Option.bind rows (\<lambda>x. x))))"

definition MySQLUser_FindByID :: "crypto \<Rightarrow> Protector \<Rightarrow> int64 \<Rightarrow> ('z user_db_scheme, User) go" where
  "MySQLUser_FindByID C P i = find_user C P (\<lambda>r. ur_id r = i)"

definition MySQLUser_FindByMobile :: "crypto \<Rightarrow> Protector \<Rightarrow> string \<Rightarrow> ('z user_db_scheme, User) go" where
  "MySQLUser_FindByMobile C P mobile = find_user C P (\<lambda>r. ur_mobile_lookup r = Lookup C P (NormalizeMobile mobile))"

definition insert_ticket_user :: "ticket_user_row \<Rightarrow> 'z user_db_scheme \<Rightarrow> (unit \<times> 'z user_db_scheme) option" where
  "insert_ticket_user row s =
     (if list_ex (\<lambda>r. tr_id r = tr_id row) (ud_ticket_users s) then None else Some ((), s\<lparr>ud_ticket_users := ud_ticket_users s @ [row]\<rparr>))"

text \<open>The driver's error for a duplicate key, which this repository does not look at.\<close>

abbreviation duplicate_key :: error where
  "duplicate_key \<equiv> PlainError ''Error 1062 (23000): Duplicate entry''"

definition MySQLTicketUser_Save :: "crypto \<Rightarrow> Protector \<Rightarrow> TicketUser \<Rightarrow> ('z user_db_scheme, unit) go" where
  "MySQLTicketUser_Save C P item =
     (let name = NormalizeName (tu_Name item); certificate = NormalizeCertificate (tu_CertificateNo item); mobile = NormalizeMobile (tu_Mobile item);
          ad = (\<lambda>column. privateAAD ''ticket_users'' column (tu_ID item)) in
      bindG (encrypt_field C P ''encrypt ticket user name failed'' name (ad ''name'')) (\<lambda>(nameCiphertext, version).
      bindG (encrypt_field C P ''encrypt ticket user certificate failed'' certificate (ad ''certificate'')) (\<lambda>(certificateCiphertext, _).
      bindG (encrypt_field C P ''encrypt ticket user mobile failed'' mobile (ad ''mobile'')) (\<lambda>(mobileCiphertext, _).
      attemptG (user_run (insert_ticket_user \<lparr>tr_id = tu_ID item, tr_user_id = tu_UserID item, tr_name_ciphertext = nameCiphertext,
          tr_certificate_ciphertext = certificateCiphertext, tr_certificate_lookup = Lookup C P certificate,
          tr_mobile_ciphertext = nullBytes mobileCiphertext, tr_privacy_key_version = version\<rparr>)) (\<lambda>r. case r of
        Inl e \<Rightarrow> failG (Wrap CodeInfrastructure ''save ticket user failed'' e)
      | Inr None \<Rightarrow> failG (Wrap CodeInfrastructure ''save ticket user failed'' duplicate_key)
      | Inr (Some _) \<Rightarrow> returnG ())))))"

definition scan_ticket_user :: "crypto \<Rightarrow> Protector \<Rightarrow> ticket_user_row \<Rightarrow> error + TicketUser" where
  "scan_ticket_user C P r =
     (let ad = (\<lambda>column. privateAAD ''ticket_users'' column (tr_id r)); v = tr_privacy_key_version r in
      case decrypt_field C P ''decrypt ticket user name failed'' (tr_name_ciphertext r) v (ad ''name'') of
        Inl e \<Rightarrow> Inl e
      | Inr name \<Rightarrow> (case decrypt_field C P ''decrypt ticket user certificate failed'' (tr_certificate_ciphertext r) v (ad ''certificate'') of
          Inl e \<Rightarrow> Inl e
        | Inr certificate \<Rightarrow> (case decrypt_field C P ''decrypt ticket user mobile failed'' (bytes_of (tr_mobile_ciphertext r)) v (ad ''mobile'') of
            Inl e \<Rightarrow> Inl e
          | Inr mobile \<Rightarrow> Inr \<lparr>tu_ID = tr_id r, tu_UserID = tr_user_id r, tu_Name = name, tu_CertificateNo = certificate, tu_Mobile = mobile\<rparr>)))"

fun scan_ticket_users :: "crypto \<Rightarrow> Protector \<Rightarrow> ticket_user_row list \<Rightarrow> error + TicketUser list" where
  "scan_ticket_users C P [] = Inr []"
| "scan_ticket_users C P (r # rs) = (case scan_ticket_user C P r of
     Inl e \<Rightarrow> Inl e
   | Inr item \<Rightarrow> (case scan_ticket_users C P rs of Inl e \<Rightarrow> Inl e | Inr items \<Rightarrow> Inr (item # items)))"

definition MySQLTicketUser_ListByUserID :: "crypto \<Rightarrow> Protector \<Rightarrow> int64 \<Rightarrow> ('z user_db_scheme, TicketUser list) go" where
  "MySQLTicketUser_ListByUserID C P userID =
     attemptG (user_run (\<lambda>s. Some (rev (sort_key tr_id (filter (\<lambda>r. tr_user_id r = userID) (ud_ticket_users s))), s))) (\<lambda>r. case r of
       Inl e \<Rightarrow> failG (Wrap CodeInfrastructure ''query ticket users failed'' e)
     | Inr rows \<Rightarrow> liftE (scan_ticket_users C P (case rows of None \<Rightarrow> [] | Some rs \<Rightarrow> rs)))"

end
