(* ===== verification/Registration_Guard.thy ===== *)
theory Registration_Guard
  imports User_Accounts Redis_Server
begin

text \<open>
  The protection of registrations (\<open>src/app/user-service/internal/infrastructure/redis/registration_guard.go\<close> and
  \<open>registration_scripts.go\<close>): limits per address and per mobile number, captchas with a limited number of attempts, and a Bloom
  filter over the registered mobile numbers, which is filled from the database at start-up
  (\<open>src/app/user-service/internal/infrastructure/mysql/mobile_lookup_scanner.go\<close>).

  As in \<open>Redis_Server\<close> the commands of Redis are a parameter with laws; \<open>TIME\<close>, \<open>HINCRBY\<close>, \<open>GETBIT\<close> and \<open>SETBIT\<close> are added. The
  calls of the client library may fail before or after the command is executed. The drawing of a captcha and
  the random identifiers are parameters.
\<close>

section \<open>Commands\<close>

record 'r guard_redis =
  gr_base :: "'r redis"
  gr_TIME :: "'r \<Rightarrow> int"
  gr_HINCRBY :: "string \<Rightarrow> string \<Rightarrow> int \<Rightarrow> 'r \<Rightarrow> (int \<times> 'r) option"

text \<open>The calls of the client library, each with the reply or an error.\<close>

record 'r guard_client =
  gc_Eval :: "'r executor"
  gc_Get :: "string \<Rightarrow> ('r, string option) go"
  gc_GetBit :: "string \<Rightarrow> int \<Rightarrow> ('r, bool) go"
  gc_SetBit :: "string \<Rightarrow> int \<Rightarrow> ('r, unit) go"
  gc_SetNX :: "string \<Rightarrow> string \<Rightarrow> duration \<Rightarrow> ('r, bool) go"
  gc_Del :: "string list \<Rightarrow> ('r, unit) go"
  gc_Set :: "string \<Rightarrow> string \<Rightarrow> ('r, unit) go"

section \<open>The scripts\<close>

text \<open>\<open>local function increment(key, ttl)\<close>\<close>

definition increment :: "'r redis \<Rightarrow> string \<Rightarrow> int \<Rightarrow> 'r \<Rightarrow> (int \<times> 'r) option" where
  "increment R key ttl s = (case rINCRBY R key 1 s of
     None \<Rightarrow> None
   | Some s1 \<Rightarrow> (case Option.bind (rGET R key s1) parse_int of
       None \<Rightarrow> None
     | Some count \<Rightarrow> Some (count, if count = 1 then rEXPIRE R key ttl s1 else s1)))"

definition registrationPrecheckScript :: "'r guard_redis \<Rightarrow> 'r lua_script" where
  "registrationPrecheckScript G KEYS ARGV s =
     (let second = gr_TIME G s; minute = second div 60; base = KEYS ! 0; ip = ARGV ! 0; mobile = ARGV ! 1; R = gr_base G in
      case (parse_int (ARGV ! 2), parse_int (ARGV ! 3), parse_int (ARGV ! 4)) of
        (Some qpsLimit, Some ipMinuteLimit, Some mobileMinuteLimit) \<Rightarrow>
          (case increment R (base @ '':register:qps:'' @ ip @ '':'' @ show_int second) 2 s of
             None \<Rightarrow> (None, s)
           | Some (qps, s1) \<Rightarrow> (case increment R (base @ '':register:minute:ip:'' @ ip @ '':'' @ show_int minute) 120 s1 of
               None \<Rightarrow> (None, s1)
             | Some (ipMinute, s2) \<Rightarrow> (case increment R (base @ '':register:minute:mobile:'' @ mobile @ '':'' @ show_int minute) 120 s2 of
                 None \<Rightarrow> (None, s2)
               | Some (mobileMinute, s3) \<Rightarrow>
                   (Some (if ipMinute > ipMinuteLimit \<or> mobileMinute > mobileMinuteLimit then 2 else if qps \<ge> qpsLimit then 1 else 0), s3))))
      | _ \<Rightarrow> (None, s))"

definition registrationIssueCaptchaScript :: "'r guard_redis \<Rightarrow> 'r lua_script" where
  "registrationIssueCaptchaScript G KEYS ARGV s =
     (let minute = gr_TIME G s div 60; base = KEYS ! 0; ip = ARGV ! 0; captchaID = ARGV ! 1; answer = ARGV ! 2; binding = ARGV ! 3; R = gr_base G in
      case (parse_int (ARGV ! 4), parse_int (ARGV ! 5), parse_int (ARGV ! 6)) of
        (Some attempts, Some ttl, Some issueLimit) \<Rightarrow>
          (case increment R (base @ '':register:captcha:issue:'' @ ip @ '':'' @ show_int minute) 120 s of
             None \<Rightarrow> (None, s)
           | Some (count, s1) \<Rightarrow>
               if count > issueLimit then (Some 0, s1)
               else let captchaKey = base @ '':register:captcha:'' @ captchaID in
                 (Some 1, rEXPIRE R captchaKey ttl
                    (rHSET R captchaKey [(''answer_hmac'', answer), (''binding'', binding), (''attempts_left'', show_int attempts)] s1)))
      | _ \<Rightarrow> (None, s))"

definition registrationVerifyCaptchaScript :: "'r guard_redis \<Rightarrow> 'r lua_script" where
  "registrationVerifyCaptchaScript G KEYS ARGV s =
     (let R = gr_base G; key = KEYS ! 0 in
      if \<not> rEXISTS R key s then (Some 0, s)
      else if rHGET R key ''binding'' s \<noteq> Some (ARGV ! 0) \<or> rHGET R key ''answer_hmac'' s \<noteq> Some (ARGV ! 1) then
        (case gr_HINCRBY G key ''attempts_left'' (-1) s of
           None \<Rightarrow> (None, s)
         | Some (attempts, s1) \<Rightarrow> (Some 0, if attempts \<le> 0 then rDEL R key s1 else s1))
      else (Some 1, rDEL R key s))"

definition registrationReleaseBootstrapLockScript :: "'r guard_redis \<Rightarrow> 'r lua_script" where
  "registrationReleaseBootstrapLockScript G KEYS ARGV s =
     (let R = gr_base G in if rGET R (KEYS ! 0) s = Some (ARGV ! 0) then (Some 1, rDEL R (KEYS ! 0) s) else (Some 0, s))"

section \<open>The guard\<close>

record RegistrationGuard =
  rgd_keyBase :: string
  rgd_CaptchaTriggerPerSecond :: int
  rgd_IPRequestsPerMinute :: int
  rgd_MobileRequestsPerMinute :: int
  rgd_CaptchaIssuesPerMinute :: int
  rgd_CaptchaMaxAttempts :: int
  rgd_CaptchaTTL :: duration
  rgd_BloomVersion :: string
  rgd_BloomBits :: nat
  rgd_BloomHashFunctions :: nat
  rgd_BloomBootstrapBatchSize :: int
  rgd_secret :: string

definition hex_digit :: "nat \<Rightarrow> char" where
  "hex_digit n = ''0123456789abcdef'' ! n"

definition hex_encode :: "string \<Rightarrow> string" where
  "hex_encode s = concat (map (\<lambda>c. [hex_digit (of_char c div 16), hex_digit (of_char c mod 16)]) s)"

definition guard_hmac :: "crypto \<Rightarrow> RegistrationGuard \<Rightarrow> string \<Rightarrow> string" where
  "guard_hmac C g value = hex_encode (cr_hmac C (rgd_secret g) value)"

definition identities :: "crypto \<Rightarrow> RegistrationGuard \<Rightarrow> string \<Rightarrow> string \<Rightarrow> error + (string \<times> string \<times> string)" where
  "identities C g clientIP mobile =
     (let clientIP = trim_space clientIP; mobile = NormalizeMobile mobile in
      if clientIP = [] \<or> mobile = [] then Inl (New CodeInvalidArgument ''client ip and mobile are required'')
      else let ipKey = guard_hmac C g (''ip:'' @ clientIP); mobileKey = guard_hmac C g (''mobile:'' @ mobile) in
        Inr (ipKey, mobileKey, guard_hmac C g (''bind:'' @ ipKey @ '':'' @ mobileKey)))"

definition answerHMAC :: "crypto \<Rightarrow> RegistrationGuard \<Rightarrow> string \<Rightarrow> string" where
  "answerHMAC C g answer = guard_hmac C g (''answer:'' @ to_lower (trim_space answer))"

definition captchaKey :: "RegistrationGuard \<Rightarrow> string \<Rightarrow> string" where
  "captchaKey g i = rgd_keyBase g @ '':register:captcha:'' @ i"

definition bloomKey :: "RegistrationGuard \<Rightarrow> string" where
  "bloomKey g = rgd_keyBase g @ '':register:bloom:mobile:'' @ rgd_BloomVersion g"

definition bloomReadyKey :: "RegistrationGuard \<Rightarrow> string" where
  "bloomReadyKey g = bloomKey g @ '':ready''"

definition bootstrapLockKey :: "RegistrationGuard \<Rightarrow> string" where
  "bootstrapLockKey g = bloomKey g @ '':bootstrap-lock''"

text \<open>Hash function \<open>index\<close>: the first eight bytes of \<open>SHA-256(lookup, index)\<close>, big-endian, modulo the number of bits.\<close>

definition bloom_position :: "crypto \<Rightarrow> RegistrationGuard \<Rightarrow> string \<Rightarrow> nat \<Rightarrow> int64" where
  "bloom_position C g lookup index =
     (let sum = cr_sha256 C (lookup @ map (\<lambda>k. char_of ((index div 256 ^ k) mod 256)) [3, 2, 1, 0]) in
      wrap64 (int (foldl (\<lambda>value item. value * 256 + of_char item) 0 (take 8 sum) mod rgd_BloomBits g)))"

definition bloomPositions :: "crypto \<Rightarrow> RegistrationGuard \<Rightarrow> string \<Rightarrow> int64 list" where
  "bloomPositions C g lookup = map (bloom_position C g lookup) [0..<rgd_BloomHashFunctions g]"

definition verifyCaptcha :: "crypto \<Rightarrow> 'r guard_redis \<Rightarrow> 'r guard_client \<Rightarrow> RegistrationGuard \<Rightarrow> string \<Rightarrow> string \<Rightarrow> string \<Rightarrow> ('r, bool) go" where
  "verifyCaptcha C G K g i binding answer =
     bindG (gc_Eval K (registrationVerifyCaptchaScript G) [captchaKey g i] [binding, answerHMAC C g answer]) (\<lambda>result. returnG (result = 1))"

definition Guard_Check :: "crypto \<Rightarrow> 'r guard_redis \<Rightarrow> 'r guard_client \<Rightarrow> RegistrationGuard \<Rightarrow> RegistrationAttempt \<Rightarrow> ('r, unit) go" where
  "Guard_Check C G K g attempt = (case identities C g (ra_ClientIP attempt) (ra_Mobile attempt) of
     Inl e \<Rightarrow> failG e
   | Inr (ipKey, mobileKey, binding) \<Rightarrow>
       attemptG (gc_Eval K (registrationPrecheckScript G) [rgd_keyBase g]
           [ipKey, mobileKey, show_int (rgd_CaptchaTriggerPerSecond g), show_int (rgd_IPRequestsPerMinute g), show_int (rgd_MobileRequestsPerMinute g)]) (\<lambda>r.
       case r of
         Inl _ \<Rightarrow> returnG ()
       | Inr result \<Rightarrow>
           if result = 2 then failG (New CodeTooManyRequests ''registration request limit exceeded'')
           else let hasCaptcha = (trim_space (ra_CaptchaID attempt) \<noteq> [] \<or> trim_space (ra_CaptchaAnswer attempt) \<noteq> []) in
             if result = 1 \<and> \<not> hasCaptcha then failG (New CodeCaptchaRequired ''captcha required'')
             else if \<not> hasCaptcha then returnG ()
             else if trim_space (ra_CaptchaID attempt) = [] \<or> trim_space (ra_CaptchaAnswer attempt) = []
             then failG (New CodeCaptchaInvalid ''captcha id and answer are both required'')
             else attemptG (verifyCaptcha C G K g (ra_CaptchaID attempt) binding (ra_CaptchaAnswer attempt)) (\<lambda>v. case v of
               Inl _ \<Rightarrow> returnG ()
             | Inr verified \<Rightarrow> if \<not> verified then failG (New CodeCaptchaInvalid ''captcha is invalid or expired'') else returnG ())))"

text \<open>\<open>draw i\<close> is what the captcha library makes of the identifier: the answer and the picture, or an error.\<close>

definition Guard_IssueCaptcha :: "crypto \<Rightarrow> 'r guard_redis \<Rightarrow> 'r guard_client \<Rightarrow> (error + string) \<Rightarrow> (string \<Rightarrow> string \<times> (error + string))
    \<Rightarrow> RegistrationGuard \<Rightarrow> string \<Rightarrow> string \<Rightarrow> ('r, RegisterCaptcha) go" where
  "Guard_IssueCaptcha C G K randomID draw g mobile clientIP = (case identities C g clientIP mobile of
     Inl e \<Rightarrow> failG e
   | Inr (ipKey, _, binding) \<Rightarrow> (case randomID of
       Inl e \<Rightarrow> failG (Wrap CodeInfrastructure ''create captcha id failed'' e)
     | Inr i \<Rightarrow> (case draw i of
         (answer, Inl e) \<Rightarrow> failG (Wrap CodeInfrastructure ''draw captcha failed'' e)
       | (answer, Inr picture) \<Rightarrow>
           attemptG (gc_Eval K (registrationIssueCaptchaScript G) [rgd_keyBase g]
             [ipKey, i, answerHMAC C g answer, binding, show_int (rgd_CaptchaMaxAttempts g), show_int (rgd_CaptchaTTL g div 1000000000),
              show_int (rgd_CaptchaIssuesPerMinute g)]) (\<lambda>r. case r of
             Inl e \<Rightarrow> failG (Wrap CodeInfrastructure ''store captcha failed'' e)
           | Inr allowed \<Rightarrow>
               if allowed \<noteq> 1 then failG (New CodeTooManyRequests ''captcha issue limit exceeded'')
               else returnG \<lparr>rc_ID = i, rc_Image = picture, rc_ExpiresIn = rgd_CaptchaTTL g\<rparr>))))"

text \<open>The loops over the positions of a mobile number.\<close>

fun look_bits :: "'r guard_client \<Rightarrow> string \<Rightarrow> int64 list \<Rightarrow> ('r, MobileLookupState) go" where
  "look_bits K key [] = returnG MobileLookupMayExist"
| "look_bits K key (position # rest) = attemptG (gc_GetBit K key position) (\<lambda>r. case r of
     Inl _ \<Rightarrow> returnG MobileLookupUnknown
   | Inr isSet \<Rightarrow> if \<not> isSet then returnG MobileLookupAbsent else look_bits K key rest)"

fun mark_bits :: "'r guard_client \<Rightarrow> string \<Rightarrow> int64 list \<Rightarrow> ('r, unit) go" where
  "mark_bits K key [] = returnG ()"
| "mark_bits K key (position # rest) = bindG (gc_SetBit K key position) (\<lambda>_. mark_bits K key rest)"

definition Guard_LookupMobile :: "crypto \<Rightarrow> 'r guard_client \<Rightarrow> RegistrationGuard \<Rightarrow> (string \<Rightarrow> string) \<Rightarrow> string \<Rightarrow> ('r, MobileLookupState) go" where
  "Guard_LookupMobile C K g lookup mobile = attemptG (gc_Get K (bloomReadyKey g)) (\<lambda>ready.
     if ready \<noteq> Inr (Some ''1'') then returnG MobileLookupUnknown
     else look_bits K (bloomKey g) (bloomPositions C g (lookup (NormalizeMobile mobile))))"

definition Guard_MarkRegistered :: "crypto \<Rightarrow> 'r guard_client \<Rightarrow> RegistrationGuard \<Rightarrow> (string \<Rightarrow> string) \<Rightarrow> string \<Rightarrow> ('r, unit) go" where
  "Guard_MarkRegistered C K g lookup mobile = mark_bits K (bloomKey g) (bloomPositions C g (lookup (NormalizeMobile mobile)))"

section \<open>Filling the filter\<close>

text \<open>The world of the start-up: the tables of users and Redis.\<close>

record 'r guard_world = user_db +
  gd_redis :: 'r

definition on_redis :: "('r, 'a) go \<Rightarrow> ('r guard_world, 'a) go" where
  "on_redis = liftG gd_redis (\<lambda>r w. w\<lparr>gd_redis := r\<rparr>)"

text \<open>\<open>SELECT id, mobile_lookup FROM users WHERE id > ? ORDER BY id LIMIT ?\<close>\<close>

definition lookup_page :: "int64 \<Rightarrow> int \<Rightarrow> user_row list \<Rightarrow> (int64 \<times> string) list" where
  "lookup_page lastID batchSize users =
     take (nat batchSize) (sort_key fst (map (\<lambda>r. (ur_id r, ur_mobile_lookup r)) (filter (\<lambda>r. ur_id r > lastID) users)))"

fun visit_rows :: "(string \<Rightarrow> ('w, unit) go) \<Rightarrow> (int64 \<times> string) list \<Rightarrow> ('w, unit) go" where
  "visit_rows visit [] = returnG ()"
| "visit_rows visit ((i, lookup) # rows) = bindG (visit lookup) (\<lambda>_. visit_rows visit rows)"

partial_function (option) scan_lookups :: "int \<Rightarrow> (string \<Rightarrow> ('z user_db_scheme, unit) go) \<Rightarrow> int64 \<Rightarrow> 'z user_db_scheme
    \<Rightarrow> ((error + unit) \<times> 'z user_db_scheme) option" where
  "scan_lookups batchSize visit lastID w =
     (case user_run (\<lambda>s. Some (lookup_page lastID batchSize (ud_users s), s)) w of
        (Inl e, w1) \<Rightarrow> Some (Inl e, w1)
      | (Inr page, w1) \<Rightarrow>
          (let rows = (case page of None \<Rightarrow> [] | Some rows \<Rightarrow> rows) in
           case visit_rows visit rows w1 of
             (Inl e, w2) \<Rightarrow> Some (Inl e, w2)
           | (Inr _, w2) \<Rightarrow>
               if int (length rows) < batchSize then Some (Inr (), w2)
               else scan_lookups batchSize visit (fst (last rows)) w2))"

definition ScanMobileLookups :: "int \<Rightarrow> (string \<Rightarrow> ('z user_db_scheme, unit) go) \<Rightarrow> 'z user_db_scheme \<Rightarrow> ((error + unit) \<times> 'z user_db_scheme) option" where
  "ScanMobileLookups batchSize visit w = scan_lookups (if batchSize \<le> 0 then 1000 else batchSize) visit 0 w"

text \<open>\<open>Bootstrap\<close>; its result is \<open>None\<close> if the scan does not end. The deferred release of the lock ignores errors.\<close>

definition guard_fill :: "crypto \<Rightarrow> 'r guard_client \<Rightarrow> RegistrationGuard \<Rightarrow> 'r guard_world \<Rightarrow> ((error + unit) \<times> 'r guard_world) option" where
  "guard_fill C K g w = (case on_redis (gc_Del K [bloomKey g, bloomReadyKey g]) w of
     (Inl e, w1) \<Rightarrow> Some (Inl e, w1)
   | (Inr _, w1) \<Rightarrow> (case ScanMobileLookups (rgd_BloomBootstrapBatchSize g)
         (\<lambda>lookup. on_redis (mark_bits K (bloomKey g) (bloomPositions C g lookup))) w1 of
       None \<Rightarrow> None
     | Some (Inl e, w2) \<Rightarrow> Some (Inl e, w2)
     | Some (Inr _, w2) \<Rightarrow> Some (on_redis (gc_Set K (bloomReadyKey g) ''1'') w2)))"

definition Guard_Bootstrap :: "crypto \<Rightarrow> 'r guard_redis \<Rightarrow> 'r guard_client \<Rightarrow> (error + string) \<Rightarrow> RegistrationGuard \<Rightarrow> 'r guard_world
    \<Rightarrow> ((error + unit) \<times> 'r guard_world) option" where
  "Guard_Bootstrap C G K randomID g w = (case on_redis (gc_Get K (bloomReadyKey g)) w of
     (Inl e, w1) \<Rightarrow> Some (Inl e, w1)
   | (Inr ready, w1) \<Rightarrow>
       if ready = Some ''1'' then Some (Inr (), w1)
       else (case randomID of
         Inl e \<Rightarrow> Some (Inl e, w1)
       | Inr token \<Rightarrow> (case on_redis (gc_SetNX K (bootstrapLockKey g) token (10 * 60 * 1000000000)) w1 of
           (Inl e, w2) \<Rightarrow> Some (Inl e, w2)
         | (Inr locked, w2) \<Rightarrow>
             if \<not> locked then Some (Inr (), w2)
             else map_option (\<lambda>(r, w3). (r, snd (on_redis (gc_Eval K (registrationReleaseBootstrapLockScript G) [bootstrapLockKey g] [token]) w3)))
               (guard_fill C K g w2))))"

end
