(* ===== verification/User_Registration.thy ===== *)
theory User_Registration
  imports User_Accounts
begin

text \<open>
  Properties of registration and login on the MySQL repositories: users are only added, a mobile number is registered
  at most once whatever the guard says and whichever statements fail, and who has registered can log in.
\<close>

section \<open>The tables\<close>

definition users_ok :: "'z user_db_scheme \<Rightarrow> bool" where
  "users_ok s \<longleftrightarrow> distinct (map ur_id (ud_users s)) \<and> distinct (map ur_mobile_lookup (ud_users s))"

text \<open>Users are only added, and the identifiers and the hashes of the mobile numbers stay unique.\<close>

definition users_grow :: "'z user_db_scheme \<Rightarrow> 'z user_db_scheme \<Rightarrow> bool" where
  "users_grow s s' \<longleftrightarrow> users_ok s \<longrightarrow> users_ok s' \<and> (\<exists>rows. ud_users s' = ud_users s @ rows)"

definition same_users :: "'z user_db_scheme \<Rightarrow> 'z user_db_scheme \<Rightarrow> bool" where
  "same_users s s' \<longleftrightarrow> ud_users s' = ud_users s"

interpretation users: state_preorder users_grow
  by unfold_locales (auto simp: users_grow_def)

interpretation users_same: state_preorder same_users
  by unfold_locales (auto simp: same_users_def)

lemma same_grow: "keepsG same_users m \<Longrightarrow> keepsG users_grow m"
  by (auto simp: keepsG_def same_users_def users_grow_def users_ok_def)

lemma insert_grow: "keepsG users_grow (user_run (insert_user row))"
  unfolding keepsG_def
proof
  fix s :: "'z user_db_scheme"
  show "users_grow s (snd (user_run (insert_user row) s))"
    by (auto simp: user_run_def insert_user_def users_grow_def users_ok_def list_ex_iff Let_def split: list.splits)
qed

lemma user_run_same: "(\<And>s a s'. stmt s = Some (a, s') \<Longrightarrow> ud_users s' = ud_users s) \<Longrightarrow> keepsG same_users (user_run stmt)"
  by (force simp: keepsG_def same_users_def user_run_def Let_def split: option.splits list.splits)

lemma field_same: "keepsG same_users (encrypt_field C P message text ad)"
  by (auto simp: keepsG_def same_users_def encrypt_field_def split: sum.splits)

lemma liftE_same: "keepsG same_users (liftE r)"
  by (cases r) (simp_all add: liftE_def users_same.keeps_fail users_same.keeps_return)

lemma find_same: "keepsG same_users (MySQLUser_FindByMobile C P mobile)" "keepsG same_users (MySQLUser_FindByID C P i)"
  unfolding MySQLUser_FindByMobile_def MySQLUser_FindByID_def find_user_def
  by (auto intro!: users_same.keeps_attempt user_run_same users_same.keeps_fail liftE_same split: sum.splits)

lemma ticket_users_same: "keepsG same_users (MySQLTicketUser_Save C P item)" "keepsG same_users (MySQLTicketUser_ListByUserID C P u)"
  unfolding MySQLTicketUser_Save_def MySQLTicketUser_ListByUserID_def Let_def
  by (auto intro!: users_same.keeps_bind users_same.keeps_attempt user_run_same users_same.keeps_fail users_same.keeps_return field_same liftE_same
      simp: insert_ticket_user_def split: sum.splits option.splits prod.splits if_splits)

lemma save_user_grow: "keepsG users_grow (MySQLUser_Save dt C P item)"
  unfolding MySQLUser_Save_def Let_def
  by (auto intro!: users.keeps_bind users.keeps_attempt insert_grow same_grow [OF field_same] users.keeps_fail users.keeps_return
      split: prod.splits sum.splits option.splits)

section \<open>A service on these tables\<close>

text \<open>
  The repositories are the MySQL repositories; the other ports, with any guard, do not touch the users.
\<close>

definition mysql_service :: "(time \<Rightarrow> time) \<Rightarrow> crypto \<Rightarrow> Protector \<Rightarrow> 'z user_db_scheme UserCommandService \<Rightarrow> bool" where
  "mysql_service dt C P S \<longleftrightarrow> uc_SaveUser S = MySQLUser_Save dt C P \<and> uc_FindByID S = MySQLUser_FindByID C P
     \<and> uc_FindByMobile S = MySQLUser_FindByMobile C P
     \<and> uc_ticketUsers S \<in> {None, Some (MySQLTicketUser_Save C P, MySQLTicketUser_ListByUserID C P)}
     \<and> keepsG same_users (uc_NextID S) \<and> (\<forall>p. keepsG same_users (uc_Hash S p))
     \<and> (\<forall>a. keepsG same_users (rg_Check (uc_guard S) a)) \<and> (\<forall>m ip. keepsG same_users (rg_IssueCaptcha (uc_guard S) m ip))
     \<and> (\<forall>m. keepsG same_users (rg_LookupMobile (uc_guard S) m)) \<and> (\<forall>m. keepsG same_users (rg_MarkRegistered (uc_guard S) m))"

inductive user_step :: "(time \<Rightarrow> time) \<Rightarrow> crypto \<Rightarrow> Protector \<Rightarrow> 'z user_db_scheme \<Rightarrow> 'z user_db_scheme \<Rightarrow> bool" for dt C P where
  register: "mysql_service dt C P S \<Longrightarrow> user_step dt C P s (snd (Register S cmd s))"
| captcha: "mysql_service dt C P S \<Longrightarrow> user_step dt C P s (snd (CreateRegisterCaptcha S mobile ip s))"
| login: "mysql_service dt C P S \<Longrightarrow> user_step dt C P s (snd (Login S mobile password s))"
| get: "mysql_service dt C P S \<Longrightarrow> user_step dt C P s (snd (GetUser S i s))"
| list_ticket_users: "mysql_service dt C P S \<Longrightarrow> user_step dt C P s (snd (ListTicketUsers S i s))"
| add_ticket_user: "mysql_service dt C P S \<Longrightarrow> user_step dt C P s (snd (AddTicketUser S acmd s))"
| fault: "user_step dt C P s (s\<lparr>ud_faults := fs\<rparr>)"

lemmas users_keep = users_same.keeps_bind users_same.keeps_attempt users_same.keeps_fail users_same.keeps_return users_same.keeps_get

lemma mysql_service_ports:
  assumes "mysql_service dt C P S"
  shows "keepsG users_grow (uc_NextID S)" "keepsG users_grow (uc_Hash S p)" "keepsG users_grow (rg_Check (uc_guard S) a)"
    "keepsG users_grow (rg_LookupMobile (uc_guard S) m)" "keepsG users_grow (rg_MarkRegistered (uc_guard S) m)"
    "keepsG users_grow (uc_SaveUser S u)" "keepsG users_grow (uc_FindByMobile S m)"
  using assms same_grow save_user_grow find_same unfolding mysql_service_def by (blast | metis)+

lemma register_grow:
  assumes "mysql_service dt C P S"
  shows "keepsG users_grow (register_new S mobile password)" "keepsG users_grow (Register S cmd)"
proof -
  note ports = mysql_service_ports [OF assms]
  show new: "keepsG users_grow (register_new S mobile password)" for mobile password
    unfolding register_new_def Let_def by (auto intro!: users.keeps_intros ports split: sum.splits)
  show "keepsG users_grow (Register S cmd)"
    unfolding Register_def Let_def by (auto intro!: users.keeps_intros ports new split: sum.splits)
qed

lemma others_same:
  assumes "mysql_service dt C P S"
  shows "keepsG same_users (CreateRegisterCaptcha S mobile ip)" "keepsG same_users (Login S mobile password)" "keepsG same_users (GetUser S i)"
    "keepsG same_users (ListTicketUsers S i)" "keepsG same_users (AddTicketUser S acmd)"
  using assms find_same [of C P] ticket_users_same [of C P]
  unfolding CreateRegisterCaptcha_def Login_def GetUser_def ListTicketUsers_def AddTicketUser_def Let_def
  by (auto simp: mysql_service_def intro!: users_keep split: option.splits sum.splits prod.splits)

lemma keepsG_D: "keepsG R m \<Longrightarrow> R s (snd (m s))"
  by (simp add: keepsG_def)

lemma user_step_grow: "user_step dt C P s s' \<Longrightarrow> users_grow s s'"
proof (induction rule: user_step.induct)
  case (fault s fs)
  then show ?case by (simp add: users_grow_def users_ok_def)
qed (blast intro: keepsG_D register_grow same_grow others_same)+

lemma user_steps_grow: "(user_step dt C P)\<^sup>*\<^sup>* s s' \<Longrightarrow> users_grow s s'"
  by (induction rule: rtranclp_induct) (auto intro: users.R_refl users.R_trans user_step_grow)

section \<open>Registering\<close>

text \<open>A successful registration has inserted one row, with the hash of the trimmed mobile number.\<close>

definition saved_user :: "(time \<Rightarrow> time) \<Rightarrow> crypto \<Rightarrow> Protector \<Rightarrow> User \<Rightarrow> user_row \<Rightarrow> bool" where
  "saved_user dt C P u r \<longleftrightarrow> ur_id r = us_ID u \<and> ur_mobile_lookup r = Lookup C P (us_Mobile u) \<and> ur_password_hash r = us_PasswordHash u
     \<and> ur_real_name_status r = us_RealNameStatus u \<and> ur_created_at r = dt (us_CreatedAt u)
     \<and> (\<exists>nonce. Encrypt C nonce P (us_Mobile u) (privateAAD ''users'' ''mobile'' (us_ID u)) = Inr (ur_mobile_ciphertext r, ur_privacy_key_version r))
     \<and> ur_email_ciphertext r = None"

lemma insert_user_done:
  assumes "user_run (insert_user row) s = (Inr (Some u), s')"
  shows "ud_users s' = ud_users s @ [row]"
  using assms by (auto simp: user_run_def insert_user_def Let_def split: if_splits list.splits option.splits)

lemma encrypt_field_Inr: "encrypt_field C P message text ad s = (Inr (c, v), s') \<Longrightarrow> (\<exists>nonce. Encrypt C nonce P text ad = Inr (c, v)) \<and> ud_users s' = ud_users s"
  by (auto simp: encrypt_field_def split: sum.splits)

lemma save_user_done:
  assumes "MySQLUser_Save dt C P u s = (Inr (), s')" and "trim_space (us_Mobile u) = us_Mobile u" and "us_Email u = []"
  shows "\<exists>r. ud_users s' = ud_users s @ [r] \<and> saved_user dt C P u r"
proof -
  have e: "NormalizeEmail [] = []" by (simp add: NormalizeEmail_def to_lower_def trim_space_def trim_def)
  from assms obtain mc v s1 ec v' s2 where m: "encrypt_field C P ''encrypt user mobile failed'' (us_Mobile u) (privateAAD ''users'' ''mobile'' (us_ID u)) s = (Inr (mc, v), s1)"
    "encrypt_field C P ''encrypt user email failed'' [] (privateAAD ''users'' ''email'' (us_ID u)) s1 = (Inr (ec, v'), s2)"
    and i: "user_run (insert_user \<lparr>ur_id = us_ID u, ur_mobile_ciphertext = mc, ur_mobile_lookup = Lookup C P (us_Mobile u),
          ur_password_hash = us_PasswordHash u, ur_email_ciphertext = nullBytes ec, ur_email_lookup = nullBytes (lookupOptional C P []),
          ur_privacy_key_version = v, ur_real_name_status = us_RealNameStatus u, ur_created_at = dt (us_CreatedAt u)\<rparr>) s2 = (Inr (Some ()), s')"
    by (auto simp: MySQLUser_Save_def NormalizeMobile_def e Let_def bindG_def attemptG_def go_simps split: prod.splits sum.splits option.splits)
  have "ec = []" using m(2) by (auto simp: encrypt_field_def Encrypt_def)
  with encrypt_field_Inr [OF m(1)] encrypt_field_Inr [OF m(2)] insert_user_done [OF i] show ?thesis
    by (auto simp: saved_user_def nullBytes_def)
qed

lemma register_new_done:
  assumes S: "mysql_service dt C P S" and "register_new S mobile password s = (Inr u, s')" and "trim_space mobile = mobile"
  shows "us_Mobile u = mobile \<and> (\<exists>r t t'. ud_users s' = ud_users s @ [r] \<and> saved_user dt C P u r \<and> uc_Hash S password t = (Inr (us_PasswordHash u), t'))"
proof -
  from assms(2) obtain i s1 hash s2 s3 where n: "uc_NextID S s = (Inr i, s1)" "uc_Hash S password s1 = (Inr hash, s2)"
    and u: "u = NewUser i mobile hash (uc_now S s2)" and sv: "uc_SaveUser S u s2 = (Inr (), s3)" and mk: "s' = snd (rg_MarkRegistered (uc_guard S) mobile s3)"
    by (auto simp: register_new_def bindG_def attemptG_def go_simps Let_def split: prod.splits sum.splits if_splits)
  have same: "ud_users s1 = ud_users s" "ud_users s2 = ud_users s1" "ud_users s' = ud_users s3"
    using S n mk keepsG_D [of same_users "uc_NextID S" s] keepsG_D [of same_users "uc_Hash S password" s1] keepsG_D [of same_users "rg_MarkRegistered (uc_guard S) mobile" s3]
    by (auto simp: mysql_service_def same_users_def)
  have "MySQLUser_Save dt C P u s2 = (Inr (), s3)" using S sv by (simp add: mysql_service_def)
  from save_user_done [OF this] u assms(3) obtain r where "ud_users s3 = ud_users s2 @ [r]" "saved_user dt C P u r" by (auto simp: NewUser_def)
  with same n(2) u show ?thesis by (auto simp: NewUser_def)
qed

lemma register_done:
  assumes S: "mysql_service dt C P S" and r: "Register S cmd s = (Inr u, s')"
  shows "us_Mobile u = trim_space (rgc_Mobile cmd) \<and> us_Mobile u \<noteq> [] \<and> (\<exists>r t t'. ud_users s' = ud_users s @ [r] \<and> saved_user dt C P u r \<and> uc_Hash S (rgc_Password cmd) t = (Inr (us_PasswordHash u), t'))"
proof -
  let ?m = "trim_space (rgc_Mobile cmd)"
  from r obtain s1 where s1: "register_new S ?m (rgc_Password cmd) s1 = (Inr u, s')" and m: "?m \<noteq> []"
    and run: "\<exists>a s2 l s3. rg_Check (uc_guard S) a s = (Inr (), s2) \<and> rg_LookupMobile (uc_guard S) ?m s2 = (l, s3) \<and> (s1 = s3 \<or> s1 = snd (uc_FindByMobile S ?m s3))"
    by (auto simp: Register_def Let_def bindG_def attemptG_def go_simps split: prod.splits sum.splits if_splits)
      (metis snd_conv)+
  from run obtain a s2 l s3 where q: "rg_Check (uc_guard S) a s = (Inr (), s2)" "rg_LookupMobile (uc_guard S) ?m s2 = (l, s3)" "s1 = s3 \<or> s1 = snd (uc_FindByMobile S ?m s3)" by blast
  have "ud_users s2 = ud_users s" "ud_users s3 = ud_users s2" "ud_users s1 = ud_users s3"
    using S q keepsG_D [of same_users "rg_Check (uc_guard S) a" s] keepsG_D [of same_users "rg_LookupMobile (uc_guard S) ?m" s2] keepsG_D [OF find_same(1) [of C P ?m], of s3]
    by (auto simp: mysql_service_def same_users_def)
  with register_new_done [OF S s1] m show ?thesis by auto
qed
section \<open>Properties\<close>

lemma unique_row:
  assumes "distinct (map f xs)" and "x \<in> set xs"
  shows "filter (\<lambda>y. f y = f x) xs = [x] \<and> find (\<lambda>y. f y = f x) xs = Some x"
  using assms
proof (induction xs)
  case (Cons y ys)
  show ?case
  proof (cases "x = y")
    case True
    with Cons.prems have "filter (\<lambda>y. f y = f x) ys = []" by (auto simp: filter_empty_conv rev_image_eqI)
    with True show ?thesis by simp
  next
    case False
    with Cons.prems have "x \<in> set ys" "f y \<noteq> f x" by (auto simp: rev_image_eqI)
    with Cons False show ?thesis by simp
  qed
qed simp

lemma grown: "users_ok s \<Longrightarrow> users_grow s s' \<Longrightarrow> users_ok s' \<and> (\<exists>rows. ud_users s' = ud_users s @ rows)"
  by (simp add: users_grow_def)

lemma registered_row:
  assumes "users_ok s" and "mysql_service dt C P S" and "Register S cmd s = (Inr u, s1)" and "(user_step dt C P)\<^sup>*\<^sup>* s1 s2"
  obtains r where "users_ok s2" and "r \<in> set (ud_users s2)" and "saved_user dt C P u r" and "ur_mobile_lookup r = Lookup C P (us_Mobile u)"
proof -
  from register_done [OF assms(2,3)] obtain r where r: "ud_users s1 = ud_users s @ [r]" "saved_user dt C P u r" by blast
  have "users_ok s1" using grown [OF assms(1)] keepsG_D [OF register_grow(2) [OF assms(2)], of s cmd] assms(3) by simp
  with grown [OF _ user_steps_grow [OF assms(4)]] r that [of r] show thesis by (auto simp: saved_user_def)
qed

section \<open>A sample\<close>

definition sample_crypto :: crypto where
  "sample_crypto = \<lparr>cr_seal = (\<lambda>key nonce text ad. CHR ''x'' # text), cr_open = (\<lambda>key c ad. Some (tl c)), cr_hmac = (\<lambda>key v. v), cr_sha256 = (\<lambda>v. v)\<rparr>"

definition sample_key :: string where
  "sample_key = replicate 43 (CHR ''A'') @ ''=''"

definition sample_protector :: Protector where
  "sample_protector = \<lparr>pt_activeVersion = ''v1'', pt_keys = [''v1'' \<mapsto> replicate 32 (CHR 0x00)], pt_lookupKey = replicate 32 (CHR 0x00)\<rparr>"

definition claims_text :: json_text where
  "claims_text = ((\<lambda>d. case d of JObj [(_, JInt u), (_, JStr role), (_, JInt e)] \<Rightarrow> show_int u @ '':'' @ show_int e @ '':'' @ role | _ \<Rightarrow> ''h''),
     (\<lambda>s. if s = ''h'' then Some token_header
       else let r = tl (dropWhile (\<lambda>c. c \<noteq> CHR '':'') s) in
         Some (marshal_claims \<lparr>cl_UserID = read_int (takeWhile (\<lambda>c. c \<noteq> CHR '':'') s), cl_Role = tl (dropWhile (\<lambda>c. c \<noteq> CHR '':'') r),
           cl_ExpiresAt = read_int (takeWhile (\<lambda>c. c \<noteq> CHR '':'') r)\<rparr>)))"

definition sample_service :: "user_db UserCommandService" where
  "sample_service = \<lparr>uc_NextID = returnG 42, uc_SaveUser = MySQLUser_Save id sample_crypto sample_protector,
     uc_FindByID = MySQLUser_FindByID sample_crypto sample_protector, uc_FindByMobile = MySQLUser_FindByMobile sample_crypto sample_protector,
     uc_ticketUsers = None, uc_Hash = (\<lambda>p. returnG (''h'' @ p)), uc_Compare = (\<lambda>h p. h = ''h'' @ p),
     uc_Generate = Some (\<lambda>c. Inr (Generate sample_crypto claims_text ''secret'' c)), uc_now = (\<lambda>_. 5000000000), uc_adminMobiles = [], uc_guard = NoopRegistrationGuard\<rparr>"

definition sample_user_db :: user_db where
  "sample_user_db = \<lparr>ud_users = [], ud_ticket_users = [], ud_faults = [], ud_error = PlainError ''driver'', ud_nonces = (\<lambda>_. []), ud_used = 0\<rparr>"

definition sample_registration :: RegisterCommand where
  "sample_registration = \<lparr>rgc_Mobile = '' 13800138000'', rgc_Password = ''pw'', rgc_ClientIP = [], rgc_CaptchaID = [], rgc_CaptchaAnswer = []\<rparr>"

lemma sample_crypto_ok: "crypto_ok sample_crypto" "token_text_ok claims_text"
proof -
  show "crypto_ok sample_crypto" by (simp add: crypto_ok_def sample_crypto_def)
  have "takeWhile (\<lambda>c. c \<noteq> CHR '':'') (show_int t @ CHR '':'' # xs) = show_int t"
    "dropWhile (\<lambda>c. c \<noteq> CHR '':'') (show_int t @ CHR '':'' # xs) = CHR '':'' # xs" for t xs
    using colon_not_in_show_int [of t] by (simp_all add: takeWhile_append dropWhile_append)
  moreover have "show_int t @ CHR '':'' # xs \<noteq> ''h''" for t xs by (cases "show_int t") auto
  ultimately show "token_text_ok claims_text" by (simp add: token_text_ok_def claims_text_def marshal_claims_def token_header_def read_show_int Let_def)
qed

lemma sample_service_ok: "mysql_service id sample_crypto sample_protector sample_service"
  by (simp add: mysql_service_def sample_service_def NoopRegistrationGuard_def users_same.keeps_return users_same.keeps_fail)

lemma sample_registered:
  "NewProtector ''v1'' [(''v1'', sample_key)] sample_key = Inr sample_protector"
  "fst (Register sample_service sample_registration sample_user_db) = Inr (NewUser 42 ''13800138000'' ''hpw'' 5000000000)"
  "ud_faults (snd (Register sample_service sample_registration sample_user_db)) = []"
proof -
  have "decodeKey sample_key = Some (replicate 32 (CHR 0x00))" "trim_space ''v1'' = ''v1''" by code_simp+
  then show "NewProtector ''v1'' [(''v1'', sample_key)] sample_key = Inr sample_protector"
    by (simp add: NewProtector_def sample_protector_def Let_def)
  show "fst (Register sample_service sample_registration sample_user_db) = Inr (NewUser 42 ''13800138000'' ''hpw'' 5000000000)" by code_simp
  show "ud_faults (snd (Register sample_service sample_registration sample_user_db)) = []" by code_simp
qed

section \<open>Registering and logging in\<close>

text \<open>
  C11. A mobile number is registered at most once: after a registration has succeeded, every later registration with the same
  number, up to surrounding white space, fails, through any instance of the service, with any answers of the registration
  guard, whatever else happened in between and whichever statements were refused or lost their reply; the number keeps one row.
\<close>

theorem mobile_registered_once:
  assumes "users_ok s" and "mysql_service dt C P S" and "Register S cmd s = (Inr u, s1)" and "(user_step dt C P)\<^sup>*\<^sup>* s1 s2"
    and "mysql_service dt C P S'" and "trim_space (rgc_Mobile cmd') = trim_space (rgc_Mobile cmd)"
  shows "\<exists>e s3. Register S' cmd' s2 = (Inl e, s3)
    \<and> (\<exists>r. filter (\<lambda>r. ur_mobile_lookup r = Lookup C P (us_Mobile u)) (ud_users s3) = [r] \<and> saved_user dt C P u r)"
proof -
  from registered_row [OF assms(1-4)] obtain r where ok2: "users_ok s2" and r: "r \<in> set (ud_users s2)" "saved_user dt C P u r"
    "ur_mobile_lookup r = Lookup C P (us_Mobile u)" by blast
  obtain res s3 where reg: "Register S' cmd' s2 = (res, s3)" by (metis surj_pair)
  have ok3: "users_ok s3" and g3: "\<exists>rows. ud_users s3 = ud_users s2 @ rows"
    using grown [OF ok2 keepsG_D [OF register_grow(2) [OF assms(5)], of s2 cmd']] reg by auto
  have "\<nexists>u'. res = Inr u'"
  proof
    assume "\<exists>u'. res = Inr u'"
    then obtain u' where u': "Register S' cmd' s2 = (Inr u', s3)" using reg by blast
    from register_done [OF assms(5) u'] assms(6) register_done [OF assms(2,3)] obtain r' where r': "ud_users s3 = ud_users s2 @ [r']" "saved_user dt C P u' r'"
      and m: "us_Mobile u' = us_Mobile u" by metis
    then have "ur_mobile_lookup r' = Lookup C P (us_Mobile u)" by (simp add: saved_user_def)
    with r' r(1,3) ok3 show False by (force simp: users_ok_def)
  qed
  moreover have "filter (\<lambda>r. ur_mobile_lookup r = Lookup C P (us_Mobile u)) (ud_users s3) = [r]"
    using unique_row [of ur_mobile_lookup "ud_users s3" r] ok3 g3 r(1,3) by (auto simp: users_ok_def)
  ultimately show ?thesis using reg r(2) by (cases res) auto
qed

theorem mobile_registered_once_witness:
  "\<exists>e s3. Register sample_service (sample_registration\<lparr>rgc_Mobile := ''13800138000 ''\<rparr>) (snd (Register sample_service sample_registration sample_user_db)) = (Inl e, s3)
    \<and> length (ud_users s3) = 1"
proof -
  let ?s1 = "snd (Register sample_service sample_registration sample_user_db)" and ?cmd = "sample_registration\<lparr>rgc_Mobile := ''13800138000 ''\<rparr>"
  have "users_ok sample_user_db" by (simp add: users_ok_def sample_user_db_def)
  moreover have "trim_space (rgc_Mobile ?cmd) = trim_space (rgc_Mobile sample_registration)" by code_simp
  ultimately obtain e s3 where "Register sample_service ?cmd ?s1 = (Inl e, s3)"
    using mobile_registered_once [OF _ sample_service_ok run_of_fst [OF sample_registered(2)] rtranclp.rtrancl_refl sample_service_ok] by blast
  moreover have "length (ud_users (snd (Register sample_service ?cmd ?s1))) = 1" by code_simp
  ultimately show ?thesis by auto
qed

text \<open>What is relied on of the password hasher, between the instance that registers and the one that logs in.\<close>

definition hashes_compare :: "'w UserCommandService \<Rightarrow> 'w UserCommandService \<Rightarrow> bool" where
  "hashes_compare S S' \<longleftrightarrow> (\<forall>password t h t'. uc_Hash S password t = (Inr h, t') \<longrightarrow> uc_Compare S' h password)"

lemma saved_user_scans:
  assumes "crypto_ok C" and "NewProtector v ks lk = Inr P" and "saved_user dt C P u r"
  shows "scanUser C P (Some r) = Inr \<lparr>us_ID = us_ID u, us_Mobile = us_Mobile u, us_PasswordHash = us_PasswordHash u, us_Email = [],
    us_RealNameStatus = us_RealNameStatus u, us_CreatedAt = dt (us_CreatedAt u)\<rparr>"
proof -
  from assms(3) obtain nonce where "Encrypt C nonce P (us_Mobile u) (privateAAD ''users'' ''mobile'' (us_ID u)) = Inr (ur_mobile_ciphertext r, ur_privacy_key_version r)"
    by (auto simp: saved_user_def)
  with private_field_round_trip [OF assms(1,2) refl, of nonce "us_Mobile u" "privateAAD ''users'' ''mobile'' (us_ID u)"]
  have "Decrypt C P (ur_mobile_ciphertext r) (ur_privacy_key_version r) (privateAAD ''users'' ''mobile'' (us_ID u)) = Inr (us_Mobile u)" by auto
  with assms(3) show ?thesis by (simp add: scanUser_def saved_user_def decrypt_field_def bytes_of_def Decrypt_def)
qed

text \<open>
  C12. Who has registered can log in: after a successful registration and any steps of the service, a login with the
  same mobile number and password through any instance succeeds when the database works, names the registered user, and
  the access token it returns is accepted for the next 24 hours and carries the user's identifier and role.
\<close>

theorem register_then_login:
  assumes "users_ok s" and "mysql_service dt C P S" and "Register S cmd s = (Inr u, s1)" and "(user_step dt C P)\<^sup>*\<^sup>* s1 s2" and "ud_faults s2 = []"
    and "crypto_ok C" and "NewProtector v ks lk = Inr P" and "hashes_compare S S'"
    and "mysql_service dt C P S'" and "uc_Generate S' = Some (\<lambda>c. Inr (Generate C J secret c))" and "token_text_ok J"
    and "trim_space mobile = trim_space (rgc_Mobile cmd)" and "in64 (us_ID u)" and "uc_now S' s2 = now" and "0 \<le> now" and "now < 2 ^ 62"
    and "nowUnix \<le> now div 1000000000 + 24 * 3600"
  shows "\<exists>token current. fst (Login S' mobile (rgc_Password cmd) s2) = Inr (token, current)
    \<and> us_ID current = us_ID u \<and> us_Mobile current = us_Mobile u
    \<and> Parse C J secret nowUnix token = Inr \<lparr>cl_UserID = us_ID u,
        cl_Role = (if us_Mobile u \<in> set (uc_adminMobiles S') then ''admin'' else ''user''), cl_ExpiresAt = now div 1000000000 + 24 * 3600\<rparr>"
proof -
  from register_done [OF assms(2,3)] obtain t t' where m: "us_Mobile u = trim_space (rgc_Mobile cmd)" "us_Mobile u \<noteq> []"
    and h: "uc_Hash S (rgc_Password cmd) t = (Inr (us_PasswordHash u), t')" by blast
  have pw: "trim_space (rgc_Password cmd) \<noteq> []" using assms(3) by (auto simp: Register_def failG_def Let_def split: if_splits)
  from registered_row [OF assms(1-4)] obtain r where r: "users_ok s2" "r \<in> set (ud_users s2)" "saved_user dt C P u r"
    "ur_mobile_lookup r = Lookup C P (us_Mobile u)" by blast
  have found: "find (\<lambda>r. ur_mobile_lookup r = Lookup C P (us_Mobile u)) (ud_users s2) = Some r"
    using unique_row [of ur_mobile_lookup "ud_users s2" r] r by (simp add: users_ok_def)
  let ?cur = "\<lparr>us_ID = us_ID u, us_Mobile = us_Mobile u, us_PasswordHash = us_PasswordHash u, us_Email = [], us_RealNameStatus = us_RealNameStatus u, us_CreatedAt = dt (us_CreatedAt u)\<rparr>"
  have "s2\<lparr>ud_faults := []\<rparr> = s2" using assms(5) by simp
  with assms(5,9,12) m found saved_user_scans [OF assms(6,7) r(3)] have find: "uc_FindByMobile S' (trim_space mobile) s2 = (Inr ?cur, s2)"
    by (simp add: mysql_service_def MySQLUser_FindByMobile_def find_user_def user_run_def attemptG_def liftE_def NormalizeMobile_def go_simps)
  have x: "(now + 86400000000000) div 1000000000 = now div 1000000000 + 86400" by simp
  let ?c = "\<lparr>cl_UserID = us_ID u, cl_Role = (if us_Mobile u \<in> set (uc_adminMobiles S') then ''admin'' else ''user''), cl_ExpiresAt = now div 1000000000 + 24 * 3600\<rparr>"
  have "uc_Compare S' (us_PasswordHash u) (rgc_Password cmd)" using assms(8) h by (auto simp: hashes_compare_def)
  with find assms(10,12,14) m pw have "fst (Login S' mobile (rgc_Password cmd) s2) = Inr (Generate C J secret ?c, ?cur)"
    by (simp add: Login_def Let_def bindG_def go_simps x)
  moreover have "Parse C J secret nowUnix (Generate C J secret ?c) = Inr ?c"
    by (rule token_round_trip [OF assms(11)]) (use assms(13-17) in \<open>auto simp: in64_def\<close>)
  ultimately show ?thesis by auto
qed

theorem register_then_login_witness:
  "\<exists>token current. fst (Login sample_service ''13800138000'' ''pw'' (snd (Register sample_service sample_registration sample_user_db))) = Inr (token, current)
    \<and> us_ID current = 42 \<and> Parse sample_crypto claims_text ''secret'' 86405 token = Inr \<lparr>cl_UserID = 42, cl_Role = ''user'', cl_ExpiresAt = 86405\<rparr>"
proof -
  have "users_ok sample_user_db" by (simp add: users_ok_def sample_user_db_def)
  moreover have "trim_space ''13800138000'' = trim_space (rgc_Mobile sample_registration)" by code_simp
  moreover have "hashes_compare sample_service sample_service" by (simp add: hashes_compare_def sample_service_def returnG_def)
  moreover have "uc_Generate sample_service = Some (\<lambda>c. Inr (Generate sample_crypto claims_text ''secret'' c))" "uc_adminMobiles sample_service = []"
    "uc_now sample_service (snd (Register sample_service sample_registration sample_user_db)) = 5000000000" by (simp_all add: sample_service_def)
  moreover have "rgc_Password sample_registration = ''pw''" "us_ID (NewUser 42 m h n) = 42" for m h n by (simp_all add: sample_registration_def NewUser_def)
  ultimately show ?thesis
    using register_then_login [OF _ sample_service_ok run_of_fst [OF sample_registered(2)] rtranclp.rtrancl_refl sample_registered(3)
        sample_crypto_ok(1) sample_registered(1) _ sample_service_ok _ sample_crypto_ok(2), where now = 5000000000 and nowUnix = 86405 and secret = "''secret''" and mobile = "''13800138000''"]
    by (auto simp: in64_def)
qed

end
