(* ===== verification/Guard_Safety.thy ===== *)
theory Guard_Safety
  imports Registration_Guard User_Registration
begin

text \<open>
  What the captchas of the registration guard are good for. \<open>guard_server\<close> adds to the laws of the Redis server the one of
  \<open>HINCRBY\<close>; its lemmas follow a captcha from its issue through every try to pass it.
\<close>

text \<open>The tries against one captcha, each with the identity of the caller and an answer.\<close>

fun verify_run :: "crypto \<Rightarrow> 'r guard_redis \<Rightarrow> 'r guard_client \<Rightarrow> RegistrationGuard \<Rightarrow> string \<Rightarrow> (string \<times> string) list \<Rightarrow> 'r \<Rightarrow> (error + bool) list" where
  "verify_run C G K g i [] s = []"
| "verify_run C G K g i ((binding, answer) # tries) s = (case verifyCaptcha C G K g i binding answer s of
     (r, s') \<Rightarrow> r # verify_run C G K g i tries s')"

definition right_try :: "crypto \<Rightarrow> RegistrationGuard \<Rightarrow> string \<Rightarrow> string \<Rightarrow> string \<times> string \<Rightarrow> bool" where
  "right_try C g binding answer t \<longleftrightarrow> fst t = binding \<and> answerHMAC C g (snd t) = answerHMAC C g answer"

lemma verify_run_length: "length (verify_run C G K g i tries s) = length tries"
  by (induction tries arbitrary: s) (auto split: prod.splits)

lemma verify_direct:
  assumes "gc_Eval K = direct_exec" and "registrationVerifyCaptchaScript G [captchaKey g i] [binding, answerHMAC C g answer] s = (Some r, t)"
  shows "verifyCaptcha C G K g i binding answer s = (Inr (r = 1), t)"
  using assms by (simp add: verifyCaptcha_def direct_exec_def bindG_def returnG_def)

locale guard_server = redis_server "gr_base G" vw vol
  for G :: "'r guard_redis" and vw :: "'r \<Rightarrow> string \<rightharpoonup> rvalue" and vol :: "'r \<Rightarrow> string set" +
  assumes HINCRBY: "vw s k = Some (RHash h) \<Longrightarrow> h f = Some v \<Longrightarrow> parse_int v = Some n \<Longrightarrow> in64 (n + d) \<Longrightarrow>
    \<exists>t. gr_HINCRBY G k f d s = Some (n + d, t) \<and> vw t = (vw s)(k := Some (RHash (h(f \<mapsto> show_int (n + d)))))"
begin

lemma increment_effect:
  assumes "increment (gr_base G) k ttl s = Some (c, s')" and "0 < ttl"
  shows "\<forall>j. j \<noteq> k \<longrightarrow> vw s' j = vw s j" and "is_str (vw s' k)"
proof -
  from assms(1) obtain s1 where i: "rINCRBY (gr_base G) k 1 s = Some s1" and s': "s' = s1 \<or> s' = rEXPIRE (gr_base G) k ttl s1"
    by (auto simp: increment_def split: option.splits if_splits)
  have "vw s' = vw s1" using s' EXPIRE(1) [OF assms(2)] by auto
  moreover obtain n where "int_val (vw s k) = Some n" "in64 (n + 1)"
    using i INCRBY_err [of s k 1] by (cases "int_val (vw s k)") auto
  then have "vw s1 = (vw s)(k := Some (RString (show_int (n + 1))))" using INCRBY_ok [of s k n 1] i by auto
  ultimately show "\<forall>j. j \<noteq> k \<longrightarrow> vw s' j = vw s j" "is_str (vw s' k)" by auto
qed

text \<open>One try against a captcha that is there.\<close>

lemma verify_try:
  fixes a' b' :: string
  assumes h: "vw s k = Some (RHash h)" "h ''answer_hmac'' = Some a" "h ''binding'' = Some b" "h ''attempts_left'' = Some (show_int n)" "in64 n" "0 < n"
  defines "ok \<equiv> (b', a') = (b, a)"
  shows "\<exists>t. registrationVerifyCaptchaScript G [k] [b', a'] s = (Some (if ok then 1 else 0), t)
    \<and> vw t = (vw s)(k := if ok \<or> n = 1 then None else Some (RHash (h(''attempts_left'' \<mapsto> show_int (n - 1)))))"
proof -
  have ex: "rEXISTS (gr_base G) k s" and get: "rHGET (gr_base G) k f s = h f" for f using h(1) by (simp_all add: EXISTS HGET)
  show ?thesis
  proof (cases ok)
    case True
    with ex get h show ?thesis by (auto simp: registrationVerifyCaptchaScript_def ok_def Let_def DEL)
  next
    case False
    have "in64 (n + - 1)" using h(5,6) by (auto simp: in64_def)
    with HINCRBY [OF h(1,4), where n = n and d = "-1"] parse_show_int [of n] h(5) obtain t where t: "gr_HINCRBY G k ''attempts_left'' (-1) s = Some (n - 1, t)"
      "vw t = (vw s)(k := Some (RHash (h(''attempts_left'' \<mapsto> show_int (n - 1)))))" by auto
    with False ex get h show ?thesis by (auto simp: registrationVerifyCaptchaScript_def ok_def Let_def DEL)
  qed
qed

lemma verify_gone: "vw s k = None \<Longrightarrow> registrationVerifyCaptchaScript G [k] [b', a'] s = (Some 0, s)"
  by (simp add: registrationVerifyCaptchaScript_def Let_def EXISTS)

lemma verify_run_gone:
  assumes "gc_Eval K = direct_exec" and "vw s (captchaKey g i) = None" and "j < length tries"
  shows "verify_run C G K g i tries s ! j = Inr False"
  using assms(3)
proof (induction tries arbitrary: j)
  case (Cons t tries)
  obtain b a where t: "t = (b, a)" by (cases t)
  have "verifyCaptcha C G K g i b a s = (Inr False, s)"
    by (rule verify_direct [OF assms(1) verify_gone [OF assms(2)], simplified])
  with Cons t show ?case by (cases j) auto
qed simp

lemma verify_run_tries:
  assumes "gc_Eval K = direct_exec"
  shows "vw s (captchaKey g i) = Some (RHash h) \<Longrightarrow> h ''answer_hmac'' = Some (answerHMAC C g answer) \<Longrightarrow> h ''binding'' = Some binding
    \<Longrightarrow> h ''attempts_left'' = Some (show_int (int n)) \<Longrightarrow> in64 (int n) \<Longrightarrow> 0 < n \<Longrightarrow> j < length tries
    \<Longrightarrow> verify_run C G K g i tries s ! j
      = Inr (right_try C g binding answer (tries ! j) \<and> j < n \<and> (\<forall>k < j. \<not> right_try C g binding answer (tries ! k)))"
proof (induction tries arbitrary: s h n j)
  case (Cons t tries)
  obtain b a where t: "t = (b, a)" by (cases t)
  let ?ok = "right_try C g binding answer t"
  from verify_try [OF Cons.prems(1-5), of b "answerHMAC C g a"] Cons.prems(6) obtain s' where
    v: "registrationVerifyCaptchaScript G [captchaKey g i] [b, answerHMAC C g a] s = (Some (if ?ok then 1 else 0), s')"
      "vw s' = (vw s)(captchaKey g i := if ?ok \<or> n = 1 then None else Some (RHash (h(''attempts_left'' \<mapsto> show_int (int n - 1)))))"
    by (auto simp: right_try_def t)
  have run: "verify_run C G K g i (t # tries) s = Inr ?ok # verify_run C G K g i tries s'"
    using verify_direct [OF assms v(1)] by (simp add: t)
  show ?case
  proof (cases j)
    case 0
    with run Cons.prems show ?thesis by simp
  next
    case (Suc j')
    with Cons.prems have j': "j' < length tries" by simp
    have all: "(\<forall>k < j. \<not> right_try C g binding answer ((t # tries) ! k)) \<longleftrightarrow> \<not> ?ok \<and> (\<forall>k < j'. \<not> right_try C g binding answer (tries ! k))"
      unfolding Suc by (simp add: All_less_Suc2)
    show ?thesis
    proof (cases "?ok \<or> n = 1")
      case True
      then have "vw s' (captchaKey g i) = None" using v(2) by simp
      from verify_run_gone [OF assms this j'] True run Suc show ?thesis unfolding all by auto
    next
      case False
      let ?h = "h(''attempts_left'' \<mapsto> show_int (int n - 1))"
      have n: "int n - 1 = int (n - 1)" "0 < n - 1" using False Cons.prems(6) by auto
      have "vw s' (captchaKey g i) = Some (RHash ?h)" using v(2) False by simp
      moreover have "?h ''answer_hmac'' = Some (answerHMAC C g answer)" "?h ''binding'' = Some binding" using Cons.prems(2,3) by simp_all
      moreover have "?h ''attempts_left'' = Some (show_int (int (n - 1)))" unfolding n(1) by (rule fun_upd_same)
      moreover have "in64 (int (n - 1))" using Cons.prems(5) by (auto simp: in64_def)
      ultimately have "verify_run C G K g i tries s' ! j'
        = Inr (right_try C g binding answer (tries ! j') \<and> j' < n - 1 \<and> (\<forall>k < j'. \<not> right_try C g binding answer (tries ! k)))"
        using n(2) j' by (rule Cons.IH)
      with False run Suc show ?thesis unfolding all by auto
    qed
  qed
qed simp

text \<open>What a captcha is stored as.\<close>

lemma issue_key_other: "CHR '':'' \<notin> set i \<Longrightarrow> captchaKey g i \<noteq> rgd_keyBase g @ '':register:captcha:issue:'' @ ip @ '':'' @ m"
  unfolding captchaKey_def by (auto dest: arg_cong [where f = "\<lambda>xs. CHR '':'' \<in> set xs"])

lemma issued_captcha:
  assumes K: "gc_Eval K = direct_exec"
    and issued: "Guard_IssueCaptcha C G K (Inr i) draw g mobile clientIP s = (Inr captcha, t)"
    and i: "CHR '':'' \<notin> set i" and str: "\<not> is_str (vw s (captchaKey g i))"
    and ints: "in64 (rgd_CaptchaMaxAttempts g)" "in64 (rgd_CaptchaTTL g div 1000000000)" "in64 (rgd_CaptchaIssuesPerMinute g)" "1000000000 \<le> rgd_CaptchaTTL g"
  obtains ipKey mobileKey binding h where "identities C g clientIP mobile = Inr (ipKey, mobileKey, binding)"
    and "vw t (captchaKey g i) = Some (RHash h)" and "h ''answer_hmac'' = Some (answerHMAC C g (fst (draw i)))"
    and "h ''binding'' = Some binding" and "h ''attempts_left'' = Some (show_int (rgd_CaptchaMaxAttempts g))" and "rc_ID captcha = i"
proof -
  from issued obtain ipKey mobileKey binding where ids: "identities C g clientIP mobile = Inr (ipKey, mobileKey, binding)"
    by (auto simp: Guard_IssueCaptcha_def go_simps split: sum.splits)
  let ?args = "[ipKey, i, answerHMAC C g (fst (draw i)), binding, show_int (rgd_CaptchaMaxAttempts g), show_int (rgd_CaptchaTTL g div 1000000000), show_int (rgd_CaptchaIssuesPerMinute g)]"
  have run: "registrationIssueCaptchaScript G [rgd_keyBase g] ?args s = (Some 1, t)" and c: "rc_ID captcha = i"
    using issued ids K by (auto simp: Guard_IssueCaptcha_def attemptG_def direct_exec_def go_simps split: prod.splits sum.splits option.splits if_splits)
  let ?issue = "rgd_keyBase g @ '':register:captcha:issue:'' @ ipKey @ '':'' @ show_int (gr_TIME G s div 60)"
  from run ints obtain count s1 where inc: "increment (gr_base G) ?issue 120 s = Some (count, s1)"
    and t: "t = rEXPIRE (gr_base G) (captchaKey g i) (rgd_CaptchaTTL g div 1000000000)
      (rHSET (gr_base G) (captchaKey g i) [(''answer_hmac'', answerHMAC C g (fst (draw i))), (''binding'', binding), (''attempts_left'', show_int (rgd_CaptchaMaxAttempts g))] s1)"
    by (auto simp: registrationIssueCaptchaScript_def Let_def parse_show_int captchaKey_def split: option.splits prod.splits if_splits)
  have "vw s1 (captchaKey g i) = vw s (captchaKey g i)" using increment_effect(1) [OF inc] issue_key_other [OF i] by simp
  with str have "\<not> is_str (vw s1 (captchaKey g i))" by simp
  from HSET(1) [OF this] EXPIRE(1) [where ttl = "rgd_CaptchaTTL g div 1000000000"] ints(4)
  have "vw t (captchaKey g i) = Some (RHash (hash_val (vw s1 (captchaKey g i)) ++ map_of (rev
    [(''answer_hmac'', answerHMAC C g (fst (draw i))), (''binding'', binding), (''attempts_left'', show_int (rgd_CaptchaMaxAttempts g))])))"
    unfolding t by (simp add: zdiv_mono1 [where a = 1000000000 and b = 1000000000, simplified])
  with ids c that show thesis by (auto simp: map_add_def)
qed

end

section \<open>A server with the additional commands\<close>

definition keyspace_guard :: "int \<Rightarrow> keyspace guard_redis" where
  "keyspace_guard now = \<lparr>gr_base = keyspace_redis, gr_TIME = (\<lambda>_. now),
     gr_HINCRBY = (\<lambda>k f d s. case hash_val (ks_val s k) f of
        None \<Rightarrow> None
      | Some v \<Rightarrow> (case parse_int v of
          None \<Rightarrow> None
        | Some n \<Rightarrow> if in64 (n + d)
            then Some (n + d, s\<lparr>ks_val := (ks_val s)(k := Some (RHash ((hash_val (ks_val s k))(f \<mapsto> show_int (n + d)))))\<rparr>) else None))\<rparr>"

interpretation keyspace_guard: guard_server "keyspace_guard now" ks_val ks_ttl
proof -
  have base: "gr_base (keyspace_guard now) = keyspace_redis" by (simp add: keyspace_guard_def)
  show "guard_server (keyspace_guard now) ks_val ks_ttl"
    unfolding guard_server_def guard_server_axioms_def base
    using keyspace.redis_server_axioms by (auto simp: keyspace_guard_def)
qed

section \<open>Captchas\<close>


definition sample_guard :: RegistrationGuard where
  "sample_guard = \<lparr>rgd_keyBase = ''th'', rgd_CaptchaTriggerPerSecond = 3, rgd_IPRequestsPerMinute = 30, rgd_MobileRequestsPerMinute = 10,
     rgd_CaptchaIssuesPerMinute = 20, rgd_CaptchaMaxAttempts = 2, rgd_CaptchaTTL = 120000000000, rgd_BloomVersion = ''v1'', rgd_BloomBits = 1000,
     rgd_BloomHashFunctions = 3, rgd_BloomBootstrapBatchSize = 500, rgd_secret = ''secret''\<rparr>"

definition sample_guard_client :: "keyspace guard_client" where
  "sample_guard_client = \<lparr>gc_Eval = direct_exec, gc_Get = (\<lambda>k. returnG None), gc_GetBit = (\<lambda>k i. returnG False),
     gc_SetBit = (\<lambda>k i. returnG ()), gc_SetNX = (\<lambda>k v d. returnG False), gc_Del = (\<lambda>ks. returnG ()), gc_Set = (\<lambda>k v. returnG ())\<rparr>"

definition sample_issue :: "(error + RegisterCaptcha) \<times> keyspace" where
  "sample_issue = Guard_IssueCaptcha sample_crypto (keyspace_guard 90) sample_guard_client (Inr ''id'') (\<lambda>i. (''42'', Inr ''png''))
     sample_guard ''138'' ''10.0.0.1'' \<lparr>ks_val = Map.empty, ks_ttl = {}\<rparr>"

lemma sample_issued: "fst sample_issue = Inr \<lparr>rc_ID = ''id'', rc_Image = ''png'', rc_ExpiresIn = 120000000000\<rparr>"
  by code_simp


end
