(* ===== verification/Http.thy ===== *)
theory Http
  imports Events
begin

text \<open>
  Requests and responses as the HTTP handlers of the services see them, and the helpers of \<open>src/pkg/httpx\<close>: decoding a JSON body,
  writing a result or an error, numbers that may come quoted, and the address of the client behind reverse proxies.

  A request keeps what a handler reads of it: the first value of each header and of each query parameter (the empty text if there is
  none), the raw query, the body and the address of the peer. The text form of JSON is a parameter. Of \<open>net/netip\<close> the functions
  that the code calls are a parameter.
\<close>

record Request =
  rq_Method :: string
  rq_Path :: string
  rq_Query :: "string \<Rightarrow> string"
  rq_RawQuery :: string
  rq_Header :: "string \<Rightarrow> string"
  rq_Body :: string
  rq_RemoteAddr :: string

datatype http_body = NoBody | JSONBody json | RawBody string

record http_response =
  rs_Status :: int
  rs_Header :: "(string \<times> string) list"
  rs_Body :: http_body

abbreviation MethodGet :: string where "MethodGet \<equiv> ''GET''"
abbreviation MethodPost :: string where "MethodPost \<equiv> ''POST''"

abbreviation StatusMethodNotAllowed :: http_response where
  "StatusMethodNotAllowed \<equiv> \<lparr>rs_Status = 405, rs_Header = [], rs_Body = NoBody\<rparr>"

section \<open>JSON in and out\<close>

definition DecodeJSON :: "(string \<Rightarrow> json option) \<Rightarrow> (json \<Rightarrow> 'a option) \<Rightarrow> Request \<Rightarrow> error + 'a" where
  "DecodeJSON parse read r = (case Option.bind (parse (rq_Body r)) read of
     None \<Rightarrow> Inl (Wrap CodeInvalidArgument ''invalid json body'' (PlainError ''json: cannot unmarshal''))
   | Some req \<Rightarrow> Inr req)"

definition WriteJSON :: "int \<Rightarrow> json \<Rightarrow> http_response" where
  "WriteJSON st payload = \<lparr>rs_Status = st, rs_Header = [(''Content-Type'', ''application/json; charset=utf-8'')], rs_Body = JSONBody payload\<rparr>"

definition WriteOK :: "json \<Rightarrow> http_response" where
  "WriteOK data = WriteJSON 200 (JObj [(''code'', JStr CodeOK), (''message'', JStr ''OK''), (''data'', data)])"

definition WriteError :: "error \<Rightarrow> http_response" where
  "WriteError err = (let code = CodeOf (Some err) in
     WriteJSON (HTTPStatus code) (JObj [(''code'', JStr code), (''message'', JStr (PublicMessage code))]))"

definition InvalidArgument :: "string \<Rightarrow> error" where
  "InvalidArgument message = New CodeInvalidArgument message"

definition Unauthenticated :: "string \<Rightarrow> error" where
  "Unauthenticated message = New CodeUnauthenticated message"

definition Forbidden :: "string \<Rightarrow> error" where
  "Forbidden message = New CodeForbidden message"

text \<open>A handler that writes the error of the call that failed, or the data.\<close>

definition respond :: "('w, json) go \<Rightarrow> 'w \<Rightarrow> http_response \<times> 'w" where
  "respond m w = (case m w of (Inl e, w') \<Rightarrow> (WriteError e, w') | (Inr data, w') \<Rightarrow> (WriteOK data, w'))"

definition resultG :: "error + 'a \<Rightarrow> ('w, 'a) go" where
  "resultG r = (case r of Inl e \<Rightarrow> failG e | Inr x \<Rightarrow> returnG x)"

text \<open>Reading the body of a request into a struct; missing fields are null.\<close>

definition decode_body :: "(string \<Rightarrow> json option) \<Rightarrow> ((string \<Rightarrow> json) \<Rightarrow> 'b option) \<Rightarrow> Request \<Rightarrow> ('w, 'b) go" where
  "decode_body parse read r = resultG (DecodeJSON parse (\<lambda>d. case d of JObj fs \<Rightarrow> read (\<lambda>f. field f fs) | JNull \<Rightarrow> read (\<lambda>_. JNull) | _ \<Rightarrow> None) r)"

text \<open>A server calls the handler of the path; other paths are answered with 404.\<close>

type_synonym 'w http_handler = "Request \<Rightarrow> 'w \<Rightarrow> http_response \<times> 'w"

definition serve_routes :: "(string \<times> 'w http_handler) list \<Rightarrow> 'w http_handler" where
  "serve_routes handlers r = (case map_of handlers (rq_Path r) of
     Some handle \<Rightarrow> handle r
   | None \<Rightarrow> Pair \<lparr>rs_Status = 404, rs_Header = [], rs_Body = NoBody\<rparr>)"

section \<open>Numbers\<close>

definition Int64_UnmarshalJSON :: "json \<Rightarrow> int64 option" where
  "Int64_UnmarshalJSON v = (case v of
     JNull \<Rightarrow> Some 0
   | JStr raw \<Rightarrow> parse_int raw
   | JInt n \<Rightarrow> if in64 n then Some n else None
   | _ \<Rightarrow> None)"

definition Int64Slice_UnmarshalJSON :: "json \<Rightarrow> int64 list option" where
  "Int64Slice_UnmarshalJSON v = (case v of
     JNull \<Rightarrow> Some []
   | JArr values \<Rightarrow> get_all Int64_UnmarshalJSON values
   | _ \<Rightarrow> None)"

definition get_bool :: "json \<Rightarrow> bool option" where
  "get_bool v = (case v of JNull \<Rightarrow> Some False | JBool b \<Rightarrow> Some b | _ \<Rightarrow> None)"

definition get_int32 :: "json \<Rightarrow> int option" where
  "get_int32 v = (case get_int v of Some n \<Rightarrow> if - (2 ^ 31) \<le> n \<and> n < 2 ^ 31 then Some n else None | None \<Rightarrow> None)"

text \<open>
  \<open>n, _ := strconv.ParseInt(s, 10, 64)\<close>: the value where the error is ignored is 0 for a text that is no number, and the nearest bound
  for a number that is out of range.
\<close>

definition parse_int_or_bound :: "string \<Rightarrow> int64" where
  "parse_int_or_bound s =
     (let neg = (s \<noteq> [] \<and> hd s = CHR ''-'');
          ds = (if s \<noteq> [] \<and> (hd s = CHR ''-'' \<or> hd s = CHR ''+'') then tl s else s);
          v = (if neg then - int (digits_val ds) else int (digits_val ds))
      in if ds = [] \<or> \<not> list_all is_digit ds then 0 else max (- (2 ^ 63)) (min (2 ^ 63 - 1) v))"

lemma parse_int_or_bound: "parse_int s = Some n \<Longrightarrow> parse_int_or_bound s = n"
  by (auto simp: parse_int_def parse_int_or_bound_def Let_def in64_def split: if_splits)

section \<open>The caller\<close>

text \<open>
  Behind the gateway a service knows the caller from a header (the names are in \<open>pkg/auth\<close>). Where the header is missing it takes the
  user of the body, or of the query.
\<close>

abbreviation UserIDHeader :: string where "UserIDHeader \<equiv> ''X-TicketHub-User-ID''"
abbreviation RoleHeader :: string where "RoleHeader \<equiv> ''X-TicketHub-Role''"

definition caller_or :: "Request \<Rightarrow> int64 \<Rightarrow> ('w, int64) go" where
  "caller_or r userID = (let raw = rq_Header r UserIDHeader in
     if raw = [] then returnG userID
     else case parse_int raw of
       None \<Rightarrow> failG (Unauthenticated ''invalid authenticated user'')
     | Some u \<Rightarrow> returnG u)"

definition caller_or_query :: "Request \<Rightarrow> ('w, int64) go" where
  "caller_or_query r = (let raw = rq_Header r UserIDHeader in
     case parse_int (if raw \<noteq> [] then raw else rq_Query r ''user_id'') of
       None \<Rightarrow> failG (InvalidArgument ''invalid query: user_id'')
     | Some u \<Rightarrow> returnG u)"

lemma caller_known:
  assumes "in64 u" and "rq_Header r UserIDHeader = show_int u"
  shows "caller_or r x = returnG u" and "caller_or_query r = returnG u"
proof -
  have "show_int u \<noteq> []" by (simp add: show_int_def show_nat_ne)
  with assms show "caller_or r x = returnG u" "caller_or_query r = returnG u"
    by (simp_all add: caller_or_def caller_or_query_def Let_def parse_show_int)
qed

text \<open>Identifiers are written quoted, and read back whether quoted or not.\<close>

lemma id_round_trip: "in64 n \<Longrightarrow> Int64_UnmarshalJSON (JStr (show_int n)) = Some n" "in64 n \<Longrightarrow> Int64_UnmarshalJSON (JInt n) = Some n"
  by (simp_all add: Int64_UnmarshalJSON_def parse_show_int)

section \<open>The address of the client\<close>

record 'a netip =
  ni_SplitHost :: "string \<Rightarrow> string option"
  ni_ParseAddr :: "string \<Rightarrow> 'a option"
  ni_Unmap :: "'a \<Rightarrow> 'a"
  ni_String :: "'a \<Rightarrow> string"
  ni_ParsePrefix :: "string \<Rightarrow> error + ('a \<Rightarrow> bool)"

type_synonym 'a ClientIPResolver = "('a \<Rightarrow> bool) list"

fun NewClientIPResolver :: "'a netip \<Rightarrow> string list \<Rightarrow> error + 'a ClientIPResolver" where
  "NewClientIPResolver N [] = Inr []"
| "NewClientIPResolver N (raw # rawCIDRs) =
     (let value = trim_space raw in
      if value = [] then NewClientIPResolver N rawCIDRs
      else case ni_ParsePrefix N value of
        Inl e \<Rightarrow> Inl e
      | Inr prefix \<Rightarrow> (case NewClientIPResolver N rawCIDRs of Inl e \<Rightarrow> Inl e | Inr trusted \<Rightarrow> Inr (prefix # trusted)))"

definition isTrusted :: "'a ClientIPResolver \<Rightarrow> 'a \<Rightarrow> bool" where
  "isTrusted trusted address = list_ex (\<lambda>prefix. prefix address) trusted"

definition parseAddress :: "'a netip \<Rightarrow> string \<Rightarrow> 'a option" where
  "parseAddress N value =
     (let value = trim_space value; value = (case ni_SplitHost N value of None \<Rightarrow> value | Some host \<Rightarrow> host) in
      map_option (ni_Unmap N) (ni_ParseAddr N value))"

text \<open>The loop over the parts of \<open>X-Forwarded-For\<close>, the last part first.\<close>

fun forwarded_for :: "'a netip \<Rightarrow> 'a ClientIPResolver \<Rightarrow> string list \<Rightarrow> 'a option" where
  "forwarded_for N trusted [] = None"
| "forwarded_for N trusted (part # parts) = (case parseAddress N (trim_space part) of
     Some candidate \<Rightarrow> if \<not> isTrusted trusted candidate then Some candidate else forwarded_for N trusted parts
   | None \<Rightarrow> forwarded_for N trusted parts)"

definition Client_Resolve :: "'a netip \<Rightarrow> 'a ClientIPResolver \<Rightarrow> Request \<Rightarrow> string" where
  "Client_Resolve N trusted request = (case parseAddress N (rq_RemoteAddr request) of
     None \<Rightarrow> []
   | Some peer \<Rightarrow>
       if \<not> isTrusted trusted peer then ni_String N peer
       else case forwarded_for N trusted (rev (split_on (CHR '','') (rq_Header request ''X-Forwarded-For''))) of
         Some candidate \<Rightarrow> ni_String N candidate
       | None \<Rightarrow> (case parseAddress N (rq_Header request ''X-Real-IP'') of
           Some value \<Rightarrow> if \<not> isTrusted trusted value then ni_String N value else ni_String N peer
         | None \<Rightarrow> ni_String N peer))"

lemma split_on_last: "split_on sep (s @ sep # t) = split_on sep s @ split_on sep t"
proof (induction s)
  case (Cons c s)
  have "split_on sep s \<noteq> []" by (cases s) auto
  with Cons show ?case by auto
qed simp

lemma forwarded_for_skip:
  assumes "\<And>p. p \<in> set ps \<Longrightarrow> \<exists>a. parseAddress N (trim_space p) = Some a \<and> isTrusted trusted a"
  shows "forwarded_for N trusted (ps @ qs) = forwarded_for N trusted qs"
  using assms by (induction ps) fastforce+

lemma split_on_proxies:
  assumes "\<And>p. p \<in> set proxies \<Longrightarrow> sep \<notin> set p" and "sep \<notin> set source"
  shows "split_on sep (source @ concat (map (\<lambda>p. sep # p) proxies)) = source # proxies"
  using assms
proof (induction proxies arbitrary: source)
  case (Cons p ps)
  then show ?case by (simp add: split_on_append)
qed (simp add: split_on_plain)

text \<open>
  C40. The address by which registrations are limited is not the client's to choose: a peer that is not a trusted proxy is known by its
  own address, whatever headers it sends; behind trusted proxies, each of which appends the address it was called from, the client is the
  address that the outermost proxy saw, whatever the client had put before it.
\<close>

theorem client_ip_not_spoofed:
  assumes peer: "parseAddress N (rq_RemoteAddr r) = Some peer"
    and chain: "isTrusted trusted peer \<Longrightarrow> rq_Header r ''X-Forwarded-For'' = claimed @ source @ concat (map (\<lambda>p. CHR '','' # p) proxies)"
    and claimed: "claimed = [] \<or> last claimed = CHR '',''"
    and source: "CHR '','' \<notin> set source" "parseAddress N (trim_space source) = Some address" "\<not> isTrusted trusted address"
    and proxies: "\<And>p. p \<in> set proxies \<Longrightarrow> CHR '','' \<notin> set p \<and> (\<exists>a. parseAddress N (trim_space p) = Some a \<and> isTrusted trusted a)"
  shows "Client_Resolve N trusted r = ni_String N (if isTrusted trusted peer then address else peer)"
proof (cases "isTrusted trusted peer")
  case True
  let ?parts = "split_on (CHR '','') (rq_Header r ''X-Forwarded-For'')"
  have s: "split_on (CHR '','') (source @ concat (map (\<lambda>p. CHR '','' # p) proxies)) = source # proxies"
    using proxies source(1) by (intro split_on_proxies) auto
  have "\<exists>front. ?parts = front @ source # proxies"
  proof (cases "claimed = []")
    case False
    then obtain c where "claimed = c @ [CHR '','']" using claimed by (metis append_butlast_last_id)
    then show ?thesis using chain [OF True] s split_on_last [of "CHR '',''" c] by auto
  qed (use chain [OF True] s in auto)
  then obtain front where "rev ?parts = rev proxies @ source # rev front" by auto
  then have "forwarded_for N trusted (rev ?parts) = Some address"
    using forwarded_for_skip [of "rev proxies" N trusted "source # rev front"] proxies source(2,3) by auto
  then show ?thesis using True peer by (simp add: Client_Resolve_def)
qed (use peer in \<open>simp add: Client_Resolve_def\<close>)

text \<open>Addresses as texts: one proxy, known by its name.\<close>

definition sample_netip :: "string netip" where
  "sample_netip = \<lparr>ni_SplitHost = (\<lambda>_. None), ni_ParseAddr = Some, ni_Unmap = id, ni_String = id, ni_ParsePrefix = (\<lambda>p. Inr (\<lambda>a. a = p))\<rparr>"

theorem client_ip_not_spoofed_witness:
  "Client_Resolve sample_netip [\<lambda>a. a = ''10.0.0.5''] \<lparr>rq_Method = ''POST'', rq_Path = ''/'', rq_Query = (\<lambda>_. []), rq_RawQuery = [],
      rq_Header = (\<lambda>h. if h = ''X-Forwarded-For'' then ''1.2.3.4,198.51.100.20,10.0.0.5'' else []), rq_Body = [], rq_RemoteAddr = ''10.0.0.5''\<rparr> = ''198.51.100.20''"
proof -
  let ?r = "\<lparr>rq_Method = ''POST'', rq_Path = ''/'', rq_Query = (\<lambda>_. []), rq_RawQuery = [],
      rq_Header = (\<lambda>h. if h = ''X-Forwarded-For'' then ''1.2.3.4,198.51.100.20,10.0.0.5'' else []), rq_Body = [], rq_RemoteAddr = ''10.0.0.5''\<rparr>"
  have p: "parseAddress sample_netip ''10.0.0.5'' = Some ''10.0.0.5''" "parseAddress sample_netip (trim_space ''10.0.0.5'') = Some ''10.0.0.5''"
    "parseAddress sample_netip (trim_space ''198.51.100.20'') = Some ''198.51.100.20''" by code_simp+
  from client_ip_not_spoofed [of sample_netip ?r "''10.0.0.5''" "[\<lambda>a. a = ''10.0.0.5'']" "''1.2.3.4,''" "''198.51.100.20''" "[''10.0.0.5'']" "''198.51.100.20''"] p
  show ?thesis by (simp add: isTrusted_def sample_netip_def)
qed

end
