(* ===== verification/User_Server.thy ===== *)
theory User_Server
  imports User_Accounts Migration
begin

text \<open>
  The gRPC server of the user service (\<open>src/app/user-service/internal/interfaces/grpc/server.go\<close>): replies carry masked mobile
  numbers, names and certificate numbers.
\<close>

record UserReply =
  upr_UserId :: int64
  upr_Mobile :: string
  upr_RealNameStatus :: string

record RegisterCaptchaReply =
  rcr_CaptchaId :: string
  rcr_Image :: string
  rcr_ExpiresInSeconds :: int

record TicketUserReply =
  tup_Id :: int64
  tup_Name :: string
  tup_CertificateNo :: string

definition userReply :: "int64 \<Rightarrow> string \<Rightarrow> string \<Rightarrow> UserReply" where
  "userReply i mobile realNameStatus = \<lparr>upr_UserId = i, upr_Mobile = MaskMobile mobile, upr_RealNameStatus = realNameStatus\<rparr>"

definition UserSrv_Register :: "'w UserCommandService \<Rightarrow> RegisterCommand \<Rightarrow> ('w, UserReply) go" where
  "UserSrv_Register S req = bindG (Register S req) (\<lambda>created. returnG (userReply (us_ID created) (us_Mobile created) (us_RealNameStatus created)))"

definition UserSrv_CreateRegisterCaptcha :: "'w UserCommandService \<Rightarrow> string \<Rightarrow> string \<Rightarrow> ('w, RegisterCaptchaReply) go" where
  "UserSrv_CreateRegisterCaptcha S mobile clientIP = bindG (CreateRegisterCaptcha S mobile clientIP) (\<lambda>challenge.
     returnG \<lparr>rcr_CaptchaId = rc_ID challenge, rcr_Image = rc_Image challenge, rcr_ExpiresInSeconds = wrap32 (rc_ExpiresIn challenge div 1000000000)\<rparr>)"

definition UserSrv_Login :: "'w UserCommandService \<Rightarrow> string \<Rightarrow> string \<Rightarrow> ('w, string \<times> UserReply) go" where
  "UserSrv_Login S mobile password = bindG (Login S mobile password) (\<lambda>(token, user).
     returnG (token, userReply (us_ID user) (us_Mobile user) (us_RealNameStatus user)))"

definition UserSrv_GetUser :: "'w UserCommandService \<Rightarrow> int64 \<Rightarrow> ('w, UserReply) go" where
  "UserSrv_GetUser S userID = bindG (GetUser S userID) (\<lambda>current. returnG (userReply (us_ID current) (us_Mobile current) (us_RealNameStatus current)))"

definition ticket_user_reply :: "TicketUser \<Rightarrow> TicketUserReply" where
  "ticket_user_reply item = \<lparr>tup_Id = tu_ID item, tup_Name = MaskName (tu_Name item), tup_CertificateNo = MaskCertificate (tu_CertificateNo item)\<rparr>"

definition UserSrv_ListTicketUsers :: "'w UserCommandService \<Rightarrow> int64 \<Rightarrow> ('w, TicketUserReply list) go" where
  "UserSrv_ListTicketUsers S userID = bindG (ListTicketUsers S userID) (\<lambda>items. returnG (map ticket_user_reply items))"

definition UserSrv_AddTicketUser :: "'w UserCommandService \<Rightarrow> AddTicketUserCommand \<Rightarrow> ('w, TicketUserReply) go" where
  "UserSrv_AddTicketUser S req = bindG (AddTicketUser S req) (\<lambda>item. returnG (ticket_user_reply item))"

end
