(* ===== verification/Gateway.thy ===== *)
theory Gateway
  imports Http User_Server Order_Query Program_Repository Purchase
begin

text \<open>
  The gateway (\<open>src/app/gateway-bff/internal/interfaces/http/handler.go\<close>), through which clients reach all services: it checks the
  bearer token, and either calls a service over gRPC or, where no gRPC address is configured, forwards the request over HTTP.

  A handler is a function of the request and the state of the services. The generated gRPC clients are a parameter, the record
  \<open>GRPCClients\<close>, each service of which may be missing. A reply that is passed on as it is, is its JSON form. The HTTP client, the
  libraries for JSON, addresses and cryptography are fields of the handler.
\<close>

section \<open>The clients\<close>

record 'w UserClient =
  gu_Register :: "RegisterCommand \<Rightarrow> ('w, UserReply) go"
  gu_CreateRegisterCaptcha :: "string \<Rightarrow> string \<Rightarrow> ('w, RegisterCaptchaReply) go"
  gu_Login :: "string \<Rightarrow> string \<Rightarrow> ('w, string \<times> UserReply) go"
  gu_GetUser :: "int64 \<Rightarrow> ('w, UserReply) go"
  gu_ListTicketUsers :: "int64 \<Rightarrow> ('w, TicketUserReply list) go"
  gu_AddTicketUser :: "AddTicketUserCommand \<Rightarrow> ('w, TicketUserReply) go"

record 'w ProgramClient =
  gp_SearchProgram :: "string \<Rightarrow> string \<Rightarrow> string \<Rightarrow> int \<Rightarrow> int \<Rightarrow> ('w, ProgramSummary list \<times> string) go"
  gp_GetProgramDetail :: "int64 \<Rightarrow> int64 \<Rightarrow> ('w, DetailReply) go"
  gp_CreateOrder :: "CreateOrderCommand \<Rightarrow> ('w, int64) go"

record 'w OrderClient =
  go_ListOrders :: "int64 \<Rightarrow> string \<Rightarrow> string \<Rightarrow> int \<Rightarrow> ('w, OrderReply list \<times> string) go"
  go_GetOrder :: "int64 \<Rightarrow> int64 \<Rightarrow> ('w, OrderReply) go"
  go_CancelOrder :: "int64 \<Rightarrow> int64 \<Rightarrow> ('w, OrderReply) go"

record 'w PayClient =
  gy_CommonPay :: "int64 \<Rightarrow> int64 \<Rightarrow> string \<Rightarrow> int64 \<Rightarrow> ('w, string) go"
  gy_TradeCheck :: "int64 \<Rightarrow> string \<Rightarrow> int64 \<Rightarrow> ('w, json) go"

record 'w BaseClient =
  gb_ListAreas :: "int64 \<Rightarrow> ('w, json) go"
  gb_ListChannelData :: "('w, json) go"

record RunReconciliationReply =
  rr_Triggered :: bool
  rr_ProgramId :: int64
  rr_MismatchCount :: int64
  rr_RecordMismatchCount :: int64
  rr_InventoryMismatchCount :: int64
  rr_RepairedInventoryCount :: int64
  rr_InventoryDifferences :: json
  rr_DiscardOrderCount :: int64

record 'w AdminClient =
  ga_Dashboard :: "('w, json) go"
  ga_RunReconciliation :: "int64 \<Rightarrow> bool \<Rightarrow> ('w, RunReconciliationReply) go"

record 'w MigrateClient =
  gm_CreateTask :: "CreateTaskRequest \<Rightarrow> ('w, json) go"
  gm_ListShardMappings :: "('w, json) go"
  gm_ResumeTask :: "int64 \<Rightarrow> ('w, json) go"

record 'w GRPCClients =
  gc_user :: "'w UserClient option"
  gc_program :: "'w ProgramClient option"
  gc_order :: "'w OrderClient option"
  gc_pay :: "'w PayClient option"
  gc_base :: "'w BaseClient option"
  gc_custom :: "(string \<Rightarrow> string \<Rightarrow> string \<Rightarrow> ('w, json) go) option"
  gc_admin :: "'w AdminClient option"
  gc_migrate :: "'w MigrateClient option"

record ProxyRequest =
  px_Method :: string
  px_URL :: string
  px_RawQuery :: string
  px_Header :: "string \<Rightarrow> string"
  px_Body :: string

record ('w, 'a) Handler =
  gh_Do :: "ProxyRequest \<Rightarrow> ('w, http_response) go"
  gh_checkURL :: "string \<Rightarrow> error option"
  gh_upstreams :: "string \<rightharpoonup> string"
  gh_grpc :: "'w GRPCClients option"
  gh_secret :: string
  gh_nowUnix :: "'w \<Rightarrow> int64"
  gh_clientIPs :: "'a ClientIPResolver"
  gh_crypto :: crypto
  gh_json :: json_text
  gh_netip :: "'a netip"

definition defaultUpstreams :: "string \<rightharpoonup> string" where
  "defaultUpstreams = map_of
     [(''user-service'', ''http://127.0.0.1:8001''), (''program-service'', ''http://127.0.0.1:8002''),
      (''order-service'', ''http://127.0.0.1:8003''), (''pay-service'', ''http://127.0.0.1:8004''),
      (''base-data-service'', ''http://127.0.0.1:8005''), (''customize-service'', ''http://127.0.0.1:8006''),
      (''admin-service'', ''http://127.0.0.1:8007''), (''migrate-service'', ''http://127.0.0.1:8008'')]"

text \<open>The addresses of \<open>NewHandlerWithGRPC\<close>: the defaults, overwritten by the configured ones, without trailing slashes.\<close>

definition trim_right :: "(char \<Rightarrow> bool) \<Rightarrow> string \<Rightarrow> string" where
  "trim_right p s = rev (dropWhile p (rev s))"

definition merge_upstreams :: "(string \<times> string) list \<Rightarrow> string \<rightharpoonup> string" where
  "merge_upstreams upstreams =
     fold (\<lambda>(key, value) copied. if trim_space value \<noteq> [] then copied(key \<mapsto> trim_right (\<lambda>c. c = CHR ''/'') value) else copied) upstreams defaultUpstreams"

section \<open>Who is calling\<close>

definition parseBearer :: "('w, 'a) Handler \<Rightarrow> Request \<Rightarrow> ('w, Claims) go" where
  "parseBearer h r =
     (let header = rq_Header r ''Authorization'' in
      if take 7 header \<noteq> ''Bearer '' then failG (Unauthenticated ''missing bearer token'')
      else bindG (getG (gh_nowUnix h)) (\<lambda>now. resultG (Parse (gh_crypto h) (gh_json h) (gh_secret h) now (trim_space (drop 7 header)))))"

definition requireAdmin :: "('w, 'a) Handler \<Rightarrow> Request \<Rightarrow> ('w, Claims) go" where
  "requireAdmin h r = bindG (parseBearer h r) (\<lambda>claims.
     if cl_Role claims \<noteq> ''admin'' then failG (Forbidden ''admin role is required'') else returnG claims)"

section \<open>Forwarding\<close>

definition proxy :: "('w, 'a) Handler \<Rightarrow> string \<Rightarrow> string \<Rightarrow> 'w http_handler" where
  "proxy h service targetPath r w = (case gh_upstreams h service of
     None \<Rightarrow> (WriteError (InvalidArgument (''unknown upstream: '' @ service)), w)
   | Some baseURL \<Rightarrow> (case gh_checkURL h (baseURL @ targetPath) of
       Some e \<Rightarrow> (WriteError e, w)
     | None \<Rightarrow> (case gh_Do h \<lparr>px_Method = rq_Method r, px_URL = baseURL @ targetPath, px_RawQuery = rq_RawQuery r, px_Header = rq_Header r, px_Body = rq_Body r\<rparr> w of
         (Inl e, w') \<Rightarrow> (WriteError e, w')
       | (Inr resp, w') \<Rightarrow> (resp, w'))))"

definition publicProxy :: "('w, 'a) Handler \<Rightarrow> string \<Rightarrow> string \<Rightarrow> 'w http_handler" where
  "publicProxy h service targetPath = proxy h service targetPath"

text \<open>The request with the headers that name the caller.\<close>

definition with_caller :: "Claims \<Rightarrow> Request \<Rightarrow> Request" where
  "with_caller claims r = r\<lparr>rq_Header := (rq_Header r)(UserIDHeader := show_int (cl_UserID claims), RoleHeader := cl_Role claims)\<rparr>"

definition authProxy :: "('w, 'a) Handler \<Rightarrow> string \<Rightarrow> string \<Rightarrow> 'w http_handler" where
  "authProxy h service targetPath r w = (case parseBearer h r w of
     (Inl e, w') \<Rightarrow> (WriteError e, w')
   | (Inr claims, w') \<Rightarrow> proxy h service targetPath (with_caller claims r) w')"

definition adminProxy :: "('w, 'a) Handler \<Rightarrow> string \<Rightarrow> string \<Rightarrow> 'w http_handler" where
  "adminProxy h service targetPath r w = (case requireAdmin h r w of
     (Inl e, w') \<Rightarrow> (WriteError e, w')
   | (Inr claims, w') \<Rightarrow> proxy h service targetPath (with_caller claims r) w')"

section \<open>What clients see\<close>

definition public_user :: "UserReply \<Rightarrow> json" where
  "public_user reply = JObj [(''id'', JStr (show_int (upr_UserId reply))), (''mobile'', JStr (MaskMobile (upr_Mobile reply))),
     (''real_name_status'', JStr (upr_RealNameStatus reply))]"

definition public_ticket_user :: "TicketUserReply \<Rightarrow> json" where
  "public_ticket_user item = JObj [(''id'', JStr (show_int (tup_Id item))), (''name'', JStr (MaskName (tup_Name item))),
     (''certificate_no'', JStr (MaskCertificate (tup_CertificateNo item)))]"

definition publicProgramSummary :: "ProgramSummary \<Rightarrow> json" where
  "publicProgramSummary item = JObj [(''id'', JStr (show_int (sum_Id item))), (''title'', JStr (sum_Title item)), (''city'', JStr (sum_City item)),
     (''place'', JStr (sum_Place item)), (''show_time'', JStr (sum_ShowTime item)), (''status'', JStr (sum_Status item)),
     (''min_price_cent'', JInt (sum_MinPriceCent item))]"

definition publicProgramDetail :: "DetailReply \<Rightarrow> json" where
  "publicProgramDetail item =
     (let categories = map (\<lambda>category. JObj [(''id'', JStr (show_int (cr_Id category))), (''name'', JStr (cr_Name category)),
            (''price_cent'', JInt (cr_PriceCent category)), (''remain'', JInt (cr_Remain category))]) (dr_TicketCategories item);
          seats = map (\<lambda>seat. JObj [(''id'', JStr (show_int (sr_Id seat))), (''ticket_category_id'', JStr (show_int (sr_TicketCategoryId seat))),
            (''row_code'', JStr (sr_RowCode seat)), (''col_code'', JStr (sr_ColCode seat)), (''price_cent'', JInt (sr_PriceCent seat)),
            (''status'', JStr (sr_Status seat))]) (dr_Seats item)
      in JObj [(''id'', JStr (show_int (dr_Id item))), (''title'', JStr (dr_Title item)), (''city'', JStr (dr_City item)),
           (''place'', JStr (dr_Place item)), (''show_time'', JStr (dr_ShowTime item)), (''status'', JStr (dr_Status item)),
           (''ticket_categories'', JArr categories), (''seats'', JArr seats)])"

definition publicIDs :: "int64 list \<Rightarrow> json" where
  "publicIDs values = JArr (map (\<lambda>value. JStr (show_int value)) values)"

definition publicOrder :: "OrderReply \<Rightarrow> json" where
  "publicOrder item = JObj [(''order_number'', JStr (show_int (orp_OrderNumber item))), (''status'', JStr (orp_Status item)),
     (''amount_cent'', JInt (orp_AmountCent item)), (''program_id'', JStr (show_int (orp_ProgramId item))),
     (''ticket_category_id'', JStr (show_int (orp_TicketCategoryId item))), (''seat_ids'', publicIDs (orp_SeatIds item)),
     (''ticket_user_ids'', publicIDs (orp_TicketUserIds item)), (''created_at'', JStr (orp_CreatedAt item)), (''paid_at'', JStr (orp_PaidAt item)),
     (''canceled_at'', JStr (orp_CanceledAt item)), (''refunded_at'', JStr (orp_RefundedAt item))]"

section \<open>Users\<close>

text \<open>\<open>h.grpc == nil || h.grpc.user == nil\<close> decides between the two ways to a service.\<close>

definition grpc_client :: "('w GRPCClients \<Rightarrow> 'c option) \<Rightarrow> ('w, 'a) Handler \<Rightarrow> 'c option" where
  "grpc_client service h = Option.bind (gh_grpc h) service"

text \<open>Reading the body of a request into a struct.\<close>

definition decode :: "('w, 'a) Handler \<Rightarrow> ((string \<Rightarrow> json) \<Rightarrow> 'b option) \<Rightarrow> Request \<Rightarrow> ('w, 'b) go" where
  "decode h read r = decode_body (snd (gh_json h)) read r"

definition userRegister :: "('w, 'a) Handler \<Rightarrow> 'w http_handler" where
  "userRegister h r = (case grpc_client gc_user h of
     None \<Rightarrow> publicProxy h ''user-service'' ''/v1/users/register'' r
   | Some user \<Rightarrow>
       if rq_Method r \<noteq> MethodPost then Pair StatusMethodNotAllowed
       else respond (bindG (decode h (\<lambda>f. case (get_str (f ''mobile''), get_str (f ''password''), get_str (f ''captcha_id''), get_str (f ''captcha_answer'')) of
           (Some mobile, Some password, Some captchaID, Some captchaAnswer) \<Rightarrow> Some (mobile, password, captchaID, captchaAnswer) | _ \<Rightarrow> None) r)
         (\<lambda>(mobile, password, captchaID, captchaAnswer).
         bindG (gu_Register user \<lparr>rgc_Mobile = mobile, rgc_Password = password, rgc_ClientIP = Client_Resolve (gh_netip h) (gh_clientIPs h) r,
           rgc_CaptchaID = captchaID, rgc_CaptchaAnswer = captchaAnswer\<rparr>) (\<lambda>reply. returnG (public_user reply)))))"

definition userRegisterCaptcha :: "('w, 'a) Handler \<Rightarrow> 'w http_handler" where
  "userRegisterCaptcha h r = (case grpc_client gc_user h of
     None \<Rightarrow> publicProxy h ''user-service'' ''/v1/users/register/captcha'' r
   | Some user \<Rightarrow>
       if rq_Method r \<noteq> MethodPost then Pair StatusMethodNotAllowed
       else respond (bindG (decode h (\<lambda>f. get_str (f ''mobile'')) r) (\<lambda>mobile.
         bindG (gu_CreateRegisterCaptcha user mobile (Client_Resolve (gh_netip h) (gh_clientIPs h) r)) (\<lambda>reply.
         returnG (JObj [(''captcha_id'', JStr (rcr_CaptchaId reply)), (''image'', JStr (rcr_Image reply)),
           (''expires_in_seconds'', JInt (rcr_ExpiresInSeconds reply))])))))"

definition userLogin :: "('w, 'a) Handler \<Rightarrow> 'w http_handler" where
  "userLogin h r = (case grpc_client gc_user h of
     None \<Rightarrow> publicProxy h ''user-service'' ''/v1/users/login'' r
   | Some user \<Rightarrow>
       if rq_Method r \<noteq> MethodPost then Pair StatusMethodNotAllowed
       else respond (bindG (decode h (\<lambda>f. case (get_str (f ''mobile''), get_str (f ''password'')) of
           (Some mobile, Some password) \<Rightarrow> Some (mobile, password) | _ \<Rightarrow> None) r) (\<lambda>(mobile, password).
         bindG (gu_Login user mobile password) (\<lambda>(token, reply).
         returnG (JObj [(''access_token'', JStr token), (''user'', public_user reply)])))))"

definition userDetail :: "('w, 'a) Handler \<Rightarrow> 'w http_handler" where
  "userDetail h r w = (case parseBearer h r w of
     (Inl e, w') \<Rightarrow> (WriteError e, w')
   | (Inr claims, w') \<Rightarrow> (case grpc_client gc_user h of
       None \<Rightarrow> authProxy h ''user-service'' ''/v1/users/detail'' r
     | Some user \<Rightarrow>
         if rq_Method r \<noteq> MethodGet then Pair StatusMethodNotAllowed
         else let get = (\<lambda>userID. bindG (gu_GetUser user userID) (\<lambda>reply. returnG (public_user reply))); raw = rq_Query r ''user_id'' in
           respond (if raw \<noteq> [] \<and> cl_Role claims = ''admin''
             then (case parse_int raw of None \<Rightarrow> failG (InvalidArgument ''invalid query: user_id'') | Some userID \<Rightarrow> get userID)
             else get (cl_UserID claims))) w')"

definition ticketUsers :: "('w, 'a) Handler \<Rightarrow> 'w http_handler" where
  "ticketUsers h r w = (case parseBearer h r w of
     (Inl e, w') \<Rightarrow> (WriteError e, w')
   | (Inr claims, w') \<Rightarrow> (case grpc_client gc_user h of
       None \<Rightarrow> proxy h ''user-service'' ''/v1/users/ticket-users'' (with_caller claims r)
     | Some user \<Rightarrow>
         if rq_Method r = MethodGet then respond (bindG (gu_ListTicketUsers user (cl_UserID claims)) (\<lambda>items.
             returnG (JObj [(''ticket_users'', JArr (map public_ticket_user items))])))
         else if rq_Method r = MethodPost then respond (bindG (decode h (\<lambda>f. case (get_str (f ''name''), get_str (f ''certificate_no''), get_str (f ''mobile'')) of
             (Some name, Some certificateNo, Some mobile) \<Rightarrow> Some (name, certificateNo, mobile) | _ \<Rightarrow> None) r) (\<lambda>(name, certificateNo, mobile).
           bindG (gu_AddTicketUser user \<lparr>at_UserID = cl_UserID claims, at_Name = name, at_CertificateNo = certificateNo, at_Mobile = mobile\<rparr>) (\<lambda>reply.
           returnG (public_ticket_user reply))))
         else Pair StatusMethodNotAllowed) w')"

section \<open>Programs and orders\<close>

definition programSearch :: "('w, 'a) Handler \<Rightarrow> 'w http_handler" where
  "programSearch h r = (case grpc_client gc_program h of
     None \<Rightarrow> publicProxy h ''program-service'' ''/v1/programs/search'' r
   | Some program \<Rightarrow>
       if rq_Method r \<noteq> MethodGet then Pair StatusMethodNotAllowed
       else let page = parse_int_or_bound (rq_Query r ''page''); pageSize = parse_int_or_bound (rq_Query r ''page_size'') in
         respond (bindG (gp_SearchProgram program (rq_Query r ''keyword'') (rq_Query r ''city'') (rq_Query r ''cursor'') (wrap32 page) (wrap32 pageSize)) (\<lambda>(programs, nextCursor).
           returnG (JObj [(''programs'', JArr (map publicProgramSummary programs)), (''next_cursor'', JStr nextCursor)]))))"

definition programDetail :: "('w, 'a) Handler \<Rightarrow> 'w http_handler" where
  "programDetail h r = (case grpc_client gc_program h of
     None \<Rightarrow> publicProxy h ''program-service'' ''/v1/programs/detail'' r
   | Some program \<Rightarrow>
       if rq_Method r \<noteq> MethodGet then Pair StatusMethodNotAllowed
       else case parse_int (rq_Query r ''program_id'') of
         None \<Rightarrow> Pair (WriteError (InvalidArgument ''invalid query: program_id''))
       | Some programID \<Rightarrow> respond (bindG (gp_GetProgramDetail program programID (parse_int_or_bound (rq_Query r ''ticket_category_id''))) (\<lambda>reply.
           returnG (publicProgramDetail reply))))"

definition orderCreateGRPC :: "('w, 'a) Handler \<Rightarrow> 'w ProgramClient \<Rightarrow> 'w http_handler" where
  "orderCreateGRPC h program r = respond (bindG (parseBearer h r) (\<lambda>claims.
     bindG (decode h (\<lambda>f. case (Int64_UnmarshalJSON (f ''program_id''), Int64_UnmarshalJSON (f ''ticket_category_id''),
         Int64Slice_UnmarshalJSON (f ''seat_ids''), Int64Slice_UnmarshalJSON (f ''ticket_user_ids'')) of
         (Some programID, Some ticketCategoryID, Some seatIDs, Some ticketUserIDs) \<Rightarrow> Some (programID, ticketCategoryID, seatIDs, ticketUserIDs) | _ \<Rightarrow> None) r)
       (\<lambda>(programID, ticketCategoryID, seatIDs, ticketUserIDs).
     bindG (gp_CreateOrder program \<lparr>cmd_RequestID = trim_space (rq_Header r ''Idempotency-Key''), cmd_UserID = cl_UserID claims, cmd_ProgramID = programID,
         cmd_TicketCategoryID = ticketCategoryID, cmd_SeatIDs = seatIDs, cmd_TicketUserIDs = ticketUserIDs\<rparr>) (\<lambda>orderNumber.
     returnG (JObj [(''order_number'', JStr (show_int orderNumber))])))))"

definition orderListGRPC :: "('w, 'a) Handler \<Rightarrow> 'w OrderClient \<Rightarrow> 'w http_handler" where
  "orderListGRPC h order r = respond (bindG (parseBearer h r) (\<lambda>claims.
     bindG (go_ListOrders order (cl_UserID claims) (rq_Query r ''status'') (rq_Query r ''cursor'') (wrap32 (parse_int_or_bound (rq_Query r ''limit'')))) (\<lambda>(orders, nextCursor).
     returnG (JObj [(''orders'', JArr (map publicOrder orders)), (''next_cursor'', JStr nextCursor)]))))"

definition orderDetailGRPC :: "('w, 'a) Handler \<Rightarrow> 'w OrderClient \<Rightarrow> 'w http_handler" where
  "orderDetailGRPC h order r = respond (bindG (parseBearer h r) (\<lambda>claims.
     case parse_int (rq_Query r ''order_number'') of
       None \<Rightarrow> failG (InvalidArgument ''invalid query: order_number'')
     | Some orderNumber \<Rightarrow> bindG (go_GetOrder order orderNumber (cl_UserID claims)) (\<lambda>reply. returnG (publicOrder reply))))"

definition orders :: "('w, 'a) Handler \<Rightarrow> 'w http_handler" where
  "orders h r =
     (if rq_Method r = MethodPost then (case grpc_client gc_program h of
        Some program \<Rightarrow> orderCreateGRPC h program r
      | None \<Rightarrow> authProxy h ''program-service'' ''/v1/program/orders'' r)
      else if rq_Method r = MethodGet then (case grpc_client gc_order h of
        Some order \<Rightarrow> if rq_Query r ''order_number'' = [] then orderListGRPC h order r else orderDetailGRPC h order r
      | None \<Rightarrow> authProxy h ''order-service'' ''/v1/orders/detail'' r)
      else Pair StatusMethodNotAllowed)"

definition orderCancel :: "('w, 'a) Handler \<Rightarrow> 'w http_handler" where
  "orderCancel h r = (case grpc_client gc_order h of
     None \<Rightarrow> authProxy h ''order-service'' ''/v1/orders/cancel'' r
   | Some order \<Rightarrow>
       if rq_Method r \<noteq> MethodPost then Pair StatusMethodNotAllowed
       else respond (bindG (parseBearer h r) (\<lambda>claims.
         bindG (decode h (\<lambda>f. Int64_UnmarshalJSON (f ''order_number'')) r) (\<lambda>orderNumber.
         bindG (go_CancelOrder order orderNumber (cl_UserID claims)) (\<lambda>reply. returnG (publicOrder reply))))))"

section \<open>Payments\<close>

definition paymentCreate :: "('w, 'a) Handler \<Rightarrow> 'w http_handler" where
  "paymentCreate h r = (case grpc_client gc_pay h of
     None \<Rightarrow> authProxy h ''pay-service'' ''/v1/payments'' r
   | Some pay \<Rightarrow>
       if rq_Method r \<noteq> MethodPost then Pair StatusMethodNotAllowed
       else respond (bindG (parseBearer h r) (\<lambda>claims.
         bindG (decode h (\<lambda>f. case (Int64_UnmarshalJSON (f ''order_number''), get_int (f ''amount_cent''), get_str (f ''channel'')) of
             (Some orderNumber, Some amountCent, Some channel) \<Rightarrow> Some (orderNumber, amountCent, channel) | _ \<Rightarrow> None) r) (\<lambda>(orderNumber, amountCent, channel).
         bindG (gy_CommonPay pay orderNumber amountCent channel (cl_UserID claims)) (\<lambda>payURL. returnG (JObj [(''pay_url'', JStr payURL)]))))))"

definition paymentCheck :: "('w, 'a) Handler \<Rightarrow> 'w http_handler" where
  "paymentCheck h r = (case grpc_client gc_pay h of
     None \<Rightarrow> authProxy h ''pay-service'' ''/v1/payments/check'' r
   | Some pay \<Rightarrow>
       if rq_Method r \<noteq> MethodGet then Pair StatusMethodNotAllowed
       else respond (bindG (parseBearer h r) (\<lambda>claims.
         case parse_int (rq_Query r ''order_number'') of
           None \<Rightarrow> failG (InvalidArgument ''invalid query: order_number'')
         | Some orderNumber \<Rightarrow> gy_TradeCheck pay orderNumber (rq_Query r ''channel'') (cl_UserID claims))))"

section \<open>Reference data and administration\<close>

definition baseAreas :: "('w, 'a) Handler \<Rightarrow> 'w http_handler" where
  "baseAreas h r = (case grpc_client gc_base h of
     None \<Rightarrow> publicProxy h ''base-data-service'' ''/v1/base/areas'' r
   | Some base \<Rightarrow>
       if rq_Method r \<noteq> MethodGet then Pair StatusMethodNotAllowed
       else respond (gb_ListAreas base (parse_int_or_bound (rq_Query r ''parent_id''))))"

definition baseChannels :: "('w, 'a) Handler \<Rightarrow> 'w http_handler" where
  "baseChannels h r = (case grpc_client gc_base h of
     None \<Rightarrow> publicProxy h ''base-data-service'' ''/v1/base/channels'' r
   | Some base \<Rightarrow> if rq_Method r \<noteq> MethodGet then Pair StatusMethodNotAllowed else respond (gb_ListChannelData base))"

text \<open>The common beginning of the handlers for administrators.\<close>

definition admin_only :: "('w, 'a) Handler \<Rightarrow> Request \<Rightarrow> ('w \<Rightarrow> http_response \<times> 'w) \<Rightarrow> 'w \<Rightarrow> http_response \<times> 'w" where
  "admin_only h r handle w = (case requireAdmin h r w of (Inl e, w') \<Rightarrow> (WriteError e, w') | (Inr _, w') \<Rightarrow> handle w')"

definition customizeMessages :: "('w, 'a) Handler \<Rightarrow> 'w http_handler" where
  "customizeMessages h r = admin_only h r (case grpc_client gc_custom h of
     None \<Rightarrow> adminProxy h ''customize-service'' ''/v1/customize/messages'' r
   | Some RecordMessage \<Rightarrow>
       if rq_Method r \<noteq> MethodPost then Pair StatusMethodNotAllowed
       else respond (bindG (decode h (\<lambda>f. case (get_str (f ''message_id''), get_str (f ''topic''), get_str (f ''status'')) of
           (Some messageID, Some topic, Some st) \<Rightarrow> Some (messageID, topic, st) | _ \<Rightarrow> None) r) (\<lambda>(messageID, topic, st).
         RecordMessage messageID topic st)))"

definition adminDashboard :: "('w, 'a) Handler \<Rightarrow> 'w http_handler" where
  "adminDashboard h r = admin_only h r (case grpc_client gc_admin h of
     None \<Rightarrow> adminProxy h ''admin-service'' ''/v1/admin/dashboard'' r
   | Some admin \<Rightarrow> if rq_Method r \<noteq> MethodGet then Pair StatusMethodNotAllowed else respond (ga_Dashboard admin))"

definition adminReconciliation :: "('w, 'a) Handler \<Rightarrow> 'w http_handler" where
  "adminReconciliation h r = admin_only h r (case grpc_client gc_admin h of
     None \<Rightarrow> adminProxy h ''admin-service'' ''/v1/admin/reconciliation/run'' r
   | Some admin \<Rightarrow>
       if rq_Method r \<noteq> MethodPost then Pair StatusMethodNotAllowed
       else respond (bindG (decode h (\<lambda>f. case (get_int (f ''program_id''), get_bool (f ''repair_inventory'')) of
           (Some programID, Some repairInventory) \<Rightarrow> Some (programID, repairInventory) | _ \<Rightarrow> None) r) (\<lambda>(programID, repairInventory).
         bindG (ga_RunReconciliation admin programID repairInventory) (\<lambda>reply.
         returnG (JObj [(''triggered'', JBool (rr_Triggered reply)), (''program_id'', JInt (rr_ProgramId reply)), (''mismatch_count'', JInt (rr_MismatchCount reply)),
           (''record_mismatch_count'', JInt (rr_RecordMismatchCount reply)), (''inventory_mismatch_count'', JInt (rr_InventoryMismatchCount reply)),
           (''repaired_inventory_count'', JInt (rr_RepairedInventoryCount reply)), (''inventory_differences'', rr_InventoryDifferences reply),
           (''discard_order_count'', JInt (rr_DiscardOrderCount reply))])))))"

definition migrateTasks :: "('w, 'a) Handler \<Rightarrow> 'w http_handler" where
  "migrateTasks h r = admin_only h r (case grpc_client gc_migrate h of
     None \<Rightarrow> adminProxy h ''migrate-service'' ''/v1/migrate/tasks'' r
   | Some migrate \<Rightarrow>
       if rq_Method r \<noteq> MethodPost then Pair StatusMethodNotAllowed
       else respond (bindG (decode h (\<lambda>f. case (get_int32 (f ''virtual_shard''), get_str (f ''source_shard''), get_str (f ''target_shard''), get_int32 (f ''batch_size'')) of
           (Some virtualShard, Some sourceShard, Some targetShard, Some batchSize) \<Rightarrow>
             Some \<lparr>ctr_SourceShard = sourceShard, ctr_TargetShard = targetShard, ctr_BatchSize = batchSize, ctr_VirtualShard = virtualShard\<rparr> | _ \<Rightarrow> None) r)
         (gm_CreateTask migrate)))"

definition migrateShardMappings :: "('w, 'a) Handler \<Rightarrow> 'w http_handler" where
  "migrateShardMappings h r = admin_only h r (case grpc_client gc_migrate h of
     None \<Rightarrow> adminProxy h ''migrate-service'' ''/v1/migrate/shard-mappings'' r
   | Some migrate \<Rightarrow>
       if rq_Method r \<noteq> MethodGet then Pair StatusMethodNotAllowed
       else respond (bindG (gm_ListShardMappings migrate) (\<lambda>mappings. returnG (JObj [(''shard_mappings'', mappings)]))))"

definition migrateResumeTask :: "('w, 'a) Handler \<Rightarrow> 'w http_handler" where
  "migrateResumeTask h r = admin_only h r (case grpc_client gc_migrate h of
     None \<Rightarrow> adminProxy h ''migrate-service'' ''/v1/migrate/tasks/resume'' r
   | Some migrate \<Rightarrow>
       if rq_Method r \<noteq> MethodPost then Pair StatusMethodNotAllowed
       else respond (bindG (decode h (\<lambda>f. get_int (f ''task_id'')) r) (gm_ResumeTask migrate)))"

section \<open>The routes\<close>

definition routes :: "('w, 'a) Handler \<Rightarrow> (string \<times> 'w http_handler) list" where
  "routes h =
     [(''/api/users/register'', userRegister h),
      (''/api/users/register/captcha'', userRegisterCaptcha h),
      (''/api/users/login'', userLogin h),
      (''/api/users/detail'', userDetail h),
      (''/api/users/ticket-users'', ticketUsers h),
      (''/api/programs/search'', programSearch h),
      (''/api/programs/detail'', programDetail h),
      (''/api/programs/suggest'', publicProxy h ''program-service'' ''/v1/programs/suggest''),
      (''/api/orders'', orders h),
      (''/api/orders/cancel'', orderCancel h),
      (''/api/payments'', paymentCreate h),
      (''/api/payments/check'', paymentCheck h),
      (''/api/payments/callback'', publicProxy h ''pay-service'' ''/v1/payments/callback''),
      (''/api/base/areas'', baseAreas h),
      (''/api/base/channels'', baseChannels h),
      (''/api/customize/messages'', customizeMessages h),
      (''/api/customize/messages/failed'', adminProxy h ''customize-service'' ''/v1/customize/messages/failed''),
      (''/api/admin/dashboard'', adminDashboard h),
      (''/api/admin/reconciliation/run'', adminReconciliation h),
      (''/api/admin/programs'', adminProxy h ''program-service'' ''/v1/admin/programs''),
      (''/api/admin/programs/status'', adminProxy h ''program-service'' ''/v1/admin/programs/status''),
      (''/api/admin/discard-orders'', adminProxy h ''order-service'' ''/v1/orders/discard-orders''),
      (''/api/admin/discard-orders/retry'', adminProxy h ''order-service'' ''/v1/orders/discard-orders/retry''),
      (''/api/migrate/tasks'', migrateTasks h),
      (''/api/migrate/tasks/resume'', migrateResumeTask h),
      (''/api/migrate/shard-mappings'', migrateShardMappings h)]"

definition serve :: "('w, 'a) Handler \<Rightarrow> 'w http_handler" where
  "serve h = serve_routes (routes h)"

end
