(* ===== verification/Gateway_Access.thy ===== *)
theory Gateway_Access
  imports Gateway
begin

text \<open>
  Who may do what through the gateway. \<open>logged\<close> is the gateway with clients that note each call; the property says of every request
  which calls it can lead to.
\<close>

section \<open>Calls\<close>

datatype upstream_call =
  Call_Register RegisterCommand | Call_CreateRegisterCaptcha string string | Call_Login string string
| Call_GetUser int64 | Call_ListTicketUsers int64 | Call_AddTicketUser AddTicketUserCommand
| Call_SearchProgram | Call_GetProgramDetail int64 | Call_CreateOrder CreateOrderCommand
| Call_ListOrders int64 | Call_GetOrder int64 int64 | Call_CancelOrder int64 int64
| Call_CommonPay int64 int64 | Call_TradeCheck int64 int64
| Call_Base | Call_Admin string
| Call_HTTP ProxyRequest

definition logG :: "upstream_call \<Rightarrow> ('w, 'b) go \<Rightarrow> ('w \<times> upstream_call list, 'b) go" where
  "logG c m s = (case m (fst s) of (x, w) \<Rightarrow> (x, (w, snd s @ [c])))"

definition logged_clients :: "'w GRPCClients \<Rightarrow> ('w \<times> upstream_call list) GRPCClients" where
  "logged_clients G = \<lparr>
     gc_user = map_option (\<lambda>U. \<lparr>gu_Register = (\<lambda>req. logG (Call_Register req) (gu_Register U req)),
       gu_CreateRegisterCaptcha = (\<lambda>m i. logG (Call_CreateRegisterCaptcha m i) (gu_CreateRegisterCaptcha U m i)),
       gu_Login = (\<lambda>m p. logG (Call_Login m p) (gu_Login U m p)), gu_GetUser = (\<lambda>u. logG (Call_GetUser u) (gu_GetUser U u)),
       gu_ListTicketUsers = (\<lambda>u. logG (Call_ListTicketUsers u) (gu_ListTicketUsers U u)),
       gu_AddTicketUser = (\<lambda>req. logG (Call_AddTicketUser req) (gu_AddTicketUser U req))\<rparr>) (gc_user G),
     gc_program = map_option (\<lambda>P. \<lparr>gp_SearchProgram = (\<lambda>k c u p z. logG Call_SearchProgram (gp_SearchProgram P k c u p z)),
       gp_GetProgramDetail = (\<lambda>i c. logG (Call_GetProgramDetail i) (gp_GetProgramDetail P i c)),
       gp_CreateOrder = (\<lambda>req. logG (Call_CreateOrder req) (gp_CreateOrder P req))\<rparr>) (gc_program G),
     gc_order = map_option (\<lambda>O'. \<lparr>go_ListOrders = (\<lambda>u st c l. logG (Call_ListOrders u) (go_ListOrders O' u st c l)),
       go_GetOrder = (\<lambda>n u. logG (Call_GetOrder n u) (go_GetOrder O' n u)),
       go_CancelOrder = (\<lambda>n u. logG (Call_CancelOrder n u) (go_CancelOrder O' n u))\<rparr>) (gc_order G),
     gc_pay = map_option (\<lambda>Y. \<lparr>gy_CommonPay = (\<lambda>n a c u. logG (Call_CommonPay n u) (gy_CommonPay Y n a c u)),
       gy_TradeCheck = (\<lambda>n c u. logG (Call_TradeCheck n u) (gy_TradeCheck Y n c u))\<rparr>) (gc_pay G),
     gc_base = map_option (\<lambda>B. \<lparr>gb_ListAreas = (\<lambda>p. logG Call_Base (gb_ListAreas B p)), gb_ListChannelData = logG Call_Base (gb_ListChannelData B)\<rparr>) (gc_base G),
     gc_custom = map_option (\<lambda>R i t st. logG (Call_Admin ''RecordMessage'') (R i t st)) (gc_custom G),
     gc_admin = map_option (\<lambda>A. \<lparr>ga_Dashboard = logG (Call_Admin ''Dashboard'') (ga_Dashboard A),
       ga_RunReconciliation = (\<lambda>p b. logG (Call_Admin ''RunReconciliation'') (ga_RunReconciliation A p b))\<rparr>) (gc_admin G),
     gc_migrate = map_option (\<lambda>M. \<lparr>gm_CreateTask = (\<lambda>req. logG (Call_Admin ''CreateTask'') (gm_CreateTask M req)),
       gm_ListShardMappings = logG (Call_Admin ''ListShardMappings'') (gm_ListShardMappings M),
       gm_ResumeTask = (\<lambda>i. logG (Call_Admin ''ResumeTask'') (gm_ResumeTask M i))\<rparr>) (gc_migrate G)\<rparr>"

definition logged :: "('w, 'a) Handler \<Rightarrow> ('w \<times> upstream_call list, 'a) Handler" where
  "logged h = \<lparr>gh_Do = (\<lambda>px. logG (Call_HTTP px) (gh_Do h px)), gh_checkURL = gh_checkURL h, gh_upstreams = gh_upstreams h,
     gh_grpc = map_option logged_clients (gh_grpc h), gh_secret = gh_secret h, gh_nowUnix = (\<lambda>s. gh_nowUnix h (fst s)),
     gh_clientIPs = gh_clientIPs h, gh_crypto = gh_crypto h, gh_json = gh_json h, gh_netip = gh_netip h\<rparr>"

section \<open>Rights\<close>

text \<open>A request bears the claims of a token that is signed with the secret of the gateway and has not expired.\<close>

definition authenticated :: "('w, 'a) Handler \<Rightarrow> 'w \<Rightarrow> Request \<Rightarrow> Claims \<Rightarrow> bool" where
  "authenticated h w r claims \<longleftrightarrow> (\<exists>token header payload raw document.
     rq_Header r ''Authorization'' = ''Bearer '' @ token \<and>
     split_on (CHR ''.'') (trim_space token) = [header, payload, sign (gh_crypto h) (gh_secret h) (header @ ''.'' @ payload)] \<and>
     b64_decode payload = Some raw \<and> snd (gh_json h) raw = Some document \<and> unmarshal_claims document = Some claims \<and>
     (cl_ExpiresAt claims \<le> 0 \<or> gh_nowUnix h w \<le> cl_ExpiresAt claims))"

definition target :: "('w, 'a) Handler \<Rightarrow> (string \<times> string) list \<Rightarrow> string \<Rightarrow> bool" where
  "target h targets url \<longleftrightarrow> list_ex (\<lambda>(service, path). case gh_upstreams h service of None \<Rightarrow> False | Some base \<Rightarrow> url = base @ path) targets"

definition public_targets :: "(string \<times> string) list" where
  "public_targets =
     [(''user-service'', ''/v1/users/register''), (''user-service'', ''/v1/users/register/captcha''), (''user-service'', ''/v1/users/login''),
      (''program-service'', ''/v1/programs/search''), (''program-service'', ''/v1/programs/detail''), (''program-service'', ''/v1/programs/suggest''),
      (''pay-service'', ''/v1/payments/callback''), (''base-data-service'', ''/v1/base/areas''), (''base-data-service'', ''/v1/base/channels'')]"

definition user_targets :: "(string \<times> string) list" where
  "user_targets =
     [(''user-service'', ''/v1/users/detail''), (''user-service'', ''/v1/users/ticket-users''), (''program-service'', ''/v1/program/orders''),
      (''order-service'', ''/v1/orders/detail''), (''order-service'', ''/v1/orders/cancel''), (''pay-service'', ''/v1/payments''),
      (''pay-service'', ''/v1/payments/check'')]"

fun public_call :: "('w, 'a) Handler \<Rightarrow> upstream_call \<Rightarrow> bool" where
  "public_call h (Call_Register req) = True"
| "public_call h (Call_CreateRegisterCaptcha mobile ip) = True"
| "public_call h (Call_Login mobile password) = True"
| "public_call h Call_SearchProgram = True"
| "public_call h (Call_GetProgramDetail i) = True"
| "public_call h Call_Base = True"
| "public_call h (Call_HTTP px) = target h public_targets (px_URL px)"
| "public_call h c = False"

fun own_call :: "('w, 'a) Handler \<Rightarrow> Claims \<Rightarrow> upstream_call \<Rightarrow> bool" where
  "own_call h who (Call_GetUser u) \<longleftrightarrow> u = cl_UserID who \<or> cl_Role who = ''admin''"
| "own_call h who (Call_ListTicketUsers u) \<longleftrightarrow> u = cl_UserID who"
| "own_call h who (Call_AddTicketUser req) \<longleftrightarrow> at_UserID req = cl_UserID who"
| "own_call h who (Call_CreateOrder req) \<longleftrightarrow> cmd_UserID req = cl_UserID who"
| "own_call h who (Call_ListOrders u) \<longleftrightarrow> u = cl_UserID who"
| "own_call h who (Call_GetOrder n u) \<longleftrightarrow> u = cl_UserID who"
| "own_call h who (Call_CancelOrder n u) \<longleftrightarrow> u = cl_UserID who"
| "own_call h who (Call_CommonPay n u) \<longleftrightarrow> u = cl_UserID who"
| "own_call h who (Call_TradeCheck n u) \<longleftrightarrow> u = cl_UserID who"
| "own_call h who (Call_Admin m) \<longleftrightarrow> cl_Role who = ''admin''"
| "own_call h who (Call_HTTP px) \<longleftrightarrow> px_Header px UserIDHeader = show_int (cl_UserID who) \<and> px_Header px RoleHeader = cl_Role who
     \<and> (target h user_targets (px_URL px) \<or> cl_Role who = ''admin'')"
| "own_call h who c \<longleftrightarrow> False"

definition permitted :: "('w, 'a) Handler \<Rightarrow> 'w \<Rightarrow> Request \<Rightarrow> upstream_call \<Rightarrow> bool" where
  "permitted h w r c \<longleftrightarrow> public_call h c \<or> (\<exists>who. authenticated h w r who \<and> own_call h who c)"

section \<open>Following the calls\<close>

definition calls :: "(upstream_call \<Rightarrow> bool) \<Rightarrow> 'w \<times> upstream_call list \<Rightarrow> ('w \<times> upstream_call list \<Rightarrow> 'b \<times> 'w \<times> upstream_call list) \<Rightarrow> bool" where
  "calls P s m \<longleftrightarrow> (\<exists>cs. snd (snd (m s)) = snd s @ cs \<and> length cs \<le> 1 \<and> list_all P cs)"

definition quiet :: "('s \<Rightarrow> 'b \<times> 's) \<Rightarrow> bool" where
  "quiet m \<longleftrightarrow> (\<forall>s. snd (m s) = s)"

named_theorems quiet_intros
named_theorems calls_intros

lemma quiet_rules [quiet_intros]:
  "quiet (returnG x)" "quiet (failG e)" "quiet (getG f)" "quiet (resultG v)" "quiet (decode h read r)" "quiet (Pair y)"
  by (auto simp: quiet_def go_simps resultG_def decode_def decode_body_def split: sum.splits)

lemma quietD: "quiet m \<Longrightarrow> m s = (fst (m s), s)"
  by (metis prod.collapse quiet_def)

lemma calls_quiet: "quiet m \<Longrightarrow> calls P s m"
  using quietD [of m s] by (metis append_Nil2 calls_def le0 list.pred_inject(1) list.size(3) snd_conv)

lemma calls_logG [calls_intros]: "P c \<Longrightarrow> calls P s (logG c m)"
  by (auto simp: calls_def logG_def split: prod.splits)

lemma calls_first: "quiet m \<Longrightarrow> (\<And>x. calls P s (f x)) \<Longrightarrow> calls P s (bindG m f)"
  using quietD [of m s] by (cases "fst (m s)") (auto simp: calls_def bindG_def)

lemma calls_then: "calls P s m \<Longrightarrow> (\<And>x. quiet (f x)) \<Longrightarrow> calls P s (bindG m f)"
  using quietD by (cases "m s"; cases "fst (m s)") (fastforce simp: calls_def bindG_def quiet_def)+

lemma calls_respond [calls_intros]: "calls P s m \<Longrightarrow> calls P s (respond m)"
  by (auto simp: calls_def respond_def split: prod.splits sum.splits)

lemma calls_case_sum [calls_intros]: "(\<And>e. calls P s (f e)) \<Longrightarrow> (\<And>x. calls P s (g x)) \<Longrightarrow> calls P s (case v of Inl e \<Rightarrow> f e | Inr x \<Rightarrow> g x)"
  by (cases v) auto

lemma parseBearer_logged:
  obtains (refused) e where "parseBearer (logged h) r s = (Inl e, s)"
  | (accepted) who where "parseBearer (logged h) r s = (Inr who, s)" and "authenticated h (fst s) r who"
proof (cases "take 7 (rq_Header r ''Authorization'') = ''Bearer ''")
  case True
  let ?token = "drop 7 (rq_Header r ''Authorization'')"
  have run: "parseBearer (logged h) r s = (Parse (gh_crypto h) (gh_json h) (gh_secret h) (gh_nowUnix h (fst s)) (trim_space ?token), s)"
    using True by (auto simp: parseBearer_def Let_def bindG_def getG_def resultG_def go_simps logged_def split: sum.splits)
  show thesis
  proof (cases "Parse (gh_crypto h) (gh_json h) (gh_secret h) (gh_nowUnix h (fst s)) (trim_space ?token)")
    case (Inr who)
    have "rq_Header r ''Authorization'' = ''Bearer '' @ ?token" using True by (metis append_take_drop_id)
    moreover from Inr obtain header payload raw document where
      "split_on (CHR ''.'') (trim_space ?token) = [header, payload, sign (gh_crypto h) (gh_secret h) (header @ ''.'' @ payload)]"
      "b64_decode payload = Some raw" "snd (gh_json h) raw = Some document" "unmarshal_claims document = Some who"
      "cl_ExpiresAt who \<le> 0 \<or> gh_nowUnix h (fst s) \<le> cl_ExpiresAt who"
      by (auto simp: Parse_def bind_eq_Some_conv split: list.splits if_splits option.splits)
    ultimately have "authenticated h (fst s) r who" unfolding authenticated_def by blast
    with run Inr accepted show ?thesis by simp
  qed (use run refused in simp)
next
  case False
  with refused show ?thesis by (simp add: parseBearer_def go_simps)
qed

lemma calls_parse [calls_intros]:
  assumes "\<And>who. authenticated h (fst s) r who \<Longrightarrow> calls P s (f who)"
  shows "calls P s (bindG (parseBearer (logged h) r) f)"
  using assms by (cases h r s rule: parseBearer_logged) (auto simp: bindG_def calls_def)

lemma calls_auth [calls_intros]:
  assumes "\<And>who. authenticated h (fst s) r who \<Longrightarrow> calls P s (f who)"
  shows "calls P s (\<lambda>s. case parseBearer (logged h) r s of (Inl e, s') \<Rightarrow> (WriteError e, s') | (Inr who, s') \<Rightarrow> f who s')"
  using assms by (cases h r s rule: parseBearer_logged) (auto simp: calls_def)

lemma calls_admin [calls_intros]:
  assumes "\<And>who. authenticated h (fst s) r who \<Longrightarrow> cl_Role who = ''admin'' \<Longrightarrow> calls P s (f who)"
  shows "calls P s (\<lambda>s. case requireAdmin (logged h) r s of (Inl e, s') \<Rightarrow> (WriteError e, s') | (Inr who, s') \<Rightarrow> f who s')"
  using assms by (cases h r s rule: parseBearer_logged) (auto simp: calls_def requireAdmin_def bindG_def go_simps)

lemma calls_admin_only [calls_intros]:
  assumes "\<And>who. authenticated h (fst s) r who \<Longrightarrow> cl_Role who = ''admin'' \<Longrightarrow> calls P s f"
  shows "calls P s (admin_only (logged h) r f)"
  unfolding admin_only_def [abs_def] by (rule calls_admin) (rule assms)

lemma calls_proxy:
  assumes "\<And>base. gh_upstreams h service = Some base \<Longrightarrow> P (Call_HTTP \<lparr>px_Method = rq_Method r, px_URL = base @ path, px_RawQuery = rq_RawQuery r, px_Header = rq_Header r, px_Body = rq_Body r\<rparr>)"
  shows "calls P s (proxy (logged h) service path r)"
  using assms by (auto simp: calls_def proxy_def logged_def logG_def split: option.splits prod.splits sum.splits)

lemma logged_fields [simp]:
  "gh_upstreams (logged h) = gh_upstreams h" "gh_json (logged h) = gh_json h" "gh_netip (logged h) = gh_netip h" "gh_clientIPs (logged h) = gh_clientIPs h"
  by (simp_all add: logged_def)

lemma targetI: "(service, path) \<in> set targets \<Longrightarrow> gh_upstreams h service = Some base \<Longrightarrow> target h targets (base @ path)"
  unfolding target_def list_ex_iff by (rule bexI [of _ "(service, path)"]) auto

lemma public_proxy [calls_intros]:
  assumes "(service, path) \<in> set public_targets"
  shows "calls (permitted h w r) s (publicProxy (logged h) service path r)"
  unfolding publicProxy_def
proof (rule calls_proxy)
  fix base assume "gh_upstreams h service = Some base"
  with assms have "target h public_targets (base @ path)" by (rule targetI)
  then show "permitted h w r (Call_HTTP \<lparr>px_Method = rq_Method r, px_URL = base @ path, px_RawQuery = rq_RawQuery r, px_Header = rq_Header r, px_Body = rq_Body r\<rparr>)"
    by (simp add: permitted_def)
qed

lemma own_proxy:
  assumes "authenticated h w r who" and "(service, path) \<in> set user_targets \<or> cl_Role who = ''admin''"
  shows "calls (permitted h w r) s (proxy (logged h) service path (with_caller who r))"
proof (rule calls_proxy)
  fix base assume "gh_upstreams h service = Some base"
  with assms(2) have "target h user_targets (base @ path) \<or> cl_Role who = ''admin''" using targetI by blast
  with assms(1) show "permitted h w r (Call_HTTP \<lparr>px_Method = rq_Method (with_caller who r), px_URL = base @ path, px_RawQuery = rq_RawQuery (with_caller who r),
      px_Header = rq_Header (with_caller who r), px_Body = rq_Body (with_caller who r)\<rparr>)"
    by (auto simp: permitted_def with_caller_def)
qed

lemma auth_proxy [calls_intros]:
  "(service, path) \<in> set user_targets \<Longrightarrow> calls (permitted h (fst s) r) s (authProxy (logged h) service path r)"
  unfolding authProxy_def [abs_def] by (intro calls_auth own_proxy) auto

lemma admin_proxy [calls_intros]: "calls (permitted h (fst s) r) s (adminProxy (logged h) service path r)"
  unfolding adminProxy_def [abs_def] by (intro calls_admin own_proxy) auto

section \<open>The handlers\<close>

lemma grpc_logged:
  "grpc_client gc_user (logged h) = Option.bind (gh_grpc h) (\<lambda>G. gc_user (logged_clients G))"
  "grpc_client gc_program (logged h) = Option.bind (gh_grpc h) (\<lambda>G. gc_program (logged_clients G))"
  "grpc_client gc_order (logged h) = Option.bind (gh_grpc h) (\<lambda>G. gc_order (logged_clients G))"
  "grpc_client gc_pay (logged h) = Option.bind (gh_grpc h) (\<lambda>G. gc_pay (logged_clients G))"
  "grpc_client gc_base (logged h) = Option.bind (gh_grpc h) (\<lambda>G. gc_base (logged_clients G))"
  "grpc_client gc_custom (logged h) = Option.bind (gh_grpc h) (\<lambda>G. gc_custom (logged_clients G))"
  "grpc_client gc_admin (logged h) = Option.bind (gh_grpc h) (\<lambda>G. gc_admin (logged_clients G))"
  "grpc_client gc_migrate (logged h) = Option.bind (gh_grpc h) (\<lambda>G. gc_migrate (logged_clients G))"
  by (cases "gh_grpc h"; simp add: grpc_client_def logged_def)+

lemma calls_grpc:
  assumes "calls P s none" and "\<And>c. calls P s (some (f c))"
  shows "calls P s (case Option.bind g (\<lambda>G. map_option f (sel G)) of None \<Rightarrow> none | Some c \<Rightarrow> some c)"
  using assms by (cases "Option.bind g (\<lambda>G. map_option f (sel G))") (auto simp: bind_eq_Some_conv)

lemma calls_if [calls_intros]: "(b \<Longrightarrow> calls P s m) \<Longrightarrow> (\<not> b \<Longrightarrow> calls P s m') \<Longrightarrow> calls P s (if b then m else m')"
  by simp

lemma calls_option [calls_intros]: "calls P s n \<Longrightarrow> (\<And>x. calls P s (m x)) \<Longrightarrow> calls P s (case v of None \<Rightarrow> n | Some x \<Rightarrow> m x)"
  by (cases v) auto

lemma calls_prod [calls_intros]: "(\<And>a b. calls P s (m a b)) \<Longrightarrow> calls P s (case v of (a, b) \<Rightarrow> m a b)"
  by (cases v) auto

lemma calls_Pair [calls_intros]: "calls P s (Pair y)"
  by (intro calls_quiet quiet_intros)

lemma calls_stop [calls_intros]: "calls P s (returnG x)" "calls P s (failG e)"
  by (intro calls_quiet quiet_intros)+

lemma calls_decode [calls_intros]: "(\<And>x. calls P s (f x)) \<Longrightarrow> calls P s (bindG (decode h read r) f)"
  by (intro calls_first quiet_intros)

lemma calls_answer [calls_intros]: "P c \<Longrightarrow> (\<And>x. quiet (f x)) \<Longrightarrow> calls P s (bindG (logG c m) f)"
  by (intro calls_then calls_logG)

lemma quiet_prod [quiet_intros]: "(\<And>a b. quiet (m a b)) \<Longrightarrow> quiet (case v of (a, b) \<Rightarrow> m a b)"
  by (cases v) auto

lemma permittedI: "public_call h c \<Longrightarrow> permitted h w r c" "authenticated h w r who \<Longrightarrow> own_call h who c \<Longrightarrow> permitted h w r c"
  by (auto simp: permitted_def)

lemma user_handlers:
  "calls (permitted h (fst s) r) s (userRegister (logged h) r)"
  "calls (permitted h (fst s) r) s (userRegisterCaptcha (logged h) r)"
  "calls (permitted h (fst s) r) s (userLogin (logged h) r)"
  unfolding userRegister_def userRegisterCaptcha_def userLogin_def grpc_logged logged_clients_def GRPCClients.simps
  by (intro calls_grpc calls_intros quiet_intros; simp add: public_targets_def permittedI(1))+

lemma own_handlers:
  "calls (permitted h (fst s) r) s (userDetail (logged h) r)"
  "calls (permitted h (fst s) r) s (ticketUsers (logged h) r)"
  "calls (permitted h (fst s) r) s (orders (logged h) r)"
  "calls (permitted h (fst s) r) s (orderCancel (logged h) r)"
  "calls (permitted h (fst s) r) s (paymentCreate (logged h) r)"
  "calls (permitted h (fst s) r) s (paymentCheck (logged h) r)"
  unfolding userDetail_def [abs_def] ticketUsers_def [abs_def] orders_def orderCreateGRPC_def orderListGRPC_def orderDetailGRPC_def
    orderCancel_def paymentCreate_def paymentCheck_def grpc_logged logged_clients_def GRPCClients.simps Let_def
  by ((intro calls_auth calls_grpc calls_intros quiet_intros own_proxy | (rule permittedI(2), assumption) | simp add: user_targets_def)+)

lemma open_handlers:
  "calls (permitted h (fst s) r) s (programSearch (logged h) r)"
  "calls (permitted h (fst s) r) s (programDetail (logged h) r)"
  "calls (permitted h (fst s) r) s (baseAreas (logged h) r)"
  "calls (permitted h (fst s) r) s (baseChannels (logged h) r)"
  unfolding programSearch_def programDetail_def baseAreas_def baseChannels_def grpc_logged logged_clients_def GRPCClients.simps Let_def
  by ((intro calls_grpc calls_intros quiet_intros | simp add: public_targets_def permittedI(1))+)

lemma admin_handlers:
  "calls (permitted h (fst s) r) s (customizeMessages (logged h) r)"
  "calls (permitted h (fst s) r) s (adminDashboard (logged h) r)"
  "calls (permitted h (fst s) r) s (adminReconciliation (logged h) r)"
  "calls (permitted h (fst s) r) s (migrateTasks (logged h) r)"
  "calls (permitted h (fst s) r) s (migrateShardMappings (logged h) r)"
  "calls (permitted h (fst s) r) s (migrateResumeTask (logged h) r)"
  unfolding customizeMessages_def adminDashboard_def adminReconciliation_def migrateTasks_def migrateShardMappings_def migrateResumeTask_def
    grpc_logged logged_clients_def GRPCClients.simps
  by ((intro calls_grpc calls_intros quiet_intros | (rule permittedI(2), assumption) | simp)+)

lemma routes_permitted:
  assumes "(path, handle) \<in> set (routes (logged h))"
  shows "calls (permitted h (fst s) r) s (handle r)"
proof -
  have pub: "calls (permitted h (fst s) r) s (publicProxy (logged h) ''program-service'' ''/v1/programs/suggest'' r)"
    "calls (permitted h (fst s) r) s (publicProxy (logged h) ''pay-service'' ''/v1/payments/callback'' r)"
    by (rule public_proxy, simp add: public_targets_def)+
  show ?thesis using assms unfolding routes_def
    by (auto simp only: list.set insert_iff empty_iff prod.inject simp_thms intro: user_handlers own_handlers open_handlers admin_handlers admin_proxy pub)
qed

section \<open>Access control\<close>

text \<open>
  C8. The gateway makes at most one call to a service for a request, and only a permitted one: it is open to everybody, or the request bears
  a token that is signed with the secret of the gateway and has not expired, and the call is made in the name of the user of the token (over
  gRPC in its user identifier, over HTTP in the headers, whatever headers the client sent); calls for administrators need the role \<open>admin\<close>.
\<close>

theorem gateway_calls_permitted:
  assumes "serve (logged h) r (w, []) = (response, w', made)"
  shows "length made \<le> 1 \<and> list_all (permitted h w r) made"
proof -
  have "calls (permitted h (fst (w, [])) r) (w, []) (serve (logged h) r)"
  proof (cases "map_of (routes (logged h)) (rq_Path r)")
    case (Some handle)
    with routes_permitted [OF map_of_SomeD [OF Some], of "(w, [])" r] show ?thesis by (simp add: serve_def serve_routes_def)
  qed (simp add: serve_def serve_routes_def calls_Pair)
  with assms show ?thesis by (auto simp: calls_def)
qed

text \<open>The routes whose handlers look at the token first.\<close>

definition guarded_paths :: "string list" where
  "guarded_paths = [''/api/users/detail'', ''/api/users/ticket-users'', ''/api/customize/messages'', ''/api/customize/messages/failed'',
     ''/api/admin/dashboard'', ''/api/admin/reconciliation/run'', ''/api/admin/programs'', ''/api/admin/programs/status'',
     ''/api/admin/discard-orders'', ''/api/admin/discard-orders/retry'', ''/api/migrate/tasks'', ''/api/migrate/tasks/resume'', ''/api/migrate/shard-mappings'']"

lemma guarded_refused:
  assumes "rq_Path r \<in> set guarded_paths" and refused: "parseBearer h r w = (Inl e, w)"
  shows "serve h r w = (WriteError e, w)"
proof -
  have admin: "requireAdmin h r w = (Inl e, w)" using refused by (simp add: requireAdmin_def bindG_def)
  have "userDetail h r w = (WriteError e, w)" "ticketUsers h r w = (WriteError e, w)" "admin_only h r f w = (WriteError e, w)"
    "adminProxy h service path r w = (WriteError e, w)" for f service path
    using refused admin by (simp_all add: userDetail_def ticketUsers_def admin_only_def adminProxy_def)
  then show ?thesis using assms(1)
    by (auto simp: serve_def serve_routes_def routes_def guarded_paths_def customizeMessages_def adminDashboard_def adminReconciliation_def migrateTasks_def
        migrateShardMappings_def migrateResumeTask_def)
qed

lemma Parse_errors: "Parse C J secret now token = Inl e \<Longrightarrow> \<exists>m. e = PlainError m"
  by (auto simp: Parse_def split: list.splits if_splits option.splits)

text \<open>
  A token that is forged or has expired is refused on every route that looks at the token first, but as an internal error of the gateway:
  the errors of \<open>TokenManager.Parse\<close> carry no application code, so the answer is 500, while a request without a token is answered with 401.
\<close>

theorem refused_token_answered_500:
  assumes "rq_Path r \<in> set guarded_paths" and "\<And>claims. \<not> authenticated h w r claims"
  shows "snd (serve h r w) = w
    \<and> rs_Status (fst (serve h r w)) = (if take 7 (rq_Header r ''Authorization'') = ''Bearer '' then 500 else 401)"
proof -
  have "parseBearer (logged h) r (w, []) = (fst (parseBearer h r w), w, [])" "snd (parseBearer h r w) = w"
    by (auto simp: parseBearer_def logged_def Let_def bindG_def getG_def resultG_def go_simps split: sum.splits)
  then obtain e where e: "parseBearer h r w = (Inl e, w)"
    using assms(2) by (cases h r "(w, [] :: upstream_call list)" rule: parseBearer_logged) (auto simp: prod_eq_iff dest: sym)
  then have s: "serve h r w = (WriteError e, w)" by (rule guarded_refused [OF assms(1)])
  show ?thesis
  proof (cases "take 7 (rq_Header r ''Authorization'') = ''Bearer ''")
    case True
    with e obtain m where "e = PlainError m"
      using Parse_errors by (fastforce simp: parseBearer_def Let_def bindG_def getG_def resultG_def go_simps split: sum.splits)
    with s True show ?thesis by (simp add: WriteError_def WriteJSON_def CodeOf_def codeFromGRPC_def HTTPStatus_def Let_def)
  next
    case False
    with e have "e = Unauthenticated ''missing bearer token''" by (auto simp: parseBearer_def go_simps)
    with s False show ?thesis by (simp add: WriteError_def WriteJSON_def Unauthenticated_def HTTPStatus_def Let_def)
  qed
qed

section \<open>A sample\<close>

text \<open>A gateway with the order service behind gRPC; the state is the present time.\<close>

definition sample_gateway :: "(int64, string) Handler" where
  "sample_gateway = \<lparr>gh_Do = (\<lambda>px. failG (PlainError ''down'')), gh_checkURL = (\<lambda>_. None), gh_upstreams = merge_upstreams [],
     gh_grpc = Some \<lparr>gc_user = None, gc_program = None, gc_order = Some \<lparr>go_ListOrders = (\<lambda>u st c l. returnG ([], [])),
       go_GetOrder = (\<lambda>n u. failG (New CodeNotFound ''order not found'')), go_CancelOrder = (\<lambda>n u. failG (New CodeNotFound ''order not found''))\<rparr>,
       gc_pay = None, gc_base = None, gc_custom = None, gc_admin = None, gc_migrate = None\<rparr>,
     gh_secret = ''secret'', gh_nowUnix = (\<lambda>w. w), gh_clientIPs = [],
     gh_crypto = \<lparr>cr_seal = (\<lambda>key nonce text ad. CHR ''x'' # text), cr_open = (\<lambda>key c ad. Some (tl c)), cr_hmac = (\<lambda>key v. v), cr_sha256 = (\<lambda>v. v)\<rparr>,
     gh_json = ((\<lambda>d. if d = token_header then ''h'' else ''p''),
       (\<lambda>s. if s = ''h'' then Some token_header else Some (JObj [(''user_id'', JInt 7), (''role'', JStr ''user''), (''exp'', JInt 100)]))),
     gh_netip = sample_netip\<rparr>"

definition sample_token :: string where
  "sample_token = Generate (gh_crypto sample_gateway) (gh_json sample_gateway) ''secret'' \<lparr>cl_UserID = 7, cl_Role = ''user'', cl_ExpiresAt = 100\<rparr>"

definition sample_request :: "string \<Rightarrow> Request" where
  "sample_request path = \<lparr>rq_Method = MethodGet, rq_Path = path, rq_Query = (\<lambda>_. []), rq_RawQuery = [],
     rq_Header = (\<lambda>h. if h = ''Authorization'' then ''Bearer '' @ sample_token else []), rq_Body = [], rq_RemoteAddr = ''10.0.0.1:80''\<rparr>"

theorem gateway_calls_permitted_witness:
  "snd (snd (serve (logged sample_gateway) (sample_request ''/api/orders'') (50, []))) = [Call_ListOrders 7]
    \<and> permitted sample_gateway 50 (sample_request ''/api/orders'') (Call_ListOrders 7)"
proof -
  let ?made = "snd (snd (serve (logged sample_gateway) (sample_request ''/api/orders'') (50, [])))"
  have "length ?made = 1" and "case hd ?made of Call_ListOrders u \<Rightarrow> u = 7 | _ \<Rightarrow> False" by code_simp+
  then have made: "?made = [Call_ListOrders 7]" by (cases ?made) (auto split: upstream_call.splits)
  with gateway_calls_permitted [of sample_gateway "sample_request ''/api/orders''" 50] show ?thesis
    by (metis list.pred_inject(2) prod.collapse)
qed

theorem refused_token_answered_500_witness:
  "rs_Status (fst (serve sample_gateway (sample_request ''/api/users/detail'') 101)) = 500 \<and> fst (serve sample_gateway (sample_request ''/api/users/detail'') 101)
    = WriteError (PlainError ''token expired'')"
proof -
  let ?r = "sample_request ''/api/users/detail''"
  have p: "fst (parseBearer sample_gateway ?r 101) = Inl (PlainError ''token expired'')" by code_simp
  have s: "snd (parseBearer sample_gateway ?r 101) = 101"
    by (auto simp: parseBearer_def Let_def bindG_def getG_def resultG_def go_simps split: sum.splits)
  have g: "rq_Path ?r \<in> set guarded_paths" by code_simp
  have "\<not> authenticated sample_gateway 101 ?r claims" for claims
  proof
    assume "authenticated sample_gateway 101 ?r claims"
    then obtain payload raw document where d: "split_on (CHR ''.'') (trim_space (drop 7 (rq_Header ?r ''Authorization''))) ! 1 = payload"
      "b64_decode payload = Some raw" "snd (gh_json sample_gateway) raw = Some document" "unmarshal_claims document = Some claims"
      "cl_ExpiresAt claims \<le> 0 \<or> 101 \<le> cl_ExpiresAt claims"
      by (fastforce simp: authenticated_def sample_gateway_def)
    have "split_on (CHR ''.'') (trim_space (drop 7 (rq_Header ?r ''Authorization''))) ! 1 = b64_encode ''p''" by code_simp
    with d(1,2) have "raw = ''p''" by (simp add: b64_round_trip)
    with d(3,4) have "cl_ExpiresAt claims = 100"
      by (auto simp: sample_gateway_def unmarshal_claims_def field_def get_int_def get_str_def in64_def)
    with d(5) show False by simp
  qed
  from refused_token_answered_500 [OF g this]
  have "rs_Status (fst (serve sample_gateway ?r 101)) = (if take 7 (rq_Header ?r ''Authorization'') = ''Bearer '' then 500 else 401)" by blast
  moreover have "take 7 (rq_Header ?r ''Authorization'') = ''Bearer ''" by code_simp
  moreover have "serve sample_gateway ?r 101 = (WriteError (PlainError ''token expired''), 101)"
    using guarded_refused [OF g] p s by (metis prod.collapse)
  ultimately show ?thesis by simp
qed

end
