(* ===== verification/Pay_Http.thy ===== *)
theory Pay_Http
  imports Payments Http
begin

text \<open>
  The HTTP handlers of the payment service (\<open>src/app/pay-service/internal/interfaces/http/handler.go\<close>), around the use cases of
  \<open>Payments\<close>. The text form of JSON is the argument \<open>parse\<close>.
\<close>

definition PayHttp_pay :: "(string \<Rightarrow> json option) \<Rightarrow> 'w pay_ports \<Rightarrow> 'w http_handler" where
  "PayHttp_pay parse U r =
     (if rq_Method r \<noteq> MethodPost then Pair StatusMethodNotAllowed
      else respond (bindG (decode_body parse (\<lambda>f. case (Int64_UnmarshalJSON (f ''order_number''), get_int (f ''amount_cent''), get_str (f ''channel''), get_int (f ''user_id'')) of
          (Some orderNumber, Some amountCent, Some channel, Some userID) \<Rightarrow> Some (orderNumber, amountCent, channel, userID) | _ \<Rightarrow> None) r)
        (\<lambda>(orderNumber, amountCent, channel, userID).
        bindG (caller_or r userID) (\<lambda>userID.
        bindG (CommonPay U orderNumber userID amountCent channel) (\<lambda>payURL. returnG (JObj [(''pay_url'', JStr payURL)]))))))"

definition json_trade :: "Trade \<Rightarrow> json" where
  "json_trade t = JObj [(''OrderNumber'', JInt (tr_OrderNumber t)), (''Channel'', JStr (tr_Channel t)), (''Paid'', JBool (tr_Paid t))]"

definition PayHttp_check :: "'w pay_ports \<Rightarrow> 'w http_handler" where
  "PayHttp_check U r =
     (if rq_Method r \<noteq> MethodGet then Pair StatusMethodNotAllowed
      else respond (case parse_int (rq_Query r ''order_number'') of
          None \<Rightarrow> failG (InvalidArgument ''invalid query: order_number'')
        | Some orderNumber \<Rightarrow>
            bindG (TradeCheck U orderNumber (parse_int_or_bound (rq_Header r UserIDHeader)) (rq_Query r ''channel'')) (\<lambda>trade. returnG (json_trade trade))))"

abbreviation success :: json where "success \<equiv> JObj [(''success'', JBool True)]"

definition PayHttp_refund :: "(string \<Rightarrow> json option) \<Rightarrow> 'w pay_ports \<Rightarrow> 'w http_handler" where
  "PayHttp_refund parse U r =
     (if rq_Method r \<noteq> MethodPost then Pair StatusMethodNotAllowed
      else respond (bindG (decode_body parse (\<lambda>f. case (Int64_UnmarshalJSON (f ''order_number''), get_int (f ''amount_cent''), get_str (f ''reason'')) of
          (Some orderNumber, Some amountCent, Some reason) \<Rightarrow> Some (orderNumber, amountCent, reason) | _ \<Rightarrow> None) r)
        (\<lambda>(orderNumber, amountCent, reason).
        bindG (Pay_Refund U orderNumber amountCent reason) (\<lambda>_. returnG success))))"

definition PayHttp_callback :: "(string \<Rightarrow> json option) \<Rightarrow> 'w pay_ports \<Rightarrow> 'w http_handler" where
  "PayHttp_callback parse U r =
     (if rq_Method r \<noteq> MethodPost then Pair StatusMethodNotAllowed
      else respond (bindG (decode_body parse (\<lambda>f. case (Int64_UnmarshalJSON (f ''order_number''), get_int (f ''amount_cent''), get_str (f ''channel''), get_bool (f ''paid'')) of
          (Some orderNumber, Some amountCent, Some channel, Some paid) \<Rightarrow> Some (orderNumber, amountCent, channel, paid) | _ \<Rightarrow> None) r)
        (\<lambda>(orderNumber, amountCent, channel, paid).
        bindG (Callback U orderNumber amountCent channel paid) (\<lambda>_. returnG success))))"

definition pay_routes :: "(string \<Rightarrow> json option) \<Rightarrow> 'w pay_ports \<Rightarrow> (string \<times> 'w http_handler) list" where
  "pay_routes parse U =
     [(''/v1/payments'', PayHttp_pay parse U), (''/v1/payments/check'', PayHttp_check U),
      (''/v1/payments/refund'', PayHttp_refund parse U), (''/v1/payments/callback'', PayHttp_callback parse U)]"

end
