(* ===== verification/Order_Http.thy ===== *)
theory Order_Http
  imports Order_Reconciliation Compensation Order_Query Http
begin

text \<open>
  The HTTP handlers of the order service (\<open>src/app/order-service/internal/interfaces/http/handler.go\<close>): orders, discarded orders and the
  reconciliation. A service that is not configured is \<open>None\<close>. Structs are written with their fields in order; nil slices of records are
  written as empty arrays.
\<close>

definition json_time_opt :: "time option \<Rightarrow> json" where
  "json_time_opt t = (case t of None \<Rightarrow> JNull | Some t \<Rightarrow> JTime t)"

definition json_order :: "Order \<Rightarrow> json" where
  "json_order item = JObj
     [(''OrderNumber'', JInt (ord_OrderNumber item)), (''ProgramID'', JInt (ord_ProgramID item)), (''UserID'', JInt (ord_UserID item)),
      (''TicketCategoryID'', JInt (ord_TicketCategoryID item)), (''SeatIDs'', json_ints (ord_SeatIDs item)),
      (''TicketUserIDs'', json_ints (ord_TicketUserIDs item)), (''AmountCent'', JInt (ord_AmountCent item)), (''Status'', JStr (ord_Status item)),
      (''CreatedAt'', JTime (ord_CreatedAt item)), (''PaidAt'', json_time_opt (ord_PaidAt item)),
      (''CanceledAt'', json_time_opt (ord_CanceledAt item)), (''RefundedAt'', json_time_opt (ord_RefundedAt item))]"

definition json_discard :: "DiscardOrder \<Rightarrow> json" where
  "json_discard item = JObj
     [(''ID'', JInt (dis_ID item)), (''ProgramID'', JInt (dis_ProgramID item)), (''OrderNumber'', JInt (dis_OrderNumber item)),
      (''UserID'', JInt (dis_UserID item)), (''TicketCategoryID'', JInt (dis_TicketCategoryID item)), (''SeatIDs'', json_ints (dis_SeatIDs item)),
      (''TicketUserIDs'', json_ints (dis_TicketUserIDs item)), (''AmountCent'', JInt (dis_AmountCent item)), (''Reason'', JStr (dis_Reason item)),
      (''Detail'', JStr (dis_Detail item)), (''Status'', JStr (dis_Status item)), (''CreatedAt'', JTime (dis_CreatedAt item)),
      (''RetriedAt'', json_time_opt (dis_RetriedAt item))]"

definition json_compensation :: "CompensationResult \<Rightarrow> json" where
  "json_compensation c = JObj [(''requested'', JInt (cr_Requested c)), (''retried'', JInt (cr_Retried c)), (''skipped'', JInt (cr_Skipped c))]"

definition json_difference :: "InventoryDifference \<Rightarrow> json" where
  "json_difference d = JObj
     [(''ticket_category_id'', JInt (idf_TicketCategoryID d)), (''total'', JInt (idf_Total d)), (''occupied_count'', JInt (idf_OccupiedCount d)),
      (''expected_remain'', JInt (idf_ExpectedRemain d)), (''mysql_remain'', JInt (idf_MySQLRemain d)), (''redis_remain'', JInt (idf_RedisRemain d)),
      (''redis_exists'', JBool (idf_RedisExists d)), (''repaired'', JBool (idf_Repaired d)), (''reason'', JStr (idf_Reason d))]"

definition json_reconciliation :: "ReconciliationResult \<Rightarrow> json" where
  "json_reconciliation c = JObj
     [(''program_id'', JInt (rcr_ProgramID c)), (''mismatch_count'', JInt (rcr_MismatchCount c)),
      (''record_mismatch_count'', JInt (rcr_RecordMismatchCount c)), (''inventory_mismatch_count'', JInt (rcr_InventoryMismatchCount c)),
      (''repaired_inventory_count'', JInt (rcr_RepairedInventoryCount c)), (''matched_count'', JInt (rcr_MatchedCount c)),
      (''processed_count'', JInt (rcr_ProcessedCount c)), (''inventory_differences'', JArr (map json_difference (rcr_InventoryDifferences c)))]"

record 'w OrderHandler =
  oh_orders :: "'w order_ports"
  oh_queries :: "'w order_ports option"
  oh_compensation :: "'w comp_ports option"
  oh_reconciliation :: "'w recon_service option"
  oh_parse :: "string \<Rightarrow> json option"

definition OrderHttp_detail :: "'w OrderHandler \<Rightarrow> 'w http_handler" where
  "OrderHttp_detail h r =
     (if rq_Method r \<noteq> MethodGet then Pair StatusMethodNotAllowed
      else respond (case oh_queries h of
          None \<Rightarrow> failG (InvalidArgument ''order query service is not configured'')
        | Some queries \<Rightarrow> (case parse_int (rq_Query r ''order_number'') of
            None \<Rightarrow> failG (InvalidArgument ''invalid query: order_number'')
          | Some orderNumber \<Rightarrow> bindG (caller_or_query r) (\<lambda>userID.
              bindG (Query_Get queries orderNumber userID) (\<lambda>current. returnG (json_order current))))))"

definition OrderHttp_cancel :: "'w OrderHandler \<Rightarrow> 'w http_handler" where
  "OrderHttp_cancel h r =
     (if rq_Method r \<noteq> MethodPost then Pair StatusMethodNotAllowed
      else respond (bindG (decode_body (oh_parse h) (\<lambda>f. case (get_int (f ''order_number''), get_int (f ''user_id'')) of
          (Some orderNumber, Some userID) \<Rightarrow> Some (orderNumber, userID) | _ \<Rightarrow> None) r) (\<lambda>(orderNumber, userID).
        bindG (caller_or r userID) (\<lambda>userID.
        bindG (Cancel (oh_orders h) orderNumber userID) (\<lambda>_. returnG (JObj [(''order_number'', JInt orderNumber)]))))))"

definition OrderHttp_listDiscardOrders :: "'w OrderHandler \<Rightarrow> 'w http_handler" where
  "OrderHttp_listDiscardOrders h r =
     (if rq_Method r \<noteq> MethodGet then Pair StatusMethodNotAllowed
      else respond (case oh_compensation h of
          None \<Rightarrow> failG (InvalidArgument ''discard order compensation service is not configured'')
        | Some compensation \<Rightarrow>
            bindG (Comp_ListPending compensation (parse_int_or_bound (rq_Query r ''program_id'')) (parse_int_or_bound (rq_Query r ''limit'')))
              (\<lambda>items. returnG (JObj [(''discard_orders'', JArr (map json_discard items))]))))"

definition OrderHttp_retryDiscardOrders :: "'w OrderHandler \<Rightarrow> 'w http_handler" where
  "OrderHttp_retryDiscardOrders h r =
     (if rq_Method r \<noteq> MethodPost then Pair StatusMethodNotAllowed
      else respond (case oh_compensation h of
          None \<Rightarrow> failG (InvalidArgument ''discard order compensation service is not configured'')
        | Some compensation \<Rightarrow>
            bindG (decode_body (oh_parse h) (\<lambda>f. case (get_int (f ''id''), get_int (f ''program_id''), get_int (f ''limit'')) of
              (Some i, Some programID, Some limit) \<Rightarrow> Some (i, programID, limit) | _ \<Rightarrow> None) r) (\<lambda>(i, programID, limit).
            bindG (if i > 0 then RetryByID compensation i else RetryProgram compensation programID limit)
              (\<lambda>result. returnG (json_compensation result)))))"

definition OrderHttp_reconcileProgram :: "'w OrderHandler \<Rightarrow> 'w http_handler" where
  "OrderHttp_reconcileProgram h r =
     (if rq_Method r \<noteq> MethodPost then Pair StatusMethodNotAllowed
      else respond (case oh_reconciliation h of
          None \<Rightarrow> failG (InvalidArgument ''reconciliation service is not configured'')
        | Some reconciliation \<Rightarrow>
            bindG (decode_body (oh_parse h) (\<lambda>f. case (get_int (f ''program_id''), get_bool (f ''repair_inventory'')) of
              (Some programID, Some repairInventory) \<Rightarrow> Some (programID, repairInventory) | _ \<Rightarrow> None) r) (\<lambda>(programID, repairInventory).
            bindG (ReconcileProgram reconciliation programID [repairInventory]) (\<lambda>result. returnG (json_reconciliation result)))))"

definition order_routes :: "'w OrderHandler \<Rightarrow> (string \<times> 'w http_handler) list" where
  "order_routes h =
     [(''/v1/orders/detail'', OrderHttp_detail h), (''/v1/orders/cancel'', OrderHttp_cancel h),
      (''/v1/orders/discard-orders'', OrderHttp_listDiscardOrders h), (''/v1/orders/discard-orders/retry'', OrderHttp_retryDiscardOrders h),
      (''/v1/orders/reconciliation/program'', OrderHttp_reconcileProgram h)]"

end
