(* ===== verification/User_Http.thy ===== *)
theory User_Http
  imports User_Server Http
begin

text \<open>
  The HTTP handlers of the user service (\<open>src/app/user-service/internal/interfaces/http/handler.go\<close>) and of the migration service
  (\<open>src/app/migrate-service/internal/interfaces/http/handler.go\<close>).
\<close>

section \<open>Users\<close>

record ('w, 'a) UserHandler =
  uh_users :: "'w UserCommandService"
  uh_clientIPs :: "'a ClientIPResolver"
  uh_netip :: "'a netip"
  uh_parse :: "string \<Rightarrow> json option"

definition json_user :: "User \<Rightarrow> json" where
  "json_user u = JObj [(''id'', JInt (us_ID u)), (''mobile'', JStr (MaskMobile (us_Mobile u))), (''real_name_status'', JStr (us_RealNameStatus u))]"

definition json_ticket_user :: "TicketUser \<Rightarrow> json" where
  "json_ticket_user item = JObj [(''id'', JInt (tu_ID item)), (''name'', JStr (MaskName (tu_Name item))),
     (''certificate_no'', JStr (MaskCertificate (tu_CertificateNo item)))]"

definition UserHttp_register :: "('w, 'a) UserHandler \<Rightarrow> 'w http_handler" where
  "UserHttp_register h r =
     (if rq_Method r \<noteq> MethodPost then Pair StatusMethodNotAllowed
      else respond (bindG (decode_body (uh_parse h) (\<lambda>f. case (get_str (f ''mobile''), get_str (f ''password''), get_str (f ''captcha_id''), get_str (f ''captcha_answer'')) of
          (Some mobile, Some password, Some captchaID, Some captchaAnswer) \<Rightarrow> Some (mobile, password, captchaID, captchaAnswer) | _ \<Rightarrow> None) r)
        (\<lambda>(mobile, password, captchaID, captchaAnswer).
        bindG (Register (uh_users h) \<lparr>rgc_Mobile = mobile, rgc_Password = password, rgc_ClientIP = Client_Resolve (uh_netip h) (uh_clientIPs h) r,
          rgc_CaptchaID = captchaID, rgc_CaptchaAnswer = captchaAnswer\<rparr>) (\<lambda>created. returnG (json_user created)))))"

definition UserHttp_createRegisterCaptcha :: "('w, 'a) UserHandler \<Rightarrow> 'w http_handler" where
  "UserHttp_createRegisterCaptcha h r =
     (if rq_Method r \<noteq> MethodPost then Pair StatusMethodNotAllowed
      else respond (bindG (decode_body (uh_parse h) (\<lambda>f. get_str (f ''mobile'')) r) (\<lambda>mobile.
        bindG (CreateRegisterCaptcha (uh_users h) mobile (Client_Resolve (uh_netip h) (uh_clientIPs h) r)) (\<lambda>challenge.
          returnG (JObj [(''captcha_id'', JStr (rc_ID challenge)), (''image'', JStr (rc_Image challenge)),
            (''expires_in_seconds'', JInt (rc_ExpiresIn challenge div 1000000000))])))))"

definition UserHttp_login :: "('w, 'a) UserHandler \<Rightarrow> 'w http_handler" where
  "UserHttp_login h r =
     (if rq_Method r \<noteq> MethodPost then Pair StatusMethodNotAllowed
      else respond (bindG (decode_body (uh_parse h) (\<lambda>f. case (get_str (f ''mobile''), get_str (f ''password'')) of
          (Some mobile, Some password) \<Rightarrow> Some (mobile, password) | _ \<Rightarrow> None) r) (\<lambda>(mobile, password).
        bindG (Login (uh_users h) mobile password) (\<lambda>(token, user). returnG (JObj [(''access_token'', JStr token), (''user'', json_user user)])))))"

definition UserHttp_getUser :: "('w, 'a) UserHandler \<Rightarrow> 'w http_handler" where
  "UserHttp_getUser h r =
     (if rq_Method r \<noteq> MethodGet then Pair StatusMethodNotAllowed
      else respond (bindG (caller_or_query r) (\<lambda>userID.
        bindG (GetUser (uh_users h) userID) (\<lambda>current. returnG (json_user current)))))"

definition UserHttp_listTicketUsers :: "('w, 'a) UserHandler \<Rightarrow> 'w http_handler" where
  "UserHttp_listTicketUsers h r = respond (bindG (caller_or_query r) (\<lambda>userID.
     bindG (ListTicketUsers (uh_users h) userID) (\<lambda>items. returnG (JObj [(''ticket_users'', JArr (map json_ticket_user items))]))))"

definition UserHttp_addTicketUser :: "('w, 'a) UserHandler \<Rightarrow> 'w http_handler" where
  "UserHttp_addTicketUser h r = respond (bindG (decode_body (uh_parse h) (\<lambda>f. case (get_int (f ''user_id''), get_str (f ''name''), get_str (f ''certificate_no''), get_str (f ''mobile'')) of
         (Some userID, Some name, Some certificateNo, Some mobile) \<Rightarrow> Some (userID, name, certificateNo, mobile) | _ \<Rightarrow> None) r)
       (\<lambda>(userID, name, certificateNo, mobile).
     bindG (caller_or r userID) (\<lambda>userID.
     bindG (AddTicketUser (uh_users h) \<lparr>at_UserID = userID, at_Name = name, at_CertificateNo = certificateNo, at_Mobile = mobile\<rparr>)
       (\<lambda>item. returnG (json_ticket_user item)))))"

definition UserHttp_ticketUsers :: "('w, 'a) UserHandler \<Rightarrow> 'w http_handler" where
  "UserHttp_ticketUsers h r =
     (if rq_Method r = MethodGet then UserHttp_listTicketUsers h r
      else if rq_Method r = MethodPost then UserHttp_addTicketUser h r
      else Pair StatusMethodNotAllowed)"

definition user_routes :: "('w, 'a) UserHandler \<Rightarrow> (string \<times> 'w http_handler) list" where
  "user_routes h =
     [(''/v1/users/register'', UserHttp_register h), (''/v1/users/register/captcha'', UserHttp_createRegisterCaptcha h),
      (''/v1/users/login'', UserHttp_login h), (''/v1/users/detail'', UserHttp_getUser h), (''/v1/users/ticket-users'', UserHttp_ticketUsers h)]"

section \<open>Migrations\<close>

definition json_mapping :: "MigrateMapping \<Rightarrow> json" where
  "json_mapping m = JObj ([(''virtual_shard'', JInt (mm_VirtualShard m)), (''physical_db'', JStr (mm_PhysicalDB m)), (''physical_table'', JStr (mm_PhysicalTable m))]
     @ (if mm_ShadowDB m = [] then [] else [(''shadow_db'', JStr (mm_ShadowDB m))])
     @ (if mm_ShadowTable m = [] then [] else [(''shadow_table'', JStr (mm_ShadowTable m))])
     @ [(''write_mode'', JStr (mm_WriteMode m)), (''version'', JInt (mm_Version m))])"

definition json_task :: "MigrationTask \<Rightarrow> json" where
  "json_task t = JObj ([(''id'', JInt (tk_ID t)), (''virtual_shard'', JInt (tk_VirtualShard t)), (''source_shard'', JStr (tk_SourceShard t)),
       (''target_shard'', JStr (tk_TargetShard t)), (''status'', JStr (tk_Status t)), (''batch_size'', JInt (tk_BatchSize t)),
       (''cursor_order_number'', JInt (tk_CursorOrderNumber t)), (''copied_rows'', JInt (tk_CopiedRows t))]
     @ (if tk_ErrorMessage t = [] then [] else [(''error_message'', JStr (tk_ErrorMessage t))])
     @ [(''created_at'', JTime (tk_CreatedAt t))])"

definition MigrateHttp_resumeTask :: "(string \<Rightarrow> json option) \<Rightarrow> 'w MigrationService \<Rightarrow> 'w http_handler" where
  "MigrateHttp_resumeTask parse S r =
     (if rq_Method r \<noteq> MethodPost then Pair StatusMethodNotAllowed
      else respond (bindG (decode_body parse (\<lambda>f. get_int (f ''task_id'')) r) (\<lambda>taskID.
        bindG (Migration_ResumeTask S taskID) (\<lambda>_. returnG (JObj [(''task_id'', JInt taskID), (''status'', JStr TaskRunning)])))))"

definition MigrateHttp_tasks :: "(string \<Rightarrow> json option) \<Rightarrow> 'w MigrationService \<Rightarrow> ('w, int64) go \<Rightarrow> 'w http_handler" where
  "MigrateHttp_tasks parse S nextID r =
     (if rq_Method r \<noteq> MethodPost then Pair StatusMethodNotAllowed
      else respond (bindG (decode_body parse (\<lambda>f. case (get_int (f ''virtual_shard''), get_str (f ''source_shard''), get_str (f ''target_shard''), get_int (f ''batch_size'')) of
          (Some virtualShard, Some sourceShard, Some targetShard, Some batchSize) \<Rightarrow> Some (virtualShard, sourceShard, targetShard, batchSize) | _ \<Rightarrow> None) r)
        (\<lambda>(virtualShard, sourceShard, targetShard, batchSize).
        bindG nextID (\<lambda>i.
        let task = no_task\<lparr>tk_ID := i, tk_VirtualShard := virtualShard, tk_SourceShard := sourceShard, tk_TargetShard := targetShard,
              tk_Status := TaskPending, tk_BatchSize := (if batchSize \<le> 0 then 500 else batchSize)\<rparr> in
        bindG (Migration_SaveTask S task) (\<lambda>_. returnG (json_task task))))))"

definition MigrateHttp_mappings :: "'w MigrationService \<Rightarrow> 'w http_handler" where
  "MigrateHttp_mappings S r =
     (if rq_Method r \<noteq> MethodGet then Pair StatusMethodNotAllowed
      else respond (bindG (Migration_LoadShardMappings S) (\<lambda>mappings. returnG (JObj [(''shard_mappings'', JArr (map json_mapping mappings))]))))"

definition migrate_routes :: "(string \<Rightarrow> json option) \<Rightarrow> 'w MigrationService \<Rightarrow> ('w, int64) go \<Rightarrow> (string \<times> 'w http_handler) list" where
  "migrate_routes parse S nextID =
     [(''/v1/migrate/tasks'', MigrateHttp_tasks parse S nextID), (''/v1/migrate/tasks/resume'', MigrateHttp_resumeTask parse S),
      (''/v1/migrate/shard-mappings'', MigrateHttp_mappings S)]"

end
