(* ===== verification/Gateway_Services.thy ===== *)
theory Gateway_Services
  imports Gateway_Access Pay_Http Order_Http User_Http
begin

text \<open>
  The gateway in front of the services: what a client can do to orders and payments with its requests. A service is reached over gRPC, or
  over HTTP when the HTTP client of the gateway delivers the request to the handler of the path.
\<close>

section \<open>Delivery\<close>

text \<open>The forwarded request as the service sees it; \<open>Q\<close> splits the raw query.\<close>

definition delivered :: "(string \<Rightarrow> string \<Rightarrow> string) \<Rightarrow> string \<Rightarrow> string \<Rightarrow> ProxyRequest \<Rightarrow> Request" where
  "delivered Q peer path px = \<lparr>rq_Method = px_Method px, rq_Path = path, rq_Query = Q (px_RawQuery px), rq_RawQuery = px_RawQuery px,
     rq_Header = px_Header px, rq_Body = px_Body px, rq_RemoteAddr = peer\<rparr>"

definition reaches :: "('w, 'a) Handler \<Rightarrow> (string \<Rightarrow> string \<Rightarrow> string) \<Rightarrow> string \<Rightarrow> string \<Rightarrow> (string \<times> 'w http_handler) list \<Rightarrow> bool" where
  "reaches h Q peer service handlers \<longleftrightarrow> (\<exists>base. gh_upstreams h service = Some base \<and> (\<forall>(path, handle) \<in> set handlers.
     gh_checkURL h (base @ path) = None
     \<and> (\<forall>px w. px_URL px = base @ path \<longrightarrow> gh_Do h px w = (case handle (delivered Q peer path px) w of (resp, w') \<Rightarrow> (Inr resp, w')))))"

definition forwarded :: "(string \<Rightarrow> string \<Rightarrow> string) \<Rightarrow> string \<Rightarrow> string \<Rightarrow> Request \<Rightarrow> Request" where
  "forwarded Q peer path r = r\<lparr>rq_Path := path, rq_Query := Q (rq_RawQuery r), rq_RemoteAddr := peer\<rparr>"

lemma proxy_reaches:
  assumes "reaches h Q peer service handlers" and "(path, handle) \<in> set handlers"
  shows "proxy h service path r w = handle (forwarded Q peer path r) w"
proof -
  have "delivered Q peer path \<lparr>px_Method = rq_Method r, px_URL = u, px_RawQuery = rq_RawQuery r, px_Header = rq_Header r, px_Body = rq_Body r\<rparr> = forwarded Q peer path r" for u
    by (simp add: delivered_def forwarded_def)
  with assms show ?thesis by (fastforce simp: reaches_def proxy_def split: prod.splits)
qed

section \<open>A payment callback\<close>

text \<open>A lock that is free can be taken.\<close>

lemma world_Acquire_free:
  assumes "memory_holder (ow_now w) (ow_locks w) k = None"
  shows "world_Acquire k ttl w = (Inr \<lparr>lk_key = k, lk_token = hd (ow_tokens w)\<rparr>,
    w\<lparr>ow_locks := (ow_locks w)(k \<mapsto> \<lparr>mls_token = hd (ow_tokens w), mls_expiresAt = ow_now w + ttl\<rparr>), ow_tokens := tl (ow_tokens w)\<rparr>)"
  using assms by (auto simp: world_Acquire_def liftG_def MemoryLocker_Acquire_def memory_holder_def split: option.splits if_splits)

lemma unpaid_order_payable:
  assumes "repo_ok (ow_orders w)" and "map_of (ow_orders w) n = Some item" and "ord_Status item = StatusNoPay"
    and "memory_holder (ow_now w) (ow_locks w) (''tickethub:order-lock:'' @ show_int n) = None"
  shows "\<exists>w'. HandlePaymentCallback memory_ports n (ord_AmountCent item) True w =
    (Inr \<lparr>pcr_Status = StatusPaid, pcr_RefundRequired = False, pcr_AmountCent = ord_AmountCent item\<rparr>, w')
    \<and> ow_orders w' = AList.update n (item\<lparr>ord_Status := StatusPaid, ord_PaidAt := Some (ow_now w)\<rparr>) (ow_orders w)"
proof -
  have n: "ord_OrderNumber item = n" using repo_ok_lookup [OF assms(1,2)] .
  show ?thesis
    using assms n
    by (simp add: HandlePaymentCallback_def withOrderLock_def memory_ports_def attemptG_def deferG_def world_Acquire_free findSystemOrder_def
        liftG_def Repo_FindByOrderNumberSystem_def persistPaid_def bindG_def getG_def Order_MarkPaid_def Repo_Update_def ProgramClient_nil_def
        returnG_def memoryLock_Release_def Let_def)
qed

definition free_locks :: "'z order_world_scheme \<Rightarrow> int64 \<Rightarrow> bool" where
  "free_locks w n \<longleftrightarrow> memory_holder (ow_now w) (ow_locks w) (''tickethub:order-lock:'' @ show_int n) = None
     \<and> memory_holder (ow_now w) (ow_locks w) (''tickethub:payment-lock:'' @ show_int n) = None"

lemma unpaid_order_callback:
  fixes w :: "'z pay_world_scheme"
  assumes "repo_ok (ow_orders w)" and "map_of (ow_orders w) n = Some item" and "ord_Status item = StatusNoPay"
    and free: "free_locks w n" and "\<And>p. map_of (pw_payments w) n = Some p \<Longrightarrow> pay_Status p \<noteq> PaymentRefunded"
  shows "\<exists>w'. Callback (memory_pay wire) n (ord_AmountCent item) channel True w = (Inr (), w')
    \<and> ow_orders w' = AList.update n (item\<lparr>ord_Status := StatusPaid, ord_PaidAt := Some (ow_now w)\<rparr>) (ow_orders w)
    \<and> map_of (pw_payments w') n = Some \<lparr>pay_OrderNumber = n, pay_AmountCent = ord_AmountCent item, pay_Channel = channel, pay_Status = PaymentPaid\<rparr>"
proof -
  let ?k = "''tickethub:payment-lock:'' @ show_int n"
  let ?h = "\<lparr>lk_key = ?k, lk_token = hd (ow_tokens w)\<rparr>"
  let ?w1 = "w\<lparr>ow_locks := (ow_locks w)(?k \<mapsto> \<lparr>mls_token = hd (ow_tokens w), mls_expiresAt = ow_now w + 10 * 1000000000\<rparr>), ow_tokens := tl (ow_tokens w)\<rparr>"
  have "memory_holder (ow_now ?w1) (ow_locks ?w1) (''tickethub:order-lock:'' @ show_int n) = None"
    using free by (simp add: free_locks_def memory_holder_def)
  with unpaid_order_payable [of ?w1 n item] assms(1-3) obtain w2 where
    w2: "HandlePaymentCallback memory_ports n (ord_AmountCent item) True ?w1 =
      (Inr \<lparr>pcr_Status = StatusPaid, pcr_RefundRequired = False, pcr_AmountCent = ord_AmountCent item\<rparr>, w2)"
    "ow_orders w2 = AList.update n (item\<lparr>ord_Status := StatusPaid, ord_PaidAt := Some (ow_now w)\<rparr>) (ow_orders w)" by auto
  let ?p = "\<lparr>pay_OrderNumber = n, pay_AmountCent = ord_AmountCent item, pay_Channel = channel, pay_Status = PaymentPaid\<rparr>"
  have c: "callback (memory_pay wire) n (ord_AmountCent item) channel True ?w1 = (Inr (), w2\<lparr>pw_payments := AList.update n ?p (pw_payments w2)\<rparr>)"
    using w2 assms(5)
    by (auto simp: callback_def attemptG_def Let_def memory_pay_def liftG_def Payment_Find_def rpc_order_client_def over_wire_def Server_HandlePaymentCallback_def
        bindG_def settle_def Payment_Save_def go_simps IsCode_New split: option.splits)
  have "Callback (memory_pay wire) n (ord_AmountCent item) channel True w = deferG (callback (memory_pay wire) n (ord_AmountCent item) channel True)
      (liftG ow_locks (\<lambda>l w. w\<lparr>ow_locks := l\<rparr>) (memoryLock_Release ?h)) ?w1"
    using free by (simp add: Callback_def withPaymentLock_def memory_pay_def memory_ports_def bindG_def world_Acquire_free free_locks_def)
  with c w2 show ?thesis by (auto simp: deferG_def liftG_def update_conv' split: prod.splits)
qed

lemma forwarded_fields [simp]:
  "rq_Method (forwarded Q peer path r) = rq_Method r" "rq_Body (forwarded Q peer path r) = rq_Body r" "rq_Header (forwarded Q peer path r) = rq_Header r"
  by (simp_all add: forwarded_def)

text \<open>
  C10. Nothing tells a callback of the payment gateway from a request of anybody else: whatever headers it has, a request to the public route
  of the callbacks that names an unpaid order and its amount makes the order and its payment paid. Neither a signature nor a token is checked.
\<close>

theorem callback_needs_no_proof:
  fixes w :: "'z pay_world_scheme"
  assumes "reaches h Q peer ''pay-service'' (pay_routes parse (memory_pay wire))"
    and "rq_Path r = ''/api/payments/callback''" and "rq_Method r = MethodPost"
    and "parse (rq_Body r) = Some (JObj [(''order_number'', JStr (show_int n)), (''amount_cent'', JInt (ord_AmountCent item)), (''channel'', JStr channel), (''paid'', JBool True)])"
    and "in64 n" and "in64 (ord_AmountCent item)"
    and "repo_ok (ow_orders w)" and "map_of (ow_orders w) n = Some item" and "ord_Status item = StatusNoPay"
    and "free_locks w n" and "\<And>p. map_of (pw_payments w) n = Some p \<Longrightarrow> pay_Status p \<noteq> PaymentRefunded"
  shows "\<exists>w'. serve h r w = (WriteOK success, w')
    \<and> map_of (ow_orders w') n = Some (item\<lparr>ord_Status := StatusPaid, ord_PaidAt := Some (ow_now w)\<rparr>)
    \<and> map_of (pw_payments w') n = Some \<lparr>pay_OrderNumber = n, pay_AmountCent = ord_AmountCent item, pay_Channel = channel, pay_Status = PaymentPaid\<rparr>"
proof -
  have "serve h r w = PayHttp_callback parse (memory_pay wire) (forwarded Q peer ''/v1/payments/callback'' r) w"
    using assms(2) proxy_reaches [OF assms(1), of "''/v1/payments/callback''"] by (simp add: serve_def serve_routes_def routes_def publicProxy_def pay_routes_def)
  also have "\<dots> = respond (bindG (Callback (memory_pay wire) n (ord_AmountCent item) channel True) (\<lambda>_. returnG success)) w"
    using assms(3-6) by (simp add: PayHttp_callback_def decode_body_def DecodeJSON_def field_def resultG_def get_int_def get_str_def get_bool_def id_round_trip
        bindG_def returnG_def respond_def)
  finally show ?thesis using unpaid_order_callback [OF assms(7-9,10,11), of wire channel]
    by (auto simp: respond_def bindG_def returnG_def update_conv')
qed

section \<open>Canceling orders\<close>

lemma memory_lock_run:
  fixes w :: "'z order_world_scheme" and m :: "('e, 'z order_world_scheme, 'a) prog" and wrap :: "error \<Rightarrow> 'e"
  obtains (busy) "ow_orders (snd (withOrderLock memory_ports n wrap m w)) = ow_orders w"
  | (ran) w1 where "ow_orders w1 = ow_orders w" and "ow_now w1 = ow_now w" and "ow_orders (snd (withOrderLock memory_ports n wrap m w)) = ow_orders (snd (m w1))"
proof (cases "world_Acquire (''tickethub:order-lock:'' @ show_int n) (op_lockTTL (memory_ports :: 'z order_world_scheme order_ports)) w")
  case (Pair res w1)
  then have w1: "ow_orders w1 = ow_orders w" "ow_now w1 = ow_now w" by (auto simp: world_Acquire_def liftG_def split: prod.splits)
  have l: "op_locker (memory_ports :: 'z order_world_scheme order_ports) = Some (world_Acquire, \<lambda>h. liftG ow_locks (\<lambda>l w. w\<lparr>ow_locks := l\<rparr>) (memoryLock_Release h))" by (simp add: memory_ports_def)
  show thesis
  proof (cases res)
    case (Inl e)
    with Pair w1 busy l show ?thesis by (simp add: withOrderLock_def attemptG_def failG_def)
  next
    case (Inr h)
    with Pair l have "ow_orders (snd (withOrderLock memory_ports n wrap m w)) = ow_orders (snd (m w1))"
      by (simp add: withOrderLock_def attemptG_def deferG_def liftG_def split: prod.splits)
    with w1 ran show ?thesis by blast
  qed
qed

lemma cancel_orders:
  fixes w :: "'z order_world_scheme"
  assumes "ow_orders (snd (cancel memory_ports n u w)) \<noteq> ow_orders w"
  shows "\<exists>item. map_of (ow_orders w) n = Some item \<and> ord_UserID item = u \<and> ord_Status item = StatusNoPay
      \<and> ow_orders (snd (cancel memory_ports n u w)) =
        AList.update (ord_OrderNumber item) (item\<lparr>ord_Status := StatusCancel, ord_CanceledAt := Some (ow_now w)\<rparr>) (ow_orders w)"
  using assms
  by (auto simp: cancel_def memory_ports_def bindG_def liftG_def Repo_FindByOrderNumber_def Repo_Update_def getG_def returnG_def failG_def Order_Cancel_def
      ProgramClient_nil_def split: option.splits if_splits)

lemma Cancel_changes:
  fixes w :: "'z order_world_scheme"
  assumes "repo_ok (ow_orders w)" and "map_of (ow_orders w) n = Some item" and "map_of (ow_orders (snd (Cancel memory_ports m u w))) n \<noteq> Some item"
  shows "ord_UserID item = u \<and> ord_Status item = StatusNoPay
    \<and> map_of (ow_orders (snd (Cancel memory_ports m u w))) n = Some (item\<lparr>ord_Status := StatusCancel, ord_CanceledAt := Some (ow_now w)\<rparr>)"
proof (cases rule: memory_lock_run [where w = w and n = m and wrap = "id :: error \<Rightarrow> error" and m = "cancel memory_ports m u"])
  case busy
  with assms(2,3) show ?thesis by (simp add: Cancel_def)
next
  case (ran w1)
  then have "ow_orders (snd (cancel memory_ports m u w1)) \<noteq> ow_orders w1" using assms(2,3) by (auto simp: Cancel_def)
  from cancel_orders [OF this] ran obtain item' where i: "map_of (ow_orders w) m = Some item'" "ord_UserID item' = u" "ord_Status item' = StatusNoPay"
    "ow_orders (snd (Cancel memory_ports m u w)) = AList.update (ord_OrderNumber item') (item'\<lparr>ord_Status := StatusCancel, ord_CanceledAt := Some (ow_now w)\<rparr>) (ow_orders w)"
    by (auto simp: Cancel_def)
  with assms repo_ok_lookup [OF assms(1) i(1)] show ?thesis by (auto simp: update_conv' split: if_splits)
qed

lemma parseBearer_run:
  obtains (refused) e where "parseBearer h r w = (Inl e, w)"
  | (accepted) who where "parseBearer h r w = (Inr who, w)" and "authenticated h w r who"
proof -
  have "parseBearer (logged h) r (w, []) = (fst (parseBearer h r w), w, [])" "snd (parseBearer h r w) = w"
    by (auto simp: parseBearer_def logged_def Let_def bindG_def getG_def resultG_def go_simps split: sum.splits)
  then show thesis using that by (cases h r "(w, [] :: upstream_call list)" rule: parseBearer_logged) (auto simp: prod_eq_iff dest: sym)
qed

text \<open>The claims of a token are 64-bit numbers.\<close>

lemma claims_in64: "unmarshal_claims d = Some who \<Longrightarrow> in64 (cl_UserID who)"
proof -
  have "get_int v = Some u \<Longrightarrow> in64 u" for v u by (auto simp: get_int_def in64_def split: json.splits if_splits)
  then show "unmarshal_claims d = Some who \<Longrightarrow> in64 (cl_UserID who)"
    by (auto simp: unmarshal_claims_def in64_def split: json.splits option.splits)
qed

lemma authenticated_in64: "authenticated h w r who \<Longrightarrow> in64 (cl_UserID who)"
  unfolding authenticated_def by (blast intro: claims_in64)

lemma respond_state: "snd (respond m w) = snd (m w)"
  by (simp add: respond_def split: prod.splits sum.splits)

lemma decode_state: "P w \<Longrightarrow> (\<And>x. P (snd (f x w))) \<Longrightarrow> P (snd (bindG (decode_body parse read r) f w))"
  by (auto simp: bindG_def decode_body_def resultG_def go_simps split: sum.splits)

lemma returnG_bind: "bindG (returnG x) f = f x"
  by (simp add: bindG_def returnG_def fun_eq_iff)

lemma bind_return_state: "snd (bindG m (\<lambda>x. returnG (f x)) w) = snd (m w)"
  by (auto simp: bindG_def returnG_def split: prod.splits sum.splits)

lemma Query_Get_state: "snd (Query_Get memory_ports n u w) = w"
  by (auto simp: Query_Get_def memory_ports_def failG_def liftG_def Repo_FindByOrderNumber_def split: option.splits)

lemma CancelOrder_state: "snd (over_wire wire (OrderSrv_CancelOrder fmt_time memory_ports m u) w) = snd (Cancel memory_ports m u w)"
proof -
  have "snd (OrderSrv_CancelOrder fmt_time memory_ports m u w) = snd (Cancel memory_ports m u w)"
    unfolding OrderSrv_CancelOrder_def by (simp add: bindG_def [of "Cancel _ _ _"] bind_return_state Query_Get_state split: prod.splits sum.splits)
  then show ?thesis by (auto simp: over_wire_def attemptG_def go_simps split: prod.splits sum.splits)
qed

lemma cancel_over_http:
  assumes "oh_orders oh = memory_ports" and "in64 u" and "rq_Header r UserIDHeader = show_int u"
  shows "\<exists>m. snd (OrderHttp_cancel oh r w) = w \<or> snd (OrderHttp_cancel oh r w) = snd (Cancel memory_ports m u w)"
proof (cases "rq_Method r = MethodPost")
  case True
  then have run: "OrderHttp_cancel oh r = respond (bindG (decode_body (oh_parse oh) (\<lambda>f. case (get_int (f ''order_number''), get_int (f ''user_id'')) of
          (Some orderNumber, Some userID) \<Rightarrow> Some (orderNumber, userID) | _ \<Rightarrow> None) r) (\<lambda>(orderNumber, userID).
        bindG (Cancel memory_ports orderNumber u) (\<lambda>_. returnG (JObj [(''order_number'', JInt orderNumber)]))))"
    by (simp add: OrderHttp_cancel_def caller_known(1) [OF assms(2,3)] assms(1) returnG_bind)
  show ?thesis unfolding run respond_state by (rule decode_state) (auto simp: bind_return_state)
qed (simp add: OrderHttp_cancel_def)

lemma cancel_over_grpc: "\<exists>m. snd (bindG (decode h (\<lambda>f. Int64_UnmarshalJSON (f ''order_number'')) r) (\<lambda>m.
    bindG (over_wire wire (OrderSrv_CancelOrder fmt_time memory_ports m u)) (\<lambda>reply. returnG (publicOrder reply))) w) \<in> {w, snd (Cancel memory_ports m u w)}"
  unfolding decode_def by (rule decode_state) (auto simp: bind_return_state CancelOrder_state)

text \<open>
  C9. An order is canceled through the gateway only by its owner, whether the gateway calls the order service over gRPC or forwards the
  request over HTTP, and whatever user the headers and the body of the request name: the order changes only if the request bears a
  valid token of the order's user, and then an unpaid order has become a canceled one.
\<close>

theorem orders_canceled_by_owner:
  fixes w :: "'z order_world_scheme"
  assumes "reaches h Q peer ''order-service'' (order_routes oh)" and "oh_orders oh = memory_ports"
    and "\<And>client. grpc_client gc_order h = Some client \<Longrightarrow> go_CancelOrder client = (\<lambda>n u. over_wire wire (OrderSrv_CancelOrder fmt_time memory_ports n u))"
    and "rq_Path r = ''/api/orders/cancel''" and "serve h r w = (response, w')"
    and "repo_ok (ow_orders w)" and "map_of (ow_orders w) n = Some item" and "map_of (ow_orders w') n \<noteq> Some item"
  shows "\<exists>who. authenticated h w r who \<and> cl_UserID who = ord_UserID item
    \<and> ord_Status item = StatusNoPay \<and> map_of (ow_orders w') n = Some (item\<lparr>ord_Status := StatusCancel, ord_CanceledAt := Some (ow_now w)\<rparr>)"
proof -
  have s: "orderCancel h r w = (response, w')" using assms(4,5) by (simp add: serve_def serve_routes_def routes_def)
  have "w' \<noteq> w" using assms(7,8) by auto
  obtain who where who: "parseBearer h r w = (Inr who, w)" "authenticated h w r who"
  proof (cases rule: parseBearer_run [of h r w])
    case (refused e)
    then have "snd (orderCancel h r w) = w" by (simp add: orderCancel_def authProxy_def respond_def bindG_def split: option.split)
    with s \<open>w' \<noteq> w\<close> show thesis by simp
  qed (use that in blast)
  have "\<exists>m. w' = w \<or> w' = snd (Cancel memory_ports m (cl_UserID who) w)"
  proof (cases "grpc_client gc_order h")
    case None
    have "w' = snd (OrderHttp_cancel oh (forwarded Q peer ''/v1/orders/cancel'' (with_caller who r)) w)"
      using s None who(1) proxy_reaches [OF assms(1), of "''/v1/orders/cancel''" "OrderHttp_cancel oh"]
      by (simp add: orderCancel_def authProxy_def order_routes_def)
    then show ?thesis using cancel_over_http [OF assms(2) authenticated_in64 [OF who(2)]] by (simp add: with_caller_def)
  next
    case (Some client)
    then show ?thesis using s who(1) cancel_over_grpc [of h r wire fmt_time "cl_UserID who" w]
      by (auto simp: orderCancel_def respond_state bindG_def [of "parseBearer _ _"] assms(3) [OF Some] split: if_splits dest!: arg_cong [of "_ :: http_response \<times> _" _ snd])
  qed
  then obtain m where "w' = snd (Cancel memory_ports m (cl_UserID who) w)" using \<open>w' \<noteq> w\<close> by blast
  with Cancel_changes [OF assms(6,7), of m "cl_UserID who"] assms(8) who(2) show ?thesis by auto
qed

section \<open>A sample\<close>

text \<open>A gateway in front of the payment and the order service over HTTP.\<close>

definition sample_body :: json where
  "sample_body = JObj [(''order_number'', JStr ''42''), (''amount_cent'', JInt 500), (''channel'', JStr ''mock''), (''paid'', JBool True)]"

definition sample_handlers :: "(string \<times> pay_world http_handler) list" where
  "sample_handlers = map (\<lambda>(p, f). (''http://127.0.0.1:8004'' @ p, f)) (pay_routes (\<lambda>_. Some sample_body) (memory_pay id))
     @ map (\<lambda>(p, f). (''http://127.0.0.1:8003'' @ p, f)) (order_routes \<lparr>oh_orders = memory_ports, oh_queries = None, oh_compensation = None,
         oh_reconciliation = None, oh_parse = (\<lambda>_. Some (JObj [(''order_number'', JInt 42), (''user_id'', JInt 9)]))\<rparr>)"

definition sample_front :: "(pay_world, string) Handler" where
  "sample_front = \<lparr>gh_Do = (\<lambda>px w. case map_of sample_handlers (px_URL px) of
       None \<Rightarrow> (Inl (PlainError ''connection refused''), w)
     | Some f \<Rightarrow> (case f (delivered (\<lambda>_ _. []) ''10.0.0.1'' (drop 21 (px_URL px)) px) w of (resp, w') \<Rightarrow> (Inr resp, w'))),
     gh_checkURL = (\<lambda>_. None), gh_upstreams = merge_upstreams [], gh_grpc = None,
     gh_secret = ''secret'', gh_nowUnix = (\<lambda>w. 50), gh_clientIPs = [], gh_crypto = gh_crypto sample_gateway,
     gh_json = (fst (gh_json sample_gateway), (\<lambda>s. if s = ''h'' then Some token_header else Some (JObj [(''user_id'', JInt 3), (''role'', JStr ''user''), (''exp'', JInt 100)]))),
     gh_netip = sample_netip\<rparr>"

definition unpaid_pay :: pay_world where
  "unpaid_pay = sample_pay\<lparr>ow_orders := [(42, sample_order)]\<rparr>"

definition front_request :: "string \<Rightarrow> Request" where
  "front_request path = (sample_request path)\<lparr>rq_Method := MethodPost\<rparr>"

lemma sample_front_reaches:
  "reaches sample_front (\<lambda>_ _. []) ''10.0.0.1'' ''pay-service'' (pay_routes (\<lambda>_. Some sample_body) (memory_pay id))"
  "reaches sample_front (\<lambda>_ _. []) ''10.0.0.1'' ''order-service'' (order_routes \<lparr>oh_orders = memory_ports, oh_queries = None, oh_compensation = None,
     oh_reconciliation = None, oh_parse = (\<lambda>_. Some (JObj [(''order_number'', JInt 42), (''user_id'', JInt 9)]))\<rparr>)"
  by (auto simp: reaches_def sample_front_def merge_upstreams_def defaultUpstreams_def sample_handlers_def pay_routes_def order_routes_def)

lemma unpaid_pay_facts: "repo_ok (ow_orders unpaid_pay)" "map_of (ow_orders unpaid_pay) 42 = Some sample_order" "ord_Status sample_order = StatusNoPay"
  "ord_AmountCent sample_order = 500" "ord_UserID sample_order = 3" "free_locks unpaid_pay 42" "map_of (pw_payments unpaid_pay) 42 = None"
  by (simp_all add: repo_ok_def unpaid_pay_def sample_pay_def sample_order_def Order_New_def free_locks_def memory_holder_def NewMemoryLocker_def)

theorem callback_needs_no_proof_witness:
  "\<exists>w'. serve sample_front ((front_request ''/api/payments/callback'')\<lparr>rq_Header := (\<lambda>_. [])\<rparr>) unpaid_pay = (WriteOK success, w')
    \<and> ord_Status (the (map_of (ow_orders w') 42)) = StatusPaid"
proof -
  let ?r = "(front_request ''/api/payments/callback'')\<lparr>rq_Header := (\<lambda>_. [])\<rparr>"
  have "show_int 42 = ''42''" by code_simp
  then have b: "Some sample_body = Some (JObj [(''order_number'', JStr (show_int 42)), (''amount_cent'', JInt (ord_AmountCent sample_order)), (''channel'', JStr ''mock''), (''paid'', JBool True)])"
    by (simp add: sample_body_def unpaid_pay_facts)
  from callback_needs_no_proof [OF sample_front_reaches(1), of ?r, OF _ _ b _ _ unpaid_pay_facts(1-3,6)] show ?thesis
    by (auto simp: front_request_def sample_request_def in64_def unpaid_pay_facts)
qed

theorem orders_canceled_by_owner_witness:
  "map_of (ow_orders (snd (serve sample_front (front_request ''/api/orders/cancel'') unpaid_pay))) 42 = Some (sample_order\<lparr>ord_Status := StatusCancel, ord_CanceledAt := Some 20\<rparr>)
    \<and> (\<exists>who. authenticated sample_front unpaid_pay (front_request ''/api/orders/cancel'') who \<and> cl_UserID who = 3)"
proof -
  let ?s = "serve sample_front (front_request ''/api/orders/cancel'') unpaid_pay"
  have c: "ord_Status (the (map_of (ow_orders (snd ?s)) 42)) = StatusCancel" by code_simp
  then have "map_of (ow_orders (snd ?s)) 42 \<noteq> Some sample_order" by (auto simp: unpaid_pay_facts)
  from orders_canceled_by_owner [OF sample_front_reaches(2), of undefined undefined "front_request ''/api/orders/cancel''" unpaid_pay "fst ?s" "snd ?s" 42 sample_order, OF _ _ _ _ unpaid_pay_facts(1,2) this]
  show ?thesis by (auto simp: sample_front_def [THEN arg_cong, of gh_grpc] grpc_client_def front_request_def sample_request_def unpaid_pay_facts sample_pay_def unpaid_pay_def)
qed

end
