(* ===== verification/Redis_Queue.thy ===== *)
theory Redis_Queue
  imports Delay_Queue "HOL-Library.Countable"
begin

text \<open>
  The delay queue on Redis (\<open>src/pkg/delayqueue/redis_queue.go\<close>): per topic a sorted set of the waiting messages by due time, a sorted set of
  the claimed ones by the end of their visibility timeout, and a hash with the messages themselves. Messages of an older layout, which
  were members of one sorted set, are moved over by a claim.

  The sorted sets and hashes of Redis are a parameter, the record \<open>queue_redis\<close>, and the locale \<open>queue_server\<close> states their documented behaviour over two
  observations: the score of each member and the fields of each hash. A script runs as one step. A call of the client library may fail
  before or after its command is executed. The JSON texts are parameters.
\<close>

section \<open>Commands and scripts\<close>

record 'r queue_redis =
  zADD :: "string \<Rightarrow> int \<Rightarrow> string \<Rightarrow> 'r \<Rightarrow> 'r"
  zREM :: "string \<Rightarrow> string \<Rightarrow> 'r \<Rightarrow> bool \<times> 'r"
  zRANGEBYSCORE :: "string \<Rightarrow> int \<Rightarrow> nat \<Rightarrow> 'r \<Rightarrow> string list"
  hSET :: "string \<Rightarrow> string \<Rightarrow> string \<Rightarrow> 'r \<Rightarrow> 'r"
  hDEL :: "string \<Rightarrow> string \<Rightarrow> 'r \<Rightarrow> 'r"
  hMGET :: "string \<Rightarrow> string list \<Rightarrow> 'r \<Rightarrow> string option list"

definition enqueueScript :: "'r queue_redis \<Rightarrow> string \<Rightarrow> string \<Rightarrow> string \<Rightarrow> string \<Rightarrow> string \<Rightarrow> int \<Rightarrow> 'r \<Rightarrow> string list \<times> 'r" where
  "enqueueScript Q ready data processing i text score s =
     ([], snd (zREM Q processing i (zADD Q ready score i (hSET Q data i text s))))"

text \<open>The three loops of the claim script. \<open>decoded_id\<close> is the identifier in a message of the older layout, if its JSON can be decoded.\<close>

fun return_expired :: "'r queue_redis \<Rightarrow> string \<Rightarrow> string \<Rightarrow> int \<Rightarrow> string list \<Rightarrow> 'r \<Rightarrow> 'r" where
  "return_expired Q ready processing now [] s = s"
| "return_expired Q ready processing now (i # expired) s = (case zREM Q processing i s of
     (removed, s1) \<Rightarrow> return_expired Q ready processing now expired (if removed then zADD Q ready now i s1 else s1))"

fun move_legacy :: "(string \<Rightarrow> string option) \<Rightarrow> 'r queue_redis \<Rightarrow> string \<Rightarrow> string \<Rightarrow> string \<Rightarrow> int \<Rightarrow> string list \<Rightarrow> 'r \<Rightarrow> 'r" where
  "move_legacy decoded_id Q ready data legacy now [] s = s"
| "move_legacy decoded_id Q ready data legacy now (raw # rest) s = move_legacy decoded_id Q ready data legacy now rest (case decoded_id raw of
     None \<Rightarrow> s
   | Some i \<Rightarrow> (case zREM Q legacy raw s of (removed, s1) \<Rightarrow> if removed then zADD Q ready now i (hSET Q data i raw s1) else s1))"

fun claim_ids :: "'r queue_redis \<Rightarrow> string \<Rightarrow> string \<Rightarrow> int \<Rightarrow> string list \<Rightarrow> 'r \<Rightarrow> string list \<times> 'r" where
  "claim_ids Q ready processing deadline [] s = ([], s)"
| "claim_ids Q ready processing deadline (i # rest) s = (case zREM Q ready i s of
     (removed, s1) \<Rightarrow> (case claim_ids Q ready processing deadline rest (if removed then zADD Q processing deadline i s1 else s1) of
       (claimed, s2) \<Rightarrow> (if removed then i # claimed else claimed, s2)))"

definition claimScript :: "(string \<Rightarrow> string option) \<Rightarrow> 'r queue_redis \<Rightarrow> string \<Rightarrow> string \<Rightarrow> string \<Rightarrow> string \<Rightarrow> int \<Rightarrow> int \<Rightarrow> nat \<Rightarrow> 'r \<Rightarrow> string list \<times> 'r" where
  "claimScript decoded_id Q ready processing data legacy now visibility_deadline limit s =
     (let s1 = return_expired Q ready processing now (zRANGEBYSCORE Q processing now limit s) s;
          s2 = move_legacy decoded_id Q ready data legacy now (zRANGEBYSCORE Q legacy now limit s1) s1
      in claim_ids Q ready processing visibility_deadline (zRANGEBYSCORE Q ready now limit s2) s2)"

definition ackScript :: "'r queue_redis \<Rightarrow> string \<Rightarrow> string \<Rightarrow> string \<Rightarrow> string \<Rightarrow> 'r \<Rightarrow> string list \<times> 'r" where
  "ackScript Q ready processing data i s = ([], hDEL Q data i (snd (zREM Q processing i (snd (zREM Q ready i s)))))"

section \<open>The queue\<close>

record 'r queue_client =
  qc_Run :: "('r \<Rightarrow> string list \<times> 'r) \<Rightarrow> ('r, string list) go"
  qc_HMGet :: "string \<Rightarrow> string list \<Rightarrow> ('r, string option list) go"
  qc_HSet :: "string \<Rightarrow> string \<Rightarrow> string \<Rightarrow> ('r, unit) go"

record 'r RedisQueue =
  rq_redis :: "'r queue_redis"
  rq_client :: "'r queue_client"
  rq_prefix :: string
  rq_visibilityTimeout :: duration
  rq_marshal :: "Message \<Rightarrow> string"
  rq_unmarshal :: "string \<Rightarrow> Message option"
  rq_decoded_id :: "string \<Rightarrow> string option"

definition RedisQueue_WithVisibilityTimeout :: "duration \<Rightarrow> 'r RedisQueue \<Rightarrow> 'r RedisQueue" where
  "RedisQueue_WithVisibilityTimeout timeout q = (if timeout > 0 then q\<lparr>rq_visibilityTimeout := timeout\<rparr> else q)"

record queueKeys =
  qk_ready :: string
  qk_processing :: string
  qk_data :: string
  qk_legacy :: string

definition queue_keys :: "'r RedisQueue \<Rightarrow> string \<Rightarrow> queueKeys" where
  "queue_keys q topic = (let base = rq_prefix q @ '':'' @ topic in
     \<lparr>qk_ready = base @ '':ready'', qk_processing = base @ '':processing'', qk_data = base @ '':data'', qk_legacy = base\<rparr>)"

definition UnixMilli :: "time \<Rightarrow> int64" where
  "UnixMilli t = t div 1000000"

definition RedisQueue_Enqueue :: "'r RedisQueue \<Rightarrow> Message \<Rightarrow> ('r, unit) go" where
  "RedisQueue_Enqueue q msg =
     (if msg_ID msg = [] \<or> msg_Topic msg = [] then failG (PlainError ''delay queue message id and topic are required'')
      else let keys = queue_keys q (msg_Topic msg) in
        bindG (qc_Run (rq_client q) (enqueueScript (rq_redis q) (qk_ready keys) (qk_data keys) (qk_processing keys)
          (msg_ID msg) (rq_marshal q msg) (UnixMilli (msg_AvailableAt msg)))) (\<lambda>_. returnG ()))"

definition RedisQueue_Ack :: "'r RedisQueue \<Rightarrow> string \<Rightarrow> string \<Rightarrow> ('r, unit) go" where
  "RedisQueue_Ack q topic i = (let keys = queue_keys q topic in
     bindG (qc_Run (rq_client q) (ackScript (rq_redis q) (qk_ready keys) (qk_processing keys) (qk_data keys) i)) (\<lambda>_. returnG ()))"

text \<open>The loop over the values of the claimed messages.\<close>

fun collect_claimed :: "'r RedisQueue \<Rightarrow> string \<Rightarrow> (string \<times> string option) list \<Rightarrow> ('r, Message list) go" where
  "collect_claimed q topic [] = returnG []"
| "collect_claimed q topic ((i, None) # rest) = attemptG (RedisQueue_Ack q topic i) (\<lambda>_. collect_claimed q topic rest)"
| "collect_claimed q topic ((i, Some value) # rest) = (case rq_unmarshal q value of
     None \<Rightarrow> failG (PlainError ''json: cannot unmarshal'')
   | Some msg \<Rightarrow>
       let msg = msg\<lparr>msg_Attempts := msg_Attempts msg + 1\<rparr> in
       bindG (qc_HSet (rq_client q) (qk_data (queue_keys q topic)) (msg_ID msg) (rq_marshal q msg)) (\<lambda>_.
       bindG (collect_claimed q topic rest) (\<lambda>messages. returnG (msg # messages))))"

definition RedisQueue_ClaimDue :: "'r RedisQueue \<Rightarrow> string \<Rightarrow> time \<Rightarrow> int \<Rightarrow> ('r, Message list) go" where
  "RedisQueue_ClaimDue q topic now limit =
     (if limit \<le> 0 then returnG []
      else let keys = queue_keys q topic; visibility = (if rq_visibilityTimeout q \<le> 0 then defaultVisibilityTimeout else rq_visibilityTimeout q) in
        bindG (qc_Run (rq_client q) (claimScript (rq_decoded_id q) (rq_redis q) (qk_ready keys) (qk_processing keys) (qk_data keys) (qk_legacy keys)
          (UnixMilli now) (UnixMilli (now + visibility)) (nat limit))) (\<lambda>claimed.
        if claimed = [] then returnG []
        else bindG (qc_HMGet (rq_client q) (qk_data keys) claimed) (\<lambda>values. collect_claimed q topic (zip claimed values))))"

section \<open>What is relied on of Redis\<close>

locale queue_server =
  fixes Q :: "'r queue_redis" and zs :: "'r \<Rightarrow> string \<Rightarrow> string \<rightharpoonup> int" and hs :: "'r \<Rightarrow> string \<Rightarrow> string \<rightharpoonup> string"
  assumes ZADD: "zs (zADD Q k score m s) = (zs s)(k := (zs s k)(m \<mapsto> score))" "hs (zADD Q k score m s) = hs s"
    and ZREM: "fst (zREM Q k m s) \<longleftrightarrow> m \<in> dom (zs s k)" "zs (snd (zREM Q k m s)) = (zs s)(k := (zs s k)(m := None))" "hs (snd (zREM Q k m s)) = hs s"
    and ZRANGE: "m \<in> set (zRANGEBYSCORE Q k bound limit s) \<Longrightarrow> \<exists>score. zs s k m = Some score \<and> score \<le> bound"
      "distinct (zRANGEBYSCORE Q k bound limit s)"
      "length (zRANGEBYSCORE Q k bound limit s) < limit \<Longrightarrow> zs s k m = Some score \<Longrightarrow> score \<le> bound \<Longrightarrow> m \<in> set (zRANGEBYSCORE Q k bound limit s)"
      "length (zRANGEBYSCORE Q k bound limit s) \<le> limit"
    and HSET: "hs (hSET Q k f v s) = (hs s)(k := (hs s k)(f \<mapsto> v))" "zs (hSET Q k f v s) = zs s"
    and HDEL: "hs (hDEL Q k f s) = (hs s)(k := (hs s k)(f := None))" "zs (hDEL Q k f s) = zs s"
    and HMGET: "hMGET Q k fs s = map (hs s k) fs"
begin

text \<open>The loops of the scripts, as functions of what is observed.\<close>

lemma ZREM_run:
  obtains b t where "zREM Q k m s = (b, t)" "b \<longleftrightarrow> m \<in> dom (zs s k)" "zs t = (zs s)(k := (zs s k)(m := None))" "hs t = hs s"
  using ZREM [of k m s] by (metis prod.collapse)

lemma return_expired_effect:
  assumes "ready \<noteq> processing"
  shows "hs (return_expired Q ready processing now ids s) = hs s"
    and "k \<notin> {ready, processing} \<Longrightarrow> zs (return_expired Q ready processing now ids s) k = zs s k"
    and "zs (return_expired Q ready processing now ids s) processing = (\<lambda>m. if m \<in> set ids then None else zs s processing m)"
    and "zs (return_expired Q ready processing now ids s) ready = (\<lambda>m. if m \<in> set ids \<and> m \<in> dom (zs s processing) then Some now else zs s ready m)"
proof (induction ids arbitrary: s)
  case (Cons i ids)
  have step: thesis if "\<And>u. return_expired Q ready processing now (i # ids) s = return_expired Q ready processing now ids u \<Longrightarrow> hs u = hs s
      \<Longrightarrow> (\<And>k. k \<notin> {ready, processing} \<Longrightarrow> zs u k = zs s k) \<Longrightarrow> zs u processing = (zs s processing)(i := None)
      \<Longrightarrow> zs u ready = (if i \<in> dom (zs s processing) then (zs s ready)(i \<mapsto> now) else zs s ready) \<Longrightarrow> thesis" for s thesis
    by (rule ZREM_run [of processing i s], rule_tac u = "if b then zADD Q ready now i t else t" in that) (use assms in \<open>auto simp: ZADD\<close>)
  { case 1 show ?case by (rule_tac s = s in step) (simp add: Cons.IH(1) del: return_expired.simps) }
  { case 2 then show ?case by (rule_tac s = s in step) (simp add: Cons.IH(2) del: return_expired.simps) }
  { case 3 show ?case by (rule_tac s = s in step) (auto simp: Cons.IH(3) fun_eq_iff simp del: return_expired.simps) }
  { case 4 show ?case by (rule_tac s = s in step) (auto simp: Cons.IH(4) fun_eq_iff domIff simp del: return_expired.simps) }
qed (simp_all add: fun_eq_iff)

lemma claim_ids_effect:
  assumes "ready \<noteq> processing" and "distinct ids"
  shows "fst (claim_ids Q ready processing deadline ids s) = filter (\<lambda>m. m \<in> dom (zs s ready)) ids"
    and "hs (snd (claim_ids Q ready processing deadline ids s)) = hs s"
    and "k \<notin> {ready, processing} \<Longrightarrow> zs (snd (claim_ids Q ready processing deadline ids s)) k = zs s k"
    and "zs (snd (claim_ids Q ready processing deadline ids s)) ready = (\<lambda>m. if m \<in> set ids then None else zs s ready m)"
    and "zs (snd (claim_ids Q ready processing deadline ids s)) processing = (\<lambda>m. if m \<in> set ids \<and> m \<in> dom (zs s ready) then Some deadline else zs s processing m)"
  using assms(2)
proof (induction ids arbitrary: s)
  case (Cons i ids)
  have step: thesis if "\<And>u. claim_ids Q ready processing deadline (i # ids) s =
      (if i \<in> dom (zs s ready) then i # fst (claim_ids Q ready processing deadline ids u) else fst (claim_ids Q ready processing deadline ids u),
       snd (claim_ids Q ready processing deadline ids u)) \<Longrightarrow> hs u = hs s
      \<Longrightarrow> (\<And>k. k \<notin> {ready, processing} \<Longrightarrow> zs u k = zs s k) \<Longrightarrow> zs u ready = (zs s ready)(i := None)
      \<Longrightarrow> zs u processing = (if i \<in> dom (zs s ready) then (zs s processing)(i \<mapsto> deadline) else zs s processing) \<Longrightarrow> thesis" for s thesis
    by (rule ZREM_run [of ready i s], rule_tac u = "if b then zADD Q processing deadline i t else t" in that)
      (use assms(1) in \<open>auto simp: ZADD case_prod_unfold\<close>)
  { case 1 then show ?case by (rule_tac s = s in step) (auto simp: Cons.IH(1) simp del: claim_ids.simps intro!: filter_cong split: if_splits) }
  { case 2 then show ?case by (rule_tac s = s in step) (auto simp: Cons.IH(2) simp del: claim_ids.simps) }
  { case 3 then show ?case by (rule_tac s = s in step) (auto simp: Cons.IH(3) simp del: claim_ids.simps) }
  { case 4 then show ?case by (rule_tac s = s in step) (auto simp: Cons.IH(4) fun_eq_iff simp del: claim_ids.simps) }
  { case 5 then show ?case by (rule_tac s = s in step) (auto simp: Cons.IH(5) fun_eq_iff domIff simp del: claim_ids.simps) }
qed (simp_all add: fun_eq_iff)

lemma claimScript_effect:
  assumes keys: "distinct [ready, processing, data, legacy]" and legacy: "zs s legacy = Map.empty"
    and run: "claimScript decoded_id Q ready processing data legacy now deadline limit s = (claimed, t)"
  shows "hs t = hs s" and "k \<notin> {ready, processing} \<Longrightarrow> zs t k = zs s k"
    and "dom (zs t ready) \<union> dom (zs t processing) = dom (zs s ready) \<union> dom (zs s processing)"
    and "distinct claimed"
    and "m \<in> set claimed \<Longrightarrow> zs t processing m = Some deadline \<and> zs t ready m = None"
    and "m \<in> set claimed \<Longrightarrow> (\<exists>score. (zs s ready m = Some score \<or> zs s processing m = Some score) \<and> score \<le> now)"
proof -
  let ?expired = "zRANGEBYSCORE Q processing now limit s"
  define u where "u = return_expired Q ready processing now ?expired s"
  let ?ids = "zRANGEBYSCORE Q ready now limit u"
  have rp: "ready \<noteq> processing" using keys by simp
  note R = return_expired_effect [OF rp, where now = now and ids = ?expired and s = s, folded u_def]
  have "zs u legacy = Map.empty" using R(2) [of legacy] keys legacy by auto
  then have "zRANGEBYSCORE Q legacy now limit u = []" using ZRANGE(1) [of _ legacy now limit u] by (metis list.set_intros(1) neq_Nil_conv option.distinct(1))
  then have run': "claim_ids Q ready processing deadline ?ids u = (claimed, t)"
    using run by (simp add: claimScript_def Let_def flip: u_def)
  note C = claim_ids_effect [OF rp ZRANGE(2) [where k = ready and bound = now and limit = limit and s = u], where deadline = deadline and s = u, unfolded run' fst_conv snd_conv]
  have in_ready: "m \<in> dom (zs u ready)" if "m \<in> set ?ids" for m using ZRANGE(1) [OF that] by auto
  then have claimed: "claimed = ?ids" using C(1) by (simp add: filter_id_conv)
  have exp: "m \<in> dom (zs s processing)" if "m \<in> set ?expired" for m using ZRANGE(1) [OF that] by auto
  show "hs t = hs s" "k \<notin> {ready, processing} \<Longrightarrow> zs t k = zs s k" using C(2,3) R(1,2) by auto
  show "distinct claimed" unfolding claimed by (rule ZRANGE(2))
  have "dom (zs t ready) \<union> dom (zs t processing) = dom (zs u ready) \<union> dom (zs u processing)"
    unfolding C(4,5) using in_ready by (auto simp: dom_def)
  also have "\<dots> = dom (zs s ready) \<union> dom (zs s processing)" unfolding R(3,4) using exp by (auto simp: dom_def)
  finally show "dom (zs t ready) \<union> dom (zs t processing) = dom (zs s ready) \<union> dom (zs s processing)" .
  show "zs t processing m = Some deadline \<and> zs t ready m = None" if "m \<in> set claimed"
    using that in_ready unfolding C(4,5) claimed by auto
  show "\<exists>score. (zs s ready m = Some score \<or> zs s processing m = Some score) \<and> score \<le> now" if "m \<in> set claimed"
  proof -
    from that ZRANGE(1) obtain score where sc: "zs u ready m = Some score" "score \<le> now" unfolding claimed by blast
    then show ?thesis using ZRANGE(1) [of m processing now limit s] unfolding R(4) by (auto split: if_splits)
  qed
qed

end

text \<open>What is relied on of the client library, and of the JSON form of messages.\<close>

definition client_ok :: "'r queue_redis \<Rightarrow> 'r queue_client \<Rightarrow> bool" where
  "client_ok Q K \<longleftrightarrow>
     (\<forall>script s. case qc_Run K script s of (Inr r, t) \<Rightarrow> script s = (r, t) | (Inl e, t) \<Rightarrow> t = s \<or> t = snd (script s)) \<and>
     (\<forall>k fs s. case qc_HMGet K k fs s of (Inr values, t) \<Rightarrow> t = s \<and> values = hMGET Q k fs s | (Inl e, t) \<Rightarrow> t = s) \<and>
     (\<forall>k f v s. case qc_HSet K k f v s of (Inr _, t) \<Rightarrow> t = hSET Q k f v s | (Inl e, t) \<Rightarrow> t = s \<or> t = hSET Q k f v s)"

definition message_text_ok :: "'r RedisQueue \<Rightarrow> bool" where
  "message_text_ok q \<longleftrightarrow> (\<forall>m. rq_unmarshal q (rq_marshal q m) = Some m)"

section \<open>Keys of different topics\<close>

abbreviation plain_topic :: "string \<Rightarrow> bool" where
  "plain_topic topic \<equiv> CHR '':'' \<notin> set topic"

lemma colon_append: "plain_topic a \<Longrightarrow> plain_topic b \<Longrightarrow> a @ CHR '':'' # x = b @ CHR '':'' # y \<longleftrightarrow> a = b \<and> x = y"
  by (auto dest: join_head_unique)

lemma keys_distinct:
  "distinct [qk_ready (queue_keys q topic), qk_processing (queue_keys q topic), qk_data (queue_keys q topic), qk_legacy (queue_keys q topic)]"
  by (simp add: queue_keys_def Let_def)

lemma keys_of_topics:
  assumes "plain_topic a" and "plain_topic b"
  shows "qk_ready (queue_keys q a) = qk_ready (queue_keys q b) \<longleftrightarrow> a = b" "qk_processing (queue_keys q a) = qk_processing (queue_keys q b) \<longleftrightarrow> a = b"
    "qk_data (queue_keys q a) = qk_data (queue_keys q b) \<longleftrightarrow> a = b" "qk_legacy (queue_keys q a) = qk_legacy (queue_keys q b) \<longleftrightarrow> a = b"
    "qk_ready (queue_keys q a) \<noteq> qk_processing (queue_keys q b)" "qk_ready (queue_keys q a) \<noteq> qk_legacy (queue_keys q b)"
    "qk_processing (queue_keys q a) \<noteq> qk_ready (queue_keys q b)" "qk_processing (queue_keys q a) \<noteq> qk_legacy (queue_keys q b)"
    "qk_legacy (queue_keys q a) \<noteq> qk_ready (queue_keys q b)" "qk_legacy (queue_keys q a) \<noteq> qk_processing (queue_keys q b)"
proof -
  have c: "a @ CHR '':'' # x \<noteq> b" "b @ CHR '':'' # x \<noteq> a" for x using assms by auto
  show "qk_ready (queue_keys q a) = qk_ready (queue_keys q b) \<longleftrightarrow> a = b" "qk_processing (queue_keys q a) = qk_processing (queue_keys q b) \<longleftrightarrow> a = b"
    "qk_data (queue_keys q a) = qk_data (queue_keys q b) \<longleftrightarrow> a = b" "qk_legacy (queue_keys q a) = qk_legacy (queue_keys q b) \<longleftrightarrow> a = b"
    "qk_ready (queue_keys q a) \<noteq> qk_processing (queue_keys q b)" "qk_processing (queue_keys q a) \<noteq> qk_ready (queue_keys q b)"
    using colon_append [OF assms] by (simp_all add: queue_keys_def Let_def)
  show "qk_ready (queue_keys q a) \<noteq> qk_legacy (queue_keys q b)" "qk_processing (queue_keys q a) \<noteq> qk_legacy (queue_keys q b)"
    "qk_legacy (queue_keys q a) \<noteq> qk_ready (queue_keys q b)" "qk_legacy (queue_keys q a) \<noteq> qk_processing (queue_keys q b)"
    using c c [symmetric] by (simp_all add: queue_keys_def Let_def)
qed

section \<open>The messages of a queue\<close>

definition redis_known :: "('r \<Rightarrow> string \<Rightarrow> string \<rightharpoonup> int) \<Rightarrow> ('r \<Rightarrow> string \<Rightarrow> string \<rightharpoonup> string) \<Rightarrow> 'r RedisQueue \<Rightarrow> 'r \<Rightarrow> string \<Rightarrow> string \<Rightarrow> Message option" where
  "redis_known zs hs q s topic i = (let keys = queue_keys q topic in
     if i \<in> dom (zs s (qk_ready keys)) \<union> dom (zs s (qk_processing keys)) then Option.bind (hs s (qk_data keys) i) (rq_unmarshal q) else None)"

text \<open>The layout is the present one, and each message is stored under its identifier.\<close>

definition redis_queue_ok :: "('r \<Rightarrow> string \<Rightarrow> string \<rightharpoonup> int) \<Rightarrow> ('r \<Rightarrow> string \<Rightarrow> string \<rightharpoonup> string) \<Rightarrow> 'r RedisQueue \<Rightarrow> 'r \<Rightarrow> bool" where
  "redis_queue_ok zs hs q s \<longleftrightarrow> (\<forall>topic. plain_topic topic \<longrightarrow> zs s (qk_legacy (queue_keys q topic)) = Map.empty \<and>
     (\<forall>i text. hs s (qk_data (queue_keys q topic)) i = Some text \<longrightarrow> (\<exists>m. rq_unmarshal q text = Some m \<and> msg_ID m = i)))"

fun redis_queue_step :: "'r RedisQueue \<Rightarrow> queue_op \<Rightarrow> 'r \<Rightarrow> 'r" where
  "redis_queue_step q (EnqueueOp m) s = snd (RedisQueue_Enqueue q m s)"
| "redis_queue_step q (ClaimOp topic now limit) s = snd (RedisQueue_ClaimDue q topic now limit s)"
| "redis_queue_step q (AckOp topic i) s = snd (RedisQueue_Ack q topic i s)"

definition plain_op :: "queue_op \<Rightarrow> bool" where
  "plain_op op = plain_topic (case op of EnqueueOp m \<Rightarrow> msg_Topic m | ClaimOp topic now limit \<Rightarrow> topic | AckOp topic i \<Rightarrow> topic)"

locale redis_queue = queue_server "rq_redis q" zs hs
  for q :: "'r RedisQueue" and zs :: "'r \<Rightarrow> string \<Rightarrow> string \<rightharpoonup> int" and hs :: "'r \<Rightarrow> string \<Rightarrow> string \<rightharpoonup> string" +
  assumes client: "client_ok (rq_redis q) (rq_client q)" and texts: "message_text_ok q"
begin

abbreviation known_at :: "'r \<Rightarrow> string \<Rightarrow> string \<Rightarrow> Message option" where
  "known_at \<equiv> redis_known zs hs q"

abbreviation fine :: "'r \<Rightarrow> bool" where
  "fine \<equiv> redis_queue_ok zs hs q"

definition keeps_known :: "'r \<Rightarrow> 'r \<Rightarrow> bool" where
  "keeps_known s t \<longleftrightarrow> fine t \<and> (\<forall>topic i m. plain_topic topic \<longrightarrow> known_at s topic i = Some m \<longrightarrow> (\<exists>m'. known_at t topic i = Some m' \<and> same_message m m'))"

lemma keeps_known_refl: "fine s \<Longrightarrow> keeps_known s s"
  by (auto simp: keeps_known_def same_message_def)

lemma keeps_known_trans: "keeps_known s t \<Longrightarrow> keeps_known t u \<Longrightarrow> keeps_known s u"
  unfolding keeps_known_def by (meson same_message_trans)

lemma client_calls:
  "case qc_Run (rq_client q) script s of (Inr r, t) \<Rightarrow> script s = (r, t) | (Inl e, t) \<Rightarrow> t = s \<or> t = snd (script s)"
  "case qc_HMGet (rq_client q) k fs s of (Inr values, t) \<Rightarrow> t = s \<and> values = hMGET (rq_redis q) k fs s | (Inl e, t) \<Rightarrow> t = s"
  "case qc_HSet (rq_client q) k f v s of (Inr _, t) \<Rightarrow> t = hSET (rq_redis q) k f v s | (Inl e, t) \<Rightarrow> t = s \<or> t = hSET (rq_redis q) k f v s"
proof -
  note c = client [unfolded client_ok_def]
  show "case qc_Run (rq_client q) script s of (Inr r, t) \<Rightarrow> script s = (r, t) | (Inl e, t) \<Rightarrow> t = s \<or> t = snd (script s)"
    using c [THEN conjunct1] by (elim allE)
  show "case qc_HMGet (rq_client q) k fs s of (Inr values, t) \<Rightarrow> t = s \<and> values = hMGET (rq_redis q) k fs s | (Inl e, t) \<Rightarrow> t = s"
    using c [THEN conjunct2, THEN conjunct1] by (elim allE)
  show "case qc_HSet (rq_client q) k f v s of (Inr _, t) \<Rightarrow> t = hSET (rq_redis q) k f v s | (Inl e, t) \<Rightarrow> t = s \<or> t = hSET (rq_redis q) k f v s"
    using c [THEN conjunct2, THEN conjunct2] by (elim allE)
qed

lemma Run_effect: "snd (qc_Run (rq_client q) script s) \<in> {s, snd (script s)}" "fst (qc_Run (rq_client q) script s) = Inr r \<Longrightarrow> script s = (r, snd (qc_Run (rq_client q) script s))"
  using client_calls(1) [where script = script and s = s] by (auto split: prod.splits sum.splits)

lemma HMGet_effect: "snd (qc_HMGet (rq_client q) k fs s) = s" "fst (qc_HMGet (rq_client q) k fs s) = Inr vs \<Longrightarrow> vs = map (hs s k) fs"
  using client_calls(2) [where k = k and fs = fs and s = s] by (auto simp: HMGET split: prod.splits sum.splits)

lemma HSet_effect: "snd (qc_HSet (rq_client q) k f v s) \<in> {s, hSET (rq_redis q) k f v s}"
  using client_calls(3) [where k = k and f = f and v = v and s = s] by (auto split: prod.splits sum.splits)

lemma attempt_stored:
  assumes fine: "fine s" and topic: "plain_topic topic" and v: "hs s (qk_data (queue_keys q topic)) i = Some v" "rq_unmarshal q v = Some m"
  defines "t \<equiv> hSET (rq_redis q) (qk_data (queue_keys q topic)) (msg_ID m) (rq_marshal q (m\<lparr>msg_Attempts := msg_Attempts m + 1\<rparr>)) s"
  shows "keeps_known s t" and "j \<noteq> i \<Longrightarrow> hs t (qk_data (queue_keys q topic)) j = hs s (qk_data (queue_keys q topic)) j"
proof -
  have i: "msg_ID m = i" using fine topic v unfolding redis_queue_ok_def by fastforce
  have h: "hs t = (hs s)(qk_data (queue_keys q topic) := (hs s (qk_data (queue_keys q topic)))(i \<mapsto> rq_marshal q (m\<lparr>msg_Attempts := msg_Attempts m + 1\<rparr>)))"
    and z: "zs t = zs s" unfolding t_def i by (simp_all add: HSET)
  show "j \<noteq> i \<Longrightarrow> hs t (qk_data (queue_keys q topic)) j = hs s (qk_data (queue_keys q topic)) j" by (simp add: h)
  have u: "rq_unmarshal q (rq_marshal q m') = Some m'" for m' using texts by (simp add: message_text_ok_def)
  have "fine t" using fine i topic unfolding redis_queue_ok_def z h by (auto simp: u keys_of_topics)
  moreover have "\<exists>m''. known_at t topic' j = Some m'' \<and> same_message m' m''" if "plain_topic topic'" "known_at s topic' j = Some m'" for topic' j m'
    using that v topic by (cases "topic' = topic \<and> j = i") (auto simp: redis_known_def Let_def z h u keys_of_topics same_message_def split: if_splits)
  ultimately show "keeps_known s t" by (simp add: keeps_known_def)
qed

lemma ack_effect:
  assumes "ackScript (rq_redis q) ready processing data i s = (r, t)" and "ready \<noteq> processing"
  shows "hs t = (hs s)(data := (hs s data)(i := None))" and "zs t = (zs s)(ready := (zs s ready)(i := None), processing := (zs s processing)(i := None))"
  using assms by (auto simp: ackScript_def HDEL ZREM)

lemma acked_other:
  assumes "fine s" and "plain_topic topic" and "t \<in> {s, snd (ackScript (rq_redis q) (qk_ready (queue_keys q topic)) (qk_processing (queue_keys q topic)) (qk_data (queue_keys q topic)) i s)}"
  shows "fine t" and "plain_topic topic' \<Longrightarrow> (topic', j) \<noteq> (topic, i) \<Longrightarrow> known_at t topic' j = known_at s topic' j"
    and "j \<noteq> i \<Longrightarrow> hs t (qk_data (queue_keys q topic)) j = hs s (qk_data (queue_keys q topic)) j"
proof -
  let ?u = "snd (ackScript (rq_redis q) (qk_ready (queue_keys q topic)) (qk_processing (queue_keys q topic)) (qk_data (queue_keys q topic)) i s)"
  have rp: "qk_ready (queue_keys q topic) \<noteq> qk_processing (queue_keys q topic)" using keys_of_topics(5) assms(2) by blast
  note e = ack_effect [OF surjective_pairing rp]
  have "fine ?u" using assms(1,2) unfolding redis_queue_ok_def e by (auto simp: keys_of_topics)
  then show "fine t" using assms(1,3) by auto
  have "known_at ?u topic' j = known_at s topic' j" if "plain_topic topic'" "(topic', j) \<noteq> (topic, i)"
    using that assms(2) unfolding redis_known_def Let_def e by (auto simp: keys_of_topics)
  then show "plain_topic topic' \<Longrightarrow> (topic', j) \<noteq> (topic, i) \<Longrightarrow> known_at t topic' j = known_at s topic' j" using assms(3) by auto
  show "j \<noteq> i \<Longrightarrow> hs t (qk_data (queue_keys q topic)) j = hs s (qk_data (queue_keys q topic)) j" using assms(3) by (auto simp: e)
qed

lemma Ack_effect: "snd (RedisQueue_Ack q topic i s) \<in> {s, snd (ackScript (rq_redis q) (qk_ready (queue_keys q topic)) (qk_processing (queue_keys q topic)) (qk_data (queue_keys q topic)) i s)}"
  using Run_effect(1) [of "ackScript (rq_redis q) (qk_ready (queue_keys q topic)) (qk_processing (queue_keys q topic)) (qk_data (queue_keys q topic)) i" s]
  by (auto simp: RedisQueue_Ack_def Let_def bindG_def returnG_def split: prod.splits sum.splits)

lemma collect_keeps:
  assumes "fine s" and "plain_topic topic" and "distinct (map fst xs)" and "\<forall>(i, v) \<in> set xs. hs s (qk_data (queue_keys q topic)) i = v"
  shows "keeps_known s (snd (collect_claimed q topic xs s))"
  using assms
proof (induction xs arbitrary: s)
  case (Cons x xs)
  obtain i v where x: "x = (i, v)" by (cases x)
  have v: "hs s (qk_data (queue_keys q topic)) i = v" and rest: "\<forall>(j, v) \<in> set xs. j \<noteq> i \<and> hs s (qk_data (queue_keys q topic)) j = v"
    using Cons.prems(3,4) by (force simp: x)+
  have go_on: "keeps_known s (snd (collect_claimed q topic xs t))" if "keeps_known s t" "\<And>j. j \<noteq> i \<Longrightarrow> hs t (qk_data (queue_keys q topic)) j = hs s (qk_data (queue_keys q topic)) j" for t
    using that rest Cons.prems(2,3) x by (intro keeps_known_trans [OF that(1)] Cons.IH) (auto simp: keeps_known_def)
  show ?case
  proof (cases v)
    case None
    let ?t = "snd (RedisQueue_Ack q topic i s)"
    note A = acked_other [OF Cons.prems(1,2) Ack_effect, where i = i]
    have "known_at s topic i = None" using v None by (simp add: redis_known_def Let_def)
    then have "keeps_known s ?t" unfolding keeps_known_def using A(1,2) by (metis option.distinct(1) prod.inject same_message_def Message.surjective Message.update_convs(5) order_refl)
    from go_on [OF this] A(3) show ?thesis by (simp add: x None attemptG_def split: prod.splits) (metis snd_conv)
  next
    case (Some raw)
    show ?thesis
    proof (cases "rq_unmarshal q raw")
      case None
      then show ?thesis using Cons.prems(1) by (simp add: x Some go_simps keeps_known_refl)
    next
      case m: (Some m)
      let ?m = "m\<lparr>msg_Attempts := msg_Attempts m + 1\<rparr>"
      let ?put = "qc_HSet (rq_client q) (qk_data (queue_keys q topic)) (msg_ID ?m) (rq_marshal q ?m)"
      note T = attempt_stored [OF Cons.prems(1,2) v [unfolded Some] m]
      have put: "keeps_known s (snd (?put s))" "j \<noteq> i \<Longrightarrow> hs (snd (?put s)) (qk_data (queue_keys q topic)) j = hs s (qk_data (queue_keys q topic)) j" for j
        using HSet_effect [of "qk_data (queue_keys q topic)" "msg_ID ?m" "rq_marshal q ?m" s] T keeps_known_refl [OF Cons.prems(1)] by auto
      have "snd (collect_claimed q topic ((i, Some raw) # xs) s) \<in> {snd (?put s), snd (collect_claimed q topic xs (snd (?put s)))}"
        by (auto simp: m Let_def bindG_def returnG_def split: prod.splits sum.splits)
      with put(1) go_on [OF put] show ?thesis unfolding x Some by auto
    qed
  qed
qed (simp add: returnG_def keeps_known_refl)

lemma claim_keeps:
  assumes "fine s" and topic: "plain_topic topic"
  shows "keeps_known s (snd (RedisQueue_ClaimDue q topic now limit s))"
proof (cases "limit \<le> 0")
  case False
  let ?keys = "queue_keys q topic"
  let ?script = "claimScript (rq_decoded_id q) (rq_redis q) (qk_ready ?keys) (qk_processing ?keys) (qk_data ?keys) (qk_legacy ?keys) (UnixMilli now)
    (UnixMilli (now + (if rq_visibilityTimeout q \<le> 0 then defaultVisibilityTimeout else rq_visibilityTimeout q))) (nat limit)"
  obtain claimed t where run: "?script s = (claimed, t)" by (cases "?script s")
  have legacy: "zs s (qk_legacy ?keys) = Map.empty" using assms by (simp add: redis_queue_ok_def)
  note E = claimScript_effect [OF keys_distinct legacy run]
  have k1: "keeps_known s t"
    unfolding keeps_known_def
  proof (intro conjI allI impI)
    show "fine t" using assms(1) E(2) topic unfolding redis_queue_ok_def E(1) by (simp add: keys_of_topics)
    fix topic' i m assume p: "plain_topic topic'" and "known_at s topic' i = Some m"
    moreover have "known_at t topic' i = known_at s topic' i"
    proof (cases "topic' = topic")
      case True
      then show ?thesis by (simp only: redis_known_def Let_def E(1) E(3))
    next
      case False
      then show ?thesis using E(2) p topic by (simp add: redis_known_def Let_def E(1) keys_of_topics)
    qed
    ultimately show "\<exists>m'. known_at t topic' i = Some m' \<and> same_message m m'" by (auto simp: same_message_def)
  qed
  let ?r = "qc_Run (rq_client q) ?script s"
  have r: "keeps_known s (snd ?r)" using Run_effect(1) [of ?script s] k1 keeps_known_refl [OF assms(1)] run by auto
  show ?thesis
  proof (cases "fst ?r")
    case (Inl e)
    then have "snd (RedisQueue_ClaimDue q topic now limit s) = snd ?r"
      using False by (cases ?r) (simp add: RedisQueue_ClaimDue_def Let_def bindG_def)
    with r show ?thesis by simp
  next
    case (Inr ids)
    with Run_effect(2) [OF Inr] run have ids: "?r = (Inr claimed, t)" by (cases ?r) auto
    let ?g = "qc_HMGet (rq_client q) (qk_data ?keys) claimed t"
    note G = HMGet_effect [of "qk_data ?keys" claimed t]
    have "snd (RedisQueue_ClaimDue q topic now limit s) \<in> {t, snd (collect_claimed q topic (zip claimed (map (hs t (qk_data ?keys)) claimed)) t)}"
      using False ids G by (cases ?g; cases "fst ?g") (auto simp: RedisQueue_ClaimDue_def Let_def bindG_def go_simps)
    moreover have "keeps_known t (snd (collect_claimed q topic (zip claimed (map (hs t (qk_data ?keys)) claimed)) t))"
      using k1 topic E(4) by (intro collect_keeps) (auto simp: keeps_known_def set_zip)
    ultimately show ?thesis using k1 keeps_known_trans by auto
  qed
qed (use assms in \<open>simp add: RedisQueue_ClaimDue_def returnG_def keeps_known_refl\<close>)

lemma enqueue_effect:
  assumes "ready \<noteq> processing"
  shows "hs (snd (enqueueScript (rq_redis q) ready data processing i v score s)) = (hs s)(data := (hs s data)(i \<mapsto> v))"
    and "zs (snd (enqueueScript (rq_redis q) ready data processing i v score s)) = (zs s)(ready := (zs s ready)(i \<mapsto> score), processing := (zs s processing)(i := None))"
  using assms by (auto simp: enqueueScript_def HSET ZADD ZREM)

lemma Enqueue_effect:
  assumes "fine s" and topic: "plain_topic (msg_Topic m)"
  shows "fine (snd (RedisQueue_Enqueue q m s))"
    and "plain_topic topic \<Longrightarrow> (msg_Topic m, msg_ID m) \<noteq> (topic, i) \<Longrightarrow> known_at (snd (RedisQueue_Enqueue q m s)) topic i = known_at s topic i"
proof -
  let ?k = "queue_keys q (msg_Topic m)"
  let ?script = "enqueueScript (rq_redis q) (qk_ready ?k) (qk_data ?k) (qk_processing ?k) (msg_ID m) (rq_marshal q m) (UnixMilli (msg_AvailableAt m))"
  have t: "snd (RedisQueue_Enqueue q m s) \<in> {s, snd (?script s)}"
    using Run_effect(1) [of ?script s] by (auto simp: RedisQueue_Enqueue_def Let_def bindG_def go_simps split: prod.splits sum.splits)
  have rp: "qk_ready ?k \<noteq> qk_processing ?k" using keys_of_topics(5) topic by blast
  note e = enqueue_effect [OF rp]
  have "fine (snd (?script s))" using assms texts unfolding redis_queue_ok_def e by (auto simp: keys_of_topics message_text_ok_def)
  with t assms(1) show "fine (snd (RedisQueue_Enqueue q m s))" by auto
  have "known_at (snd (?script s)) topic i = known_at s topic i" if "plain_topic topic" "(msg_Topic m, msg_ID m) \<noteq> (topic, i)"
    using that topic unfolding redis_known_def Let_def e by (auto simp: keys_of_topics)
  with t show "plain_topic topic \<Longrightarrow> (msg_Topic m, msg_ID m) \<noteq> (topic, i) \<Longrightarrow> known_at (snd (RedisQueue_Enqueue q m s)) topic i = known_at s topic i" by auto
qed

text \<open>What an accepted message leaves: it is waiting in the queue.\<close>

lemma Enqueue_known:
  assumes "RedisQueue_Enqueue q m s = (Inr (), t)" and "plain_topic (msg_Topic m)"
  shows "known_at t (msg_Topic m) (msg_ID m) = Some m"
proof -
  let ?k = "queue_keys q (msg_Topic m)"
  let ?script = "enqueueScript (rq_redis q) (qk_ready ?k) (qk_data ?k) (qk_processing ?k) (msg_ID m) (rq_marshal q m) (UnixMilli (msg_AvailableAt m))"
  have rp: "qk_ready ?k \<noteq> qk_processing ?k" using keys_of_topics(5) assms(2) by blast
  from assms(1) obtain r where r: "fst (qc_Run (rq_client q) ?script s) = Inr r" and t: "t = snd (qc_Run (rq_client q) ?script s)"
    by (auto simp: RedisQueue_Enqueue_def Let_def bindG_def go_simps split: prod.splits sum.splits if_splits)
  from Run_effect(2) [OF r] t have "t = snd (?script s)" by simp
  with enqueue_effect [OF rp] rp texts show ?thesis by (simp add: redis_known_def Let_def message_text_ok_def)
qed

text \<open>A claim without faults that is large enough hands out every message that is due.\<close>

lemma zrange_all:
  assumes "finite (dom (zs s k))" and "card (dom (zs s k)) < limit" and "zs s k m = Some score" and "score \<le> bound"
  shows "m \<in> set (zRANGEBYSCORE (rq_redis q) k bound limit s)"
proof -
  have "set (zRANGEBYSCORE (rq_redis q) k bound limit s) \<subseteq> dom (zs s k)" using ZRANGE(1) by blast
  then have "length (zRANGEBYSCORE (rq_redis q) k bound limit s) \<le> card (dom (zs s k))"
    using ZRANGE(2) assms(1) by (metis card_mono distinct_card)
  with assms show ?thesis by (intro ZRANGE(3)) auto
qed

lemma claimed_due:
  assumes keys: "distinct [ready, processing, data, legacy]" and legacy: "zs s legacy = Map.empty"
    and run: "claimScript decoded_id (rq_redis q) ready processing data legacy now deadline limit s = (claimed, t)"
    and fin: "finite (dom (zs s ready) \<union> dom (zs s processing))" "card (dom (zs s ready) \<union> dom (zs s processing)) < limit"
    and due: "zs s ready i = Some score \<or> zs s processing i = Some score" "score \<le> now"
  shows "i \<in> set claimed"
proof -
  let ?Q = "rq_redis q"
  let ?expired = "zRANGEBYSCORE ?Q processing now limit s"
  define u where "u = return_expired ?Q ready processing now ?expired s"
  have rp: "ready \<noteq> processing" using keys by simp
  note R = return_expired_effect [OF rp, where now = now and ids = ?expired and s = s, folded u_def]
  have "card (dom (zs s processing)) < limit" using fin card_mono [of "dom (zs s ready) \<union> dom (zs s processing)" "dom (zs s processing)"] by simp
  then have "i \<in> set ?expired" if "zs s processing i = Some score" using that due(2) fin by (intro zrange_all) auto
  then have "\<exists>score'. zs u ready i = Some score' \<and> score' \<le> now"
    using due by (cases "i \<in> set ?expired \<and> i \<in> dom (zs s processing)") (auto simp: R(4))
  then obtain score' where u: "zs u ready i = Some score'" "score' \<le> now" by blast
  have sub: "dom (zs u ready) \<subseteq> dom (zs s ready) \<union> dom (zs s processing)" unfolding R(4) by (auto split: if_splits)
  have ids: "i \<in> set (zRANGEBYSCORE ?Q ready now limit u)"
    using u sub fin card_mono [OF fin(1) sub] by (intro zrange_all) (auto intro: finite_subset)
  have "zs u legacy = Map.empty" using R(2) [of legacy] keys legacy by auto
  then have "zRANGEBYSCORE ?Q legacy now limit u = []" using ZRANGE(1) [of _ legacy now limit u] by (metis list.set_intros(1) neq_Nil_conv option.distinct(1))
  then have "claim_ids ?Q ready processing deadline (zRANGEBYSCORE ?Q ready now limit u) u = (claimed, t)"
    using run by (simp add: claimScript_def Let_def flip: u_def)
  with claim_ids_effect(1) [OF rp ZRANGE(2) [where k = ready and bound = now and limit = limit and s = u], where deadline = deadline and s = u] ids u
  show ?thesis by auto
qed

text \<open>Without faults the messages of all claimed identifiers are collected.\<close>

lemma collect_all:
  assumes "rq_client q = \<lparr>qc_Run = (\<lambda>script s. (Inr (fst (script s)), snd (script s))), qc_HMGet = (\<lambda>k fs s. (Inr (hMGET (rq_redis q) k fs s), s)),
      qc_HSet = (\<lambda>k f v s. (Inr (), hSET (rq_redis q) k f v s))\<rparr>"
    and "\<forall>(i, v) \<in> set xs. \<forall>raw. v = Some raw \<longrightarrow> rq_unmarshal q raw \<noteq> None"
  shows "\<exists>ms t. collect_claimed q topic xs s = (Inr ms, t) \<and>
    (\<forall>i raw m. (i, Some raw) \<in> set xs \<longrightarrow> rq_unmarshal q raw = Some m \<longrightarrow> m\<lparr>msg_Attempts := msg_Attempts m + 1\<rparr> \<in> set ms)"
  using assms(2)
proof (induction xs arbitrary: s)
  case (Cons x xs)
  obtain i v where x: "x = (i, v)" by (cases x)
  show ?case
  proof (cases v)
    case None
    with Cons.IH [of "snd (RedisQueue_Ack q topic i s)"] Cons.prems show ?thesis by (auto simp: x attemptG_def split: prod.splits)
  next
    case (Some raw)
    with Cons.prems obtain m where m: "rq_unmarshal q raw = Some m" by (auto simp: x)
    let ?m = "m\<lparr>msg_Attempts := msg_Attempts m + 1\<rparr>"
    from Cons.IH [of "hSET (rq_redis q) (qk_data (queue_keys q topic)) (msg_ID m) (rq_marshal q ?m) s"] Cons.prems obtain ms t where
      "collect_claimed q topic xs (hSET (rq_redis q) (qk_data (queue_keys q topic)) (msg_ID m) (rq_marshal q ?m) s) = (Inr ms, t)"
      "\<forall>i raw m. (i, Some raw) \<in> set xs \<longrightarrow> rq_unmarshal q raw = Some m \<longrightarrow> m\<lparr>msg_Attempts := msg_Attempts m + 1\<rparr> \<in> set ms"
      by (auto simp: x)
    then show ?thesis using m assms(1) by (auto simp: x Some Let_def bindG_def returnG_def)
  qed
qed (simp add: returnG_def)

lemma delivers:
  assumes direct: "rq_client q = \<lparr>qc_Run = (\<lambda>script s. (Inr (fst (script s)), snd (script s))), qc_HMGet = (\<lambda>k fs s. (Inr (hMGET (rq_redis q) k fs s), s)),
      qc_HSet = (\<lambda>k f v s. (Inr (), hSET (rq_redis q) k f v s))\<rparr>"
    and fine: "fine s" "plain_topic topic" and known: "known_at s topic i = Some m"
    and fin: "finite (dom (zs s (qk_ready (queue_keys q topic))) \<union> dom (zs s (qk_processing (queue_keys q topic))))"
      "int (card (dom (zs s (qk_ready (queue_keys q topic))) \<union> dom (zs s (qk_processing (queue_keys q topic))))) < limit"
    and due: "zs s (qk_ready (queue_keys q topic)) i = Some score \<or> zs s (qk_processing (queue_keys q topic)) i = Some score" "score \<le> UnixMilli now"
  shows "\<exists>ms t. RedisQueue_ClaimDue q topic now limit s = (Inr ms, t) \<and> m\<lparr>msg_Attempts := msg_Attempts m + 1\<rparr> \<in> set ms"
proof -
  let ?keys = "queue_keys q topic"
  let ?script = "claimScript (rq_decoded_id q) (rq_redis q) (qk_ready ?keys) (qk_processing ?keys) (qk_data ?keys) (qk_legacy ?keys) (UnixMilli now)
    (UnixMilli (now + (if rq_visibilityTimeout q \<le> 0 then defaultVisibilityTimeout else rq_visibilityTimeout q))) (nat limit)"
  obtain claimed t where run: "?script s = (claimed, t)" by (cases "?script s")
  have legacy: "zs s (qk_legacy ?keys) = Map.empty" using fine by (simp add: redis_queue_ok_def)
  note E = claimScript_effect [OF keys_distinct legacy run]
  have i: "i \<in> set claimed" using claimed_due [OF keys_distinct legacy run fin(1) _ due] fin(2) by linarith
  from known obtain raw where raw: "hs t (qk_data ?keys) i = Some raw" "rq_unmarshal q raw = Some m"
    by (auto simp: redis_known_def Let_def E(1) bind_eq_Some_conv split: if_splits)
  let ?xs = "zip claimed (map (hs t (qk_data ?keys)) claimed)"
  have "rq_unmarshal q raw \<noteq> None" if "hs t (qk_data ?keys) j = Some raw" for j raw
    using fine that unfolding redis_queue_ok_def E(1) by (metis option.distinct(1))
  then have "\<forall>(j, v) \<in> set ?xs. \<forall>raw. v = Some raw \<longrightarrow> rq_unmarshal q raw \<noteq> None" by (auto simp: set_zip)
  from collect_all [OF direct this, of topic t] obtain ms t' where c: "collect_claimed q topic ?xs t = (Inr ms, t')"
    "\<And>i raw m. (i, Some raw) \<in> set ?xs \<Longrightarrow> rq_unmarshal q raw = Some m \<Longrightarrow> m\<lparr>msg_Attempts := msg_Attempts m + 1\<rparr> \<in> set ms" by blast
  have "(i, Some raw) \<in> set ?xs" using i raw(1) by (force simp: set_zip in_set_conv_nth)
  then have "m\<lparr>msg_Attempts := msg_Attempts m + 1\<rparr> \<in> set ms" using raw(2) by (rule c(2))
  moreover have "RedisQueue_ClaimDue q topic now limit s = (Inr ms, t')"
    using fin(2) i run c(1) direct by (auto simp: RedisQueue_ClaimDue_def Let_def bindG_def HMGET)
  ultimately show ?thesis by blast
qed

end

sublocale redis_queue \<subseteq> redis: delay_queue "redis_queue_ok zs hs q" "\<lambda>s topic i. if plain_topic topic then redis_known zs hs q s topic i else None" "redis_queue_step q" plain_op
proof
  fix s :: 'r and op assume fine: "fine s" and p: "plain_op op"
  show "fine (redis_queue_step q op s)"
    using fine p Enqueue_effect(1) claim_keeps acked_other(1) [OF _ _ Ack_effect] by (cases op) (auto simp: plain_op_def keeps_known_def)
  fix topic i m assume "(if plain_topic topic then known_at s topic i else None) = Some m" and l: "leaves topic i op"
  then have t: "plain_topic topic" and m: "known_at s topic i = Some m" by (auto split: if_splits)
  have "\<exists>m'. known_at (redis_queue_step q op s) topic i = Some m' \<and> same_message m m'"
  proof (cases op)
    case (EnqueueOp e)
    have "known_at (redis_queue_step q op s) topic i = known_at s topic i"
      using Enqueue_effect(2) [OF fine _ t, of e i] p l by (simp add: EnqueueOp plain_op_def leaves_def)
    with m show ?thesis by (auto simp: same_message_def)
  next
    case (ClaimOp t' now limit)
    with claim_keeps [OF fine, of t' now limit] p m t show ?thesis by (simp add: plain_op_def keeps_known_def)
  next
    case (AckOp t' j)
    have "known_at (redis_queue_step q op s) topic i = known_at s topic i"
      using acked_other(2) [OF fine _ Ack_effect t, of t' i j] p l by (auto simp: AckOp plain_op_def leaves_def)
    with m show ?thesis by (auto simp: same_message_def)
  qed
  with t show "\<exists>m'. (if plain_topic topic then known_at (redis_queue_step q op s) topic i else None) = Some m' \<and> same_message m m'" by simp
qed

context redis_queue
begin

lemmas never_lost_here = redis.never_lost

end

section \<open>A server that satisfies the laws\<close>

record zspace =
  zp_sets :: "string \<Rightarrow> (string \<times> int) list"
  zp_hash :: "string \<Rightarrow> string \<rightharpoonup> string"

definition zspace_redis :: "zspace queue_redis" where
  "zspace_redis = \<lparr>
     zADD = (\<lambda>k score m s. s\<lparr>zp_sets := (zp_sets s)(k := AList.update m score (zp_sets s k))\<rparr>),
     zREM = (\<lambda>k m s. (map_of (zp_sets s k) m \<noteq> None, s\<lparr>zp_sets := (zp_sets s)(k := AList.delete m (zp_sets s k))\<rparr>)),
     zRANGEBYSCORE = (\<lambda>k bound limit s. take limit (map fst (sort_key (\<lambda>(m, score). (score, m))
       (filter (\<lambda>(m, score). score \<le> bound) (AList.clearjunk (zp_sets s k)))))),
     hSET = (\<lambda>k f v s. s\<lparr>zp_hash := (zp_hash s)(k := (zp_hash s k)(f \<mapsto> v))\<rparr>),
     hDEL = (\<lambda>k f s. s\<lparr>zp_hash := (zp_hash s)(k := (zp_hash s k)(f := None))\<rparr>),
     hMGET = (\<lambda>k fs s. map (zp_hash s k) fs)\<rparr>"

lemma zrange_sorted:
  fixes s :: zspace and k :: string and bound :: int
  defines "L \<equiv> sort_key (\<lambda>(m, score). (score, m)) (filter (\<lambda>(m, score). score \<le> bound) (AList.clearjunk (zp_sets s k)))"
  shows "m \<in> set (map fst L) \<longleftrightarrow> (\<exists>score. map_of (zp_sets s k) m = Some score \<and> score \<le> bound)" and "distinct (map fst L)"
proof -
  have d: "distinct (map fst (AList.clearjunk (zp_sets s k)))" by (rule distinct_clearjunk)
  then have "distinct (map fst (filter (\<lambda>(m, score). score \<le> bound) (AList.clearjunk (zp_sets s k))))" by (rule distinct_map_filter)
  then show "distinct (map fst L)" unfolding L_def by (simp add: distinct_map)
  have "m \<in> set (map fst L) \<longleftrightarrow> (\<exists>score. (m, score) \<in> set (AList.clearjunk (zp_sets s k)) \<and> score \<le> bound)"
    unfolding L_def by force
  also have "\<dots> \<longleftrightarrow> (\<exists>score. map_of (zp_sets s k) m = Some score \<and> score \<le> bound)"
    using map_of_eq_Some_iff [OF d] by (simp add: map_of_clearjunk)
  finally show "m \<in> set (map fst L) \<longleftrightarrow> (\<exists>score. map_of (zp_sets s k) m = Some score \<and> score \<le> bound)" .
qed

interpretation zspace: queue_server zspace_redis "\<lambda>s k. map_of (zp_sets s k)" zp_hash
proof
  fix s :: zspace and k m :: string and bound score :: int and limit :: nat
  let ?L = "map fst (sort_key (\<lambda>(m, score). (score, m)) (filter (\<lambda>(m, score). score \<le> bound) (AList.clearjunk (zp_sets s k))))"
  have r: "zRANGEBYSCORE zspace_redis k bound limit s = take limit ?L" by (simp add: zspace_redis_def)
  note L = zrange_sorted [where s = s and k = k and bound = bound]
  show "m \<in> set (zRANGEBYSCORE zspace_redis k bound limit s) \<Longrightarrow> \<exists>score. map_of (zp_sets s k) m = Some score \<and> score \<le> bound"
    unfolding r using L(1) by (blast dest: in_set_takeD)
  show "distinct (zRANGEBYSCORE zspace_redis k bound limit s)" unfolding r using L(2) by (rule distinct_take)
  show "length (zRANGEBYSCORE zspace_redis k bound limit s) \<le> limit" unfolding r by simp
  show "length (zRANGEBYSCORE zspace_redis k bound limit s) < limit \<Longrightarrow> map_of (zp_sets s k) m = Some score \<Longrightarrow> score \<le> bound
    \<Longrightarrow> m \<in> set (zRANGEBYSCORE zspace_redis k bound limit s)" unfolding r using L(1) by (auto simp: min_def split: if_splits)
qed (auto simp: zspace_redis_def update_conv' delete_conv' fun_eq_iff)

text \<open>A text form of messages: the number of the message in an enumeration.\<close>

instance json :: countable
  by countable_datatype

definition number_text :: "Message \<Rightarrow> string" where
  "number_text m = show_int (int (to_nat (msg_ID m, msg_Topic m, msg_Payload m, msg_AvailableAt m, msg_Attempts m)))"

definition text_number :: "string \<Rightarrow> Message option" where
  "text_number t = (case from_nat (nat (read_int t)) of (i, topic, payload, availableAt, attempts) \<Rightarrow>
     Some \<lparr>msg_ID = i, msg_Topic = topic, msg_Payload = payload, msg_AvailableAt = availableAt, msg_Attempts = attempts\<rparr>)"

lemma text_number: "text_number (number_text m) = Some m"
  by (simp add: text_number_def number_text_def read_show_int)

definition zspace_queue :: "zspace RedisQueue" where
  "zspace_queue = \<lparr>rq_redis = zspace_redis, rq_client = \<lparr>qc_Run = (\<lambda>script s. (Inr (fst (script s)), snd (script s))),
       qc_HMGet = (\<lambda>k fs s. (Inr (hMGET zspace_redis k fs s), s)), qc_HSet = (\<lambda>k f v s. (Inr (), hSET zspace_redis k f v s))\<rparr>,
     rq_prefix = ''tickethub:delayqueue'', rq_visibilityTimeout = defaultVisibilityTimeout, rq_marshal = number_text, rq_unmarshal = text_number,
     rq_decoded_id = (\<lambda>_. None)\<rparr>"

interpretation zspace_queue: redis_queue zspace_queue "\<lambda>s k. map_of (zp_sets s k)" zp_hash
proof (unfold redis_queue_def redis_queue_axioms_def, intro conjI)
  show "queue_server (rq_redis zspace_queue) (\<lambda>s k. map_of (zp_sets s k)) zp_hash"
    using zspace.queue_server_axioms by (simp add: zspace_queue_def)
  show "client_ok (rq_redis zspace_queue) (rq_client zspace_queue)" "message_text_ok zspace_queue"
    by (simp_all add: client_ok_def message_text_ok_def zspace_queue_def text_number)
qed

section \<open>Delivery\<close>

text \<open>
  C26. A message that the Redis queue has accepted is not lost: whatever is enqueued, claimed and acknowledged next, in any order, at any times and
  with any call of the client library failing before or after its effect, it stays in the queue (waiting or claimed), with the same
  payload and due time, until it is acknowledged or enqueued anew itself; only its number of attempts grows.
\<close>

theorem redis_message_not_lost:
  assumes queue: "redis_queue q zs hs" and ok: "redis_queue_ok zs hs q s" and accepted: "RedisQueue_Enqueue q m s = (Inr (), t)"
    and topic: "plain_topic (msg_Topic m)" and ops: "list_all plain_op ops" "list_all (leaves (msg_Topic m) (msg_ID m)) ops"
  shows "\<exists>m'. redis_known zs hs q (fold (redis_queue_step q) ops t) (msg_Topic m) (msg_ID m) = Some m' \<and> same_message m m'"
proof -
  have "redis_queue_ok zs hs q t" using redis_queue.Enqueue_effect(1) [OF queue ok topic] accepted by simp
  from redis_queue.never_lost_here [OF queue this ops(1), where topic = "msg_Topic m" and i = "msg_ID m" and m = m] ops(2) topic
    redis_queue.Enqueue_known [OF queue accepted topic]
  show ?thesis by simp
qed

definition sample_check :: Message where
  "sample_check = \<lparr>msg_ID = ''42'', msg_Topic = ''cancel'', msg_Payload = JNull, msg_AvailableAt = 5000000, msg_Attempts = 0\<rparr>"

abbreviation zspace_empty :: zspace where
  "zspace_empty \<equiv> \<lparr>zp_sets = (\<lambda>_. []), zp_hash = (\<lambda>_. Map.empty)\<rparr>"

definition sample_zspace :: zspace where
  "sample_zspace = snd (RedisQueue_Enqueue zspace_queue sample_check zspace_empty)"

lemma zspace_empty_ok: "redis_queue_ok (\<lambda>s k. map_of (zp_sets s k)) zp_hash zspace_queue zspace_empty"
  by (simp add: redis_queue_ok_def)

lemma sample_accepted: "RedisQueue_Enqueue zspace_queue sample_check zspace_empty = (Inr (), sample_zspace)"
  by (simp add: sample_zspace_def RedisQueue_Enqueue_def sample_check_def Let_def bindG_def returnG_def zspace_queue_def)

theorem redis_message_not_lost_witness:
  "\<exists>m'. redis_known (\<lambda>s k. map_of (zp_sets s k)) zp_hash zspace_queue
    (fold (redis_queue_step zspace_queue) [ClaimOp ''cancel'' 6000000 10, AckOp ''cancel'' ''41''] sample_zspace) ''cancel'' ''42'' = Some m' \<and> same_message sample_check m'"
  using redis_message_not_lost [OF zspace_queue.redis_queue_axioms zspace_empty_ok sample_accepted, of "[ClaimOp ''cancel'' 6000000 10, AckOp ''cancel'' ''41'']"]
  by (simp add: sample_check_def plain_op_def leaves_def)

text \<open>
  C27. A message that is due is delivered: a claim at a time at which a message of the queue is due, or at which its claim has run out, returns it with its
  number of attempts increased, when no call fails and the limit is above the number of messages of the topic.
\<close>

theorem redis_due_message_delivered:
  assumes queue: "redis_queue q zs hs"
    and direct: "rq_client q = \<lparr>qc_Run = (\<lambda>script s. (Inr (fst (script s)), snd (script s))), qc_HMGet = (\<lambda>k fs s. (Inr (hMGET (rq_redis q) k fs s), s)),
      qc_HSet = (\<lambda>k f v s. (Inr (), hSET (rq_redis q) k f v s))\<rparr>"
    and ok: "redis_queue_ok zs hs q s" and topic: "plain_topic topic" and known: "redis_known zs hs q s topic i = Some m"
    and size: "finite (dom (zs s (qk_ready (queue_keys q topic))) \<union> dom (zs s (qk_processing (queue_keys q topic))))"
      "int (card (dom (zs s (qk_ready (queue_keys q topic))) \<union> dom (zs s (qk_processing (queue_keys q topic))))) < limit"
    and due: "zs s (qk_ready (queue_keys q topic)) i = Some score \<or> zs s (qk_processing (queue_keys q topic)) i = Some score" "score \<le> UnixMilli now"
  shows "\<exists>ms t. RedisQueue_ClaimDue q topic now limit s = (Inr ms, t) \<and> m\<lparr>msg_Attempts := msg_Attempts m + 1\<rparr> \<in> set ms"
  by (rule redis_queue.delivers [OF queue direct ok topic known size due])

theorem redis_due_message_delivered_witness:
  "\<exists>ms t. RedisQueue_ClaimDue zspace_queue ''cancel'' 6000000 10 sample_zspace = (Inr ms, t) \<and> sample_check\<lparr>msg_Attempts := 1\<rparr> \<in> set ms"
proof -
  let ?z = "\<lambda>s k. map_of (zp_sets s k)"
  have ok: "redis_queue_ok ?z zp_hash zspace_queue sample_zspace"
    using zspace_queue.Enqueue_effect(1) [OF zspace_empty_ok, of sample_check] by (simp add: sample_accepted) (simp add: sample_check_def)
  have known: "redis_known ?z zp_hash zspace_queue sample_zspace ''cancel'' ''42'' = Some sample_check"
    using zspace_queue.Enqueue_known [OF sample_accepted] by (simp add: sample_check_def)
  have sets: "zp_sets sample_zspace = (\<lambda>k. if k = qk_ready (queue_keys zspace_queue ''cancel'') then [(''42'', 5)] else [])"
    by (simp add: sample_zspace_def RedisQueue_Enqueue_def sample_check_def Let_def bindG_def returnG_def zspace_queue_def enqueueScript_def
        zspace_redis_def queue_keys_def UnixMilli_def fun_eq_iff)
  have "qk_processing (queue_keys zspace_queue ''cancel'') \<noteq> qk_ready (queue_keys zspace_queue ''cancel'')" by (simp add: queue_keys_def Let_def)
  then have d: "dom (?z sample_zspace (qk_ready (queue_keys zspace_queue ''cancel''))) \<union> dom (?z sample_zspace (qk_processing (queue_keys zspace_queue ''cancel''))) = {''42''}"
    by (auto simp: sets)
  have "\<exists>ms t. RedisQueue_ClaimDue zspace_queue ''cancel'' 6000000 10 sample_zspace = (Inr ms, t) \<and> sample_check\<lparr>msg_Attempts := msg_Attempts sample_check + 1\<rparr> \<in> set ms"
    by (rule redis_due_message_delivered [OF zspace_queue.redis_queue_axioms _ ok _ known, where score = 5])
      (unfold d, simp_all add: zspace_queue_def UnixMilli_def sets)
  then show ?thesis by (simp add: sample_check_def)
qed

end
