(* ===== verification/Program_Tables.thy ===== *)
theory Program_Tables
  imports Program_Repository Order_Tables
begin

text \<open>
  The MySQL repositories of the program service: the catalog
  (\<open>src/app/program-service/internal/infrastructure/mysql/program_repository.go\<close>) and the outbox of events
  (\<open>outbox_repository.go\<close>). A change of a program and its event are stored in one transaction.

  Tables are lists of rows. Every statement takes the next fault of the database, as in \<open>Order_Tables\<close>; a transaction
  that does not end with a commit leaves the tables as they were. \<open>pt_now\<close> is the clock of the database, with the
  precision of its columns; \<open>dt\<close> rounds the times of the program to that precision. Texts are compared with the
  collation of the database, which is a parameter; the lengths of the columns are not modelled.
\<close>

section \<open>Tables and statements\<close>

record outbox_row =
  ob_event_id :: string
  ob_topic :: string
  ob_event_key :: string
  ob_trace_id :: "string option"
  ob_schema_version :: string
  ob_occurred_at :: time
  ob_payload :: json
  ob_status :: string
  ob_attempts :: int
  ob_available_at :: time
  ob_lease_until :: "time option"
  ob_last_error :: "string option"
  ob_created_at :: time
  ob_published_at :: "time option"

record program_db =
  pt_programs :: "(int64 \<times> Program) list"
  pt_categories :: "TicketCategory list"
  pt_seats :: "Seat list"
  pt_outbox :: "outbox_row list"
  pt_faults :: "db_fault list"
  pt_error :: error
  pt_now :: time

definition faulty :: "db_fault \<Rightarrow> error \<Rightarrow> ('s \<Rightarrow> 'a \<times> 's) \<Rightarrow> ('s, 'a) go" where
  "faulty fault e stmt s =
     (if fault = Refused then (Inl e, s)
      else case stmt s of (a, s') \<Rightarrow> (if fault = ReplyLost then Inl e else Inr a, s'))"

definition next_fault :: "db_fault list \<Rightarrow> db_fault" where
  "next_fault faults = (case faults of [] \<Rightarrow> Works | f # _ \<Rightarrow> f)"

definition pt_run :: "('z program_db_scheme \<Rightarrow> 'a \<times> 'z program_db_scheme) \<Rightarrow> ('z program_db_scheme, 'a) go" where
  "pt_run stmt s = faulty (next_fault (pt_faults s)) (pt_error s) stmt (s\<lparr>pt_faults := tl (pt_faults s)\<rparr>)"

definition wrap_error :: "string \<Rightarrow> ('w, 'a) go \<Rightarrow> ('w, 'a) go" where
  "wrap_error message m = attemptG m (\<lambda>r. case r of Inl e \<Rightarrow> failG (Wrap CodeInfrastructure message e) | Inr x \<Rightarrow> returnG x)"

text \<open>\<open>BeginTx\<close>, the statements and \<open>Commit\<close>; the deferred \<open>Rollback\<close> undoes what was not committed.\<close>

definition pt_undo :: "'z program_db_scheme \<Rightarrow> 'z program_db_scheme \<Rightarrow> 'z program_db_scheme" where
  "pt_undo s0 s = s0\<lparr>pt_faults := pt_faults s\<rparr>"

definition pt_tx :: "string \<Rightarrow> string \<Rightarrow> ('z program_db_scheme, 'a) go \<Rightarrow> ('z program_db_scheme, 'a) go" where
  "pt_tx beginFailed commitFailed body =
     bindG (wrap_error beginFailed (pt_run (\<lambda>s. ((), s)))) (\<lambda>_ s0. case body s0 of
       (Inl e, s1) \<Rightarrow> (Inl e, pt_undo s0 s1)
     | (Inr a, s1) \<Rightarrow> bindG (wrap_error commitFailed (pt_run (\<lambda>s. ((), pt_undo s1 s)))) (\<lambda>_. returnG a) (pt_undo s0 s1))"

section \<open>The outbox\<close>

definition nullText :: "string \<Rightarrow> string option" where
  "nullText value = (if value = [] then None else Some value)"

definition outbox_values :: "(time \<Rightarrow> time) \<Rightarrow> time \<Rightarrow> Event \<Rightarrow> outbox_row" where
  "outbox_values dt now event =
     \<lparr>ob_event_id = hdr_EventID (ev_Header event), ob_topic = ev_Topic event, ob_event_key = ev_Key event,
      ob_trace_id = nullText (hdr_TraceID (ev_Header event)), ob_schema_version = hdr_SchemaVersion (ev_Header event),
      ob_occurred_at = dt (hdr_OccurredAt (ev_Header event)), ob_payload = ev_Payload event, ob_status = ''PENDING'', ob_attempts = 0,
      ob_available_at = now, ob_lease_until = None, ob_last_error = None, ob_created_at = now, ob_published_at = None\<rparr>"

text \<open>\<open>INSERT ... ON DUPLICATE KEY UPDATE event_id = VALUES(event_id)\<close>: an event that is there stays as it is.\<close>

definition insert_outbox :: "(time \<Rightarrow> time) \<Rightarrow> Event \<Rightarrow> 'z program_db_scheme \<Rightarrow> unit \<times> 'z program_db_scheme" where
  "insert_outbox dt event s = ((),
     if list_ex (\<lambda>row. ob_event_id row = hdr_EventID (ev_Header event)) (pt_outbox s) then s
     else s\<lparr>pt_outbox := pt_outbox s @ [outbox_values dt (pt_now s) event]\<rparr>)"

definition Outbox_Save :: "(time \<Rightarrow> time) \<Rightarrow> Event \<Rightarrow> ('z program_db_scheme, unit) go" where
  "Outbox_Save dt event = wrap_error ''save program outbox event failed'' (pt_run (insert_outbox dt event))"

definition outbox_event :: "outbox_row \<Rightarrow> Event" where
  "outbox_event row =
     \<lparr>ev_Topic = ob_topic row, ev_Key = ob_event_key row,
      ev_Header = \<lparr>hdr_EventID = ob_event_id row, hdr_TraceID = (case ob_trace_id row of None \<Rightarrow> [] | Some x \<Rightarrow> x),
        hdr_SchemaVersion = ob_schema_version row, hdr_OccurredAt = ob_occurred_at row\<rparr>,
      ev_Payload = ob_payload row\<rparr>"

definition outbox_claimable :: "time \<Rightarrow> outbox_row \<Rightarrow> bool" where
  "outbox_claimable now row \<longleftrightarrow> ob_available_at row \<le> now
     \<and> (ob_status row = ''PENDING'' \<or> ob_status row = ''PROCESSING'' \<and> (case ob_lease_until row of None \<Rightarrow> False | Some l \<Rightarrow> l < now))"

definition lease_row :: "time \<Rightarrow> outbox_row \<Rightarrow> outbox_row" where
  "lease_row leaseUntil row = row\<lparr>ob_status := ''PROCESSING'', ob_lease_until := Some leaseUntil, ob_attempts := ob_attempts row + 1\<rparr>"

definition update_outbox :: "(outbox_row \<Rightarrow> bool) \<Rightarrow> (outbox_row \<Rightarrow> outbox_row) \<Rightarrow> 'z program_db_scheme \<Rightarrow> unit \<times> 'z program_db_scheme" where
  "update_outbox p f s = ((), s\<lparr>pt_outbox := map (\<lambda>row. if p row then f row else row) (pt_outbox s)\<rparr>)"

fun lease_events :: "time \<Rightarrow> Event list \<Rightarrow> ('z program_db_scheme, unit) go" where
  "lease_events leaseUntil [] = returnG ()"
| "lease_events leaseUntil (event # events) =
     bindG (wrap_error ''lease program outbox event failed''
       (pt_run (update_outbox (\<lambda>row. ob_event_id row = hdr_EventID (ev_Header event)) (lease_row leaseUntil))))
       (\<lambda>_. lease_events leaseUntil events)"

definition claim_limit :: "int \<Rightarrow> nat" where
  "claim_limit limit = nat (if limit \<le> 0 \<or> limit > 500 then 100 else limit)"

text \<open>\<open>wall\<close> is \<open>time.Now()\<close> of the process.\<close>

definition Outbox_Claim :: "(time \<Rightarrow> time) \<Rightarrow> time \<Rightarrow> int \<Rightarrow> duration \<Rightarrow> ('z program_db_scheme, Event list) go" where
  "Outbox_Claim dt wall limit lease =
     pt_tx ''begin program outbox claim failed'' ''commit program outbox claim failed''
       (bindG (wrap_error ''claim program outbox events failed''
          (pt_run (\<lambda>s. (map outbox_event (take (claim_limit limit) (filter (outbox_claimable (pt_now s)) (pt_outbox s))), s)))) (\<lambda>events.
        bindG (lease_events (dt (wall + lease)) events) (\<lambda>_. returnG events)))"

definition outbox_processing :: "string \<Rightarrow> outbox_row \<Rightarrow> bool" where
  "outbox_processing eventID row \<longleftrightarrow> ob_event_id row = eventID \<and> ob_status row = ''PROCESSING''"

definition Outbox_MarkPublished :: "(time \<Rightarrow> time) \<Rightarrow> string \<Rightarrow> time \<Rightarrow> ('z program_db_scheme, unit) go" where
  "Outbox_MarkPublished dt eventID publishedAt =
     wrap_error ''mark program outbox event published failed'' (pt_run (update_outbox (outbox_processing eventID) (\<lambda>row.
       row\<lparr>ob_status := ''PUBLISHED'', ob_published_at := Some (dt publishedAt), ob_lease_until := None, ob_last_error := None\<rparr>)))"

definition Outbox_MarkRetry :: "(time \<Rightarrow> time) \<Rightarrow> string \<Rightarrow> time \<Rightarrow> string \<Rightarrow> ('z program_db_scheme, unit) go" where
  "Outbox_MarkRetry dt eventID availableAt detail =
     wrap_error ''reschedule program outbox event failed'' (pt_run (update_outbox (outbox_processing eventID) (\<lambda>row.
       row\<lparr>ob_status := ''PENDING'', ob_available_at := dt availableAt, ob_lease_until := None, ob_last_error := Some detail\<rparr>)))"

section \<open>The catalog\<close>

definition upsert_program :: "(time \<Rightarrow> time) \<Rightarrow> Program \<Rightarrow> 'z program_db_scheme \<Rightarrow> unit \<times> 'z program_db_scheme" where
  "upsert_program dt item s = ((), s\<lparr>pt_programs := AList.update (prg_ID item) (item\<lparr>prg_ShowTime := dt (prg_ShowTime item)\<rparr>) (pt_programs s)\<rparr>)"

definition upsert_category :: "int64 \<Rightarrow> TicketCategory \<Rightarrow> 'z program_db_scheme \<Rightarrow> unit \<times> 'z program_db_scheme" where
  "upsert_category programID category s =
     (let row = category\<lparr>tc_ProgramID := programID\<rparr> in
      ((), s\<lparr>pt_categories := (if list_ex (\<lambda>c. tc_ID c = tc_ID category) (pt_categories s)
          then map (\<lambda>c. if tc_ID c = tc_ID category then row else c) (pt_categories s) else pt_categories s @ [row])\<rparr>))"

fun save_categories :: "int64 \<Rightarrow> TicketCategory list \<Rightarrow> ('z program_db_scheme, unit) go" where
  "save_categories programID [] = returnG ()"
| "save_categories programID (category # categories) =
     bindG (wrap_error ''save program ticket category failed'' (pt_run (upsert_category programID category))) (\<lambda>_. save_categories programID categories)"

definition DB_SaveProgramWithEvent :: "(time \<Rightarrow> time) \<Rightarrow> Program \<Rightarrow> TicketCategory list \<Rightarrow> Event \<Rightarrow> ('z program_db_scheme, unit) go" where
  "DB_SaveProgramWithEvent dt item categories event =
     pt_tx ''begin program change failed'' ''commit program change failed''
       (bindG (wrap_error ''save program failed'' (pt_run (upsert_program dt item))) (\<lambda>_.
        bindG (save_categories (prg_ID item) categories) (\<lambda>_.
        wrap_error ''save program change outbox event failed'' (pt_run (insert_outbox dt event)))))"

definition DB_FindProgram :: "int64 \<Rightarrow> ('z program_db_scheme, Program) go" where
  "DB_FindProgram programID =
     bindG (wrap_error ''query program failed'' (pt_run (\<lambda>s. (map_of (pt_programs s) programID, s)))) (\<lambda>row.
       case row of None \<Rightarrow> failG (New CodeNotFound ''program not found'') | Some item \<Rightarrow> returnG item)"

definition DB_FindProgramsByIDs :: "int64 list \<Rightarrow> ('z program_db_scheme, Program list) go" where
  "DB_FindProgramsByIDs programIDs =
     (if programIDs = [] then returnG []
      else wrap_error ''batch query programs failed'' (pt_run (\<lambda>s. (List.map_filter (map_of (pt_programs s)) programIDs, s))))"

definition DB_MinPricesByProgramIDs :: "int64 list \<Rightarrow> ('z program_db_scheme, int64 \<Rightarrow> int64) go" where
  "DB_MinPricesByProgramIDs programIDs =
     (if programIDs = [] then returnG (\<lambda>_. 0)
      else wrap_error ''batch query minimum ticket prices failed'' (pt_run (\<lambda>s. (\<lambda>i.
        (case map tc_PriceCent (filter (\<lambda>c. tc_ProgramID c = i \<and> i \<in> set programIDs \<and> tc_SellStarted c) (pt_categories s)) of
           [] \<Rightarrow> 0 | p # ps \<Rightarrow> fold min ps p), s))))"

text \<open>\<open>LIKE\<close> with its wildcards \<open>%\<close> and \<open>_\<close>, and a backslash that makes the next character plain.\<close>

fun sql_like :: "(char \<Rightarrow> char \<Rightarrow> bool) \<Rightarrow> string \<Rightarrow> string \<Rightarrow> bool" where
  "sql_like eq [] s \<longleftrightarrow> s = []"
| "sql_like eq (c # pat) s \<longleftrightarrow>
     (if c = CHR ''%'' then list_ex (\<lambda>i. sql_like eq pat (drop i s)) [0..<Suc (length s)]
      else if c = CHR ''_'' then s \<noteq> [] \<and> sql_like eq pat (tl s)
      else if c = CHR 0x5C \<and> pat \<noteq> [] then s \<noteq> [] \<and> eq (hd pat) (hd s) \<and> sql_like eq (tl pat) (tl s)
      else s \<noteq> [] \<and> eq c (hd s) \<and> sql_like eq pat (tl s))"

definition DB_SearchPrograms :: "(char \<Rightarrow> char \<Rightarrow> bool) \<Rightarrow> string \<Rightarrow> string \<Rightarrow> int \<Rightarrow> int \<Rightarrow> ('z program_db_scheme, Program list) go" where
  "DB_SearchPrograms eq keyword city page pageSize =
     (let page = (if page \<le> 0 then 1 else page); pageSize = (if pageSize \<le> 0 then 20 else pageSize);
          offset = wrap64 ((page - 1) * pageSize)
      in wrap_error ''search programs failed'' (bindG (pt_run (\<lambda>s.
           (sort_key prg_ShowTime (filter (\<lambda>item.
              (trim_space keyword \<noteq> [] \<longrightarrow> sql_like eq (''%'' @ trim_space keyword @ ''%'') (prg_Title item))
              \<and> (trim_space city \<noteq> [] \<longrightarrow> list_all2 eq (prg_City item) (trim_space city))) (map snd (pt_programs s))), s)))
         (\<lambda>found s. if offset < 0 then (Inl (pt_error s), s) else (Inr (take (nat pageSize) (drop (nat offset) found)), s))))"

definition list_limit :: "int \<Rightarrow> nat" where
  "list_limit limit = nat (if limit \<le> 0 \<or> limit > 2000 then 500 else limit)"

definition DB_ListProgramsAfterID :: "int64 \<Rightarrow> int \<Rightarrow> ('z program_db_scheme, Program list) go" where
  "DB_ListProgramsAfterID afterID limit = wrap_error ''list programs for search index failed'' (pt_run (\<lambda>s.
     (take (list_limit limit) (sort_key prg_ID (filter (\<lambda>item. prg_ID item > afterID) (map snd (pt_programs s)))), s)))"

definition DB_ListTicketCategories :: "int64 \<Rightarrow> ('z program_db_scheme, TicketCategory list) go" where
  "DB_ListTicketCategories programID = wrap_error ''query ticket categories failed'' (pt_run (\<lambda>s.
     (sort_key tc_PriceCent (filter (\<lambda>c. tc_ProgramID c = programID) (pt_categories s)), s)))"

definition DB_ListTicketCategoriesAfterID :: "int64 \<Rightarrow> int \<Rightarrow> ('z program_db_scheme, TicketCategory list) go" where
  "DB_ListTicketCategoriesAfterID afterID limit = wrap_error ''list ticket categories for inventory bootstrap failed'' (pt_run (\<lambda>s.
     (take (list_limit limit) (sort_key tc_ID (filter (\<lambda>c. tc_ID c > afterID) (pt_categories s))), s)))"

text \<open>
  The server reports as affected the rows that an \<open>UPDATE\<close> has changed: a row that has the new value already is not counted.
\<close>

definition DB_UpdateTicketCategoryRemain :: "int64 \<Rightarrow> int64 \<Rightarrow> ('z program_db_scheme, unit) go" where
  "DB_UpdateTicketCategoryRemain ticketCategoryID remain =
     bindG (wrap_error ''update ticket category remain failed'' (pt_run (\<lambda>s.
       (length (filter (\<lambda>c. tc_ID c = ticketCategoryID \<and> tc_Remain c \<noteq> remain) (pt_categories s)),
        s\<lparr>pt_categories := map (\<lambda>c. if tc_ID c = ticketCategoryID then c\<lparr>tc_Remain := remain\<rparr> else c) (pt_categories s)\<rparr>)))) (\<lambda>affected.
       if affected = 0 then failG (New CodeNotFound ''ticket category not found'') else returnG ())"

text \<open>\<open>rank\<close> is the place of a text in the order of the collation.\<close>

definition DB_ListSeats :: "(string \<Rightarrow> int) \<Rightarrow> int64 \<Rightarrow> int64 \<Rightarrow> ('z program_db_scheme, Seat list) go" where
  "DB_ListSeats rank programID ticketCategoryID = wrap_error ''query seats failed'' (pt_run (\<lambda>s.
     (sort_key (\<lambda>x. (rank (seat_RowCode x), rank (seat_ColCode x)))
        (filter (\<lambda>x. seat_ProgramID x = programID \<and> seat_TicketCategoryID x = ticketCategoryID) (pt_seats s)), s)))"

section \<open>Statements and transactions\<close>

text \<open>The tables, whatever faults are to come. A plain statement does not look at the faults.\<close>

definition tables :: "'z program_db_scheme \<Rightarrow> 'z program_db_scheme" where
  "tables s = s\<lparr>pt_faults := []\<rparr>"

definition plain :: "('z program_db_scheme \<Rightarrow> 'a \<times> 'z program_db_scheme) \<Rightarrow> bool" where
  "plain stmt \<longleftrightarrow> (\<forall>s fs. stmt (s\<lparr>pt_faults := fs\<rparr>) = (fst (stmt s), (snd (stmt s))\<lparr>pt_faults := fs\<rparr>))"

lemma tables_simps [simp]:
  "tables (s\<lparr>pt_faults := fs\<rparr>) = tables s" "tables (tables s) = tables s" "tables (pt_undo s0 s) = tables s0"
  "pt_outbox (tables s) = pt_outbox s" "pt_programs (tables s) = pt_programs s" "pt_categories (tables s) = pt_categories s" "pt_now (tables s) = pt_now s"
  "pt_seats (tables s) = pt_seats s" "program_db.more (tables s) = program_db.more s"
  by (simp_all add: tables_def pt_undo_def)

lemma plain_rules [intro!]:
  "plain (\<lambda>s. ((), s))" "plain (insert_outbox dt event)" "plain (update_outbox p f)" "plain (upsert_program dt item)" "plain (upsert_category i c)"
  by (auto simp: plain_def insert_outbox_def update_outbox_def upsert_program_def upsert_category_def Let_def)

lemma plain_tables: "plain stmt \<Longrightarrow> fst (stmt (tables s)) = fst (stmt s) \<and> tables (snd (stmt (tables s))) = tables (snd (stmt s))"
  by (simp add: plain_def tables_def)

lemma run_ok: "pt_run stmt s = (Inr a, s') \<Longrightarrow> plain stmt \<Longrightarrow> fst (stmt (tables s)) = a \<and> tables s' = tables (snd (stmt (tables s)))"
  using plain_tables [of stmt "s\<lparr>pt_faults := tl (pt_faults s)\<rparr>"] by (auto simp: pt_run_def faulty_def split: prod.splits if_splits)

lemma run_any: "pt_run stmt s = (r, s') \<Longrightarrow> plain stmt \<Longrightarrow> tables s' = tables s \<or> tables s' = tables (snd (stmt (tables s)))"
  using plain_tables [of stmt "s\<lparr>pt_faults := tl (pt_faults s)\<rparr>"] by (auto simp: pt_run_def faulty_def split: prod.splits if_splits)

lemma wrap_ok: "wrap_error m p s = (Inr a, s') \<longleftrightarrow> p s = (Inr a, s')"
  by (auto simp: wrap_error_def attemptG_def go_simps split: prod.splits sum.splits)

lemma wrap_state: "snd (wrap_error m p s) = snd (p s)"
  by (auto simp: wrap_error_def attemptG_def go_simps split: prod.splits sum.splits)

lemma tx_run:
  assumes "pt_tx b c body s = (r, s')"
  obtains (undone) e where "r = Inl e" and "tables s' = tables s"
  | (committed) s0 a s1 where "tables s0 = tables s" and "body s0 = (Inr a, s1)" and "tables s' = tables s1" and "r = Inr a \<or> (\<exists>e. r = Inl e)"
proof -
  obtain r0 s0 where b: "pt_run (\<lambda>s. ((), s)) s = (r0, s0)" by (metis surj_pair)
  have s0: "tables s0 = tables s" using run_any [OF b plain_rules(1)] by simp
  show thesis
  proof (cases r0)
    case (Inl e)
    with b assms have "\<exists>e. r = Inl e" "s' = s0" by (auto simp: pt_tx_def bindG_def wrap_error_def attemptG_def go_simps)
    with s0 undone show thesis by blast
  next
    case (Inr u)
    obtain r1 s1 where body: "body s0 = (r1, s1)" by (metis surj_pair)
    show thesis
    proof (cases r1)
      case (Inl e)
      with b Inr assms body have "r = Inl e" "s' = pt_undo s0 s1" by (auto simp: pt_tx_def bindG_def wrap_error_def attemptG_def go_simps)
      with s0 undone show thesis by auto
    next
      case (Inr a)
      let ?commit = "pt_run (\<lambda>s. ((), pt_undo s1 s))"
      obtain r2 s2 where cm: "?commit (pt_undo s0 s1) = (r2, s2)" by (metis surj_pair)
      with b \<open>r0 = Inr u\<close> assms body Inr have r: "r = (case r2 of Inl e \<Rightarrow> Inl (Wrap CodeInfrastructure c e) | Inr _ \<Rightarrow> Inr a)" "s' = s2"
        by (auto simp: pt_tx_def bindG_def wrap_error_def attemptG_def go_simps split: sum.splits)
      have "tables s2 = tables s1 \<or> tables s2 = tables s0 \<and> (\<exists>e. r2 = Inl e)"
        using cm by (auto simp: pt_run_def faulty_def split: if_splits)
      then show thesis
      proof
        assume "tables s2 = tables s1"
        with s0 body Inr r committed [of s0 a s1] show thesis by (auto split: sum.splits)
      next
        assume "tables s2 = tables s0 \<and> (\<exists>e. r2 = Inl e)"
        with s0 r undone show thesis by auto
      qed
    qed
  qed
qed

text \<open>Relations between states of the database that do not look at the faults: what holds for executed statements holds for all.\<close>

locale table_order = state_preorder R for R :: "'z program_db_scheme \<Rightarrow> 'z program_db_scheme \<Rightarrow> bool" +
  assumes R_tables: "tables s = tables s0 \<Longrightarrow> tables t = tables t0 \<Longrightarrow> R s t \<longleftrightarrow> R s0 t0"
begin

lemma R_same: "tables t = tables s \<Longrightarrow> R s t"
  using R_tables [of s s t s] R_refl [of s] by simp

lemma run_keeps:
  assumes "plain stmt" and "R s (snd (stmt (tables s)))"
  shows "R s (snd (wrap_error m (pt_run stmt) s))"
proof -
  obtain r t where run: "pt_run stmt s = (r, t)" by (metis surj_pair)
  from run_any [OF this assms(1)] have "R s t"
    using R_same [of t s] R_tables [of s s t "snd (stmt (tables s))"] assms(2) by auto
  then show ?thesis by (simp add: wrap_state run)
qed

lemma query_keeps: "R s (snd (wrap_error m (pt_run (\<lambda>s. (f s, s))) s))"
  by (rule R_same) (simp add: wrap_state pt_run_def faulty_def)

lemma tx_keeps:
  assumes "\<And>s0 a s1. tables s0 = tables s \<Longrightarrow> body s0 = (Inr a, s1) \<Longrightarrow> R s0 s1"
  shows "R s (snd (pt_tx b c body s))"
proof -
  obtain r t where run: "pt_tx b c body s = (r, t)" by (metis surj_pair)
  then show ?thesis
  proof (cases rule: tx_run)
    case (undone e)
    with run show ?thesis by (simp add: R_same)
  next
    case (committed s0 a s1)
    with run assms [OF committed(1,2)] R_tables [of s s0 t s1] show ?thesis by simp
  qed
qed

end

end
