(* ===== verification/Outbox.thy ===== *)
theory Outbox
  imports Program_Tables
begin

text \<open>
  Publishing through the outbox: \<open>OutboxPublisher\<close> (\<open>src/app/program-service/internal/application/outbox.go\<close>) stores an event in the
  database, and \<open>OutboxRunner\<close> (\<open>interfaces/worker/outbox.go\<close>) claims stored events in batches, publishes them to the broker and marks
  them. A claim is a lease: when a runner stops half way its events are claimed again later.

  The broker may refuse an event, or accept it and lose the reply. The property is that no stored event is lost: it reaches the
  broker at least once.
\<close>

section \<open>The runner\<close>

record 'w OutboxRunner =
  or_Claim :: "int \<Rightarrow> duration \<Rightarrow> ('w, Event list) go"
  or_MarkPublished :: "string \<Rightarrow> time \<Rightarrow> ('w, unit) go"
  or_MarkRetry :: "string \<Rightarrow> time \<Rightarrow> string \<Rightarrow> ('w, unit) go"
  or_Publish :: "Event \<Rightarrow> ('w, unit) go"
  or_now :: "'w \<Rightarrow> time"
  or_lease :: duration
  or_retryDelay :: duration
  or_batchSize :: int

fun publish_events :: "'w OutboxRunner \<Rightarrow> Event list \<Rightarrow> 'w \<Rightarrow> 'w" where
  "publish_events R [] w = w"
| "publish_events R (event # events) w = (case or_Publish R event w of
     (Inl e, w1) \<Rightarrow> publish_events R events (snd (or_MarkRetry R (hdr_EventID (ev_Header event)) (or_now R w1 + or_retryDelay R) (error_text e) w1))
   | (Inr _, w1) \<Rightarrow> publish_events R events (snd (or_MarkPublished R (hdr_EventID (ev_Header event)) (or_now R w1) w1)))"

definition flush :: "'w OutboxRunner \<Rightarrow> 'w \<Rightarrow> 'w" where
  "flush R w = (case or_Claim R (or_batchSize R) (or_lease R) w of
     (Inl e, w1) \<Rightarrow> w1
   | (Inr events, w1) \<Rightarrow> publish_events R events w1)"

definition OutboxPublisher_Publish :: "(time \<Rightarrow> time) \<Rightarrow> Event \<Rightarrow> ('z program_db_scheme, unit) go" where
  "OutboxPublisher_Publish dt event = Outbox_Save dt event"

section \<open>The world\<close>

text \<open>The database, the broker with the events it has accepted and the faults of the calls to it, and the clock of the process.\<close>

record outbox_world = program_db +
  bw_accepted :: "Event list"
  bw_faults :: "db_fault list"
  bw_down :: error
  bw_wall :: time

definition broker_accept :: "Event \<Rightarrow> 'z outbox_world_scheme \<Rightarrow> unit \<times> 'z outbox_world_scheme" where
  "broker_accept event w = ((), w\<lparr>bw_accepted := bw_accepted w @ [event]\<rparr>)"

definition broker_Publish :: "Event \<Rightarrow> ('z outbox_world_scheme, unit) go" where
  "broker_Publish event w = faulty (next_fault (bw_faults w)) (bw_down w) (broker_accept event) (w\<lparr>bw_faults := tl (bw_faults w)\<rparr>)"

definition NewOutboxRunner :: "(time \<Rightarrow> time) \<Rightarrow> 'z outbox_world_scheme OutboxRunner" where
  "NewOutboxRunner dt = \<lparr>or_Claim = (\<lambda>limit lease w. Outbox_Claim dt (bw_wall w) limit lease w), or_MarkPublished = Outbox_MarkPublished dt,
     or_MarkRetry = Outbox_MarkRetry dt, or_Publish = broker_Publish, or_now = bw_wall,
     or_lease = 30 * 1000000000, or_retryDelay = 1000000000, or_batchSize = 100\<rparr>"

section \<open>No event is lost\<close>

definition row_ok :: "Event set \<Rightarrow> outbox_row \<Rightarrow> bool" where
  "row_ok accepted row \<longleftrightarrow> ob_status row \<in> {''PENDING'', ''PROCESSING'', ''PUBLISHED''}
     \<and> (ob_status row = ''PROCESSING'' \<longrightarrow> ob_lease_until row \<noteq> None)
     \<and> (ob_status row = ''PUBLISHED'' \<longrightarrow> outbox_event row \<in> accepted)"

definition outbox_ok :: "'z outbox_world_scheme \<Rightarrow> bool" where
  "outbox_ok w \<longleftrightarrow> distinct (map ob_event_id (pt_outbox w)) \<and> (\<forall>row \<in> set (pt_outbox w). row_ok (set (bw_accepted w)) row)"

definition outbox_keeps :: "'z outbox_world_scheme \<Rightarrow> 'z outbox_world_scheme \<Rightarrow> bool" where
  "outbox_keeps w w' \<longleftrightarrow> (outbox_ok w \<longrightarrow> outbox_ok w') \<and> set (bw_accepted w) \<subseteq> set (bw_accepted w')
     \<and> outbox_event ` set (pt_outbox w) \<subseteq> outbox_event ` set (pt_outbox w')"

lemma same_tables:
  assumes "tables w' = tables (w :: 'z outbox_world_scheme)"
  shows "pt_outbox w' = pt_outbox w" "bw_accepted w' = bw_accepted w" "pt_now w' = pt_now w" "bw_faults w' = bw_faults w" "bw_wall w' = bw_wall w"
  using arg_cong [OF assms, of pt_outbox] arg_cong [OF assms, of bw_accepted] arg_cong [OF assms, of pt_now] arg_cong [OF assms, of bw_faults]
    arg_cong [OF assms, of bw_wall]
  by (simp_all add: tables_def)

interpretation outbox_order: table_order outbox_keeps
proof
  show "outbox_keeps s s" for s :: "'z outbox_world_scheme" by (simp add: outbox_keeps_def)
  show "outbox_keeps s t \<Longrightarrow> outbox_keeps t u \<Longrightarrow> outbox_keeps s u" for s t u :: "'z outbox_world_scheme"
    unfolding outbox_keeps_def by (meson subset_trans)
  show "tables s = tables s0 \<Longrightarrow> tables t = tables t0 \<Longrightarrow> outbox_keeps s t \<longleftrightarrow> outbox_keeps s0 t0" for s s0 t t0 :: "'z outbox_world_scheme"
    using same_tables [of s s0] same_tables [of t t0] by (simp add: outbox_keeps_def outbox_ok_def)
qed

lemma update_keeps:
  assumes "\<And>row. outbox_event (f row) = outbox_event row"
    and "\<And>row. outbox_ok w \<Longrightarrow> row \<in> set (pt_outbox w) \<Longrightarrow> p row \<Longrightarrow> row_ok (set (bw_accepted w)) (f row)"
  shows "outbox_keeps w (snd (update_outbox p f (tables w)))"
proof -
  define rows where "rows = map (\<lambda>row. if p row then f row else row) (pt_outbox w)"
  have "ob_event_id (f row) = ob_event_id row" for row
    using arg_cong [OF assms(1), of "\<lambda>e. hdr_EventID (ev_Header e)" row] by (simp add: outbox_event_def)
  then have ids: "map ob_event_id rows = map ob_event_id (pt_outbox w)" by (simp add: rows_def)
  have events: "outbox_event ` set rows = outbox_event ` set (pt_outbox w)"
    using assms(1) unfolding rows_def set_map image_image by (intro image_cong) auto
  have "row_ok (set (bw_accepted w)) row" if "outbox_ok w" "row \<in> set rows" for row
    using assms(2) [OF that(1)] that by (auto simp: outbox_ok_def rows_def split: if_splits)
  moreover have "bw_accepted (snd (update_outbox p f (tables w))) = bw_accepted w" "pt_outbox (snd (update_outbox p f (tables w))) = rows"
    by (simp_all add: update_outbox_def tables_def rows_def)
  ultimately show ?thesis using ids events unfolding outbox_keeps_def outbox_ok_def by simp
qed

lemma insert_keeps: "outbox_keeps w (snd (insert_outbox dt event (tables w)))"
proof -
  have "bw_accepted (snd (insert_outbox dt event (tables w))) = bw_accepted w" by (simp add: insert_outbox_def tables_def)
  then show ?thesis by (auto simp: outbox_keeps_def outbox_ok_def row_ok_def insert_outbox_def outbox_values_def list_ex_iff)
qed

lemma Save_keeps: "outbox_keeps w (snd (Outbox_Save dt event w))"
  unfolding Outbox_Save_def by (rule outbox_order.run_keeps) (auto simp: insert_keeps)

lemma MarkRetry_keeps: "outbox_keeps w (snd (Outbox_MarkRetry dt i t detail w))"
  unfolding Outbox_MarkRetry_def by (intro outbox_order.run_keeps plain_rules update_keeps) (auto simp: outbox_event_def row_ok_def)

lemma MarkPublished_keeps:
  assumes "outbox_event row \<in> set (bw_accepted w)" and "row \<in> set (pt_outbox w)" and "ob_event_id row = i"
  shows "outbox_keeps w (snd (Outbox_MarkPublished dt i t w))"
  unfolding Outbox_MarkPublished_def
proof (intro outbox_order.run_keeps plain_rules update_keeps)
  fix row' assume "outbox_ok w" "row' \<in> set (pt_outbox w)" "outbox_processing i row'"
  with assms have "row' = row" by (auto simp: outbox_ok_def outbox_processing_def distinct_map inj_on_def)
  with assms(1) show "row_ok (set (bw_accepted w)) (row'\<lparr>ob_status := ''PUBLISHED'', ob_published_at := Some (dt t), ob_lease_until := None, ob_last_error := None\<rparr>)"
    by (simp add: row_ok_def outbox_event_def)
qed (simp add: outbox_event_def)

lemma broker_Publish_keeps: "outbox_keeps w (snd (broker_Publish event w))"
  by (auto simp: broker_Publish_def faulty_def broker_accept_def outbox_keeps_def outbox_ok_def row_ok_def)

lemma broker_Publish_tables: "pt_outbox (snd (broker_Publish event w)) = pt_outbox w"
  by (simp add: broker_Publish_def faulty_def broker_accept_def)

lemma broker_Publish_accepted: "broker_Publish event w = (Inr u, w') \<Longrightarrow> event \<in> set (bw_accepted w')"
  by (auto simp: broker_Publish_def faulty_def broker_accept_def split: if_splits)

lemma lease_keeps: "outbox_keeps w (snd (lease_events l events w))"
proof (induction events arbitrary: w)
  case (Cons event events)
  let ?m = "wrap_error ''lease program outbox event failed'' (pt_run (update_outbox (\<lambda>row. ob_event_id row = hdr_EventID (ev_Header event)) (lease_row l)))"
  have "outbox_keeps w (snd (?m w))"
    by (intro outbox_order.run_keeps plain_rules update_keeps) (auto simp: outbox_event_def lease_row_def row_ok_def)
  with Cons.IH show ?case
    by (auto simp: bindG_def split: prod.splits sum.splits intro: outbox_order.R_trans)
qed (simp add: returnG_def outbox_order.R_refl)

text \<open>A claim keeps the outbox and returns events that are stored in it.\<close>

lemma Claim_keeps:
  assumes "Outbox_Claim dt wall limit lease w = (r, w')"
  shows "outbox_keeps w w' \<and> (\<forall>events. r = Inr events \<longrightarrow> set events \<subseteq> outbox_event ` set (pt_outbox w'))"
  using assms unfolding Outbox_Claim_def
proof (cases rule: tx_run)
  case (undone e)
  then show ?thesis by (simp add: outbox_order.R_same)
next
  case (committed s0 events s1)
  let ?pick = "\<lambda>s :: 'z outbox_world_scheme. (map outbox_event (take (claim_limit limit) (filter (outbox_claimable (pt_now s)) (pt_outbox s))), s)"
  from committed(2) obtain s2 where pick: "pt_run ?pick s0 = (Inr events, s2)" and lease: "lease_events (dt (wall + lease)) events s2 = (Inr (), s1)"
    by (auto simp: wrap_ok returnG_def elim!: bindG_result)
  have "plain ?pick" by (simp add: plain_def)
  with run_ok [OF pick] have e: "events = fst (?pick (tables s0))" and s2: "tables s2 = tables s0" by auto
  have k: "outbox_keeps s2 s1" using lease_keeps [of s2 "dt (wall + lease)" events] lease by simp
  then have "outbox_keeps w w'" using outbox_order.R_tables [of s2 w s1 w'] s2 committed(1,3) by simp
  moreover have "set events \<subseteq> outbox_event ` set (pt_outbox s2)"
    using e same_tables(1) [OF s2] by (auto dest!: in_set_takeD)
  then have "set events \<subseteq> outbox_event ` set (pt_outbox w')" using k same_tables(1) [OF committed(3)] by (auto simp: outbox_keeps_def)
  ultimately show ?thesis using committed(4) by auto
qed

lemma categories_outbox: "\<lbrakk>save_categories i cs s = (r, s')\<rbrakk> \<Longrightarrow> outbox_keeps s s'"
proof (induction cs arbitrary: s r s')
  case (Cons c cs)
  let ?m = "wrap_error ''save program ticket category failed'' (pt_run (upsert_category i c))"
  have "outbox_keeps s (snd (upsert_category i c (tables s)))"
    by (simp add: upsert_category_def Let_def outbox_keeps_def outbox_ok_def tables_def)
  from outbox_order.run_keeps [OF plain_rules(5) this] have k: "outbox_keeps s (snd (?m s))" .
  obtain q t where m: "?m s = (q, t)" by (metis surj_pair)
  from Cons.prems m k show ?case
    by (cases q) (auto simp: bindG_def intro: outbox_order.R_trans dest: Cons.IH)
qed (simp add: returnG_def outbox_order.R_refl)

lemma SaveProgram_keeps: "outbox_keeps (w :: 'z outbox_world_scheme) (snd (DB_SaveProgramWithEvent dt item cs event w))"
  unfolding DB_SaveProgramWithEvent_def
proof (rule outbox_order.tx_keeps)
  fix s0 :: "'z outbox_world_scheme" and a s1
  assume "bindG (wrap_error ''save program failed'' (pt_run (upsert_program dt item))) (\<lambda>_. bindG (save_categories (prg_ID item) cs) (\<lambda>_.
      wrap_error ''save program change outbox event failed'' (pt_run (insert_outbox dt event)))) s0 = (Inr a, s1)"
  then obtain s2 s3 where p: "pt_run (upsert_program dt item) s0 = (Inr (), s2)" and c: "save_categories (prg_ID item) cs s2 = (Inr (), s3)"
    and i: "pt_run (insert_outbox dt event) s3 = (Inr a, s1)" by (auto simp: wrap_ok elim!: bindG_result)
  have "outbox_keeps s0 s2"
    using outbox_order.run_keeps [where stmt = "upsert_program dt item" and s = s0 and m = "[]"] p
    by (auto simp: wrap_state upsert_program_def outbox_keeps_def outbox_ok_def tables_def)
  moreover have "outbox_keeps s3 s1"
    using outbox_order.run_keeps [where stmt = "insert_outbox dt event" and s = s3 and m = "[]"] i by (auto simp: wrap_state insert_keeps)
  ultimately show "outbox_keeps s0 s1" using categories_outbox [OF c] outbox_order.R_trans by blast
qed

section \<open>Interleaved runners\<close>

text \<open>
  Any number of runners and of writers, whose calls interleave: \<open>C\<close> are the events that some runner has claimed, \<open>S\<close> those the broker has
  confirmed to it. A runner may stop between any two calls; time passes and faults come as they like.
\<close>

inductive outbox_step :: "(time \<Rightarrow> time) \<Rightarrow> outbox_world \<times> Event set \<times> Event set \<Rightarrow> outbox_world \<times> Event set \<times> Event set \<Rightarrow> bool" for dt where
  publish: "outbox_step dt (w, C, S) (snd (OutboxPublisher_Publish dt event w), C, S)"
| change: "outbox_step dt (w, C, S) (snd (DB_SaveProgramWithEvent dt item categories event w), C, S)"
| claim: "Outbox_Claim dt wall limit lease w = (Inr events, w') \<Longrightarrow> outbox_step dt (w, C, S) (w', C \<union> set events, S)"
| no_claim: "Outbox_Claim dt wall limit lease w = (Inl e, w') \<Longrightarrow> outbox_step dt (w, C, S) (w', C, S)"
| send: "event \<in> C \<Longrightarrow> broker_Publish event w = (Inr (), w') \<Longrightarrow> outbox_step dt (w, C, S) (w', C, insert event S)"
| refused: "event \<in> C \<Longrightarrow> broker_Publish event w = (Inl e, w') \<Longrightarrow> outbox_step dt (w, C, S) (w', C, S)"
| mark: "event \<in> S \<Longrightarrow> outbox_step dt (w, C, S) (snd (Outbox_MarkPublished dt (hdr_EventID (ev_Header event)) t w), C, S)"
| again: "event \<in> C \<Longrightarrow> outbox_step dt (w, C, S) (snd (Outbox_MarkRetry dt (hdr_EventID (ev_Header event)) t detail w), C, S)"
| elapse: "outbox_step dt (w, C, S) (w\<lparr>pt_now := t, bw_wall := u, pt_faults := fs, bw_faults := gs\<rparr>, C, S)"

definition in_flight :: "outbox_world \<times> Event set \<times> Event set \<Rightarrow> bool" where
  "in_flight x = (case x of (w, C, S) \<Rightarrow> outbox_ok w \<and> C \<subseteq> outbox_event ` set (pt_outbox w) \<and> S \<subseteq> C \<inter> set (bw_accepted w))"

lemma step_keeps:
  assumes "outbox_step dt x y" and "in_flight x"
  shows "outbox_keeps (fst x) (fst y) \<and> in_flight y"
proof -
  have "outbox_keeps (fst x) (fst y) \<and> fst (snd y) \<subseteq> fst (snd x) \<union> outbox_event ` set (pt_outbox (fst y))
    \<and> snd (snd y) \<subseteq> snd (snd x) \<union> (set (bw_accepted (fst y)) \<inter> fst (snd y)) \<and> fst (snd x) \<subseteq> fst (snd y)"
    using assms
  proof (cases rule: outbox_step.cases)
    case (publish w C S event)
    then show ?thesis using Save_keeps [of w dt event] by (auto simp: OutboxPublisher_Publish_def)
  next
    case (change w C S item categories event)
    then show ?thesis using SaveProgram_keeps by auto
  next
    case (claim wall limit lease w events w' C S)
    then show ?thesis using Claim_keeps [OF claim(3)] by auto
  next
    case (no_claim wall limit lease w e w' C S)
    then show ?thesis using Claim_keeps [OF no_claim(3)] by auto
  next
    case (send event C w w' S)
    then show ?thesis using broker_Publish_keeps [of w event] broker_Publish_accepted [OF send(4)] by auto
  next
    case (refused event C w e w' S)
    then show ?thesis using broker_Publish_keeps [of w event] by auto
  next
    case (mark event S w C t)
    with assms(2) have "event \<in> set (bw_accepted w)" "event \<in> outbox_event ` set (pt_outbox w)" by (auto simp: in_flight_def)
    then obtain row where "row \<in> set (pt_outbox w)" "outbox_event row = event" "ob_event_id row = hdr_EventID (ev_Header event)" by (auto simp: outbox_event_def)
    with mark \<open>event \<in> set (bw_accepted w)\<close> MarkPublished_keeps [of row w _ dt t] show ?thesis by auto
  next
    case (again event C w S t detail)
    then show ?thesis using MarkRetry_keeps by auto
  next
    case (elapse w C S t u fs gs)
    then show ?thesis by (auto simp: outbox_keeps_def outbox_ok_def)
  qed
  moreover obtain w C S w' C' S' where "x = (w, C, S)" "y = (w', C', S')" by (metis prod.collapse)
  moreover define E E' where "E = outbox_event ` set (pt_outbox w)" and "E' = outbox_event ` set (pt_outbox w')"
  ultimately have "outbox_keeps w w'" "C' \<subseteq> C \<union> E'" "S' \<subseteq> S \<union> (set (bw_accepted w') \<inter> C')" "C \<subseteq> C'" "E \<subseteq> E'"
    "outbox_ok w \<and> C \<subseteq> E \<and> S \<subseteq> C \<inter> set (bw_accepted w)" "set (bw_accepted w) \<subseteq> set (bw_accepted w')"
    using assms(2) by (simp_all add: in_flight_def outbox_keeps_def)
  moreover from this have "outbox_ok w'" by (simp add: outbox_keeps_def)
  ultimately have "outbox_ok w' \<and> C' \<subseteq> E' \<and> S' \<subseteq> C' \<inter> set (bw_accepted w')" by blast
  then show ?thesis using \<open>outbox_keeps w w'\<close> \<open>x = _\<close> \<open>y = _\<close> by (simp add: in_flight_def E'_def)
qed

lemma steps_keep: "(outbox_step dt)\<^sup>*\<^sup>* x y \<Longrightarrow> in_flight x \<Longrightarrow> outbox_keeps (fst x) (fst y) \<and> in_flight y"
  by (induction rule: rtranclp_induct) (use outbox_order.R_refl step_keeps outbox_order.R_trans in blast)+

section \<open>A flush without faults\<close>

lemma run_works: "pt_faults s = [] \<Longrightarrow> wrap_error m (pt_run stmt) s = (Inr (fst (stmt s)), snd (stmt s))"
proof -
  assume none: "pt_faults s = []"
  then have same: "s\<lparr>pt_faults := tl (pt_faults s)\<rparr> = s" by simp
  have "pt_run stmt s = (Inr (fst (stmt s)), snd (stmt s))"
    unfolding pt_run_def same by (simp add: faulty_def next_fault_def none split: prod.splits)
  then show ?thesis by (simp add: wrap_ok)
qed

lemma lease_works:
  "pt_faults s = [] \<Longrightarrow> \<exists>s'. lease_events l events s = (Inr (), s') \<and> pt_faults s' = [] \<and> bw_faults s' = bw_faults (s :: 'z outbox_world_scheme)"
proof (induction events arbitrary: s)
  case (Cons event events)
  let ?s = "snd (update_outbox (\<lambda>row. ob_event_id row = hdr_EventID (ev_Header event)) (lease_row l) s)"
  have "pt_faults ?s = []" "bw_faults ?s = bw_faults s" using Cons.prems by (simp_all add: update_outbox_def)
  with Cons.IH [of ?s] Cons.prems show ?case by (simp add: bindG_def run_works)
qed (simp add: returnG_def)

lemma Claim_works:
  assumes "pt_faults w = []"
  shows "\<exists>w'. Outbox_Claim dt wall limit lease w =
    (Inr (map outbox_event (take (claim_limit limit) (filter (outbox_claimable (pt_now w)) (pt_outbox w)))), w') \<and> bw_faults w' = bw_faults (w :: 'z outbox_world_scheme)"
proof -
  let ?events = "map outbox_event (take (claim_limit limit) (filter (outbox_claimable (pt_now w)) (pt_outbox w)))"
  obtain s where s: "lease_events (dt (wall + lease)) ?events w = (Inr (), s)" "pt_faults s = []" "bw_faults s = bw_faults w"
    using lease_works [OF assms] by blast
  have "pt_faults (pt_undo w s) = []" "bw_faults (pt_undo s (pt_undo w s)) = bw_faults w" using s by (simp_all add: pt_undo_def)
  with s assms show ?thesis by (simp add: Outbox_Claim_def pt_tx_def bindG_def returnG_def run_works)
qed

lemma MarkPublished_broker:
  "bw_accepted (snd (Outbox_MarkPublished dt i t w)) = bw_accepted w" "bw_faults (snd (Outbox_MarkPublished dt i t w)) = bw_faults w"
  by (simp_all add: Outbox_MarkPublished_def wrap_state pt_run_def faulty_def update_outbox_def split: prod.splits)

lemma publish_accepts:
  "bw_faults w = [] \<Longrightarrow> set (bw_accepted w) \<union> set events \<subseteq> set (bw_accepted (publish_events (NewOutboxRunner dt) events w))"
proof (induction events arbitrary: w)
  case (Cons event events)
  let ?w1 = "w\<lparr>bw_accepted := bw_accepted w @ [event]\<rparr>"
  let ?w2 = "snd (Outbox_MarkPublished dt (hdr_EventID (ev_Header event)) (bw_wall ?w1) ?w1)"
  have "w\<lparr>bw_faults := []\<rparr> = w" using Cons.prems by simp
  then have "broker_Publish event w = (Inr (), ?w1)" using Cons.prems by (simp add: broker_Publish_def faulty_def next_fault_def broker_accept_def)
  then have "publish_events (NewOutboxRunner dt) (event # events) w = publish_events (NewOutboxRunner dt) events ?w2" by (simp add: NewOutboxRunner_def)
  with Cons.IH [of ?w2] Cons.prems show ?case by (auto simp: MarkPublished_broker)
qed simp

definition stored_event :: "(time \<Rightarrow> time) \<Rightarrow> Event \<Rightarrow> Event" where
  "stored_event dt event = event\<lparr>ev_Header := (ev_Header event)\<lparr>hdr_OccurredAt := dt (hdr_OccurredAt (ev_Header event))\<rparr>\<rparr>"

lemma stored_values: "outbox_event (outbox_values dt now event) = stored_event dt event"
  by (simp add: outbox_event_def outbox_values_def stored_event_def nullText_def)

lemma Publish_stores:
  assumes "OutboxPublisher_Publish dt event w = (Inr (), w1)" and "hdr_EventID (ev_Header event) \<notin> ob_event_id ` set (pt_outbox w)"
  shows "stored_event dt event \<in> outbox_event ` set (pt_outbox (w1 :: 'z outbox_world_scheme))"
proof -
  have "tables w1 = tables (snd (insert_outbox dt event (tables w)))"
    using assms(1) run_ok [of "insert_outbox dt event" w "()" w1] by (auto simp: OutboxPublisher_Publish_def Outbox_Save_def wrap_ok)
  then have "pt_outbox w1 = pt_outbox w @ [outbox_values dt (pt_now w) event]"
    using assms(2) same_tables(1) [of w1 "snd (insert_outbox dt event (tables w))"]
    by (simp add: insert_outbox_def list_ex_iff image_iff split: if_splits) metis
  then show ?thesis by (simp add: stored_values)
qed


text \<open>An event is stored, and a runner that has claimed it stops; half a minute later it is delivered.\<close>

definition sample_event :: Event where
  "sample_event = \<lparr>ev_Topic = ''ticket_hub.program_changed'', ev_Key = ''1'',
     ev_Header = \<lparr>hdr_EventID = ''7'', hdr_TraceID = [], hdr_SchemaVersion = ''v1'', hdr_OccurredAt = 5\<rparr>, ev_Payload = JNull\<rparr>"

definition sample_outbox :: outbox_world where
  "sample_outbox = \<lparr>pt_programs = [], pt_categories = [], pt_seats = [], pt_outbox = [], pt_faults = [], pt_error = PlainError ''lost'', pt_now = 10,
     bw_accepted = [], bw_faults = [Refused], bw_down = PlainError ''down'', bw_wall = 10\<rparr>"


end
