(* ===== verification/Program_Admin.thy ===== *)
theory Program_Admin
  imports Outbox Reconciliation
begin

text \<open>
  Administration of the catalog (\<open>src/app/program-service/internal/application/program_admin.go\<close>): drafts, the status of a program, and
  the event that announces a change. On MySQL the rows and the event are written in one transaction
  (\<open>Program_Tables\<close>); the event goes through the outbox to the consumer that keeps the search index
  (\<open>interfaces/worker/program_events.go\<close>).
\<close>

section \<open>The service\<close>

record 'w ProgramAdminService =
  pa_FindProgram :: "int64 \<Rightarrow> ('w, Program) go"
  pa_ListTicketCategories :: "int64 \<Rightarrow> ('w, TicketCategory list) go"
  pa_SaveProgramWithEvent :: "Program \<Rightarrow> TicketCategory list \<Rightarrow> Event \<Rightarrow> ('w, unit) go"
  pa_InitializeRemain :: "int64 \<Rightarrow> int64 \<Rightarrow> int64 \<Rightarrow> ('w, bool) go"
  pa_NextID :: "('w, int64) go"
  pa_nowFunc :: "'w \<Rightarrow> time"

abbreviation ProgramChangedTopic :: string where
  "ProgramChangedTopic \<equiv> ''ticket_hub.program_changed''"

definition marshal_program_changed :: "Program \<Rightarrow> string \<Rightarrow> json" where
  "marshal_program_changed item operation = JObj
     [(''program_id'', JInt (prg_ID item)), (''title'', JStr (prg_Title item)), (''city'', JStr (prg_City item)), (''place'', JStr (prg_Place item)),
      (''show_time'', JTime (prg_ShowTime item)), (''status'', JStr (prg_Status item)), (''operation'', JStr operation)]"

definition change_event :: "Program \<Rightarrow> string \<Rightarrow> int64 \<Rightarrow> time \<Rightarrow> Event" where
  "change_event item operation eventID now =
     \<lparr>ev_Topic = ProgramChangedTopic, ev_Key = show_int (prg_ID item),
      ev_Header = \<lparr>hdr_EventID = show_int eventID, hdr_TraceID = [], hdr_SchemaVersion = ''v1'', hdr_OccurredAt = now\<rparr>,
      ev_Payload = marshal_program_changed item operation\<rparr>"

definition changeEvent :: "'w ProgramAdminService \<Rightarrow> Program \<Rightarrow> string \<Rightarrow> ('w, Event) go" where
  "changeEvent A item operation = bindG (pa_NextID A) (\<lambda>eventID. bindG (getG (pa_nowFunc A)) (\<lambda>now.
     returnG (change_event item operation eventID now)))"

definition complete_program :: "Program \<Rightarrow> bool" where
  "complete_program item \<longleftrightarrow> \<not> (prg_ID item \<le> 0 \<or> trim_space (prg_Title item) = [] \<or> trim_space (prg_City item) = []
     \<or> trim_space (prg_Place item) = [] \<or> prg_ShowTime item = 0)"

definition draft_category :: "int64 \<Rightarrow> TicketCategory \<Rightarrow> TicketCategory" where
  "draft_category programID c = c\<lparr>tc_ProgramID := programID, tc_Remain := tc_Total c, tc_SellStarted := False\<rparr>"

definition SaveDraft :: "'w ProgramAdminService \<Rightarrow> Program \<Rightarrow> TicketCategory list \<Rightarrow> ('w, unit) go" where
  "SaveDraft A item categories =
     (if \<not> complete_program item then failG (New CodeInvalidArgument ''complete program information is required'')
      else attemptG (pa_FindProgram A (prg_ID item)) (\<lambda>found.
        let save =
          (if categories = [] then failG (New CodeInvalidArgument ''at least one ticket category is required'')
           else if list_ex (\<lambda>c. tc_ID c \<le> 0 \<or> tc_PriceCent c \<le> 0 \<or> tc_Total c \<le> 0) categories then
             failG (New CodeInvalidArgument ''ticket category id, price and total must be positive'')
           else let draft = item\<lparr>prg_Status := ''DRAFT''\<rparr> in
             bindG (changeEvent A draft ''DELETE'') (\<lambda>event.
             pa_SaveProgramWithEvent A draft (map (draft_category (prg_ID item)) categories) event))
        in case found of
          Inr current \<Rightarrow> if prg_Status current = ''ON_SALE'' then failG (New CodeConflict ''on-sale program cannot be edited as draft'') else save
        | Inl e \<Rightarrow> if \<not> IsCode (Some e) CodeNotFound then failG e else save))"

definition validProgramTransition :: "string \<Rightarrow> string \<Rightarrow> bool" where
  "validProgramTransition current target =
     (let current = to_upper current in
      if current = ''DRAFT'' then target = ''READY''
      else if current = ''READY'' \<or> current = ''COMING_SOON'' then target = ''ON_SALE''
      else if current = ''ON_SALE'' then target = ''OFF_SALE''
      else False)"

fun initialize_all :: "'w ProgramAdminService \<Rightarrow> int64 \<Rightarrow> TicketCategory list \<Rightarrow> ('w, TicketCategory list) go" where
  "initialize_all A programID [] = returnG []"
| "initialize_all A programID (c # categories) =
     bindG (pa_InitializeRemain A programID (tc_ID c) (tc_Remain c)) (\<lambda>_.
     bindG (initialize_all A programID categories) (\<lambda>started. returnG (c\<lparr>tc_SellStarted := True\<rparr> # started)))"

definition ChangeStatus :: "'w ProgramAdminService \<Rightarrow> int64 \<Rightarrow> string \<Rightarrow> ('w, unit) go" where
  "ChangeStatus A programID target =
     (let target = to_upper (trim_space target) in
      bindG (pa_FindProgram A programID) (\<lambda>current.
      if prg_Status current = target then returnG ()
      else if \<not> validProgramTransition (prg_Status current) target then failG (New CodeConflict ''invalid program status transition'')
      else bindG (pa_ListTicketCategories A programID) (\<lambda>categories.
      bindG (if target = ''ON_SALE'' then
               bindG (getG (pa_nowFunc A)) (\<lambda>now.
                 if \<not> prg_ShowTime current > now then failG (New CodeConflict ''past program cannot go on sale'')
                 else initialize_all A programID categories)
             else if target = ''OFF_SALE'' then returnG (map (\<lambda>c. c\<lparr>tc_SellStarted := False\<rparr>) categories)
             else returnG categories) (\<lambda>categories.
      let changed = current\<lparr>prg_Status := target\<rparr> in
      bindG (changeEvent A changed (if target = ''ON_SALE'' then ''UPSERT'' else ''DELETE'')) (\<lambda>event.
      pa_SaveProgramWithEvent A changed categories event)))))"

section \<open>The consumer of the events\<close>

record ProgramChangedEvent =
  pce_Program :: Program
  pce_Operation :: string

definition unmarshal_program_changed :: "json \<Rightarrow> error + ProgramChangedEvent" where
  "unmarshal_program_changed d = (case (case d of JObj fs \<Rightarrow> Some (\<lambda>f. field f fs) | JNull \<Rightarrow> Some (\<lambda>_. JNull) | _ \<Rightarrow> None) of
     None \<Rightarrow> Inl (PlainError ''json: cannot unmarshal'')
   | Some f \<Rightarrow> (case (get_int (f ''program_id''), get_str (f ''title''), get_str (f ''city''), get_str (f ''place''), get_time (f ''show_time''),
         get_str (f ''status''), get_str (f ''operation'')) of
       (Some i, Some title, Some city, Some place, Some showTime, Some status, Some operation) \<Rightarrow>
         Inr \<lparr>pce_Program = \<lparr>prg_ID = i, prg_Title = title, prg_City = city, prg_Place = place, prg_ShowTime = showTime, prg_Status = status\<rparr>, pce_Operation = operation\<rparr>
     | _ \<Rightarrow> Inl (PlainError ''json: cannot unmarshal'')))"

record 'w program_indexer =
  ix_EnsureIndex :: "('w, unit) go"
  ix_UpsertPrograms :: "Program list \<Rightarrow> ('w, unit) go"
  ix_DeletePrograms :: "int64 list \<Rightarrow> ('w, unit) go"

text \<open>\<open>ack\<close> is the acknowledgement of the event, \<open>cache\<close> the invalidation of the cached program, if there is a cache.\<close>

definition Program_handle :: "'w program_indexer \<Rightarrow> (int64 \<Rightarrow> ('w, unit) go) option \<Rightarrow> ('w, unit) go \<Rightarrow> Event \<Rightarrow> ('w, unit) go" where
  "Program_handle ix cache ack event = (case unmarshal_program_changed (ev_Payload event) of
     Inl e \<Rightarrow> failG e
   | Inr changed \<Rightarrow>
       bindG (case cache of None \<Rightarrow> returnG () | Some invalidate \<Rightarrow> invalidate (prg_ID (pce_Program changed))) (\<lambda>_.
       bindG (ix_EnsureIndex ix) (\<lambda>_.
       bindG (if pce_Operation changed = ''DELETE'' then ix_DeletePrograms ix [prg_ID (pce_Program changed)]
              else ix_UpsertPrograms ix [pce_Program changed]) (\<lambda>_. ack))))"

lemma program_changed_round_trip:
  "in64 (prg_ID item) \<Longrightarrow> unmarshal_program_changed (marshal_program_changed item operation) = Inr \<lparr>pce_Program = item, pce_Operation = operation\<rparr>"
  by (simp add: marshal_program_changed_def unmarshal_program_changed_def field_def get_int_def get_str_def get_time_def)

section \<open>On MySQL\<close>

record admin_world = program_db +
  aw_redis :: keyspace
  aw_idents :: "int64 list"
  aw_clock :: time

definition mysql_admin :: "(time \<Rightarrow> time) \<Rightarrow> string \<Rightarrow> admin_world ProgramAdminService" where
  "mysql_admin dt keys = \<lparr>pa_FindProgram = DB_FindProgram, pa_ListTicketCategories = DB_ListTicketCategories,
     pa_SaveProgramWithEvent = DB_SaveProgramWithEvent dt,
     pa_InitializeRemain = (\<lambda>p c v. liftG aw_redis (\<lambda>r w. w\<lparr>aw_redis := r\<rparr>) (Store_InitializeRemain keyspace_redis keys p c v)),
     pa_NextID = draw aw_idents (\<lambda>ns w. w\<lparr>aw_idents := ns\<rparr>), pa_nowFunc = aw_clock\<rparr>"

text \<open>Saving a program: nothing, or the program and its event, also when the reply to the commit is lost.\<close>

lemma save_categories_result:
  "save_categories i cs s = (Inr (), s') \<Longrightarrow> pt_programs s' = pt_programs s \<and> pt_outbox s' = pt_outbox s \<and> pt_now s' = pt_now s \<and> program_db.more s' = program_db.more s"
proof (induction cs arbitrary: s)
  case (Cons c cs)
  then obtain t where run: "pt_run (upsert_category i c) s = (Inr (), t)" and rest: "save_categories i cs t = (Inr (), s')"
    by (auto simp: wrap_ok elim!: bindG_result)
  from run_ok [OF run] have "tables t = tables (snd (upsert_category i c (tables s)))" by auto
  then have "pt_programs t = pt_programs s \<and> pt_outbox t = pt_outbox s \<and> pt_now t = pt_now s \<and> program_db.more t = program_db.more s"
    unfolding tables_def by (cases s; cases t) (simp add: upsert_category_def Let_def)
  with Cons.IH [OF rest] show ?case by simp
qed (simp add: returnG_def)

lemma table_fields:
  assumes "tables t = tables s"
  shows "pt_programs t = pt_programs s" "pt_outbox t = pt_outbox s" "pt_now t = pt_now s" "program_db.more t = program_db.more s" "pt_categories t = pt_categories s"
  using arg_cong [OF assms, of pt_programs] arg_cong [OF assms, of pt_outbox] arg_cong [OF assms, of pt_now] arg_cong [OF assms, of program_db.more]
    arg_cong [OF assms, of pt_categories] by simp_all

lemma SaveProgram_result:
  assumes "DB_SaveProgramWithEvent dt item cs event s = (r, s')"
  obtains (undone) "tables s' = tables s"
  | (saved) "pt_programs s' = AList.update (prg_ID item) (item\<lparr>prg_ShowTime := dt (prg_ShowTime item)\<rparr>) (pt_programs s)"
      and "pt_outbox s' = pt_outbox (snd (insert_outbox dt event s))" and "program_db.more s' = program_db.more s"
  using assms unfolding DB_SaveProgramWithEvent_def
proof (cases rule: tx_run)
  case (committed s0 a s1)
  from committed(2) obtain s2 s3 where p: "pt_run (upsert_program dt item) s0 = (Inr (), s2)" and c: "save_categories (prg_ID item) cs s2 = (Inr (), s3)"
    and i: "pt_run (insert_outbox dt event) s3 = (Inr a, s1)" by (auto simp: wrap_ok elim!: bindG_result)
  have s2: "tables s2 = tables (snd (upsert_program dt item (tables s)))" using run_ok [OF p] committed(1) by auto
  have s1: "tables s' = tables (snd (insert_outbox dt event (tables s3)))" using run_ok [OF i] committed(3) by auto
  note fields = table_fields [OF s2] save_categories_result [OF c] table_fields [OF s1]
  show thesis
  proof (rule saved)
    show "pt_programs s' = AList.update (prg_ID item) (item\<lparr>prg_ShowTime := dt (prg_ShowTime item)\<rparr>) (pt_programs s)"
      "pt_outbox s' = pt_outbox (snd (insert_outbox dt event s))" "program_db.more s' = program_db.more s"
      using fields by (auto simp: upsert_program_def insert_outbox_def)
  qed
qed (use undone in blast)

section \<open>Every change is announced\<close>

text \<open>
  The announcements of a program are the events of the outbox with its key. \<open>announced i w\<close>: the last of them tells the consumer to index the program as
  its row is, if it is on sale, and to delete it from the index otherwise.
\<close>

definition change_events :: "int64 \<Rightarrow> 'z program_db_scheme \<Rightarrow> Event list" where
  "change_events i s = filter (\<lambda>e. ev_Topic e = ProgramChangedTopic \<and> ev_Key e = show_int i) (map outbox_event (pt_outbox s))"

definition announces :: "Program \<Rightarrow> json \<Rightarrow> bool" where
  "announces p d = (case unmarshal_program_changed d of
     Inl e \<Rightarrow> False
   | Inr changed \<Rightarrow>
       if prg_Status p = ''ON_SALE'' then changed = \<lparr>pce_Program = p, pce_Operation = ''UPSERT''\<rparr>
       else prg_ID (pce_Program changed) = prg_ID p \<and> pce_Operation changed = ''DELETE'')"

definition announced :: "int64 \<Rightarrow> 'z program_db_scheme \<Rightarrow> bool" where
  "announced i s = (case map_of (pt_programs s) i of
     None \<Rightarrow> True
   | Some p \<Rightarrow> change_events i s \<noteq> [] \<and> announces p (ev_Payload (last (change_events i s))))"

definition admin_ok :: "(time \<Rightarrow> time) \<Rightarrow> admin_world \<Rightarrow> bool" where
  "admin_ok dt w \<longleftrightarrow> (\<forall>(i, p) \<in> set (pt_programs w). prg_ID p = i \<and> in64 i \<and> dt (prg_ShowTime p) = prg_ShowTime p)
     \<and> distinct (aw_idents w) \<and> (\<forall>e \<in> set (map outbox_event (pt_outbox w)). \<forall>n \<in> set (aw_idents w). hdr_EventID (ev_Header e) \<noteq> show_int n)"

definition still :: "admin_world \<Rightarrow> admin_world \<Rightarrow> bool" where
  "still w w' \<longleftrightarrow> pt_programs w' = pt_programs w \<and> map outbox_event (pt_outbox w') = map outbox_event (pt_outbox w)
     \<and> (\<exists>k. aw_idents w' = drop k (aw_idents w))"

definition saves :: "(time \<Rightarrow> time) \<Rightarrow> admin_world \<Rightarrow> admin_world \<Rightarrow> bool" where
  "saves dt w w' \<longleftrightarrow> (\<exists>item n ns now. aw_idents w = n # ns \<and> aw_idents w' = ns \<and> in64 (prg_ID item)
     \<and> (prg_Status item = ''ON_SALE'' \<longrightarrow> dt (prg_ShowTime item) = prg_ShowTime item)
     \<and> pt_programs w' = AList.update (prg_ID item) (item\<lparr>prg_ShowTime := dt (prg_ShowTime item)\<rparr>) (pt_programs w)
     \<and> map outbox_event (pt_outbox w') = map outbox_event (pt_outbox w)
         @ [stored_event dt (change_event item (if prg_Status item = ''ON_SALE'' then ''UPSERT'' else ''DELETE'') n now)])"

lemma same_idents: assumes "tables t = tables s" shows "aw_idents t = aw_idents (s :: admin_world)"
  using arg_cong [OF assms, of aw_idents] by (simp add: tables_def)

lemma more_idents: "program_db.more t = program_db.more s \<Longrightarrow> aw_idents t = aw_idents (s :: admin_world)"
  by (cases s, cases t) simp

interpretation still: table_order still
proof
  show "still s s" for s by (auto simp: still_def intro: exI [of _ 0])
  show "still s t \<Longrightarrow> still t u \<Longrightarrow> still s u" for s t u by (auto simp: still_def drop_drop)
  show "tables s = tables s0 \<Longrightarrow> tables t = tables t0 \<Longrightarrow> still s t \<longleftrightarrow> still s0 t0" for s s0 t t0
    using table_fields [of s s0] table_fields [of t t0] same_idents [of s s0] same_idents [of t t0] by (simp add: still_def)
qed

text \<open>What a program of the service can do: it leaves the view as it is, or saves a program once, at its end.\<close>

definition effect :: "(time \<Rightarrow> time) \<Rightarrow> admin_world \<Rightarrow> (admin_world, 'a) go \<Rightarrow> bool" where
  "effect dt w m \<longleftrightarrow> (\<exists>w1. still w w1 \<and> (snd (m w) = w1 \<or> saves dt w1 (snd (m w))))"

lemma effect_still: "keepsG still m \<Longrightarrow> effect dt w m"
  by (auto simp: effect_def keepsG_def)

lemma effect_fail: "effect dt w (failG e)"
  by (rule effect_still) (rule still.keeps_fail)

lemma effect_bind:
  assumes "keepsG still m" and "\<And>x w1. m w = (Inr x, w1) \<Longrightarrow> still w w1 \<Longrightarrow> effect dt w1 (f x)"
  shows "effect dt w (bindG m f)"
proof (cases "m w")
  case (Pair r w1)
  then have s: "still w w1" using assms(1) by (metis keepsG_def snd_conv)
  show ?thesis
  proof (cases r)
    case (Inr x)
    with assms(2) Pair s obtain w2 where "still w1 w2" "snd (f x w1) = w2 \<or> saves dt w2 (snd (f x w1))" by (auto simp: effect_def)
    with s Pair Inr show ?thesis by (auto simp: effect_def bindG_def intro: still.R_trans)
  qed (use Pair s in \<open>auto simp: effect_def bindG_def\<close>)
qed

lemma effect_attempt:
  assumes "keepsG still m" and "\<And>r w1. m w = (r, w1) \<Longrightarrow> still w w1 \<Longrightarrow> effect dt w1 (f r)"
  shows "effect dt w (attemptG m f)"
proof (cases "m w")
  case (Pair r w1)
  then have s: "still w w1" using assms(1) by (metis keepsG_def snd_conv)
  with assms(2) Pair obtain w2 where "still w1 w2" "snd (f r w1) = w2 \<or> saves dt w2 (snd (f r w1))" by (auto simp: effect_def)
  with s Pair show ?thesis by (auto simp: effect_def attemptG_def intro: still.R_trans)
qed

lemma still_ok: "still w w' \<Longrightarrow> admin_ok dt w \<Longrightarrow> admin_ok dt w'"
  unfolding still_def admin_ok_def by (auto, metis in_set_dropD)

lemma mysql_admin_still:
  "keepsG still (DB_FindProgram i)" "keepsG still (DB_ListTicketCategories i)" "keepsG still (draw aw_idents (\<lambda>ns w. w\<lparr>aw_idents := ns\<rparr>))"
  "keepsG still (liftG aw_redis (\<lambda>r w. w\<lparr>aw_redis := r\<rparr>) m)"
proof -
  show "keepsG still (DB_FindProgram i)" unfolding DB_FindProgram_def
    by (intro still.keeps_bind) (auto simp: keepsG_def still.query_keeps failG_def returnG_def still.R_refl split: option.splits)
  show "keepsG still (DB_ListTicketCategories i)" unfolding DB_ListTicketCategories_def by (simp add: keepsG_def still.query_keeps)
  show "keepsG still (draw aw_idents (\<lambda>ns w. w\<lparr>aw_idents := ns\<rparr>))"
    by (auto simp: keepsG_def draw_def still_def drop_Suc split: list.splits intro: exI [of _ "Suc 0"] exI [of _ 0])
  show "keepsG still (liftG aw_redis (\<lambda>r w. w\<lparr>aw_redis := r\<rparr>) m)"
    by (auto simp: keepsG_def liftG_def still_def split: prod.splits intro: exI [of _ 0])
qed

lemma FindProgram_found: "DB_FindProgram i w = (Inr p, w1) \<Longrightarrow> map_of (pt_programs w) i = Some p"
  by (auto simp: DB_FindProgram_def wrap_ok pt_run_def faulty_def failG_def returnG_def elim!: bindG_result split: if_splits option.splits)

lemma effect_save:
  assumes ok: "admin_ok dt w" and "in64 (prg_ID item)" and op: "operation = (if prg_Status item = ''ON_SALE'' then ''UPSERT'' else ''DELETE'')"
    and "prg_Status item = ''ON_SALE'' \<longrightarrow> dt (prg_ShowTime item) = prg_ShowTime item"
  shows "effect dt w (bindG (changeEvent (mysql_admin dt keys) item operation) (DB_SaveProgramWithEvent dt item cs))"
proof (cases "aw_idents w")
  case Nil
  then show ?thesis by (auto simp: effect_def changeEvent_def bindG_def mysql_admin_def draw_def intro!: exI [of _ w] still.R_refl)
next
  case (Cons n ns)
  let ?w1 = "w\<lparr>aw_idents := ns\<rparr>"
  let ?e = "change_event item operation n (aw_clock w)"
  obtain r w' where save: "DB_SaveProgramWithEvent dt item cs ?e ?w1 = (r, w')" by (metis surj_pair)
  then have run: "snd (bindG (changeEvent (mysql_admin dt keys) item operation) (DB_SaveProgramWithEvent dt item cs) w) = w'"
    using Cons by (simp add: changeEvent_def bindG_def mysql_admin_def draw_def getG_def returnG_def)
  from save have "still w w' \<or> saves dt w w'"
  proof (cases rule: SaveProgram_result)
    case undone
    have "still w ?w1" using Cons by (auto simp: still_def intro: exI [of _ "Suc 0"])
    then show ?thesis using undone still.R_tables [of w w w' ?w1] by simp
  next
    case saved
    have "\<forall>row \<in> set (pt_outbox w). ob_event_id row \<noteq> show_int n" using ok Cons by (auto simp: admin_ok_def outbox_event_def)
    then have "pt_outbox w' = pt_outbox w @ [outbox_values dt (pt_now w) ?e]" using saved(2) by (auto simp: insert_outbox_def change_event_def list_ex_iff)
    then have "map outbox_event (pt_outbox w') = map outbox_event (pt_outbox w) @ [stored_event dt ?e]" by (simp add: stored_values)
    moreover have "aw_idents w' = ns" using more_idents [OF saved(3)] by simp
    ultimately show ?thesis unfolding saves_def using assms(2,4) Cons saved(1) op by (intro disjI2 exI [of _ item] exI) auto
  qed
  then show ?thesis using run by (auto simp: effect_def intro: still.R_refl)
qed

lemma initialize_still: "keepsG still (initialize_all (mysql_admin dt keys) i cs)"
  by (induction cs) (auto simp: mysql_admin_def intro!: still.keeps_bind still.keeps_return mysql_admin_still(4))

lemma found_row:
  assumes "admin_ok dt w" and "map_of (pt_programs w) i = Some p"
  shows "prg_ID p = i" "in64 i" "dt (prg_ShowTime p) = prg_ShowTime p"
  using assms by (auto simp: admin_ok_def dest!: map_of_SomeD)

lemma ChangeStatus_effect:
  assumes "admin_ok dt w"
  shows "effect dt w (ChangeStatus (mysql_admin dt keys) i target)"
proof -
  let ?t = "to_upper (trim_space target)"
  let ?A = "mysql_admin dt keys"
  have A: "pa_FindProgram ?A = DB_FindProgram" "pa_ListTicketCategories ?A = DB_ListTicketCategories" "pa_SaveProgramWithEvent ?A = DB_SaveProgramWithEvent dt"
    by (simp_all add: mysql_admin_def)
  let ?start = "\<lambda>current cs. if ?t = ''ON_SALE'' then bindG (getG (pa_nowFunc ?A)) (\<lambda>now.
                 if \<not> prg_ShowTime current > now then failG (New CodeConflict ''past program cannot go on sale'') else initialize_all ?A i cs)
             else if ?t = ''OFF_SALE'' then returnG (map (\<lambda>c. c\<lparr>tc_SellStarted := False\<rparr>) cs) else returnG cs"
  have start: "keepsG still (?start current cs)" for current cs
    by (auto intro!: still.keeps_bind still.keeps_get still.keeps_fail still.keeps_return initialize_still)
  have save: "effect dt w1 (bindG (changeEvent ?A (p\<lparr>prg_Status := ?t\<rparr>) (if ?t = ''ON_SALE'' then ''UPSERT'' else ''DELETE''))
      (DB_SaveProgramWithEvent dt (p\<lparr>prg_Status := ?t\<rparr>) cs))" if "map_of (pt_programs w) i = Some p" "still w w1" for p cs w1
    using found_row [OF assms that(1)] still_ok [OF that(2) assms] by (intro effect_save) auto
  show ?thesis unfolding ChangeStatus_def Let_def A
  proof (rule effect_bind [OF mysql_admin_still(1)])
    fix p w1 assume p: "DB_FindProgram i w = (Inr p, w1)" "still w w1"
    show "effect dt w1 (if prg_Status p = ?t then returnG ()
      else if \<not> validProgramTransition (prg_Status p) ?t then failG (New CodeConflict ''invalid program status transition'')
      else bindG (DB_ListTicketCategories i) (\<lambda>cs. bindG (?start p cs) (\<lambda>cs. bindG (changeEvent ?A (p\<lparr>prg_Status := ?t\<rparr>) (if ?t = ''ON_SALE'' then ''UPSERT'' else ''DELETE''))
          (DB_SaveProgramWithEvent dt (p\<lparr>prg_Status := ?t\<rparr>) cs))))"
    proof (cases "prg_Status p = ?t \<or> \<not> validProgramTransition (prg_Status p) ?t")
      case False
      have "effect dt w1 (bindG (DB_ListTicketCategories i) (\<lambda>cs. bindG (?start p cs) (\<lambda>cs. bindG (changeEvent ?A (p\<lparr>prg_Status := ?t\<rparr>) (if ?t = ''ON_SALE'' then ''UPSERT'' else ''DELETE''))
          (DB_SaveProgramWithEvent dt (p\<lparr>prg_Status := ?t\<rparr>) cs))))"
        by (rule effect_bind [OF mysql_admin_still(2)], rule effect_bind [OF start], rule save [OF FindProgram_found [OF p(1)]])
          (use p(2) still.R_trans in blast)
      with False show ?thesis by simp
    qed (auto intro: effect_still still.keeps_return still.keeps_fail)
  qed
qed

lemma SaveDraft_effect:
  assumes "admin_ok dt w" and "in64 (prg_ID item)"
  shows "effect dt w (SaveDraft (mysql_admin dt keys) item cs)"
proof -
  let ?A = "mysql_admin dt keys"
  let ?draft = "item\<lparr>prg_Status := ''DRAFT''\<rparr>"
  have A: "pa_FindProgram ?A = DB_FindProgram" "pa_SaveProgramWithEvent ?A = DB_SaveProgramWithEvent dt" by (simp_all add: mysql_admin_def)
  have save: "effect dt w1 (bindG (changeEvent ?A ?draft ''DELETE'') (DB_SaveProgramWithEvent dt ?draft cs'))" if "still w w1" for w1 cs'
    using assms(2) still_ok [OF that assms(1)] by (intro effect_save) auto
  show ?thesis
    unfolding SaveDraft_def Let_def A
    by (auto intro!: effect_attempt [OF mysql_admin_still(1)] effect_fail save split: sum.splits)
qed

text \<open>The writers and runners of the outbox change no announcement.\<close>

lemma update_still: "(\<And>row. outbox_event (f row) = outbox_event row) \<Longrightarrow> still w (snd (update_outbox p f (tables w)))"
  by (auto simp: still_def update_outbox_def tables_def intro: exI [of _ 0])

lemma outbox_still:
  "still w (snd (Outbox_MarkPublished dt j t w))" "still w (snd (Outbox_MarkRetry dt j t detail w))" "still w (snd (lease_events l events w))"
  "still w (snd (Outbox_Claim dt wall limit lease w))"
proof -
  show "still w (snd (Outbox_MarkPublished dt j t w))" "still w (snd (Outbox_MarkRetry dt j t detail w))"
    unfolding Outbox_MarkPublished_def Outbox_MarkRetry_def by (intro still.run_keeps plain_rules update_still; simp add: outbox_event_def)+
  have lease: "keepsG still (lease_events l events)" for l events
  proof (induction events)
    case (Cons e es)
    have "keepsG still (wrap_error ''lease program outbox event failed'' (pt_run (update_outbox (\<lambda>row. ob_event_id row = hdr_EventID (ev_Header e)) (lease_row l))))"
      unfolding keepsG_def by (intro allI still.run_keeps plain_rules update_still) (simp add: outbox_event_def lease_row_def)
    with Cons show ?case by (auto intro: still.keeps_bind)
  qed (simp add: still.keeps_return)
  then show "still w (snd (lease_events l events w))" by (simp add: keepsG_def)
  have body: "keepsG still (bindG (wrap_error ''claim program outbox events failed''
          (pt_run (\<lambda>s. (map outbox_event (take (claim_limit limit) (filter (outbox_claimable (pt_now s)) (pt_outbox s))), s)))) (\<lambda>events.
        bindG (lease_events (dt (wall + lease)) events) (\<lambda>_. returnG events)))"
    by (intro still.keeps_bind lease still.keeps_return) (simp add: keepsG_def still.query_keeps)
  show "still w (snd (Outbox_Claim dt wall limit lease w))" unfolding Outbox_Claim_def
  proof (rule still.tx_keeps)
    fix s0 :: admin_world and a s1
    assume "bindG (wrap_error ''claim program outbox events failed''
          (pt_run (\<lambda>s. (map outbox_event (take (claim_limit limit) (filter (outbox_claimable (pt_now s)) (pt_outbox s))), s)))) (\<lambda>events.
        bindG (lease_events (dt (wall + lease)) events) (\<lambda>_. returnG events)) s0 = (Inr a, s1)"
    then show "still s0 s1" using body [unfolded keepsG_def, THEN spec, of s0] by simp
  qed
qed

lemma Publish_view:
  fixes w :: admin_world
  assumes "w' = snd (OutboxPublisher_Publish dt event w)"
  shows "pt_programs w' = pt_programs w \<and> aw_idents w' = aw_idents w
    \<and> map outbox_event (pt_outbox w') \<in> {map outbox_event (pt_outbox w), map outbox_event (pt_outbox w) @ [stored_event dt event]}"
proof -
  obtain r where "pt_run (insert_outbox dt event) w = (r, w')" using assms by (simp add: OutboxPublisher_Publish_def Outbox_Save_def wrap_state prod_eq_iff)
  from run_any [OF this] have "tables w' = tables w \<or> tables w' = tables (snd (insert_outbox dt event (tables w)))" by auto
  then show ?thesis
  proof
    assume t: "tables w' = tables w"
    from table_fields [OF t] same_idents [OF t] show ?thesis by simp
  next
    assume t: "tables w' = tables (snd (insert_outbox dt event (tables w)))"
    have "aw_idents (snd (insert_outbox dt event (tables w))) = aw_idents w" by (simp add: insert_outbox_def tables_def)
    with table_fields [OF t] same_idents [OF t] show ?thesis by (auto simp: insert_outbox_def stored_values)
  qed
qed

inductive admin_step :: "(time \<Rightarrow> time) \<Rightarrow> string \<Rightarrow> admin_world \<Rightarrow> admin_world \<Rightarrow> bool" for dt keys where
  draft: "in64 (prg_ID item) \<Longrightarrow> admin_step dt keys w (snd (SaveDraft (mysql_admin dt keys) item categories w))"
| status: "admin_step dt keys w (snd (ChangeStatus (mysql_admin dt keys) i target w))"
| publish: "ev_Topic event \<noteq> ProgramChangedTopic \<Longrightarrow> \<forall>n \<in> set (aw_idents w). hdr_EventID (ev_Header event) \<noteq> show_int n \<Longrightarrow>
    admin_step dt keys w (snd (OutboxPublisher_Publish dt event w))"
| claim: "admin_step dt keys w (snd (Outbox_Claim dt wall limit lease w))"
| mark: "admin_step dt keys w (snd (Outbox_MarkPublished dt j t w))"
| again: "admin_step dt keys w (snd (Outbox_MarkRetry dt j t detail w))"
| elapse: "admin_step dt keys w (w\<lparr>pt_now := t, aw_clock := u, pt_faults := fs, aw_redis := r\<rparr>)"

lemma announced_cong:
  "map_of (pt_programs w') i = map_of (pt_programs w) i \<Longrightarrow> change_events i w' = change_events i w \<Longrightarrow> announced i w' \<longleftrightarrow> announced i w"
  unfolding announced_def by (simp split: option.split)

lemma still_view: "still w w' \<Longrightarrow> announced i w' \<longleftrightarrow> announced i w"
  by (rule announced_cong) (simp_all add: still_def change_events_def)

lemma saves_ok:
  assumes "saves dt w w'" and ok: "admin_ok dt w" and dt: "\<And>t. dt (dt t) = dt t"
  shows "admin_ok dt w' \<and> (\<forall>i. announced i w' \<or> map_of (pt_programs w') i = map_of (pt_programs w) i \<and> (announced i w \<longrightarrow> announced i w'))"
proof -
  from assms(1) obtain item n ns now where s: "aw_idents w = n # ns" "aw_idents w' = ns" "in64 (prg_ID item)"
    "prg_Status item = ''ON_SALE'' \<longrightarrow> dt (prg_ShowTime item) = prg_ShowTime item"
    "pt_programs w' = AList.update (prg_ID item) (item\<lparr>prg_ShowTime := dt (prg_ShowTime item)\<rparr>) (pt_programs w)"
    "map outbox_event (pt_outbox w') = map outbox_event (pt_outbox w)
         @ [stored_event dt (change_event item (if prg_Status item = ''ON_SALE'' then ''UPSERT'' else ''DELETE'') n now)]" unfolding saves_def by blast
  let ?e = "stored_event dt (change_event item (if prg_Status item = ''ON_SALE'' then ''UPSERT'' else ''DELETE'') n now)"
  have e: "ev_Topic ?e = ProgramChangedTopic" "ev_Key ?e = show_int (prg_ID item)" "hdr_EventID (ev_Header ?e) = show_int n"
    "ev_Payload ?e = marshal_program_changed item (if prg_Status item = ''ON_SALE'' then ''UPSERT'' else ''DELETE'')"
    by (simp_all add: stored_event_def change_event_def)
  have same: "prg_Status item = ''ON_SALE'' \<Longrightarrow> item\<lparr>prg_ShowTime := dt (prg_ShowTime item)\<rparr> = item" using s(4) by simp
  have "admin_ok dt w'"
    unfolding admin_ok_def s(2,5,6)
  proof (intro conjI ballI)
    fix x assume "x \<in> set (AList.update (prg_ID item) (item\<lparr>prg_ShowTime := dt (prg_ShowTime item)\<rparr>) (pt_programs w))"
    then show "case x of (i, p) \<Rightarrow> prg_ID p = i \<and> in64 i \<and> dt (prg_ShowTime p) = prg_ShowTime p"
      using set_update_subset [of "prg_ID item" "item\<lparr>prg_ShowTime := dt (prg_ShowTime item)\<rparr>" "pt_programs w"] ok s(3) dt by (auto simp: admin_ok_def)
  qed (use ok s(1) e(3) in \<open>auto simp: admin_ok_def\<close>)
  moreover have "announced i w' \<or> map_of (pt_programs w') i = map_of (pt_programs w) i \<and> (announced i w \<longrightarrow> announced i w')" for i
  proof (cases "i = prg_ID item")
    case True
    with s(5,6) e same show ?thesis
      by (auto simp: announced_def change_events_def update_conv' announces_def program_changed_round_trip [OF s(3)])
  next
    case False
    then have "change_events i w' = change_events i w" using s(6) e by (simp add: change_events_def)
    with False s(5) announced_cong [of w' i w] show ?thesis by (simp add: update_conv')
  qed
  ultimately show ?thesis by blast
qed

lemma effect_ok:
  assumes "effect dt w m" and ok: "admin_ok dt w" and dt: "\<And>t. dt (dt t) = dt t"
  shows "admin_ok dt (snd (m w)) \<and> (announced i (snd (m w)) \<or> map_of (pt_programs (snd (m w))) i = map_of (pt_programs w) i \<and> (announced i w \<longrightarrow> announced i (snd (m w))))"
proof -
  from assms(1) obtain w1 where w1: "still w w1" "snd (m w) = w1 \<or> saves dt w1 (snd (m w))" by (auto simp: effect_def)
  note k = still_ok [OF w1(1) ok] still_view [OF w1(1), of i]
  have "map_of (pt_programs w1) = map_of (pt_programs w)" using w1(1) by (simp add: still_def)
  with w1(2) k saves_ok [OF _ k(1) dt, of "snd (m w)"] show ?thesis by auto
qed

lemma step_announced:
  assumes "admin_step dt keys w w'" and ok: "admin_ok dt w" and dt: "\<And>t. dt (dt t) = dt t"
  shows "admin_ok dt w' \<and> (announced i w' \<or> map_of (pt_programs w') i = map_of (pt_programs w) i \<and> (announced i w \<longrightarrow> announced i w'))"
proof -
  have quiet: ?thesis if "still w w'"
    using that still_ok [OF that ok] still_view [OF that, of i] by (simp add: still_def)
  from assms(1) show ?thesis
  proof cases
    case (draft item categories)
    then show ?thesis using effect_ok [OF SaveDraft_effect [OF ok] ok dt] by blast
  next
    case (status j target)
    then show ?thesis using effect_ok [OF ChangeStatus_effect [OF ok] ok dt] by blast
  next
    case (publish event)
    note v = Publish_view [OF publish(1)]
    have "hdr_EventID (ev_Header (stored_event dt event)) = hdr_EventID (ev_Header event)" "ev_Topic (stored_event dt event) \<noteq> ProgramChangedTopic"
      using publish(2) by (simp_all add: stored_event_def)
    note stored = this
    have "change_events i w' = change_events i w" using v stored(2) by (auto simp: change_events_def)
    moreover have "admin_ok dt w'"
      unfolding admin_ok_def
    proof (intro conjI ballI)
      fix e n assume "e \<in> set (map outbox_event (pt_outbox w'))" and n: "n \<in> set (aw_idents w')"
      then have "e \<in> set (map outbox_event (pt_outbox w)) \<or> e = stored_event dt event" using v by (auto simp del: set_map)
      then show "hdr_EventID (ev_Header e) \<noteq> show_int n" using ok n v publish(3) stored(1) unfolding admin_ok_def by auto
    qed (use ok v in \<open>simp_all add: admin_ok_def\<close>)
    ultimately have "admin_ok dt w'" "change_events i w' = change_events i w" by auto
    with v announced_cong [of w' i w] show ?thesis by simp
  next
    case (elapse t u fs r)
    then have "still w w'" by (auto simp: still_def intro: exI [of _ 0])
    then show ?thesis by (rule quiet)
  qed (rule quiet, simp add: outbox_still)+
qed

text \<open>
  C29. Every change of a program reaches its consumers' view. Along any sequence of drafts, status changes, other events and steps of the
  outbox, with any statement refused and any reply lost, also of a commit: when the row of a program differs from what it was, the last
  announcement of the program in the outbox describes the row as it is now, if it is on sale, and tells the consumer to delete the program from the index otherwise.
\<close>

theorem program_changes_announced:
  assumes dt: "\<And>t. dt (dt t) = dt t" and "admin_ok dt w" and "(admin_step dt keys)\<^sup>*\<^sup>* w w'"
    and "map_of (pt_programs w') i \<noteq> map_of (pt_programs w) i"
  shows "announced i w'"
proof -
  from assms(3) have "admin_ok dt w' \<and> (announced i w' \<or> map_of (pt_programs w') i = map_of (pt_programs w) i)"
  proof (induction rule: rtranclp_induct)
    case (step w1 w2)
    then show ?case using step_announced [OF step.hyps(2) _ dt, of i] by auto
  qed (simp add: assms(2))
  with assms(4) show ?thesis by blast
qed

text \<open>A draft is saved and made ready; the reply to the last commit is lost.\<close>

definition sample_admin :: admin_world where
  "sample_admin = \<lparr>pt_programs = [], pt_categories = [], pt_seats = [], pt_outbox = [], pt_faults = replicate 12 Works @ [ReplyLost], pt_error = PlainError ''lost'', pt_now = 10,
     aw_redis = \<lparr>ks_val = (\<lambda>_. None), ks_ttl = {}\<rparr>, aw_idents = [7, 8], aw_clock = 10\<rparr>"

definition sample_program :: Program where
  "sample_program = \<lparr>prg_ID = 1, prg_Title = ''Live'', prg_City = ''Shanghai'', prg_Place = ''Arena'', prg_ShowTime = 90, prg_Status = []\<rparr>"

definition sample_category :: TicketCategory where
  "sample_category = \<lparr>tc_ID = 5, tc_ProgramID = 1, tc_Name = ''A'', tc_PriceCent = 100, tc_Total = 10, tc_Remain = 0, tc_SellStarted = False\<rparr>"

theorem program_changes_announced_witness:
  "map_option prg_Status (map_of (pt_programs (snd (ChangeStatus (mysql_admin id []) 1 ''ready'' (snd (SaveDraft (mysql_admin id []) sample_program [sample_category] sample_admin))))) 1) = Some ''READY''
    \<and> announced 1 (snd (ChangeStatus (mysql_admin id []) 1 ''ready'' (snd (SaveDraft (mysql_admin id []) sample_program [sample_category] sample_admin))))"
proof -
  let ?w1 = "snd (SaveDraft (mysql_admin id []) sample_program [sample_category] sample_admin)"
  let ?w2 = "snd (ChangeStatus (mysql_admin id []) 1 ''ready'' ?w1)"
  have "admin_step id [] sample_admin ?w1" by (rule admin_step.draft) (simp add: sample_program_def in64_def)
  moreover have "admin_step id [] ?w1 ?w2" by (rule admin_step.status)
  ultimately have steps: "(admin_step id [])\<^sup>*\<^sup>* sample_admin ?w2" by simp
  have status: "map_option prg_Status (map_of (pt_programs ?w2) 1) = Some ''READY''" by code_simp
  then have "map_of (pt_programs ?w2) 1 \<noteq> map_of (pt_programs sample_admin) 1" by (auto simp: sample_admin_def)
  with program_changes_announced [OF _ _ steps, of 1] status show ?thesis by (simp add: admin_ok_def sample_admin_def)
qed

end
