(* ===== verification/Program_Repair.thy ===== *)
theory Program_Repair
  imports Program_Admin
begin

text \<open>
  The reconciliation of the inventory (\<open>Reconciliation\<close>) with the MySQL catalog of \<open>Program_Tables\<close>: a repair fails where only the count in
  Redis is wrong.
\<close>

definition mysql_recon :: "string \<Rightarrow> admin_world recon_ports" where
  "mysql_recon keys =
     \<lparr>rp_ListTicketCategories = DB_ListTicketCategories, rp_UpdateTicketCategoryRemain = DB_UpdateTicketCategoryRemain,
      rp_GetRemain = (\<lambda>p c. liftG aw_redis (\<lambda>r w. w\<lparr>aw_redis := r\<rparr>) (Store_GetRemain keyspace_redis keys p c)),
      rp_SetRemain = (\<lambda>p c v. liftG aw_redis (\<lambda>r w. w\<lparr>aw_redis := r\<rparr>) (Store_SetRemain keyspace_redis keys p c v)),
      rp_HasActiveReservations = None, rp_SaveRecord = None, rp_NextID = None, rp_now = aw_clock\<rparr>"

text \<open>The count of a category in Redis, as the store reads it.\<close>

definition read_count :: "string \<Rightarrow> int64 \<Rightarrow> admin_world \<Rightarrow> int64 \<Rightarrow> error + int64 \<times> bool" where
  "read_count keys p w c = fst (Store_GetRemain keyspace_redis keys p c (aw_redis w))"

lemma get_count_run: "rp_GetRemain (mysql_recon keys) p c w = (read_count keys p w c, w)"
  by (auto simp: mysql_recon_def liftG_def read_count_def Store_GetRemain_def split: option.splits)

lemma update_unchanged:
  assumes "pt_faults w = []" and "\<And>c. c \<in> set (pt_categories w) \<Longrightarrow> tc_ID c = i \<Longrightarrow> tc_Remain c = v"
  shows "\<exists>w'. DB_UpdateTicketCategoryRemain i v w = (Inl (New CodeNotFound ''ticket category not found''), w') \<and> aw_redis w' = aw_redis w"
proof -
  have none: "filter (\<lambda>c. tc_ID c = i \<and> tc_Remain c \<noteq> v) (pt_categories w) = []" using assms(2) by (auto simp: filter_empty_conv)
  show ?thesis by (simp add: DB_UpdateTicketCategoryRemain_def bindG_def run_works [OF assms(1)] none failG_def)
qed

text \<open>A row that is right in MySQL: nothing is to be done, or the repair fails.\<close>

lemma compare_right_row:
  assumes "pt_faults w = []" and "expected_remain usage c = tc_Remain c" and "0 \<le> tc_Remain c" and "read_count keys p w (tc_ID c) = Inr (v, x)"
    and "\<And>c'. c' \<in> set (pt_categories w) \<Longrightarrow> tc_ID c' = tc_ID c \<Longrightarrow> tc_Remain c' = tc_Remain c"
  shows "if x \<and> v = tc_Remain c
    then \<exists>d. compareCategory (mysql_recon keys) p c (usage (tc_ID c)) True w = ((d, False, None), w)
    else \<exists>d w'. compareCategory (mysql_recon keys) p c (usage (tc_ID c)) True w = ((d, True, Some (New CodeNotFound ''ticket category not found'')), w')
      \<and> aw_redis w' = aw_redis w"
proof -
  have e: "wrap64 (tc_Total c - usage (tc_ID c)) = tc_Remain c" using assms(2) by (simp add: expected_remain_def)
  obtain w' where u: "rp_UpdateTicketCategoryRemain (mysql_recon keys) (tc_ID c) (tc_Remain c) w = (Inl (New CodeNotFound ''ticket category not found''), w')"
    "aw_redis w' = aw_redis w" using update_unchanged [OF assms(1,5)] by (auto simp: mysql_recon_def)
  show ?thesis using e u assms(3,4) by (auto simp: compareCategory_def Let_def get_count_run)
qed

lemma compare_right_rows:
  assumes "pt_faults w = []"
    and "\<And>c. c \<in> set cs \<Longrightarrow> expected_remain usage c = tc_Remain c \<and> 0 \<le> tc_Remain c \<and> (\<exists>vx. read_count keys p w (tc_ID c) = Inr vx)"
    and "\<And>c c'. c \<in> set cs \<Longrightarrow> c' \<in> set (pt_categories w) \<Longrightarrow> tc_ID c' = tc_ID c \<Longrightarrow> tc_Remain c' = tc_Remain c"
    and "\<exists>c \<in> set cs. read_count keys p w (tc_ID c) \<noteq> Inr (tc_Remain c, True)"
  shows "\<exists>res' w'. compare_all (mysql_recon keys) p usage True cs res w = (Inl (New CodeNotFound ''ticket category not found'', res'), w') \<and> aw_redis w' = aw_redis w"
  using assms(2-4)
proof (induction cs arbitrary: res)
  case (Cons c cs)
  obtain v x where r: "read_count keys p w (tc_ID c) = Inr (v, x)" using Cons.prems(1) [of c] by auto
  have e: "expected_remain usage c = tc_Remain c" "0 \<le> tc_Remain c" using Cons.prems(1) [of c] by simp_all
  have one: "if x \<and> v = tc_Remain c
    then \<exists>d. compareCategory (mysql_recon keys) p c (usage (tc_ID c)) True w = ((d, False, None), w)
    else \<exists>d w'. compareCategory (mysql_recon keys) p c (usage (tc_ID c)) True w = ((d, True, Some (New CodeNotFound ''ticket category not found'')), w')
      \<and> aw_redis w' = aw_redis w"
    by (rule compare_right_row [OF assms(1) e r]) (rule Cons.prems(2), simp_all)
  show ?case
  proof (cases "x \<and> v = tc_Remain c")
    case True
    then obtain d where "compareCategory (mysql_recon keys) p c (usage (tc_ID c)) True w = ((d, False, None), w)" using one by (simp only: simp_thms if_True) blast
    moreover have "\<exists>c \<in> set cs. read_count keys p w (tc_ID c) \<noteq> Inr (tc_Remain c, True)" using Cons.prems(3) True r by auto
    moreover have "\<exists>res' w'. compare_all (mysql_recon keys) p usage True cs res1 w
      = (Inl (New CodeNotFound ''ticket category not found'', res'), w') \<and> aw_redis w' = aw_redis w" for res1
      by (rule Cons.IH) (rule Cons.prems(1) Cons.prems(2) calculation(2) list.set_intros(2); assumption?)+
    ultimately show ?thesis by simp
  next
    case False
    then obtain d w' where "compareCategory (mysql_recon keys) p c (usage (tc_ID c)) True w = ((d, True, Some (New CodeNotFound ''ticket category not found'')), w')"
      and w': "aw_redis w' = aw_redis w" using one by (simp only: if_False) blast
    moreover have "saveRecord (mysql_recon keys) p d w' = (Inr (), w')" by (simp add: saveRecord_def mysql_recon_def returnG_def)
    ultimately show ?thesis using w' by (simp add: Let_def)
  qed
qed simp


definition sample_repair :: admin_world where
  "sample_repair = sample_admin\<lparr>pt_faults := [], pt_categories := [sample_category\<lparr>tc_Remain := 7\<rparr>]\<rparr>"


end
