(* ===== verification/Spec2Isabelle.thy ===== *)
theory Spec2Isabelle
  imports App_Errors Id_Gen Sharding Seat_Ledger Payments Order_Consumer Compensation
    Purchase_World Order_Reconciliation Inventory_Bootstrap Order_Query Migration_Orders
    Guard_Safety Gateway_Services Redis_Queue Program_Repair
begin

text \<open>
  TicketHub (\<open>src/\<close>) sells tickets. Its Go services are separate processes that talk over gRPC and over a message
  broker. The program service owns the catalog, the seats and the counts of tickets that are left; it takes a
  purchase, locks the seats in Redis and publishes a create-order event. The order service consumes the event,
  stores the order in a sharded database, closes it when it is not paid in time, and answers the payment service.
  The payment service turns the callbacks of a payment gateway into paid, closed or refunded payments. The
  migration service moves virtual shards of the order database from one location to another while orders are
  written. The user service registers users behind captchas and rate limits and keeps their private data encrypted. The gateway
  checks the tokens of the clients and calls the services for them. This development models these services as functions on
  explicit states and proves what makes them correct, each alone and together.

  \<^bold>\<open>Conventions.\<close> \<open>TH_Prelude\<close> has the integers of Go (\<open>wrap64\<close> where the source can overflow), its strings and
  the programs \<open>('s, 'a) go\<close>: functions from a state to an error or a value, with the new state, composed by
  \<open>bindG\<close>, \<open>attemptG\<close> (look at the error), \<open>deferG\<close> (Go's \<open>defer\<close>) and \<open>liftG\<close> (run on a field of the state). A
  struct of the source is a record, an interface is a record of programs (its ports), and a service is a definition over
  its ports. What every implementation of an interface promises is a locale; the locales are interpreted on the
  models of the in-memory, Redis or MySQL implementations of the repository, and the properties are stated over
  these models.

  \<^bold>\<open>Theories and sources.\<close>
  \<^item> \<open>App_Errors\<close>: \<open>pkg/errors\<close>. Error codes survive the translation to gRPC statuses and back.
  \<^item> \<open>Id_Gen\<close>: \<open>pkg/idgen\<close>. Order numbers and Snowflake identifiers: unique, increasing, and order numbers carry the
    gene of their user, which decides the shard.
  \<^item> \<open>Sharding\<close>: \<open>pkg/sharding\<close>. Modulo, gene and mapping routers (locale \<open>order_router\<close>): an order is found where it
    was written, with or without its user; replacing the mappings is all or nothing; dual writing covers the shadow.
  \<^item> \<open>Redis_Server\<close>: the Redis commands the services use (locale \<open>redis_server\<close>), a keyspace that implements them, and
    \<open>pkg/redis\<close> (key builder).
  \<^item> \<open>Program_Domain\<close>, \<open>Program_Repository\<close>: \<open>program-service/internal/domain\<close>, the in-memory catalog and the queries.
  \<^item> \<open>Redis_Inventory\<close>, \<open>Seat_Ledger\<close>: the four Lua scripts of the seat inventory with their Go adapters
    (\<open>infrastructure/redis/inventory_locker.go\<close>, \<open>seat_state_writer.go\<close>). The scripts refine an abstract ledger of
    owners and counts (locale \<open>seat_store\<close>); over any run of the adapters a sold seat stays sold, a seat changes hands
    only when it was free, and no count becomes negative.
  \<^item> \<open>Locks\<close>: \<open>pkg/lock\<close>, in-process and Redis (locale \<open>named_lock\<close>).
  \<^item> \<open>Orders\<close>, \<open>Order_Commands\<close>: the order entity, its in-memory repository and \<open>application/order_command.go\<close>
    (locale \<open>order_store\<close>): the status machine, payment callbacks, cancellation and refunds under the order lock.
  \<^item> \<open>Events\<close>, \<open>Delay_Queue\<close>, \<open>Order_Consumer\<close>, \<open>Compensation\<close>: the broker, the delay queue, the consumer that creates orders,
    the worker that closes expired orders, and the retry of discarded orders.
  \<^item> \<open>Payments\<close>: the pay service with its in-memory and MySQL repositories (locale \<open>pay_store\<close>).
  \<^item> \<open>Idempotency\<close>, \<open>Purchase\<close>, \<open>Purchase_World\<close>: \<open>CreateAsync\<close> with its validation, pricing, idempotency (locale
    \<open>idempotency_store\<close>), seat lock, publication and roll-back, wired to the in-memory and to the Redis inventory.
  \<^item> \<open>Reconciliation\<close>, \<open>Inventory_Bootstrap\<close>, \<open>Order_Reconciliation\<close>: comparing and repairing counts, filling them at
    start-up, and the reconciliation the order service asks for over gRPC.
  \<^item> \<open>Seat_Service\<close>: the gRPC handlers for seats and the order service's client of them (locales \<open>ticket_sales\<close>,
    \<open>seat_rpc\<close>): paid seats stay sold, seats of canceled orders return.
  \<^item> \<open>Go_Base64\<close>, \<open>Order_Query\<close>: reading orders page by page with opaque cursors.
  \<^item> \<open>Redis_Queue\<close>: \<open>pkg/delayqueue/redis_queue.go\<close>. It keeps the contract of the delay queue (locale \<open>delay_queue\<close>), with calls of the
    client library that fail before or after the command is executed.
  \<^item> \<open>Order_Tables\<close>, \<open>Sharded_Orders\<close>, \<open>Shard_Writes\<close>: the MySQL repositories of orders, on tables whose statements may be refused or
    lose their reply. A row only moves along the status machine, and a saved order is found.
  \<^item> \<open>Migration\<close>, \<open>Migration_Control\<close>, \<open>Migration_Safety\<close>, \<open>Migration_Steps\<close>, \<open>Migration_Orders\<close>: the migration service, what its statements do to the
    tables, and its steps interleaved with those of the order services: no order is lost or set back.
  \<^item> \<open>Privacy\<close>, \<open>User_Accounts\<close>, \<open>User_Registration\<close>, \<open>User_Server\<close>: \<open>pkg/privacy\<close>, \<open>pkg/auth\<close> and the user service: a mobile number is
    registered once, who has registered can log in.
  \<^item> \<open>Registration_Guard\<close>, \<open>Guard_Safety\<close>: rate limits, captchas and the Bloom filter of the registration, with their scripts (locale
    \<open>guard_server\<close>): a captcha is passed at most once.
  \<^item> \<open>Http\<close>: \<open>pkg/httpx\<close>, with the address of a client behind proxies.
  \<^item> \<open>Gateway\<close>, \<open>Gateway_Access\<close>: \<open>gateway-bff\<close>, all routes; which calls a request can lead to.
  \<^item> \<open>Pay_Http\<close>, \<open>Order_Http\<close>, \<open>User_Http\<close>: the HTTP handlers of the payment, order, user and migration services.
  \<^item> \<open>Gateway_Services\<close>: the gateway with the handlers behind it: an order is canceled only by its owner; a payment callback
    carries no proof of where it comes from.
  \<^item> \<open>Program_Tables\<close>, \<open>Outbox\<close>: the MySQL catalog of the program service and its outbox, with the publisher that sends stored
    events to the broker (locale \<open>table_order\<close>: what every statement keeps, also one that is refused or loses its reply): a stored event reaches the broker at least once.
  \<^item> \<open>Program_Admin\<close>: drafts and status changes of programs, stored together with the event that announces them.
  \<^item> \<open>Program_Repair\<close>: the reconciliation on the MySQL catalog; a count that is wrong only in Redis is not repaired.
  \<^item> this theory: the payment service, the order service and the gateway together on a late payment.

  \<^bold>\<open>Loops.\<close> Loops over slices are structural recursion. Three loops have no structural bound: the wait for the
  next millisecond (\<open>waitNextMillis\<close>), the start-up loop over the categories (\<open>bootstrap_loop\<close>) and a client that walks the
  pages of an order list (\<open>walk_pages\<close>). They are \<open>partial_function (option)\<close>, where \<open>None\<close> is a loop that never ends, and
  are proved to return. The retry loop of the create-order runner has fuel for the attempts that fit before its
  context ends; the theorems hold for any fuel.

  \<^bold>\<open>Parameters.\<close> Code outside the repository is an argument: the Redis commands and the executor of scripts
  (\<open>redis_server\<close>, \<open>guard_server\<close>, \<open>queue_server\<close>, each with laws that a keyspace of the development satisfies), the delivery of a gRPC
  call (\<open>wire\<close>: the reply arrives, or an error does), the HTTP client of the gateway (\<open>reaches\<close>: which service a call is delivered to), the answers of the broker (a list of faults), the order that the
  database gives to strings, the text of JSON documents (\<open>json_codec\<close>),
  cryptographic primitives (\<open>crypto\<close>: opening what was sealed gives it back), \<open>net/netip\<close>, random nonces and captchas, the rounding of times
  in a \<open>DATETIME(3)\<close> column (\<open>dt\<close>, idempotent), the faults of statements and of calls (lists that are consumed), and the clock
  (a sequence of readings, or the time \<open>now\<close> of a call). Iteration over a Go map, whose order is not fixed, is modelled by an
  association list in insertion order where the order can be seen. A call of a service is one step: a handler runs to its end, and
  concurrent calls interleave between handlers, except where the model splits a handler into the commands it sends. The clocks
  of the migration service and of its database differ by at most five seconds. The theorems on the Redis delay queue start without
  messages of the queue's older layout; the code that moves them is modelled.

  \<^bold>\<open>Not modelled.\<close> Generated protocol code; process set-up, configuration, metrics and logging; goroutines that call a modelled
  step in a loop; the Elasticsearch index and the caches of the catalog; the Kafka client; the small read-only services; the one-off
  migration of old plain columns; load generators and the front end.
\<close>

section \<open>A payment that comes too late\<close>

lemma memory_settle_refund:
  assumes "settle (memory_pay wire) n amount channel paid res w = (Inr (), w')" and "opr_RefundRequired res" and "0 < opr_AmountCent res"
  shows "\<exists>item'. MarkRefunded memory_ports n (w\<lparr>pw_refunds := pw_refunds w @ [\<lparr>ref_RequestID = refundRequestID n, ref_OrderNumber = n,
        ref_AmountCent = opr_AmountCent res, ref_Reason = ''payment received after order cancellation'', ref_Success = False\<rparr>],
      pw_payments := AList.update n \<lparr>pay_OrderNumber = n, pay_AmountCent = opr_AmountCent res, pay_Channel = channel, pay_Status = PaymentRefunded\<rparr> (pw_payments w)\<rparr>)
    = (Inr item', w')"
  using assms
  by (auto simp: settle_def Let_def memory_pay_def logged_refund_def Mock_Refund_def liftG_def Payment_Save_def rpc_order_client_def over_wire_def
      Server_MarkOrderRefunded_def bindG_def attemptG_def go_simps split: prod.splits sum.splits)

lemma memory_callback_run:
  fixes w :: "'z pay_world_scheme"
  assumes "callback (memory_pay wire) n amount channel True w = (Inr (), w')"
    and "\<And>p. map_of (pw_payments w) n = Some p \<Longrightarrow> pay_Status p \<noteq> PaymentRefunded"
  shows "\<exists>res w1. HandlePaymentCallback memory_ports n amount True w = (Inr res, w1)
    \<and> settle (memory_pay wire) n amount channel True \<lparr>opr_Status = pcr_Status res, opr_RefundRequired = pcr_RefundRequired res, opr_AmountCent = pcr_AmountCent res\<rparr> w1 = (Inr (), w')"
proof -
  have "pp_Find (memory_pay wire) n w = (case map_of (pw_payments w) n of None \<Rightarrow> (Inl (New CodeNotFound ''payment not found''), w) | Some p \<Rightarrow> (Inr p, w))"
    by (auto simp: memory_pay_def liftG_def Payment_Find_def split: option.splits)
  moreover have "pp_orders (memory_pay wire :: 'z pay_world_scheme pay_ports) = Some (rpc_order_client wire memory_ports)" by (simp add: memory_pay_def)
  ultimately have "bindG (over_wire wire (Server_HandlePaymentCallback memory_ports n amount True)) (settle (memory_pay wire) n amount channel True) w = (Inr (), w')"
    using assms by (auto simp: callback_def attemptG_def Let_def rpc_order_client_def failG_def IsCode_New split: option.splits)
  then show ?thesis
    by (auto simp: over_wire_def Server_HandlePaymentCallback_def attemptG_def bindG_def go_simps split: prod.splits sum.splits)
qed

lemma memory_Callback_run:
  fixes w :: "'z pay_world_scheme"
  assumes "Callback (memory_pay wire) n amount channel paid w = (Inr (), w')"
  shows "\<exists>w1 w2. callback (memory_pay wire) n amount channel paid w1 = (Inr (), w2) \<and> same_pay w w1 \<and> ow_orders w1 = ow_orders w
    \<and> same_pay w2 w' \<and> ow_orders w' = ow_orders w2"
proof -
  let ?rel = "\<lambda>h. liftG ow_locks (\<lambda>l w :: 'z pay_world_scheme. w\<lparr>ow_locks := l\<rparr>) (memoryLock_Release h)"
  have "pp_locker (memory_pay wire :: 'z pay_world_scheme pay_ports) = Some (world_Acquire, ?rel)" by (simp add: memory_pay_def memory_ports_def)
  then have "Callback (memory_pay wire) n amount channel paid w = bindG (world_Acquire (''tickethub:payment-lock:'' @ show_int n) (pp_lockTTL (memory_pay wire :: 'z pay_world_scheme pay_ports)))
      (\<lambda>locked. deferG (callback (memory_pay wire) n amount channel paid) (?rel locked)) w"
    by (simp add: Callback_def withPaymentLock_def)
  with assms obtain h w1 where a: "world_Acquire (''tickethub:payment-lock:'' @ show_int n) (pp_lockTTL (memory_pay wire :: 'z pay_world_scheme pay_ports)) w = (Inr h, w1)"
    and d: "deferG (callback (memory_pay wire) n amount channel paid) (?rel h) w1 = (Inr (), w')" by (auto elim: bindG_result)
  from d obtain w2 where c: "callback (memory_pay wire) n amount channel paid w1 = (Inr (), w2)" and w': "w' = snd (?rel h w2)"
    by (auto simp: deferG_def split: prod.splits)
  from a have "same_pay w w1 \<and> ow_orders w1 = ow_orders w" by (auto simp: world_Acquire_def liftG_def same_pay_def split: prod.splits)
  moreover from w' have "same_pay w2 w' \<and> ow_orders w' = ow_orders w2" by (simp add: liftG_def same_pay_def split: prod.splits)
  ultimately show ?thesis using c by blast
qed

text \<open>
  C5. Late payments are paid back. When the payment service has processed the callback of a payment for an order that
  was canceled before, and had not refunded it yet, the order is refunded, the payment is recorded as refunded
  with the order's amount, and the gateway was asked for exactly one refund, of that amount and under the
  request identifier of the order.
\<close>

theorem late_payment_refunded:
  assumes "repo_ok (ow_orders w)" and "map_of (ow_orders w) n = Some item" and "ord_Status item = StatusCancel" and "0 < ord_AmountCent item"
    and "\<And>p. map_of (pw_payments w) n = Some p \<Longrightarrow> pay_Status p \<noteq> PaymentRefunded"
    and "Callback (memory_pay wire) n amount channel True w = (Inr (), w')"
  shows "amount = ord_AmountCent item
    \<and> (\<exists>item'. map_of (ow_orders w') n = Some item' \<and> order_evolves item item' \<and> ord_Status item' = StatusRefund)
    \<and> map_of (pw_payments w') n = Some \<lparr>pay_OrderNumber = n, pay_AmountCent = amount, pay_Channel = channel, pay_Status = PaymentRefunded\<rparr>
    \<and> pw_refunds w' = pw_refunds w @ [\<lparr>ref_RequestID = refundRequestID n, ref_OrderNumber = n, ref_AmountCent = amount,
        ref_Reason = ''payment received after order cancellation'', ref_Success = False\<rparr>]"
proof -
  from memory_Callback_run [OF assms(6)] obtain w1 w2 where w1: "callback (memory_pay wire) n amount channel True w1 = (Inr (), w2)"
    "same_pay w w1" "ow_orders w1 = ow_orders w" and w': "same_pay w2 w'" "ow_orders w' = ow_orders w2" by blast
  from memory_callback_run [OF w1(1)] assms(5) w1(2) obtain res w3 where
    h: "HandlePaymentCallback memory_ports n amount True w1 = (Inr res, w3)" and
    s: "settle (memory_pay wire) n amount channel True \<lparr>opr_Status = pcr_Status res, opr_RefundRequired = pcr_RefundRequired res, opr_AmountCent = pcr_AmountCent res\<rparr> w3 = (Inr (), w2)"
    by (auto simp: same_pay_def)
  have ok1: "repo_ok (ow_orders w1)" using assms(1) w1(3) by simp
  from memory_orders.callback_result [OF h ok1] assms(2,3) w1(3)
  have res: "amount = ord_AmountCent item" "pcr_RefundRequired res" "pcr_AmountCent res = amount" "map_of (ow_orders w3) = map_of (ow_orders w)"
    by (auto simp: fun_upd_idem)
  have w3: "same_pay w1 w3" "repo_ok (ow_orders w3)"
    using same_pay.order_commands_keep(5) [OF memory_ports_same_pay, of n amount True] memory_orders.commands_evolve(4) [of n amount True] h ok1
    by (auto simp: keepsG_def memory_orders.evolves_def dest!: spec [of _ w1])
  from memory_settle_refund [OF s] res assms(4) obtain item' where
    m: "MarkRefunded memory_ports n (w3\<lparr>pw_refunds := pw_refunds w3 @ [\<lparr>ref_RequestID = refundRequestID n, ref_OrderNumber = n,
        ref_AmountCent = amount, ref_Reason = ''payment received after order cancellation'', ref_Success = False\<rparr>],
      pw_payments := AList.update n \<lparr>pay_OrderNumber = n, pay_AmountCent = amount, pay_Channel = channel, pay_Status = PaymentRefunded\<rparr> (pw_payments w3)\<rparr>)
    = (Inr item', w2)" by auto
  have "same_pay (w3\<lparr>pw_refunds := rs, pw_payments := ps\<rparr>) w2 \<longleftrightarrow> pw_refunds w2 = rs \<and> pw_payments w2 = ps" for rs ps by (auto simp: same_pay_def)
  with same_pay.order_commands_keep(6) [OF memory_ports_same_pay, of n] m have pay: "pw_refunds w2 = pw_refunds w3 @ [\<lparr>ref_RequestID = refundRequestID n, ref_OrderNumber = n,
        ref_AmountCent = amount, ref_Reason = ''payment received after order cancellation'', ref_Success = False\<rparr>]"
      "pw_payments w2 = AList.update n \<lparr>pay_OrderNumber = n, pay_AmountCent = amount, pay_Channel = channel, pay_Status = PaymentRefunded\<rparr> (pw_payments w3)"
    unfolding keepsG_def by (metis snd_conv)+
  from memory_orders.MarkRefunded_result [OF m] w3(2) res(4) assms(2) have "map_of (ow_orders w2) n = Some item'" "order_evolves item item'" "ord_Status item' = StatusRefund" by auto
  with pay w' w1(2) w3(1) res(1) show ?thesis by (simp add: same_pay_def update_conv')
qed

lemma late_payment_run: "fst (Callback (memory_pay id) 42 500 ''mock'' True sample_pay) = Inr ()"
  by (simp add: Callback_def withPaymentLock_def callback_def settle_def memory_pay_def Payment_Find_def Payment_Save_def logged_refund_def Mock_Refund_def
      rpc_order_client_def over_wire_def Server_HandlePaymentCallback_def Server_MarkOrderRefunded_def MarkRefunded_def Order_MarkRefund_def
      run_defs modifyG_def sample_pay_def Let_def IsCode_New)

theorem late_payment_refunded_witness:
  "\<exists>item'. map_of (ow_orders (snd (Callback (memory_pay id) 42 500 ''mock'' True sample_pay))) 42 = Some item' \<and> ord_Status item' = StatusRefund"
proof -
  have "repo_ok (ow_orders sample_pay)" by (simp add: repo_ok_def sample_pay_def sample_order_def Order_New_def)
  from late_payment_refunded [OF this _ _ _ _ run_of_fst [OF late_payment_run]] show ?thesis
    by (auto simp: sample_pay_def sample_order_def Order_New_def)
qed

end
